(* ===== verification/Prelude.thy ===== *)
theory Prelude
  imports Main "HOL-Library.Word" "HOL-Library.Monad_Syntax"
begin

text \<open>
  Shared notation and automation of the development: the C types as words, checked access to
  C arrays (an index out of range is the value None, which stands for undefined behaviour), and
  the generic lemmas on lists, options and words that several components use. The collection
  \<open>arr\<close> gathers the facts on checked array access.
\<close>

unbundle bit_operations_syntax

named_theorems arr \<open>checked array access\<close>

section \<open>C types\<close>

type_synonym u8 = "8 word"
type_synonym u16 = "16 word"
type_synonym u32 = "32 word"

text \<open>\<open>CLOCK\<close> is \<open>uint32_t\<close> (types.h); \<open>CLOCK_MAX\<close> is \<open>~((CLOCK)0)\<close>.\<close>

type_synonym clock = "32 word"

abbreviation CLOCK_MAX :: clock where
  "CLOCK_MAX \<equiv> - 1"

text \<open>A C truth value: any non-zero integer counts as true.\<close>

abbreviation truth :: "'a::len word \<Rightarrow> bool" where
  "truth w \<equiv> w \<noteq> 0"

section \<open>Checked arrays\<close>

definition arr_get :: "'a list \<Rightarrow> int \<Rightarrow> 'a option" where
  "arr_get xs i = (if 0 \<le> i \<and> nat i < length xs then Some (xs ! nat i) else None)"

definition arr_set :: "'a list \<Rightarrow> int \<Rightarrow> 'a \<Rightarrow> 'a list option" where
  "arr_set xs i x = (if 0 \<le> i \<and> nat i < length xs then Some (xs[nat i := x]) else None)"

lemma arr_get_Some_iff [arr]:
  "arr_get xs i = Some x \<longleftrightarrow> 0 \<le> i \<and> nat i < length xs \<and> x = xs ! nat i"
  by (auto simp: arr_get_def)

lemma arr_set_Some_iff [arr]:
  "arr_set xs i x = Some ys \<longleftrightarrow> 0 \<le> i \<and> nat i < length xs \<and> ys = xs[nat i := x]"
  by (auto simp: arr_set_def)

lemma arr_get_int [simp]: "k < length xs \<Longrightarrow> arr_get xs (int k) = Some (xs ! k)"
  by (simp add: arr_get_def)

lemma arr_set_int [simp]: "k < length xs \<Longrightarrow> arr_set xs (int k) x = Some (xs[k := x])"
  by (simp add: arr_set_def)

lemma arr_get_neg [simp]: "i < 0 \<Longrightarrow> arr_get xs i = None"
  by (simp add: arr_get_def)

lemma arr_set_length [arr]: "arr_set xs i x = Some ys \<Longrightarrow> length ys = length xs"
  by (auto simp: arr_set_def split: if_splits)

section \<open>Statements\<close>

text \<open>The statements of a C block that only update a state, one after the other.\<close>

primrec stmts :: "('a \<Rightarrow> 'a) list \<Rightarrow> 'a \<Rightarrow> 'a" where
  "stmts [] s = s"
| "stmts (f # fs) s = stmts fs (f s)"

text \<open>
  A loop whose round \<open>k\<close> is the only one that changes the entry \<open>R\<close>, under the condition \<open>Q\<close>:
  after the loop the entry is what that round writes.
\<close>

lemma fold_at:
  assumes "\<And>i T. i \<in> set xs \<Longrightarrow> R (f i T) = (if i = k \<and> Q then v else R T)"
  shows "R (fold f xs T) = (if k \<in> set xs \<and> Q then v else R T)"
  using assms by (induction xs arbitrary: T) auto

lemma fold_frame:
  assumes "\<And>i T. i \<in> set xs \<Longrightarrow> R (f i T) = R T"
  shows "R (fold f xs T) = R T"
  using assms by (induction xs arbitrary: T) auto

section \<open>Words\<close>

lemma word_max_ge [simp]: "(w :: 'a::len word) \<le> - 1"
  by (rule word_order.extremum)

lemma word_lt_max_iff: "(w :: 'a::len word) < - 1 \<longleftrightarrow> w \<noteq> - 1"
  by (simp add: less_le)

end
