(* ===== verification/Alarm.thy ===== *)
theory Alarm
  imports Prelude
begin

text \<open>
  The alarm queue of alarm.c and alarm.h: every emulated chip registers alarms in a context and
  asks for them to be dispatched at a clock tick. A context holds an unsorted array of pending
  alarms with the cached tick and index of the next one, and a doubly linked list of all its
  alarms. Pointers to \<open>alarm_t\<close> are numbers into a heap; a dangling pointer or an array index
  out of range is the result None. Function pointers and their data are opaque numbers:
  dispatching returns which callback runs with which offset and data.

  The first part translates the operations, the second gives the representation invariant
  \<open>alarm_inv\<close> and shows that every operation keeps it and never fails under it, the third is
  the interface \<open>alarm_queue\<close> that clients use, with its interpretation on this model.
\<close>

section \<open>State\<close>

definition ALARM_CONTEXT_MAX_PENDING_ALARMS :: nat where
  "ALARM_CONTEXT_MAX_PENDING_ALARMS = 256"

record alarm =
  alarm_name :: string
  alarm_callback :: nat
  pending_idx :: int
  alarm_data :: nat
  alarm_next :: "nat option"
  alarm_prev :: "nat option"

record pending_alarms =
  pa_alarm :: nat
  pa_clk :: clock

record alarm_context =
  context_name :: string
  alarms :: "nat option"
  pending_alarms :: "pending_alarms list"
  num_pending_alarms :: nat
  next_pending_alarm_clk :: clock
  next_pending_alarm_idx :: int

text \<open>A context together with the heap its alarms live in.\<close>

record alarm_sys =
  actx :: alarm_context
  heap :: "nat \<rightharpoonup> alarm"

section \<open>Operations\<close>

text \<open>
  \<open>alarm_context_init\<close> writes the name, the list head, the count and the sentinel; the array and
  the cached index keep whatever the allocated memory held.
\<close>

definition alarm_context_init :: "alarm_context \<Rightarrow> string \<Rightarrow> alarm_context" where
  "alarm_context_init ctx name = ctx\<lparr>context_name := name, alarms := None,
     num_pending_alarms := 0, next_pending_alarm_clk := CLOCK_MAX\<rparr>"

text \<open>The memory that \<open>lib_malloc\<close> returns is the argument \<open>mem\<close>.\<close>

definition alarm_context_new :: "alarm_context \<Rightarrow> string \<Rightarrow> alarm_context" where
  "alarm_context_new mem name = alarm_context_init mem name"

definition warp :: "int \<Rightarrow> clock \<Rightarrow> clock \<Rightarrow> clock" where
  "warp dir amount c = (if 0 < dir then c + amount else c - amount)"

fun warp_pending :: "nat \<Rightarrow> int \<Rightarrow> clock \<Rightarrow> pending_alarms list \<Rightarrow> pending_alarms list" where
  "warp_pending 0 dir amount ps = ps"
| "warp_pending (Suc n) dir amount [] = []"
| "warp_pending (Suc n) dir amount (p # ps) =
     p\<lparr>pa_clk := warp dir amount (pa_clk p)\<rparr> # warp_pending n dir amount ps"

definition alarm_context_time_warp :: "alarm_context \<Rightarrow> clock \<Rightarrow> int \<Rightarrow> alarm_context" where
  "alarm_context_time_warp ctx warp_amount warp_direction =
     (if warp_direction = 0 then ctx
      else ctx\<lparr>pending_alarms :=
                 warp_pending (num_pending_alarms ctx) warp_direction warp_amount (pending_alarms ctx),
               next_pending_alarm_clk :=
                 warp warp_direction warp_amount (next_pending_alarm_clk ctx)\<rparr>)"

definition alarm_context_next_pending_clk :: "alarm_context \<Rightarrow> clock" where
  "alarm_context_next_pending_clk ctx = next_pending_alarm_clk ctx"

text \<open>The scan of \<open>alarm_context_update_next_pending\<close>: \<open>i\<close> is the index of the head of the rest.\<close>

fun update_next_loop :: "pending_alarms list \<Rightarrow> nat \<Rightarrow> clock \<Rightarrow> int \<Rightarrow> clock \<times> int" where
  "update_next_loop [] i clk idx = (clk, idx)"
| "update_next_loop (p # ps) i clk idx =
     (if pa_clk p \<le> clk then update_next_loop ps (Suc i) (pa_clk p) (int i)
      else update_next_loop ps (Suc i) clk idx)"

definition alarm_context_update_next_pending :: "alarm_context \<Rightarrow> alarm_context" where
  "alarm_context_update_next_pending ctx =
     (let (clk, idx) = update_next_loop (take (num_pending_alarms ctx) (pending_alarms ctx)) 0
                         CLOCK_MAX (next_pending_alarm_idx ctx)
      in ctx\<lparr>next_pending_alarm_clk := clk, next_pending_alarm_idx := idx\<rparr>)"

text \<open>\<open>alarm_init\<close> links a freshly allocated alarm at the head of the context's list.\<close>

definition alarm_init :: "nat \<Rightarrow> string \<Rightarrow> nat \<Rightarrow> nat \<Rightarrow> alarm_sys \<Rightarrow> alarm_sys option" where
  "alarm_init a name callback data s =
     (let al = \<lparr>alarm_name = name, alarm_callback = callback, pending_idx = - 1,
                alarm_data = data, alarm_next = alarms (actx s), alarm_prev = None\<rparr>
      in case alarms (actx s) of
           None \<Rightarrow> Some (s\<lparr>actx := (actx s)\<lparr>alarms := Some a\<rparr>, heap := (heap s)(a \<mapsto> al)\<rparr>)
         | Some h \<Rightarrow> do {
             hd_al \<leftarrow> heap s h;
             Some (s\<lparr>actx := (actx s)\<lparr>alarms := Some a\<rparr>,
                     heap := (heap s)(h \<mapsto> hd_al\<lparr>alarm_prev := Some a\<rparr>, a \<mapsto> al)\<rparr>)
           })"

text \<open>\<open>alarm_new\<close>: the address \<open>a\<close> is the one \<open>lib_malloc\<close> returns, not yet in use.\<close>

definition alarm_new :: "nat \<Rightarrow> string \<Rightarrow> nat \<Rightarrow> nat \<Rightarrow> alarm_sys \<Rightarrow> alarm_sys option" where
  "alarm_new a name callback data s = alarm_init a name callback data s"

definition set_pending_idx :: "nat \<Rightarrow> int \<Rightarrow> alarm_sys \<Rightarrow> alarm_sys option" where
  "set_pending_idx a i s = do {
     al \<leftarrow> heap s a;
     Some (s\<lparr>heap := (heap s)(a \<mapsto> al\<lparr>pending_idx := i\<rparr>)\<rparr>)
   }"

definition alarm_unset :: "nat \<Rightarrow> alarm_sys \<Rightarrow> alarm_sys option" where
  "alarm_unset a s = do {
     al \<leftarrow> heap s a;
     let idx = pending_idx al;
     if idx < 0 then Some s
     else do {
       let ctx = actx s;
       s' \<leftarrow> (if 1 < num_pending_alarms ctx then do {
               let last = num_pending_alarms ctx - 1;
               let ctx1 = ctx\<lparr>num_pending_alarms := last\<rparr>;
               (ctx2, s2) \<leftarrow> (if int last \<noteq> idx then do {
                   lp \<leftarrow> arr_get (pending_alarms ctx1) (int last);
                   ps \<leftarrow> arr_set (pending_alarms ctx1) idx lp;
                   s2 \<leftarrow> set_pending_idx (pa_alarm lp) idx s;
                   Some (ctx1\<lparr>pending_alarms := ps\<rparr>, s2)
                 } else Some (ctx1, s));
               let ctx3 = (if next_pending_alarm_idx ctx2 = idx
                           then alarm_context_update_next_pending ctx2
                           else if next_pending_alarm_idx ctx2 = int last
                           then ctx2\<lparr>next_pending_alarm_idx := idx\<rparr>
                           else ctx2);
               Some (s2\<lparr>actx := ctx3\<rparr>)
             } else Some (s\<lparr>actx := ctx\<lparr>num_pending_alarms := 0,
                       next_pending_alarm_clk := CLOCK_MAX, next_pending_alarm_idx := - 1\<rparr>\<rparr>));
       set_pending_idx a (- 1) s'
     }
   }"

definition alarm_set :: "nat \<Rightarrow> clock \<Rightarrow> alarm_sys \<Rightarrow> alarm_sys option" where
  "alarm_set a cpu_clk s = do {
     al \<leftarrow> heap s a;
     let idx = pending_idx al;
     let ctx = actx s;
     if idx < 0 then do {
       let new_idx = num_pending_alarms ctx;
       if ALARM_CONTEXT_MAX_PENDING_ALARMS \<le> new_idx then Some s
       else do {
         ps \<leftarrow> arr_set (pending_alarms ctx) (int new_idx) \<lparr>pa_alarm = a, pa_clk = cpu_clk\<rparr>;
         let ctx1 = ctx\<lparr>pending_alarms := ps, num_pending_alarms := Suc new_idx\<rparr>;
         let ctx2 = (if cpu_clk < next_pending_alarm_clk ctx1
                     then ctx1\<lparr>next_pending_alarm_clk := cpu_clk,
                               next_pending_alarm_idx := int new_idx\<rparr>
                     else ctx1);
         set_pending_idx a (int new_idx) (s\<lparr>actx := ctx2\<rparr>)
       }
     } else do {
       p \<leftarrow> arr_get (pending_alarms ctx) idx;
       ps \<leftarrow> arr_set (pending_alarms ctx) idx (p\<lparr>pa_clk := cpu_clk\<rparr>);
       let ctx1 = ctx\<lparr>pending_alarms := ps\<rparr>;
       Some (s\<lparr>actx := (if cpu_clk < next_pending_alarm_clk ctx1
                          \<or> idx = next_pending_alarm_idx ctx1
                        then alarm_context_update_next_pending ctx1 else ctx1)\<rparr>)
     }
   }"

definition set_prev :: "nat \<Rightarrow> nat option \<Rightarrow> (nat \<rightharpoonup> alarm) \<Rightarrow> (nat \<rightharpoonup> alarm) option" where
  "set_prev a v h = do { al \<leftarrow> h a; Some (h(a \<mapsto> al\<lparr>alarm_prev := v\<rparr>)) }"

definition set_next :: "nat \<Rightarrow> nat option \<Rightarrow> (nat \<rightharpoonup> alarm) \<Rightarrow> (nat \<rightharpoonup> alarm) option" where
  "set_next a v h = do { al \<leftarrow> h a; Some (h(a \<mapsto> al\<lparr>alarm_next := v\<rparr>)) }"

text \<open>\<open>alarm_destroy\<close>; the NULL argument is None.\<close>

definition alarm_destroy :: "nat option \<Rightarrow> alarm_sys \<Rightarrow> alarm_sys option" where
  "alarm_destroy ao s = (case ao of None \<Rightarrow> Some s | Some a \<Rightarrow> do {
     s1 \<leftarrow> alarm_unset a s;
     al \<leftarrow> heap s1 a;
     let ctx = (if alarms (actx s1) = Some a then (actx s1)\<lparr>alarms := alarm_next al\<rparr> else actx s1);
     h1 \<leftarrow> (case alarm_next al of None \<Rightarrow> Some (heap s1)
            | Some n \<Rightarrow> set_prev n (alarm_prev al) (heap s1));
     h2 \<leftarrow> (case alarm_prev al of None \<Rightarrow> Some h1
            | Some p \<Rightarrow> set_next p (alarm_next al) h1);
     Some \<lparr>actx = ctx, heap = h2(a := None)\<rparr>
   })"

text \<open>
  The loop of \<open>alarm_context_destroy\<close> over the list, one unit of fuel per alarm;
  the freed context itself is dropped.
\<close>

fun destroy_loop :: "nat \<Rightarrow> nat option \<Rightarrow> alarm_sys \<Rightarrow> alarm_sys option" where
  "destroy_loop fuel None s = Some s"
| "destroy_loop 0 (Some a) s = None"
| "destroy_loop (Suc fuel) (Some a) s = do {
     al \<leftarrow> heap s a;
     s' \<leftarrow> alarm_destroy (Some a) s;
     destroy_loop fuel (alarm_next al) s'
   }"

definition alarm_context_destroy :: "nat \<Rightarrow> alarm_sys \<Rightarrow> (nat \<rightharpoonup> alarm) option" where
  "alarm_context_destroy fuel s = map_option heap (destroy_loop fuel (alarms (actx s)) s)"

text \<open>
  \<open>alarm_context_dispatch\<close> calls \<open>callback (offset, data)\<close>: the result is the call to make.
\<close>

definition alarm_context_dispatch :: "alarm_sys \<Rightarrow> clock \<Rightarrow> (nat \<times> clock \<times> nat) option" where
  "alarm_context_dispatch s cpu_clk = do {
     let offset = cpu_clk - next_pending_alarm_clk (actx s);
     p \<leftarrow> arr_get (pending_alarms (actx s)) (next_pending_alarm_idx (actx s));
     al \<leftarrow> heap s (pa_alarm p);
     Some (alarm_callback al, offset, alarm_data al)
   }"

section \<open>The pending set a context represents\<close>

text \<open>Which alarms are pending, and for which tick: what clients reason about.\<close>

definition alarm_map :: "alarm_sys \<Rightarrow> (nat \<rightharpoonup> clock)" where
  "alarm_map s a = (case heap s a of None \<Rightarrow> None | Some al \<Rightarrow>
     if pending_idx al < 0 then None
     else Some (pa_clk (pending_alarms (actx s) ! nat (pending_idx al))))"

text \<open>The array and the back pointers \<open>pending_idx\<close> name each other.\<close>

definition pending_ok :: "alarm_sys \<Rightarrow> bool" where
  "pending_ok s \<longleftrightarrow>
     length (pending_alarms (actx s)) = ALARM_CONTEXT_MAX_PENDING_ALARMS \<and>
     num_pending_alarms (actx s) \<le> ALARM_CONTEXT_MAX_PENDING_ALARMS \<and>
     (\<forall>i < num_pending_alarms (actx s). \<exists>al.
        heap s (pa_alarm (pending_alarms (actx s) ! i)) = Some al \<and> pending_idx al = int i) \<and>
     (\<forall>a al. heap s a = Some al \<longrightarrow> 0 \<le> pending_idx al \<longrightarrow>
        nat (pending_idx al) < num_pending_alarms (actx s) \<and>
        pa_alarm (pending_alarms (actx s) ! nat (pending_idx al)) = a)"

text \<open>
  The cached tick is a lower bound of all pending ticks, and unless it is the sentinel the cached
  index names an entry with exactly that tick.
\<close>

definition next_ok :: "alarm_context \<Rightarrow> bool" where
  "next_ok c \<longleftrightarrow>
     (\<forall>i < num_pending_alarms c. next_pending_alarm_clk c \<le> pa_clk (pending_alarms c ! i)) \<and>
     (next_pending_alarm_clk c \<noteq> CLOCK_MAX \<longrightarrow>
        0 \<le> next_pending_alarm_idx c \<and> nat (next_pending_alarm_idx c) < num_pending_alarms c \<and>
        pa_clk (pending_alarms c ! nat (next_pending_alarm_idx c)) = next_pending_alarm_clk c)"

text \<open>The list of all alarms of the context, as a doubly linked list through the heap.\<close>

fun dll :: "(nat \<rightharpoonup> alarm) \<Rightarrow> nat option \<Rightarrow> nat option \<Rightarrow> nat list \<Rightarrow> bool" where
  "dll h p st [] \<longleftrightarrow> st = None"
| "dll h p st (a # as) \<longleftrightarrow> st = Some a \<and>
     (\<exists>al. h a = Some al \<and> alarm_prev al = p \<and> dll h (Some a) (alarm_next al) as)"

definition list_ok :: "alarm_sys \<Rightarrow> nat list \<Rightarrow> bool" where
  "list_ok s xs \<longleftrightarrow> distinct xs \<and> set xs = dom (heap s) \<and> dll (heap s) None (alarms (actx s)) xs"

definition alarm_inv :: "alarm_sys \<Rightarrow> bool" where
  "alarm_inv s \<longleftrightarrow> pending_ok s \<and> next_ok (actx s) \<and> (\<exists>xs. list_ok s xs)"

section \<open>The cached next alarm\<close>

lemma update_next_loop_min:
  "update_next_loop ps i clk idx = (c, j) \<Longrightarrow>
     (\<forall>p \<in> set ps. c \<le> pa_clk p) \<and> c \<le> clk \<and>
     (c = clk \<and> j = idx \<or> (\<exists>k < length ps. j = int (i + k) \<and> pa_clk (ps ! k) = c))"
proof (induction ps i clk idx rule: update_next_loop.induct)
  case (1 i clk idx)
  then show ?case by simp
next
  case (2 p ps i clk idx)
  show ?case
  proof (cases "pa_clk p \<le> clk")
    case True
    with "2.prems" have "update_next_loop ps (Suc i) (pa_clk p) (int i) = (c, j)" by simp
    from "2.IH"(1) [OF True this] True show ?thesis
      by (fastforce intro: exI [of _ 0] exI [of _ "Suc _"])
  next
    case False
    with "2.prems" have "update_next_loop ps (Suc i) clk idx = (c, j)" by simp
    from "2.IH"(2) [OF False this] False show ?thesis
      by (fastforce intro: exI [of _ "Suc _"])
  qed
qed

lemma update_next_pending_fields [simp]:
  "pending_alarms (alarm_context_update_next_pending c) = pending_alarms c"
  "num_pending_alarms (alarm_context_update_next_pending c) = num_pending_alarms c"
  "alarms (alarm_context_update_next_pending c) = alarms c"
  "context_name (alarm_context_update_next_pending c) = context_name c"
  by (simp_all add: alarm_context_update_next_pending_def split: prod.splits)

lemma next_ok_update:
  assumes "num_pending_alarms c \<le> length (pending_alarms c)"
  shows "next_ok (alarm_context_update_next_pending c)"
proof -
  let ?ps = "take (num_pending_alarms c) (pending_alarms c)"
  obtain k j where r: "update_next_loop ?ps 0 CLOCK_MAX (next_pending_alarm_idx c) = (k, j)"
    by fastforce
  have len: "length ?ps = num_pending_alarms c" using assms by simp
  have nth: "i < num_pending_alarms c \<Longrightarrow> ?ps ! i = pending_alarms c ! i" for i by simp
  have "\<forall>i < num_pending_alarms c. k \<le> pa_clk (pending_alarms c ! i)"
    using update_next_loop_min [OF r] len nth by (metis nth_mem)
  moreover have "k \<noteq> CLOCK_MAX \<Longrightarrow> 0 \<le> j \<and> nat j < num_pending_alarms c \<and>
      pa_clk (pending_alarms c ! nat j) = k"
    using update_next_loop_min [OF r] len nth by auto
  ultimately show ?thesis
    by (simp add: next_ok_def alarm_context_update_next_pending_def r)
qed

text \<open>The same context seen through its next alarm only; used to move facts between contexts.\<close>

lemma next_ok_cong:
  "pending_alarms c' = pending_alarms c \<Longrightarrow> num_pending_alarms c' = num_pending_alarms c \<Longrightarrow>
   next_pending_alarm_clk c' = next_pending_alarm_clk c \<Longrightarrow>
   next_pending_alarm_idx c' = next_pending_alarm_idx c \<Longrightarrow> next_ok c' = next_ok c"
  by (simp add: next_ok_def)

section \<open>The array and the pending set\<close>

lemma pending_okD:
  assumes "pending_ok s"
  shows pending_ok_len: "length (pending_alarms (actx s)) = ALARM_CONTEXT_MAX_PENDING_ALARMS"
    and pending_ok_num: "num_pending_alarms (actx s) \<le> ALARM_CONTEXT_MAX_PENDING_ALARMS"
    and pending_ok_entry: "i < num_pending_alarms (actx s) \<Longrightarrow> \<exists>al.
        heap s (pa_alarm (pending_alarms (actx s) ! i)) = Some al \<and> pending_idx al = int i"
    and pending_ok_back: "heap s a = Some al \<Longrightarrow> 0 \<le> pending_idx al \<Longrightarrow>
        nat (pending_idx al) < num_pending_alarms (actx s) \<and>
        pa_alarm (pending_alarms (actx s) ! nat (pending_idx al)) = a"
  using assms by (auto simp: pending_ok_def)

lemma pending_entry_inj:
  assumes "pending_ok s" "i < num_pending_alarms (actx s)" "j < num_pending_alarms (actx s)"
    "pa_alarm (pending_alarms (actx s) ! i) = pa_alarm (pending_alarms (actx s) ! j)"
  shows "i = j"
  using pending_ok_entry [OF assms(1) assms(2)] pending_ok_entry [OF assms(1) assms(3)] assms(4)
  by auto

lemma alarm_map_iff:
  assumes "pending_ok s"
  shows "alarm_map s a = Some t \<longleftrightarrow> (\<exists>i < num_pending_alarms (actx s).
     pa_alarm (pending_alarms (actx s) ! i) = a \<and> pa_clk (pending_alarms (actx s) ! i) = t)"
    (is "?l \<longleftrightarrow> ?r")
proof
  assume ?l
  then obtain al where "heap s a = Some al" "0 \<le> pending_idx al"
    and t: "t = pa_clk (pending_alarms (actx s) ! nat (pending_idx al))"
    by (auto simp: alarm_map_def split: option.splits if_splits)
  with pending_ok_back [OF assms, of a al] show ?r by auto
next
  assume ?r
  then obtain i where i: "i < num_pending_alarms (actx s)"
    "pa_alarm (pending_alarms (actx s) ! i) = a" "pa_clk (pending_alarms (actx s) ! i) = t" by auto
  with pending_ok_entry [OF assms i(1)] show ?l by (auto simp: alarm_map_def)
qed

lemma dom_alarm_map:
  assumes "pending_ok s"
  shows "dom (alarm_map s) = (\<lambda>i. pa_alarm (pending_alarms (actx s) ! i)) ` {..< num_pending_alarms (actx s)}"
  using alarm_map_iff [OF assms] by (auto simp: dom_def)

lemma card_alarm_map:
  assumes "pending_ok s"
  shows "card (dom (alarm_map s)) = num_pending_alarms (actx s)"
proof -
  have "inj_on (\<lambda>i. pa_alarm (pending_alarms (actx s) ! i)) {..< num_pending_alarms (actx s)}"
    using pending_entry_inj [OF assms] by (auto simp: inj_on_def)
  then show ?thesis by (simp add: dom_alarm_map [OF assms] card_image)
qed

lemma ran_alarm_map:
  assumes "pending_ok s"
  shows "ran (alarm_map s) = (\<lambda>i. pa_clk (pending_alarms (actx s) ! i)) ` {..< num_pending_alarms (actx s)}"
  using alarm_map_iff [OF assms] by (fastforce simp: ran_def)

text \<open>The cached tick is the least pending one, or the sentinel.\<close>

lemma next_clk_Min:
  assumes p: "pending_ok s" and n: "next_ok (actx s)"
  shows "next_pending_alarm_clk (actx s) =
     (if alarm_map s = Map.empty then CLOCK_MAX else Min (ran (alarm_map s)))"
proof (cases "num_pending_alarms (actx s) = 0")
  case True
  with card_alarm_map [OF p] dom_alarm_map [OF p] have "alarm_map s = Map.empty" by auto
  with n True show ?thesis by (auto simp: next_ok_def)
next
  case False
  let ?R = "ran (alarm_map s)" and ?c = "next_pending_alarm_clk (actx s)"
  have fin: "finite ?R" by (simp add: ran_alarm_map [OF p])
  from False have ne: "?R \<noteq> {}" and nem: "alarm_map s \<noteq> Map.empty"
    using ran_alarm_map [OF p] by auto
  have lb: "\<forall>t \<in> ?R. ?c \<le> t" using n by (auto simp: ran_alarm_map [OF p] next_ok_def)
  have "?c \<in> ?R"
  proof (cases "?c = CLOCK_MAX")
    case True
    obtain t where t: "t \<in> ?R" using ne by auto
    with lb have "CLOCK_MAX \<le> t" by (simp add: True)
    then have "t = CLOCK_MAX" by (simp add: word_order.extremum_unique)
    with t True show ?thesis by simp
  next
    case False
    with n show ?thesis by (force simp: ran_alarm_map [OF p] next_ok_def)
  qed
  with fin lb have "Min ?R = ?c" by (intro Min_eqI) auto
  with nem show ?thesis by simp
qed

section \<open>Setting an alarm\<close>

lemma alarm_set_new:
  assumes "heap s a = Some al" "pending_idx al < 0" "pending_ok s"
    and room: "num_pending_alarms (actx s) < ALARM_CONTEXT_MAX_PENDING_ALARMS"
  shows "alarm_set a c s = Some
    \<lparr>actx = (let n = num_pending_alarms (actx s);
                 ctx1 = (actx s)\<lparr>pending_alarms := (pending_alarms (actx s))[n := \<lparr>pa_alarm = a, pa_clk = c\<rparr>],
                                 num_pending_alarms := Suc n\<rparr>
             in if c < next_pending_alarm_clk (actx s)
                then ctx1\<lparr>next_pending_alarm_clk := c, next_pending_alarm_idx := int n\<rparr> else ctx1),
     heap = (heap s)(a \<mapsto> al\<lparr>pending_idx := int (num_pending_alarms (actx s))\<rparr>)\<rparr>"
  using assms pending_ok_len [OF assms(3)]
  by (simp add: alarm_set_def set_pending_idx_def Let_def)

lemma alarm_set_full:
  assumes "heap s a = Some al" "pending_idx al < 0"
    and "ALARM_CONTEXT_MAX_PENDING_ALARMS \<le> num_pending_alarms (actx s)"
  shows "alarm_set a c s = Some s"
  using assms by (simp add: alarm_set_def)

lemma alarm_set_pending:
  assumes "heap s a = Some al" "0 \<le> pending_idx al" "pending_ok s"
  shows "alarm_set a c s = Some (s\<lparr>actx :=
    (let i = nat (pending_idx al);
         ctx1 = (actx s)\<lparr>pending_alarms := (pending_alarms (actx s))
                  [i := (pending_alarms (actx s) ! i)\<lparr>pa_clk := c\<rparr>]\<rparr>
     in if c < next_pending_alarm_clk (actx s) \<or> pending_idx al = next_pending_alarm_idx (actx s)
        then alarm_context_update_next_pending ctx1 else ctx1)\<rparr>)"
  using assms pending_ok_back [OF assms(3,1,2)] pending_ok_len [OF assms(3)] pending_ok_num [OF assms(3)]
  by (simp add: alarm_set_def arr_get_def arr_set_def Let_def)

text \<open>
  Both successful branches, as one statement about the result: the invariant's array part, the
  cached tick, the pending set and the frame (the links of the list and the callbacks).
\<close>

definition same_links :: "alarm_sys \<Rightarrow> alarm_sys \<Rightarrow> bool" where
  "same_links s s' \<longleftrightarrow> alarms (actx s') = alarms (actx s) \<and>
     (\<forall>a. map_option (\<lambda>al. al\<lparr>pending_idx := 0\<rparr>) (heap s' a) =
          map_option (\<lambda>al. al\<lparr>pending_idx := 0\<rparr>) (heap s a))"

lemma same_links_refl [simp]: "same_links s s"
  by (simp add: same_links_def)

lemma same_links_trans: "same_links s s' \<Longrightarrow> same_links s' s'' \<Longrightarrow> same_links s s''"
  by (simp add: same_links_def)

lemma alarm_set_new_ok:
  assumes al: "heap s a = Some al" "pending_idx al < 0" and p: "pending_ok s"
    and room: "num_pending_alarms (actx s) < ALARM_CONTEXT_MAX_PENDING_ALARMS"
    and s': "alarm_set a c s = Some s'"
  shows "pending_ok s'" and "next_ok (actx s) \<Longrightarrow> next_ok (actx s')"
    and "alarm_map s' = (alarm_map s)(a \<mapsto> c)" and "same_links s s'"
proof -
  let ?n = "num_pending_alarms (actx s)" and ?ps = "pending_alarms (actx s)"
  let ?ps' = "?ps[?n := \<lparr>pa_alarm = a, pa_clk = c\<rparr>]"
  have len: "?n < length ?ps" using room pending_ok_len [OF p] by simp
  have fields: "pending_alarms (actx s') = ?ps'" "num_pending_alarms (actx s') = Suc ?n"
    "alarms (actx s') = alarms (actx s)"
    "heap s' = (heap s)(a \<mapsto> al\<lparr>pending_idx := int ?n\<rparr>)"
    and nxt: "next_pending_alarm_clk (actx s') =
        (if c < next_pending_alarm_clk (actx s) then c else next_pending_alarm_clk (actx s))"
      "next_pending_alarm_idx (actx s') =
        (if c < next_pending_alarm_clk (actx s) then int ?n else next_pending_alarm_idx (actx s))"
    using s' alarm_set_new [OF al p room] by (auto simp: Let_def)
  have notin: "i < ?n \<Longrightarrow> pa_alarm (?ps ! i) \<noteq> a" for i
    using pending_ok_entry [OF p] al by fastforce
  show p': "pending_ok s'"
    unfolding pending_ok_def fields
  proof (intro conjI allI impI)
    show "length ?ps' = ALARM_CONTEXT_MAX_PENDING_ALARMS" using pending_ok_len [OF p] by simp
    show "Suc ?n \<le> ALARM_CONTEXT_MAX_PENDING_ALARMS" using room by simp
  next
    fix i assume "i < Suc ?n"
    then show "\<exists>ala. ((heap s)(a \<mapsto> al\<lparr>pending_idx := int ?n\<rparr>)) (pa_alarm (?ps' ! i)) = Some ala \<and>
        pending_idx ala = int i"
      using pending_ok_entry [OF p, of i] len notin [of i] by (cases "i = ?n") auto
  next
    fix b bl assume "((heap s)(a \<mapsto> al\<lparr>pending_idx := int ?n\<rparr>)) b = Some bl" "0 \<le> pending_idx bl"
    then show "nat (pending_idx bl) < Suc ?n" "pa_alarm (?ps' ! nat (pending_idx bl)) = b"
      using pending_ok_back [OF p, of b bl] len by (auto simp: nth_list_update split: if_splits)
  qed
  show "alarm_map s' = (alarm_map s)(a \<mapsto> c)"
  proof (rule ext)
    fix b
    show "alarm_map s' b = ((alarm_map s)(a \<mapsto> c)) b"
      using pending_ok_back [OF p, of b] len by (auto simp: alarm_map_def fields nth_list_update split: option.splits)
  qed
  show "same_links s s'" using al by (simp add: same_links_def fields)
  assume n: "next_ok (actx s)"
  have lb: "i < ?n \<Longrightarrow> next_pending_alarm_clk (actx s) \<le> pa_clk (?ps ! i)" for i
    using n by (simp add: next_ok_def)
  show "next_ok (actx s')"
  proof (cases "c < next_pending_alarm_clk (actx s)")
    case True
    then have "i < ?n \<Longrightarrow> c \<le> pa_clk (?ps ! i)" for i
      using lb [of i] by (simp add: order.strict_implies_order order.strict_trans1)
    with True len show ?thesis
      unfolding next_ok_def fields nxt by (simp add: nth_list_update less_Suc_eq)
  next
    case False
    with n len lb show ?thesis
      unfolding next_ok_def fields nxt by (auto simp: nth_list_update less_Suc_eq not_less)
  qed
qed

lemma alarm_set_pending_ok:
  assumes al: "heap s a = Some al" "0 \<le> pending_idx al" and p: "pending_ok s"
    and s': "alarm_set a c s = Some s'"
  shows "pending_ok s'" and "next_ok (actx s) \<Longrightarrow> next_ok (actx s')"
    and "alarm_map s' = (alarm_map s)(a \<mapsto> c)" and "same_links s s'"
proof -
  let ?n = "num_pending_alarms (actx s)" and ?ps = "pending_alarms (actx s)"
  let ?i = "nat (pending_idx al)"
  let ?ps' = "?ps[?i := (?ps ! ?i)\<lparr>pa_clk := c\<rparr>]"
  let ?upd = "c < next_pending_alarm_clk (actx s) \<or> pending_idx al = next_pending_alarm_idx (actx s)"
  have i: "?i < ?n" "pa_alarm (?ps ! ?i) = a" using pending_ok_back [OF p al] by auto
  have len: "?n \<le> length ?ps" using pending_ok_len [OF p] pending_ok_num [OF p] by simp
  have fields: "pending_alarms (actx s') = ?ps'" "num_pending_alarms (actx s') = ?n"
    "alarms (actx s') = alarms (actx s)" "heap s' = heap s"
    and ctx: "actx s' = (if ?upd then alarm_context_update_next_pending ((actx s)\<lparr>pending_alarms := ?ps'\<rparr>)
                  else (actx s)\<lparr>pending_alarms := ?ps'\<rparr>)"
    using s' alarm_set_pending [OF al p] by (auto simp: Let_def)
  have same: "k < ?n \<Longrightarrow> pa_alarm (?ps' ! k) = pa_alarm (?ps ! k)" for k
    using len by (cases "k = ?i") (auto simp: nth_list_update)
  have keep: "pa_alarm (?ps ! k) \<noteq> a \<Longrightarrow> ?ps' ! k = ?ps ! k" for k
    using i by (cases "k = ?i") auto
  show "pending_ok s'"
    using p by (auto simp: pending_ok_def fields same)
  show "alarm_map s' = (alarm_map s)(a \<mapsto> c)"
  proof (rule ext)
    fix b
    show "alarm_map s' b = ((alarm_map s)(a \<mapsto> c)) b"
    proof (cases "b = a")
      case True
      with al i len show ?thesis by (simp add: alarm_map_def fields)
    next
      case False
      then show ?thesis
        using pending_ok_back [OF p, of b] keep
        by (auto simp: alarm_map_def fields not_less split: option.splits)
    qed
  qed
  show "same_links s s'" by (simp add: same_links_def fields)
  assume n: "next_ok (actx s)"
  show "next_ok (actx s')"
  proof (cases ?upd)
    case True
    then show ?thesis using ctx next_ok_update [of "(actx s)\<lparr>pending_alarms := ?ps'\<rparr>"] len by simp
  next
    case False
    let ?j = "next_pending_alarm_idx (actx s)"
    have lb: "\<forall>k < ?n. next_pending_alarm_clk (actx s) \<le> pa_clk (?ps' ! k)"
    proof (intro allI impI)
      fix k assume "k < ?n"
      then show "next_pending_alarm_clk (actx s) \<le> pa_clk (?ps' ! k)"
        using n False i len by (cases "k = ?i") (simp_all add: next_ok_def not_less)
    qed
    have ix: "0 \<le> ?j \<Longrightarrow> ?ps' ! nat ?j = ?ps ! nat ?j"
      using False al by (cases "nat ?j = ?i") auto
    have ctx': "actx s' = (actx s)\<lparr>pending_alarms := ?ps'\<rparr>" unfolding ctx using False by simp
    show ?thesis
      using n lb ix unfolding next_ok_def ctx' by simp
  qed
qed

section \<open>Removing an alarm\<close>

lemma alarm_sys_upd [simp]: "s\<lparr>actx := c, heap := h\<rparr> = \<lparr>actx = c, heap = h\<rparr>" for s :: alarm_sys
  by (cases s) simp

lemma alarm_unset_idle:
  "heap s a = Some al \<Longrightarrow> pending_idx al < 0 \<Longrightarrow> alarm_unset a s = Some s"
  by (simp add: alarm_unset_def)

text \<open>The context after \<open>alarm_unset\<close> of the entry \<open>i\<close>: the last entry moves into the hole.\<close>

definition unset_ctx :: "nat \<Rightarrow> alarm_context \<Rightarrow> alarm_context" where
  "unset_ctx i c =
     (let last = num_pending_alarms c - 1;
          c2 = c\<lparr>num_pending_alarms := last,
                 pending_alarms := (pending_alarms c)[i := pending_alarms c ! last]\<rparr>
      in if num_pending_alarms c \<le> 1
         then c\<lparr>num_pending_alarms := 0, next_pending_alarm_clk := CLOCK_MAX, next_pending_alarm_idx := - 1\<rparr>
         else if next_pending_alarm_idx c = int i then alarm_context_update_next_pending c2
         else if next_pending_alarm_idx c = int last then c2\<lparr>next_pending_alarm_idx := int i\<rparr>
         else c2)"

lemma alarm_unset_pending:
  assumes al: "heap s a = Some al" "pending_idx al = int i" and p: "pending_ok s"
  shows "\<exists>h'. alarm_unset a s = Some \<lparr>actx = unset_ctx i (actx s), heap = h'\<rparr> \<and>
     (\<forall>b. h' b = (if b = a then Some (al\<lparr>pending_idx := - 1\<rparr>)
                  else if b = pa_alarm (pending_alarms (actx s) ! (num_pending_alarms (actx s) - 1))
                  then map_option (\<lambda>bl. bl\<lparr>pending_idx := int i\<rparr>) (heap s b) else heap s b))"
proof -
  let ?n = "num_pending_alarms (actx s)" and ?ps = "pending_alarms (actx s)"
  let ?lp = "?ps ! (?n - 1)"
  have i: "i < ?n" "pa_alarm (?ps ! i) = a" using pending_ok_back [OF p al(1)] al(2) by auto
  have len: "?n \<le> length ?ps" using pending_ok_len [OF p] pending_ok_num [OF p] by simp
  obtain ll where ll: "heap s (pa_alarm ?lp) = Some ll" "pending_idx ll = int (?n - 1)"
    using pending_ok_entry [OF p, of "?n - 1"] i by auto
  consider (one) "?n = 1" "i = 0" | (last) "1 < ?n" "i = ?n - 1" | (hole) "1 < ?n" "i < ?n - 1"
    using i by linarith
  then show ?thesis
  proof cases
    case one
    then show ?thesis
      using al i by (simp add: alarm_unset_def set_pending_idx_def unset_ctx_def Let_def)
  next
    case last
    then have id: "?ps[i := ?lp] = ?ps" by simp
    from last i(2) have "pa_alarm ?lp = a" by simp
    with last id show ?thesis
      using al by (simp add: alarm_unset_def set_pending_idx_def unset_ctx_def Let_def cong: if_cong)
  next
    case hole
    then have ne: "pa_alarm ?lp \<noteq> a"
      using i pending_entry_inj [OF p, of "?n - 1" i] by auto
    have "arr_get ?ps (int (?n - 1)) = Some ?lp" "arr_set ?ps (int i) ?lp = Some (?ps[i := ?lp])"
      using hole len by (simp_all only: arr_get_int arr_set_int)
    moreover have "int ?n - 1 \<noteq> int i" using hole by linarith
    ultimately show ?thesis
      using hole ne al ll
      by (simp add: alarm_unset_def set_pending_idx_def unset_ctx_def Let_def cong: if_cong)
  qed
qed

lemma unset_ctx_fields [simp]:
  "num_pending_alarms (unset_ctx i c) = num_pending_alarms c - 1"
  "alarms (unset_ctx i c) = alarms c"
  "length (pending_alarms (unset_ctx i c)) = length (pending_alarms c)"
  by (auto simp: unset_ctx_def Let_def)

lemma unset_ctx_nth:
  "k < num_pending_alarms c - 1 \<Longrightarrow> num_pending_alarms c \<le> length (pending_alarms c) \<Longrightarrow>
   pending_alarms (unset_ctx i c) ! k =
     (if k = i then pending_alarms c ! (num_pending_alarms c - 1) else pending_alarms c ! k)"
  by (auto simp: unset_ctx_def Let_def nth_list_update)

lemma next_ok_unset:
  assumes n: "next_ok c" and i: "i < num_pending_alarms c"
    and len: "num_pending_alarms c \<le> length (pending_alarms c)"
  shows "next_ok (unset_ctx i c)"
proof -
  let ?n = "num_pending_alarms c" and ?j = "next_pending_alarm_idx c" and ?c' = "unset_ctx i c"
  consider (one) "?n \<le> 1" | (upd) "1 < ?n" "?j = int i" | (keep) "1 < ?n" "?j \<noteq> int i" by linarith
  then show ?thesis
  proof cases
    case one
    then show ?thesis by (simp add: unset_ctx_def next_ok_def)
  next
    case upd
    with len show ?thesis by (simp add: unset_ctx_def Let_def next_ok_update)
  next
    case keep
    have clk: "next_pending_alarm_clk ?c' = next_pending_alarm_clk c"
      and idx: "next_pending_alarm_idx ?c' = (if ?j = int (?n - 1) then int i else ?j)"
      using keep by (simp_all add: unset_ctx_def Let_def)
    have lb: "k < ?n - 1 \<Longrightarrow> next_pending_alarm_clk c \<le> pa_clk (pending_alarms ?c' ! k)" for k
      using n i len by (simp add: unset_ctx_nth next_ok_def)
    have "nat (if ?j = int (?n - 1) then int i else ?j) < ?n - 1 \<and>
        pending_alarms ?c' ! nat (if ?j = int (?n - 1) then int i else ?j) = pending_alarms c ! nat ?j"
      if "0 \<le> ?j" "nat ?j < ?n"
    proof (cases "?j = int (?n - 1)")
      case True
      with keep i have "i < ?n - 1" by linarith
      moreover from True have "nat ?j = ?n - 1" by linarith
      ultimately show ?thesis using True len by (simp add: unset_ctx_nth)
    next
      case False
      with that have "nat ?j < ?n - 1" "nat ?j \<noteq> i" using keep by linarith+
      with False len show ?thesis by (simp add: unset_ctx_nth)
    qed
    with n lb show ?thesis unfolding next_ok_def clk idx by auto
  qed
qed

lemma alarm_unset_ok:
  assumes al: "heap s a = Some al" and p: "pending_ok s"
  shows "\<exists>s'. alarm_unset a s = Some s' \<and> pending_ok s' \<and> (next_ok (actx s) \<longrightarrow> next_ok (actx s')) \<and>
     alarm_map s' = (alarm_map s)(a := None) \<and> same_links s s'"
proof (cases "pending_idx al < 0")
  case True
  with al have "alarm_map s a = None" by (simp add: alarm_map_def)
  then have "(alarm_map s)(a := None) = alarm_map s" by (simp add: fun_upd_idem)
  with True al p show ?thesis by (simp add: alarm_unset_idle)
next
  case False
  let ?n = "num_pending_alarms (actx s)" and ?ps = "pending_alarms (actx s)"
  let ?la = "pa_alarm (?ps ! (?n - 1))" and ?c' = "unset_ctx (nat (pending_idx al)) (actx s)"
  obtain i where i: "pending_idx al = int i" using False by (metis int_nat_eq not_less)
  from alarm_unset_pending [OF al i p] obtain h' where
    r: "alarm_unset a s = Some \<lparr>actx = unset_ctx i (actx s), heap = h'\<rparr>" and
    h': "\<And>b. h' b = (if b = a then Some (al\<lparr>pending_idx := - 1\<rparr>) else if b = ?la
            then map_option (\<lambda>bl. bl\<lparr>pending_idx := int i\<rparr>) (heap s b) else heap s b)" by blast
  have in_n: "i < ?n" "pa_alarm (?ps ! i) = a" using pending_ok_back [OF p al] i by auto
  have len: "?n \<le> length ?ps" using pending_ok_len [OF p] pending_ok_num [OF p] by simp
  obtain ll where ll: "heap s ?la = Some ll" "pending_idx ll = int (?n - 1)"
    using pending_ok_entry [OF p, of "?n - 1"] in_n by auto
  let ?s' = "\<lparr>actx = unset_ctx i (actx s), heap = h'\<rparr>"
  have nth: "k < ?n - 1 \<Longrightarrow> pending_alarms (unset_ctx i (actx s)) ! k = (if k = i then ?ps ! (?n - 1) else ?ps ! k)"
    for k using unset_ctx_nth [OF _ len] .
  have entry: "\<exists>bl. h' (pa_alarm (pending_alarms (unset_ctx i (actx s)) ! k)) = Some bl \<and> pending_idx bl = int k"
    if k: "k < ?n - 1" for k
  proof (cases "k = i")
    case True
    with k in_n have "?la \<noteq> a" using pending_entry_inj [OF p, of "?n - 1" i] by auto
    with True k ll show ?thesis by (simp add: nth h')
  next
    case False
    from k have lt: "k < ?n" "?n - 1 < ?n" "k \<noteq> ?n - 1" by linarith+
    have "pa_alarm (?ps ! k) \<noteq> a" using pending_entry_inj [OF p lt(1) in_n(1)] False in_n(2) by auto
    moreover have "pa_alarm (?ps ! k) \<noteq> ?la" using pending_entry_inj [OF p lt(1) lt(2)] lt(3) by auto
    ultimately have "pa_alarm (?ps ! k) \<noteq> a" "pa_alarm (?ps ! k) \<noteq> ?la" by auto
    with False k pending_ok_entry [OF p, of k] show ?thesis by (simp add: nth h')
  qed
  have bptr: "nat (pending_idx bl) < ?n - 1 \<and>
      pending_alarms (unset_ctx i (actx s)) ! nat (pending_idx bl) =
        ?ps ! (if b = ?la then ?n - 1 else nat (pending_idx bl)) \<and>
      pa_alarm (?ps ! (if b = ?la then ?n - 1 else nat (pending_idx bl))) = b \<and> b \<noteq> a"
    if b: "h' b = Some bl" "0 \<le> pending_idx bl" for b bl
  proof (cases "b = a")
    case True
    with b show ?thesis by (auto simp: h')
  next
    case ba: False
    show ?thesis
    proof (cases "b = ?la")
      case True
      with b ba have bl: "pending_idx bl = int i" by (auto simp: h')
      have "i \<noteq> ?n - 1" using ba True in_n by auto
      with in_n have "i < ?n - 1" by linarith
      with True ba bl show ?thesis by (simp add: nth)
    next
      case False
      with b ba have hb: "heap s b = Some bl" by (simp add: h')
      from pending_ok_back [OF p hb b(2)]
      have q: "nat (pending_idx bl) < ?n" "pa_alarm (?ps ! nat (pending_idx bl)) = b" by auto
      with False ba in_n have ne: "nat (pending_idx bl) \<noteq> ?n - 1" "nat (pending_idx bl) \<noteq> i" by auto
      with q have lt: "nat (pending_idx bl) < ?n - 1" by linarith
      with ne q False ba show ?thesis by (simp add: nth [OF lt])
    qed
  qed
  have p': "pending_ok ?s'"
    using pending_ok_len [OF p] pending_ok_num [OF p] entry bptr by (auto simp: pending_ok_def)
  have m': "alarm_map ?s' = (alarm_map s)(a := None)"
  proof (rule ext)
    fix b
    show "alarm_map ?s' b = ((alarm_map s)(a := None)) b"
    proof (cases "b = a")
      case True
      then show ?thesis by (simp add: alarm_map_def h')
    next
      case ba: False
      show ?thesis
      proof (cases "b = ?la")
        case True
        with ba ll have "h' b = Some (ll\<lparr>pending_idx := int i\<rparr>)" by (simp add: h')
        with bptr [OF this] True ba ll show ?thesis by (simp add: alarm_map_def)
      next
        case False
        with ba have hb: "h' b = heap s b" by (simp add: h')
        show ?thesis
        proof (cases "heap s b")
          case None
          with hb ba show ?thesis by (simp add: alarm_map_def)
        next
          case (Some bl)
          with hb bptr [of b bl] ba False show ?thesis by (simp add: alarm_map_def)
        qed
      qed
    qed
  qed
  have "same_links s ?s'" using al by (auto simp: same_links_def h' option.map_comp o_def)
  moreover have "next_ok (actx s) \<longrightarrow> next_ok (actx ?s')" using next_ok_unset [OF _ in_n(1) len] by simp
  ultimately show ?thesis using r p' m' by blast
qed

section \<open>The list of all alarms\<close>

text \<open>List segments: from \<open>st\<close> (whose \<open>prev\<close> is \<open>p\<close>) up to \<open>e\<close>, whose \<open>prev\<close> would be \<open>q\<close>.\<close>

fun dllseg :: "(nat \<rightharpoonup> alarm) \<Rightarrow> nat option \<Rightarrow> nat option \<Rightarrow> nat list \<Rightarrow> nat option \<Rightarrow> nat option \<Rightarrow> bool" where
  "dllseg h p st [] q e \<longleftrightarrow> st = e \<and> q = p"
| "dllseg h p st (a # as) q e \<longleftrightarrow> st = Some a \<and>
     (\<exists>al. h a = Some al \<and> alarm_prev al = p \<and> dllseg h (Some a) (alarm_next al) as q e)"

lemma dll_seg: "dll h p st xs \<longleftrightarrow> (\<exists>q. dllseg h p st xs q None)"
  by (induction xs arbitrary: p st) auto

lemma dllseg_append:
  "dllseg h p st (xs @ ys) q e \<longleftrightarrow> (\<exists>r m. dllseg h p st xs r m \<and> dllseg h r m ys q e)"
  by (induction xs arbitrary: p st) auto

lemma dllseg_frame [simp]:
  "x \<notin> set xs \<Longrightarrow> dllseg (h(x := v)) p st xs q e = dllseg h p st xs q e"
  by (induction xs arbitrary: p st) auto

lemma dllseg_links:
  "\<forall>a \<in> set xs. map_option (\<lambda>al. (alarm_next al, alarm_prev al)) (h' a) =
                map_option (\<lambda>al. (alarm_next al, alarm_prev al)) (h a) \<Longrightarrow>
   dllseg h p st xs q e \<Longrightarrow> dllseg h' p st xs q e"
  by (induction xs arbitrary: p st) (fastforce simp: map_option_eq_Some)+

lemma dllseg_set_next:
  "dllseg h p st ys r m \<Longrightarrow> ys \<noteq> [] \<Longrightarrow> distinct ys \<Longrightarrow>
   r = Some (last ys) \<and> (\<exists>al. h (last ys) = Some al \<and>
     dllseg (h(last ys \<mapsto> al\<lparr>alarm_next := e\<rparr>)) p st ys r e)"
proof (induction ys arbitrary: p st)
  case Nil
  then show ?case by simp
next
  case (Cons a ys)
  show ?case
  proof (cases "ys = []")
    case True
    with Cons.prems show ?thesis by auto
  next
    case False
    from Cons.prems obtain al where al: "st = Some a" "h a = Some al" "alarm_prev al = p"
      "dllseg h (Some a) (alarm_next al) ys r m" by auto
    from Cons.IH [OF al(4) False] Cons.prems(3) obtain bl where
      bl: "r = Some (last ys)" "h (last ys) = Some bl"
        "dllseg (h(last ys \<mapsto> bl\<lparr>alarm_next := e\<rparr>)) (Some a) (alarm_next al) ys r e"
      by (auto simp del: fun_upd_apply)
    have "a \<noteq> last ys" using Cons.prems False by auto
    with al bl False show ?thesis by (simp add: fun_upd_other del: fun_upd_apply)
  qed
qed

lemma dllseg_set_prev:
  "dllseg h p st (z # zs) q e \<Longrightarrow> z \<notin> set zs \<Longrightarrow>
   st = Some z \<and> (\<exists>zl. h z = Some zl \<and> dllseg (h(z \<mapsto> zl\<lparr>alarm_prev := r\<rparr>)) r st (z # zs) q e)"
  by auto

lemma list_ok_same_links:
  assumes "list_ok s xs" "same_links s s'"
  shows "list_ok s' xs"
proof -
  have h: "map_option (\<lambda>al. al\<lparr>pending_idx := 0\<rparr>) (heap s' a) =
           map_option (\<lambda>al. al\<lparr>pending_idx := 0\<rparr>) (heap s a)" for a
    using assms(2) by (simp add: same_links_def)
  have "map_option (\<lambda>al. (alarm_next al, alarm_prev al)) (heap s' a) =
        map_option (\<lambda>al. (alarm_next al, alarm_prev al)) (heap s a)" for a
    using arg_cong [OF h [of a], of "map_option (\<lambda>al. (alarm_next al, alarm_prev al))"]
    by (simp add: option.map_comp o_def)
  moreover have "dom (heap s') = dom (heap s)" using h by (metis (no_types) map_option_is_None domIff subsetI subset_antisym)
  moreover have "alarms (actx s') = alarms (actx s)" using assms(2) by (simp add: same_links_def)
  ultimately show ?thesis
    using assms(1) dllseg_links [of xs "heap s'" "heap s"] unfolding list_ok_def dll_seg by metis
qed

text \<open>
  The pending set depends on the heap only through the non-negative \<open>pending_idx\<close> values, so
  changes of links, and adding or dropping idle alarms, keep it.
\<close>

definition pidx :: "(nat \<rightharpoonup> alarm) \<Rightarrow> nat \<Rightarrow> int option" where
  "pidx h a = (case h a of None \<Rightarrow> None
                | Some al \<Rightarrow> if pending_idx al < 0 then None else Some (pending_idx al))"

lemma pidx_Some_iff: "pidx h a = Some i \<longleftrightarrow> (\<exists>al. h a = Some al \<and> pending_idx al = i \<and> 0 \<le> i)"
  by (auto simp: pidx_def split: option.splits)

lemma pending_ok_pidx:
  "pending_ok s \<longleftrightarrow>
     length (pending_alarms (actx s)) = ALARM_CONTEXT_MAX_PENDING_ALARMS \<and>
     num_pending_alarms (actx s) \<le> ALARM_CONTEXT_MAX_PENDING_ALARMS \<and>
     (\<forall>i < num_pending_alarms (actx s). pidx (heap s) (pa_alarm (pending_alarms (actx s) ! i)) = Some (int i)) \<and>
     (\<forall>a j. pidx (heap s) a = Some j \<longrightarrow> nat j < num_pending_alarms (actx s) \<and>
        pa_alarm (pending_alarms (actx s) ! nat j) = a)"
  unfolding pending_ok_def pidx_Some_iff by (intro arg_cong2 [where f = "(\<and>)"] refl) auto

lemma alarm_map_pidx:
  "alarm_map s a = map_option (\<lambda>j. pa_clk (pending_alarms (actx s) ! nat j)) (pidx (heap s) a)"
  by (simp add: alarm_map_def pidx_def split: option.splits)

lemma pending_frame:
  assumes "pidx (heap s') = pidx (heap s)"
    and "actx s' = (actx s)\<lparr>alarms := first\<rparr>"
  shows "pending_ok s' = pending_ok s" "next_ok (actx s') = next_ok (actx s)" "alarm_map s' = alarm_map s"
  using assms by (auto simp: pending_ok_pidx next_ok_def alarm_map_pidx)

text \<open>Creating an alarm: it is idle, at the head of the list, and nothing pending changes.\<close>

lemma alarm_new_ok:
  assumes "list_ok s xs" "heap s a = None" and p: "pending_ok s"
  shows "\<exists>s'. alarm_new a name cb d s = Some s' \<and> list_ok s' (a # xs) \<and> pending_ok s' \<and>
     next_ok (actx s') = next_ok (actx s) \<and> alarm_map s' = alarm_map s \<and>
     (\<exists>al. heap s' a = Some al \<and> alarm_callback al = cb \<and> alarm_data al = d)"
proof -
  have a: "a \<notin> set xs" using assms by (auto simp: list_ok_def)
  let ?new = "\<lparr>alarm_name = name, alarm_callback = cb, pending_idx = - 1,
                alarm_data = d, alarm_next = alarms (actx s), alarm_prev = None\<rparr>"
  show ?thesis
  proof (cases xs)
    case Nil
    with assms have none: "alarms (actx s) = None" by (simp add: list_ok_def)
    let ?s' = "s\<lparr>actx := (actx s)\<lparr>alarms := Some a\<rparr>, heap := (heap s)(a \<mapsto> ?new)\<rparr>"
    have "alarm_new a name cb d s = Some ?s'" by (simp add: alarm_new_def alarm_init_def none)
    moreover have "list_ok ?s' (a # xs)" using assms none Nil by (simp add: list_ok_def)
    moreover have "pidx (heap ?s') = pidx (heap s)" using assms(2) by (auto simp: pidx_def)
    ultimately show ?thesis using pending_frame [of ?s' s "Some a"] p by simp
  next
    case (Cons x ys)
    with assms(1) obtain xl where xl: "alarms (actx s) = Some x" "heap s x = Some xl" "alarm_prev xl = None"
      "dll (heap s) (Some x) (alarm_next xl) ys" "x \<notin> set ys" by (auto simp: list_ok_def)
    let ?s' = "s\<lparr>actx := (actx s)\<lparr>alarms := Some a\<rparr>,
                heap := (heap s)(x \<mapsto> xl\<lparr>alarm_prev := Some a\<rparr>, a \<mapsto> ?new)\<rparr>"
    have "alarm_new a name cb d s = Some ?s'" using xl by (simp add: alarm_new_def alarm_init_def)
    moreover have "list_ok ?s' (a # xs)"
      using assms xl Cons a by (auto simp: list_ok_def dll_seg)
    moreover have "pidx (heap ?s') = pidx (heap s)" using assms(2) xl by (auto simp: pidx_def)
    ultimately show ?thesis using pending_frame [of ?s' s "Some a"] p by simp
  qed
qed

text \<open>Destroying an alarm: it is no longer pending and leaves the list; the others stay.\<close>

lemma alarm_destroy_ok:
  assumes l: "list_ok s (ys @ a # zs)" and p: "pending_ok s"
  shows "\<exists>s'. alarm_destroy (Some a) s = Some s' \<and> list_ok s' (ys @ zs) \<and> pending_ok s' \<and>
     (next_ok (actx s) \<longrightarrow> next_ok (actx s')) \<and> alarm_map s' = (alarm_map s)(a := None)"
proof -
  from l have "a \<in> dom (heap s)" by (auto simp: list_ok_def)
  then obtain al0 where "heap s a = Some al0" by blast
  from alarm_unset_ok [OF this p] obtain s1 where s1: "alarm_unset a s = Some s1" "pending_ok s1"
    "next_ok (actx s) \<longrightarrow> next_ok (actx s1)" "alarm_map s1 = (alarm_map s)(a := None)" "same_links s s1" by blast
  have l1: "list_ok s1 (ys @ a # zs)" by (rule list_ok_same_links [OF l s1(5)])
  then have dist: "distinct (ys @ a # zs)" "set (ys @ a # zs) = dom (heap s1)" by (auto simp: list_ok_def)
  from l1 obtain q r al where seg: "dllseg (heap s1) None (alarms (actx s1)) ys r (Some a)"
    "heap s1 a = Some al" "alarm_prev al = r" "dllseg (heap s1) (Some a) (alarm_next al) zs q None"
    unfolding list_ok_def dll_seg dllseg_append by auto
  have idle: "pidx (heap s1) a = None"
    using s1(4) seg(2) by (auto simp: alarm_map_pidx dest: fun_cong [of _ _ a])
  let ?e = "alarm_next al" and ?hd = "if alarms (actx s1) = Some a then alarm_next al else alarms (actx s1)"
  obtain h1 where h1: "(case ?e of None \<Rightarrow> Some (heap s1) | Some n \<Rightarrow> set_prev n r (heap s1)) = Some h1"
    "dllseg h1 r ?e zs (if zs = [] then r else q) None" "pidx h1 = pidx (heap s1)" "dom h1 = dom (heap s1)"
    "\<And>b. b \<notin> set zs \<Longrightarrow> h1 b = heap s1 b"
  proof (cases zs)
    case Nil
    with seg(4) that [of "heap s1"] show ?thesis by simp
  next
    case (Cons z zs')
    from seg(4) dist dllseg_set_prev [of "heap s1" "Some a" ?e z zs' q None r] Cons obtain zl where
      z: "?e = Some z" "heap s1 z = Some zl"
        "dllseg ((heap s1)(z \<mapsto> zl\<lparr>alarm_prev := r\<rparr>)) r ?e zs q None"
      by (auto simp del: fun_upd_apply dllseg.simps)
    show ?thesis
    proof (rule that [of "(heap s1)(z \<mapsto> zl\<lparr>alarm_prev := r\<rparr>)"])
      show "dllseg ((heap s1)(z \<mapsto> zl\<lparr>alarm_prev := r\<rparr>)) r ?e zs (if zs = [] then r else q) None"
        using z(3) Cons by (simp del: dllseg.simps)
    qed (use z Cons in \<open>auto simp: set_prev_def pidx_def\<close>)
  qed
  obtain h2 where h2: "(case r of None \<Rightarrow> Some h1 | Some p \<Rightarrow> set_next p ?e h1) = Some h2"
    "dllseg h2 None ?hd ys r ?e" "dllseg h2 r ?e zs (if zs = [] then r else q) None"
    "pidx h2 = pidx (heap s1)" "dom h2 = dom (heap s1)"
  proof (cases "ys = []")
    case True
    with seg(1) h1 that [of h1] show ?thesis by simp
  next
    case False
    have segy: "dllseg h1 None (alarms (actx s1)) ys r (Some a)"
      using dllseg_links [of ys h1 "heap s1" None _ r "Some a"] h1(5) dist seg(1) by fastforce
    from dllseg_set_next [OF segy False, of ?e] dist obtain pl where
      pl: "r = Some (last ys)" "h1 (last ys) = Some pl"
        "dllseg (h1(last ys \<mapsto> pl\<lparr>alarm_next := ?e\<rparr>)) None (alarms (actx s1)) ys r ?e"
      by (auto simp del: fun_upd_apply)
    have "last ys \<notin> set zs" "alarms (actx s1) \<noteq> Some a"
      using dist False seg(1) by (auto dest: last_in_set) (cases ys; auto)
    show ?thesis
    proof (rule that [of "h1(last ys \<mapsto> pl\<lparr>alarm_next := ?e\<rparr>)"])
      show "dllseg (h1(last ys \<mapsto> pl\<lparr>alarm_next := ?e\<rparr>)) None ?hd ys r ?e"
        using pl(3) \<open>alarms (actx s1) \<noteq> Some a\<close> by simp
      show "dllseg (h1(last ys \<mapsto> pl\<lparr>alarm_next := ?e\<rparr>)) r ?e zs (if zs = [] then r else q) None"
        using h1(2) \<open>last ys \<notin> set zs\<close> by simp
      show "pidx (h1(last ys \<mapsto> pl\<lparr>alarm_next := ?e\<rparr>)) = pidx (heap s1)"
        unfolding h1(3) [symmetric] using pl(2) by (auto simp: pidx_def fun_eq_iff)
    qed (use pl h1(4) in \<open>auto simp: set_next_def\<close>)
  qed
  let ?s' = "\<lparr>actx = (actx s1)\<lparr>alarms := ?hd\<rparr>, heap = h2(a := None)\<rparr>"
  have run: "alarm_destroy (Some a) s = Some ?s'"
    using s1(1) seg(2) h1(1) h2(1) unfolding seg(3) [symmetric] by (simp add: alarm_destroy_def)
  have "list_ok ?s' (ys @ zs)"
    using dist h2 unfolding list_ok_def dll_seg dllseg_append by (auto simp: fun_upd_apply)
  moreover have "pidx (heap ?s') = pidx (heap s1)"
    using h2(4) idle by (auto simp: pidx_def fun_eq_iff)
  then have "pending_ok ?s' = pending_ok s1" "next_ok (actx ?s') = next_ok (actx s1)"
    "alarm_map ?s' = alarm_map s1" using pending_frame [of ?s' s1 ?hd] by auto
  ultimately show ?thesis using run s1 by auto
qed

section \<open>Creating and destroying a context, dispatch\<close>

lemma alarm_inv_init:
  assumes "length (pending_alarms mem) = ALARM_CONTEXT_MAX_PENDING_ALARMS"
  shows "alarm_inv \<lparr>actx = alarm_context_new mem name, heap = Map.empty\<rparr>"
    and "alarm_map \<lparr>actx = alarm_context_new mem name, heap = Map.empty\<rparr> = Map.empty"
  using assms
  by (auto simp: alarm_inv_def pending_ok_def next_ok_def list_ok_def alarm_context_new_def
      alarm_context_init_def alarm_map_def)

lemma destroy_loop_all:
  "list_ok s xs \<Longrightarrow> pending_ok s \<Longrightarrow> length xs \<le> fuel \<Longrightarrow>
   \<exists>s'. destroy_loop fuel (alarms (actx s)) s = Some s' \<and> heap s' = Map.empty"
proof (induction fuel arbitrary: s xs)
  case 0
  then show ?case by (auto simp: list_ok_def)
next
  case (Suc fuel)
  show ?case
  proof (cases xs)
    case Nil
    with Suc.prems show ?thesis by (auto simp: list_ok_def)
  next
    case (Cons a ys)
    with Suc.prems(1) obtain al where al: "alarms (actx s) = Some a" "heap s a = Some al"
      "dll (heap s) (Some a) (alarm_next al) ys" by (auto simp: list_ok_def)
    from alarm_destroy_ok [of s "[]" a ys] Suc.prems Cons obtain s' where
      s': "alarm_destroy (Some a) s = Some s'" "list_ok s' ys" "pending_ok s'" by auto
    have "alarm_next al = alarms (actx s')"
      using al(3) s'(2) by (cases ys) (auto simp: list_ok_def)
    with Suc.IH [OF s'(2,3)] Suc.prems(3) Cons al s'(1) show ?thesis by simp
  qed
qed

lemma alarm_context_dispatch_ok:
  assumes "pending_ok s" "next_ok (actx s)" "next_pending_alarm_clk (actx s) \<noteq> CLOCK_MAX"
  shows "\<exists>a al. alarm_map s a = Some (next_pending_alarm_clk (actx s)) \<and> heap s a = Some al \<and>
     alarm_context_dispatch s clk =
       Some (alarm_callback al, clk - next_pending_alarm_clk (actx s), alarm_data al)"
proof -
  let ?j = "next_pending_alarm_idx (actx s)"
  let ?a = "pa_alarm (pending_alarms (actx s) ! nat ?j)"
  have j: "0 \<le> ?j" "nat ?j < num_pending_alarms (actx s)"
    "pa_clk (pending_alarms (actx s) ! nat ?j) = next_pending_alarm_clk (actx s)"
    using assms by (auto simp: next_ok_def)
  then have len: "nat ?j < length (pending_alarms (actx s))"
    using pending_ok_len [OF assms(1)] pending_ok_num [OF assms(1)] by simp
  from pending_ok_entry [OF assms(1) j(2)] obtain al where "heap s ?a = Some al" by blast
  moreover have "alarm_map s ?a = Some (next_pending_alarm_clk (actx s))"
    using j alarm_map_iff [OF assms(1)] by blast
  ultimately show ?thesis using j(1) len by (auto simp: alarm_context_dispatch_def arr_get_def)
qed

section \<open>Moving the clock\<close>

lemma warp_pending_nth:
  "i < length ps \<Longrightarrow> warp_pending n dir amount ps ! i =
     (if i < n then (ps ! i)\<lparr>pa_clk := warp dir amount (pa_clk (ps ! i))\<rparr> else ps ! i)"
proof (induction n dir amount ps arbitrary: i rule: warp_pending.induct)
  case (3 n dir amount p ps)
  then show ?case by (cases i) auto
qed auto

lemma length_warp_pending [simp]: "length (warp_pending n dir amount ps) = length ps"
  by (induction n dir amount ps rule: warp_pending.induct) auto

lemma time_warp_fields [simp]:
  "num_pending_alarms (alarm_context_time_warp c amount dir) = num_pending_alarms c"
  "alarms (alarm_context_time_warp c amount dir) = alarms c"
  "next_pending_alarm_idx (alarm_context_time_warp c amount dir) = next_pending_alarm_idx c"
  "length (pending_alarms (alarm_context_time_warp c amount dir)) = length (pending_alarms c)"
  by (simp_all add: alarm_context_time_warp_def)

lemma time_warp_map:
  assumes p: "pending_ok s" and "dir \<noteq> 0"
  shows "pending_ok (s\<lparr>actx := alarm_context_time_warp (actx s) amount dir\<rparr>)"
    and "alarm_map (s\<lparr>actx := alarm_context_time_warp (actx s) amount dir\<rparr>) a =
           map_option (warp dir amount) (alarm_map s a)"
proof -
  let ?s' = "s\<lparr>actx := alarm_context_time_warp (actx s) amount dir\<rparr>"
  have nth: "i < num_pending_alarms (actx s) \<Longrightarrow>
      pending_alarms (alarm_context_time_warp (actx s) amount dir) ! i =
      (pending_alarms (actx s) ! i)\<lparr>pa_clk := warp dir amount (pa_clk (pending_alarms (actx s) ! i))\<rparr>" for i
    using pending_ok_len [OF p] pending_ok_num [OF p] assms(2)
    by (simp add: alarm_context_time_warp_def warp_pending_nth)
  show p': "pending_ok ?s'" using p by (auto simp: pending_ok_def nth)
  show "alarm_map ?s' a = map_option (warp dir amount) (alarm_map s a)"
  proof (cases "heap s a")
    case None
    then show ?thesis by (simp add: alarm_map_def)
  next
    case (Some al)
    with pending_ok_back [OF p, of a al] nth [of "nat (pending_idx al)"] show ?thesis
      by (simp add: alarm_map_def not_less)
  qed
qed

text \<open>
  As long as something is pending and no tick wraps around, the cached tick moves along; the
  sentinel of an empty queue moves too, which \<open>alarm_context_time_warp\<close> does not guard against.
\<close>

lemma time_warp_back_next_ok:
  assumes n: "next_ok c" and len: "num_pending_alarms c \<le> length (pending_alarms c)"
    and ne: "next_pending_alarm_clk c \<noteq> CLOCK_MAX"
    and due: "amount \<le> next_pending_alarm_clk c"
  shows "next_ok (alarm_context_time_warp c amount (- 1))"
proof -
  let ?w = "warp (- 1) amount" and ?c' = "alarm_context_time_warp c amount (- 1)"
  have nth: "i < num_pending_alarms c \<Longrightarrow> pending_alarms ?c' ! i =
      (pending_alarms c ! i)\<lparr>pa_clk := ?w (pa_clk (pending_alarms c ! i))\<rparr>" for i
    using len by (simp add: alarm_context_time_warp_def warp_pending_nth)
  have clk: "next_pending_alarm_clk ?c' = ?w (next_pending_alarm_clk c)"
    by (simp add: alarm_context_time_warp_def)
  have mono: "?w (next_pending_alarm_clk c) \<le> ?w t" if "next_pending_alarm_clk c \<le> t" for t
    using due that by (simp add: warp_def word_le_nat_alt unat_sub)
  show ?thesis
    unfolding next_ok_def clk using n ne mono by (auto simp: next_ok_def nth)
qed

section \<open>The interface of the queue\<close>

text \<open>
  What a chip may rely on: setting and removing alarms acts on the pending set only, setting a new
  alarm in a full queue is refused, and the next tick is the least pending one.
\<close>

locale alarm_queue =
  fixes inv :: "'s \<Rightarrow> bool"
    and known :: "'s \<Rightarrow> nat set"
    and pend :: "'s \<Rightarrow> (nat \<rightharpoonup> clock)"
    and set_alarm :: "nat \<Rightarrow> clock \<Rightarrow> 's \<Rightarrow> 's option"
    and unset_alarm :: "nat \<Rightarrow> 's \<Rightarrow> 's option"
    and next_clk :: "'s \<Rightarrow> clock"
    and capacity :: nat
  assumes set_law: "inv s \<Longrightarrow> a \<in> known s \<Longrightarrow> pend s a \<noteq> None \<or> card (dom (pend s)) < capacity \<Longrightarrow>
      \<exists>s'. set_alarm a c s = Some s' \<and> inv s' \<and> known s' = known s \<and> pend s' = (pend s)(a \<mapsto> c)"
    and full_law: "inv s \<Longrightarrow> a \<in> known s \<Longrightarrow> pend s a = None \<Longrightarrow> capacity \<le> card (dom (pend s)) \<Longrightarrow>
      set_alarm a c s = Some s"
    and unset_law: "inv s \<Longrightarrow> a \<in> known s \<Longrightarrow>
      \<exists>s'. unset_alarm a s = Some s' \<and> inv s' \<and> known s' = known s \<and> pend s' = (pend s)(a := None)"
    and next_law: "inv s \<Longrightarrow> next_clk s = (if pend s = Map.empty then CLOCK_MAX else Min (ran (pend s)))"
    and finite_law: "inv s \<Longrightarrow> finite (dom (pend s))"
begin

lemma finite_ran_pend: "inv s \<Longrightarrow> finite (ran (pend s))"
  by (rule finite_ran [OF finite_law])

lemma next_le: "inv s \<Longrightarrow> pend s a = Some t \<Longrightarrow> next_clk s \<le> t"
  using finite_ran_pend by (auto simp: next_law intro!: Min_le ranI)

lemma not_due: "inv s \<Longrightarrow> clk < next_clk s \<Longrightarrow> pend s a = Some t \<Longrightarrow> clk < t"
  using next_le [of s a t] by (auto intro: order.strict_trans2)

lemma next_witness: "inv s \<Longrightarrow> next_clk s \<noteq> CLOCK_MAX \<Longrightarrow> \<exists>a. pend s a = Some (next_clk s)"
proof -
  assume i: "inv s" and n: "next_clk s \<noteq> CLOCK_MAX"
  then have ne: "pend s \<noteq> Map.empty" by (auto simp: next_law)
  then obtain a t where "pend s a = Some t" by fastforce
  then have "ran (pend s) \<noteq> {}" by (auto simp: ran_def)
  from Min_in [OF finite_ran_pend [OF i] this] ne i show ?thesis
    by (auto simp: next_law ran_def)
qed

lemma next_after_set:
  assumes "inv s" "a \<in> known s" "pend s a \<noteq> None \<or> card (dom (pend s)) < capacity"
  shows "\<exists>s'. set_alarm a c s = Some s' \<and> inv s' \<and> next_clk s' \<le> c \<and>
     (next_clk s' = c \<or> (\<exists>b. b \<noteq> a \<and> pend s b = Some (next_clk s')))"
proof -
  from set_law [OF assms] obtain s' where s': "set_alarm a c s = Some s'" "inv s'"
    "pend s' = (pend s)(a \<mapsto> c)" by blast
  then have le: "next_clk s' \<le> c" using next_le [of s' a c] by simp
  have "next_clk s' = c \<or> (\<exists>b. b \<noteq> a \<and> pend s b = Some (next_clk s'))"
  proof (cases "next_clk s' = CLOCK_MAX")
    case True
    with le show ?thesis by (simp add: word_order.extremum_unique)
  next
    case False
    from next_witness [OF s'(2) this] s'(3) show ?thesis by (auto split: if_splits)
  qed
  with s' le show ?thesis by blast
qed

lemma set_defined:
  assumes "inv s" "a \<in> known s"
  shows "\<exists>s'. set_alarm a c s = Some s' \<and> inv s' \<and> known s' = known s"
  using set_law [OF assms, of c] full_law [OF assms, of c] assms(1) by (cases "pend s a = None \<and> capacity \<le> card (dom (pend s))") auto

lemma set_unset:
  assumes "inv s" "a \<in> known s" "pend s a \<noteq> None \<or> card (dom (pend s)) < capacity"
  shows "\<exists>s' s''. set_alarm a c s = Some s' \<and> unset_alarm a s' = Some s'' \<and> inv s'' \<and>
     known s'' = known s \<and> pend s'' = (pend s)(a := None)"
  using set_law [OF assms] unset_law assms(2) by (metis fun_upd_upd)

lemma set_set:
  assumes "inv s" "a \<in> known s" "pend s a \<noteq> None \<or> card (dom (pend s)) < capacity"
  shows "\<exists>s' s''. set_alarm a c s = Some s' \<and> set_alarm a d s' = Some s'' \<and> inv s'' \<and>
     known s'' = known s \<and> pend s'' = (pend s)(a \<mapsto> d)"
proof -
  from set_law [OF assms] obtain s' where s': "set_alarm a c s = Some s'" "inv s'" "known s' = known s"
    "pend s' = (pend s)(a \<mapsto> c)" by blast
  with set_law [OF s'(2), of a d] assms(2) show ?thesis by auto
qed

end

lemma same_links_dom: "same_links s s' \<Longrightarrow> dom (heap s') = dom (heap s)"
  unfolding same_links_def by (metis (no_types) map_option_is_None domIff subsetI subset_antisym)

lemma alarm_inv_links: "alarm_inv s \<Longrightarrow> same_links s s' \<Longrightarrow> pending_ok s' \<Longrightarrow> next_ok (actx s') \<Longrightarrow> alarm_inv s'"
  unfolding alarm_inv_def using list_ok_same_links by blast

interpretation aq: alarm_queue alarm_inv "\<lambda>s. dom (heap s)" alarm_map alarm_set alarm_unset
  "\<lambda>s. next_pending_alarm_clk (actx s)" ALARM_CONTEXT_MAX_PENDING_ALARMS
proof unfold_locales
  fix s a c
  assume i: "alarm_inv s" and a: "a \<in> dom (heap s)"
    and room: "alarm_map s a \<noteq> None \<or> card (dom (alarm_map s)) < ALARM_CONTEXT_MAX_PENDING_ALARMS"
  from i have p: "pending_ok s" and n: "next_ok (actx s)" by (simp_all add: alarm_inv_def)
  from a obtain al where al: "heap s a = Some al" by blast
  show "\<exists>s'. alarm_set a c s = Some s' \<and> alarm_inv s' \<and> dom (heap s') = dom (heap s) \<and>
      alarm_map s' = (alarm_map s)(a \<mapsto> c)"
  proof (cases "pending_idx al < 0")
    case True
    then have "alarm_map s a = None" using al by (simp add: alarm_map_def)
    with room have "num_pending_alarms (actx s) < ALARM_CONTEXT_MAX_PENDING_ALARMS"
      by (simp add: card_alarm_map [OF p])
    note room = this
    from alarm_set_new [OF al True p room] obtain s' where s': "alarm_set a c s = Some s'" by blast
    note ok = alarm_set_new_ok [OF al True p room s']
    from ok n have "alarm_inv s'" by (intro alarm_inv_links [OF i]) auto
    with s' ok(3) same_links_dom [OF ok(4)] show ?thesis by blast
  next
    case False
    then have "0 \<le> pending_idx al" by simp
    note pos = this
    from alarm_set_pending [OF al pos p] obtain s' where s': "alarm_set a c s = Some s'" by blast
    note ok = alarm_set_pending_ok [OF al pos p s']
    from ok n have "alarm_inv s'" by (intro alarm_inv_links [OF i]) auto
    with s' ok(3) same_links_dom [OF ok(4)] show ?thesis by blast
  qed
next
  fix s a c
  assume "alarm_inv s" "a \<in> dom (heap s)" "alarm_map s a = None"
    "ALARM_CONTEXT_MAX_PENDING_ALARMS \<le> card (dom (alarm_map s))"
  then show "alarm_set a c s = Some s"
    using card_alarm_map [of s] by (auto simp: alarm_inv_def alarm_map_def alarm_set_full split: if_splits)
next
  fix s a
  assume i: "alarm_inv s" and "a \<in> dom (heap s)"
  then obtain al where al: "heap s a = Some al" by blast
  from i have pn: "pending_ok s" "next_ok (actx s)" by (simp_all add: alarm_inv_def)
  from alarm_unset_ok [OF al pn(1)] pn(2) obtain s' where s': "alarm_unset a s = Some s'" "pending_ok s'"
    "next_ok (actx s')" "alarm_map s' = (alarm_map s)(a := None)" "same_links s s'" by blast
  from alarm_inv_links [OF i s'(5,2,3)] s' same_links_dom [OF s'(5)]
  show "\<exists>s'. alarm_unset a s = Some s' \<and> alarm_inv s' \<and>
      dom (heap s') = dom (heap s) \<and> alarm_map s' = (alarm_map s)(a := None)" by blast
next
  fix s assume "alarm_inv s"
  then show "next_pending_alarm_clk (actx s) =
      (if alarm_map s = Map.empty then CLOCK_MAX else Min (ran (alarm_map s)))"
    by (intro next_clk_Min) (simp_all add: alarm_inv_def)
next
  fix s assume "alarm_inv s"
  then show "finite (dom (alarm_map s))" by (simp add: alarm_inv_def dom_alarm_map)
qed

section \<open>Every sequence of calls\<close>

text \<open>
  The states a context can reach: created in memory of the right size, then any calls on alarms that
  exist, new alarms at unused addresses.
\<close>

inductive alarm_reach :: "alarm_sys \<Rightarrow> bool" where
  start: "length (pending_alarms mem) = ALARM_CONTEXT_MAX_PENDING_ALARMS \<Longrightarrow>
     alarm_reach \<lparr>actx = alarm_context_new mem name, heap = Map.empty\<rparr>"
| new: "alarm_reach s \<Longrightarrow> heap s a = None \<Longrightarrow> alarm_new a name cb d s = Some s' \<Longrightarrow> alarm_reach s'"
| set: "alarm_reach s \<Longrightarrow> a \<in> dom (heap s) \<Longrightarrow> alarm_set a c s = Some s' \<Longrightarrow> alarm_reach s'"
| unset: "alarm_reach s \<Longrightarrow> a \<in> dom (heap s) \<Longrightarrow> alarm_unset a s = Some s' \<Longrightarrow> alarm_reach s'"
| destroy: "alarm_reach s \<Longrightarrow> a \<in> dom (heap s) \<Longrightarrow> alarm_destroy (Some a) s = Some s' \<Longrightarrow> alarm_reach s'"

lemma alarm_inv_new:
  assumes "alarm_inv s" "heap s a = None"
  shows "\<exists>s'. alarm_new a name cb d s = Some s' \<and> alarm_inv s' \<and> alarm_map s' = alarm_map s \<and>
     dom (heap s') = insert a (dom (heap s))"
proof -
  from assms(1) obtain xs where xs: "list_ok s xs" and pn: "pending_ok s" "next_ok (actx s)"
    by (auto simp: alarm_inv_def)
  from alarm_new_ok [OF xs assms(2) pn(1), of name cb d] obtain s' where s': "alarm_new a name cb d s = Some s'"
    "list_ok s' (a # xs)" "pending_ok s'" "next_ok (actx s') = next_ok (actx s)" "alarm_map s' = alarm_map s" by blast
  moreover from s'(2) xs have "dom (heap s') = insert a (dom (heap s))" by (simp add: list_ok_def)
  ultimately show ?thesis using pn unfolding alarm_inv_def by blast
qed

lemma alarm_inv_destroy:
  assumes "alarm_inv s" "a \<in> dom (heap s)"
  shows "\<exists>s'. alarm_destroy (Some a) s = Some s' \<and> alarm_inv s' \<and> dom (heap s') = dom (heap s) - {a} \<and>
     alarm_map s' = (alarm_map s)(a := None)"
proof -
  from assms(1) obtain xs where xs: "list_ok s xs" and pn: "pending_ok s" "next_ok (actx s)"
    by (auto simp: alarm_inv_def)
  with assms(2) obtain ys zs where split: "xs = ys @ a # zs" by (metis list_ok_def split_list)
  with xs have l: "list_ok s (ys @ a # zs)" by simp
  from alarm_destroy_ok [OF l pn(1)] obtain s' where s': "alarm_destroy (Some a) s = Some s'"
    "list_ok s' (ys @ zs)" "pending_ok s'" "next_ok (actx s) \<longrightarrow> next_ok (actx s')"
    "alarm_map s' = (alarm_map s)(a := None)" by blast
  moreover have "dom (heap s') = dom (heap s) - {a}" using s'(2) l by (auto simp: list_ok_def)
  ultimately show ?thesis using pn unfolding alarm_inv_def by blast
qed

lemma alarm_reach_inv: "alarm_reach s \<Longrightarrow> alarm_inv s"
proof (induction rule: alarm_reach.induct)
  case (start mem name)
  then show ?case by (rule alarm_inv_init)
next
  case (new s a name cb d s')
  then show ?case using alarm_inv_new [of s a name cb d] by auto
next
  case (set s a c s')
  then show ?case using aq.set_law [of s a c] aq.full_law [of s a c]
    by (cases "alarm_map s a \<noteq> None \<or> card (dom (alarm_map s)) < ALARM_CONTEXT_MAX_PENDING_ALARMS") auto
next
  case (unset s a s')
  then show ?case using aq.unset_law [of s a] by auto
next
  case (destroy s a s')
  then show ?case using alarm_inv_destroy [of s a] by auto
qed

section \<open>Properties\<close>


text \<open>
  C13 (alarm_calls_defined): on an existing alarm, alarm_set, alarm_unset and alarm_destroy never follow
  a dangling pointer or leave the array, and act on the pending set as they should: setting maps the
  alarm to its tick unless a new alarm meets a full queue, which is left as it was; unsetting and
  destroying drop the alarm, destroying removes it from the context.
\<close>
theorem alarm_calls_defined:
  assumes "alarm_reach s" "a \<in> dom (heap s)"
  shows "(\<exists>s'. alarm_set a c s = Some s' \<and> alarm_map s' =
      (if alarm_map s a = None \<and> ALARM_CONTEXT_MAX_PENDING_ALARMS \<le> card (dom (alarm_map s))
       then alarm_map s else (alarm_map s)(a \<mapsto> c))) \<and>
    (\<exists>s'. alarm_unset a s = Some s' \<and> alarm_map s' = (alarm_map s)(a := None)) \<and>
    (\<exists>s'. alarm_destroy (Some a) s = Some s' \<and> alarm_map s' = (alarm_map s)(a := None) \<and>
      dom (heap s') = dom (heap s) - {a})"
  using aq.set_law [of s a c] aq.full_law [of s a c] aq.unset_law [of s a] alarm_inv_destroy [of s a]
    alarm_reach_inv [OF assms(1)] assms(2)
  by (auto simp: not_le)

text \<open>
  C22 (alarm_dispatch_least): when the cached tick is due, dispatching runs the callback of an alarm that
  is pending for exactly that tick, no alarm is pending for an earlier one, and the callback gets the
  number of cycles it is late.
\<close>
theorem alarm_dispatch_least:
  assumes "alarm_reach s" "alarm_context_next_pending_clk (actx s) \<noteq> CLOCK_MAX"
  shows "\<exists>a al t. alarm_map s a = Some t \<and> (\<forall>b u. alarm_map s b = Some u \<longrightarrow> t \<le> u) \<and> heap s a = Some al \<and>
     alarm_context_dispatch s (t + late) = Some (alarm_callback al, late, alarm_data al)"
proof -
  have i: "alarm_inv s" by (rule alarm_reach_inv [OF assms(1)])
  then show ?thesis
    using alarm_context_dispatch_ok [of s "next_pending_alarm_clk (actx s) + late"] assms(2)
      aq.next_le [OF i] by (fastforce simp: alarm_inv_def alarm_context_next_pending_clk_def)
qed

text \<open>
  C23 (alarm_warp_empty): alarm_context_time_warp moves the sentinel of an empty queue as if it were a
  tick: afterwards the context claims a pending alarm, and dispatching it reads the array at index -1
  once the last alarm has been unset.
\<close>
theorem alarm_warp_empty:
  assumes "alarm_reach s" "alarm_map s = Map.empty" "next_pending_alarm_idx (actx s) = - 1" "amount \<noteq> 0"
  shows "alarm_context_next_pending_clk (alarm_context_time_warp (actx s) amount (- 1)) = CLOCK_MAX - amount \<and>
    alarm_context_next_pending_clk (alarm_context_time_warp (actx s) amount (- 1)) \<noteq> CLOCK_MAX \<and>
    alarm_context_dispatch (s\<lparr>actx := alarm_context_time_warp (actx s) amount (- 1)\<rparr>) clk = None"
proof (intro conjI)
  have "next_pending_alarm_clk (actx s) = CLOCK_MAX"
    using aq.next_law [OF alarm_reach_inv [OF assms(1)]] assms(2) by simp
  then show "alarm_context_next_pending_clk (alarm_context_time_warp (actx s) amount (- 1)) = CLOCK_MAX - amount"
    by (simp add: alarm_context_next_pending_clk_def alarm_context_time_warp_def warp_def)
  then show "alarm_context_next_pending_clk (alarm_context_time_warp (actx s) amount (- 1)) \<noteq> CLOCK_MAX"
    using assms(4) by simp
  show "alarm_context_dispatch (s\<lparr>actx := alarm_context_time_warp (actx s) amount (- 1)\<rparr>) clk = None"
    using assms(3) by (simp add: alarm_context_dispatch_def arr_get_def)
qed

section \<open>Witnesses\<close>

text \<open>A context with one alarm (address 7), set for tick 100, and the same after unsetting it.\<close>

definition wit_mem :: alarm_context where
  "wit_mem = \<lparr>context_name = [], alarms = None,
     pending_alarms = replicate 256 \<lparr>pa_alarm = 0, pa_clk = 0\<rparr>,
     num_pending_alarms = 0, next_pending_alarm_clk = 0, next_pending_alarm_idx = 0\<rparr>"

definition wit_start :: alarm_sys where
  "wit_start = \<lparr>actx = alarm_context_new wit_mem ''MainCPU'', heap = Map.empty\<rparr>"

definition wit_new :: alarm_sys where
  "wit_new = the (alarm_new 7 ''CIA'' 3 4 wit_start)"

definition wit_set :: alarm_sys where
  "wit_set = the (alarm_set 7 100 wit_new)"

lemma wit_start_reach: "alarm_reach wit_start"
  unfolding wit_start_def
  by (rule alarm_reach.start) (simp add: wit_mem_def ALARM_CONTEXT_MAX_PENDING_ALARMS_def)

lemma wit_new_run: "alarm_new 7 ''CIA'' 3 4 wit_start = Some wit_new"
  by (simp add: wit_new_def wit_start_def alarm_new_def alarm_init_def alarm_context_new_def
      alarm_context_init_def Let_def)

lemma wit_new_reach: "alarm_reach wit_new"
  by (rule alarm_reach.new [OF wit_start_reach _ wit_new_run]) (simp add: wit_start_def)

lemma wit_new_dom: "7 \<in> dom (heap wit_new)" "alarm_map wit_new = Map.empty"
  by (auto simp: wit_new_def wit_start_def alarm_new_def alarm_init_def alarm_context_new_def
      alarm_context_init_def Let_def alarm_map_def wit_mem_def)

lemma wit_set_run: "alarm_set 7 100 wit_new = Some wit_set" "alarm_map wit_set = [7 \<mapsto> 100]"
proof -
  from aq.set_law [OF alarm_reach_inv [OF wit_new_reach] wit_new_dom(1), of 100] wit_new_dom(2)
  obtain s' where "alarm_set 7 100 wit_new = Some s'" "alarm_map s' = [7 \<mapsto> 100]"
    by (auto simp: ALARM_CONTEXT_MAX_PENDING_ALARMS_def)
  then show "alarm_set 7 100 wit_new = Some wit_set" "alarm_map wit_set = [7 \<mapsto> 100]"
    by (simp_all add: wit_set_def)
qed

lemma wit_set_reach: "alarm_reach wit_set"
  by (rule alarm_reach.set [OF wit_new_reach wit_new_dom(1) wit_set_run(1)])

lemma wit_set_next: "next_pending_alarm_clk (actx wit_set) = 100"
  using aq.next_law [OF alarm_reach_inv [OF wit_set_reach]] by (simp add: wit_set_run)


theorem alarm_calls_defined_witness:
  "\<exists>s'. alarm_unset 7 wit_set = Some s' \<and> alarm_map s' = Map.empty"
proof -
  have "7 \<in> dom (heap wit_set)"
    using wit_set_run(2) by (auto simp: alarm_map_def dest: fun_cong [of _ _ 7] split: option.splits)
  from alarm_calls_defined [OF wit_set_reach this] show ?thesis by (simp add: wit_set_run)
qed

theorem alarm_dispatch_least_witness:
  "\<exists>cb d. alarm_context_dispatch wit_set 105 = Some (cb, 5, d)"
proof -
  have "alarm_context_next_pending_clk (actx wit_set) \<noteq> CLOCK_MAX"
    by (simp add: alarm_context_next_pending_clk_def wit_set_next)
  from alarm_dispatch_least [OF wit_set_reach this, of 5] show ?thesis
    by (auto simp: wit_set_run split: if_splits)
qed

definition wit_unset :: alarm_sys where
  "wit_unset = the (alarm_unset 7 wit_set)"

theorem alarm_warp_empty_witness:
  "alarm_reach wit_unset \<and> alarm_map wit_unset = Map.empty \<and>
   alarm_context_dispatch (wit_unset\<lparr>actx := alarm_context_time_warp (actx wit_unset) 1000 (- 1)\<rparr>) 5000 = None"
proof -
  have dom7: "7 \<in> dom (heap wit_set)"
    using wit_set_run(2) by (auto simp: alarm_map_def dest: fun_cong [of _ _ 7] split: option.splits)
  from aq.unset_law [OF alarm_reach_inv [OF wit_set_reach] this] obtain s' where
    s': "alarm_unset 7 wit_set = Some s'" "alarm_map s' = Map.empty" by (auto simp: wit_set_run)
  then have w: "alarm_unset 7 wit_set = Some wit_unset" "alarm_map wit_unset = Map.empty"
    by (simp_all add: wit_unset_def)
  from alarm_reach.unset [OF wit_set_reach dom7 w(1)] have r: "alarm_reach wit_unset" .
  have "next_pending_alarm_idx (actx wit_unset) = - 1"
    by (simp add: wit_unset_def wit_set_def wit_new_def wit_start_def alarm_new_def alarm_init_def
        alarm_context_new_def alarm_context_init_def wit_mem_def alarm_set_def alarm_unset_def
        set_pending_idx_def arr_set_def ALARM_CONTEXT_MAX_PENDING_ALARMS_def Let_def)
  from alarm_warp_empty [OF r w(2) this, of 1000 5000] r w(2) show ?thesis by simp
qed

end
