(* ===== verification/Clkguard.thy ===== *)
theory Clkguard
  imports Prelude
begin

text \<open>
  The clock guard of clkguard.c: clocks are 32-bit counters, and before the counter can wrap the guard
  subtracts a large amount from it and tells every registered callback how much. The guarded
  counter \<open>*clk_ptr\<close> is passed and returned; the callbacks are opaque (function, data) pairs, and
  the calls to make come back as a list of (function, amount, data) in the order of the loop.
\<close>

definition CLKGUARD_SUB_MIN :: clock where
  "CLKGUARD_SUB_MIN = 0xfffff"

record clk_guard_callback =
  cb_function :: nat
  cb_data :: nat

record clk_guard =
  clk_ptr :: nat
  clk_base :: clock
  clk_max_value :: clock
  callback_list :: "clk_guard_callback list"

text \<open>\<open>clk_guard_init\<close> refuses (None for -1) a maximum below three times the minimum distance.\<close>

definition clk_guard_init :: "nat \<Rightarrow> clock \<Rightarrow> clk_guard option" where
  "clk_guard_init init_clk_ptr init_clk_max_value =
     (if init_clk_max_value < CLKGUARD_SUB_MIN * 3 then None
      else Some \<lparr>clk_ptr = init_clk_ptr, clk_base = 0, clk_max_value = init_clk_max_value,
                 callback_list = []\<rparr>)"

definition clk_guard_new :: "nat \<Rightarrow> clock \<Rightarrow> clk_guard option" where
  "clk_guard_new init_clk_ptr init_clk_max_value = clk_guard_init init_clk_ptr init_clk_max_value"

definition clk_guard_set_clk_base :: "clk_guard \<Rightarrow> clock \<Rightarrow> clk_guard" where
  "clk_guard_set_clk_base guard new_clk_base = guard\<lparr>clk_base := new_clk_base\<rparr>"

definition clk_guard_get_clk_base :: "clk_guard \<Rightarrow> clock" where
  "clk_guard_get_clk_base guard = clk_base guard"

definition clk_guard_add_callback :: "clk_guard \<Rightarrow> nat \<Rightarrow> nat \<Rightarrow> clk_guard" where
  "clk_guard_add_callback guard f d =
     guard\<lparr>callback_list := \<lparr>cb_function = f, cb_data = d\<rparr> # callback_list guard\<rparr>"

definition clk_guard_clock_sub :: "clk_guard \<Rightarrow> clock" where
  "clk_guard_clock_sub guard =
     (let sub = clk_max_value guard - CLKGUARD_SUB_MIN
      in if clk_base guard \<noteq> 0 then (sub div clk_base guard) * clk_base guard else sub)"

definition clk_guard_prevent_overflow ::
  "clk_guard \<Rightarrow> clock \<Rightarrow> clock \<times> clock \<times> (nat \<times> clock \<times> nat) list" where
  "clk_guard_prevent_overflow guard clk =
     (if clk < clk_max_value guard then (0, clk, [])
      else let sub = clk_guard_clock_sub guard
           in (sub, clk - sub, map (\<lambda>cb. (cb_function cb, sub, cb_data cb)) (callback_list guard)))"

text \<open>What \<open>clk_guard_init\<close> establishes and the other operations keep.\<close>

definition guard_ok :: "clk_guard \<Rightarrow> bool" where
  "guard_ok g \<longleftrightarrow> CLKGUARD_SUB_MIN * 3 \<le> clk_max_value g"

lemma guard_ok_ops:
  "clk_guard_new p m = Some g \<Longrightarrow> guard_ok g"
  "guard_ok g \<Longrightarrow> guard_ok (clk_guard_set_clk_base g b)"
  "guard_ok g \<Longrightarrow> guard_ok (clk_guard_add_callback g f d)"
  by (auto simp: guard_ok_def clk_guard_new_def clk_guard_init_def clk_guard_set_clk_base_def
      clk_guard_add_callback_def not_less split: if_splits)

lemma unat_sub_min:
  assumes "guard_ok g"
  shows "unat (clk_max_value g - CLKGUARD_SUB_MIN) = unat (clk_max_value g) - 0xfffff"
    and "3 * 0xfffff \<le> unat (clk_max_value g)"
proof -
  have le: "3 * 0xfffff \<le> unat (clk_max_value g)"
    using assms by (simp add: guard_ok_def CLKGUARD_SUB_MIN_def word_le_nat_alt)
  then show "3 * 0xfffff \<le> unat (clk_max_value g)" .
  from le show "unat (clk_max_value g - CLKGUARD_SUB_MIN) = unat (clk_max_value g) - 0xfffff"
    by (simp add: CLKGUARD_SUB_MIN_def unat_sub word_le_nat_alt)
qed

lemma unat_clock_sub:
  assumes "guard_ok g"
  shows "unat (clk_guard_clock_sub g) =
    (let s = unat (clk_max_value g) - 0xfffff
     in if clk_base g = 0 then s else s - s mod unat (clk_base g))"
proof (cases "clk_base g = 0")
  case True
  then show ?thesis by (simp add: clk_guard_clock_sub_def unat_sub_min [OF assms])
next
  case False
  let ?w = "clk_max_value g - CLKGUARD_SUB_MIN" and ?b = "clk_base g"
  have eq: "unat ?w div unat ?b * unat ?b = unat ?w - unat ?w mod unat ?b"
    by (metis minus_mod_eq_div_mult)
  also have "\<dots> < 2 ^ 32"
    using unsigned_less [of ?w, where 'a = nat] by (simp add: less_imp_diff_less)
  finally have lt: "unat (?w div ?b) * unat ?b < 2 ^ 32" by (simp only: unat_div)
  have "unat (?w div ?b * ?b) = unat (?w div ?b) * unat ?b"
    using lt unat_mult_lem [of "?w div ?b" ?b] by simp
  then have "unat (?w div ?b * ?b) = unat ?w div unat ?b * unat ?b" by (simp only: unat_div)
  with False eq show ?thesis
    by (simp add: clk_guard_clock_sub_def unat_sub_min [OF assms] Let_def)
qed

lemma sub_mod_bounds:
  assumes "0 < (b :: nat)"
  shows "b dvd (s - s mod b) \<and> s < s - s mod b + b"
proof -
  have "s mod b < b" "s mod b \<le> s" using assms by auto
  then show ?thesis by (simp add: dvd_minus_mod)
qed

text \<open>
  C24 (prevent_overflow_ok): for a guard made by clk_guard_new, clk_guard_prevent_overflow leaves a
  counter below the maximum alone and runs no callback; otherwise it subtracts the returned
  amount, a multiple of the base that never exceeds the counter, leaves at least CLKGUARD_SUB_MIN
  cycles, and calls every registered callback once with that amount, the latest first.
\<close>
theorem prevent_overflow_ok:
  assumes "guard_ok g" and "clk_guard_prevent_overflow g clk = (sub, clk', calls)"
  shows "(clk < clk_max_value g \<longrightarrow> sub = 0 \<and> clk' = clk \<and> calls = []) \<and>
    (clk_max_value g \<le> clk \<longrightarrow>
       unat clk' = unat clk - unat sub \<and> unat sub + 0xfffff \<le> unat clk \<and>
       unat sub \<le> unat (clk_max_value g) - 0xfffff \<and>
       (clk_base g \<noteq> 0 \<longrightarrow> unat (clk_base g) dvd unat sub \<and>
          unat (clk_max_value g) - 0xfffff < unat sub + unat (clk_base g)) \<and>
       (clk_base g = 0 \<longrightarrow> unat sub = unat (clk_max_value g) - 0xfffff) \<and>
       map (\<lambda>(f, s, d). (f, d)) calls = map (\<lambda>cb. (cb_function cb, cb_data cb)) (callback_list g) \<and>
       (\<forall>(f, s, d) \<in> set calls. s = sub))"
proof (cases "clk < clk_max_value g")
  case True
  with assms(2) show ?thesis by (auto simp: clk_guard_prevent_overflow_def)
next
  case False
  let ?s = "unat (clk_max_value g) - 0xfffff"
  from False assms(2) have r: "sub = clk_guard_clock_sub g" "clk' = clk - sub"
    "calls = map (\<lambda>cb. (cb_function cb, sub, cb_data cb)) (callback_list g)"
    by (auto simp: clk_guard_prevent_overflow_def Let_def)
  have us: "unat sub = (if clk_base g = 0 then ?s else ?s - ?s mod unat (clk_base g))"
    using unat_clock_sub [OF assms(1)] by (simp add: r Let_def)
  have "?s - m \<le> ?s" for m by (rule diff_le_self)
  with us have le: "unat sub \<le> ?s" by (metis order.refl)
  have max: "unat (clk_max_value g) \<le> unat clk" using False by (simp add: not_less word_le_nat_alt)
  have room: "unat sub + 0xfffff \<le> unat clk" using le max unat_sub_min(2) [OF assms(1)] by linarith
  then have "unat clk' = unat clk - unat sub" by (simp add: r(2) unat_sub word_le_nat_alt)
  moreover have "clk_base g \<noteq> 0 \<Longrightarrow> unat (clk_base g) dvd unat sub \<and> ?s < unat sub + unat (clk_base g)"
  proof -
    assume b: "clk_base g \<noteq> 0"
    then have pos: "0 < unat (clk_base g)" by (simp add: unat_gt_0)
    have us': "unat sub = ?s - ?s mod unat (clk_base g)" using us b by (simp only: if_False)
    show ?thesis unfolding us' by (rule sub_mod_bounds [OF pos])
  qed
  ultimately show ?thesis using False le room us by (auto simp: r(3))
qed

text \<open>A guard for a 1000-cycle base at its maximum.\<close>

theorem prevent_overflow_ok_witness:
  "fst (snd (clk_guard_prevent_overflow \<lparr>clk_ptr = 0, clk_base = 1000, clk_max_value = 0x40000000,
     callback_list = [\<lparr>cb_function = 3, cb_data = 4\<rparr>]\<rparr> 0x40000000)) < 0x40000000"
proof -
  let ?g = "\<lparr>clk_ptr = 0, clk_base = 1000, clk_max_value = 0x40000000,
     callback_list = [\<lparr>cb_function = 3, cb_data = 4\<rparr>]\<rparr>"
  have ok: "guard_ok ?g" by (simp add: guard_ok_def CLKGUARD_SUB_MIN_def)
  obtain sub clk' calls where r: "clk_guard_prevent_overflow ?g 0x40000000 = (sub, clk', calls)"
    by (metis prod_cases3)
  from prevent_overflow_ok [OF ok r] have "unat clk' = 0x40000000 - unat sub"
    "0x40000000 - 0xfffff < unat sub + 1000" by auto
  then show ?thesis by (simp add: r word_less_nat_alt)
qed

end
