(* ===== verification/Interrupt.thy ===== *)
theory Interrupt
  imports Prelude
begin

text \<open>
  The interrupt lines of a CPU: interrupt.c and interrupt.h, the delay checks of maincpu.c and the
  cycle stealing of dma.c. Chips register sources and raise or lower the IRQ and NMI of their
  source; the status keeps the wired-or of the sources in \<open>global_pending_int\<close> together with the
  clock at which the CPU may react. The opcode information that \<open>last_opcode_info_ptr\<close> points to is
  an argument of the operations that read it; callbacks are opaque numbers that the operations
  return instead of calling. An array index out of range is None. The counters \<open>nirq\<close> and \<open>nnmi\<close>
  are C ints that never exceed the number of sources; they are \<open>int\<close>.

  The invariant \<open>int_inv\<close> says that the counters and the global bits agree with the sources; the
  locale \<open>int_line\<close> is what a chip driving a line relies on, interpreted for both lines.
\<close>

section \<open>State\<close>

definition INTERRUPT_DELAY :: clock where "INTERRUPT_DELAY = 2"

definition INTRRUPT_MAX_DMA_PER_OPCODE :: nat where "INTRRUPT_MAX_DMA_PER_OPCODE = 7 + 10000"

definition IK_NONE :: u32 where "IK_NONE = 0"
definition IK_NMI :: u32 where "IK_NMI = push_bit 0 1"
definition IK_IRQ :: u32 where "IK_IRQ = push_bit 1 1"
definition IK_RESET :: u32 where "IK_RESET = push_bit 2 1"
definition IK_TRAP :: u32 where "IK_TRAP = push_bit 3 1"
definition IK_MONITOR :: u32 where "IK_MONITOR = push_bit 4 1"
definition IK_DMA :: u32 where "IK_DMA = push_bit 5 1"
definition IK_IRQPEND :: u32 where "IK_IRQPEND = push_bit 6 1"

record interrupt_cpu_status =
  num_ints :: nat
  pending_int :: "u32 list"
  int_name :: "string list"
  nirq :: int
  irq_clk :: clock
  nnmi :: int
  nmi_clk :: clock
  num_dma_per_opcode :: nat
  num_cycles_left :: "u32 list"
  dma_start_clk :: "clock list"
  irq_delay_cycles :: u32
  nmi_delay_cycles :: u32
  ics_reset :: int
  ics_trap :: int
  trap_func :: "nat option"
  trap_data :: nat
  num_last_stolen_cycles :: int
  last_stolen_cycles_clk :: clock
  irq_pending_clk :: clock
  global_pending_int :: u32
  nmi_trap_func :: "nat option"
  reset_trap_func :: "nat option"

text \<open>The opcode information word (6510core.h, maincpu.h).\<close>

definition OPINFO_DELAYS_INTERRUPT_MSK :: u32 where "OPINFO_DELAYS_INTERRUPT_MSK = push_bit 8 1"
definition OPINFO_DISABLES_IRQ_MSK :: u32 where "OPINFO_DISABLES_IRQ_MSK = push_bit 9 1"
definition OPINFO_ENABLES_IRQ_MSK :: u32 where "OPINFO_ENABLES_IRQ_MSK = push_bit 10 1"

definition OPINFO_NUMBER :: "u32 \<Rightarrow> u32" where
  "OPINFO_NUMBER opinfo = opinfo AND 0xff"

definition OPINFO_DELAYS_INTERRUPT :: "u32 \<Rightarrow> u32" where
  "OPINFO_DELAYS_INTERRUPT opinfo = opinfo AND OPINFO_DELAYS_INTERRUPT_MSK"

definition OPINFO_DISABLES_IRQ :: "u32 \<Rightarrow> u32" where
  "OPINFO_DISABLES_IRQ opinfo = opinfo AND OPINFO_DISABLES_IRQ_MSK"

definition OPINFO_ENABLES_IRQ :: "u32 \<Rightarrow> u32" where
  "OPINFO_ENABLES_IRQ opinfo = opinfo AND OPINFO_ENABLES_IRQ_MSK"

definition OPINFO_SET :: "u32 \<Rightarrow> bool \<Rightarrow> bool \<Rightarrow> bool \<Rightarrow> u32" where
  "OPINFO_SET number delays_interrupt disables_irq enables_irq =
     number OR (if delays_interrupt then OPINFO_DELAYS_INTERRUPT_MSK else 0)
       OR (if disables_irq then OPINFO_DISABLES_IRQ_MSK else 0)
       OR (if enables_irq then OPINFO_ENABLES_IRQ_MSK else 0)"

definition OPINFO_SET_DELAYS_INTERRUPT :: "u32 \<Rightarrow> bool \<Rightarrow> u32" where
  "OPINFO_SET_DELAYS_INTERRUPT opinfo delay =
     (if delay then opinfo OR OPINFO_DELAYS_INTERRUPT_MSK else opinfo)"

definition OPINFO_SET_DISABLES_IRQ :: "u32 \<Rightarrow> bool \<Rightarrow> u32" where
  "OPINFO_SET_DISABLES_IRQ opinfo disable =
     (if disable then opinfo OR OPINFO_DISABLES_IRQ_MSK else opinfo)"

definition OPINFO_SET_ENABLES_IRQ :: "u32 \<Rightarrow> bool \<Rightarrow> u32" where
  "OPINFO_SET_ENABLES_IRQ opinfo enable =
     (if enable then opinfo OR OPINFO_ENABLES_IRQ_MSK else opinfo)"

section \<open>Operations of interrupt.c\<close>

text \<open>\<open>lib_calloc\<close> and \<open>memset\<close> give zeroes.\<close>

definition zeroed_status :: interrupt_cpu_status where
  "zeroed_status =
     \<lparr>num_ints = 0, pending_int = [], int_name = [], nirq = 0, irq_clk = 0, nnmi = 0, nmi_clk = 0,
      num_dma_per_opcode = 0, num_cycles_left = replicate INTRRUPT_MAX_DMA_PER_OPCODE 0,
      dma_start_clk = replicate INTRRUPT_MAX_DMA_PER_OPCODE 0, irq_delay_cycles = 0,
      nmi_delay_cycles = 0, ics_reset = 0, ics_trap = 0, trap_func = None, trap_data = 0,
      num_last_stolen_cycles = 0, last_stolen_cycles_clk = 0, irq_pending_clk = 0,
      global_pending_int = 0, nmi_trap_func = None, reset_trap_func = None\<rparr>"

definition interrupt_cpu_status_new :: interrupt_cpu_status where
  "interrupt_cpu_status_new = zeroed_status"

definition interrupt_cpu_status_init :: "interrupt_cpu_status \<Rightarrow> interrupt_cpu_status" where
  "interrupt_cpu_status_init cs = cs\<lparr>num_ints := 0, pending_int := [], int_name := []\<rparr>"

definition interrupt_cpu_status_reset :: "interrupt_cpu_status \<Rightarrow> interrupt_cpu_status" where
  "interrupt_cpu_status_reset cs =
     (let cleared = (if 0 < num_ints cs then replicate (num_ints cs) 0 else pending_int cs)
      in zeroed_status\<lparr>num_ints := num_ints cs, pending_int := cleared, int_name := int_name cs,
           num_last_stolen_cycles := 0, last_stolen_cycles_clk := 0, num_dma_per_opcode := 0,
           irq_delay_cycles := 0, nmi_delay_cycles := 0, global_pending_int := IK_NONE,
           nmi_trap_func := None, reset_trap_func := None, irq_pending_clk := CLOCK_MAX\<rparr>)"

definition interrupt_cpu_status_int_new ::
  "interrupt_cpu_status \<Rightarrow> string \<Rightarrow> interrupt_cpu_status \<times> nat" where
  "interrupt_cpu_status_int_new cs name =
     (let n = num_ints cs + 1
      in (cs\<lparr>num_ints := n, pending_int := take (n - 1) (pending_int cs) @ [0],
             int_name := take (n - 1) (int_name cs) @ [name]\<rparr>, n - 1))"

definition interrupt_set_nmi_trap_func :: "interrupt_cpu_status \<Rightarrow> nat option \<Rightarrow> interrupt_cpu_status" where
  "interrupt_set_nmi_trap_func cs f = cs\<lparr>nmi_trap_func := f\<rparr>"

definition interrupt_set_reset_trap_func :: "interrupt_cpu_status \<Rightarrow> nat option \<Rightarrow> interrupt_cpu_status" where
  "interrupt_set_reset_trap_func cs f = cs\<lparr>reset_trap_func := f\<rparr>"

text \<open>Backward, a time below the amount becomes 0.\<close>

definition clock_down :: "clock \<Rightarrow> clock \<Rightarrow> clock" where
  "clock_down c amount = (if c > amount then c - amount else 0)"

definition interrupt_cpu_status_time_warp ::
  "interrupt_cpu_status \<Rightarrow> clock \<Rightarrow> int \<Rightarrow> interrupt_cpu_status" where
  "interrupt_cpu_status_time_warp cs warp_amount warp_direction =
     (if warp_direction = 0 then cs
      else if 0 < warp_direction then
        cs\<lparr>irq_clk := irq_clk cs + warp_amount, nmi_clk := nmi_clk cs + warp_amount,
           last_stolen_cycles_clk := last_stolen_cycles_clk cs + warp_amount,
           irq_pending_clk := (if irq_pending_clk cs < CLOCK_MAX then irq_pending_clk cs + warp_amount
                               else irq_pending_clk cs)\<rparr>
      else
        cs\<lparr>irq_clk := clock_down (irq_clk cs) warp_amount,
           nmi_clk := clock_down (nmi_clk cs) warp_amount,
           last_stolen_cycles_clk := clock_down (last_stolen_cycles_clk cs) warp_amount,
           irq_pending_clk := (if irq_pending_clk cs < CLOCK_MAX
                               then clock_down (irq_pending_clk cs) warp_amount
                               else irq_pending_clk cs)\<rparr>)"

definition or_pending :: "interrupt_cpu_status \<Rightarrow> int \<Rightarrow> u32 \<Rightarrow> interrupt_cpu_status option" where
  "or_pending cs int_num k = do {
     p \<leftarrow> arr_get (pending_int cs) int_num;
     ps \<leftarrow> arr_set (pending_int cs) int_num (p OR k);
     Some (cs\<lparr>pending_int := ps\<rparr>)
   }"

definition clear_pending :: "interrupt_cpu_status \<Rightarrow> int \<Rightarrow> u32 \<Rightarrow> interrupt_cpu_status option" where
  "clear_pending cs int_num k = do {
     p \<leftarrow> arr_get (pending_int cs) int_num;
     ps \<leftarrow> arr_set (pending_int cs) int_num (p AND NOT k);
     Some (cs\<lparr>pending_int := ps\<rparr>)
   }"

definition interrupt_restore_irq :: "interrupt_cpu_status \<Rightarrow> int \<Rightarrow> int \<Rightarrow> interrupt_cpu_status option" where
  "interrupt_restore_irq cs int_num value =
     (if value \<noteq> 0 then or_pending cs int_num IK_IRQ else clear_pending cs int_num IK_IRQ)"

definition interrupt_restore_nmi :: "interrupt_cpu_status \<Rightarrow> int \<Rightarrow> int \<Rightarrow> interrupt_cpu_status option" where
  "interrupt_restore_nmi cs int_num value =
     (if value \<noteq> 0 then or_pending cs int_num IK_NMI else clear_pending cs int_num IK_NMI)"

definition interrupt_get_irq :: "interrupt_cpu_status \<Rightarrow> int \<Rightarrow> u32 option" where
  "interrupt_get_irq cs int_num = do { p \<leftarrow> arr_get (pending_int cs) int_num; Some (p AND IK_IRQ) }"

definition interrupt_get_nmi :: "interrupt_cpu_status \<Rightarrow> int \<Rightarrow> u32 option" where
  "interrupt_get_nmi cs int_num = do { p \<leftarrow> arr_get (pending_int cs) int_num; Some (p AND IK_NMI) }"

text \<open>
  The loop of \<open>interrupt_fixup_int_clk\<close> walks the DMA records of the last opcode from the latest
  back, and stops at the first that started no later than \<open>cpu_clk + 1\<close>. Its result is
  (num_cycles_left, last_num_cycles_left, last_start_clk).
\<close>

fun fixup_loop ::
  "interrupt_cpu_status \<Rightarrow> clock \<Rightarrow> nat \<Rightarrow> u32 \<Rightarrow> u32 \<Rightarrow> clock \<Rightarrow> (u32 \<times> u32 \<times> clock) option" where
  "fixup_loop cs cpu_clk 0 lft last_left last_start = Some (lft, last_left, last_start)"
| "fixup_loop cs cpu_clk (Suc num_dma) lft last_left last_start = do {
     l \<leftarrow> arr_get (num_cycles_left cs) (int num_dma);
     start \<leftarrow> arr_get (dma_start_clk cs) (int num_dma);
     if start - 1 \<le> cpu_clk then Some (l, last_left, last_start)
     else fixup_loop cs cpu_clk num_dma l l start
   }"

definition interrupt_fixup_int_clk :: "u32 \<Rightarrow> interrupt_cpu_status \<Rightarrow> clock \<Rightarrow> clock option" where
  "interrupt_fixup_int_clk opinfo cs cpu_clk = do {
     let cycles_lftto_trigger_irq = (if truth (OPINFO_DELAYS_INTERRUPT opinfo) then 2 else 1);
     (l, last_left, last_start) \<leftarrow> fixup_loop cs cpu_clk (num_dma_per_opcode cs) 0 0 CLOCK_MAX;
     let l' = (if l - last_left > last_start - cpu_clk - 1
               then last_left + last_start - cpu_clk - 1 else l);
     let int_clk = last_stolen_cycles_clk cs;
     int_clk' \<leftarrow> (if 0 < num_dma_per_opcode cs then do {
           s0 \<leftarrow> arr_get (dma_start_clk cs) 0;
           Some (if s0 > cpu_clk then int_clk - (s0 - cpu_clk) else int_clk)
         } else Some int_clk);
     Some (if l' \<ge> cycles_lftto_trigger_irq then int_clk' - (cycles_lftto_trigger_irq + 1)
           else int_clk')
   }"

definition interrupt_trigger_dma :: "interrupt_cpu_status \<Rightarrow> interrupt_cpu_status" where
  "interrupt_trigger_dma cs = cs\<lparr>global_pending_int := global_pending_int cs OR IK_DMA\<rparr>"

definition interrupt_ack_dma :: "interrupt_cpu_status \<Rightarrow> interrupt_cpu_status" where
  "interrupt_ack_dma cs = cs\<lparr>global_pending_int := global_pending_int cs AND NOT IK_DMA\<rparr>"

definition interrupt_trigger_reset :: "interrupt_cpu_status \<Rightarrow> interrupt_cpu_status" where
  "interrupt_trigger_reset cs = cs\<lparr>global_pending_int := global_pending_int cs OR IK_RESET\<rparr>"

text \<open>The second component is the callback to run, if there is one.\<close>

definition interrupt_ack_reset :: "interrupt_cpu_status \<Rightarrow> interrupt_cpu_status \<times> nat option" where
  "interrupt_ack_reset cs =
     (cs\<lparr>global_pending_int := global_pending_int cs AND NOT IK_RESET\<rparr>, reset_trap_func cs)"

definition interrupt_maincpu_trigger_trap ::
  "interrupt_cpu_status \<Rightarrow> nat \<Rightarrow> nat \<Rightarrow> interrupt_cpu_status" where
  "interrupt_maincpu_trigger_trap cs f d =
     cs\<lparr>global_pending_int := global_pending_int cs OR IK_TRAP, trap_func := Some f, trap_data := d\<rparr>"

text \<open>Calls through a null \<open>trap_func\<close> are undefined. The call to make is (function, address, data).\<close>

definition interrupt_do_trap ::
  "interrupt_cpu_status \<Rightarrow> u16 \<Rightarrow> (interrupt_cpu_status \<times> nat \<times> u16 \<times> nat) option" where
  "interrupt_do_trap cs address = do {
     f \<leftarrow> trap_func cs;
     Some (cs\<lparr>global_pending_int := global_pending_int cs AND NOT IK_TRAP\<rparr>, f, address, trap_data cs)
   }"

definition interrupt_monitor_trap_on :: "interrupt_cpu_status \<Rightarrow> interrupt_cpu_status" where
  "interrupt_monitor_trap_on cs = cs\<lparr>global_pending_int := global_pending_int cs OR IK_MONITOR\<rparr>"

definition interrupt_monitor_trap_off :: "interrupt_cpu_status \<Rightarrow> interrupt_cpu_status" where
  "interrupt_monitor_trap_off cs = cs\<lparr>global_pending_int := global_pending_int cs AND NOT IK_MONITOR\<rparr>"

section \<open>Inline operations of interrupt.h\<close>

text \<open>The clock a newly raised line gets: now, or corrected for the cycles stolen from the CPU.\<close>

definition int_clk_now :: "u32 \<Rightarrow> interrupt_cpu_status \<Rightarrow> clock \<Rightarrow> clock option" where
  "int_clk_now opinfo cs cpu_clk =
     (if last_stolen_cycles_clk cs \<le> cpu_clk then Some cpu_clk
      else interrupt_fixup_int_clk opinfo cs cpu_clk)"

definition interrupt_set_irq ::
  "u32 \<Rightarrow> interrupt_cpu_status \<Rightarrow> nat \<Rightarrow> int \<Rightarrow> clock \<Rightarrow> interrupt_cpu_status option" where
  "interrupt_set_irq opinfo cs int_num value cpu_clk =
     (if num_ints cs \<le> int_num then Some cs
      else if value \<noteq> 0 then do {
        p \<leftarrow> arr_get (pending_int cs) (int int_num);
        if truth (p AND IK_IRQ) then Some cs
        else do {
          let cs1 = cs\<lparr>nirq := nirq cs + 1,
                       global_pending_int := global_pending_int cs OR (IK_IRQ OR IK_IRQPEND)\<rparr>;
          cs2 \<leftarrow> or_pending cs1 (int int_num) IK_IRQ;
          let cs3 = cs2\<lparr>irq_pending_clk := CLOCK_MAX, irq_delay_cycles := 0\<rparr>;
          t \<leftarrow> int_clk_now opinfo cs3 cpu_clk;
          Some (cs3\<lparr>irq_clk := t\<rparr>)
        }
      } else do {
        p \<leftarrow> arr_get (pending_int cs) (int int_num);
        if truth (p AND IK_IRQ) then
          if 0 < nirq cs then do {
            cs1 \<leftarrow> clear_pending cs (int int_num) IK_IRQ;
            let cs2 = cs1\<lparr>nirq := nirq cs1 - 1\<rparr>;
            Some (if nirq cs2 = 0
                  then cs2\<lparr>global_pending_int := global_pending_int cs2 AND NOT IK_IRQ,
                           irq_pending_clk := cpu_clk + 3\<rparr>
                  else cs2)
          } else Some cs
        else Some cs
      })"

definition interrupt_set_nmi ::
  "u32 \<Rightarrow> interrupt_cpu_status \<Rightarrow> nat \<Rightarrow> int \<Rightarrow> clock \<Rightarrow> interrupt_cpu_status option" where
  "interrupt_set_nmi opinfo cs int_num value cpu_clk =
     (if num_ints cs \<le> int_num then Some cs
      else if value \<noteq> 0 then do {
        p \<leftarrow> arr_get (pending_int cs) (int int_num);
        if truth (p AND IK_NMI) then Some cs
        else do {
          cs1 \<leftarrow> (if nnmi cs = 0 \<and> \<not> truth (global_pending_int cs AND IK_NMI) then do {
                let cs0 = cs\<lparr>global_pending_int := global_pending_int cs OR IK_NMI,
                             nmi_delay_cycles := 0\<rparr>;
                t \<leftarrow> int_clk_now opinfo cs0 cpu_clk;
                Some (cs0\<lparr>nmi_clk := t\<rparr>)
              } else Some cs);
          or_pending (cs1\<lparr>nnmi := nnmi cs1 + 1\<rparr>) (int int_num) IK_NMI
        }
      } else do {
        p \<leftarrow> arr_get (pending_int cs) (int int_num);
        if truth (p AND IK_NMI) then
          if 0 < nnmi cs then clear_pending (cs\<lparr>nnmi := nnmi cs - 1\<rparr>) (int int_num) IK_NMI
          else Some cs
        else Some cs
      })"

text \<open>\<open>(unsigned int)int_num\<close> reads a negative number modulo 2^32.\<close>

definition interrupt_set_int ::
  "u32 \<Rightarrow> interrupt_cpu_status \<Rightarrow> int \<Rightarrow> u32 \<Rightarrow> clock \<Rightarrow> interrupt_cpu_status option" where
  "interrupt_set_int opinfo cs int_num value cpu_clk = do {
     let n = nat (int_num mod 2 ^ 32);
     cs1 \<leftarrow> interrupt_set_nmi opinfo cs n (sint (value AND IK_NMI)) cpu_clk;
     interrupt_set_irq opinfo cs1 n (sint (value AND IK_IRQ)) cpu_clk
   }"

definition interrupt_ack_nmi :: "interrupt_cpu_status \<Rightarrow> interrupt_cpu_status \<times> nat option" where
  "interrupt_ack_nmi cs =
     (cs\<lparr>global_pending_int := global_pending_int cs AND NOT IK_NMI\<rparr>, nmi_trap_func cs)"

definition interrupt_ack_irq :: "interrupt_cpu_status \<Rightarrow> interrupt_cpu_status" where
  "interrupt_ack_irq cs = cs\<lparr>global_pending_int := global_pending_int cs AND NOT IK_IRQPEND,
                            irq_pending_clk := CLOCK_MAX\<rparr>"

section \<open>Delay checks of maincpu.c\<close>

definition interrupt_check_nmi_delay :: "u32 \<Rightarrow> interrupt_cpu_status \<Rightarrow> clock \<Rightarrow> bool" where
  "interrupt_check_nmi_delay opinfo cs cpu_clk =
     (let t = nmi_clk cs + INTERRUPT_DELAY
      in if OPINFO_NUMBER opinfo = 0 then False
         else let t' = (if truth (OPINFO_DELAYS_INTERRUPT opinfo) then t + 1 else t)
              in t' \<le> cpu_clk)"

definition interrupt_check_irq_delay ::
  "u32 \<Rightarrow> interrupt_cpu_status \<Rightarrow> clock \<Rightarrow> bool \<times> interrupt_cpu_status" where
  "interrupt_check_irq_delay opinfo cs cpu_clk =
     (let t = irq_clk cs + INTERRUPT_DELAY;
          t' = (if truth (OPINFO_DELAYS_INTERRUPT opinfo) then t + 1 else t)
      in if t' \<le> cpu_clk then
           if \<not> truth (OPINFO_ENABLES_IRQ opinfo) then (True, cs)
           else (False, cs\<lparr>global_pending_int := global_pending_int cs OR IK_IRQPEND\<rparr>)
         else (False, cs))"

section \<open>Cycle stealing of dma.c\<close>

text \<open>
  A request on the cycle before the CPU checks for it, intercepted by the first DMA of the opcode,
  loses one cycle.
\<close>

definition dma_sub :: "u32 \<Rightarrow> clock \<Rightarrow> clock \<Rightarrow> clock \<Rightarrow> clock \<Rightarrow> nat \<Rightarrow> clock" where
  "dma_sub opinfo c start_clk dma_start maincpu_clk num_dma =
     (let cycles_left_to_trigger_irq = (if truth (OPINFO_DELAYS_INTERRUPT opinfo) then 2 else 1)
      in if c \<ge> start_clk \<and> dma_start = maincpu_clk - cycles_left_to_trigger_irq \<and> num_dma = 1
         then 1 else 0)"

definition stolen_clk :: "clock \<Rightarrow> clock \<Rightarrow> clock \<Rightarrow> clock \<Rightarrow> clock" where
  "stolen_clk c dma_start last_clk num = (if c > dma_start then last_clk else c + num)"

definition dma_maincpu_steal_cycles ::
  "u32 \<Rightarrow> clock \<Rightarrow> interrupt_cpu_status \<Rightarrow> clock \<Rightarrow> int \<Rightarrow> clock \<Rightarrow> (clock \<times> interrupt_cpu_status) option" where
  "dma_maincpu_steal_cycles opinfo maincpu_clk cs start_clk num sub =
     (if num = 0 then Some (maincpu_clk, cs)
      else do {
        let dma_start = start_clk + sub;
        let stolen = (if start_clk = last_stolen_cycles_clk cs then num_last_stolen_cycles cs + num
                      else num);
        lft \<leftarrow> arr_set (num_cycles_left cs) (int (num_dma_per_opcode cs)) (maincpu_clk - dma_start);
        starts \<leftarrow> arr_set (dma_start_clk cs) (int (num_dma_per_opcode cs)) dma_start;
        let n = num_dma_per_opcode cs + 1;
        let irq_sub = dma_sub opinfo (irq_clk cs) start_clk dma_start maincpu_clk n;
        let nmi_sub = dma_sub opinfo (nmi_clk cs) start_clk dma_start maincpu_clk n;
        let last_clk = dma_start + word_of_int num;
        Some (maincpu_clk + word_of_int num,
              cs\<lparr>num_last_stolen_cycles := stolen, num_cycles_left := lft, dma_start_clk := starts,
                 num_dma_per_opcode := n, last_stolen_cycles_clk := last_clk,
                 irq_clk := stolen_clk (irq_clk cs) dma_start last_clk (word_of_int num) - irq_sub,
                 nmi_clk := stolen_clk (nmi_clk cs) dma_start last_clk (word_of_int num) - nmi_sub\<rparr>)
      })"

section \<open>The invariant\<close>

lemma ik_bits [simp]:
  "truth (w AND IK_IRQ) \<longleftrightarrow> bit w 1" "w AND IK_IRQ = 0 \<longleftrightarrow> \<not> bit w 1"
  "truth (w AND IK_NMI) \<longleftrightarrow> bit w 0" "w AND IK_NMI = 0 \<longleftrightarrow> \<not> bit w 0"
  "w AND IK_RESET = 0 \<longleftrightarrow> \<not> bit w 2" "w AND IK_TRAP = 0 \<longleftrightarrow> \<not> bit w 3"
  "w AND IK_MONITOR = 0 \<longleftrightarrow> \<not> bit w 4" "w AND IK_DMA = 0 \<longleftrightarrow> \<not> bit w 5"
  "w AND IK_IRQPEND = 0 \<longleftrightarrow> \<not> bit w 6"
  by (simp_all only: IK_IRQ_def IK_NMI_def IK_RESET_def IK_TRAP_def IK_MONITOR_def IK_DMA_def
      IK_IRQPEND_def bit_iff_and_push_bit_not_eq_0 [of w] not_not)

lemma bit_ik [simp]:
  "bit IK_NMI n \<longleftrightarrow> n = 0" "bit IK_IRQ n \<longleftrightarrow> n = 1" "bit IK_RESET n \<longleftrightarrow> n = 2"
  "bit IK_TRAP n \<longleftrightarrow> n = 3" "bit IK_MONITOR n \<longleftrightarrow> n = 4" "bit IK_DMA n \<longleftrightarrow> n = 5"
  "bit IK_IRQPEND n \<longleftrightarrow> n = 6" "\<not> bit IK_NONE n"
  unfolding IK_NONE_def IK_IRQ_def IK_NMI_def IK_RESET_def IK_TRAP_def IK_MONITOR_def
    IK_DMA_def IK_IRQPEND_def bit_push_bit_iff bit_1_iff by auto

text \<open>The sources that hold a line down.\<close>

definition irq_src :: "interrupt_cpu_status \<Rightarrow> nat \<Rightarrow> bool" where
  "irq_src cs i \<longleftrightarrow> i < num_ints cs \<and> bit (pending_int cs ! i) 1"

definition nmi_src :: "interrupt_cpu_status \<Rightarrow> nat \<Rightarrow> bool" where
  "nmi_src cs i \<longleftrightarrow> i < num_ints cs \<and> bit (pending_int cs ! i) 0"

definition count_src :: "nat \<Rightarrow> u32 list \<Rightarrow> int" where
  "count_src k ps = int (length (filter (\<lambda>p. bit p k) ps))"

definition dma_ok :: "interrupt_cpu_status \<Rightarrow> bool" where
  "dma_ok cs \<longleftrightarrow> length (num_cycles_left cs) = INTRRUPT_MAX_DMA_PER_OPCODE \<and>
     length (dma_start_clk cs) = INTRRUPT_MAX_DMA_PER_OPCODE \<and>
     num_dma_per_opcode cs \<le> INTRRUPT_MAX_DMA_PER_OPCODE"

definition int_inv :: "interrupt_cpu_status \<Rightarrow> bool" where
  "int_inv cs \<longleftrightarrow> length (pending_int cs) = num_ints cs \<and> length (int_name cs) = num_ints cs \<and>
     nirq cs = count_src 1 (pending_int cs) \<and> nnmi cs = count_src 0 (pending_int cs) \<and>
     (bit (global_pending_int cs) 1 \<longleftrightarrow> 0 < nirq cs) \<and>
     (0 < nirq cs \<longrightarrow> irq_pending_clk cs = CLOCK_MAX) \<and> dma_ok cs"

lemma count_src_simps [simp]:
  "count_src k [] = 0" "count_src k (ps @ [p]) = count_src k ps + of_bool (bit p k)"
  "count_src k (replicate n 0) = 0" "0 \<le> count_src k ps"
  by (auto simp: count_src_def)

lemma count_src_update [simp]:
  "i < length ps \<Longrightarrow> count_src k (ps[i := p]) = count_src k ps - of_bool (bit (ps ! i) k) + of_bool (bit p k)"
proof (induction ps arbitrary: i)
  case (Cons q ps)
  then show ?case by (cases i) (auto simp: count_src_def)
qed simp

lemma count_src_pos_iff: "0 < count_src k ps \<longleftrightarrow> (\<exists>i < length ps. bit (ps ! i) k)"
  unfolding count_src_def by (auto simp: filter_empty_conv Bex_def in_set_conv_nth)

lemma fixup_loop_defined:
  "n \<le> length (num_cycles_left cs) \<Longrightarrow> n \<le> length (dma_start_clk cs) \<Longrightarrow>
   \<exists>r. fixup_loop cs clk n l ll ls = Some r"
  by (induction n arbitrary: l ll ls) simp_all

lemma int_clk_now_defined:
  assumes ok: "dma_ok cs"
  obtains t where "int_clk_now op cs clk = Some t"
proof -
  from ok obtain l ll ls where r: "fixup_loop cs clk (num_dma_per_opcode cs) 0 0 CLOCK_MAX = Some (l, ll, ls)"
    using fixup_loop_defined [of "num_dma_per_opcode cs" cs clk 0 0 CLOCK_MAX] by (auto simp: dma_ok_def)
  from ok have "0 < num_dma_per_opcode cs \<Longrightarrow> \<exists>x. arr_get (dma_start_clk cs) 0 = Some x"
    by (auto simp: dma_ok_def arr_get_def)
  with r have "\<exists>t. int_clk_now op cs clk = Some t"
    by (cases "0 < num_dma_per_opcode cs")
      (auto simp: int_clk_now_def interrupt_fixup_int_clk_def Let_def)
  then show ?thesis using that by blast
qed

lemma int_clk_now_cong:
  "num_cycles_left cs' = num_cycles_left cs \<Longrightarrow> dma_start_clk cs' = dma_start_clk cs \<Longrightarrow>
   num_dma_per_opcode cs' = num_dma_per_opcode cs \<Longrightarrow>
   last_stolen_cycles_clk cs' = last_stolen_cycles_clk cs \<Longrightarrow>
   int_clk_now op cs' clk = int_clk_now op cs clk"
proof -
  assume a: "num_cycles_left cs' = num_cycles_left cs" "dma_start_clk cs' = dma_start_clk cs"
    "num_dma_per_opcode cs' = num_dma_per_opcode cs"
    "last_stolen_cycles_clk cs' = last_stolen_cycles_clk cs"
  have "fixup_loop cs' clk n l ll ls = fixup_loop cs clk n l ll ls" for n l ll ls
    by (induction n arbitrary: l ll ls) (simp_all add: a cong: if_cong)
  then show ?thesis
    unfolding int_clk_now_def interrupt_fixup_int_clk_def a by (simp add: a cong: if_cong)
qed

subsection \<open>Effect of the line operations\<close>

text \<open>Each branch of \<open>interrupt_set_irq\<close>: out of range or no change, raise, release.\<close>

lemma set_irq_same:
  "length (pending_int cs) = num_ints cs \<Longrightarrow> num_ints cs \<le> i \<or> irq_src cs i = (v \<noteq> 0) \<Longrightarrow>
   interrupt_set_irq op cs i v clk = Some cs"
  by (auto simp: interrupt_set_irq_def irq_src_def)

lemma set_irq_raise:
  assumes "length (pending_int cs) = num_ints cs" "i < num_ints cs" "\<not> irq_src cs i" "v \<noteq> 0"
    and "int_clk_now op cs clk = Some t"
  shows "interrupt_set_irq op cs i v clk =
    Some (cs\<lparr>nirq := nirq cs + 1,
             global_pending_int := global_pending_int cs OR (IK_IRQ OR IK_IRQPEND),
             pending_int := (pending_int cs)[i := pending_int cs ! i OR IK_IRQ],
             irq_pending_clk := CLOCK_MAX, irq_delay_cycles := 0, irq_clk := t\<rparr>)"
proof -
  let ?cs = "cs\<lparr>nirq := nirq cs + 1,
             global_pending_int := global_pending_int cs OR (IK_IRQ OR IK_IRQPEND),
             pending_int := (pending_int cs)[i := pending_int cs ! i OR IK_IRQ],
             irq_pending_clk := CLOCK_MAX, irq_delay_cycles := 0\<rparr>"
  have "int_clk_now op ?cs clk = Some t" using assms(5) int_clk_now_cong [of ?cs cs op clk] by simp
  then show ?thesis using assms
    by (simp add: interrupt_set_irq_def irq_src_def or_pending_def Let_def)
qed

lemma set_irq_release:
  assumes "length (pending_int cs) = num_ints cs" "irq_src cs i" "0 < nirq cs"
  shows "interrupt_set_irq op cs i 0 clk =
    Some (let cs1 = cs\<lparr>pending_int := (pending_int cs)[i := pending_int cs ! i AND NOT IK_IRQ],
                       nirq := nirq cs - 1\<rparr>
          in if nirq cs = 1
             then cs1\<lparr>global_pending_int := global_pending_int cs AND NOT IK_IRQ,
                      irq_pending_clk := clk + 3\<rparr>
             else cs1)"
  using assms by (simp add: interrupt_set_irq_def irq_src_def clear_pending_def Let_def)

lemma bit_update:
  "i < length ps \<Longrightarrow> bit (ps[i := p] ! j) k \<longleftrightarrow> (if j = i then bit p k else bit (ps ! j) k)"
  by (simp add: nth_list_update)

lemma interrupt_set_irq_ok:
  assumes "int_inv cs"
  shows "\<exists>cs'. interrupt_set_irq op cs i v clk = Some cs' \<and> int_inv cs' \<and>
    num_ints cs' = num_ints cs \<and> nmi_src cs' = nmi_src cs \<and>
    irq_src cs' = (if i < num_ints cs then (irq_src cs)(i := v \<noteq> 0) else irq_src cs)"
proof -
  have len: "length (pending_int cs) = num_ints cs" using assms by (simp add: int_inv_def)
  consider (same) "num_ints cs \<le> i \<or> irq_src cs i = (v \<noteq> 0)"
    | (raise) "i < num_ints cs" "\<not> irq_src cs i" "v \<noteq> 0"
    | (release) "i < num_ints cs" "irq_src cs i" "v = 0" by force
  then show ?thesis
  proof cases
    case same
    then show ?thesis using set_irq_same [OF len same] assms by (auto simp: fun_eq_iff)
  next
    case raise
    obtain t where t: "int_clk_now op cs clk = Some t"
      using assms int_clk_now_defined [of cs op clk] by (auto simp: int_inv_def)
    show ?thesis unfolding set_irq_raise [OF len raise t] using assms raise
      by (auto simp: int_inv_def irq_src_def nmi_src_def fun_eq_iff bit_update bit_or_iff dma_ok_def)
  next
    case release
    have pos: "0 < nirq cs" using assms release(2) count_src_pos_iff [of 1 "pending_int cs"]
      by (auto simp: int_inv_def irq_src_def)
    show ?thesis unfolding release(3) set_irq_release [OF len release(2) pos] using assms release pos
      by (auto simp: int_inv_def irq_src_def nmi_src_def fun_eq_iff bit_update bit_and_iff
          bit_not_iff dma_ok_def Let_def)
  qed
qed

text \<open>The same for \<open>interrupt_set_nmi\<close>.\<close>

lemma set_nmi_same:
  "length (pending_int cs) = num_ints cs \<Longrightarrow> num_ints cs \<le> i \<or> nmi_src cs i = (v \<noteq> 0) \<Longrightarrow>
   interrupt_set_nmi op cs i v clk = Some cs"
  by (auto simp: interrupt_set_nmi_def nmi_src_def)

lemma set_nmi_edge:
  assumes "length (pending_int cs) = num_ints cs" "i < num_ints cs" "\<not> nmi_src cs i" "v \<noteq> 0"
    and "nnmi cs = 0" "\<not> bit (global_pending_int cs) 0" "int_clk_now op cs clk = Some t"
  shows "interrupt_set_nmi op cs i v clk =
    Some (cs\<lparr>global_pending_int := global_pending_int cs OR IK_NMI, nmi_delay_cycles := 0,
             nmi_clk := t, nnmi := 1,
             pending_int := (pending_int cs)[i := pending_int cs ! i OR IK_NMI]\<rparr>)"
proof -
  let ?cs = "cs\<lparr>global_pending_int := global_pending_int cs OR IK_NMI, nmi_delay_cycles := 0\<rparr>"
  have "int_clk_now op ?cs clk = Some t" using assms(7) int_clk_now_cong [of ?cs cs op clk] by simp
  then show ?thesis using assms
    by (simp add: interrupt_set_nmi_def nmi_src_def or_pending_def Let_def)
qed

lemma set_nmi_held:
  assumes "length (pending_int cs) = num_ints cs" "i < num_ints cs" "\<not> nmi_src cs i" "v \<noteq> 0"
    and "nnmi cs \<noteq> 0 \<or> bit (global_pending_int cs) 0"
  shows "interrupt_set_nmi op cs i v clk =
    Some (cs\<lparr>nnmi := nnmi cs + 1,
             pending_int := (pending_int cs)[i := pending_int cs ! i OR IK_NMI]\<rparr>)"
  using assms by (auto simp: interrupt_set_nmi_def nmi_src_def or_pending_def Let_def)

lemma set_nmi_release:
  assumes "length (pending_int cs) = num_ints cs" "nmi_src cs i" "0 < nnmi cs"
  shows "interrupt_set_nmi op cs i 0 clk =
    Some (cs\<lparr>nnmi := nnmi cs - 1,
             pending_int := (pending_int cs)[i := pending_int cs ! i AND NOT IK_NMI]\<rparr>)"
  using assms by (simp add: interrupt_set_nmi_def nmi_src_def clear_pending_def Let_def)

lemma interrupt_set_nmi_ok:
  assumes "int_inv cs"
  shows "\<exists>cs'. interrupt_set_nmi op cs i v clk = Some cs' \<and> int_inv cs' \<and>
    num_ints cs' = num_ints cs \<and> irq_src cs' = irq_src cs \<and>
    nmi_src cs' = (if i < num_ints cs then (nmi_src cs)(i := v \<noteq> 0) else nmi_src cs)"
proof -
  have len: "length (pending_int cs) = num_ints cs" using assms by (simp add: int_inv_def)
  obtain t where t: "int_clk_now op cs clk = Some t"
    using assms int_clk_now_defined [of cs op clk] by (auto simp: int_inv_def)
  consider (same) "num_ints cs \<le> i \<or> nmi_src cs i = (v \<noteq> 0)"
    | (edge) "i < num_ints cs" "\<not> nmi_src cs i" "v \<noteq> 0" "nnmi cs = 0" "\<not> bit (global_pending_int cs) 0"
    | (held) "i < num_ints cs" "\<not> nmi_src cs i" "v \<noteq> 0" "nnmi cs \<noteq> 0 \<or> bit (global_pending_int cs) 0"
    | (release) "i < num_ints cs" "nmi_src cs i" "v = 0" by force
  then show ?thesis
  proof cases
    case same
    then show ?thesis using set_nmi_same [OF len same] assms by (auto simp: fun_eq_iff)
  next
    case edge
    show ?thesis unfolding set_nmi_edge [OF len edge t] using assms edge
      by (auto simp: int_inv_def irq_src_def nmi_src_def fun_eq_iff bit_update bit_or_iff dma_ok_def)
  next
    case held
    show ?thesis unfolding set_nmi_held [OF len held] using assms held
      by (auto simp: int_inv_def irq_src_def nmi_src_def fun_eq_iff bit_update bit_or_iff dma_ok_def)
  next
    case release
    have pos: "0 < nnmi cs" using assms release(2) count_src_pos_iff [of 0 "pending_int cs"]
      by (auto simp: int_inv_def nmi_src_def)
    show ?thesis unfolding release(3) set_nmi_release [OF len release(2) pos] using assms release pos
      by (auto simp: int_inv_def irq_src_def nmi_src_def fun_eq_iff bit_update bit_and_iff
          bit_not_iff dma_ok_def)
  qed
qed

section \<open>Reachable states\<close>

text \<open>
  The states a CPU's interrupt status can reach: the status is allocated, initialised and reset,
  chips register sources and drive the lines, the CPU acknowledges, cycles are stolen and the clock
  is warped. The snapshot functions \<open>interrupt_restore_irq\<close> and \<open>interrupt_restore_nmi\<close>, which
  leave the counters to the CPU's own module, are not among these calls.
\<close>

inductive int_reach :: "interrupt_cpu_status \<Rightarrow> bool" where
  "int_reach interrupt_cpu_status_new"
| "int_reach cs \<Longrightarrow> nirq cs = 0 \<Longrightarrow> nnmi cs = 0 \<Longrightarrow> int_reach (interrupt_cpu_status_init cs)"
| "int_reach cs \<Longrightarrow> int_reach (interrupt_cpu_status_reset cs)"
| "int_reach cs \<Longrightarrow> int_reach (fst (interrupt_cpu_status_int_new cs name))"
| "int_reach cs \<Longrightarrow> int_reach (interrupt_set_nmi_trap_func cs f)"
| "int_reach cs \<Longrightarrow> int_reach (interrupt_set_reset_trap_func cs f)"
| "int_reach cs \<Longrightarrow> int_reach (interrupt_cpu_status_time_warp cs amount warp_direction)"
| "int_reach cs \<Longrightarrow> int_reach (interrupt_trigger_dma cs)"
| "int_reach cs \<Longrightarrow> int_reach (interrupt_ack_dma cs)"
| "int_reach cs \<Longrightarrow> int_reach (interrupt_trigger_reset cs)"
| "int_reach cs \<Longrightarrow> int_reach (fst (interrupt_ack_reset cs))"
| "int_reach cs \<Longrightarrow> int_reach (interrupt_maincpu_trigger_trap cs f d)"
| "int_reach cs \<Longrightarrow> interrupt_do_trap cs a = Some (cs', r) \<Longrightarrow> int_reach cs'"
| "int_reach cs \<Longrightarrow> int_reach (interrupt_monitor_trap_on cs)"
| "int_reach cs \<Longrightarrow> int_reach (interrupt_monitor_trap_off cs)"
| "int_reach cs \<Longrightarrow> interrupt_set_irq op cs i v clk = Some cs' \<Longrightarrow> int_reach cs'"
| "int_reach cs \<Longrightarrow> interrupt_set_nmi op cs i v clk = Some cs' \<Longrightarrow> int_reach cs'"
| "int_reach cs \<Longrightarrow> interrupt_set_int op cs j k clk = Some cs' \<Longrightarrow> int_reach cs'"
| "int_reach cs \<Longrightarrow> int_reach (fst (interrupt_ack_nmi cs))"
| "int_reach cs \<Longrightarrow> int_reach (interrupt_ack_irq cs)"
| "int_reach cs \<Longrightarrow> int_reach (snd (interrupt_check_irq_delay op cs clk))"
| "int_reach cs \<Longrightarrow> dma_maincpu_steal_cycles op clk cs start num sub = Some (clk', cs') \<Longrightarrow> int_reach cs'"
| "int_reach cs \<Longrightarrow> int_reach (cs\<lparr>num_dma_per_opcode := 0\<rparr>)"

lemma int_inv_global [simp]:
  "bit w 1 = bit (global_pending_int cs) 1 \<Longrightarrow> int_inv (cs\<lparr>global_pending_int := w\<rparr>) \<longleftrightarrow> int_inv cs"
  by (auto simp: int_inv_def dma_ok_def)

lemma int_inv_frame [simp]:
  "int_inv (cs\<lparr>nmi_trap_func := f\<rparr>) \<longleftrightarrow> int_inv cs"
  "int_inv (cs\<lparr>reset_trap_func := f\<rparr>) \<longleftrightarrow> int_inv cs"
  "int_inv (cs\<lparr>global_pending_int := w, trap_func := f, trap_data := d\<rparr>) \<longleftrightarrow>
   int_inv (cs\<lparr>global_pending_int := w\<rparr>)"
  by (auto simp: int_inv_def dma_ok_def)

lemma int_inv_new: "int_inv interrupt_cpu_status_new"
  by (simp add: interrupt_cpu_status_new_def zeroed_status_def int_inv_def dma_ok_def)

lemma int_inv_init: "int_inv cs \<Longrightarrow> nirq cs = 0 \<Longrightarrow> nnmi cs = 0 \<Longrightarrow> int_inv (interrupt_cpu_status_init cs)"
  by (simp add: interrupt_cpu_status_init_def int_inv_def dma_ok_def)

lemma int_inv_reset: "int_inv cs \<Longrightarrow> int_inv (interrupt_cpu_status_reset cs)"
  by (auto simp: interrupt_cpu_status_reset_def zeroed_status_def int_inv_def dma_ok_def Let_def)

lemma int_inv_int_new: "int_inv cs \<Longrightarrow> int_inv (fst (interrupt_cpu_status_int_new cs name))"
  by (simp add: interrupt_cpu_status_int_new_def int_inv_def dma_ok_def Let_def)

lemma int_inv_warp: "int_inv cs \<Longrightarrow> int_inv (interrupt_cpu_status_time_warp cs amount dir)"
  by (simp add: interrupt_cpu_status_time_warp_def int_inv_def dma_ok_def)

lemma int_inv_steal:
  "int_inv cs \<Longrightarrow> dma_maincpu_steal_cycles op clk cs start num sub = Some (clk', cs') \<Longrightarrow> int_inv cs'"
  by (auto simp: dma_maincpu_steal_cycles_def int_inv_def dma_ok_def arr_set_Some_iff
      bind_eq_Some_conv Let_def split: if_split_asm)

lemma int_inv_set_int: "int_inv cs \<Longrightarrow> \<exists>cs'. interrupt_set_int op cs j k clk = Some cs' \<and> int_inv cs'"
proof -
  assume inv: "int_inv cs"
  let ?n = "nat (j mod 2 ^ 32)"
  obtain cs1 where 1: "interrupt_set_nmi op cs ?n (sint (k AND IK_NMI)) clk = Some cs1" "int_inv cs1"
    using interrupt_set_nmi_ok [OF inv] by blast
  obtain cs2 where "interrupt_set_irq op cs1 ?n (sint (k AND IK_IRQ)) clk = Some cs2" "int_inv cs2"
    using interrupt_set_irq_ok [OF 1(2)] by blast
  with 1 show ?thesis by (simp add: interrupt_set_int_def Let_def)
qed

lemma int_reach_inv: "int_reach cs \<Longrightarrow> int_inv cs"
proof (induction rule: int_reach.induct)
  case (16 cs op i v clk cs')
  then show ?case using interrupt_set_irq_ok [of cs op i v clk] by auto
next
  case (17 cs op i v clk cs')
  then show ?case using interrupt_set_nmi_ok [of cs op i v clk] by auto
next
  case (18 cs op j k clk cs')
  then show ?case using int_inv_set_int [of cs op j k clk] by auto
next
  case (20 cs)
  then show ?case
    by (auto simp: interrupt_ack_irq_def int_inv_def dma_ok_def bit_and_iff bit_not_iff)
next
  case (22 cs op clk start num sub clk' cs')
  then show ?case using int_inv_steal by blast
next
  case (23 cs)
  then show ?case by (simp add: int_inv_def dma_ok_def)
qed (auto simp: int_inv_new int_inv_init int_inv_reset int_inv_int_new int_inv_warp
    interrupt_set_nmi_trap_func_def interrupt_set_reset_trap_func_def interrupt_trigger_dma_def
    interrupt_ack_dma_def interrupt_trigger_reset_def interrupt_ack_reset_def
    interrupt_maincpu_trigger_trap_def interrupt_do_trap_def interrupt_monitor_trap_on_def
    interrupt_monitor_trap_off_def interrupt_ack_nmi_def interrupt_check_irq_delay_def Let_def
    bind_eq_Some_conv bit_or_iff bit_and_iff bit_not_iff)

section \<open>The interface of a line\<close>

text \<open>A sequence of calls (source, level, clock), the first failing call failing the sequence.\<close>

fun drive :: "('s \<Rightarrow> nat \<Rightarrow> int \<Rightarrow> clock \<Rightarrow> 's option) \<Rightarrow> (nat \<times> int \<times> clock) list \<Rightarrow> 's \<Rightarrow> 's option" where
  "drive set_line [] s = Some s"
| "drive set_line ((i, v, clk) # calls) s = do { s' \<leftarrow> set_line s i v clk; drive set_line calls s' }"

text \<open>The level source \<open>i\<close> last asked for, starting from \<open>init\<close>.\<close>

fun last_level :: "nat \<Rightarrow> (nat \<times> int \<times> clock) list \<Rightarrow> bool \<Rightarrow> bool" where
  "last_level i [] init = init"
| "last_level i ((j, v, clk) # calls) init = last_level i calls (if j = i then v \<noteq> 0 else init)"

text \<open>
  What the chips on a line rely on: driving their source always succeeds and changes the level of
  that source only, and the line is asserted while some source holds it.
\<close>

locale int_line =
  fixes inv :: "'s \<Rightarrow> bool" and nsrc :: "'s \<Rightarrow> nat" and src :: "'s \<Rightarrow> nat \<Rightarrow> bool"
    and line :: "'s \<Rightarrow> bool" and set_line :: "'s \<Rightarrow> nat \<Rightarrow> int \<Rightarrow> clock \<Rightarrow> 's option"
  assumes set_ok: "inv s \<Longrightarrow> \<exists>s'. set_line s i v clk = Some s' \<and> inv s' \<and> nsrc s' = nsrc s \<and>
      src s' = (if i < nsrc s then (src s)(i := v \<noteq> 0) else src s)"
    and line_or: "inv s \<Longrightarrow> line s \<longleftrightarrow> (\<exists>i < nsrc s. src s i)"
begin

lemma drive_ok:
  "inv s \<Longrightarrow> \<exists>s'. drive set_line calls s = Some s' \<and> inv s' \<and> nsrc s' = nsrc s \<and>
     (\<forall>i < nsrc s. src s' i = last_level i calls (src s i))"
proof (induction calls arbitrary: s)
  case (Cons c calls)
  obtain j v clk where c: "c = (j, v, clk)" by (cases c)
  obtain s1 where s1: "set_line s j v clk = Some s1" "inv s1" "nsrc s1 = nsrc s"
    "src s1 = (if j < nsrc s then (src s)(j := v \<noteq> 0) else src s)"
    using set_ok [OF Cons.prems] by blast
  obtain s2 where s2: "drive set_line calls s1 = Some s2" "inv s2" "nsrc s2 = nsrc s1"
    "\<forall>i < nsrc s1. src s2 i = last_level i calls (src s1 i)"
    using Cons.IH [OF s1(2)] by blast
  show ?case using s1 s2 by (auto simp: c)
qed simp

lemma drive_line:
  assumes "inv s"
  shows "\<exists>s'. drive set_line calls s = Some s' \<and>
    (line s' \<longleftrightarrow> (\<exists>i < nsrc s. last_level i calls (src s i)))"
proof -
  obtain s' where s': "drive set_line calls s = Some s'" "inv s'" "nsrc s' = nsrc s"
    "\<forall>i < nsrc s. src s' i = last_level i calls (src s i)"
    using drive_ok [OF assms] by blast
  then show ?thesis using line_or [OF s'(2)] by auto
qed

end

lemma irq_line_or: "int_inv cs \<Longrightarrow> bit (global_pending_int cs) 1 \<longleftrightarrow> (\<exists>i < num_ints cs. irq_src cs i)"
  using count_src_pos_iff [of 1 "pending_int cs"] by (auto simp: int_inv_def irq_src_def)

lemma nmi_line_or: "int_inv cs \<Longrightarrow> 0 < nnmi cs \<longleftrightarrow> (\<exists>i < num_ints cs. nmi_src cs i)"
  using count_src_pos_iff [of 0 "pending_int cs"] by (auto simp: int_inv_def nmi_src_def)

interpretation irq: int_line int_inv num_ints irq_src "\<lambda>cs. bit (global_pending_int cs) 1"
  "interrupt_set_irq op" for op
  by unfold_locales (use interrupt_set_irq_ok irq_line_or in blast)+

interpretation nmi: int_line int_inv num_ints nmi_src "\<lambda>cs. 0 < nnmi cs" "interrupt_set_nmi op" for op
  by unfold_locales (use interrupt_set_nmi_ok nmi_line_or in blast)+

section \<open>Properties\<close>

text \<open>
  C15 (irq_wired_or): on every reachable interrupt status, any sequence of interrupt_set_irq calls is
  defined, and afterwards the CPU sees its IRQ line asserted (the IK_IRQ bit of
  global_pending_int) exactly when some registered source was last told to hold it: the line is the
  wired-or of its sources, whatever the order, repetitions or out-of-range numbers of the calls.
\<close>
theorem irq_wired_or:
  assumes "int_reach cs"
  shows "\<exists>cs'. drive (interrupt_set_irq opinfo) calls cs = Some cs' \<and>
    (bit (global_pending_int cs') 1 \<longleftrightarrow>
      (\<exists>i < num_ints cs. last_level i calls (irq_src cs i)))"
  using int_reach_inv [OF assms] by (rule irq.drive_line)


text \<open>
  C25 (nmi_edge_triggered): the NMI is edge triggered. A call of interrupt_set_nmi for a registered
  source latches a new NMI exactly when it raises the source while no source holds the line; an NMI
  already latched stays latched with its clock unchanged, whatever the sources do.
\<close>
theorem nmi_edge_triggered:
  assumes "int_reach cs" and "i < num_ints cs" and "interrupt_set_nmi opinfo cs i v clk = Some cs'"
  shows "(bit (global_pending_int cs') 0 \<longleftrightarrow>
      bit (global_pending_int cs) 0 \<or> (v \<noteq> 0 \<and> (\<forall>j. \<not> nmi_src cs j))) \<and>
    (bit (global_pending_int cs) 0 \<longrightarrow> nmi_clk cs' = nmi_clk cs)"
proof -
  have inv: "int_inv cs" by (rule int_reach_inv [OF assms(1)])
  have len: "length (pending_int cs) = num_ints cs" using inv by (simp add: int_inv_def)
  have held: "nnmi cs \<noteq> 0 \<longleftrightarrow> (\<exists>j. nmi_src cs j)"
    using nmi_line_or [OF inv] inv by (auto simp: int_inv_def nmi_src_def less_le)
  obtain t where t: "int_clk_now opinfo cs clk = Some t"
    using inv int_clk_now_defined [of cs opinfo clk] by (auto simp: int_inv_def)
  consider (same) "nmi_src cs i = (v \<noteq> 0)"
    | (edge) "\<not> nmi_src cs i" "v \<noteq> 0" "nnmi cs = 0" "\<not> bit (global_pending_int cs) 0"
    | (kept) "\<not> nmi_src cs i" "v \<noteq> 0" "nnmi cs \<noteq> 0 \<or> bit (global_pending_int cs) 0"
    | (release) "nmi_src cs i" "v = 0" by force
  then show ?thesis
  proof cases
    case same
    then have "cs' = cs" using assms(3) set_nmi_same [OF len, of i v opinfo clk] by simp
    with same show ?thesis by auto
  next
    case edge
    show ?thesis using assms(3) set_nmi_edge [OF len assms(2) edge t] edge held
      by (auto simp: bit_or_iff)
  next
    case kept
    show ?thesis using assms(3) set_nmi_held [OF len assms(2) kept, of opinfo clk] kept held by auto
  next
    case release
    have "0 < nnmi cs" using nmi_line_or [OF inv] release(1) assms(2) by auto
    then show ?thesis using assms(3) set_nmi_release [OF len release(1), of opinfo clk] release
      by auto
  qed
qed

text \<open>
  C5 (irq_served_after_delay): when a source raises the IRQ line at a cycle that is not stolen, the CPU
  may serve it exactly from INTERRUPT_DELAY cycles later (one more after a branch that delays
  interrupts), and not after an opcode that has just enabled IRQs, which instead leaves the request
  marked pending.
\<close>
theorem irq_served_after_delay:
  assumes "int_reach cs" and "i < num_ints cs" and "\<not> irq_src cs i" and "v \<noteq> 0"
    and "last_stolen_cycles_clk cs \<le> clk" and "unat clk + 3 < 2 ^ 32"
    and "interrupt_set_irq opinfo cs i v clk = Some cs'"
  shows "(fst (interrupt_check_irq_delay opinfo' cs' now) \<longleftrightarrow>
      unat clk + (if truth (OPINFO_DELAYS_INTERRUPT opinfo') then 3 else 2) \<le> unat now \<and>
      \<not> truth (OPINFO_ENABLES_IRQ opinfo')) \<and>
    bit (global_pending_int (snd (interrupt_check_irq_delay opinfo' cs' now))) 6"
proof -
  have inv: "int_inv cs" by (rule int_reach_inv [OF assms(1)])
  then have len: "length (pending_int cs) = num_ints cs" by (simp add: int_inv_def)
  have t: "int_clk_now opinfo cs clk = Some clk" using assms(5) by (simp add: int_clk_now_def)
  have cs': "irq_clk cs' = clk" "bit (global_pending_int cs') 6"
    using assms(7) set_irq_raise [OF len assms(2-4) t] by (auto simp: bit_or_iff)
  have "unat (clk + 2) = unat clk + 2" "unat (clk + 3) = unat clk + 3"
    using assms(6) unat_add_lem [of clk 2] unat_add_lem [of clk 3] by simp_all
  then show ?thesis using cs'
    by (auto simp: interrupt_check_irq_delay_def INTERRUPT_DELAY_def Let_def word_le_nat_alt
        bit_or_iff add.assoc)
qed


section \<open>Witnesses\<close>

text \<open>A reset CPU with two sources, of which the first holds the IRQ line.\<close>

definition wit_cs :: interrupt_cpu_status where
  "wit_cs = fst (interrupt_cpu_status_int_new (fst (interrupt_cpu_status_int_new
     (interrupt_cpu_status_reset (interrupt_cpu_status_init interrupt_cpu_status_new)) ''CIA1'')) ''VICII'')"

lemma wit_cs_reach: "int_reach wit_cs"
  unfolding wit_cs_def
  by (intro int_reach.intros)
    (simp_all add: interrupt_cpu_status_new_def zeroed_status_def)

lemma wit_cs_fields: "num_ints wit_cs = 2" "pending_int wit_cs = [0, 0]" "last_stolen_cycles_clk wit_cs = 0"
  "global_pending_int wit_cs = 0" "nirq wit_cs = 0" "nnmi wit_cs = 0"
  by (simp_all add: wit_cs_def interrupt_cpu_status_new_def zeroed_status_def IK_NONE_def
      interrupt_cpu_status_init_def interrupt_cpu_status_reset_def interrupt_cpu_status_int_new_def)

lemma wit_src: "\<not> irq_src wit_cs i" "\<not> nmi_src wit_cs i"
  by (cases i; auto simp: irq_src_def nmi_src_def wit_cs_fields less_Suc_eq)+

theorem irq_wired_or_witness:
  "\<exists>cs'. drive (interrupt_set_irq 0) [(0, 1, 10), (1, 1, 12), (0, 0, 14), (5, 0, 15)] wit_cs = Some cs' \<and>
     bit (global_pending_int cs') 1"
proof -
  let ?calls = "[(0, 1, 10), (1, 1, 12), (0, 0, 14), (5, 0, 15)]"
  obtain cs' where "drive (interrupt_set_irq 0) ?calls wit_cs = Some cs'"
    "bit (global_pending_int cs') 1 \<longleftrightarrow> (\<exists>i < num_ints wit_cs. last_level i ?calls (irq_src wit_cs i))"
    using irq_wired_or [OF wit_cs_reach, of 0 ?calls] by blast
  moreover have "last_level 1 ?calls (irq_src wit_cs 1)" by simp
  moreover have "1 < num_ints wit_cs" by (simp add: wit_cs_fields)
  ultimately show ?thesis by blast
qed


theorem nmi_edge_triggered_witness:
  "\<exists>cs'. interrupt_set_nmi 0 wit_cs 1 1 20 = Some cs' \<and> bit (global_pending_int cs') 0"
proof -
  obtain cs' where c: "interrupt_set_nmi 0 wit_cs 1 1 20 = Some cs'"
    using interrupt_set_nmi_ok [OF int_reach_inv [OF wit_cs_reach], of 0 1 1 20] by blast
  then show ?thesis using nmi_edge_triggered [OF wit_cs_reach _ c] by (simp add: wit_cs_fields wit_src)
qed

lemma wit_raise:
  obtains cs' where "interrupt_set_irq 0 wit_cs 0 1 20 = Some cs'" "int_reach cs'" "irq_src cs' 0"
proof -
  obtain cs' where c: "interrupt_set_irq 0 wit_cs 0 1 20 = Some cs'"
    "irq_src cs' = (if 0 < num_ints wit_cs then (irq_src wit_cs)(0 := (1::int) \<noteq> 0) else irq_src wit_cs)"
    using interrupt_set_irq_ok [OF int_reach_inv [OF wit_cs_reach], of 0 0 1 20] by blast
  moreover have "int_reach cs'" using c(1) wit_cs_reach by (auto intro: int_reach.intros)
  ultimately show ?thesis using that by (simp add: wit_cs_fields)
qed

theorem irq_served_after_delay_witness:
  "\<exists>cs'. interrupt_set_irq 0 wit_cs 0 1 20 = Some cs' \<and>
     fst (interrupt_check_irq_delay 0 cs' 22) \<and> \<not> fst (interrupt_check_irq_delay 0 cs' 21)"
proof -
  obtain cs' where c: "interrupt_set_irq 0 wit_cs 0 1 20 = Some cs'" by (rule wit_raise)
  have *: "fst (interrupt_check_irq_delay 0 cs' now) \<longleftrightarrow> 22 \<le> unat now" for now
    using irq_served_after_delay [OF wit_cs_reach _ _ _ _ _ c, of 0 now]
    by (simp add: wit_cs_fields wit_src OPINFO_DELAYS_INTERRUPT_def OPINFO_ENABLES_IRQ_def)
  show ?thesis using c by (auto simp: *)
qed


end
