(* ===== verification/CpuState.thy ===== *)
theory CpuState
  imports Alarm Interrupt "HOL-Library.State_Monad"
begin

text \<open>
  The state of the 6510 core (6510core.c as maincpu.c includes it, without C64DTV, DRIVE_CPU,
  CPU_8502, FEATURE_CPUMEMHISTORY and DEBUG) and its lowest macros: status flags, memory access,
  stack, addressing modes. The core is C text over local and global variables; here a macro is a
  function in the state monad of HOL-Library. The globals are what handlers outside the core can
  reach; the registers \<open>reg_a\<close> to \<open>flag_z\<close> are locals of \<open>maincpu_mainloop\<close>.

  The machine the core is linked with (memory tables, traps, monitor, alarm callbacks) is the
  record \<open>machine\<close>: every function pointer or external function the core calls is a function on
  the globals. A macro argument with side effects is passed unevaluated and evaluated as often as
  the macro mentions it; where C leaves the order of two operands open the left one goes first.
  Undefined behaviour (a page outside the memory tables, a dangling alarm, a null trap function) and
  running out of fuel set \<open>fault\<close>, which nothing resets.
\<close>

section \<open>State\<close>

record mos6510_regs =
  mr_pc :: u32
  mr_a :: u8
  mr_x :: u8
  mr_y :: u8
  mr_sp :: u8
  mr_p :: u8
  mr_n :: u8
  mr_z :: u8

record 'e globals =
  maincpu_clk :: clock
  maincpu_int_status :: interrupt_cpu_status
  maincpu_alarm_context :: alarm_sys
  maincpu_rmw_flag :: int
  last_opcode_info :: u32
  last_opcode_addr :: u32
  maincpu_regs :: mos6510_regs
  reg_pc :: u32
  bank_base :: nat
  bank_start :: int
  bank_limit :: int
  mem_ram :: "u16 \<Rightarrow> u8"
  fault :: bool
  dev :: 'e

record 'e cpu =
  glb :: "'e globals"
  reg_a :: u8
  reg_x :: u8
  reg_y :: u8
  reg_p :: u8
  reg_sp :: u8
  flag_n :: u8
  flag_z :: u8

text \<open>
  \<open>mem_read_tab\<close> and \<open>mem_write_tab\<close> take the page and the address, as the handlers the tables
  \<open>_mem_read_tab_ptr\<close> and \<open>_mem_write_tab_ptr\<close> hold in the current memory configuration;
  \<open>bank_byte g b a\<close> is the byte at \<open>a\<close> behind the pointer \<open>b\<close>. \<open>fuel\<close> bounds the loops.
\<close>

record 'e machine =
  mem_read_tab :: "'e globals \<Rightarrow> nat \<Rightarrow> u16 \<Rightarrow> u8 \<times> 'e globals"
  mem_write_tab :: "'e globals \<Rightarrow> nat \<Rightarrow> u16 \<Rightarrow> u8 \<Rightarrow> 'e globals"
  bank_byte :: "'e globals \<Rightarrow> nat \<Rightarrow> u32 \<Rightarrow> u8"
  mem_mmu_translate :: "'e globals \<Rightarrow> u32 \<Rightarrow> nat \<times> int \<times> int"
  cpu_delay_clk :: "'e globals \<Rightarrow> 'e globals"
  run_alternate_cpu :: "'e globals \<Rightarrow> 'e globals"
  call_alarm :: "nat \<Rightarrow> clock \<Rightarrow> nat \<Rightarrow> 'e globals \<Rightarrow> 'e globals"
  call_trap :: "nat \<Rightarrow> u16 \<Rightarrow> nat \<Rightarrow> 'e globals \<Rightarrow> 'e globals"
  call_func :: "nat \<Rightarrow> 'e globals \<Rightarrow> 'e globals"
  mem_rom_trap_allowed :: "'e globals \<Rightarrow> u16 \<Rightarrow> bool"
  traps_handler :: "'e globals \<Rightarrow> u32 \<times> 'e globals"
  machine_jam :: "'e globals \<Rightarrow> u32 \<Rightarrow> u32 \<times> 'e globals"
  machine_reset :: "'e globals \<Rightarrow> 'e globals"
  mem_powerup :: "'e globals \<Rightarrow> 'e globals"
  dma_func :: "'e globals \<Rightarrow> 'e globals"
  monitor_mask :: "'e globals \<Rightarrow> u32"
  monitor_check_icount_interrupt :: "'e globals \<Rightarrow> 'e globals"
  monitor_check_icount :: "'e globals \<Rightarrow> u16 \<Rightarrow> 'e globals"
  monitor_force_import :: "'e globals \<Rightarrow> bool \<times> 'e globals"
  monitor_check_breakpoints :: "'e globals \<Rightarrow> u16 \<Rightarrow> bool \<times> 'e globals"
  monitor_check_watchpoints :: "'e globals \<Rightarrow> u32 \<Rightarrow> u16 \<Rightarrow> 'e globals"
  monitor_startup :: "'e globals \<Rightarrow> 'e globals"
  fuel :: nat

type_synonym ('e, 'a) ex = "('e cpu, 'a) state"

text \<open>The tables have an entry for each page, and one more for the page after the last.\<close>

definition MEM_TAB_SIZE :: nat where "MEM_TAB_SIZE = 0x101"

abbreviation ret :: "'a \<Rightarrow> ('s, 'a) state" where "ret \<equiv> State_Monad.return"

definition gets :: "('s \<Rightarrow> 'a) \<Rightarrow> ('s, 'a) state" where "gets f = State (\<lambda>s. (f s, s))"

definition modify :: "('s \<Rightarrow> 's) \<Rightarrow> ('s, unit) state" where "modify f = State (\<lambda>s. ((), f s))"

lemma run_gets [simp]: "run_state (gets f) s = (f s, s)"
  by (simp add: gets_def)

lemma run_modify [simp]: "run_state (modify f) s = ((), f s)"
  by (simp add: modify_def)

abbreviation zx :: "u8 \<Rightarrow> u32" where "zx \<equiv> ucast"
abbreviation lo8 :: "u32 \<Rightarrow> u8" where "lo8 \<equiv> ucast"

definition glob :: "('e globals \<Rightarrow> 'a) \<Rightarrow> ('e, 'a) ex" where
  "glob f = gets (\<lambda>s. f (glb s))"

definition upd_glob :: "('e globals \<Rightarrow> 'e globals) \<Rightarrow> ('e, unit) ex" where
  "upd_glob f = modify (\<lambda>s. s\<lparr>glb := f (glb s)\<rparr>)"

definition set_fault :: "('e, unit) ex" where
  "set_fault = upd_glob (\<lambda>g. g\<lparr>fault := True\<rparr>)"

text \<open>A call of an external function that returns a value.\<close>

definition ext_call :: "('e globals \<Rightarrow> 'a \<times> 'e globals) \<Rightarrow> ('e, 'a) ex" where
  "ext_call f = State (\<lambda>s. let (v, g) = f (glb s) in (v, s\<lparr>glb := g\<rparr>))"

section \<open>Timing constants\<close>

definition CLK_RTS :: u32 where "CLK_RTS = 3"
definition CLK_RTI :: u32 where "CLK_RTI = 4"
definition CLK_BRK :: u32 where "CLK_BRK = 5"
definition CLK_ABS_I_STORE2 :: u32 where "CLK_ABS_I_STORE2 = 2"
definition CLK_STACK_PUSH :: u32 where "CLK_STACK_PUSH = 1"
definition CLK_STACK_PULL :: u32 where "CLK_STACK_PULL = 2"
definition CLK_ABS_RMW2 :: u32 where "CLK_ABS_RMW2 = 3"
definition CLK_ABS_I_RMW2 :: u32 where "CLK_ABS_I_RMW2 = 3"
definition CLK_ZERO_I_STORE :: u32 where "CLK_ZERO_I_STORE = 2"
definition CLK_ZERO_I2 :: u32 where "CLK_ZERO_I2 = 2"
definition CLK_ZERO_RMW :: u32 where "CLK_ZERO_RMW = 3"
definition CLK_ZERO_I_RMW :: u32 where "CLK_ZERO_I_RMW = 4"
definition CLK_IND_X_RMW :: u32 where "CLK_IND_X_RMW = 3"
definition CLK_IND_Y_RMW1 :: u32 where "CLK_IND_Y_RMW1 = 1"
definition CLK_IND_Y_RMW2 :: u32 where "CLK_IND_Y_RMW2 = 3"
definition CLK_BRANCH2 :: u32 where "CLK_BRANCH2 = 1"
definition CLK_INT_CYCLE :: u32 where "CLK_INT_CYCLE = 1"
definition CLK_JSR_INT_CYCLE :: u32 where "CLK_JSR_INT_CYCLE = 1"
definition CLK_IND_Y_W :: u32 where "CLK_IND_Y_W = 2"
definition CLK_NOOP_ZERO_X :: u32 where "CLK_NOOP_ZERO_X = 2"
definition IRQ_CYCLES :: u32 where "IRQ_CYCLES = 7"
definition NMI_CYCLES :: u32 where "NMI_CYCLES = 7"

definition CLK_ADD :: "u32 \<Rightarrow> ('e, unit) ex" where
  "CLK_ADD amount = upd_glob (\<lambda>g. g\<lparr>maincpu_clk := maincpu_clk g + amount\<rparr>)"

definition REWIND_FETCH_OPCODE :: "('e, unit) ex" where
  "REWIND_FETCH_OPCODE = upd_glob (\<lambda>g. g\<lparr>maincpu_clk := maincpu_clk g - 2\<rparr>)"

section \<open>Status register\<close>

definition P_SIGN :: u8 where "P_SIGN = push_bit 7 1"
definition P_OVERFLOW :: u8 where "P_OVERFLOW = push_bit 6 1"
definition P_UNUSED :: u8 where "P_UNUSED = push_bit 5 1"
definition P_BREAK :: u8 where "P_BREAK = push_bit 4 1"
definition P_DECIMAL :: u8 where "P_DECIMAL = push_bit 3 1"
definition P_INTERRUPT :: u8 where "P_INTERRUPT = push_bit 2 1"
definition P_ZERO :: u8 where "P_ZERO = push_bit 1 1"
definition P_CARRY :: u8 where "P_CARRY = push_bit 0 1"

text \<open>The common shape of the macros that set or clear one bit of \<open>reg_p\<close>.\<close>

definition set_p :: "u8 \<Rightarrow> bool \<Rightarrow> ('e, unit) ex" where
  "set_p flag val = modify (\<lambda>s. s\<lparr>reg_p := (if val then reg_p s OR flag else reg_p s AND NOT flag)\<rparr>)"

definition LOCAL_SET_OVERFLOW :: "bool \<Rightarrow> ('e, unit) ex" where
  "LOCAL_SET_OVERFLOW val = set_p P_OVERFLOW val"

definition LOCAL_SET_BREAK :: "bool \<Rightarrow> ('e, unit) ex" where
  "LOCAL_SET_BREAK val = set_p P_BREAK val"

definition LOCAL_SET_DECIMAL :: "bool \<Rightarrow> ('e, unit) ex" where
  "LOCAL_SET_DECIMAL val = set_p P_DECIMAL val"

definition LOCAL_SET_INTERRUPT :: "bool \<Rightarrow> ('e, unit) ex" where
  "LOCAL_SET_INTERRUPT val = set_p P_INTERRUPT val"

definition LOCAL_SET_CARRY :: "bool \<Rightarrow> ('e, unit) ex" where
  "LOCAL_SET_CARRY val = set_p P_CARRY val"

definition LOCAL_SET_NZ :: "u32 \<Rightarrow> ('e, unit) ex" where
  "LOCAL_SET_NZ val = modify (\<lambda>s. s\<lparr>flag_n := lo8 val, flag_z := lo8 val\<rparr>)"

definition LOCAL_SET_SIGN :: "bool \<Rightarrow> ('e, unit) ex" where
  "LOCAL_SET_SIGN val = modify (\<lambda>s. s\<lparr>flag_n := (if val then 0x80 else 0)\<rparr>)"

definition LOCAL_SET_ZERO :: "bool \<Rightarrow> ('e, unit) ex" where
  "LOCAL_SET_ZERO val = modify (\<lambda>s. s\<lparr>flag_z := (if val then 0 else 1)\<rparr>)"

definition LOCAL_SET_STATUS :: "u8 \<Rightarrow> ('e, unit) ex" where
  "LOCAL_SET_STATUS val = do {
     modify (\<lambda>s. s\<lparr>reg_p := val AND NOT (P_ZERO OR P_SIGN)\<rparr>);
     LOCAL_SET_ZERO (truth (val AND P_ZERO));
     modify (\<lambda>s. s\<lparr>flag_n := val\<rparr>)
   }"

definition LOCAL_OVERFLOW :: "'e cpu \<Rightarrow> bool" where
  "LOCAL_OVERFLOW s = truth (reg_p s AND P_OVERFLOW)"

definition LOCAL_BREAK :: "'e cpu \<Rightarrow> bool" where
  "LOCAL_BREAK s = truth (reg_p s AND P_BREAK)"

definition LOCAL_DECIMAL :: "'e cpu \<Rightarrow> bool" where
  "LOCAL_DECIMAL s = truth (reg_p s AND P_DECIMAL)"

definition LOCAL_INTERRUPT :: "'e cpu \<Rightarrow> bool" where
  "LOCAL_INTERRUPT s = truth (reg_p s AND P_INTERRUPT)"

definition LOCAL_CARRY :: "'e cpu \<Rightarrow> bool" where
  "LOCAL_CARRY s = truth (reg_p s AND P_CARRY)"

definition LOCAL_SIGN :: "'e cpu \<Rightarrow> bool" where
  "LOCAL_SIGN s = truth (flag_n s AND 0x80)"

definition LOCAL_ZERO :: "'e cpu \<Rightarrow> bool" where
  "LOCAL_ZERO s \<longleftrightarrow> flag_z s = 0"

definition LOCAL_STATUS :: "'e cpu \<Rightarrow> u8" where
  "LOCAL_STATUS s = reg_p s OR (flag_n s AND 0x80) OR P_UNUSED OR (if LOCAL_ZERO s then P_ZERO else 0)"

text \<open>\<open>reg_p & P_CARRY\<close> as a number.\<close>

definition carry :: "'e cpu \<Rightarrow> u32" where
  "carry s = zx (reg_p s AND P_CARRY)"

section \<open>Information on the last opcode\<close>

definition SET_LAST_OPCODE :: "u32 \<Rightarrow> ('e, unit) ex" where
  "SET_LAST_OPCODE x = upd_glob (\<lambda>g. g\<lparr>last_opcode_info := OPINFO_SET x False False False\<rparr>)"

definition OPCODE_DELAYS_INTERRUPT :: "('e, unit) ex" where
  "OPCODE_DELAYS_INTERRUPT =
     upd_glob (\<lambda>g. g\<lparr>last_opcode_info := OPINFO_SET_DELAYS_INTERRUPT (last_opcode_info g) True\<rparr>)"

definition OPCODE_DISABLES_IRQ :: "('e, unit) ex" where
  "OPCODE_DISABLES_IRQ =
     upd_glob (\<lambda>g. g\<lparr>last_opcode_info := OPINFO_SET_DISABLES_IRQ (last_opcode_info g) True\<rparr>)"

definition OPCODE_ENABLES_IRQ :: "('e, unit) ex" where
  "OPCODE_ENABLES_IRQ =
     upd_glob (\<lambda>g. g\<lparr>last_opcode_info := OPINFO_SET_ENABLES_IRQ (last_opcode_info g) True\<rparr>)"

definition SET_LAST_ADDR :: "u32 \<Rightarrow> ('e, unit) ex" where
  "SET_LAST_ADDR x = upd_glob (\<lambda>g. g\<lparr>last_opcode_addr := x\<rparr>)"

section \<open>Memory access\<close>

definition read_page :: "'e machine \<Rightarrow> u32 \<Rightarrow> u16 \<Rightarrow> ('e, u32) ex" where
  "read_page m page a =
     (if unat page < MEM_TAB_SIZE
      then do { v \<leftarrow> ext_call (\<lambda>g. mem_read_tab m g (unat page) a); ret (zx v) }
      else do { set_fault; ret 0 })"

definition write_page :: "'e machine \<Rightarrow> u32 \<Rightarrow> u16 \<Rightarrow> u8 \<Rightarrow> ('e, unit) ex" where
  "write_page m page a v =
     (if unat page < MEM_TAB_SIZE then upd_glob (\<lambda>g. mem_write_tab m g (unat page) a v)
      else set_fault)"

text \<open>\<open>LOAD\<close> evaluates its address for the page and again for the argument of the handler.\<close>

definition LOAD :: "'e machine \<Rightarrow> ('e, u32) ex \<Rightarrow> ('e, u32) ex" where
  "LOAD m addr = do { a \<leftarrow> addr; b \<leftarrow> addr; read_page m (drop_bit 8 a) (ucast b) }"

definition STORE :: "'e machine \<Rightarrow> u32 \<Rightarrow> u32 \<Rightarrow> ('e, unit) ex" where
  "STORE m addr val = write_page m (drop_bit 8 addr) (ucast addr) (lo8 val)"

definition LOAD_ZERO :: "'e machine \<Rightarrow> u32 \<Rightarrow> ('e, u32) ex" where
  "LOAD_ZERO m addr = read_page m 0 (ucast addr)"

definition STORE_ZERO :: "'e machine \<Rightarrow> u32 \<Rightarrow> u32 \<Rightarrow> ('e, unit) ex" where
  "STORE_ZERO m addr val = write_page m 0 (ucast addr) (lo8 val)"

definition LOAD_ADDR :: "'e machine \<Rightarrow> u32 \<Rightarrow> ('e, u32) ex" where
  "LOAD_ADDR m addr = do {
     hi \<leftarrow> LOAD m (ret (addr + 1));
     lo \<leftarrow> LOAD m (ret addr);
     ret (push_bit 8 hi OR lo)
   }"

definition LOAD_ZERO_ADDR :: "'e machine \<Rightarrow> u32 \<Rightarrow> ('e, u32) ex" where
  "LOAD_ZERO_ADDR m addr = do {
     hi \<leftarrow> LOAD_ZERO m (addr + 1);
     lo \<leftarrow> LOAD_ZERO m addr;
     ret (push_bit 8 hi OR lo)
   }"

definition LOAD_IND :: "'e machine \<Rightarrow> ('e, u32) ex \<Rightarrow> ('e, u32) ex" where
  "LOAD_IND m addr = LOAD m addr"

definition STORE_IND :: "'e machine \<Rightarrow> u32 \<Rightarrow> u32 \<Rightarrow> ('e, unit) ex" where
  "STORE_IND m addr val = STORE m addr val"

text \<open>The stack is accessed in \<open>mem_ram\<close> directly, past the memory tables.\<close>

definition PAGE_ONE :: "u8 \<Rightarrow> u16" where
  "PAGE_ONE sp = 0x100 + ucast sp"

definition PUSH :: "u32 \<Rightarrow> ('e, unit) ex" where
  "PUSH val = modify (\<lambda>s. s\<lparr>glb := (glb s)\<lparr>mem_ram := (mem_ram (glb s))(PAGE_ONE (reg_sp s) := lo8 val)\<rparr>,
                            reg_sp := reg_sp s - 1\<rparr>)"

definition PULL :: "('e, u32) ex" where
  "PULL = do {
     modify (\<lambda>s. s\<lparr>reg_sp := reg_sp s + 1\<rparr>);
     gets (\<lambda>s. zx (mem_ram (glb s) (PAGE_ONE (reg_sp s))))
   }"

text \<open>The opcode fetch hack of maincpu.c: reads below \<open>bank_limit\<close> bypass the tables.\<close>

definition JUMP :: "'e machine \<Rightarrow> u32 \<Rightarrow> ('e, unit) ex" where
  "JUMP m addr = do {
     upd_glob (\<lambda>g. g\<lparr>reg_pc := addr\<rparr>);
     g \<leftarrow> glob id;
     if reg_pc g \<ge> word_of_int (bank_limit g) \<or> reg_pc g < word_of_int (bank_start g)
     then let (b, st, li) = mem_mmu_translate m g addr
          in upd_glob (\<lambda>g. g\<lparr>bank_base := b, bank_start := st, bank_limit := li\<rparr>)
     else ret ()
   }"

definition FETCH_PARAM :: "'e machine \<Rightarrow> u32 \<Rightarrow> ('e, u32) ex" where
  "FETCH_PARAM m addr = do {
     g \<leftarrow> glob id;
     if sint addr < bank_limit g then ret (zx (bank_byte m g (bank_base g) addr))
     else LOAD m (ret addr)
   }"

definition INC_PC :: "u32 \<Rightarrow> ('e, unit) ex" where
  "INC_PC val = upd_glob (\<lambda>g. g\<lparr>reg_pc := reg_pc g + val\<rparr>)"

definition SET_RMW_FLAG :: "int \<Rightarrow> ('e, unit) ex" where
  "SET_RMW_FLAG v = upd_glob (\<lambda>g. g\<lparr>maincpu_rmw_flag := v\<rparr>)"

definition EXPORT_REGISTERS :: "('e, unit) ex" where
  "EXPORT_REGISTERS = modify (\<lambda>s. s\<lparr>glb := (glb s)\<lparr>maincpu_regs :=
     \<lparr>mr_pc = reg_pc (glb s), mr_a = reg_a s, mr_x = reg_x s, mr_y = reg_y s, mr_sp = reg_sp s,
      mr_p = reg_p s, mr_n = flag_n s, mr_z = flag_z s\<rparr>\<rparr>\<rparr>)"

definition IMPORT_REGISTERS :: "'e machine \<Rightarrow> ('e, unit) ex" where
  "IMPORT_REGISTERS m = do {
     modify (\<lambda>s. let r = maincpu_regs (glb s) in
       s\<lparr>reg_a := mr_a r, reg_x := mr_x r, reg_y := mr_y r, reg_sp := mr_sp r, reg_p := mr_p r,
         flag_n := mr_n r, flag_z := mr_z r\<rparr>);
     upd_glob (\<lambda>g. g\<lparr>bank_start := 0, bank_limit := 0\<rparr>);
     pc \<leftarrow> glob (\<lambda>g. mr_pc (maincpu_regs g));
     JUMP m pc
   }"

section \<open>Alarms\<close>

definition dispatch_alarm :: "'e machine \<Rightarrow> ('e, unit) ex" where
  "dispatch_alarm m = upd_glob (\<lambda>g.
     case alarm_context_dispatch (maincpu_alarm_context g) (maincpu_clk g) of
       None \<Rightarrow> g\<lparr>fault := True\<rparr>
     | Some (f, offset, d) \<Rightarrow> call_alarm m f offset d g)"

fun process_alarms :: "'e machine \<Rightarrow> nat \<Rightarrow> ('e, unit) ex" where
  "process_alarms m n = do {
     due \<leftarrow> glob (\<lambda>g. alarm_context_next_pending_clk (actx (maincpu_alarm_context g)) \<le> maincpu_clk g);
     if \<not> due then ret ()
     else case n of
       0 \<Rightarrow> set_fault
     | Suc k \<Rightarrow> do { dispatch_alarm m; upd_glob (cpu_delay_clk m); process_alarms m k }
   }"

definition PROCESS_ALARMS :: "'e machine \<Rightarrow> ('e, unit) ex" where
  "PROCESS_ALARMS m = process_alarms m (fuel m)"

declare process_alarms.simps [simp del]

section \<open>Addressing modes\<close>

definition LOAD_ABS :: "'e machine \<Rightarrow> u32 \<Rightarrow> ('e, u32) ex" where
  "LOAD_ABS m addr = LOAD m (ret addr)"

text \<open>The indexed modes read from the wrong page first when the index crosses a page.\<close>

definition LOAD_ABS_X :: "'e machine \<Rightarrow> u32 \<Rightarrow> ('e, u32) ex" where
  "LOAD_ABS_X m addr = do {
     x \<leftarrow> gets (\<lambda>s. zx (reg_x s));
     if (addr AND 0xff) + x > 0xff then do {
       LOAD m (ret ((addr AND 0xff00) OR ((addr + x) AND 0xff)));
       CLK_ADD CLK_INT_CYCLE;
       LOAD m (ret (addr + x))
     } else LOAD m (ret (addr + x))
   }"

definition LOAD_ABS_X_RMW :: "'e machine \<Rightarrow> u32 \<Rightarrow> ('e, u32) ex" where
  "LOAD_ABS_X_RMW m addr = do {
     x \<leftarrow> gets (\<lambda>s. zx (reg_x s));
     LOAD m (ret ((addr AND 0xff00) OR ((addr + x) AND 0xff)));
     CLK_ADD CLK_INT_CYCLE;
     LOAD m (ret (addr + x))
   }"

definition LOAD_ABS_Y :: "'e machine \<Rightarrow> u32 \<Rightarrow> ('e, u32) ex" where
  "LOAD_ABS_Y m addr = do {
     y \<leftarrow> gets (\<lambda>s. zx (reg_y s));
     if (addr AND 0xff) + y > 0xff then do {
       LOAD m (ret ((addr AND 0xff00) OR ((addr + y) AND 0xff)));
       CLK_ADD CLK_INT_CYCLE;
       LOAD m (ret (addr + y))
     } else LOAD m (ret (addr + y))
   }"

definition LOAD_ABS_Y_RMW :: "'e machine \<Rightarrow> u32 \<Rightarrow> ('e, u32) ex" where
  "LOAD_ABS_Y_RMW m addr = do {
     y \<leftarrow> gets (\<lambda>s. zx (reg_y s));
     LOAD m (ret ((addr AND 0xff00) OR ((addr + y) AND 0xff)));
     CLK_ADD CLK_INT_CYCLE;
     LOAD m (ret (addr + y))
   }"

definition LOAD_IND_X :: "'e machine \<Rightarrow> u32 \<Rightarrow> ('e, u32) ex" where
  "LOAD_IND_X m addr = do {
     CLK_ADD 3;
     x \<leftarrow> gets (\<lambda>s. zx (reg_x s));
     LOAD m (LOAD_ZERO_ADDR m (addr + x))
   }"

text \<open>\<open>LOAD_IND_Y\<close> reads its pointer anew for each of its uses.\<close>

definition LOAD_IND_Y :: "'e machine \<Rightarrow> u32 \<Rightarrow> ('e, u32) ex" where
  "LOAD_IND_Y m addr = do {
     CLK_ADD 2;
     y \<leftarrow> gets (\<lambda>s. zx (reg_y s));
     a \<leftarrow> LOAD_ZERO_ADDR m addr;
     if (a AND 0xff) + y > 0xff then do {
       LOAD m (do {
         hi \<leftarrow> LOAD_ZERO_ADDR m addr;
         lo \<leftarrow> LOAD_ZERO_ADDR m addr;
         ret ((hi AND 0xff00) OR ((lo + y) AND 0xff))
       });
       CLK_ADD CLK_INT_CYCLE;
       LOAD m (do { b \<leftarrow> LOAD_ZERO_ADDR m addr; ret (b + y) })
     } else LOAD m (do { b \<leftarrow> LOAD_ZERO_ADDR m addr; ret (b + y) })
   }"

definition LOAD_ZERO_X :: "'e machine \<Rightarrow> u32 \<Rightarrow> ('e, u32) ex" where
  "LOAD_ZERO_X m addr = do { x \<leftarrow> gets (\<lambda>s. zx (reg_x s)); LOAD_ZERO m (addr + x) }"

definition LOAD_ZERO_Y :: "'e machine \<Rightarrow> u32 \<Rightarrow> ('e, u32) ex" where
  "LOAD_ZERO_Y m addr = do { y \<leftarrow> gets (\<lambda>s. zx (reg_y s)); LOAD_ZERO m (addr + y) }"

definition LOAD_IND_Y_BANK :: "'e machine \<Rightarrow> u32 \<Rightarrow> ('e, u32) ex" where
  "LOAD_IND_Y_BANK m addr = do {
     CLK_ADD 2;
     y \<leftarrow> gets (\<lambda>s. zx (reg_y s));
     a \<leftarrow> LOAD_ZERO_ADDR m addr;
     if (a AND 0xff) + y > 0xff then do {
       LOAD_IND m (do {
         hi \<leftarrow> LOAD_ZERO_ADDR m addr;
         lo \<leftarrow> LOAD_ZERO_ADDR m addr;
         ret ((hi AND 0xff00) OR ((lo + y) AND 0xff))
       });
       CLK_ADD CLK_INT_CYCLE;
       LOAD_IND m (do { b \<leftarrow> LOAD_ZERO_ADDR m addr; ret (b + y) })
     } else LOAD_IND m (do { b \<leftarrow> LOAD_ZERO_ADDR m addr; ret (b + y) })
   }"

definition STORE_ABS :: "'e machine \<Rightarrow> u32 \<Rightarrow> u32 \<Rightarrow> u32 \<Rightarrow> ('e, unit) ex" where
  "STORE_ABS m addr val inc = do { CLK_ADD inc; STORE m addr val }"

definition STORE_ABS_X :: "'e machine \<Rightarrow> u32 \<Rightarrow> u32 \<Rightarrow> u32 \<Rightarrow> ('e, unit) ex" where
  "STORE_ABS_X m addr val inc = do {
     x \<leftarrow> gets (\<lambda>s. zx (reg_x s));
     CLK_ADD (inc - 2);
     LOAD m (ret (((addr + x) AND 0xff) OR (addr AND 0xff00)));
     CLK_ADD 2;
     STORE m (addr + x) val
   }"

definition STORE_ABS_X_RMW :: "'e machine \<Rightarrow> u32 \<Rightarrow> u32 \<Rightarrow> u32 \<Rightarrow> ('e, unit) ex" where
  "STORE_ABS_X_RMW m addr val inc = do {
     CLK_ADD inc;
     x \<leftarrow> gets (\<lambda>s. zx (reg_x s));
     STORE m (addr + x) val
   }"

definition STORE_ABS_SH_X :: "'e machine \<Rightarrow> u32 \<Rightarrow> u32 \<Rightarrow> u32 \<Rightarrow> ('e, unit) ex" where
  "STORE_ABS_SH_X m addr val inc = do {
     x \<leftarrow> gets (\<lambda>s. zx (reg_x s));
     CLK_ADD (inc - 2);
     LOAD m (ret (((addr + x) AND 0xff) OR (addr AND 0xff00)));
     CLK_ADD 2;
     let tmp2 = addr + x;
     let tmp2 = (if (addr AND 0xff) + x > 0xff then (tmp2 AND 0xff) OR push_bit 8 val else tmp2);
     STORE m tmp2 val
   }"

definition STORE_ABS_Y :: "'e machine \<Rightarrow> u32 \<Rightarrow> u32 \<Rightarrow> u32 \<Rightarrow> ('e, unit) ex" where
  "STORE_ABS_Y m addr val inc = do {
     y \<leftarrow> gets (\<lambda>s. zx (reg_y s));
     CLK_ADD (inc - 2);
     LOAD m (ret (((addr + y) AND 0xff) OR (addr AND 0xff00)));
     CLK_ADD 2;
     STORE m (addr + y) val
   }"

definition STORE_ABS_Y_RMW :: "'e machine \<Rightarrow> u32 \<Rightarrow> u32 \<Rightarrow> u32 \<Rightarrow> ('e, unit) ex" where
  "STORE_ABS_Y_RMW m addr val inc = do {
     CLK_ADD inc;
     y \<leftarrow> gets (\<lambda>s. zx (reg_y s));
     STORE m (addr + y) val
   }"

definition STORE_ABS_SH_Y :: "'e machine \<Rightarrow> u32 \<Rightarrow> u32 \<Rightarrow> u32 \<Rightarrow> ('e, unit) ex" where
  "STORE_ABS_SH_Y m addr val inc = do {
     y \<leftarrow> gets (\<lambda>s. zx (reg_y s));
     CLK_ADD (inc - 2);
     LOAD m (ret (((addr + y) AND 0xff) OR (addr AND 0xff00)));
     CLK_ADD 2;
     let tmp2 = addr + y;
     let tmp2 = (if (addr AND 0xff) + y > 0xff then (tmp2 AND 0xff) OR push_bit 8 val else tmp2);
     STORE m tmp2 val
   }"

end
