(* ===== verification/CpuOps.thy ===== *)
theory CpuOps
  imports CpuState
begin

text \<open>
  The opcode macros of 6510core.c. An argument \<open>value\<close> that the switch fills with a memory access is
  unevaluated; \<open>addr\<close> is unevaluated where the switch passes a pointer read and a number otherwise;
  \<open>load_func\<close> and \<open>store_func\<close> are the addressing macros passed by name. Assigning an unsigned int to a
  \<open>uint8_t\<close> register is \<open>lo8\<close>.
\<close>

definition A_write :: "u32 \<Rightarrow> ('e, unit) ex" where "A_write c = modify (\<lambda>s. s\<lparr>reg_a := lo8 c\<rparr>)"
definition X_write :: "u32 \<Rightarrow> ('e, unit) ex" where "X_write c = modify (\<lambda>s. s\<lparr>reg_x := lo8 c\<rparr>)"
definition Y_write :: "u32 \<Rightarrow> ('e, unit) ex" where "Y_write c = modify (\<lambda>s. s\<lparr>reg_y := lo8 c\<rparr>)"
definition SP_write :: "u32 \<Rightarrow> ('e, unit) ex" where "SP_write c = modify (\<lambda>s. s\<lparr>reg_sp := lo8 c\<rparr>)"

definition A_read :: "('e, u32) ex" where "A_read = gets (\<lambda>s. zx (reg_a s))"
definition X_read :: "('e, u32) ex" where "X_read = gets (\<lambda>s. zx (reg_x s))"
definition Y_read :: "('e, u32) ex" where "Y_read = gets (\<lambda>s. zx (reg_y s))"
definition SP_read :: "('e, u32) ex" where "SP_read = gets (\<lambda>s. zx (reg_sp s))"

definition PC_read :: "('e, u32) ex" where "PC_read = glob reg_pc"

section \<open>Arithmetic\<close>

definition ADC :: "('e, u32) ex \<Rightarrow> u32 \<Rightarrow> u32 \<Rightarrow> ('e, unit) ex" where
  "ADC value clk_inc pc_inc = do {
     tmp_value \<leftarrow> value;
     CLK_ADD clk_inc;
     a \<leftarrow> A_read;
     c \<leftarrow> gets carry;
     decimal \<leftarrow> gets LOCAL_DECIMAL;
     tmp \<leftarrow> (if decimal then do {
       let tmp = (a AND 0xf) + (tmp_value AND 0xf) + c;
       let tmp = (if tmp > 0x9 then tmp + 0x6 else tmp);
       let tmp = (if tmp \<le> 0xf then (tmp AND 0xf) + (a AND 0xf0) + (tmp_value AND 0xf0)
                  else (tmp AND 0xf) + (a AND 0xf0) + (tmp_value AND 0xf0) + 0x10);
       LOCAL_SET_ZERO ((a + tmp_value + c) AND 0xff = 0);
       LOCAL_SET_SIGN (truth (tmp AND 0x80));
       LOCAL_SET_OVERFLOW (truth ((a XOR tmp) AND 0x80) \<and> \<not> truth ((a XOR tmp_value) AND 0x80));
       let tmp = (if (tmp AND 0x1f0) > 0x90 then tmp + 0x60 else tmp);
       LOCAL_SET_CARRY ((tmp AND 0xff0) > 0xf0);
       ret tmp
     } else do {
       let tmp = tmp_value + a + c;
       LOCAL_SET_NZ (tmp AND 0xff);
       LOCAL_SET_OVERFLOW (\<not> truth ((a XOR tmp_value) AND 0x80) \<and> truth ((a XOR tmp) AND 0x80));
       LOCAL_SET_CARRY (tmp > 0xff);
       ret tmp
     });
     A_write tmp;
     INC_PC pc_inc
   }"

text \<open>\<open>src\<close> and \<open>tmp\<close> are \<open>uint16_t\<close>, \<open>tmp_a\<close> is unsigned int.\<close>

definition SBC :: "('e, u32) ex \<Rightarrow> u32 \<Rightarrow> u32 \<Rightarrow> ('e, unit) ex" where
  "SBC value clk_inc pc_inc = do {
     v \<leftarrow> value;
     let src = (ucast v :: u16);
     CLK_ADD clk_inc;
     a8 \<leftarrow> gets reg_a;
     c \<leftarrow> gets LOCAL_CARRY;
     decimal \<leftarrow> gets LOCAL_DECIMAL;
     let a = (ucast a8 :: u32);
     let srcu = (ucast src :: u32);
     let borrow = (if c then 0 else 1);
     let tmp = (ucast (a - srcu - borrow) :: u16);
     (if decimal then do {
       let tmp_a = (a AND 0xf) - (srcu AND 0xf) - borrow;
       let tmp_a = (if truth (tmp_a AND 0x10)
                    then ((tmp_a - 6) AND 0xf) OR ((a AND 0xf0) - (srcu AND 0xf0) - 0x10)
                    else (tmp_a AND 0xf) OR ((a AND 0xf0) - (srcu AND 0xf0)));
       let tmp_a = (if truth (tmp_a AND 0x100) then tmp_a - 0x60 else tmp_a);
       LOCAL_SET_CARRY (tmp < 0x100);
       LOCAL_SET_NZ (ucast tmp AND 0xff);
       LOCAL_SET_OVERFLOW (truth ((a XOR ucast tmp) AND 0x80) \<and> truth ((a XOR srcu) AND 0x80));
       A_write tmp_a
     } else do {
       LOCAL_SET_NZ (ucast tmp AND 0xff);
       LOCAL_SET_CARRY (tmp < 0x100);
       LOCAL_SET_OVERFLOW (truth ((a XOR ucast tmp) AND 0x80) \<and> truth ((a XOR srcu) AND 0x80));
       A_write (ucast tmp)
     });
     INC_PC pc_inc
   }"

definition ANC :: "('e, u32) ex \<Rightarrow> u32 \<Rightarrow> ('e, unit) ex" where
  "ANC value pc_inc = do {
     a \<leftarrow> A_read; v \<leftarrow> value;
     let tmp = a AND v AND 0xff;
     A_write tmp;
     LOCAL_SET_NZ tmp;
     n \<leftarrow> gets LOCAL_SIGN;
     LOCAL_SET_CARRY n;
     INC_PC pc_inc
   }"

definition AND_op :: "('e, u32) ex \<Rightarrow> u32 \<Rightarrow> u32 \<Rightarrow> ('e, unit) ex" where
  "AND_op value clk_inc pc_inc = do {
     a \<leftarrow> A_read; v \<leftarrow> value;
     let tmp = a AND v AND 0xff;
     A_write tmp;
     LOCAL_SET_NZ tmp;
     CLK_ADD clk_inc;
     INC_PC pc_inc
   }"

definition EOR :: "('e, u32) ex \<Rightarrow> u32 \<Rightarrow> u32 \<Rightarrow> ('e, unit) ex" where
  "EOR value clk_inc pc_inc = do {
     a \<leftarrow> A_read; v \<leftarrow> value;
     let tmp = (a XOR v) AND 0xff;
     A_write tmp;
     LOCAL_SET_NZ tmp;
     CLK_ADD clk_inc;
     INC_PC pc_inc
   }"

definition ORA :: "('e, u32) ex \<Rightarrow> u32 \<Rightarrow> u32 \<Rightarrow> ('e, unit) ex" where
  "ORA value clk_inc pc_inc = do {
     a \<leftarrow> A_read; v \<leftarrow> value;
     let tmp = (a OR v) AND 0xff;
     A_write tmp;
     LOCAL_SET_NZ tmp;
     CLK_ADD clk_inc;
     INC_PC pc_inc
   }"

definition ANE :: "('e, u32) ex \<Rightarrow> u32 \<Rightarrow> ('e, unit) ex" where
  "ANE value pc_inc = do {
     a \<leftarrow> A_read; x \<leftarrow> X_read; v \<leftarrow> value;
     let tmp = (a OR 0xff) AND x AND (v AND 0xff);
     A_write tmp;
     LOCAL_SET_NZ tmp;
     INC_PC pc_inc
   }"

definition ARR :: "('e, u32) ex \<Rightarrow> u32 \<Rightarrow> ('e, unit) ex" where
  "ARR value pc_inc = do {
     a \<leftarrow> A_read; v \<leftarrow> value;
     let tmp = a AND v;
     c \<leftarrow> gets carry;
     decimal \<leftarrow> gets LOCAL_DECIMAL;
     (if decimal then do {
       let tmp_2 = drop_bit 1 (tmp OR push_bit 8 c);
       LOCAL_SET_SIGN (truth c);
       LOCAL_SET_ZERO (tmp_2 = 0);
       LOCAL_SET_OVERFLOW (truth ((tmp_2 XOR tmp) AND 0x40));
       let tmp_2 = (if (tmp AND 0xf) + (tmp AND 0x1) > 0x5
                    then (tmp_2 AND 0xf0) OR ((tmp_2 + 0x6) AND 0xf) else tmp_2);
       tmp_2 \<leftarrow> (if (tmp AND 0xf0) + (tmp AND 0x10) > 0x50 then do {
           LOCAL_SET_CARRY True;
           ret ((tmp_2 AND 0x0f) OR ((tmp_2 + 0x60) AND 0xf0))
         } else do {
           LOCAL_SET_CARRY False;
           ret tmp_2
         });
       A_write tmp_2
     } else do {
       let tmp = drop_bit 1 (tmp OR push_bit 8 c);
       LOCAL_SET_NZ tmp;
       LOCAL_SET_CARRY (truth (tmp AND 0x40));
       LOCAL_SET_OVERFLOW (truth ((tmp AND 0x40) XOR push_bit 1 (tmp AND 0x20)));
       A_write tmp
     });
     INC_PC pc_inc
   }"

definition BIT :: "('e, u32) ex \<Rightarrow> u32 \<Rightarrow> ('e, unit) ex" where
  "BIT value pc_inc = do {
     tmp \<leftarrow> value;
     CLK_ADD 1;
     LOCAL_SET_SIGN (truth (tmp AND 0x80));
     LOCAL_SET_OVERFLOW (truth (tmp AND 0x40));
     a \<leftarrow> A_read;
     LOCAL_SET_ZERO (\<not> truth (tmp AND a));
     INC_PC pc_inc
   }"

definition CMP :: "('e, u32) ex \<Rightarrow> u32 \<Rightarrow> u32 \<Rightarrow> ('e, unit) ex" where
  "CMP value clk_inc pc_inc = do {
     a \<leftarrow> A_read; v \<leftarrow> value;
     let tmp = a - v;
     LOCAL_SET_CARRY (tmp < 0x100);
     LOCAL_SET_NZ (tmp AND 0xff);
     CLK_ADD clk_inc;
     INC_PC pc_inc
   }"

definition CPX :: "('e, u32) ex \<Rightarrow> u32 \<Rightarrow> u32 \<Rightarrow> ('e, unit) ex" where
  "CPX value clk_inc pc_inc = do {
     x \<leftarrow> X_read; v \<leftarrow> value;
     let tmp = x - v;
     LOCAL_SET_CARRY (tmp < 0x100);
     LOCAL_SET_NZ (tmp AND 0xff);
     CLK_ADD clk_inc;
     INC_PC pc_inc
   }"

definition CPY :: "('e, u32) ex \<Rightarrow> u32 \<Rightarrow> u32 \<Rightarrow> ('e, unit) ex" where
  "CPY value clk_inc pc_inc = do {
     y \<leftarrow> Y_read; v \<leftarrow> value;
     let tmp = y - v;
     LOCAL_SET_CARRY (tmp < 0x100);
     LOCAL_SET_NZ (tmp AND 0xff);
     CLK_ADD clk_inc;
     INC_PC pc_inc
   }"

definition SBX :: "('e, u32) ex \<Rightarrow> u32 \<Rightarrow> ('e, unit) ex" where
  "SBX value pc_inc = do {
     tmp \<leftarrow> value;
     INC_PC pc_inc;
     a \<leftarrow> A_read; x \<leftarrow> X_read;
     let tmp = (a AND x) - tmp;
     LOCAL_SET_CARRY (tmp < 0x100);
     X_write (tmp AND 0xff);
     x' \<leftarrow> X_read;
     LOCAL_SET_NZ x'
   }"

section \<open>Shifts on the accumulator\<close>

definition ASL_A :: "('e, unit) ex" where
  "ASL_A = do {
     tmp \<leftarrow> A_read;
     LOCAL_SET_CARRY (truth (tmp AND 0x80));
     let tmp = push_bit 1 tmp AND 0xff;
     A_write tmp;
     LOCAL_SET_NZ tmp;
     INC_PC 1
   }"

definition ASR :: "('e, u32) ex \<Rightarrow> u32 \<Rightarrow> ('e, unit) ex" where
  "ASR value pc_inc = do {
     a \<leftarrow> A_read; v \<leftarrow> value;
     let tmp = a AND v;
     LOCAL_SET_CARRY (truth (tmp AND 0x01));
     let tmp = drop_bit 1 tmp;
     A_write tmp;
     LOCAL_SET_NZ tmp;
     INC_PC pc_inc
   }"

definition LSR_A :: "('e, unit) ex" where
  "LSR_A = do {
     tmp \<leftarrow> A_read;
     LOCAL_SET_CARRY (truth (tmp AND 0x01));
     let tmp = drop_bit 1 tmp;
     A_write tmp;
     LOCAL_SET_NZ tmp;
     INC_PC 1
   }"

definition ROL_A :: "('e, unit) ex" where
  "ROL_A = do {
     a \<leftarrow> A_read;
     c \<leftarrow> gets carry;
     let tmp = push_bit 1 a OR c;
     A_write tmp;
     LOCAL_SET_NZ tmp;
     LOCAL_SET_CARRY (truth (tmp AND 0x100));
     INC_PC 1
   }"

definition ROR_A :: "('e, unit) ex" where
  "ROR_A = do {
     tmp \<leftarrow> A_read;
     p \<leftarrow> gets (\<lambda>s. zx (reg_p s));
     let tmp2 = drop_bit 1 tmp OR push_bit 7 p;
     LOCAL_SET_CARRY (truth (tmp AND 0x01));
     A_write tmp2;
     LOCAL_SET_NZ tmp2;
     INC_PC 1
   }"

section \<open>Read-modify-write\<close>

text \<open>The common end: \<open>RMW_FLAG\<close> is 1 during the store, and the PC moves before it.\<close>

definition rmw_store ::
  "(u32 \<Rightarrow> u32 \<Rightarrow> u32 \<Rightarrow> ('e, unit) ex) \<Rightarrow> u32 \<Rightarrow> u32 \<Rightarrow> u32 \<Rightarrow> u32 \<Rightarrow> ('e, unit) ex" where
  "rmw_store store_func tmp_addr tmp clk_inc pc_inc = do {
     SET_RMW_FLAG 1;
     INC_PC pc_inc;
     store_func tmp_addr tmp clk_inc;
     SET_RMW_FLAG 0
   }"

definition ASL :: "u32 \<Rightarrow> u32 \<Rightarrow> u32 \<Rightarrow> (u32 \<Rightarrow> ('e, u32) ex) \<Rightarrow> (u32 \<Rightarrow> u32 \<Rightarrow> u32 \<Rightarrow> ('e, unit) ex) \<Rightarrow> ('e, unit) ex" where
  "ASL addr clk_inc pc_inc load_func store_func = do {
     tmp_value \<leftarrow> load_func addr;
     LOCAL_SET_CARRY (truth (tmp_value AND 0x80));
     let tmp_value = push_bit 1 tmp_value AND 0xff;
     LOCAL_SET_NZ tmp_value;
     rmw_store store_func addr tmp_value clk_inc pc_inc
   }"

definition LSR :: "u32 \<Rightarrow> u32 \<Rightarrow> u32 \<Rightarrow> (u32 \<Rightarrow> ('e, u32) ex) \<Rightarrow> (u32 \<Rightarrow> u32 \<Rightarrow> u32 \<Rightarrow> ('e, unit) ex) \<Rightarrow> ('e, unit) ex" where
  "LSR addr clk_inc pc_inc load_func store_func = do {
     tmp \<leftarrow> load_func addr;
     LOCAL_SET_CARRY (truth (tmp AND 0x01));
     let tmp = drop_bit 1 tmp;
     LOCAL_SET_NZ tmp;
     rmw_store store_func addr tmp clk_inc pc_inc
   }"

definition ROL :: "u32 \<Rightarrow> u32 \<Rightarrow> u32 \<Rightarrow> (u32 \<Rightarrow> ('e, u32) ex) \<Rightarrow> (u32 \<Rightarrow> u32 \<Rightarrow> u32 \<Rightarrow> ('e, unit) ex) \<Rightarrow> ('e, unit) ex" where
  "ROL addr clk_inc pc_inc load_func store_func = do {
     tmp \<leftarrow> load_func addr;
     c \<leftarrow> gets carry;
     let tmp = push_bit 1 tmp OR c;
     LOCAL_SET_CARRY (truth (tmp AND 0x100));
     LOCAL_SET_NZ (tmp AND 0xff);
     rmw_store store_func addr tmp clk_inc pc_inc
   }"

definition ROR :: "u32 \<Rightarrow> u32 \<Rightarrow> u32 \<Rightarrow> (u32 \<Rightarrow> ('e, u32) ex) \<Rightarrow> (u32 \<Rightarrow> u32 \<Rightarrow> u32 \<Rightarrow> ('e, unit) ex) \<Rightarrow> ('e, unit) ex" where
  "ROR addr clk_inc pc_inc load_func store_func = do {
     src \<leftarrow> load_func addr;
     c \<leftarrow> gets LOCAL_CARRY;
     let src = (if c then src OR 0x100 else src);
     LOCAL_SET_CARRY (truth (src AND 0x01));
     let src = drop_bit 1 src;
     LOCAL_SET_NZ src;
     rmw_store store_func addr src clk_inc pc_inc
   }"

definition DEC :: "u32 \<Rightarrow> u32 \<Rightarrow> u32 \<Rightarrow> (u32 \<Rightarrow> ('e, u32) ex) \<Rightarrow> (u32 \<Rightarrow> u32 \<Rightarrow> u32 \<Rightarrow> ('e, unit) ex) \<Rightarrow> ('e, unit) ex" where
  "DEC addr clk_inc pc_inc load_func store_func = do {
     tmp \<leftarrow> load_func addr;
     let tmp = (tmp - 1) AND 0xff;
     LOCAL_SET_NZ tmp;
     rmw_store store_func addr tmp clk_inc pc_inc
   }"

definition INC :: "u32 \<Rightarrow> u32 \<Rightarrow> u32 \<Rightarrow> (u32 \<Rightarrow> ('e, u32) ex) \<Rightarrow> (u32 \<Rightarrow> u32 \<Rightarrow> u32 \<Rightarrow> ('e, unit) ex) \<Rightarrow> ('e, unit) ex" where
  "INC addr clk_inc pc_inc load_func store_func = do {
     v \<leftarrow> load_func addr;
     let tmp = (v + 1) AND 0xff;
     LOCAL_SET_NZ tmp;
     rmw_store store_func addr tmp clk_inc pc_inc
   }"

text \<open>The undocumented opcodes that modify memory and combine the result with the accumulator.\<close>

type_synonym 'e rmw2 = "('e, u32) ex \<Rightarrow> u32 \<Rightarrow> u32 \<Rightarrow> u32 \<Rightarrow> (u32 \<Rightarrow> ('e, u32) ex) \<Rightarrow>
  (u32 \<Rightarrow> u32 \<Rightarrow> u32 \<Rightarrow> ('e, unit) ex) \<Rightarrow> ('e, unit) ex"

definition DCP :: "'e rmw2" where
  "DCP addr clk_inc1 clk_inc2 pc_inc load_func store_func = do {
     tmp_addr \<leftarrow> addr;
     CLK_ADD clk_inc1;
     tmp \<leftarrow> load_func tmp_addr;
     let tmp = (tmp - 1) AND 0xff;
     a \<leftarrow> A_read;
     LOCAL_SET_CARRY (a \<ge> tmp);
     LOCAL_SET_NZ (a - tmp);
     rmw_store store_func tmp_addr tmp clk_inc2 pc_inc
   }"

definition ISB :: "'e rmw2" where
  "ISB addr clk_inc1 clk_inc2 pc_inc load_func store_func = do {
     my_addr \<leftarrow> addr;
     CLK_ADD clk_inc1;
     my_src \<leftarrow> load_func my_addr;
     let my_src = (my_src + 1) AND 0xff;
     SBC (ret my_src) 0 0;
     rmw_store store_func my_addr my_src clk_inc2 pc_inc
   }"

definition RLA :: "'e rmw2" where
  "RLA addr clk_inc1 clk_inc2 pc_inc load_func store_func = do {
     tmp_addr \<leftarrow> addr;
     CLK_ADD clk_inc1;
     v \<leftarrow> load_func tmp_addr;
     c \<leftarrow> gets carry;
     let tmp = push_bit 1 v OR c;
     LOCAL_SET_CARRY (truth (tmp AND 0x100));
     a \<leftarrow> A_read;
     let tmp2 = a AND tmp;
     A_write tmp2;
     LOCAL_SET_NZ tmp2;
     rmw_store store_func tmp_addr tmp clk_inc2 pc_inc
   }"

text \<open>\<open>RRA\<close> adds between setting \<open>RMW_FLAG\<close> and the store.\<close>

definition RRA :: "'e rmw2" where
  "RRA addr clk_inc1 clk_inc2 pc_inc load_func store_func = do {
     CLK_ADD clk_inc1;
     tmp_addr \<leftarrow> addr;
     src \<leftarrow> load_func tmp_addr;
     c \<leftarrow> gets LOCAL_CARRY;
     let my_temp = drop_bit 1 src;
     let my_temp = (if c then my_temp OR 0x80 else my_temp);
     LOCAL_SET_CARRY (truth (src AND 0x1));
     SET_RMW_FLAG 1;
     INC_PC pc_inc;
     ADC (ret my_temp) 0 0;
     store_func tmp_addr my_temp clk_inc2;
     SET_RMW_FLAG 0
   }"

definition SLO :: "'e rmw2" where
  "SLO addr clk_inc1 clk_inc2 pc_inc load_func store_func = do {
     CLK_ADD clk_inc1;
     tmp_addr \<leftarrow> addr;
     tmp \<leftarrow> load_func tmp_addr;
     LOCAL_SET_CARRY (truth (tmp AND 0x80));
     let tmp = push_bit 1 tmp AND 0xff;
     a \<leftarrow> A_read;
     let tmp2 = a OR tmp;
     A_write tmp2;
     LOCAL_SET_NZ tmp2;
     rmw_store store_func tmp_addr tmp clk_inc2 pc_inc
   }"

definition SRE :: "'e rmw2" where
  "SRE addr clk_inc1 clk_inc2 pc_inc load_func store_func = do {
     CLK_ADD clk_inc1;
     tmp_addr \<leftarrow> addr;
     tmp \<leftarrow> load_func tmp_addr;
     LOCAL_SET_CARRY (truth (tmp AND 0x01));
     let tmp = drop_bit 1 tmp;
     a \<leftarrow> A_read;
     let tmp2 = a XOR tmp;
     A_write tmp2;
     LOCAL_SET_NZ tmp2;
     rmw_store store_func tmp_addr tmp clk_inc2 pc_inc
   }"

text \<open>The same at (zero page),Y: the pointer is read once, then the wrong page, then the operand.\<close>

definition ind_y_addr :: "'e machine \<Rightarrow> u32 \<Rightarrow> ('e, u32) ex" where
  "ind_y_addr m tmp_addr = do {
     y \<leftarrow> Y_read;
     LOAD m (ret ((tmp_addr AND 0xff00) OR ((tmp_addr + y) AND 0xff)));
     CLK_ADD CLK_IND_Y_RMW1;
     ret (tmp_addr + y)
   }"

definition DCP_IND_Y :: "'e machine \<Rightarrow> u32 \<Rightarrow> ('e, unit) ex" where
  "DCP_IND_Y m addr = do {
     tmp_addr \<leftarrow> LOAD_ZERO_ADDR m addr;
     CLK_ADD 2;
     tmp_addr \<leftarrow> ind_y_addr m tmp_addr;
     tmp \<leftarrow> LOAD m (ret tmp_addr);
     let tmp = (tmp - 1) AND 0xff;
     a \<leftarrow> A_read;
     LOCAL_SET_CARRY (a \<ge> tmp);
     LOCAL_SET_NZ (a - tmp);
     rmw_store (STORE_ABS m) tmp_addr tmp CLK_IND_Y_RMW2 2
   }"

definition ISB_IND_Y :: "'e machine \<Rightarrow> u32 \<Rightarrow> ('e, unit) ex" where
  "ISB_IND_Y m addr = do {
     my_addr \<leftarrow> LOAD_ZERO_ADDR m addr;
     CLK_ADD 2;
     my_addr \<leftarrow> ind_y_addr m my_addr;
     my_src \<leftarrow> LOAD m (ret my_addr);
     let my_src = (my_src + 1) AND 0xff;
     SBC (ret my_src) 0 0;
     rmw_store (STORE_ABS m) my_addr my_src CLK_IND_Y_RMW2 2
   }"

definition RLA_IND_Y :: "'e machine \<Rightarrow> u32 \<Rightarrow> ('e, unit) ex" where
  "RLA_IND_Y m addr = do {
     tmp_addr \<leftarrow> LOAD_ZERO_ADDR m addr;
     CLK_ADD 2;
     tmp_addr \<leftarrow> ind_y_addr m tmp_addr;
     v \<leftarrow> LOAD m (ret tmp_addr);
     c \<leftarrow> gets carry;
     let tmp = push_bit 1 v OR c;
     LOCAL_SET_CARRY (truth (tmp AND 0x100));
     a \<leftarrow> A_read;
     let tmp2 = a AND tmp;
     A_write tmp2;
     LOCAL_SET_NZ tmp2;
     rmw_store (STORE_ABS m) tmp_addr tmp CLK_IND_Y_RMW2 2
   }"

definition RRA_IND_Y :: "'e machine \<Rightarrow> u32 \<Rightarrow> ('e, unit) ex" where
  "RRA_IND_Y m addr = do {
     CLK_ADD 2;
     my_tmp_addr \<leftarrow> LOAD_ZERO_ADDR m addr;
     my_tmp_addr \<leftarrow> ind_y_addr m my_tmp_addr;
     src \<leftarrow> LOAD m (ret my_tmp_addr);
     SET_RMW_FLAG 1;
     INC_PC 2;
     c \<leftarrow> gets LOCAL_CARRY;
     let my_temp = drop_bit 1 src;
     let my_temp = (if c then my_temp OR 0x80 else my_temp);
     LOCAL_SET_CARRY (truth (src AND 0x1));
     ADC (ret my_temp) 0 0;
     STORE_ABS m my_tmp_addr my_temp CLK_IND_Y_RMW2;
     SET_RMW_FLAG 0
   }"

definition SLO_IND_Y :: "'e machine \<Rightarrow> u32 \<Rightarrow> ('e, unit) ex" where
  "SLO_IND_Y m addr = do {
     CLK_ADD 2;
     tmp_addr \<leftarrow> LOAD_ZERO_ADDR m addr;
     tmp_addr \<leftarrow> ind_y_addr m tmp_addr;
     tmp \<leftarrow> LOAD m (ret tmp_addr);
     LOCAL_SET_CARRY (truth (tmp AND 0x80));
     let tmp = push_bit 1 tmp AND 0xff;
     a \<leftarrow> A_read;
     let tmp2 = a OR tmp;
     A_write tmp2;
     LOCAL_SET_NZ tmp2;
     rmw_store (STORE_ABS m) tmp_addr tmp CLK_IND_Y_RMW2 2
   }"

definition SRE_IND_Y :: "'e machine \<Rightarrow> u32 \<Rightarrow> ('e, unit) ex" where
  "SRE_IND_Y m addr = do {
     tmp_addr \<leftarrow> LOAD_ZERO_ADDR m addr;
     CLK_ADD 2;
     tmp_addr \<leftarrow> ind_y_addr m tmp_addr;
     tmp \<leftarrow> LOAD m (ret tmp_addr);
     LOCAL_SET_CARRY (truth (tmp AND 0x01));
     let tmp = drop_bit 1 tmp;
     a \<leftarrow> A_read;
     let tmp2 = a XOR tmp;
     A_write tmp2;
     LOCAL_SET_NZ tmp2;
     rmw_store (STORE_ABS m) tmp_addr tmp CLK_IND_Y_RMW2 2
   }"

section \<open>Control flow\<close>

text \<open>\<open>(signed char)(value)\<close> is the sign extension of the low byte.\<close>

definition BRANCH :: "'e machine \<Rightarrow> bool \<Rightarrow> u32 \<Rightarrow> ('e, unit) ex" where
  "BRANCH m cond val = do {
     INC_PC 2;
     if cond then do {
       pc \<leftarrow> PC_read;
       let dest_addr = pc + scast (lo8 val);
       FETCH_PARAM m pc;
       CLK_ADD CLK_BRANCH2;
       pc \<leftarrow> PC_read;
       (if truth ((pc XOR dest_addr) AND 0xff00) then do {
          LOAD m (ret ((pc AND 0xff00) OR (dest_addr AND 0xff)));
          CLK_ADD CLK_BRANCH2
        } else OPCODE_DELAYS_INTERRUPT);
       JUMP m (dest_addr AND 0xffff)
     } else ret ()
   }"

text \<open>The NMI or IRQ that takes over a BRK or an interrupt in progress.\<close>

definition nmi_due :: "'e globals \<Rightarrow> bool" where
  "nmi_due g \<longleftrightarrow> truth (global_pending_int (maincpu_int_status g) AND IK_NMI) \<and>
     maincpu_clk g \<ge> nmi_clk (maincpu_int_status g) + INTERRUPT_DELAY"

definition ack_nmi :: "'e machine \<Rightarrow> ('e, unit) ex" where
  "ack_nmi m = upd_glob (\<lambda>g. let (cs, f) = interrupt_ack_nmi (maincpu_int_status g);
       g' = g\<lparr>maincpu_int_status := cs\<rparr> in case f of None \<Rightarrow> g' | Some f \<Rightarrow> call_func m f g')"

definition ack_irq :: "('e, unit) ex" where
  "ack_irq = upd_glob (\<lambda>g. g\<lparr>maincpu_int_status := interrupt_ack_irq (maincpu_int_status g)\<rparr>)"

definition monitor_step_interrupt :: "'e machine \<Rightarrow> ('e, unit) ex" where
  "monitor_step_interrupt m =
     upd_glob (\<lambda>g. if bit (monitor_mask m g) 2 then monitor_check_icount_interrupt m g else g)"

definition jump_vector :: "'e machine \<Rightarrow> u32 \<Rightarrow> ('e, unit) ex" where
  "jump_vector m vec = do { a \<leftarrow> LOAD_ADDR m vec; JUMP m a }"

definition BRK :: "'e machine \<Rightarrow> ('e, unit) ex" where
  "BRK m = do {
     EXPORT_REGISTERS;
     INC_PC 2;
     LOCAL_SET_BREAK True;
     pc \<leftarrow> PC_read;
     PUSH (drop_bit 8 pc);
     PUSH (pc AND 0xff);
     CLK_ADD (CLK_BRK - 3);
     st \<leftarrow> gets LOCAL_STATUS;
     PUSH (zx st);
     CLK_ADD 1;
     upd_glob (cpu_delay_clk m);
     PROCESS_ALARMS m;
     nmi \<leftarrow> glob nmi_due;
     cs \<leftarrow> glob maincpu_int_status;
     clk \<leftarrow> glob maincpu_clk;
     i \<leftarrow> gets LOCAL_INTERRUPT;
     (if nmi then do {
        LOCAL_SET_INTERRUPT True;
        monitor_step_interrupt m;
        ack_nmi m;
        jump_vector m 0xfffa
      } else if truth (global_pending_int cs AND (IK_IRQ OR IK_IRQPEND)) \<and> \<not> i \<and>
                irq_clk cs + INTERRUPT_DELAY \<le> clk then do {
        LOCAL_SET_INTERRUPT True;
        monitor_step_interrupt m;
        ack_irq;
        jump_vector m 0xfffe
      } else do {
        LOCAL_SET_INTERRUPT True;
        jump_vector m 0xfffe
      });
     CLK_ADD 2
   }"

definition JMP :: "'e machine \<Rightarrow> u32 \<Rightarrow> ('e, unit) ex" where
  "JMP m addr = JUMP m addr"

definition JMP_IND :: "'e machine \<Rightarrow> u32 \<Rightarrow> ('e, unit) ex" where
  "JMP_IND m p2 = do {
     lo \<leftarrow> LOAD m (ret p2);
     CLK_ADD 1;
     hi \<leftarrow> LOAD m (ret ((p2 AND 0xff00) OR ((p2 + 1) AND 0xff)));
     let dest_addr = lo OR push_bit 8 hi;
     CLK_ADD 1;
     JUMP m dest_addr
   }"

definition JSR :: "'e machine \<Rightarrow> u32 \<Rightarrow> ('e, unit) ex" where
  "JSR m p1 = do {
     CLK_ADD 1;
     INC_PC 2;
     CLK_ADD 2;
     pc \<leftarrow> PC_read;
     PUSH (drop_bit 8 pc AND 0xff);
     PUSH (pc AND 0xff);
     hi \<leftarrow> FETCH_PARAM m pc;
     let tmp_addr = p1 OR push_bit 8 hi;
     CLK_ADD CLK_JSR_INT_CYCLE;
     JUMP m tmp_addr
   }"

definition RTI :: "'e machine \<Rightarrow> ('e, unit) ex" where
  "RTI m = do {
     CLK_ADD CLK_RTI;
     st \<leftarrow> PULL;
     LOCAL_SET_STATUS (lo8 st);
     lo \<leftarrow> PULL;
     hi \<leftarrow> PULL;
     JUMP m (lo OR push_bit 8 hi)
   }"

definition RTS :: "'e machine \<Rightarrow> ('e, unit) ex" where
  "RTS m = do {
     CLK_ADD CLK_RTS;
     lo \<leftarrow> PULL;
     hi \<leftarrow> PULL;
     JUMP m (lo OR push_bit 8 hi);
     pc \<leftarrow> PC_read;
     FETCH_PARAM m pc;
     CLK_ADD CLK_INT_CYCLE;
     INC_PC 1
   }"

section \<open>Flags\<close>

definition CLC :: "('e, unit) ex" where
  "CLC = do { INC_PC 1; LOCAL_SET_CARRY False }"

definition CLD :: "('e, unit) ex" where
  "CLD = do { INC_PC 1; LOCAL_SET_DECIMAL False }"

definition CLI :: "('e, unit) ex" where
  "CLI = do {
     INC_PC 1;
     i \<leftarrow> gets LOCAL_INTERRUPT;
     (if i then OPCODE_ENABLES_IRQ else ret ());
     LOCAL_SET_INTERRUPT False
   }"

definition CLV :: "('e, unit) ex" where
  "CLV = do { INC_PC 1; LOCAL_SET_OVERFLOW False }"

definition SEC :: "('e, unit) ex" where
  "SEC = do { LOCAL_SET_CARRY True; INC_PC 1 }"

definition SED :: "('e, unit) ex" where
  "SED = do { LOCAL_SET_DECIMAL True; INC_PC 1 }"

definition SEI :: "('e, unit) ex" where
  "SEI = do {
     i \<leftarrow> gets LOCAL_INTERRUPT;
     (if \<not> i then OPCODE_DISABLES_IRQ else ret ());
     LOCAL_SET_INTERRUPT True;
     INC_PC 1
   }"

section \<open>Stack\<close>

definition PHA :: "('e, unit) ex" where
  "PHA = do { CLK_ADD CLK_STACK_PUSH; a \<leftarrow> A_read; PUSH a; INC_PC 1 }"

definition PHP :: "('e, unit) ex" where
  "PHP = do {
     CLK_ADD CLK_STACK_PUSH;
     st \<leftarrow> gets LOCAL_STATUS;
     PUSH (zx (st OR P_BREAK));
     INC_PC 1
   }"

definition PLA :: "('e, unit) ex" where
  "PLA = do {
     CLK_ADD CLK_STACK_PULL;
     tmp \<leftarrow> PULL;
     A_write tmp;
     LOCAL_SET_NZ tmp;
     INC_PC 1
   }"

definition PLP :: "('e, unit) ex" where
  "PLP = do {
     v \<leftarrow> PULL;
     let s = lo8 v;
     i \<leftarrow> gets LOCAL_INTERRUPT;
     (if \<not> truth (s AND P_INTERRUPT) \<and> i then OPCODE_ENABLES_IRQ
      else if truth (s AND P_INTERRUPT) \<and> \<not> i then OPCODE_DISABLES_IRQ
      else ret ());
     CLK_ADD CLK_STACK_PULL;
     LOCAL_SET_STATUS s;
     INC_PC 1
   }"

section \<open>Loads, increments, transfers\<close>

definition LAS :: "('e, u32) ex \<Rightarrow> u32 \<Rightarrow> u32 \<Rightarrow> ('e, unit) ex" where
  "LAS value clk_inc pc_inc = do {
     sp \<leftarrow> SP_read; v \<leftarrow> value;
     SP_write (sp AND v);
     sp \<leftarrow> SP_read;
     X_write sp;
     A_write sp;
     LOCAL_SET_NZ sp;
     CLK_ADD clk_inc;
     INC_PC pc_inc
   }"

definition LAX :: "('e, u32) ex \<Rightarrow> u32 \<Rightarrow> u32 \<Rightarrow> ('e, unit) ex" where
  "LAX value clk_inc pc_inc = do {
     v \<leftarrow> value;
     let tmp = v AND 0xff;
     X_write tmp;
     A_write tmp;
     LOCAL_SET_NZ tmp;
     CLK_ADD clk_inc;
     INC_PC pc_inc
   }"

definition LDA :: "('e, u32) ex \<Rightarrow> u32 \<Rightarrow> u32 \<Rightarrow> ('e, unit) ex" where
  "LDA value clk_inc pc_inc = do {
     v \<leftarrow> value;
     let tmp = v AND 0xff;
     A_write tmp;
     CLK_ADD clk_inc;
     LOCAL_SET_NZ tmp;
     INC_PC pc_inc
   }"

definition LDX :: "('e, u32) ex \<Rightarrow> u32 \<Rightarrow> u32 \<Rightarrow> ('e, unit) ex" where
  "LDX value clk_inc pc_inc = do {
     v \<leftarrow> value;
     X_write v;
     x \<leftarrow> X_read;
     LOCAL_SET_NZ x;
     CLK_ADD clk_inc;
     INC_PC pc_inc
   }"

definition LDY :: "('e, u32) ex \<Rightarrow> u32 \<Rightarrow> u32 \<Rightarrow> ('e, unit) ex" where
  "LDY value clk_inc pc_inc = do {
     v \<leftarrow> value;
     Y_write v;
     y \<leftarrow> Y_read;
     LOCAL_SET_NZ y;
     CLK_ADD clk_inc;
     INC_PC pc_inc
   }"

definition LXA :: "('e, u32) ex \<Rightarrow> u32 \<Rightarrow> ('e, unit) ex" where
  "LXA value pc_inc = do {
     a \<leftarrow> A_read; v \<leftarrow> value;
     let tmp = (a OR 0xee) AND (v AND 0xff);
     X_write tmp;
     A_write tmp;
     LOCAL_SET_NZ tmp;
     INC_PC pc_inc
   }"

definition DEX :: "('e, unit) ex" where
  "DEX = do { x \<leftarrow> X_read; X_write (x - 1); x \<leftarrow> X_read; LOCAL_SET_NZ x; INC_PC 1 }"

definition DEY :: "('e, unit) ex" where
  "DEY = do { y \<leftarrow> Y_read; Y_write (y - 1); y \<leftarrow> Y_read; LOCAL_SET_NZ y; INC_PC 1 }"

definition INX :: "('e, unit) ex" where
  "INX = do { x \<leftarrow> X_read; X_write (x + 1); x \<leftarrow> X_read; LOCAL_SET_NZ x; INC_PC 1 }"

definition INY :: "('e, unit) ex" where
  "INY = do { y \<leftarrow> Y_read; Y_write (y + 1); y \<leftarrow> Y_read; LOCAL_SET_NZ y; INC_PC 1 }"

definition TAX :: "('e, unit) ex" where
  "TAX = do { a \<leftarrow> A_read; X_write a; x \<leftarrow> X_read; LOCAL_SET_NZ x; INC_PC 1 }"

definition TAY :: "('e, unit) ex" where
  "TAY = do { a \<leftarrow> A_read; Y_write a; y \<leftarrow> Y_read; LOCAL_SET_NZ y; INC_PC 1 }"

definition TSX :: "('e, unit) ex" where
  "TSX = do { sp \<leftarrow> SP_read; X_write sp; sp \<leftarrow> SP_read; LOCAL_SET_NZ sp; INC_PC 1 }"

definition TXA :: "('e, unit) ex" where
  "TXA = do { x \<leftarrow> X_read; A_write x; x \<leftarrow> X_read; LOCAL_SET_NZ x; INC_PC 1 }"

definition TXS :: "('e, unit) ex" where
  "TXS = do { x \<leftarrow> X_read; SP_write x; INC_PC 1 }"

definition TYA :: "('e, unit) ex" where
  "TYA = do { y \<leftarrow> Y_read; A_write y; y \<leftarrow> Y_read; LOCAL_SET_NZ y; INC_PC 1 }"

definition NOOP :: "u32 \<Rightarrow> u32 \<Rightarrow> ('e, unit) ex" where
  "NOOP clk_inc pc_inc = do { CLK_ADD clk_inc; INC_PC pc_inc }"

definition NOOP_IMM :: "u32 \<Rightarrow> ('e, unit) ex" where
  "NOOP_IMM pc_inc = INC_PC pc_inc"

definition NOOP_ABS :: "'e machine \<Rightarrow> u32 \<Rightarrow> ('e, unit) ex" where
  "NOOP_ABS m p2 = do { LOAD m (ret p2); CLK_ADD 1; INC_PC 3 }"

definition NOOP_ABS_X :: "'e machine \<Rightarrow> u32 \<Rightarrow> ('e, unit) ex" where
  "NOOP_ABS_X m p2 = do { LOAD_ABS_X m p2; CLK_ADD 1; INC_PC 3 }"

definition NOP :: "('e, unit) ex" where
  "NOP = NOOP_IMM 1"

section \<open>Stores\<close>

definition SAX :: "'e machine \<Rightarrow> ('e, u32) ex \<Rightarrow> u32 \<Rightarrow> u32 \<Rightarrow> u32 \<Rightarrow> ('e, unit) ex" where
  "SAX m addr clk_inc1 clk_inc2 pc_inc = do {
     CLK_ADD clk_inc1;
     tmp \<leftarrow> addr;
     CLK_ADD clk_inc2;
     INC_PC pc_inc;
     a \<leftarrow> A_read; x \<leftarrow> X_read;
     STORE m tmp (a AND x)
   }"

definition SAX_ZERO :: "'e machine \<Rightarrow> u32 \<Rightarrow> u32 \<Rightarrow> u32 \<Rightarrow> ('e, unit) ex" where
  "SAX_ZERO m addr clk_inc pc_inc = do {
     CLK_ADD clk_inc;
     a \<leftarrow> A_read; x \<leftarrow> X_read;
     STORE_ZERO m addr (a AND x);
     INC_PC pc_inc
   }"

definition SHA_ABS_Y :: "'e machine \<Rightarrow> u32 \<Rightarrow> ('e, unit) ex" where
  "SHA_ABS_Y m tmp = do {
     INC_PC 3;
     a \<leftarrow> A_read; x \<leftarrow> X_read;
     STORE_ABS_SH_Y m tmp (a AND x AND (drop_bit 8 tmp + 1)) CLK_ABS_I_STORE2
   }"

definition SHA_IND_Y :: "'e machine \<Rightarrow> u32 \<Rightarrow> ('e, unit) ex" where
  "SHA_IND_Y m addr = do {
     CLK_ADD 2;
     tmp \<leftarrow> LOAD_ZERO_ADDR m addr;
     y \<leftarrow> Y_read;
     LOAD m (ret ((tmp AND 0xff00) OR ((tmp + y) AND 0xff)));
     CLK_ADD CLK_IND_Y_W;
     a \<leftarrow> A_read; x \<leftarrow> X_read;
     let val = a AND x AND (drop_bit 8 tmp + 1) AND 0xff;
     let tmp = (if (tmp AND 0xff) + y > 0xff then ((tmp + y) AND 0xff) OR push_bit 8 val
                else tmp + y);
     INC_PC 2;
     STORE m tmp val
   }"

definition SHX_ABS_Y :: "'e machine \<Rightarrow> u32 \<Rightarrow> ('e, unit) ex" where
  "SHX_ABS_Y m tmp = do {
     INC_PC 3;
     x \<leftarrow> X_read;
     STORE_ABS_SH_Y m tmp (x AND (drop_bit 8 tmp + 1)) CLK_ABS_I_STORE2
   }"

definition SHY_ABS_X :: "'e machine \<Rightarrow> u32 \<Rightarrow> ('e, unit) ex" where
  "SHY_ABS_X m tmp = do {
     INC_PC 3;
     y \<leftarrow> Y_read;
     STORE_ABS_SH_X m tmp (y AND (drop_bit 8 tmp + 1)) CLK_ABS_I_STORE2
   }"

definition SHS_ABS_Y :: "'e machine \<Rightarrow> u32 \<Rightarrow> ('e, unit) ex" where
  "SHS_ABS_Y m tmp = do {
     INC_PC 3;
     a \<leftarrow> A_read; x \<leftarrow> X_read;
     STORE_ABS_SH_Y m tmp (a AND x AND (drop_bit 8 tmp + 1)) CLK_ABS_I_STORE2;
     SP_write (a AND x)
   }"

definition STA :: "('e, u32) ex \<Rightarrow> u32 \<Rightarrow> u32 \<Rightarrow> u32 \<Rightarrow> (u32 \<Rightarrow> u32 \<Rightarrow> u32 \<Rightarrow> ('e, unit) ex) \<Rightarrow> ('e, unit) ex" where
  "STA addr clk_inc1 clk_inc2 pc_inc store_func = do {
     CLK_ADD clk_inc1;
     tmp \<leftarrow> addr;
     INC_PC pc_inc;
     a \<leftarrow> A_read;
     store_func tmp a clk_inc2
   }"

definition STA_ZERO :: "'e machine \<Rightarrow> u32 \<Rightarrow> u32 \<Rightarrow> u32 \<Rightarrow> ('e, unit) ex" where
  "STA_ZERO m addr clk_inc pc_inc = do {
     CLK_ADD clk_inc; a \<leftarrow> A_read; STORE_ZERO m addr a; INC_PC pc_inc
   }"

definition STA_IND_Y :: "'e machine \<Rightarrow> u32 \<Rightarrow> ('e, unit) ex" where
  "STA_IND_Y m addr = do {
     CLK_ADD 2;
     tmp \<leftarrow> LOAD_ZERO_ADDR m addr;
     y \<leftarrow> Y_read;
     LOAD_IND m (ret ((tmp AND 0xff00) OR ((tmp + y) AND 0xff)));
     CLK_ADD CLK_IND_Y_W;
     INC_PC 2;
     a \<leftarrow> A_read;
     STORE_IND m (tmp + y) a
   }"

definition STX :: "'e machine \<Rightarrow> u32 \<Rightarrow> u32 \<Rightarrow> u32 \<Rightarrow> ('e, unit) ex" where
  "STX m tmp clk_inc pc_inc = do {
     CLK_ADD clk_inc; INC_PC pc_inc; x \<leftarrow> X_read; STORE m tmp x
   }"

definition STX_ZERO :: "'e machine \<Rightarrow> u32 \<Rightarrow> u32 \<Rightarrow> u32 \<Rightarrow> ('e, unit) ex" where
  "STX_ZERO m addr clk_inc pc_inc = do {
     CLK_ADD clk_inc; x \<leftarrow> X_read; STORE_ZERO m addr x; INC_PC pc_inc
   }"

definition STY :: "'e machine \<Rightarrow> u32 \<Rightarrow> u32 \<Rightarrow> u32 \<Rightarrow> ('e, unit) ex" where
  "STY m tmp clk_inc pc_inc = do {
     CLK_ADD clk_inc; INC_PC pc_inc; y \<leftarrow> Y_read; STORE m tmp y
   }"

definition STY_ZERO :: "'e machine \<Rightarrow> u32 \<Rightarrow> u32 \<Rightarrow> u32 \<Rightarrow> ('e, unit) ex" where
  "STY_ZERO m addr clk_inc pc_inc = do {
     CLK_ADD clk_inc; y \<leftarrow> Y_read; STORE_ZERO m addr y; INC_PC pc_inc
   }"

end
