(* ===== verification/CpuExec.thy ===== *)
theory CpuExec
  imports CpuOps
begin

text \<open>
  One turn of the main loop of maincpu.c: alarms, pending interrupts (the \<open>DO_INTERRUPT\<close> macro),
  the opcode fetch and the opcode switch of 6510core.c. The opcode is the 32-bit word of the
  little-endian variant; the byte-wise variant is \<open>FETCH_OPCODE_struct\<close>. The switch is cut into sixteen
  definitions by the high digit of the opcode; \<open>goto trap_skipped\<close> is the recursion of \<open>execute\<close>.
\<close>

section \<open>Tables\<close>

definition fetch_tab :: "u8 list" where
  "fetch_tab =
    [0, 0, 0, 0, 0, 0, 0, 0, 0, 0, 0, 0, 1, 1, 1, 1,
     0, 0, 0, 0, 0, 0, 0, 0, 0, 1, 0, 1, 1, 1, 1, 1,
     0, 0, 0, 0, 0, 0, 0, 0, 0, 0, 0, 0, 1, 1, 1, 1,
     0, 0, 0, 0, 0, 0, 0, 0, 0, 1, 0, 1, 1, 1, 1, 1,
     0, 0, 0, 0, 0, 0, 0, 0, 0, 0, 0, 0, 1, 1, 1, 1,
     0, 0, 0, 0, 0, 0, 0, 0, 0, 1, 0, 1, 1, 1, 1, 1,
     0, 0, 0, 0, 0, 0, 0, 0, 0, 0, 0, 0, 1, 1, 1, 1,
     0, 0, 0, 0, 0, 0, 0, 0, 0, 1, 0, 1, 1, 1, 1, 1,
     0, 0, 0, 0, 0, 0, 0, 0, 0, 0, 0, 0, 1, 1, 1, 1,
     0, 0, 0, 0, 0, 0, 0, 0, 0, 1, 0, 1, 1, 1, 1, 1,
     0, 0, 0, 0, 0, 0, 0, 0, 0, 0, 0, 0, 1, 1, 1, 1,
     0, 0, 0, 0, 0, 0, 0, 0, 0, 1, 0, 1, 1, 1, 1, 1,
     0, 0, 0, 0, 0, 0, 0, 0, 0, 0, 0, 0, 1, 1, 1, 1,
     0, 0, 0, 0, 0, 0, 0, 0, 0, 1, 0, 1, 1, 1, 1, 1,
     0, 0, 0, 0, 0, 0, 0, 0, 0, 0, 0, 0, 1, 1, 1, 1,
     0, 0, 0, 0, 0, 0, 0, 0, 0, 1, 0, 1, 1, 1, 1, 1]"

definition maincpu_opcode_write_cycles :: "clock list" where
  "maincpu_opcode_write_cycles =
    [3, 0, 0, 2, 0, 0, 2, 2, 1, 0, 0, 0, 0, 0, 2, 2,
     0, 0, 0, 2, 0, 0, 2, 2, 0, 0, 0, 2, 0, 0, 2, 2,
     2, 0, 0, 2, 0, 0, 2, 2, 0, 0, 0, 0, 0, 0, 2, 2,
     0, 0, 0, 2, 0, 0, 2, 2, 0, 0, 0, 2, 0, 0, 2, 2,
     0, 0, 0, 2, 0, 0, 2, 2, 1, 0, 0, 0, 0, 0, 2, 2,
     0, 0, 0, 2, 0, 0, 2, 2, 0, 0, 0, 2, 0, 0, 2, 2,
     0, 0, 0, 2, 0, 0, 2, 2, 0, 0, 0, 0, 0, 0, 2, 2,
     0, 0, 0, 2, 0, 0, 2, 2, 0, 0, 0, 2, 0, 0, 2, 2,
     0, 1, 0, 1, 1, 1, 1, 1, 0, 0, 0, 0, 1, 1, 1, 1,
     0, 1, 0, 1, 1, 1, 1, 1, 0, 1, 0, 1, 1, 1, 1, 1,
     0, 0, 0, 0, 0, 0, 0, 0, 0, 0, 0, 0, 0, 0, 0, 0,
     0, 0, 0, 0, 0, 0, 0, 0, 0, 0, 0, 0, 0, 0, 0, 0,
     0, 0, 0, 2, 0, 0, 2, 2, 0, 0, 0, 0, 0, 0, 2, 2,
     0, 0, 0, 2, 0, 0, 2, 2, 0, 0, 0, 2, 0, 0, 2, 2,
     0, 0, 0, 2, 0, 0, 2, 2, 0, 0, 0, 0, 0, 0, 2, 2,
     0, 0, 0, 2, 0, 0, 2, 2, 0, 0, 0, 2, 0, 0, 2, 2]"

text \<open>The index is \<open>OPINFO_NUMBER\<close>, below 256.\<close>

definition maincpu_num_write_cycles :: "'e globals \<Rightarrow> clock" where
  "maincpu_num_write_cycles g =
     maincpu_opcode_write_cycles ! unat (OPINFO_NUMBER (last_opcode_info g))"

section \<open>Opcode fetch\<close>

definition p0_of :: "u32 \<Rightarrow> u32" where "p0_of opcode = opcode AND 0xff"
definition p1_of :: "u32 \<Rightarrow> u32" where "p1_of opcode = drop_bit 8 opcode AND 0xff"
definition p2_of :: "u32 \<Rightarrow> u32" where "p2_of opcode = drop_bit 8 opcode"

definition LOAD_PC :: "'e machine \<Rightarrow> u32 \<Rightarrow> ('e, u32) ex" where
  "LOAD_PC m k = do { pc \<leftarrow> PC_read; LOAD m (ret (pc + k)) }"

definition FETCH_OPCODE :: "'e machine \<Rightarrow> ('e, u32) ex" where
  "FETCH_OPCODE m = do {
     g \<leftarrow> glob id;
     let pc = reg_pc g;
     if sint pc < bank_limit g then do {
       let byte = (\<lambda>k. zx (bank_byte m g (bank_base g) (pc + k)));
       let op32 = byte 0 OR push_bit 8 (byte 1) OR push_bit 16 (byte 2);
       CLK_ADD 2;
       (if truth (fetch_tab ! unat (op32 AND 0xff)) then CLK_ADD 1 else ret ());
       ret op32
     } else do {
       b0 \<leftarrow> LOAD_PC m 0;
       CLK_ADD 1;
       b1 \<leftarrow> LOAD_PC m 1;
       let op32 = b0 OR push_bit 8 b1;
       CLK_ADD 1;
       if truth (fetch_tab ! unat (op32 AND 0xff)) then do {
         b2 \<leftarrow> LOAD_PC m 2;
         CLK_ADD 1;
         ret (op32 OR push_bit 16 b2)
       } else ret op32
     }
   }"

text \<open>The variant for big-endian hosts and hosts without unaligned access: (ins, op16).\<close>

definition FETCH_OPCODE_struct :: "'e machine \<Rightarrow> ('e, u8 \<times> u16) ex" where
  "FETCH_OPCODE_struct m = do {
     g \<leftarrow> glob id;
     let pc = reg_pc g;
     if sint pc < bank_limit g then do {
       let ins = bank_byte m g (bank_base g) pc;
       let op16 = (ucast (zx (bank_byte m g (bank_base g) (pc + 1)) OR
                          push_bit 8 (zx (bank_byte m g (bank_base g) (pc + 2)))) :: u16);
       CLK_ADD 2;
       (if truth (fetch_tab ! unat ins) then CLK_ADD 1 else ret ());
       ret (ins, op16)
     } else do {
       b0 \<leftarrow> LOAD_PC m 0;
       let ins = lo8 b0;
       CLK_ADD 1;
       b1 \<leftarrow> LOAD_PC m 1;
       let op16 = (ucast b1 :: u16);
       CLK_ADD 1;
       if truth (fetch_tab ! unat ins) then do {
         b2 \<leftarrow> LOAD_PC m 2;
         CLK_ADD 1;
         ret (ins, op16 OR ucast (push_bit 8 b2))
       } else ret (ins, op16)
     }
   }"

text \<open>\<open>SET_OPCODE\<close> of the two variants.\<close>

definition SET_OPCODE :: "u32 \<Rightarrow> u32" where
  "SET_OPCODE op32 = op32"

definition SET_OPCODE_struct :: "u32 \<Rightarrow> u8 \<times> u16" where
  "SET_OPCODE_struct op32 = (lo8 (op32 AND 0xff),
     ucast (drop_bit 8 op32 AND 0xff) OR push_bit 8 (ucast (drop_bit 16 op32 AND 0xff)))"

section \<open>Interrupts, traps, reset\<close>

definition cpu_reset :: "'e machine \<Rightarrow> ('e, unit) ex" where
  "cpu_reset m = upd_glob (\<lambda>g.
     let preserve_monitor = global_pending_int (maincpu_int_status g) AND IK_MONITOR;
         cs = interrupt_cpu_status_reset (maincpu_int_status g);
         cs' = (if truth preserve_monitor then interrupt_monitor_trap_on cs else cs)
     in machine_reset m (g\<lparr>maincpu_int_status := cs', maincpu_clk := 6\<rparr>))"

text \<open>
  The conditions of the IRQ and NMI branch, with the short-circuits of C: the IRQ check, which may mark
  the request pending, is only made when the NMI is not taken and the I flag (or the opcode that
  has just set it) allows it.
\<close>

definition check_interrupt :: "u32 \<Rightarrow> ('e, bool) ex" where
  "check_interrupt ik = do {
     g \<leftarrow> glob id;
     i \<leftarrow> gets LOCAL_INTERRUPT;
     let info = last_opcode_info g;
     if truth (ik AND IK_NMI) \<and>
        interrupt_check_nmi_delay info (maincpu_int_status g) (maincpu_clk g) then ret True
     else if truth (ik AND (IK_IRQ OR IK_IRQPEND)) \<and> (\<not> i \<or> truth (OPINFO_DISABLES_IRQ info)) then
       ext_call (\<lambda>g. let (b, cs) = interrupt_check_irq_delay info (maincpu_int_status g) (maincpu_clk g)
                     in (b, g\<lparr>maincpu_int_status := cs\<rparr>))
     else ret False
   }"

text \<open>The service of an IRQ or NMI: the part of \<open>DO_INTERRUPT\<close> under these conditions.\<close>

definition serve_interrupt :: "'e machine \<Rightarrow> ('e, unit) ex" where
  "serve_interrupt m = do {
     monitor_step_interrupt m;
     (if NMI_CYCLES = 7 then do {
        pc \<leftarrow> PC_read; FETCH_PARAM m pc; CLK_ADD 1;
        pc \<leftarrow> PC_read; FETCH_PARAM m pc; CLK_ADD 1
      } else ret ());
     LOCAL_SET_BREAK False;
     pc \<leftarrow> PC_read;
     PUSH (drop_bit 8 pc);
     PUSH (pc AND 0xff);
     CLK_ADD 2;
     st \<leftarrow> gets LOCAL_STATUS;
     PUSH (zx st);
     CLK_ADD 1;
     LOCAL_SET_INTERRUPT True;
     upd_glob (cpu_delay_clk m);
     PROCESS_ALARMS m;
     nmi \<leftarrow> glob nmi_due;
     (if nmi then do { ack_nmi m; jump_vector m 0xfffa }
      else do { ack_irq; jump_vector m 0xfffe });
     SET_LAST_OPCODE 0;
     CLK_ADD 2
   }"

definition do_trap :: "'e machine \<Rightarrow> ('e, unit) ex" where
  "do_trap m = do {
     EXPORT_REGISTERS;
     upd_glob (\<lambda>g. case interrupt_do_trap (maincpu_int_status g) (ucast (reg_pc g)) of
         None \<Rightarrow> g\<lparr>fault := True\<rparr>
       | Some (cs, f, a, d) \<Rightarrow> call_trap m f a d (g\<lparr>maincpu_int_status := cs\<rparr>));
     IMPORT_REGISTERS m
   }"

definition do_reset :: "'e machine \<Rightarrow> ('e, unit) ex" where
  "do_reset m = do {
     upd_glob (\<lambda>g. let (cs, f) = interrupt_ack_reset (maincpu_int_status g);
                       g' = g\<lparr>maincpu_int_status := cs\<rparr>
                   in case f of None \<Rightarrow> g' | Some f \<Rightarrow> call_func m f g');
     cpu_reset m;
     upd_glob (\<lambda>g. g\<lparr>bank_start := 0, bank_limit := 0\<rparr>);
     jump_vector m 0xfffc
   }"

definition do_monitor :: "'e machine \<Rightarrow> ('e, unit) ex" where
  "do_monitor m = do {
     imp \<leftarrow> ext_call (monitor_force_import m);
     (if imp then IMPORT_REGISTERS m else ret ());
     mask \<leftarrow> glob (monitor_mask m);
     (if truth mask then EXPORT_REGISTERS else ret ());
     mask \<leftarrow> glob (monitor_mask m);
     (if bit mask 2 then do {
        upd_glob (\<lambda>g. monitor_check_icount m g (ucast (reg_pc g)));
        IMPORT_REGISTERS m
      } else ret ());
     mask \<leftarrow> glob (monitor_mask m);
     (if bit mask 0 then do {
        hit \<leftarrow> ext_call (\<lambda>g. monitor_check_breakpoints m g (ucast (reg_pc g)));
        (if hit then do { upd_glob (monitor_startup m); IMPORT_REGISTERS m } else ret ())
      } else ret ());
     mask \<leftarrow> glob (monitor_mask m);
     (if bit mask 1 then do {
        upd_glob (\<lambda>g. monitor_check_watchpoints m g (last_opcode_addr g) (ucast (reg_pc g)));
        IMPORT_REGISTERS m
      } else ret ())
   }"

definition do_dma :: "'e machine \<Rightarrow> ('e, unit) ex" where
  "do_dma m = do {
     EXPORT_REGISTERS;
     upd_glob (dma_func m);
     upd_glob (\<lambda>g. g\<lparr>maincpu_int_status := interrupt_ack_dma (maincpu_int_status g)\<rparr>);
     IMPORT_REGISTERS m
   }"

definition DO_INTERRUPT :: "'e machine \<Rightarrow> u32 \<Rightarrow> ('e, unit) ex" where
  "DO_INTERRUPT m int_kind = do {
     let ik = int_kind AND 0xff;
     (if truth (ik AND (IK_IRQ OR IK_IRQPEND OR IK_NMI)) then do {
        take_it \<leftarrow> check_interrupt ik;
        (if take_it then serve_interrupt m else ret ())
      } else ret ());
     ik \<leftarrow> (if truth (ik AND (IK_TRAP OR IK_RESET)) then do {
        ik \<leftarrow> (if truth (ik AND IK_TRAP) then do {
            do_trap m;
            cs \<leftarrow> glob maincpu_int_status;
            ret (if truth (global_pending_int cs AND IK_RESET) then ik OR IK_RESET else ik)
          } else ret ik);
        (if truth (ik AND IK_RESET) then do_reset m else ret ());
        ret ik
      } else ret ik);
     (if truth (ik AND (IK_MONITOR OR IK_DMA)) then do {
        (if truth (ik AND IK_MONITOR) then do_monitor m else ret ());
        (if truth (ik AND IK_DMA) then do_dma m else ret ())
      } else ret ())
   }"

definition JAM_RESET :: u32 where "JAM_RESET = 1"
definition JAM_HARD_RESET :: u32 where "JAM_HARD_RESET = 2"
definition JAM_MONITOR :: u32 where "JAM_MONITOR = 3"

definition JAM :: "'e machine \<Rightarrow> ('e, unit) ex" where
  "JAM m = do {
     EXPORT_REGISTERS;
     pc \<leftarrow> PC_read;
     tmp \<leftarrow> ext_call (\<lambda>g. machine_jam m g pc);
     if tmp = JAM_RESET then DO_INTERRUPT m IK_RESET
     else if tmp = JAM_HARD_RESET then do { upd_glob (mem_powerup m); DO_INTERRUPT m IK_RESET }
     else if tmp = JAM_MONITOR then do { upd_glob (monitor_startup m); IMPORT_REGISTERS m }
     else CLK_ADD 1
   }"

text \<open>
  Opcode $02 in a patched ROM calls the trap handler: -1 means a real JAM, 0 that the trap is done, any
  other value is the opcode to execute instead (\<open>goto trap_skipped\<close>).
\<close>

definition JAM_02 :: "'e machine \<Rightarrow> ('e, u32 option) ex" where
  "JAM_02 m = do {
     EXPORT_REGISTERS;
     allowed \<leftarrow> glob (\<lambda>g. mem_rom_trap_allowed m g (ucast (reg_pc g)));
     if \<not> allowed then do { REWIND_FETCH_OPCODE; JAM m; ret None }
     else do {
       trap_result \<leftarrow> ext_call (traps_handler m);
       if trap_result = - 1 then do { REWIND_FETCH_OPCODE; JAM m; ret None }
       else if trap_result \<noteq> 0 then do {
         REWIND_FETCH_OPCODE;
         IMPORT_REGISTERS m;
         ret (Some (SET_OPCODE trap_result))
       } else do { IMPORT_REGISTERS m; ret None }
     }
   }"

section \<open>The opcode switch\<close>

definition opcode_0x :: "'e machine \<Rightarrow> u32 \<Rightarrow> u32 \<Rightarrow> u32 \<Rightarrow> ('e, unit) ex" where
  "opcode_0x m p0 p1 p2 =
    (if p0 = 0x00 then BRK m
    else if p0 = 0x01 then ORA (LOAD_IND_X m p1) 1 2
    else if p0 = 0x03 then SLO (do { x \<leftarrow> X_read; LOAD_ZERO_ADDR m (p1 + x) }) 3 CLK_IND_X_RMW 2 (LOAD_ABS m) (STORE_ABS m)
    else if p0 = 0x04 then NOOP 1 2
    else if p0 = 0x05 then ORA (LOAD_ZERO m p1) 1 2
    else if p0 = 0x06 then ASL p1 CLK_ZERO_RMW 2 (LOAD_ZERO m) (STORE_ABS m)
    else if p0 = 0x07 then SLO (ret p1) 0 CLK_ZERO_RMW 2 (LOAD_ZERO m) (STORE_ABS m)
    else if p0 = 0x08 then PHP
    else if p0 = 0x09 then ORA (ret p1) 0 2
    else if p0 = 0x0a then ASL_A
    else if p0 = 0x0b then ANC (ret p1) 2
    else if p0 = 0x0c then NOOP_ABS m p2
    else if p0 = 0x0d then ORA (LOAD m (ret p2)) 1 3
    else if p0 = 0x0e then ASL p2 CLK_ABS_RMW2 3 (LOAD_ABS m) (STORE_ABS m)
    else if p0 = 0x0f then SLO (ret p2) 0 CLK_ABS_RMW2 3 (LOAD_ABS m) (STORE_ABS m)
    else ret ())"

definition opcode_1x :: "'e machine \<Rightarrow> u32 \<Rightarrow> u32 \<Rightarrow> u32 \<Rightarrow> ('e, unit) ex" where
  "opcode_1x m p0 p1 p2 =
    (if p0 = 0x10 then do { c \<leftarrow> gets LOCAL_SIGN; BRANCH m (\<not> c) p1 }
    else if p0 = 0x11 then ORA (LOAD_IND_Y m p1) 1 2
    else if p0 = 0x12 then do { REWIND_FETCH_OPCODE; JAM m }
    else if p0 = 0x13 then SLO_IND_Y m p1
    else if p0 = 0x14 then NOOP CLK_NOOP_ZERO_X 2
    else if p0 = 0x15 then ORA (LOAD_ZERO_X m p1) CLK_ZERO_I2 2
    else if p0 = 0x16 then do { x \<leftarrow> X_read; ASL ((p1 + x) AND 0xff) CLK_ZERO_I_RMW 2 (LOAD_ZERO m) (STORE_ABS m) }
    else if p0 = 0x17 then SLO (do { x \<leftarrow> X_read; ret ((p1 + x) AND 0xff) }) 0 CLK_ZERO_I_RMW 2 (LOAD_ZERO m) (STORE_ABS m)
    else if p0 = 0x18 then CLC
    else if p0 = 0x19 then ORA (LOAD_ABS_Y m p2) 1 3
    else if p0 = 0x1a then NOOP_IMM 1
    else if p0 = 0x1b then SLO (ret p2) 0 CLK_ABS_I_RMW2 3 (LOAD_ABS_Y_RMW m) (STORE_ABS_Y_RMW m)
    else if p0 = 0x1c then NOOP_ABS_X m p2
    else if p0 = 0x1d then ORA (LOAD_ABS_X m p2) 1 3
    else if p0 = 0x1e then ASL p2 CLK_ABS_I_RMW2 3 (LOAD_ABS_X_RMW m) (STORE_ABS_X_RMW m)
    else if p0 = 0x1f then SLO (ret p2) 0 CLK_ABS_I_RMW2 3 (LOAD_ABS_X_RMW m) (STORE_ABS_X_RMW m)
    else ret ())"

definition opcode_2x :: "'e machine \<Rightarrow> u32 \<Rightarrow> u32 \<Rightarrow> u32 \<Rightarrow> ('e, unit) ex" where
  "opcode_2x m p0 p1 p2 =
    (if p0 = 0x20 then JSR m p1
    else if p0 = 0x21 then AND_op (LOAD_IND_X m p1) 1 2
    else if p0 = 0x22 then do { REWIND_FETCH_OPCODE; JAM m }
    else if p0 = 0x23 then RLA (do { x \<leftarrow> X_read; LOAD_ZERO_ADDR m (p1 + x) }) 3 CLK_IND_X_RMW 2 (LOAD_ABS m) (STORE_ABS m)
    else if p0 = 0x24 then BIT (LOAD_ZERO m p1) 2
    else if p0 = 0x25 then AND_op (LOAD_ZERO m p1) 1 2
    else if p0 = 0x26 then ROL p1 CLK_ZERO_RMW 2 (LOAD_ZERO m) (STORE_ABS m)
    else if p0 = 0x27 then RLA (ret p1) 0 CLK_ZERO_RMW 2 (LOAD_ZERO m) (STORE_ABS m)
    else if p0 = 0x28 then PLP
    else if p0 = 0x29 then AND_op (ret p1) 0 2
    else if p0 = 0x2a then ROL_A
    else if p0 = 0x2b then ANC (ret p1) 2
    else if p0 = 0x2c then BIT (LOAD m (ret p2)) 3
    else if p0 = 0x2d then AND_op (LOAD m (ret p2)) 1 3
    else if p0 = 0x2e then ROL p2 CLK_ABS_RMW2 3 (LOAD_ABS m) (STORE_ABS m)
    else if p0 = 0x2f then RLA (ret p2) 0 CLK_ABS_RMW2 3 (LOAD_ABS m) (STORE_ABS m)
    else ret ())"

definition opcode_3x :: "'e machine \<Rightarrow> u32 \<Rightarrow> u32 \<Rightarrow> u32 \<Rightarrow> ('e, unit) ex" where
  "opcode_3x m p0 p1 p2 =
    (if p0 = 0x30 then do { c \<leftarrow> gets LOCAL_SIGN; BRANCH m c p1 }
    else if p0 = 0x31 then AND_op (LOAD_IND_Y m p1) 1 2
    else if p0 = 0x32 then do { REWIND_FETCH_OPCODE; JAM m }
    else if p0 = 0x33 then RLA_IND_Y m p1
    else if p0 = 0x34 then NOOP CLK_NOOP_ZERO_X 2
    else if p0 = 0x35 then AND_op (LOAD_ZERO_X m p1) CLK_ZERO_I2 2
    else if p0 = 0x36 then do { x \<leftarrow> X_read; ROL ((p1 + x) AND 0xff) CLK_ZERO_I_RMW 2 (LOAD_ZERO m) (STORE_ABS m) }
    else if p0 = 0x37 then RLA (do { x \<leftarrow> X_read; ret ((p1 + x) AND 0xff) }) 0 CLK_ZERO_I_RMW 2 (LOAD_ZERO m) (STORE_ABS m)
    else if p0 = 0x38 then SEC
    else if p0 = 0x39 then AND_op (LOAD_ABS_Y m p2) 1 3
    else if p0 = 0x3a then NOOP_IMM 1
    else if p0 = 0x3b then RLA (ret p2) 0 CLK_ABS_I_RMW2 3 (LOAD_ABS_Y_RMW m) (STORE_ABS_Y_RMW m)
    else if p0 = 0x3c then NOOP_ABS_X m p2
    else if p0 = 0x3d then AND_op (LOAD_ABS_X m p2) 1 3
    else if p0 = 0x3e then ROL p2 CLK_ABS_I_RMW2 3 (LOAD_ABS_X_RMW m) (STORE_ABS_X_RMW m)
    else if p0 = 0x3f then RLA (ret p2) 0 CLK_ABS_I_RMW2 3 (LOAD_ABS_X_RMW m) (STORE_ABS_X_RMW m)
    else ret ())"

definition opcode_4x :: "'e machine \<Rightarrow> u32 \<Rightarrow> u32 \<Rightarrow> u32 \<Rightarrow> ('e, unit) ex" where
  "opcode_4x m p0 p1 p2 =
    (if p0 = 0x40 then RTI m
    else if p0 = 0x41 then EOR (LOAD_IND_X m p1) 1 2
    else if p0 = 0x42 then do { REWIND_FETCH_OPCODE; JAM m }
    else if p0 = 0x43 then SRE (do { x \<leftarrow> X_read; LOAD_ZERO_ADDR m (p1 + x) }) 3 CLK_IND_X_RMW 2 (LOAD_ABS m) (STORE_ABS m)
    else if p0 = 0x44 then NOOP 1 2
    else if p0 = 0x45 then EOR (LOAD_ZERO m p1) 1 2
    else if p0 = 0x46 then LSR p1 CLK_ZERO_RMW 2 (LOAD_ZERO m) (STORE_ABS m)
    else if p0 = 0x47 then SRE (ret p1) 0 CLK_ZERO_RMW 2 (LOAD_ZERO m) (STORE_ABS m)
    else if p0 = 0x48 then PHA
    else if p0 = 0x49 then EOR (ret p1) 0 2
    else if p0 = 0x4a then LSR_A
    else if p0 = 0x4b then ASR (ret p1) 2
    else if p0 = 0x4c then JMP m p2
    else if p0 = 0x4d then EOR (LOAD m (ret p2)) 1 3
    else if p0 = 0x4e then LSR p2 CLK_ABS_RMW2 3 (LOAD_ABS m) (STORE_ABS m)
    else if p0 = 0x4f then SRE (ret p2) 0 CLK_ABS_RMW2 3 (LOAD_ABS m) (STORE_ABS m)
    else ret ())"

definition opcode_5x :: "'e machine \<Rightarrow> u32 \<Rightarrow> u32 \<Rightarrow> u32 \<Rightarrow> ('e, unit) ex" where
  "opcode_5x m p0 p1 p2 =
    (if p0 = 0x50 then do { c \<leftarrow> gets LOCAL_OVERFLOW; BRANCH m (\<not> c) p1 }
    else if p0 = 0x51 then EOR (LOAD_IND_Y m p1) 1 2
    else if p0 = 0x52 then do { REWIND_FETCH_OPCODE; JAM m }
    else if p0 = 0x53 then SRE_IND_Y m p1
    else if p0 = 0x54 then NOOP CLK_NOOP_ZERO_X 2
    else if p0 = 0x55 then EOR (LOAD_ZERO_X m p1) CLK_ZERO_I2 2
    else if p0 = 0x56 then do { x \<leftarrow> X_read; LSR ((p1 + x) AND 0xff) CLK_ZERO_I_RMW 2 (LOAD_ZERO m) (STORE_ABS m) }
    else if p0 = 0x57 then SRE (do { x \<leftarrow> X_read; ret ((p1 + x) AND 0xff) }) 0 CLK_ZERO_I_RMW 2 (LOAD_ZERO m) (STORE_ABS m)
    else if p0 = 0x58 then CLI
    else if p0 = 0x59 then EOR (LOAD_ABS_Y m p2) 1 3
    else if p0 = 0x5a then NOOP_IMM 1
    else if p0 = 0x5b then SRE (ret p2) 0 CLK_ABS_I_RMW2 3 (LOAD_ABS_Y_RMW m) (STORE_ABS_Y_RMW m)
    else if p0 = 0x5c then NOOP_ABS_X m p2
    else if p0 = 0x5d then EOR (LOAD_ABS_X m p2) 1 3
    else if p0 = 0x5e then LSR p2 CLK_ABS_I_RMW2 3 (LOAD_ABS_X_RMW m) (STORE_ABS_X_RMW m)
    else if p0 = 0x5f then SRE (ret p2) 0 CLK_ABS_I_RMW2 3 (LOAD_ABS_X_RMW m) (STORE_ABS_X_RMW m)
    else ret ())"

definition opcode_6x :: "'e machine \<Rightarrow> u32 \<Rightarrow> u32 \<Rightarrow> u32 \<Rightarrow> ('e, unit) ex" where
  "opcode_6x m p0 p1 p2 =
    (if p0 = 0x60 then RTS m
    else if p0 = 0x61 then ADC (LOAD_IND_X m p1) 1 2
    else if p0 = 0x62 then do { REWIND_FETCH_OPCODE; JAM m }
    else if p0 = 0x63 then RRA (do { x \<leftarrow> X_read; LOAD_ZERO_ADDR m (p1 + x) }) 3 CLK_IND_X_RMW 2 (LOAD_ABS m) (STORE_ABS m)
    else if p0 = 0x64 then NOOP 1 2
    else if p0 = 0x65 then ADC (LOAD_ZERO m p1) 1 2
    else if p0 = 0x66 then ROR p1 CLK_ZERO_RMW 2 (LOAD_ZERO m) (STORE_ABS m)
    else if p0 = 0x67 then RRA (ret p1) 0 CLK_ZERO_RMW 2 (LOAD_ZERO m) (STORE_ABS m)
    else if p0 = 0x68 then PLA
    else if p0 = 0x69 then ADC (ret p1) 0 2
    else if p0 = 0x6a then ROR_A
    else if p0 = 0x6b then ARR (ret p1) 2
    else if p0 = 0x6c then JMP_IND m p2
    else if p0 = 0x6d then ADC (LOAD m (ret p2)) 1 3
    else if p0 = 0x6e then ROR p2 CLK_ABS_RMW2 3 (LOAD_ABS m) (STORE_ABS m)
    else if p0 = 0x6f then RRA (ret p2) 0 CLK_ABS_RMW2 3 (LOAD_ABS m) (STORE_ABS m)
    else ret ())"

definition opcode_7x :: "'e machine \<Rightarrow> u32 \<Rightarrow> u32 \<Rightarrow> u32 \<Rightarrow> ('e, unit) ex" where
  "opcode_7x m p0 p1 p2 =
    (if p0 = 0x70 then do { c \<leftarrow> gets LOCAL_OVERFLOW; BRANCH m c p1 }
    else if p0 = 0x71 then ADC (LOAD_IND_Y m p1) 1 2
    else if p0 = 0x72 then do { REWIND_FETCH_OPCODE; JAM m }
    else if p0 = 0x73 then RRA_IND_Y m p1
    else if p0 = 0x74 then NOOP CLK_NOOP_ZERO_X 2
    else if p0 = 0x75 then ADC (LOAD_ZERO_X m p1) CLK_ZERO_I2 2
    else if p0 = 0x76 then do { x \<leftarrow> X_read; ROR ((p1 + x) AND 0xff) CLK_ZERO_I_RMW 2 (LOAD_ZERO m) (STORE_ABS m) }
    else if p0 = 0x77 then RRA (do { x \<leftarrow> X_read; ret ((p1 + x) AND 0xff) }) 0 CLK_ZERO_I_RMW 2 (LOAD_ZERO m) (STORE_ABS m)
    else if p0 = 0x78 then SEI
    else if p0 = 0x79 then ADC (LOAD_ABS_Y m p2) 1 3
    else if p0 = 0x7a then NOOP_IMM 1
    else if p0 = 0x7b then RRA (ret p2) 0 CLK_ABS_I_RMW2 3 (LOAD_ABS_Y_RMW m) (STORE_ABS_Y_RMW m)
    else if p0 = 0x7c then NOOP_ABS_X m p2
    else if p0 = 0x7d then ADC (LOAD_ABS_X m p2) 1 3
    else if p0 = 0x7e then ROR p2 CLK_ABS_I_RMW2 3 (LOAD_ABS_X_RMW m) (STORE_ABS_X_RMW m)
    else if p0 = 0x7f then RRA (ret p2) 0 CLK_ABS_I_RMW2 3 (LOAD_ABS_X_RMW m) (STORE_ABS_X_RMW m)
    else ret ())"

definition opcode_8x :: "'e machine \<Rightarrow> u32 \<Rightarrow> u32 \<Rightarrow> u32 \<Rightarrow> ('e, unit) ex" where
  "opcode_8x m p0 p1 p2 =
    (if p0 = 0x80 then NOOP_IMM 2
    else if p0 = 0x81 then STA (do { x \<leftarrow> X_read; LOAD_ZERO_ADDR m (p1 + x) }) 3 1 2 (STORE_ABS m)
    else if p0 = 0x82 then NOOP_IMM 2
    else if p0 = 0x83 then SAX m (do { x \<leftarrow> X_read; LOAD_ZERO_ADDR m (p1 + x) }) 3 1 2
    else if p0 = 0x84 then STY_ZERO m p1 1 2
    else if p0 = 0x85 then STA_ZERO m p1 1 2
    else if p0 = 0x86 then STX_ZERO m p1 1 2
    else if p0 = 0x87 then SAX_ZERO m p1 1 2
    else if p0 = 0x88 then DEY
    else if p0 = 0x89 then NOOP_IMM 2
    else if p0 = 0x8a then TXA
    else if p0 = 0x8b then ANE (ret p1) 2
    else if p0 = 0x8c then STY m p2 1 3
    else if p0 = 0x8d then STA (ret p2) 0 1 3 (STORE_ABS m)
    else if p0 = 0x8e then STX m p2 1 3
    else if p0 = 0x8f then SAX m (ret p2) 0 1 3
    else ret ())"

definition opcode_9x :: "'e machine \<Rightarrow> u32 \<Rightarrow> u32 \<Rightarrow> u32 \<Rightarrow> ('e, unit) ex" where
  "opcode_9x m p0 p1 p2 =
    (if p0 = 0x90 then do { c \<leftarrow> gets LOCAL_CARRY; BRANCH m (\<not> c) p1 }
    else if p0 = 0x91 then STA_IND_Y m p1
    else if p0 = 0x92 then do { REWIND_FETCH_OPCODE; JAM m }
    else if p0 = 0x93 then SHA_IND_Y m p1
    else if p0 = 0x94 then do { x \<leftarrow> X_read; STY_ZERO m (p1 + x) CLK_ZERO_I_STORE 2 }
    else if p0 = 0x95 then do { x \<leftarrow> X_read; STA_ZERO m (p1 + x) CLK_ZERO_I_STORE 2 }
    else if p0 = 0x96 then do { y \<leftarrow> Y_read; STX_ZERO m (p1 + y) CLK_ZERO_I_STORE 2 }
    else if p0 = 0x97 then SAX m (do { y \<leftarrow> Y_read; ret ((p1 + y) AND 0xff) }) 0 CLK_ZERO_I_STORE 2
    else if p0 = 0x98 then TYA
    else if p0 = 0x99 then STA (ret p2) 0 CLK_ABS_I_STORE2 3 (STORE_ABS_Y m)
    else if p0 = 0x9a then TXS
    else if p0 = 0x9b then SHS_ABS_Y m p2
    else if p0 = 0x9c then SHY_ABS_X m p2
    else if p0 = 0x9d then STA (ret p2) 0 CLK_ABS_I_STORE2 3 (STORE_ABS_X m)
    else if p0 = 0x9e then SHX_ABS_Y m p2
    else if p0 = 0x9f then SHA_ABS_Y m p2
    else ret ())"

definition opcode_ax :: "'e machine \<Rightarrow> u32 \<Rightarrow> u32 \<Rightarrow> u32 \<Rightarrow> ('e, unit) ex" where
  "opcode_ax m p0 p1 p2 =
    (if p0 = 0xa0 then LDY (ret p1) 0 2
    else if p0 = 0xa1 then LDA (LOAD_IND_X m p1) 1 2
    else if p0 = 0xa2 then LDX (ret p1) 0 2
    else if p0 = 0xa3 then LAX (LOAD_IND_X m p1) 1 2
    else if p0 = 0xa4 then LDY (LOAD_ZERO m p1) 1 2
    else if p0 = 0xa5 then LDA (LOAD_ZERO m p1) 1 2
    else if p0 = 0xa6 then LDX (LOAD_ZERO m p1) 1 2
    else if p0 = 0xa7 then LAX (LOAD_ZERO m p1) 1 2
    else if p0 = 0xa8 then TAY
    else if p0 = 0xa9 then LDA (ret p1) 0 2
    else if p0 = 0xaa then TAX
    else if p0 = 0xab then LXA (ret p1) 2
    else if p0 = 0xac then LDY (LOAD m (ret p2)) 1 3
    else if p0 = 0xad then LDA (LOAD m (ret p2)) 1 3
    else if p0 = 0xae then LDX (LOAD m (ret p2)) 1 3
    else if p0 = 0xaf then LAX (LOAD m (ret p2)) 1 3
    else ret ())"

definition opcode_bx :: "'e machine \<Rightarrow> u32 \<Rightarrow> u32 \<Rightarrow> u32 \<Rightarrow> ('e, unit) ex" where
  "opcode_bx m p0 p1 p2 =
    (if p0 = 0xb0 then do { c \<leftarrow> gets LOCAL_CARRY; BRANCH m c p1 }
    else if p0 = 0xb1 then LDA (LOAD_IND_Y_BANK m p1) 1 2
    else if p0 = 0xb2 then do { REWIND_FETCH_OPCODE; JAM m }
    else if p0 = 0xb3 then LAX (LOAD_IND_Y m p1) 1 2
    else if p0 = 0xb4 then LDY (LOAD_ZERO_X m p1) CLK_ZERO_I2 2
    else if p0 = 0xb5 then LDA (LOAD_ZERO_X m p1) CLK_ZERO_I2 2
    else if p0 = 0xb6 then LDX (LOAD_ZERO_Y m p1) CLK_ZERO_I2 2
    else if p0 = 0xb7 then LAX (LOAD_ZERO_Y m p1) CLK_ZERO_I2 2
    else if p0 = 0xb8 then CLV
    else if p0 = 0xb9 then LDA (LOAD_ABS_Y m p2) 1 3
    else if p0 = 0xba then TSX
    else if p0 = 0xbb then LAS (LOAD_ABS_Y m p2) 1 3
    else if p0 = 0xbc then LDY (LOAD_ABS_X m p2) 1 3
    else if p0 = 0xbd then LDA (LOAD_ABS_X m p2) 1 3
    else if p0 = 0xbe then LDX (LOAD_ABS_Y m p2) 1 3
    else if p0 = 0xbf then LAX (LOAD_ABS_Y m p2) 1 3
    else ret ())"

definition opcode_cx :: "'e machine \<Rightarrow> u32 \<Rightarrow> u32 \<Rightarrow> u32 \<Rightarrow> ('e, unit) ex" where
  "opcode_cx m p0 p1 p2 =
    (if p0 = 0xc0 then CPY (ret p1) 0 2
    else if p0 = 0xc1 then CMP (LOAD_IND_X m p1) 1 2
    else if p0 = 0xc2 then NOOP_IMM 2
    else if p0 = 0xc3 then DCP (do { x \<leftarrow> X_read; LOAD_ZERO_ADDR m (p1 + x) }) 3 CLK_IND_X_RMW 2 (LOAD_ABS m) (STORE_ABS m)
    else if p0 = 0xc4 then CPY (LOAD_ZERO m p1) 1 2
    else if p0 = 0xc5 then CMP (LOAD_ZERO m p1) 1 2
    else if p0 = 0xc6 then DEC p1 CLK_ZERO_RMW 2 (LOAD_ZERO m) (STORE_ABS m)
    else if p0 = 0xc7 then DCP (ret p1) 0 CLK_ZERO_RMW 2 (LOAD_ZERO m) (STORE_ABS m)
    else if p0 = 0xc8 then INY
    else if p0 = 0xc9 then CMP (ret p1) 0 2
    else if p0 = 0xca then DEX
    else if p0 = 0xcb then SBX (ret p1) 2
    else if p0 = 0xcc then CPY (LOAD m (ret p2)) 1 3
    else if p0 = 0xcd then CMP (LOAD m (ret p2)) 1 3
    else if p0 = 0xce then DEC p2 CLK_ABS_RMW2 3 (LOAD_ABS m) (STORE_ABS m)
    else if p0 = 0xcf then DCP (ret p2) 0 CLK_ABS_RMW2 3 (LOAD_ABS m) (STORE_ABS m)
    else ret ())"

definition opcode_dx :: "'e machine \<Rightarrow> u32 \<Rightarrow> u32 \<Rightarrow> u32 \<Rightarrow> ('e, unit) ex" where
  "opcode_dx m p0 p1 p2 =
    (if p0 = 0xd0 then do { c \<leftarrow> gets LOCAL_ZERO; BRANCH m (\<not> c) p1 }
    else if p0 = 0xd1 then CMP (LOAD_IND_Y m p1) 1 2
    else if p0 = 0xd2 then do { REWIND_FETCH_OPCODE; JAM m }
    else if p0 = 0xd3 then DCP_IND_Y m p1
    else if p0 = 0xd4 then NOOP CLK_NOOP_ZERO_X 2
    else if p0 = 0xd5 then CMP (LOAD_ZERO_X m p1) CLK_ZERO_I2 2
    else if p0 = 0xd6 then do { x \<leftarrow> X_read; DEC ((p1 + x) AND 0xff) CLK_ZERO_I_RMW 2 (LOAD_ABS m) (STORE_ABS m) }
    else if p0 = 0xd7 then DCP (do { x \<leftarrow> X_read; ret ((p1 + x) AND 0xff) }) 0 CLK_ZERO_I_RMW 2 (LOAD_ABS m) (STORE_ABS m)
    else if p0 = 0xd8 then CLD
    else if p0 = 0xd9 then CMP (LOAD_ABS_Y m p2) 1 3
    else if p0 = 0xda then NOOP_IMM 1
    else if p0 = 0xdb then DCP (ret p2) 0 CLK_ABS_I_RMW2 3 (LOAD_ABS_Y_RMW m) (STORE_ABS_Y_RMW m)
    else if p0 = 0xdc then NOOP_ABS_X m p2
    else if p0 = 0xdd then CMP (LOAD_ABS_X m p2) 1 3
    else if p0 = 0xde then DEC p2 CLK_ABS_I_RMW2 3 (LOAD_ABS_X_RMW m) (STORE_ABS_X_RMW m)
    else if p0 = 0xdf then DCP (ret p2) 0 CLK_ABS_I_RMW2 3 (LOAD_ABS_X_RMW m) (STORE_ABS_X_RMW m)
    else ret ())"

definition opcode_ex :: "'e machine \<Rightarrow> u32 \<Rightarrow> u32 \<Rightarrow> u32 \<Rightarrow> ('e, unit) ex" where
  "opcode_ex m p0 p1 p2 =
    (if p0 = 0xe0 then CPX (ret p1) 0 2
    else if p0 = 0xe1 then SBC (LOAD_IND_X m p1) 1 2
    else if p0 = 0xe2 then NOOP_IMM 2
    else if p0 = 0xe3 then ISB (do { x \<leftarrow> X_read; LOAD_ZERO_ADDR m (p1 + x) }) 3 CLK_IND_X_RMW 2 (LOAD_ABS m) (STORE_ABS m)
    else if p0 = 0xe4 then CPX (LOAD_ZERO m p1) 1 2
    else if p0 = 0xe5 then SBC (LOAD_ZERO m p1) 1 2
    else if p0 = 0xe6 then INC p1 CLK_ZERO_RMW 2 (LOAD_ZERO m) (STORE_ABS m)
    else if p0 = 0xe7 then ISB (ret p1) 0 CLK_ZERO_RMW 2 (LOAD_ZERO m) (STORE_ABS m)
    else if p0 = 0xe8 then INX
    else if p0 = 0xe9 then SBC (ret p1) 0 2
    else if p0 = 0xea then NOP
    else if p0 = 0xeb then SBC (ret p1) 0 2
    else if p0 = 0xec then CPX (LOAD m (ret p2)) 1 3
    else if p0 = 0xed then SBC (LOAD m (ret p2)) 1 3
    else if p0 = 0xee then INC p2 CLK_ABS_RMW2 3 (LOAD_ABS m) (STORE_ABS m)
    else if p0 = 0xef then ISB (ret p2) 0 CLK_ABS_RMW2 3 (LOAD_ABS m) (STORE_ABS m)
    else ret ())"

definition opcode_fx :: "'e machine \<Rightarrow> u32 \<Rightarrow> u32 \<Rightarrow> u32 \<Rightarrow> ('e, unit) ex" where
  "opcode_fx m p0 p1 p2 =
    (if p0 = 0xf0 then do { c \<leftarrow> gets LOCAL_ZERO; BRANCH m c p1 }
    else if p0 = 0xf1 then SBC (LOAD_IND_Y m p1) 1 2
    else if p0 = 0xf2 then do { REWIND_FETCH_OPCODE; JAM m }
    else if p0 = 0xf3 then ISB_IND_Y m p1
    else if p0 = 0xf4 then NOOP CLK_NOOP_ZERO_X 2
    else if p0 = 0xf5 then SBC (LOAD_ZERO_X m p1) CLK_ZERO_I2 2
    else if p0 = 0xf6 then do { x \<leftarrow> X_read; INC ((p1 + x) AND 0xff) CLK_ZERO_I_RMW 2 (LOAD_ZERO m) (STORE_ABS m) }
    else if p0 = 0xf7 then ISB (do { x \<leftarrow> X_read; ret ((p1 + x) AND 0xff) }) 0 CLK_ZERO_I_RMW 2 (LOAD_ZERO m) (STORE_ABS m)
    else if p0 = 0xf8 then SED
    else if p0 = 0xf9 then SBC (LOAD_ABS_Y m p2) 1 3
    else if p0 = 0xfa then NOOP_IMM 1
    else if p0 = 0xfb then ISB (ret p2) 0 CLK_ABS_I_RMW2 3 (LOAD_ABS_Y_RMW m) (STORE_ABS_Y_RMW m)
    else if p0 = 0xfc then NOOP_ABS_X m p2
    else if p0 = 0xfd then SBC (LOAD_ABS_X m p2) 1 3
    else if p0 = 0xfe then INC p2 CLK_ABS_I_RMW2 3 (LOAD_ABS_X_RMW m) (STORE_ABS_X_RMW m)
    else if p0 = 0xff then ISB (ret p2) 0 CLK_ABS_I_RMW2 3 (LOAD_ABS_X_RMW m) (STORE_ABS_X_RMW m)
    else ret ())"

definition opcode_row :: "'e machine \<Rightarrow> u32 \<Rightarrow> u32 \<Rightarrow> u32 \<Rightarrow> ('e, unit) ex" where
  "opcode_row m p0 p1 p2 =
    (let h = drop_bit 4 p0 in
     if h = 0x0 then opcode_0x m p0 p1 p2 else if h = 0x1 then opcode_1x m p0 p1 p2
     else if h = 0x2 then opcode_2x m p0 p1 p2 else if h = 0x3 then opcode_3x m p0 p1 p2
     else if h = 0x4 then opcode_4x m p0 p1 p2 else if h = 0x5 then opcode_5x m p0 p1 p2
     else if h = 0x6 then opcode_6x m p0 p1 p2 else if h = 0x7 then opcode_7x m p0 p1 p2
     else if h = 0x8 then opcode_8x m p0 p1 p2 else if h = 0x9 then opcode_9x m p0 p1 p2
     else if h = 0xa then opcode_ax m p0 p1 p2 else if h = 0xb then opcode_bx m p0 p1 p2
     else if h = 0xc then opcode_cx m p0 p1 p2 else if h = 0xd then opcode_dx m p0 p1 p2
     else if h = 0xe then opcode_ex m p0 p1 p2 else opcode_fx m p0 p1 p2)"

text \<open>From the label \<open>trap_skipped\<close> on; the fuel bounds how often a trap may replace the opcode.\<close>

fun execute :: "'e machine \<Rightarrow> nat \<Rightarrow> u32 \<Rightarrow> ('e, unit) ex" where
  "execute m n opcode = do {
     let p0 = p0_of opcode;
     SET_LAST_OPCODE p0;
     if p0 = 0x02 then do {
       r \<leftarrow> JAM_02 m;
       case r of
         None \<Rightarrow> ret ()
       | Some opcode' \<Rightarrow> (case n of 0 \<Rightarrow> set_fault | Suc k \<Rightarrow> execute m k opcode')
     } else opcode_row m p0 (p1_of opcode) (p2_of opcode)
   }"

declare execute.simps [simp del]

section \<open>The main loop\<close>

text \<open>An IRQ released long enough ago is forgotten.\<close>

definition expire_irq :: "('e, unit) ex" where
  "expire_irq = upd_glob (\<lambda>g. let cs = maincpu_int_status g in
     if \<not> truth (global_pending_int cs AND IK_IRQ) \<and> truth (global_pending_int cs AND IK_IRQPEND)
        \<and> irq_pending_clk cs \<le> maincpu_clk g
     then g\<lparr>maincpu_int_status := interrupt_ack_irq cs\<rparr> else g)"

definition drop_irqpend :: "('e, unit) ex" where
  "drop_irqpend = upd_glob (\<lambda>g. let cs = maincpu_int_status g in
     if \<not> truth (global_pending_int cs AND IK_IRQ) \<and> truth (global_pending_int cs AND IK_IRQPEND)
     then g\<lparr>maincpu_int_status :=
              cs\<lparr>global_pending_int := global_pending_int cs AND NOT IK_IRQPEND\<rparr>\<rparr> else g)"

definition cpu_step :: "'e machine \<Rightarrow> ('e, unit) ex" where
  "cpu_step m = do {
     upd_glob (run_alternate_cpu m);
     upd_glob (cpu_delay_clk m);
     PROCESS_ALARMS m;
     expire_irq;
     pending_interrupt \<leftarrow> glob (\<lambda>g. global_pending_int (maincpu_int_status g));
     (if pending_interrupt \<noteq> IK_NONE then do {
        DO_INTERRUPT m pending_interrupt;
        drop_irqpend;
        upd_glob (cpu_delay_clk m);
        PROCESS_ALARMS m
      } else ret ());
     pc \<leftarrow> PC_read;
     SET_LAST_ADDR pc;
     opcode \<leftarrow> FETCH_OPCODE m;
     execute m (fuel m) opcode
   }"

text \<open>
  One turn of \<open>maincpu_mainloop\<close>; the result tells whether the cycle limit makes the program exit. The
  loop starts with all registers 0 and a soft reset triggered by the machine.
\<close>

definition mainloop_turn :: "'e machine \<Rightarrow> clock \<Rightarrow> ('e, bool) ex" where
  "mainloop_turn m maincpu_clk_limit = do {
     cpu_step m;
     upd_glob (\<lambda>g. g\<lparr>maincpu_int_status := (maincpu_int_status g)\<lparr>num_dma_per_opcode := 0\<rparr>\<rparr>);
     clk \<leftarrow> glob maincpu_clk;
     ret (truth maincpu_clk_limit \<and> clk > maincpu_clk_limit)
   }"

text \<open>At most \<open>n\<close> turns: whether the loop has exited.\<close>

fun maincpu_mainloop :: "'e machine \<Rightarrow> clock \<Rightarrow> nat \<Rightarrow> ('e, bool) ex" where
  "maincpu_mainloop m limit 0 = ret False"
| "maincpu_mainloop m limit (Suc n) = do {
     stop \<leftarrow> mainloop_turn m limit;
     if stop then ret True else maincpu_mainloop m limit n
   }"

end
