(* ===== verification/CpuArith.thy ===== *)
theory CpuArith
  imports CpuExec
begin

text \<open>
  The arithmetic of the 6510 core: ADC and SBC, binary and decimal, and the status register. The words
  of the model are read as natural numbers (collection \<open>wnat\<close>), the flags as bits of \<open>reg_p\<close>, and
  \<open>cpu\<close> collects the equations that execute an opcode.
\<close>

named_theorems wnat \<open>reading the words of an opcode as numbers\<close>
named_theorems cpu \<open>executing opcodes\<close>

section \<open>Words as numbers\<close>

lemma bit_nat: "bit (w::'a::len word) n \<longleftrightarrow> odd (unat w div 2 ^ n)"
proof -
  have "bit (unat w) n \<longleftrightarrow> bit w n" by (auto simp: bit_unsigned_iff dest: bit_imp_possible_bit)
  then show ?thesis by (simp add: bit_iff_odd)
qed
lemma take_bit_unat [simp]: "take_bit LENGTH('a) (unat (w :: 'a::len word)) = unat w"
  by (simp add: take_bit_nat_eq_self)
lemma and_field:
  assumes "k + j \<le> LENGTH('a)"
  shows "unat ((w::'a::len word) AND push_bit k (mask j)) = unat w div 2 ^ k mod 2 ^ j * 2 ^ k"
proof -
  have "w AND push_bit k (mask j) = push_bit k (take_bit j (drop_bit k w))"
    by (rule bit_eqI) (auto simp: bit_simps)
  then have "unat (w AND push_bit k (mask j)) = take_bit LENGTH('a) (push_bit k (take_bit j (drop_bit k (unat w))))"
    by (simp add: unsigned_push_bit_eq unsigned_drop_bit_eq unsigned_take_bit_eq)
  also have "\<dots> = push_bit k (take_bit (min (LENGTH('a) - k) j) (drop_bit k (unat w)))"
    by (simp add: take_bit_push_bit)
  also have "min (LENGTH('a) - k) j = j" using assms by simp
  finally show ?thesis by (simp add: push_bit_eq_mult drop_bit_eq_div take_bit_eq_mod)
qed
lemma and_fields [wnat]:
  fixes w :: "32 word"
  shows "unat (w AND 0xf) = unat w mod 16"
   "unat (w AND 0xff) = unat w mod 256"
   "unat (w AND 0xf0) = unat w div 16 mod 16 * 16"
   "unat (w AND 0x1f0) = unat w div 16 mod 32 * 16"
   "unat (w AND 0xff0) = unat w div 16 mod 256 * 16"
   "unat (w AND 0xff00) = unat w div 256 mod 256 * 256"
  using and_field [of 0 4 w] and_field [of 0 8 w] and_field [of 4 4 w] and_field [of 4 5 w]
    and_field [of 4 8 w] and_field [of 8 8 w]
  by (simp_all add: mask_eq_exp_minus_1)
lemma and_bits [wnat]:
  fixes w :: "32 word"
  shows "w AND 1 = 0 \<longleftrightarrow> \<not> bit w 0" "w AND 0x10 = 0 \<longleftrightarrow> \<not> bit w 4" "w AND 0x20 = 0 \<longleftrightarrow> \<not> bit w 5" "w AND 0x40 = 0 \<longleftrightarrow> \<not> bit w 6" "w AND 0x80 = 0 \<longleftrightarrow> \<not> bit w 7" "w AND 0x100 = 0 \<longleftrightarrow> \<not> bit w 8"
  using bit_iff_and_push_bit_not_eq_0 [of w 0] bit_iff_and_push_bit_not_eq_0 [of w 4] bit_iff_and_push_bit_not_eq_0 [of w 5]
   bit_iff_and_push_bit_not_eq_0 [of w 6] bit_iff_and_push_bit_not_eq_0 [of w 7] bit_iff_and_push_bit_not_eq_0 [of w 8]
  by simp_all
lemma unat_add_small: "unat x + unat y < 2 ^ LENGTH('a) \<Longrightarrow> unat (x + y :: 'a::len word) = unat x + unat y"
  by (simp add: unat_add_lem)

lemma unat_zx [wnat]: "unat (zx b) = unat b"
  by (simp add: unsigned_ucast_eq take_bit_nat_eq_self_iff less_trans [OF unsigned_less])

lemma unat_lo8 [wnat]: "unat (lo8 w) = unat w mod 256"
  by (simp add: unsigned_ucast_eq take_bit_eq_mod)

lemma u8_lt: "unat (b :: u8) < 256"
  using unsigned_less [of b, where 'a = nat] by simp

lemma bit_twice: "bit (w * 2 :: u32) n \<longleftrightarrow> n \<noteq> 0 \<and> n < 32 \<and> bit w (n - 1)"
  using bit_double_iff [of w n] by (auto simp: mult.commute possible_bit_def)

lemma lo8_and_ff: "lo8 (w AND 0xff) = lo8 w"
  by (simp add: word_unat_eq_iff wnat)

section \<open>Flags\<close>

lemma bit_P [simp]:
  "bit P_SIGN n \<longleftrightarrow> n = 7" "bit P_OVERFLOW n \<longleftrightarrow> n = 6" "bit P_UNUSED n \<longleftrightarrow> n = 5"
  "bit P_BREAK n \<longleftrightarrow> n = 4" "bit P_DECIMAL n \<longleftrightarrow> n = 3" "bit P_INTERRUPT n \<longleftrightarrow> n = 2"
  "bit P_ZERO n \<longleftrightarrow> n = 1" "bit P_CARRY n \<longleftrightarrow> n = 0"
  unfolding P_SIGN_def P_OVERFLOW_def P_UNUSED_def P_BREAK_def P_DECIMAL_def P_INTERRUPT_def
    P_ZERO_def P_CARRY_def bit_push_bit_iff bit_1_iff by auto

lemma truth_P [simp]:
  "w AND P_SIGN = 0 \<longleftrightarrow> \<not> bit w 7" "w AND P_OVERFLOW = 0 \<longleftrightarrow> \<not> bit w 6"
  "w AND P_UNUSED = 0 \<longleftrightarrow> \<not> bit w 5" "w AND P_BREAK = 0 \<longleftrightarrow> \<not> bit w 4"
  "w AND P_DECIMAL = 0 \<longleftrightarrow> \<not> bit w 3" "w AND P_INTERRUPT = 0 \<longleftrightarrow> \<not> bit w 2"
  "w AND P_ZERO = 0 \<longleftrightarrow> \<not> bit w 1" "w AND P_CARRY = 0 \<longleftrightarrow> \<not> bit w 0"
  by (simp_all only: P_SIGN_def P_OVERFLOW_def P_UNUSED_def P_BREAK_def P_DECIMAL_def
      P_INTERRUPT_def P_ZERO_def P_CARRY_def bit_iff_and_push_bit_not_eq_0 [of w] not_not)

lemma and_80 [simp]: "(w :: u8) AND 0x80 = 0 \<longleftrightarrow> \<not> bit w 7"
  using bit_iff_and_push_bit_not_eq_0 [of w 7] by simp

lemma local_flags [simp]:
  "LOCAL_OVERFLOW s \<longleftrightarrow> bit (reg_p s) 6" "LOCAL_BREAK s \<longleftrightarrow> bit (reg_p s) 4"
  "LOCAL_DECIMAL s \<longleftrightarrow> bit (reg_p s) 3" "LOCAL_INTERRUPT s \<longleftrightarrow> bit (reg_p s) 2"
  "LOCAL_CARRY s \<longleftrightarrow> bit (reg_p s) 0" "LOCAL_SIGN s \<longleftrightarrow> bit (flag_n s) 7"
  "LOCAL_ZERO s \<longleftrightarrow> flag_z s = 0"
  by (simp_all add: LOCAL_OVERFLOW_def LOCAL_BREAK_def LOCAL_DECIMAL_def LOCAL_INTERRUPT_def
      LOCAL_CARRY_def LOCAL_SIGN_def LOCAL_ZERO_def)

text \<open>The bits of \<open>reg_p\<close> that one of the flag macros leaves.\<close>

definition put_flag :: "u8 \<Rightarrow> bool \<Rightarrow> u8 \<Rightarrow> u8" where
  "put_flag f b p = (if b then p OR f else p AND NOT f)"

lemma bit_put_flag [simp]: "n < 8 \<Longrightarrow> bit (put_flag f b p) n \<longleftrightarrow> (if bit f n then b else bit p n)"
  by (auto simp: put_flag_def bit_or_iff bit_and_iff bit_not_iff)

lemma run_flags [cpu]:
  "run_state (LOCAL_SET_OVERFLOW b) s = ((), s\<lparr>reg_p := put_flag P_OVERFLOW b (reg_p s)\<rparr>)"
  "run_state (LOCAL_SET_BREAK b) s = ((), s\<lparr>reg_p := put_flag P_BREAK b (reg_p s)\<rparr>)"
  "run_state (LOCAL_SET_DECIMAL b) s = ((), s\<lparr>reg_p := put_flag P_DECIMAL b (reg_p s)\<rparr>)"
  "run_state (LOCAL_SET_INTERRUPT b) s = ((), s\<lparr>reg_p := put_flag P_INTERRUPT b (reg_p s)\<rparr>)"
  "run_state (LOCAL_SET_CARRY b) s = ((), s\<lparr>reg_p := put_flag P_CARRY b (reg_p s)\<rparr>)"
  "run_state (LOCAL_SET_NZ v) s = ((), s\<lparr>flag_n := lo8 v, flag_z := lo8 v\<rparr>)"
  "run_state (LOCAL_SET_SIGN b) s = ((), s\<lparr>flag_n := if b then 0x80 else 0\<rparr>)"
  "run_state (LOCAL_SET_ZERO b) s = ((), s\<lparr>flag_z := if b then 0 else 1\<rparr>)"
  by (simp_all add: LOCAL_SET_OVERFLOW_def LOCAL_SET_BREAK_def LOCAL_SET_DECIMAL_def
      LOCAL_SET_INTERRUPT_def LOCAL_SET_CARRY_def LOCAL_SET_NZ_def LOCAL_SET_SIGN_def
      LOCAL_SET_ZERO_def set_p_def put_flag_def)

lemma run_registers [cpu]:
  "run_state A_read s = (zx (reg_a s), s)" "run_state X_read s = (zx (reg_x s), s)"
  "run_state Y_read s = (zx (reg_y s), s)" "run_state SP_read s = (zx (reg_sp s), s)"
  "run_state PC_read s = (reg_pc (glb s), s)"
  "run_state (A_write v) s = ((), s\<lparr>reg_a := lo8 v\<rparr>)"
  "run_state (X_write v) s = ((), s\<lparr>reg_x := lo8 v\<rparr>)"
  "run_state (Y_write v) s = ((), s\<lparr>reg_y := lo8 v\<rparr>)"
  "run_state (SP_write v) s = ((), s\<lparr>reg_sp := lo8 v\<rparr>)"
  by (simp_all add: A_read_def X_read_def Y_read_def SP_read_def PC_read_def glob_def A_write_def
      X_write_def Y_write_def SP_write_def)

lemma run_upd_glob [cpu]: "run_state (upd_glob f) s = ((), s\<lparr>glb := f (glb s)\<rparr>)"
  by (simp add: upd_glob_def)

lemma run_glob [cpu]: "run_state (glob f) s = (f (glb s), s)"
  by (simp add: glob_def)

lemma run_ext_call [cpu]: "run_state (ext_call f) s = (fst (f (glb s)), s\<lparr>glb := snd (f (glb s))\<rparr>)"
  by (simp add: ext_call_def split: prod.split)

lemma run_glob_ops [cpu]:
  "run_state (CLK_ADD k) s = ((), s\<lparr>glb := (glb s)\<lparr>maincpu_clk := maincpu_clk (glb s) + k\<rparr>\<rparr>)"
  "run_state (INC_PC k) s = ((), s\<lparr>glb := (glb s)\<lparr>reg_pc := reg_pc (glb s) + k\<rparr>\<rparr>)"
  "run_state (SET_RMW_FLAG i) s = ((), s\<lparr>glb := (glb s)\<lparr>maincpu_rmw_flag := i\<rparr>\<rparr>)"
  by (simp_all add: CLK_ADD_def INC_PC_def SET_RMW_FLAG_def run_upd_glob)

lemma carry_num [wnat]: "unat (carry s) = of_bool (bit (reg_p s) 0)"
proof -
  have "reg_p s AND P_CARRY = of_bool (bit (reg_p s) 0)"
    by (rule bit_eqI) (auto simp: bit_and_iff bit_1_iff intro: Nat.gr0I)
  then show ?thesis by (simp add: carry_def)
qed

section \<open>Status register\<close>

lemma run_set_status [cpu]:
  "run_state (LOCAL_SET_STATUS v) s =
     ((), s\<lparr>reg_p := v AND NOT (P_ZERO OR P_SIGN), flag_z := (if bit v 1 then 0 else 1), flag_n := v\<rparr>)"
  by (simp add: LOCAL_SET_STATUS_def cpu)

text \<open>
  The core keeps the status lazily, the N and Z flags outside of P. Setting the
  status from a byte (PLP, RTI) and assembling it again (PHP, BRK, interrupts) gives the byte with
  the unused bit set; nothing else of the CPU changes.
\<close>
theorem status_round_trip:
  "LOCAL_STATUS (snd (run_state (LOCAL_SET_STATUS v) s)) = v OR P_UNUSED \<and>
   glb (snd (run_state (LOCAL_SET_STATUS v) s)) = glb s \<and>
   reg_a (snd (run_state (LOCAL_SET_STATUS v) s)) = reg_a s \<and>
   reg_sp (snd (run_state (LOCAL_SET_STATUS v) s)) = reg_sp s"
proof -
  have sign: "(0x80 :: u8) = P_SIGN" by (simp add: P_SIGN_def)
  have "v AND NOT (P_ZERO OR P_SIGN) OR v AND P_SIGN OR P_UNUSED OR (if bit v 1 then P_ZERO else 0)
      = v OR P_UNUSED"
  proof (rule bit_eqI)
    fix n assume "possible_bit TYPE(u8) n"
    then show "bit (v AND NOT (P_ZERO OR P_SIGN) OR v AND P_SIGN OR P_UNUSED OR
        (if bit v 1 then P_ZERO else 0)) n \<longleftrightarrow> bit (v OR P_UNUSED) n"
      by (cases "n = 1"; cases "n = 7") (auto simp: bit_simps)
  qed
  then show ?thesis by (simp add: cpu LOCAL_STATUS_def sign split: if_splits)
qed

section \<open>Addition\<close>

lemma carry_glb [simp]: "carry (s\<lparr>glb := g\<rparr>) = carry s"
  by (simp add: carry_def)

text \<open>The registers after an arithmetic opcode.\<close>

definition arith_result :: "u32 \<Rightarrow> u32 \<Rightarrow> u8 \<Rightarrow> bool \<Rightarrow> bool \<Rightarrow> u8 \<Rightarrow> u8 \<Rightarrow> 'e cpu \<Rightarrow> 'e cpu" where
  "arith_result ci pi a v c n z s =
     s\<lparr>glb := (glb s)\<lparr>maincpu_clk := maincpu_clk (glb s) + ci, reg_pc := reg_pc (glb s) + pi\<rparr>,
       reg_a := a, reg_p := put_flag P_CARRY c (put_flag P_OVERFLOW v (reg_p s)),
       flag_n := n, flag_z := z\<rparr>"

lemma run_ADC_binary:
  assumes "\<not> LOCAL_DECIMAL s"
  shows "run_state (ADC (ret v) ci pi) s =
    ((), let tmp = v + zx (reg_a s) + carry s
         in arith_result ci pi (lo8 tmp)
              (\<not> truth ((zx (reg_a s) XOR v) AND 0x80) \<and> truth ((zx (reg_a s) XOR tmp) AND 0x80))
              (tmp > 0xff) (lo8 (tmp AND 0xff)) (lo8 (tmp AND 0xff)) s)"
  using assms by (simp add: ADC_def cpu arith_result_def Let_def)

lemma run_SBC_binary:
  assumes "\<not> LOCAL_DECIMAL s"
  shows "run_state (SBC (ret v) ci pi) s =
    ((), let a = zx (reg_a s); src = ucast (ucast v :: u16);
             tmp = (ucast (a - src - (if LOCAL_CARRY s then 0 else 1)) :: u16)
         in arith_result ci pi (lo8 (ucast tmp))
              (truth ((a XOR ucast tmp) AND 0x80) \<and> truth ((a XOR src) AND 0x80))
              (tmp < 0x100) (lo8 (ucast tmp AND 0xff)) (lo8 (ucast tmp AND 0xff)) s)"
proof -
  have swap: "put_flag P_OVERFLOW b (put_flag P_CARRY c p) = put_flag P_CARRY c (put_flag P_OVERFLOW b p)" for b c p
    by (rule bit_eqI) (auto simp: possible_bit_def)
  show ?thesis using assms by (simp add: SBC_def cpu arith_result_def Let_def swap)
qed

lemma odd_div_128:
  assumes "(n :: nat) < 512"
  shows "odd (n div 128) \<longleftrightarrow> 128 \<le> n \<and> n < 256 \<or> 384 \<le> n"
proof -
  have n: "n = n div 128 * 128 + n mod 128" "n mod 128 < 128" by simp_all
  consider "n div 128 = 0" | "n div 128 = 1" | "n div 128 = 2" | "n div 128 = 3"
    using assms n by linarith
  then show ?thesis using n by cases (simp_all, linarith+)
qed

lemma bit7_u8: "bit (w :: u8) 7 \<longleftrightarrow> 128 \<le> unat w"
  using u8_lt [of w] odd_div_128 [of "unat w"] by (simp add: bit_nat)

lemma sint_u8: "sint (w :: u8) = int (unat w) - (if 128 \<le> unat w then 256 else 0)"
proof -
  have "sint w = take_bit 8 (uint w) - 2 ^ 8 * of_bool (bit (uint w) 7)"
    by (simp add: sint_uint signed_take_bit_eq_take_bit_minus)
  also have "bit (uint w) 7 \<longleftrightarrow> bit w 7" by (simp add: bit_uint_iff)
  also have "take_bit 8 (uint w) = uint w"
    using uint_lt2p [of w] by (simp add: take_bit_int_eq_self)
  finally show ?thesis using bit7_u8 [of w] by simp
qed

lemma sint_neg_u8: "sint (w :: u8) < 0 \<longleftrightarrow> bit w 7"
  using uint_lt2p [of w] by (simp add: sint_u8 bit7_u8)

lemma bit_zx [simp]: "n < 8 \<Longrightarrow> bit (zx b) n \<longleftrightarrow> bit b n"
  by (simp add: bit_ucast_iff)

lemma bit7_u32: "unat (w :: u32) < 512 \<Longrightarrow> bit w 7 \<longleftrightarrow> 128 \<le> unat w \<and> unat w < 256 \<or> 384 \<le> unat w"
  using odd_div_128 [of "unat w"] by (simp add: bit_nat)

lemma signed_add_overflow:
  fixes a v c :: nat
  assumes "a < 256" "v < 256" "c \<le> 1" "t = v + a + c"
  shows "\<not> ((128 \<le> a) \<noteq> (128 \<le> v)) \<and>
      (128 \<le> a) \<noteq> (128 \<le> t \<and> t < 256 \<or> 384 \<le> t) \<longleftrightarrow>
    int a - (if 128 \<le> a then 256 else 0) + (int v - (if 128 \<le> v then 256 else 0)) + int c \<notin> {-128..127}"
  using assms by (cases "128 \<le> a"; cases "128 \<le> v") auto

lemma bit_zx7: "bit (zx b) 7 \<longleftrightarrow> bit b 7"
  by simp

lemma adc_sum: "unat (zx v + zx a + carry s) = unat v + unat a + of_bool (bit (reg_p s) 0)"
  using u8_lt [of v] u8_lt [of a] by (simp add: unat_word_ariths(1) wnat)

lemma adc_carry_out:
  "0xff < zx v + zx a + carry s \<longleftrightarrow> 255 < unat a + unat v + of_bool (bit (reg_p s) 0)"
proof -
  have "unat (0xff :: u32) = 255" by simp
  then show ?thesis unfolding word_less_nat_alt adc_sum by linarith
qed

lemma adc_overflow_bits:
  "(\<not> truth ((zx a XOR zx v) AND 0x80) \<and> truth ((zx a XOR (zx v + zx a + carry s)) AND 0x80)) \<longleftrightarrow>
    sint a + sint v + of_bool (bit (reg_p s) 0) \<notin> {-128..127}"
proof -
  let ?t = "zx v + zx a + carry s" and ?c = "of_bool (bit (reg_p s) 0) :: nat"
  have t: "unat ?t = unat v + unat a + ?c" by (rule adc_sum)
  have lt: "unat ?t < 512" unfolding t using u8_lt [of v] u8_lt [of a] by simp
  show ?thesis
    using signed_add_overflow [OF u8_lt [of a] u8_lt [of v], of ?c "unat ?t"]
    unfolding and_bits bit_xor_iff bit_zx7 bit7_u8 bit7_u32 [OF lt] sint_u8 t by simp
qed

text \<open>
  C28 (adc_binary): in binary mode ADC adds the operand and the carry to the accumulator modulo 256,
  with the carry out, the overflow of the signed sum, Z and N of the result, and leaves the other
  flags, registers and memory alone; the clock and the PC advance by its two constants.
\<close>
theorem adc_binary:
  assumes "\<not> LOCAL_DECIMAL s"
    and "run_state (ADC (ret (zx v)) ci pi) s = ((), s')"
  shows "unat (reg_a s') = (unat (reg_a s) + unat v + of_bool (LOCAL_CARRY s)) mod 256 \<and>
    (LOCAL_CARRY s' \<longleftrightarrow> 255 < unat (reg_a s) + unat v + of_bool (LOCAL_CARRY s)) \<and>
    (LOCAL_OVERFLOW s' \<longleftrightarrow>
      sint (reg_a s) + sint v + of_bool (LOCAL_CARRY s) \<notin> {-128..127}) \<and>
    (LOCAL_ZERO s' \<longleftrightarrow> reg_a s' = 0) \<and> (LOCAL_SIGN s' \<longleftrightarrow> sint (reg_a s') < 0) \<and>
    (\<forall>k \<in> {1..5}. bit (reg_p s') k = bit (reg_p s) k) \<and>
    s' = s\<lparr>glb := (glb s)\<lparr>maincpu_clk := maincpu_clk (glb s) + ci, reg_pc := reg_pc (glb s) + pi\<rparr>,
           reg_a := reg_a s', reg_p := reg_p s', flag_n := flag_n s', flag_z := flag_z s'\<rparr>"
proof -
  let ?c = "of_bool (bit (reg_p s) 0) :: nat"
  let ?t = "zx v + zx (reg_a s) + carry s"
  have t: "unat ?t = unat v + unat (reg_a s) + ?c" by (rule adc_sum)
  have s': "s' = arith_result ci pi (lo8 ?t)
      (\<not> truth ((zx (reg_a s) XOR zx v) AND 0x80) \<and> truth ((zx (reg_a s) XOR ?t) AND 0x80))
      (?t > 0xff) (lo8 (?t AND 0xff)) (lo8 (?t AND 0xff)) s"
    using assms(2) run_ADC_binary [OF assms(1), of "zx v" ci pi] by (simp add: Let_def)
  have a: "unat (lo8 ?t) = (unat (reg_a s) + unat v + ?c) mod 256"
    unfolding unat_lo8 t by (simp add: ac_simps)
  note ov = adc_overflow_bits [of "reg_a s" v s] and c = adc_carry_out [of v "reg_a s" s]
  have "s' = s\<lparr>glb := (glb s)\<lparr>maincpu_clk := maincpu_clk (glb s) + ci, reg_pc := reg_pc (glb s) + pi\<rparr>,
           reg_a := reg_a s', reg_p := reg_p s', flag_n := flag_n s', flag_z := flag_z s'\<rparr>"
    by (simp add: s' arith_result_def)
  moreover have "LOCAL_SIGN s' \<longleftrightarrow> sint (reg_a s') < 0"
    by (simp add: s' arith_result_def lo8_and_ff sint_neg_u8)
  moreover have "\<forall>k \<in> {1..5}. bit (reg_p s') k = bit (reg_p s) k"
    by (simp add: s' arith_result_def)
  ultimately show ?thesis using a ov c by (simp add: s' arith_result_def lo8_and_ff)
qed

section \<open>Subtraction\<close>

lemma uint_u16_of_u32: "uint (ucast (w :: u32) :: u16) = uint w mod 65536"
  by (simp add: unsigned_ucast_eq take_bit_eq_mod)

lemma lo8_u16: "lo8 (ucast (w :: u16)) = ucast w"
  by (rule bit_eqI) (auto simp: bit_simps)

lemma uint_lo8_u16: "uint (lo8 (ucast (w :: u16))) = uint w mod 256"
  unfolding lo8_u16 by (simp add: unsigned_ucast_eq take_bit_eq_mod)

lemma u16_less_256: "(w :: u16) < 0x100 \<longleftrightarrow> uint w < 256"
  by (simp add: word_less_def)

lemma zx_u16: "(ucast (ucast (zx v) :: u16) :: u32) = zx v"
  by (rule bit_eqI) (auto simp: bit_simps dest: bit_imp_le_length)

lemma unat_not_u8: "unat (NOT (v :: u8)) = 255 - unat v"
proof -
  have "NOT v = 255 - v" by (simp add: not_eq_complement)
  moreover have "v \<le> 255" using u8_lt [of v] by (simp add: word_le_nat_alt)
  ultimately show ?thesis by (simp add: unat_sub)
qed

lemma uint_zx: "uint (zx v) = uint v"
  using arg_cong [OF unat_zx, of int v] by simp

text \<open>The 16-bit difference that decides the carry.\<close>

lemma sbc_tmp:
  "uint (ucast (zx a - zx v - (if c then 0 else 1)) :: u16) = (uint a - uint v - of_bool (\<not> c)) mod 65536"
  by (simp add: uint_u16_of_u32 uint_word_ariths uint_zx mod_simps mod_mod_cancel)

lemma sbc_no_borrow:
  "(ucast (zx a - zx v - (if c then 0 else 1)) :: u16) < 0x100 \<longleftrightarrow> uint v + of_bool (\<not> c) \<le> uint a"
proof -
  define x where "x = uint a - uint v - of_bool (\<not> c)"
  have "0 \<le> uint a" "uint a < 256" "0 \<le> uint v" "uint v < 256"
    using uint_lt2p [of v] uint_lt2p [of a] by simp_all
  moreover have "x = uint a - uint v \<or> x = uint a - uint v - 1" by (simp add: x_def)
  ultimately have xb: "- 256 \<le> x" "x \<le> 255" by linarith+
  have "x mod 65536 < 256 \<longleftrightarrow> 0 \<le> x"
  proof (cases "0 \<le> x")
    case False
    have "x mod 65536 = (x + 65536) mod 65536" by simp
    also have "\<dots> = x + 65536" using False xb by (intro mod_pos_pos_trivial) auto
    finally show ?thesis using False xb by simp
  qed (use xb in \<open>simp add: mod_pos_pos_trivial\<close>)
  then show ?thesis unfolding u16_less_256 sbc_tmp x_def [symmetric] by (simp add: x_def algebra_simps)
qed

text \<open>The difference and the sum with the complement.\<close>

lemma sbc_complement:
  fixes v :: u8 and s :: "'e cpu"
  defines "t \<equiv> zx (NOT v) + zx (reg_a s) + carry s"
    and "r \<equiv> ucast (zx (reg_a s) - zx v - (if LOCAL_CARRY s then 0 else 1)) :: u16"
  shows "lo8 (ucast r) = lo8 t" and "r < 0x100 \<longleftrightarrow> 0xff < t"
    and "(truth ((zx (reg_a s) XOR ucast r) AND 0x80) \<and> truth ((zx (reg_a s) XOR zx v) AND 0x80)) \<longleftrightarrow>
      (\<not> truth ((zx (reg_a s) XOR zx (NOT v)) AND 0x80) \<and> truth ((zx (reg_a s) XOR t) AND 0x80))"
proof -
  define x where "x = uint (reg_a s) - uint v - of_bool (\<not> LOCAL_CARRY s)"
  have r: "uint r = x mod 65536" unfolding x_def r_def by (rule sbc_tmp)
  have t: "int (unat t) = x + 256"
    unfolding t_def adc_sum x_def unat_not_u8 using u8_lt [of v] by (simp add: of_nat_diff)
  show lo: "lo8 (ucast r) = lo8 t"
  proof -
    have "uint (lo8 (ucast r)) = x mod 256" unfolding uint_lo8_u16 r by (simp add: mod_mod_cancel)
    moreover have "uint (lo8 t) = x mod 256"
      using arg_cong [OF unat_lo8 [of t], of int] t by (simp add: zmod_int)
    ultimately show ?thesis by (simp add: word_uint_eq_iff)
  qed
  have "0xff < t \<longleftrightarrow> 0 \<le> x" using t by (simp add: word_less_def) arith
  then show "r < 0x100 \<longleftrightarrow> 0xff < t"
    unfolding r_def sbc_no_borrow by (simp add: x_def algebra_simps)
  have "bit (ucast r :: u32) 7 \<longleftrightarrow> bit t 7"
    using arg_cong [OF lo, of "\<lambda>w. bit w 7"] by (simp add: bit_ucast_iff)
  then show "(truth ((zx (reg_a s) XOR ucast r) AND 0x80) \<and> truth ((zx (reg_a s) XOR zx v) AND 0x80)) \<longleftrightarrow>
      (\<not> truth ((zx (reg_a s) XOR zx (NOT v)) AND 0x80) \<and> truth ((zx (reg_a s) XOR t) AND 0x80))"
    unfolding and_bits bit_xor_iff by (auto simp: bit_not_iff)
qed

text \<open>
  C31 (sbc_adds_complement): in binary mode SBC, computed on its own from the borrow, does exactly what
  ADC does with the complement of the operand: same result, same carry, overflow, N and Z flags,
  same clock and PC.
\<close>
theorem sbc_adds_complement:
  assumes "\<not> LOCAL_DECIMAL s"
  shows "run_state (SBC (ret (zx v)) ci pi) s = run_state (ADC (ret (zx (NOT v))) ci pi) s"
  unfolding run_SBC_binary [OF assms] run_ADC_binary [OF assms] Let_def zx_u16 lo8_and_ff sbc_complement ..

section \<open>Decimal mode\<close>

text \<open>A byte as two decimal digits.\<close>

definition bcd_ok :: "u8 \<Rightarrow> bool" where
  "bcd_ok w \<longleftrightarrow> unat w div 16 \<le> 9 \<and> unat w mod 16 \<le> 9"

definition bcd :: "u8 \<Rightarrow> nat" where
  "bcd w = 10 * (unat w div 16) + unat w mod 16"

text \<open>The sum of the digits with the correction of each digit, as \<open>ADC\<close> computes it.\<close>

definition adc_low :: "u32 \<Rightarrow> u32 \<Rightarrow> u32 \<Rightarrow> u32" where
  "adc_low a v c = (let t = (a AND 0xf) + (v AND 0xf) + c in if t > 0x9 then t + 0x6 else t)"

definition adc_mid :: "u32 \<Rightarrow> u32 \<Rightarrow> u32 \<Rightarrow> u32" where
  "adc_mid a v c = (let t = adc_low a v c in
     if t \<le> 0xf then (t AND 0xf) + (a AND 0xf0) + (v AND 0xf0)
     else (t AND 0xf) + (a AND 0xf0) + (v AND 0xf0) + 0x10)"

definition adc_high :: "u32 \<Rightarrow> u32" where
  "adc_high t = (if (t AND 0x1f0) > 0x90 then t + 0x60 else t)"

lemma run_ADC_decimal:
  assumes "LOCAL_DECIMAL s"
  shows "run_state (ADC (ret v) ci pi) s =
    ((), let a = zx (reg_a s); t = adc_mid a v (carry s); h = adc_high t
         in arith_result ci pi (lo8 h)
              (truth ((a XOR t) AND 0x80) \<and> \<not> truth ((a XOR v) AND 0x80))
              ((h AND 0xff0) > 0xf0) (if truth (t AND 0x80) then 0x80 else 0)
              (if (a + v + carry s) AND 0xff = 0 then 0 else 1) s)"
  using assms by (simp add: ADC_def cpu arith_result_def adc_low_def adc_mid_def adc_high_def Let_def)

lemma unat_digits:
  assumes "bcd_ok a" "bcd_ok v" "c = of_bool b"
  defines "n \<equiv> unat a mod 16 + unat v mod 16 + of_bool b"
  shows "unat (adc_mid (zx a) (zx v) c) =
    (if n > 9 then n - 10 + 16 * (unat a div 16 + unat v div 16 + 1)
     else n + 16 * (unat a div 16 + unat v div 16))"
proof -
  have d: "unat a mod 16 \<le> 9" "unat v mod 16 \<le> 9" "unat a div 16 \<le> 9" "unat v div 16 \<le> 9"
    using assms(1,2) by (simp_all add: bcd_ok_def)
  have n: "n \<le> 19" using d by (simp add: n_def)
  have t: "unat ((zx a AND 0xf) + (zx v AND 0xf) + c) = n"
    using d by (simp add: unat_word_ariths(1) wnat n_def assms(3))
  have low: "unat (adc_low (zx a) (zx v) c) = (if n > 9 then n + 6 else n)"
    using n t by (simp add: adc_low_def Let_def word_less_nat_alt unat_word_ariths(1))
  have m: "9 < n \<Longrightarrow> (n + 6) mod 16 = n - 10" using n by (simp add: le_mod_geq)
  show ?thesis
    using n d low m
    by (simp add: adc_mid_def Let_def word_le_nat_alt unat_word_ariths(1) wnat)
qed

lemma adc_high_digits:
  assumes "unat t = l + 16 * h" "l \<le> 9" "h \<le> 19"
  shows "unat (adc_high t) = l + 16 * (if h > 9 then h + 6 else h)"
proof -
  have "unat (t AND 0x1f0) = 16 * h" using assms by (simp add: wnat)
  then have "(t AND 0x1f0) > 0x90 \<longleftrightarrow> h > 9" by (simp add: word_less_nat_alt)
  then show ?thesis using assms by (simp add: adc_high_def unat_word_ariths(1))
qed

text \<open>
  C29 (adc_decimal): in decimal mode, for operands made of decimal digits, ADC adds them as two-digit
  decimal numbers with carry: the accumulator holds the digits of the sum modulo 100 and the carry
  tells whether the sum reached 100. As on the NMOS chip the Z flag is that of the binary sum.
\<close>
theorem adc_decimal:
  assumes "LOCAL_DECIMAL s" and "bcd_ok (reg_a s)" and "bcd_ok v"
    and "run_state (ADC (ret (zx v)) ci pi) s = ((), s')"
  shows "bcd_ok (reg_a s') \<and>
    bcd (reg_a s') = (bcd (reg_a s) + bcd v + of_bool (LOCAL_CARRY s)) mod 100 \<and>
    (LOCAL_CARRY s' \<longleftrightarrow> 100 \<le> bcd (reg_a s) + bcd v + of_bool (LOCAL_CARRY s)) \<and>
    (LOCAL_ZERO s' \<longleftrightarrow> (unat (reg_a s) + unat v + of_bool (LOCAL_CARRY s)) mod 256 = 0)"
proof -
  let ?a = "reg_a s" and ?c = "of_bool (LOCAL_CARRY s) :: nat"
  define n where "n = unat ?a mod 16 + unat v mod 16 + ?c"
  define l where "l = (if n > 9 then n - 10 else n)"
  define h where "h = unat ?a div 16 + unat v div 16 + (if n > 9 then 1 else 0)"
  have d: "unat ?a mod 16 \<le> 9" "unat v mod 16 \<le> 9" "unat ?a div 16 \<le> 9" "unat v div 16 \<le> 9"
    using assms(2,3) by (simp_all add: bcd_ok_def)
  then have l: "l \<le> 9" and h: "h \<le> 19" by (auto simp: l_def h_def n_def)
  have c: "carry s = of_bool (LOCAL_CARRY s)"
    by (simp add: word_unat_eq_iff carry_num)
  let ?t = "adc_mid (zx ?a) (zx v) (carry s)"
  have t: "unat ?t = l + 16 * h"
    using unat_digits [OF assms(2,3) c] by (simp add: n_def l_def h_def)
  have th: "unat (adc_high ?t) = l + 16 * (if h > 9 then h + 6 else h)"
    by (rule adc_high_digits [OF t l h])
  have s': "s' = arith_result ci pi (lo8 (adc_high ?t))
      (truth ((zx ?a XOR ?t) AND 0x80) \<and> \<not> truth ((zx ?a XOR zx v) AND 0x80))
      ((adc_high ?t AND 0xff0) > 0xf0) (if truth (?t AND 0x80) then 0x80 else 0)
      (if (zx ?a + zx v + carry s) AND 0xff = 0 then 0 else 1) s"
    using assms(4) run_ADC_decimal [OF assms(1), of "zx v" ci pi] by (simp add: Let_def)
  have a': "unat (reg_a s') = l + 16 * (if h > 9 then h - 10 else h)"
  proof -
    have "9 < h \<Longrightarrow> (l + (16 * h + 96)) mod 256 = l + 16 * (h - 10)"
      using l h by (simp add: le_mod_geq)
    then show ?thesis using l h th by (simp add: s' arith_result_def wnat)
  qed
  have sum: "bcd ?a + bcd v + ?c = l + 10 * h"
    by (simp add: bcd_def l_def h_def n_def)
  have carry: "LOCAL_CARRY s' \<longleftrightarrow> 9 < h"
    using l h th by (simp add: s' arith_result_def word_less_nat_alt wnat)
  have zero: "LOCAL_ZERO s' \<longleftrightarrow> (unat ?a + unat v + ?c) mod 256 = 0"
  proof -
    have "unat (zx ?a + zx v + carry s) = unat ?a + unat v + ?c"
      using adc_sum [of ?a v s] by (simp add: ac_simps)
    then have "(zx ?a + zx v + carry s) AND 0xff = 0 \<longleftrightarrow> (unat ?a + unat v + ?c) mod 256 = 0"
      by (simp only: word_unat_eq_iff and_fields) simp
    then show ?thesis by (simp add: s' arith_result_def)
  qed
  show ?thesis
  proof (intro conjI)
    show "bcd_ok (reg_a s')" using a' l h by (auto simp: bcd_ok_def)
    show "bcd (reg_a s') = (bcd ?a + bcd v + ?c) mod 100"
      using a' l h unfolding sum by (auto simp: bcd_def le_mod_geq)
    show "LOCAL_CARRY s' \<longleftrightarrow> 100 \<le> bcd ?a + bcd v + ?c" using carry l unfolding sum by linarith
  qed (rule zero)
qed

text \<open>The decimal difference as \<open>SBC\<close> computes it, on words that stand for small integers.\<close>

definition sbc_digits :: "u32 \<Rightarrow> u32 \<Rightarrow> u32 \<Rightarrow> u32" where
  "sbc_digits a v borrow =
    (let t = (a AND 0xf) - (v AND 0xf) - borrow;
         t = (if truth (t AND 0x10) then ((t - 6) AND 0xf) OR ((a AND 0xf0) - (v AND 0xf0) - 0x10)
              else (t AND 0xf) OR ((a AND 0xf0) - (v AND 0xf0)))
     in if truth (t AND 0x100) then t - 0x60 else t)"

lemma run_SBC_decimal:
  assumes "LOCAL_DECIMAL s"
  shows "run_state (SBC (ret (zx v)) ci pi) s =
    ((), let b = (if LOCAL_CARRY s then 0 else 1); a = zx (reg_a s);
             tmp = (ucast (a - zx v - b) :: u16)
         in arith_result ci pi (lo8 (sbc_digits a (zx v) b))
              (truth ((a XOR ucast tmp) AND 0x80) \<and> truth ((a XOR zx v) AND 0x80))
              (tmp < 0x100) (lo8 (ucast tmp AND 0xff)) (lo8 (ucast tmp AND 0xff)) s)"
proof -
  have swap: "put_flag P_OVERFLOW b (put_flag P_CARRY c p) = put_flag P_CARRY c (put_flag P_OVERFLOW b p)" for b c p
    by (rule bit_eqI) (auto simp: possible_bit_def)
  have u: "(ucast (zx v) :: u16) = ucast v" by (rule bit_eqI) (auto simp: bit_simps)
  have u': "(ucast (ucast v :: u16) :: u32) = zx v" using zx_u16 [of v] by (simp add: u)
  show ?thesis using assms
    by (simp add: SBC_def cpu arith_result_def sbc_digits_def Let_def swap zx_u16 u u')
qed

lemma and_0f_int: "(word_of_int k :: u32) AND 0xf = word_of_int (k mod 16)"
proof -
  have "(word_of_int k :: u32) AND 0xf = take_bit 4 (word_of_int k)"
    by (simp add: take_bit_eq_mask mask_eq_exp_minus_1)
  also have "\<dots> = word_of_int (take_bit 4 k)" by transfer (simp add: min_def)
  finally show ?thesis by (simp add: take_bit_eq_mod)
qed
lemma or_digit:
  assumes "0 \<le> l" "l < 16"
  shows "(word_of_int l :: u32) OR word_of_int (16 * h) = word_of_int (l + 16 * h)"
proof -
  have l: "l = take_bit 4 l" using assms by (simp add: take_bit_int_eq_self)
  have "l + push_bit 4 h = l OR push_bit 4 h"
    by (rule disjunctive_add) (subst l, auto simp: bit_simps)
  moreover have "(word_of_int l :: u32) OR word_of_int (push_bit 4 h) = word_of_int (l OR push_bit 4 h)"
    by transfer simp
  ultimately show ?thesis by (simp add: push_bit_eq_mult mult.commute)
qed
lemma bit_word_of_int: "n < 32 \<Longrightarrow> bit (word_of_int k :: u32) n \<longleftrightarrow> odd (k div 2 ^ n)"
  by (simp add: bit_word_of_int_iff) (simp add: bit_iff_odd)

lemma odd_div_small:
  "- (k :: int) \<le> d \<Longrightarrow> d < k \<Longrightarrow> odd (d div k) \<longleftrightarrow> d < 0"
proof (cases "d < 0")
  case True
  moreover assume "- k \<le> d" "d < k"
  ultimately have "d div k = - 1" by (intro int_div_pos_eq [where r = "d + k"]) auto
  with True show ?thesis by simp
qed simp

lemma unat_lo8_int: "unat (lo8 (word_of_int k)) = nat (k mod 256)"
proof -
  have "lo8 (word_of_int k) = word_of_int k" by (rule bit_eqI) (auto simp: bit_simps)
  then show ?thesis by (simp add: unat_eq_nat_uint uint_word_of_int)
qed

lemma nibbles_int:
  "zx a AND 0xf = word_of_int (int (unat a mod 16))"
  "zx a AND 0xf0 = word_of_int (16 * int (unat a div 16))"
proof -
  have w: "w = word_of_int (int (unat w))" for w :: u32 by simp
  show "zx a AND 0xf = word_of_int (int (unat a mod 16))"
    by (subst w) (simp only: and_fields unat_zx)
  have "unat (zx a AND 0xf0) = 16 * (unat a div 16)" using u8_lt [of a] by (simp add: wnat)
  then show "zx a AND 0xf0 = word_of_int (16 * int (unat a div 16))"
    by (subst w) (simp only: of_nat_mult of_nat_numeral)
qed

text \<open>For any operands: the adjusted difference of the digits, as an integer.\<close>

definition dec_diff :: "u8 \<Rightarrow> u8 \<Rightarrow> int \<Rightarrow> int" where
  "dec_diff a v b = (let al = int (unat a mod 16) - int (unat v mod 16) - b in
     16 * int (unat a div 16) - 16 * int (unat v div 16) + (if al < 0 then (al - 6) mod 16 - 16 else al))"

lemma dec_diff_range:
  assumes "b \<in> {0, 1}"
  shows "- 256 \<le> dec_diff a v b \<and> dec_diff a v b < 256"
proof -
  define al where "al = int (unat a mod 16) - int (unat v mod 16) - b"
  have m: "unat a mod 16 \<le> 15" "unat v mod 16 \<le> 15" "unat a div 16 \<le> 15" "unat v div 16 \<le> 15"
    using u8_lt [of a] u8_lt [of v] by simp_all
  have "al \<le> 15" using m assms unfolding al_def by auto
  moreover have "0 \<le> (al - 6) mod 16" "(al - 6) mod 16 < 16" by simp_all
  ultimately show ?thesis using m unfolding dec_diff_def Let_def al_def [symmetric] by (cases "al < 0") auto
qed

lemma sbc_digits_int:
  fixes a v :: u8
  assumes "b \<in> {0, 1}"
  defines "h \<equiv> dec_diff a v b"
  shows "lo8 (sbc_digits (zx a) (zx v) (word_of_int b)) = lo8 (word_of_int (if h < 0 then h - 96 else h))"
proof -
  define al where "al = int (unat a mod 16) - int (unat v mod 16) - b"
  define l where "l = (if al < 0 then (al - 6) mod 16 else al)"
  define k where "k = int (unat a div 16) - int (unat v div 16) - (if al < 0 then 1 else 0)"
  have m: "unat a mod 16 \<le> 15" "unat v mod 16 \<le> 15" by arith+
  have al: "- 16 \<le> al" "al < 16" using m assms(1) unfolding al_def by auto
  have l: "0 \<le> l" "l < 16" using al by (auto simp: l_def)
  have h: "h = l + 16 * k" by (simp add: h_def dec_diff_def al_def [symmetric] l_def k_def Let_def)
  let ?t = "(zx a AND 0xf) - (zx v AND 0xf) - word_of_int b :: u32"
  have t: "?t = word_of_int al" by (simp add: nibbles_int al_def)
  have neg: "truth (?t AND 0x10) \<longleftrightarrow> al < 0"
    unfolding and_bits t using odd_div_small [of 16 al] al bit_word_of_int [of 4 al] by simp
  have six: "(word_of_int al :: u32) - 6 = word_of_int (al - 6)" by simp
  have nonneg: "\<not> al < 0 \<Longrightarrow> al mod 16 = al" using al by simp
  have low: "(if truth (?t AND 0x10) then ((?t - 6) AND 0xf) else (?t AND 0xf)) = word_of_int l"
    unfolding neg unfolding t six and_0f_int l_def using nonneg by (cases "al < 0") simp_all
  let ?hi = "(zx a AND 0xf0) - (zx v AND 0xf0) :: u32"
  have high: "(if truth (?t AND 0x10) then ?hi - 0x10 else ?hi) = word_of_int (16 * k)"
    unfolding neg by (simp add: nibbles_int k_def algebra_simps)
  have dist: "(if c then x OR p else y OR q) = (if c then x else y) OR (if c then p else q)"
    for c and x y p q :: u32 by simp
  have u: "(if truth (?t AND 0x10) then ((?t - 6) AND 0xf) OR (?hi - 0x10) else (?t AND 0xf) OR ?hi) =
      word_of_int h"
    unfolding dist low high h using l by (intro or_digit) auto
  have neg8: "truth ((word_of_int h :: u32) AND 0x100) \<longleftrightarrow> h < 0"
    unfolding and_bits
    using odd_div_small [of 256 h] bit_word_of_int [of 8 h] dec_diff_range [OF assms(1), of a v] by (simp add: h_def)
  have "(if truth ((word_of_int h :: u32) AND 0x100) then word_of_int h - 0x60 else word_of_int h) =
      (word_of_int (if h < 0 then h - 96 else h) :: u32)"
    unfolding neg8 by simp
  then show ?thesis unfolding sbc_digits_def Let_def u by simp
qed

lemma sbc_digits_value:
  assumes "bcd_ok a" "bcd_ok v" "b \<in> {0, 1}"
  defines "d \<equiv> int (unat a mod 16) - int (unat v mod 16) - b"
  defines "h \<equiv> int (unat a div 16) - int (unat v div 16) - (if d < 0 then 1 else 0)"
  shows "unat (lo8 (sbc_digits (zx a) (zx v) (word_of_int b))) =
    nat ((if d < 0 then d + 10 else d) + 16 * (if h < 0 then h + 10 else h))"
proof -
  have r: "unat a mod 16 \<le> 9" "unat v mod 16 \<le> 9" "unat a div 16 \<le> 9" "unat v div 16 \<le> 9"
    using assms(1,2) by (simp_all add: bcd_ok_def)
  have b: "0 \<le> b" "b \<le> 1" using assms(3) by auto
  have d: "- 10 \<le> d" "d \<le> 9" using r b unfolding d_def by linarith+
  define l where "l = (if d < 0 then d + 10 else d)"
  have l: "0 \<le> l" "l \<le> 9" using d by (auto simp: l_def)
  have h: "- 10 \<le> h" "h \<le> 9" using r unfolding h_def by (auto split: if_split)
  have six: "d < 0 \<Longrightarrow> (d - 6) mod 16 = d + 10" using d by (intro int_mod_pos_eq [where q = "- 1"]) auto
  have dd: "dec_diff a v b = l + 16 * h"
    using six by (simp add: dec_diff_def Let_def d_def [symmetric] l_def h_def)
  have "(if l + 16 * h < 0 then l + 16 * h - 96 else l + 16 * h) mod 256 = l + 16 * (if h < 0 then h + 10 else h)"
  proof (cases "h < 0")
    case True
    then have "(l + 16 * h - 96) mod 256 = l + 16 * (h + 10)"
      using l h by (intro int_mod_pos_eq [where q = "- 1"]) auto
    then show ?thesis using True l by simp
  next
    case False
    then show ?thesis using l h by simp
  qed
  then show ?thesis
    unfolding sbc_digits_int [OF assms(3)] dd unat_lo8_int l_def [symmetric] by simp
qed

lemma digits_le:
  fixes al vl ah vh b :: int
  assumes "0 \<le> al" "al \<le> 9" "0 \<le> vl" "vl \<le> 9" "0 \<le> b" "b \<le> 1"
  shows "16 * vh + vl + b \<le> 16 * ah + al \<longleftrightarrow> 10 * vh + vl + b \<le> 10 * ah + al"
proof -
  consider "vh + 1 \<le> ah" | "vh = ah" | "ah + 1 \<le> vh" by linarith
  then show ?thesis
  proof cases
    case 1
    then have "16 * vh + 16 \<le> 16 * ah" "10 * vh + 10 \<le> 10 * ah" by simp_all
    then show ?thesis using assms by linarith
  next
    case 3
    then have "16 * ah + 16 \<le> 16 * vh" "10 * ah + 10 \<le> 10 * vh" by simp_all
    then show ?thesis using assms by linarith
  qed simp
qed

text \<open>
  C30 (sbc_decimal): in decimal mode, for operands made of decimal digits, SBC subtracts two-digit decimal
  numbers with borrow: the accumulator holds the digits of the difference modulo 100, and the carry
  is set exactly when there is no borrow.
\<close>
theorem sbc_decimal:
  assumes "LOCAL_DECIMAL s" and "bcd_ok (reg_a s)" and "bcd_ok v"
    and "run_state (SBC (ret (zx v)) ci pi) s = ((), s')"
  shows "bcd_ok (reg_a s') \<and>
    int (bcd (reg_a s')) = (int (bcd (reg_a s)) - int (bcd v) - of_bool (\<not> LOCAL_CARRY s)) mod 100 \<and>
    (LOCAL_CARRY s' \<longleftrightarrow> bcd v + of_bool (\<not> LOCAL_CARRY s) \<le> bcd (reg_a s))"
proof -
  let ?a = "reg_a s" and ?b = "of_bool (\<not> LOCAL_CARRY s) :: int"
  define d where "d = int (unat ?a mod 16) - int (unat v mod 16) - ?b"
  define l where "l = (if d < 0 then d + 10 else d)"
  define h where "h = int (unat ?a div 16) - int (unat v div 16) - (if d < 0 then 1 else 0)"
  have r: "unat ?a mod 16 \<le> 9" "unat v mod 16 \<le> 9" "unat ?a div 16 \<le> 9" "unat v div 16 \<le> 9"
    using assms(2,3) by (simp_all add: bcd_ok_def)
  have b: "0 \<le> ?b" "?b \<le> 1" by auto
  have d: "- 10 \<le> d" "d \<le> 9" using r b unfolding d_def by linarith+
  then have l: "0 \<le> l" "l \<le> 9" by (auto simp: l_def)
  have h: "- 10 \<le> h" "h \<le> 9" using r unfolding h_def by (auto split: if_split)
  have nb: "(if LOCAL_CARRY s then 0 else 1) = (word_of_int ?b :: u32)" by simp
  have e: "s' = snd (run_state (SBC (ret (zx v)) ci pi) s)" using assms(4) by simp
  have s': "reg_a s' = lo8 (sbc_digits (zx ?a) (zx v) (word_of_int ?b))"
    unfolding e run_SBC_decimal [OF assms(1)] Let_def nb by (simp add: arith_result_def)
  have carry: "LOCAL_CARRY s' \<longleftrightarrow> uint v + ?b \<le> uint ?a"
    unfolding e run_SBC_decimal [OF assms(1)] Let_def sbc_no_borrow by (simp add: arith_result_def)
  define h' where "h' = (if h < 0 then h + 10 else h)"
  have h': "0 \<le> h'" "h' \<le> 9" using h by (auto simp: h'_def)
  have a': "int (unat (reg_a s')) = l + 16 * h'"
    using sbc_digits_value [OF assms(2,3), of ?b] l h'
    unfolding s' d_def [symmetric] h_def [symmetric] l_def h'_def by simp
  have dig: "uint w = 16 * int (unat w div 16) + int (unat w mod 16)" for w :: u8
    by (metis mult_div_mod_eq of_nat_add of_nat_mult of_nat_numeral uint_nat)
  have diff: "int (bcd ?a) - int (bcd v) - ?b = l + 10 * h"
    by (simp add: bcd_def l_def h_def d_def)
  have n: "unat (reg_a s') = nat l + 16 * nat h'" using a' l h' by linarith
  have dm: "unat (reg_a s') div 16 = nat h'" "unat (reg_a s') mod 16 = nat l"
    using l unfolding n by simp_all
  show ?thesis
  proof (intro conjI)
    show "bcd_ok (reg_a s')" using l h' unfolding bcd_ok_def dm by (simp add: nat_le_iff)
    have "int (bcd (reg_a s')) = l + 10 * h'" using l h' unfolding bcd_def dm by simp
    also have "\<dots> = (l + 10 * h) mod 100"
      using l h by (intro int_mod_pos_eq [symmetric, where q = "if h < 0 then - 1 else 0"]) (auto simp: h'_def)
    finally show "int (bcd (reg_a s')) = (int (bcd ?a) - int (bcd v) - ?b) mod 100"
      unfolding diff .
    have "uint v + ?b \<le> uint ?a \<longleftrightarrow> int (bcd v) + ?b \<le> int (bcd ?a)"
      unfolding dig [of v] dig [of ?a] bcd_def of_nat_add of_nat_mult of_nat_numeral
      by (rule digits_le) (use r b in auto)
    then show "LOCAL_CARRY s' \<longleftrightarrow> bcd v + of_bool (\<not> LOCAL_CARRY s) \<le> bcd ?a"
      unfolding carry by (simp flip: of_nat_le_iff [where 'a = int])
  qed
qed

section \<open>Comparison and rotation\<close>

lemma no_borrow: "zx a - zx v < 0x100 \<longleftrightarrow> v \<le> a"
proof -
  let ?d = "zx a - zx v"
  have b: "0 \<le> uint a" "uint a < 256" "0 \<le> uint v" "uint v < 256"
    using uint_lt2p [of v] uint_lt2p [of a] by simp_all
  have d: "uint ?d = (uint a - uint v) mod 4294967296" by (simp add: uint_word_ariths uint_zx)
  have le: "uint v \<le> uint a \<Longrightarrow> uint ?d = uint a - uint v"
    unfolding d by (rule mod_pos_pos_trivial) (use b in linarith)+
  have gt: "\<not> uint v \<le> uint a \<Longrightarrow> uint ?d = uint a - uint v + 4294967296"
    unfolding d by (rule int_mod_pos_eq [where q = "- 1"]) (use b in linarith)+
  have "?d < 0x100 \<longleftrightarrow> uint ?d < 256" by (simp add: word_less_def)
  then show ?thesis using b le gt unfolding word_le_def by (cases "uint v \<le> uint a") linarith+
qed

text \<open>
  CMP compares without changing the accumulator: carry tells whether the accumulator is
  at least the operand, Z whether they are equal, N is bit 7 of the difference.
\<close>
theorem cmp_orders:
  assumes "run_state (CMP (ret (zx v)) ci pi) s = ((), s')"
  shows "(LOCAL_CARRY s' \<longleftrightarrow> v \<le> reg_a s) \<and> (LOCAL_ZERO s' \<longleftrightarrow> reg_a s = v) \<and>
    (LOCAL_SIGN s' \<longleftrightarrow> bit (reg_a s - v) 7) \<and> reg_a s' = reg_a s \<and>
    (LOCAL_OVERFLOW s' \<longleftrightarrow> LOCAL_OVERFLOW s)"
proof -
  let ?d = "zx (reg_a s) - zx v"
  have s': "s' = snd (run_state (CMP (ret (zx v)) ci pi) s)" using assms by simp
  have lo: "lo8 (?d AND 0xff) = reg_a s - v"
    unfolding lo8_and_ff
    by (simp add: word_uint_eq_iff uint_word_ariths unsigned_ucast_eq take_bit_eq_mod uint_zx mod_simps
        mod_mod_cancel)
  show ?thesis
    unfolding s' by (simp add: CMP_def cpu lo no_borrow)
qed

text \<open>
  ROR A undoes ROL A: accumulator and carry are restored, the two opcodes only
  leave N and Z of the accumulator behind.
\<close>
theorem rol_ror_inverse:
  "reg_a (snd (run_state (do { ROL_A; ROR_A }) s)) = reg_a s \<and>
   reg_p (snd (run_state (do { ROL_A; ROR_A }) s)) = reg_p s \<and>
   flag_n (snd (run_state (do { ROL_A; ROR_A }) s)) = reg_a s \<and>
   flag_z (snd (run_state (do { ROL_A; ROR_A }) s)) = reg_a s"
proof -
  let ?t = "push_bit 1 (zx (reg_a s)) OR carry s"
  let ?p = "put_flag P_CARRY (truth (?t AND 0x100)) (reg_p s)"
  have c: "bit (carry s) n \<longleftrightarrow> n = 0 \<and> bit (reg_p s) 0" for n
    by (auto simp: carry_def bit_ucast_iff bit_and_iff)
  have a: "lo8 (drop_bit 1 (zx (lo8 ?t)) OR push_bit 7 (zx ?p)) = reg_a s"
  proof (rule bit_eqI)
    fix n assume n: "possible_bit TYPE(u8) n"
    then show "bit (lo8 (drop_bit 1 (zx (lo8 ?t)) OR push_bit 7 (zx ?p))) n \<longleftrightarrow> bit (reg_a s) n"
      by (cases "n = 7") (auto simp: and_bits bit_simps bit_twice c)
  qed
  have p: "put_flag P_CARRY (truth (zx (lo8 ?t) AND 1)) ?p = reg_p s"
    by (rule bit_eqI) (auto simp: and_bits bit_simps bit_twice c possible_bit_def)
  show ?thesis using a p by (simp add: ROL_A_def ROR_A_def cpu Let_def)
qed

section \<open>Witnesses\<close>

text \<open>A CPU after reset, with nothing pending.\<close>

definition wit_cpu :: "unit cpu" where
  "wit_cpu = \<lparr>glb = \<lparr>maincpu_clk = 6, maincpu_int_status = wit_cs, maincpu_alarm_context = wit_start,
       maincpu_rmw_flag = 0, last_opcode_info = 0, last_opcode_addr = 0,
       maincpu_regs = \<lparr>mr_pc = 0, mr_a = 0, mr_x = 0, mr_y = 0, mr_sp = 0, mr_p = 0, mr_n = 0, mr_z = 0\<rparr>,
       reg_pc = 0x1000, bank_base = 0, bank_start = 0, bank_limit = 0, mem_ram = (\<lambda>_. 0),
       fault = False, dev = ()\<rparr>,
     reg_a = 0x79, reg_x = 0, reg_y = 0, reg_p = 0, reg_sp = 0xff, flag_n = 0, flag_z = 1\<rparr>"

lemma run_unit: "run_state (f :: ('s, unit) state) s = ((), snd (run_state f s))"
  by (metis old.unit.exhaust surjective_pairing)

theorem adc_binary_witness:
  "unat (reg_a (snd (run_state (ADC (ret (zx 0x10)) 0 2) wit_cpu))) = 0x89 \<and>
   LOCAL_OVERFLOW (snd (run_state (ADC (ret (zx 0x10)) 0 2) wit_cpu))"
  using adc_binary [OF _ run_unit [of "ADC (ret (zx 0x10)) 0 2" wit_cpu]]
  by (simp add: wit_cpu_def)

theorem sbc_adds_complement_witness:
  "run_state (SBC (ret (zx 0x10)) 0 2) wit_cpu = run_state (ADC (ret (zx (NOT 0x10))) 0 2) wit_cpu"
  using sbc_adds_complement [where s = wit_cpu and v = "0x10" and ci = 0 and pi = 2] by (simp add: wit_cpu_def)

text \<open>79 + 23 and 79 - 80 in decimal mode.\<close>

definition wit_decimal :: "unit cpu" where
  "wit_decimal = wit_cpu\<lparr>reg_p := P_DECIMAL\<rparr>"

theorem adc_decimal_witness:
  "bcd (reg_a (snd (run_state (ADC (ret (zx 0x23)) 0 2) wit_decimal))) = 2 \<and>
   LOCAL_CARRY (snd (run_state (ADC (ret (zx 0x23)) 0 2) wit_decimal))"
  using adc_decimal [OF _ _ _ run_unit [of "ADC (ret (zx 0x23)) 0 2" wit_decimal]]
  by (simp add: wit_decimal_def wit_cpu_def bcd_ok_def bcd_def)

theorem sbc_decimal_witness:
  "int (bcd (reg_a (snd (run_state (SBC (ret (zx 0x80)) 0 2) wit_decimal)))) = 98 \<and>
   \<not> LOCAL_CARRY (snd (run_state (SBC (ret (zx 0x80)) 0 2) wit_decimal))"
  using sbc_decimal [OF _ _ _ run_unit [of "SBC (ret (zx 0x80)) 0 2" wit_decimal]]
  by (simp add: wit_decimal_def wit_cpu_def bcd_ok_def bcd_def)

theorem cmp_orders_witness:
  "LOCAL_CARRY (snd (run_state (CMP (ret (zx 0x78)) 0 2) wit_cpu))"
  using cmp_orders [OF run_unit [of "CMP (ret (zx 0x78)) 0 2" wit_cpu]]
  by (simp add: wit_cpu_def)

end
