(* ===== verification/Isa.thy ===== *)
theory Isa
  imports Prelude
begin

text \<open>
  The abstract specification of the CPU: the NMOS 6502 instruction set as its data sheets and the
  literature on its undocumented opcodes describe it, without any of the structure of 6510core.c.
  The flags are booleans, arithmetic is on natural numbers and integers, the opcode matrix is a
  table of instruction, addressing mode and base cycles, and memory is a function. There is no B
  flag: it only exists in the byte that PHP and BRK push. The undocumented opcodes are the compositions
  of documented ones they are known to be. CpuRefine shows that the core implements this.
\<close>

section \<open>State\<close>

record isa =
  i_pc :: u16
  i_a :: u8
  i_x :: u8
  i_y :: u8
  i_s :: u8
  i_n :: bool
  i_v :: bool
  i_d :: bool
  i_i :: bool
  i_z :: bool
  i_c :: bool
  i_mem :: "u16 \<Rightarrow> u8"
  i_cyc :: clock

datatype mode = Imp | Imm | Zp | ZpX | ZpY | Ab | AbX | AbY | IndX | IndY | Rel | Ind

text \<open>Instructions that read an operand, modify memory (or A), store, only touch registers or the
  stack, and the rest.\<close>

datatype rd_op = Adc | Sbc | And | Ora | Eor | Cmp | Cpx | Cpy | Bit | Lda | Ldx | Ldy | Lax | Anc |
  Asr | Arr | Ane | Lxa | Sbx | Las | Skip
datatype sh_op = Asl | Lsr | Rol | Ror | Inc | Dec
datatype md_op = Sh sh_op | Slo | Rla | Sre | Rra | Dcp | Isb
datatype wr_op = Sta | Stx | Sty | Sax | Sha | Shx | Shy | Shs
datatype im_op = Clc | Sec | Cli | Sei | Clv | Cld | Sed | Tax | Tay | Txa | Tya | Tsx | Txs |
  Dex | Dey | Inx | Iny | Pha | Php | Pla | Plp | Nop
datatype flag = FN | FV | FZ | FC

datatype instr = Rd rd_op | Md md_op | Acc sh_op | Wr wr_op | Im im_op | Br flag bool |
  Brk | Jsr | Rti | Rts | Jmp

section \<open>Registers and flags\<close>

definition nz :: "u8 \<Rightarrow> isa \<Rightarrow> isa" where
  "nz v s = s\<lparr>i_n := bit v 7, i_z := (v = 0)\<rparr>"

definition isa_compare :: "u8 \<Rightarrow> u8 \<Rightarrow> isa \<Rightarrow> isa" where
  "isa_compare r v s = nz (r - v) (s\<lparr>i_c := (v \<le> r)\<rparr>)"

definition isa_flag :: "flag \<Rightarrow> isa \<Rightarrow> bool" where
  "isa_flag f s = (case f of FN \<Rightarrow> i_n s | FV \<Rightarrow> i_v s | FZ \<Rightarrow> i_z s | FC \<Rightarrow> i_c s)"

text \<open>The P register as a byte; \<open>b\<close> is the bit in the place of B.\<close>

definition isa_status :: "bool \<Rightarrow> isa \<Rightarrow> u8" where
  "isa_status b s = (if i_n s then 0x80 else 0) OR (if i_v s then 0x40 else 0) OR 0x20 OR
     (if b then 0x10 else 0) OR (if i_d s then 8 else 0) OR (if i_i s then 4 else 0) OR
     (if i_z s then 2 else 0) OR (if i_c s then 1 else 0)"

definition isa_set_status :: "u8 \<Rightarrow> isa \<Rightarrow> isa" where
  "isa_set_status p s = s\<lparr>i_n := bit p 7, i_v := bit p 6, i_d := bit p 3, i_i := bit p 2,
     i_z := bit p 1, i_c := bit p 0\<rparr>"

section \<open>Arithmetic\<close>

text \<open>
  Decimal addition is the known sequence of the NMOS chips, for any operand: the low digit is adjusted
  first, Z comes from the binary sum, N and V from the sum before the high digit is adjusted.
\<close>

definition isa_adc :: "u8 \<Rightarrow> isa \<Rightarrow> isa" where
  "isa_adc v s = (let a = i_a s; c = of_bool (i_c s); t = unat a + unat v + c in
     if \<not> i_d s then
       nz (of_nat t) (s\<lparr>i_a := of_nat t, i_c := (255 < t),
         i_v := (sint a + sint v + int c \<notin> {-128..127})\<rparr>)
     else let
       al = unat a mod 16 + unat v mod 16 + c;
       al' = (if 10 \<le> al then (al + 6) mod 16 + 16 else al);
       h = 16 * (unat a div 16) + 16 * (unat v div 16) + al';
       r = (if 160 \<le> h then h + 96 else h)
     in s\<lparr>i_a := of_nat r, i_c := (256 \<le> r), i_z := (t mod 256 = 0), i_n := odd (h div 128),
         i_v := (sint (a AND 0xf0) + sint (v AND 0xf0) + int al' \<notin> {-128..127})\<rparr>)"

text \<open>Subtraction sets all flags as in binary; only the accumulator is adjusted.\<close>

definition isa_sbc :: "u8 \<Rightarrow> isa \<Rightarrow> isa" where
  "isa_sbc v s = (let a = i_a s; b = of_bool (\<not> i_c s); t = int (unat a) - int (unat v) - b;
       al = int (unat a mod 16) - int (unat v mod 16) - b;
       al' = (if al < 0 then (al - 6) mod 16 - 16 else al);
       h = 16 * int (unat a div 16) - 16 * int (unat v div 16) + al';
       r = (if h < 0 then h - 96 else h)
     in nz (of_int t) (s\<lparr>i_a := (if i_d s then of_int r else of_int t), i_c := (0 \<le> t),
          i_v := (sint a - sint v - b \<notin> {-128..127})\<rparr>))"

text \<open>ARR: AND, then ROR with flags of its own, and a digit adjustment in decimal mode.\<close>

definition isa_arr :: "u8 \<Rightarrow> isa \<Rightarrow> isa" where
  "isa_arr v s = (let t = i_a s AND v; r = drop_bit 1 t OR (if i_c s then 0x80 else 0) in
     if \<not> i_d s then
       nz r (s\<lparr>i_a := r, i_c := bit r 6, i_v := (bit r 6 \<noteq> bit r 5)\<rparr>)
     else let
       lo = unat t mod 16; hi = unat t div 16;
       carry_lo = (5 < lo + lo mod 2); carry_hi = (5 < hi + hi mod 2)
     in s\<lparr>i_a := of_nat (16 * ((unat r div 16 + (if carry_hi then 6 else 0)) mod 16) +
                        (unat r mod 16 + (if carry_lo then 6 else 0)) mod 16),
          i_n := i_c s, i_z := (r = 0), i_v := (bit r 6 \<noteq> bit t 6), i_c := carry_hi\<rparr>)"

fun isa_read_op :: "rd_op \<Rightarrow> u8 \<Rightarrow> isa \<Rightarrow> isa" where
  "isa_read_op Adc v s = isa_adc v s"
| "isa_read_op Sbc v s = isa_sbc v s"
| "isa_read_op And v s = nz (i_a s AND v) (s\<lparr>i_a := i_a s AND v\<rparr>)"
| "isa_read_op Ora v s = nz (i_a s OR v) (s\<lparr>i_a := i_a s OR v\<rparr>)"
| "isa_read_op Eor v s = nz (i_a s XOR v) (s\<lparr>i_a := i_a s XOR v\<rparr>)"
| "isa_read_op Cmp v s = isa_compare (i_a s) v s"
| "isa_read_op Cpx v s = isa_compare (i_x s) v s"
| "isa_read_op Cpy v s = isa_compare (i_y s) v s"
| "isa_read_op Bit v s = s\<lparr>i_n := bit v 7, i_v := bit v 6, i_z := (i_a s AND v = 0)\<rparr>"
| "isa_read_op Lda v s = nz v (s\<lparr>i_a := v\<rparr>)"
| "isa_read_op Ldx v s = nz v (s\<lparr>i_x := v\<rparr>)"
| "isa_read_op Ldy v s = nz v (s\<lparr>i_y := v\<rparr>)"
| "isa_read_op Lax v s = nz v (s\<lparr>i_a := v, i_x := v\<rparr>)"
| "isa_read_op Anc v s = nz (i_a s AND v) (s\<lparr>i_a := i_a s AND v, i_c := bit (i_a s AND v) 7\<rparr>)"
| "isa_read_op Asr v s = (let t = i_a s AND v in
     nz (drop_bit 1 t) (s\<lparr>i_a := drop_bit 1 t, i_c := bit t 0\<rparr>))"
| "isa_read_op Arr v s = isa_arr v s"
| "isa_read_op Ane v s = nz (i_x s AND v) (s\<lparr>i_a := i_x s AND v\<rparr>)"
| "isa_read_op Lxa v s = (let t = (i_a s OR 0xee) AND v in nz t (s\<lparr>i_a := t, i_x := t\<rparr>))"
| "isa_read_op Sbx v s = (let t = i_a s AND i_x s in
     nz (t - v) (s\<lparr>i_x := t - v, i_c := (v \<le> t)\<rparr>))"
| "isa_read_op Las v s = (let t = i_s s AND v in nz t (s\<lparr>i_a := t, i_x := t, i_s := t\<rparr>))"
| "isa_read_op Skip v s = s"

fun isa_shift :: "sh_op \<Rightarrow> u8 \<Rightarrow> isa \<Rightarrow> u8 \<times> isa" where
  "isa_shift Asl v s = (let r = push_bit 1 v in (r, nz r (s\<lparr>i_c := bit v 7\<rparr>)))"
| "isa_shift Lsr v s = (let r = drop_bit 1 v in (r, nz r (s\<lparr>i_c := bit v 0\<rparr>)))"
| "isa_shift Rol v s = (let r = push_bit 1 v OR of_bool (i_c s) in (r, nz r (s\<lparr>i_c := bit v 7\<rparr>)))"
| "isa_shift Ror v s = (let r = drop_bit 1 v OR (if i_c s then 0x80 else 0) in
     (r, nz r (s\<lparr>i_c := bit v 0\<rparr>)))"
| "isa_shift Inc v s = (v + 1, nz (v + 1) s)"
| "isa_shift Dec v s = (v - 1, nz (v - 1) s)"

fun isa_mod_op :: "md_op \<Rightarrow> u8 \<Rightarrow> isa \<Rightarrow> u8 \<times> isa" where
  "isa_mod_op (Sh k) v s = isa_shift k v s"
| "isa_mod_op Slo v s = (let (r, s') = isa_shift Asl v s in (r, isa_read_op Ora r s'))"
| "isa_mod_op Rla v s = (let (r, s') = isa_shift Rol v s in (r, isa_read_op And r s'))"
| "isa_mod_op Sre v s = (let (r, s') = isa_shift Lsr v s in (r, isa_read_op Eor r s'))"
| "isa_mod_op Rra v s = (let (r, s') = isa_shift Ror v s in (r, isa_read_op Adc r s'))"
| "isa_mod_op Dcp v s = (let (r, s') = isa_shift Dec v s in (r, isa_read_op Cmp r s'))"
| "isa_mod_op Isb v s = (let (r, s') = isa_shift Inc v s in (r, isa_read_op Sbc r s'))"

section \<open>Stack and memory\<close>

definition i_lo :: "u16 \<Rightarrow> u8" where "i_lo w = ucast w"
definition i_hi :: "u16 \<Rightarrow> u8" where "i_hi w = ucast (drop_bit 8 w)"
definition mk16 :: "u8 \<Rightarrow> u8 \<Rightarrow> u16" where "mk16 lo hi = ucast lo OR push_bit 8 (ucast hi)"

definition i_stack :: "u8 \<Rightarrow> u16" where "i_stack sp = mk16 sp 1"

definition isa_push :: "u8 \<Rightarrow> isa \<Rightarrow> isa" where
  "isa_push v s = s\<lparr>i_mem := (i_mem s)(i_stack (i_s s) := v), i_s := i_s s - 1\<rparr>"

definition isa_pull :: "isa \<Rightarrow> u8 \<times> isa" where
  "isa_pull s = (i_mem s (i_stack (i_s s + 1)), s\<lparr>i_s := i_s s + 1\<rparr>)"

fun isa_imp_op :: "im_op \<Rightarrow> isa \<Rightarrow> isa" where
  "isa_imp_op Clc s = s\<lparr>i_c := False\<rparr>"
| "isa_imp_op Sec s = s\<lparr>i_c := True\<rparr>"
| "isa_imp_op Cli s = s\<lparr>i_i := False\<rparr>"
| "isa_imp_op Sei s = s\<lparr>i_i := True\<rparr>"
| "isa_imp_op Clv s = s\<lparr>i_v := False\<rparr>"
| "isa_imp_op Cld s = s\<lparr>i_d := False\<rparr>"
| "isa_imp_op Sed s = s\<lparr>i_d := True\<rparr>"
| "isa_imp_op Tax s = nz (i_a s) (s\<lparr>i_x := i_a s\<rparr>)"
| "isa_imp_op Tay s = nz (i_a s) (s\<lparr>i_y := i_a s\<rparr>)"
| "isa_imp_op Txa s = nz (i_x s) (s\<lparr>i_a := i_x s\<rparr>)"
| "isa_imp_op Tya s = nz (i_y s) (s\<lparr>i_a := i_y s\<rparr>)"
| "isa_imp_op Tsx s = nz (i_s s) (s\<lparr>i_x := i_s s\<rparr>)"
| "isa_imp_op Txs s = s\<lparr>i_s := i_x s\<rparr>"
| "isa_imp_op Dex s = nz (i_x s - 1) (s\<lparr>i_x := i_x s - 1\<rparr>)"
| "isa_imp_op Dey s = nz (i_y s - 1) (s\<lparr>i_y := i_y s - 1\<rparr>)"
| "isa_imp_op Inx s = nz (i_x s + 1) (s\<lparr>i_x := i_x s + 1\<rparr>)"
| "isa_imp_op Iny s = nz (i_y s + 1) (s\<lparr>i_y := i_y s + 1\<rparr>)"
| "isa_imp_op Pha s = isa_push (i_a s) s"
| "isa_imp_op Php s = isa_push (isa_status True s) s"
| "isa_imp_op Pla s = (let (v, s') = isa_pull s in nz v (s'\<lparr>i_a := v\<rparr>))"
| "isa_imp_op Plp s = (let (v, s') = isa_pull s in isa_set_status v s')"
| "isa_imp_op Nop s = s"

section \<open>Addressing\<close>

text \<open>The operand word \<open>w\<close> holds the two bytes after the opcode; a zero page pointer wraps in its page.\<close>

definition zp :: "u8 \<Rightarrow> u16" where "zp b = mk16 b 0"

definition zp_word :: "u8 \<Rightarrow> isa \<Rightarrow> u16" where
  "zp_word b s = mk16 (i_mem s (zp b)) (i_mem s (zp (b + 1)))"

fun isa_base :: "mode \<Rightarrow> u16 \<Rightarrow> isa \<Rightarrow> u16" where
  "isa_base Zp w s = zp (i_lo w)"
| "isa_base ZpX w s = zp (i_lo w + i_x s)"
| "isa_base ZpY w s = zp (i_lo w + i_y s)"
| "isa_base IndX w s = zp_word (i_lo w + i_x s) s"
| "isa_base IndY w s = zp_word (i_lo w) s"
| "isa_base md w s = w"

fun isa_index :: "mode \<Rightarrow> isa \<Rightarrow> u8" where
  "isa_index AbX s = i_x s"
| "isa_index AbY s = i_y s"
| "isa_index IndY s = i_y s"
| "isa_index md s = 0"

definition isa_ea :: "mode \<Rightarrow> u16 \<Rightarrow> isa \<Rightarrow> u16" where
  "isa_ea md w s = isa_base md w s + ucast (isa_index md s)"

text \<open>Indexing crosses a page; the address without the carry is read first.\<close>

definition isa_crossed :: "mode \<Rightarrow> u16 \<Rightarrow> isa \<Rightarrow> bool" where
  "isa_crossed md w s \<longleftrightarrow> i_hi (isa_ea md w s) \<noteq> i_hi (isa_base md w s)"

definition isa_wrong :: "mode \<Rightarrow> u16 \<Rightarrow> isa \<Rightarrow> u16" where
  "isa_wrong md w s = mk16 (i_lo (isa_ea md w s)) (i_hi (isa_base md w s))"

definition isa_operand :: "mode \<Rightarrow> u16 \<Rightarrow> isa \<Rightarrow> u8" where
  "isa_operand md w s = (if md = Imm then i_lo w else i_mem s (isa_ea md w s))"

fun isa_length :: "mode \<Rightarrow> u16" where
  "isa_length Imp = 1"
| "isa_length Ab = 3"
| "isa_length AbX = 3"
| "isa_length AbY = 3"
| "isa_length Ind = 3"
| "isa_length md = 2"

definition isa_next :: "mode \<Rightarrow> clock \<Rightarrow> isa \<Rightarrow> isa" where
  "isa_next md n s = s\<lparr>i_pc := i_pc s + isa_length md, i_cyc := i_cyc s + n\<rparr>"

section \<open>Instructions\<close>

text \<open>The unstable stores mix in the high byte of the base plus one, and use the value as the high byte
  of the address when the index crosses a page.\<close>

fun isa_store_value :: "wr_op \<Rightarrow> u8 \<Rightarrow> isa \<Rightarrow> u8" where
  "isa_store_value Sta h s = i_a s"
| "isa_store_value Stx h s = i_x s"
| "isa_store_value Sty h s = i_y s"
| "isa_store_value Sax h s = i_a s AND i_x s"
| "isa_store_value Sha h s = i_a s AND i_x s AND (h + 1)"
| "isa_store_value Shx h s = i_x s AND (h + 1)"
| "isa_store_value Shy h s = i_y s AND (h + 1)"
| "isa_store_value Shs h s = i_a s AND i_x s AND (h + 1)"

definition isa_unstable :: "wr_op \<Rightarrow> bool" where
  "isa_unstable w \<longleftrightarrow> w \<in> {Sha, Shx, Shy, Shs}"

definition isa_store_addr :: "wr_op \<Rightarrow> mode \<Rightarrow> u16 \<Rightarrow> isa \<Rightarrow> u16" where
  "isa_store_addr k md w s = (if isa_unstable k \<and> isa_crossed md w s
     then mk16 (i_lo (isa_ea md w s)) (isa_store_value k (i_hi (isa_base md w s)) s)
     else isa_ea md w s)"

definition isa_branch_dest :: "u16 \<Rightarrow> isa \<Rightarrow> u16" where
  "isa_branch_dest w s = i_pc s + 2 + scast (i_lo w)"

definition isa_enter :: "bool \<Rightarrow> u16 \<Rightarrow> u16 \<Rightarrow> clock \<Rightarrow> isa \<Rightarrow> isa" where
  "isa_enter b vec pc n s = (let s' = isa_push (isa_status b s) (isa_push (i_lo pc) (isa_push (i_hi pc) s)) in
     s'\<lparr>i_i := True, i_pc := mk16 (i_mem s' vec) (i_mem s' (vec + 1)), i_cyc := i_cyc s' + n\<rparr>)"

definition ind_hi :: "u16 \<Rightarrow> u16" where
  "ind_hi w = mk16 (i_lo w + 1) (i_hi w)"

fun isa_exec :: "instr \<Rightarrow> mode \<Rightarrow> clock \<Rightarrow> u16 \<Rightarrow> isa \<Rightarrow> isa" where
  "isa_exec (Rd k) md n w s =
     isa_next md (n + of_bool (isa_crossed md w s)) (isa_read_op k (isa_operand md w s) s)"
| "isa_exec (Md k) md n w s = (let a = isa_ea md w s; (v, s') = isa_mod_op k (i_mem s a) s in
     isa_next md n (s'\<lparr>i_mem := (i_mem s)(a := v)\<rparr>))"
| "isa_exec (Acc k) md n w s = (let (v, s') = isa_shift k (i_a s) s in
     isa_next md n (s'\<lparr>i_a := v\<rparr>))"
| "isa_exec (Wr k) md n w s =
     isa_next md n (s\<lparr>i_mem := (i_mem s)(isa_store_addr k md w s :=
                        isa_store_value k (i_hi (isa_base md w s)) s),
                      i_s := (if k = Shs then i_a s AND i_x s else i_s s)\<rparr>)"
| "isa_exec (Im k) md n w s = isa_next md n (isa_imp_op k s)"
| "isa_exec (Br f b) md n w s = (let d = isa_branch_dest w s in
     if isa_flag f s = b
     then s\<lparr>i_pc := d, i_cyc := i_cyc s + n + 1 + of_bool (i_hi d \<noteq> i_hi (i_pc s + 2))\<rparr>
     else isa_next md n s)"
| "isa_exec Brk md n w s = isa_enter True 0xfffe (i_pc s + 2) n s"
| "isa_exec Jsr md n w s = (let r = i_pc s + 2; s' = isa_push (i_lo r) (isa_push (i_hi r) s) in
     s'\<lparr>i_pc := mk16 (i_lo w) (i_mem s' r), i_cyc := i_cyc s + n\<rparr>)"
| "isa_exec Rti md n w s = (let (p, s1) = isa_pull s; (lo, s2) = isa_pull (isa_set_status p s1);
       (hi, s3) = isa_pull s2 in s3\<lparr>i_pc := mk16 lo hi, i_cyc := i_cyc s + n\<rparr>)"
| "isa_exec Rts md n w s = (let (lo, s1) = isa_pull s; (hi, s2) = isa_pull s1 in
     s2\<lparr>i_pc := mk16 lo hi + 1, i_cyc := i_cyc s + n\<rparr>)"
| "isa_exec Jmp md n w s = (if md = Ind
     then s\<lparr>i_pc := mk16 (i_mem s w) (i_mem s (ind_hi w)), i_cyc := i_cyc s + n\<rparr>
     else s\<lparr>i_pc := w, i_cyc := i_cyc s + n\<rparr>)"

text \<open>The addresses an instruction may read beyond its own bytes, and those it writes apart from the
  stack.\<close>

fun isa_pointer :: "mode \<Rightarrow> u16 \<Rightarrow> isa \<Rightarrow> u16 list" where
  "isa_pointer IndX w s = [zp (i_lo w + i_x s), zp (i_lo w + i_x s + 1)]"
| "isa_pointer IndY w s = [zp (i_lo w), zp (i_lo w + 1)]"
| "isa_pointer Ind w s = [w, ind_hi w]"
| "isa_pointer md w s = []"

fun isa_reads :: "instr \<Rightarrow> mode \<Rightarrow> u16 \<Rightarrow> isa \<Rightarrow> u16 list" where
  "isa_reads (Rd k) md w s = (if md = Imm then [] else
     isa_pointer md w s @ [isa_wrong md w s, isa_ea md w s])"
| "isa_reads (Md k) md w s = isa_pointer md w s @ [isa_wrong md w s, isa_ea md w s]"
| "isa_reads (Wr k) md w s = isa_pointer md w s @ [isa_wrong md w s]"
| "isa_reads (Br f b) md w s = (let d = isa_branch_dest w s in
     [i_pc s + 2, mk16 (i_lo d) (i_hi (i_pc s + 2))])"
| "isa_reads Brk md w s = [0xfffe, 0xffff]"
| "isa_reads Jsr md w s = [i_pc s + 2]"
| "isa_reads Rts md w s = [i_pc (isa_exec Rts md 0 w s) - 1]"
| "isa_reads Jmp md w s = isa_pointer md w s"
| "isa_reads i md w s = []"

fun isa_writes :: "instr \<Rightarrow> mode \<Rightarrow> u16 \<Rightarrow> isa \<Rightarrow> u16 list" where
  "isa_writes (Md k) md w s = [isa_ea md w s]"
| "isa_writes (Wr k) md w s = [isa_store_addr k md w s]"
| "isa_writes i md w s = []"

section \<open>Opcode matrix\<close>

text \<open>None marks the twelve opcodes that lock up the chip.\<close>

definition isa_opcodes :: "(instr \<times> mode \<times> clock) option list" where
  "isa_opcodes =
    [
     Some (Brk, Imp, 7), Some (Rd Ora, IndX, 6), None, Some (Md Slo, IndX, 8),
     Some (Rd Skip, Zp, 3), Some (Rd Ora, Zp, 3), Some (Md (Sh Asl), Zp, 5), Some (Md Slo, Zp, 5),
     Some (Im Php, Imp, 3), Some (Rd Ora, Imm, 2), Some (Acc Asl, Imp, 2), Some (Rd Anc, Imm, 2),
     Some (Rd Skip, Ab, 4), Some (Rd Ora, Ab, 4), Some (Md (Sh Asl), Ab, 6), Some (Md Slo, Ab, 6),
     Some (Br FN False, Rel, 2), Some (Rd Ora, IndY, 5), None, Some (Md Slo, IndY, 8),
     Some (Rd Skip, ZpX, 4), Some (Rd Ora, ZpX, 4), Some (Md (Sh Asl), ZpX, 6), Some (Md Slo, ZpX, 6),
     Some (Im Clc, Imp, 2), Some (Rd Ora, AbY, 4), Some (Im Nop, Imp, 2), Some (Md Slo, AbY, 7),
     Some (Rd Skip, AbX, 4), Some (Rd Ora, AbX, 4), Some (Md (Sh Asl), AbX, 7), Some (Md Slo, AbX, 7),
     Some (Jsr, Ab, 6), Some (Rd And, IndX, 6), None, Some (Md Rla, IndX, 8),
     Some (Rd Bit, Zp, 3), Some (Rd And, Zp, 3), Some (Md (Sh Rol), Zp, 5), Some (Md Rla, Zp, 5),
     Some (Im Plp, Imp, 4), Some (Rd And, Imm, 2), Some (Acc Rol, Imp, 2), Some (Rd Anc, Imm, 2),
     Some (Rd Bit, Ab, 4), Some (Rd And, Ab, 4), Some (Md (Sh Rol), Ab, 6), Some (Md Rla, Ab, 6),
     Some (Br FN True, Rel, 2), Some (Rd And, IndY, 5), None, Some (Md Rla, IndY, 8),
     Some (Rd Skip, ZpX, 4), Some (Rd And, ZpX, 4), Some (Md (Sh Rol), ZpX, 6), Some (Md Rla, ZpX, 6),
     Some (Im Sec, Imp, 2), Some (Rd And, AbY, 4), Some (Im Nop, Imp, 2), Some (Md Rla, AbY, 7),
     Some (Rd Skip, AbX, 4), Some (Rd And, AbX, 4), Some (Md (Sh Rol), AbX, 7), Some (Md Rla, AbX, 7),
     Some (Rti, Imp, 6), Some (Rd Eor, IndX, 6), None, Some (Md Sre, IndX, 8),
     Some (Rd Skip, Zp, 3), Some (Rd Eor, Zp, 3), Some (Md (Sh Lsr), Zp, 5), Some (Md Sre, Zp, 5),
     Some (Im Pha, Imp, 3), Some (Rd Eor, Imm, 2), Some (Acc Lsr, Imp, 2), Some (Rd Asr, Imm, 2),
     Some (Jmp, Ab, 3), Some (Rd Eor, Ab, 4), Some (Md (Sh Lsr), Ab, 6), Some (Md Sre, Ab, 6),
     Some (Br FV False, Rel, 2), Some (Rd Eor, IndY, 5), None, Some (Md Sre, IndY, 8),
     Some (Rd Skip, ZpX, 4), Some (Rd Eor, ZpX, 4), Some (Md (Sh Lsr), ZpX, 6), Some (Md Sre, ZpX, 6),
     Some (Im Cli, Imp, 2), Some (Rd Eor, AbY, 4), Some (Im Nop, Imp, 2), Some (Md Sre, AbY, 7),
     Some (Rd Skip, AbX, 4), Some (Rd Eor, AbX, 4), Some (Md (Sh Lsr), AbX, 7), Some (Md Sre, AbX, 7),
     Some (Rts, Imp, 6), Some (Rd Adc, IndX, 6), None, Some (Md Rra, IndX, 8),
     Some (Rd Skip, Zp, 3), Some (Rd Adc, Zp, 3), Some (Md (Sh Ror), Zp, 5), Some (Md Rra, Zp, 5),
     Some (Im Pla, Imp, 4), Some (Rd Adc, Imm, 2), Some (Acc Ror, Imp, 2), Some (Rd Arr, Imm, 2),
     Some (Jmp, Ind, 5), Some (Rd Adc, Ab, 4), Some (Md (Sh Ror), Ab, 6), Some (Md Rra, Ab, 6),
     Some (Br FV True, Rel, 2), Some (Rd Adc, IndY, 5), None, Some (Md Rra, IndY, 8),
     Some (Rd Skip, ZpX, 4), Some (Rd Adc, ZpX, 4), Some (Md (Sh Ror), ZpX, 6), Some (Md Rra, ZpX, 6),
     Some (Im Sei, Imp, 2), Some (Rd Adc, AbY, 4), Some (Im Nop, Imp, 2), Some (Md Rra, AbY, 7),
     Some (Rd Skip, AbX, 4), Some (Rd Adc, AbX, 4), Some (Md (Sh Ror), AbX, 7), Some (Md Rra, AbX, 7),
     Some (Rd Skip, Imm, 2), Some (Wr Sta, IndX, 6), Some (Rd Skip, Imm, 2), Some (Wr Sax, IndX, 6),
     Some (Wr Sty, Zp, 3), Some (Wr Sta, Zp, 3), Some (Wr Stx, Zp, 3), Some (Wr Sax, Zp, 3),
     Some (Im Dey, Imp, 2), Some (Rd Skip, Imm, 2), Some (Im Txa, Imp, 2), Some (Rd Ane, Imm, 2),
     Some (Wr Sty, Ab, 4), Some (Wr Sta, Ab, 4), Some (Wr Stx, Ab, 4), Some (Wr Sax, Ab, 4),
     Some (Br FC False, Rel, 2), Some (Wr Sta, IndY, 6), None, Some (Wr Sha, IndY, 6),
     Some (Wr Sty, ZpX, 4), Some (Wr Sta, ZpX, 4), Some (Wr Stx, ZpY, 4), Some (Wr Sax, ZpY, 4),
     Some (Im Tya, Imp, 2), Some (Wr Sta, AbY, 5), Some (Im Txs, Imp, 2), Some (Wr Shs, AbY, 5),
     Some (Wr Shy, AbX, 5), Some (Wr Sta, AbX, 5), Some (Wr Shx, AbY, 5), Some (Wr Sha, AbY, 5),
     Some (Rd Ldy, Imm, 2), Some (Rd Lda, IndX, 6), Some (Rd Ldx, Imm, 2), Some (Rd Lax, IndX, 6),
     Some (Rd Ldy, Zp, 3), Some (Rd Lda, Zp, 3), Some (Rd Ldx, Zp, 3), Some (Rd Lax, Zp, 3),
     Some (Im Tay, Imp, 2), Some (Rd Lda, Imm, 2), Some (Im Tax, Imp, 2), Some (Rd Lxa, Imm, 2),
     Some (Rd Ldy, Ab, 4), Some (Rd Lda, Ab, 4), Some (Rd Ldx, Ab, 4), Some (Rd Lax, Ab, 4),
     Some (Br FC True, Rel, 2), Some (Rd Lda, IndY, 5), None, Some (Rd Lax, IndY, 5),
     Some (Rd Ldy, ZpX, 4), Some (Rd Lda, ZpX, 4), Some (Rd Ldx, ZpY, 4), Some (Rd Lax, ZpY, 4),
     Some (Im Clv, Imp, 2), Some (Rd Lda, AbY, 4), Some (Im Tsx, Imp, 2), Some (Rd Las, AbY, 4),
     Some (Rd Ldy, AbX, 4), Some (Rd Lda, AbX, 4), Some (Rd Ldx, AbY, 4), Some (Rd Lax, AbY, 4),
     Some (Rd Cpy, Imm, 2), Some (Rd Cmp, IndX, 6), Some (Rd Skip, Imm, 2), Some (Md Dcp, IndX, 8),
     Some (Rd Cpy, Zp, 3), Some (Rd Cmp, Zp, 3), Some (Md (Sh Dec), Zp, 5), Some (Md Dcp, Zp, 5),
     Some (Im Iny, Imp, 2), Some (Rd Cmp, Imm, 2), Some (Im Dex, Imp, 2), Some (Rd Sbx, Imm, 2),
     Some (Rd Cpy, Ab, 4), Some (Rd Cmp, Ab, 4), Some (Md (Sh Dec), Ab, 6), Some (Md Dcp, Ab, 6),
     Some (Br FZ False, Rel, 2), Some (Rd Cmp, IndY, 5), None, Some (Md Dcp, IndY, 8),
     Some (Rd Skip, ZpX, 4), Some (Rd Cmp, ZpX, 4), Some (Md (Sh Dec), ZpX, 6), Some (Md Dcp, ZpX, 6),
     Some (Im Cld, Imp, 2), Some (Rd Cmp, AbY, 4), Some (Im Nop, Imp, 2), Some (Md Dcp, AbY, 7),
     Some (Rd Skip, AbX, 4), Some (Rd Cmp, AbX, 4), Some (Md (Sh Dec), AbX, 7), Some (Md Dcp, AbX, 7),
     Some (Rd Cpx, Imm, 2), Some (Rd Sbc, IndX, 6), Some (Rd Skip, Imm, 2), Some (Md Isb, IndX, 8),
     Some (Rd Cpx, Zp, 3), Some (Rd Sbc, Zp, 3), Some (Md (Sh Inc), Zp, 5), Some (Md Isb, Zp, 5),
     Some (Im Inx, Imp, 2), Some (Rd Sbc, Imm, 2), Some (Im Nop, Imp, 2), Some (Rd Sbc, Imm, 2),
     Some (Rd Cpx, Ab, 4), Some (Rd Sbc, Ab, 4), Some (Md (Sh Inc), Ab, 6), Some (Md Isb, Ab, 6),
     Some (Br FZ True, Rel, 2), Some (Rd Sbc, IndY, 5), None, Some (Md Isb, IndY, 8),
     Some (Rd Skip, ZpX, 4), Some (Rd Sbc, ZpX, 4), Some (Md (Sh Inc), ZpX, 6), Some (Md Isb, ZpX, 6),
     Some (Im Sed, Imp, 2), Some (Rd Sbc, AbY, 4), Some (Im Nop, Imp, 2), Some (Md Isb, AbY, 7),
     Some (Rd Skip, AbX, 4), Some (Rd Sbc, AbX, 4), Some (Md (Sh Inc), AbX, 7), Some (Md Isb, AbX, 7)]"

definition isa_decode :: "u8 \<Rightarrow> (instr \<times> mode \<times> clock) option" where
  "isa_decode b = isa_opcodes ! unat b"

definition isa_fetched :: "mode \<Rightarrow> isa \<Rightarrow> u16 list" where
  "isa_fetched md s = [i_pc s, i_pc s + 1] @ (if isa_length md = 3 then [i_pc s + 2] else [])"

definition isa_word :: "isa \<Rightarrow> u16" where
  "isa_word s = mk16 (i_mem s (i_pc s + 1)) (i_mem s (i_pc s + 2))"

definition isa_step :: "isa \<Rightarrow> isa" where
  "isa_step s = (case isa_decode (i_mem s (i_pc s)) of None \<Rightarrow> s
     | Some (ins, md, n) \<Rightarrow> isa_exec ins md n (isa_word s) s)"

end
