(* ===== verification/CpuBus.thy ===== *)
theory CpuBus
  imports CpuArith Isa
begin

text \<open>
  The bus between the core and its memory. The locale \<open>ram_bus\<close> is the contract a machine offers to the
  core in a given configuration \<open>ok\<close>: at the addresses \<open>rd\<close> the read handlers only return a byte (\<open>peek\<close>),
  at the addresses \<open>wr\<close> the write handlers only store into \<open>mem_ram\<close>, at the addresses \<open>rw\<close> the byte read is the one in \<open>mem_ram\<close>, page 0 and the extra page after
  the last wrap, the stack is RAM, and the block that \<open>mem_mmu_translate\<close> offers to the opcode fetch holds
  the bytes the handlers would return. Inside it every addressing macro of the core is shown to
  compute the effective address, the page crossing and the operand of the abstract instruction set.
\<close>

named_theorems bus \<open>executing memory accesses on a bus\<close>
named_theorems addr \<open>32-bit address arithmetic as bytes and 16-bit words\<close>

section \<open>Addresses\<close>

lemma lo8_ucast16 [addr]: "lo8 (ucast (w :: u16)) = i_lo w"
  unfolding i_lo_def by (rule bit_eqI) (auto simp: bit_simps)

lemma lo8_zx [simp]: "lo8 (zx b) = b"
  by (rule bit_eqI) (auto simp: bit_simps)

lemma lo8_add [simp]: "lo8 (a + b) = lo8 a + lo8 b"
  by (rule word_unat_eq_iff [THEN iffD2]) (simp add: unat_word_ariths unat_lo8 mod_simps mod_mod_cancel)

lemma lo8_one [simp]: "lo8 1 = 1"
  by simp

lemma lo8_sub [simp]: "lo8 (a - b) = lo8 a - lo8 b"
  by (simp add: word_uint_eq_iff uint_word_ariths unsigned_ucast_eq take_bit_eq_mod mod_simps mod_mod_cancel)

lemma lo8_bitwise [simp]:
  "lo8 (a AND b) = lo8 a AND lo8 b" "lo8 (a OR b) = lo8 a OR lo8 b" "lo8 (a XOR b) = lo8 a XOR lo8 b"
  by (auto intro!: bit_eqI simp: bit_simps)

lemma lo8_and_mask [simp]: "(b :: u8) AND 0xff = b" "0xff AND (b :: u8) = b"
proof -
  have m: "(0xff :: u8) = mask 8" by (simp add: mask_eq_exp_minus_1)
  show *: "(b :: u8) AND 0xff = b" for b
    unfolding m by (rule bit_eqI) (auto simp: bit_simps)
  show "0xff AND (b :: u8) = b" using * [of b] by (simp add: and.commute)
qed

lemma i_lo_mk16 [simp]: "i_lo (mk16 a b) = a"
  unfolding i_lo_def mk16_def by (rule bit_eqI) (auto simp: bit_simps dest: bit_imp_le_length)

lemma i_hi_mk16 [simp]: "i_hi (mk16 a b) = b"
  unfolding i_hi_def mk16_def
  by (rule bit_eqI) (auto simp: bit_simps possible_bit_def dest: bit_imp_le_length)

lemma mk16_lo_hi [simp]: "mk16 (i_lo w) (i_hi w) = w"
  unfolding i_lo_def i_hi_def mk16_def by (rule bit_eqI) (auto simp: bit_simps not_less)

lemma unat_i_lo: "unat (i_lo w) = unat w mod 256"
  by (simp add: i_lo_def unsigned_ucast_eq take_bit_eq_mod)

lemma unat_i_hi: "unat (i_hi w) = unat w div 256"
proof -
  have "unat w div 256 < 256" using unsigned_less [of w, where 'a = nat] by simp
  then show ?thesis
    unfolding i_hi_def unsigned_ucast_eq unsigned_drop_bit_eq by (simp add: take_bit_eq_mod drop_bit_eq_div)
qed

lemma u16_lt: "unat (w :: u16) < 65536"
  using unsigned_less [of w, where 'a = nat] by simp

lemma unat_u16_u32 [wnat]: "unat (ucast (w :: u16) :: u32) = unat w"
  using u16_lt [of w] by (simp add: unsigned_ucast_eq take_bit_nat_eq_self_iff)

lemma unat_u32_u16: "unat (ucast (w :: u32) :: u16) = unat w mod 65536"
  by (simp add: unsigned_ucast_eq take_bit_eq_mod)

lemma unat_mk16: "unat (mk16 a b) = unat a + 256 * unat b"
proof -
  have "unat (mk16 a b) = unat (i_lo (mk16 a b)) + 256 * unat (i_hi (mk16 a b))"
    unfolding unat_i_lo unat_i_hi by simp
  then show ?thesis by simp
qed

lemma unat_sum16: "unat (ucast w + zx x) = unat (w :: u16) + unat x"
  using u16_lt [of w] u8_lt [of x] by (simp add: unat_word_ariths wnat)

lemma sum16 [addr]: "ucast (ucast w + zx x) = (w :: u16) + ucast x"
proof -
  have "unat (ucast x :: u16) = unat x" using u8_lt [of x] by (simp add: unsigned_ucast_eq take_bit_eq_mod)
  then show ?thesis unfolding word_unat_eq_iff unat_u32_u16 unat_sum16 by (simp add: unat_word_ariths)
qed

lemma ucast_id16 [addr]: "ucast (ucast (w :: u16) :: u32) = w"
  using u16_lt [of w] by (simp add: word_unat_eq_iff unat_u32_u16 wnat)

text \<open>The address with the low byte of a sum and the high byte of the base.\<close>

lemma wrong_addr [addr]:
  "((a :: u32) AND 0xff00) OR (b AND 0xff) = ucast (mk16 (lo8 b) (i_hi (ucast a)))"
  "(b AND 0xff) OR ((a :: u32) AND 0xff00) = ucast (mk16 (lo8 b) (i_hi (ucast a)))"
proof -
  have m: "(0xff00 :: u32) = push_bit 8 (mask 8)" "(0xff :: u32) = mask 8"
    by (simp_all add: mask_eq_exp_minus_1)
  show "(a AND 0xff00) OR (b AND 0xff) = ucast (mk16 (lo8 b) (i_hi (ucast a)))"
    unfolding m mk16_def i_hi_def
    by (rule bit_eqI) (auto simp: bit_simps not_less)
  then show "(b AND 0xff) OR (a AND 0xff00) = ucast (mk16 (lo8 b) (i_hi (ucast a)))"
    by (simp add: or.commute)
qed

lemma page_carry:
  assumes "(n :: nat) < 65536" "k < 256"
  shows "255 < n mod 256 + k \<longleftrightarrow> (n + k) mod 65536 div 256 \<noteq> n div 256"
proof -
  define h l where "h = n div 256" and "l = n mod 256"
  have n: "n = 256 * h + l" "l < 256" "h < 256" using assms(1) by (simp_all add: h_def l_def)
  have "(n + k) mod 65536 div 256 = (if 255 < l + k then (if h = 255 then 0 else h + 1) else h)"
  proof (cases "255 < l + k")
    case True
    define r where "r = l + k - 256"
    have r: "n + k = 256 * (h + 1) + r" "r < 256" using True n assms(2) by (simp_all add: r_def)
    show ?thesis using True n(3) r(2) unfolding r(1) by (cases "h = 255") simp_all
  next
    case False
    then have "n + k = 256 * h + (l + k)" "l + k < 256" using n by simp_all
    then show ?thesis using False n(3) by simp
  qed
  then show ?thesis using n(3) unfolding h_def [symmetric] l_def [symmetric] by auto
qed

lemma crossing: "(ucast w AND 0xff) + zx x > 0xff \<longleftrightarrow> i_hi ((w :: u16) + ucast x) \<noteq> i_hi w"
proof -
  have x: "unat (ucast x :: u16) = unat x" using u8_lt [of x] by (simp add: unsigned_ucast_eq take_bit_eq_mod)
  have "unat ((ucast w AND 0xff) + zx x :: u32) = unat w mod 256 + unat x"
    using u8_lt [of x] by (simp add: unat_word_ariths wnat)
  moreover have "unat (0xff :: u32) = 255" by simp
  ultimately have "(ucast w AND 0xff) + zx x > 0xff \<longleftrightarrow> 255 < unat w mod 256 + unat x"
    unfolding word_less_nat_alt by simp
  also have "\<dots> \<longleftrightarrow> (unat w + unat x) mod 65536 div 256 \<noteq> unat w div 256"
    by (rule page_carry) (use u8_lt [of x] u16_lt [of w] in simp_all)
  also have "\<dots> \<longleftrightarrow> i_hi (w + ucast x) \<noteq> i_hi w"
    by (simp add: word_unat_eq_iff unat_i_hi unat_word_ariths x)
  finally show ?thesis .
qed

lemma unat_page: "unat (drop_bit 8 a :: u32) = unat a div 256"
  unfolding unsigned_drop_bit_eq by (simp only: take_bit_unat drop_bit_eq_div) simp

text \<open>The extra page is page 0 again.\<close>

lemma page_cases:
  assumes "(n :: nat) < 0x10100"
  shows "n mod 65536 div 256 = 0 \<Longrightarrow> n div 256 = 0 \<or> n div 256 = 0x100"
    and "n mod 65536 div 256 \<noteq> 0 \<Longrightarrow> n div 256 = n mod 65536 div 256"
proof -
  have *: "\<not> n < 65536 \<Longrightarrow> n mod 65536 div 256 = 0 \<and> n div 256 = 0x100"
  proof -
    assume "\<not> n < 65536"
    then obtain r where r: "n = 65536 + r" using le_Suc_ex [of 65536 n] by auto
    then have "r < 256" using assms by simp
    then show ?thesis unfolding r by simp
  qed
  show "n mod 65536 div 256 = 0 \<Longrightarrow> n div 256 = 0 \<or> n div 256 = 0x100"
    using * by (cases "n < 65536") simp_all
  show "n mod 65536 div 256 \<noteq> 0 \<Longrightarrow> n div 256 = n mod 65536 div 256"
    using * by (cases "n < 65536") simp_all
qed

lemma i_lo_ucast [addr]: "i_lo (ucast (a :: u32)) = lo8 a"
  unfolding i_lo_def by (rule bit_eqI) (auto simp: bit_simps)

lemma join_bytes [addr]:
  "push_bit 8 (zx hi) OR zx lo = ucast (mk16 lo hi)" "zx lo OR push_bit 8 (zx hi) = ucast (mk16 lo hi)"
proof -
  show "push_bit 8 (zx hi) OR zx lo = ucast (mk16 lo hi)"
    unfolding mk16_def by (rule bit_eqI) (auto simp: bit_simps dest: bit_imp_le_length)
  then show "zx lo OR push_bit 8 (zx hi) = ucast (mk16 lo hi)" by (simp add: or.commute)
qed

section \<open>The contract\<close>

locale ram_bus =
  fixes m :: "'e machine"
    and ok :: "'e \<Rightarrow> bool"
    and rd :: "'e \<Rightarrow> u16 \<Rightarrow> bool"
    and wr :: "'e \<Rightarrow> u16 \<Rightarrow> bool"
    and rw :: "'e \<Rightarrow> u16 \<Rightarrow> bool"
    and peek :: "'e \<Rightarrow> (u16 \<Rightarrow> u8) \<Rightarrow> u16 \<Rightarrow> u8"
  assumes read_zero: "ok (dev g) \<Longrightarrow> p = 0 \<or> p = 0x100 \<Longrightarrow> rd (dev g) (zp (i_lo a)) \<Longrightarrow>
      mem_read_tab m g p a = (peek (dev g) (mem_ram g) (zp (i_lo a)), g)"
    and read_page: "ok (dev g) \<Longrightarrow> i_hi a \<noteq> 0 \<Longrightarrow> rd (dev g) a \<Longrightarrow>
      mem_read_tab m g (unat (i_hi a)) a = (peek (dev g) (mem_ram g) a, g)"
    and write_zero: "ok (dev g) \<Longrightarrow> p = 0 \<or> p = 0x100 \<Longrightarrow> wr (dev g) (zp (i_lo a)) \<Longrightarrow>
      mem_write_tab m g p a v = g\<lparr>mem_ram := (mem_ram g)(zp (i_lo a) := v)\<rparr>"
    and write_page: "ok (dev g) \<Longrightarrow> i_hi a \<noteq> 0 \<Longrightarrow> wr (dev g) a \<Longrightarrow>
      mem_write_tab m g (unat (i_hi a)) a v = g\<lparr>mem_ram := (mem_ram g)(a := v)\<rparr>"
    and peek_store: "ok d \<Longrightarrow> rw d a \<Longrightarrow> peek d (ram(a := v)) = (peek d ram)(a := v)"
    and peek_ram: "ok d \<Longrightarrow> rw d a \<Longrightarrow> peek d ram a = ram a"
    and wr_rw [simp]: "ok d \<Longrightarrow> wr d a \<Longrightarrow> rw d a"
    and rw_rd: "ok d \<Longrightarrow> rw d a \<Longrightarrow> rd d a"
    and stack_rw: "ok d \<Longrightarrow> rw d (mk16 sp 1)"
    and translate_range: "ok (dev g) \<Longrightarrow> uint pc < 0x10000 \<Longrightarrow> mem_mmu_translate m g pc = (b, st, li) \<Longrightarrow>
      0 \<le> st \<and> st < 0x10000 \<and> 0 \<le> li \<and> li < 0x10000 \<and> (uint pc < li \<longrightarrow> st \<le> uint pc)"
    and translate_bytes: "ok (dev g) \<Longrightarrow> uint pc < 0x10000 \<Longrightarrow> mem_mmu_translate m g pc = (b, st, li) \<Longrightarrow>
      st \<le> uint i \<Longrightarrow> uint i < li \<Longrightarrow> k \<le> 2 \<Longrightarrow> dev g' = dev g \<Longrightarrow>
      bank_byte m g' b (i + k) = peek (dev g') (mem_ram g') (ucast (i + k))"
    and no_delay: "ok (dev g) \<Longrightarrow> cpu_delay_clk m g = g"
    and no_alternate: "ok (dev g) \<Longrightarrow> run_alternate_cpu m g = g"

section \<open>The abstract state of the core\<close>

abbreviation tick :: "u32 \<Rightarrow> 'e cpu \<Rightarrow> 'e cpu" where
  "tick n s \<equiv> s\<lparr>glb := (glb s)\<lparr>maincpu_clk := maincpu_clk (glb s) + n\<rparr>\<rparr>"

abbreviation poke :: "u16 \<Rightarrow> u8 \<Rightarrow> 'e cpu \<Rightarrow> 'e cpu" where
  "poke a v s \<equiv> s\<lparr>glb := (glb s)\<lparr>mem_ram := (mem_ram (glb s))(a := v)\<rparr>\<rparr>"

lemma cpu_glb_same [simp]: "s\<lparr>glb := (glb s)\<lparr>maincpu_clk := maincpu_clk (glb s)\<rparr>\<rparr> = s"
  by simp

context ram_bus
begin

text \<open>\<open>bus_ok s\<close>: the machine is in the configuration of the contract.\<close>

abbreviation bus_ok :: "'e cpu \<Rightarrow> bool" where
  "bus_ok s \<equiv> ok (dev (glb s))"

abbreviation view :: "'e cpu \<Rightarrow> u16 \<Rightarrow> u8" where
  "view s \<equiv> peek (dev (glb s)) (mem_ram (glb s))"

abbreviation readable :: "'e cpu \<Rightarrow> u16 \<Rightarrow> bool" where
  "readable s \<equiv> rd (dev (glb s))"

abbreviation writable :: "'e cpu \<Rightarrow> u16 \<Rightarrow> bool" where
  "writable s \<equiv> wr (dev (glb s))"

definition abs_cpu :: "'e cpu \<Rightarrow> isa" where
  "abs_cpu s = \<lparr>i_pc = ucast (reg_pc (glb s)), i_a = reg_a s, i_x = reg_x s, i_y = reg_y s,
     i_s = reg_sp s, i_n = bit (flag_n s) 7, i_v = bit (reg_p s) 6, i_d = bit (reg_p s) 3,
     i_i = bit (reg_p s) 2, i_z = (flag_z s = 0), i_c = bit (reg_p s) 0,
     i_mem = view s, i_cyc = maincpu_clk (glb s)\<rparr>"

lemma abs_simps [simp]:
  "i_pc (abs_cpu s) = ucast (reg_pc (glb s))" "i_a (abs_cpu s) = reg_a s"
  "i_x (abs_cpu s) = reg_x s" "i_y (abs_cpu s) = reg_y s" "i_s (abs_cpu s) = reg_sp s"
  "i_n (abs_cpu s) = bit (flag_n s) 7" "i_v (abs_cpu s) = bit (reg_p s) 6"
  "i_d (abs_cpu s) = bit (reg_p s) 3" "i_i (abs_cpu s) = bit (reg_p s) 2"
  "i_z (abs_cpu s) \<longleftrightarrow> flag_z s = 0" "i_c (abs_cpu s) = bit (reg_p s) 0"
  "i_mem (abs_cpu s) = view s" "i_cyc (abs_cpu s) = maincpu_clk (glb s)"
  by (simp_all add: abs_cpu_def)

section \<open>Loads and stores\<close>

lemma wr_rd: "ok d \<Longrightarrow> wr d a \<Longrightarrow> rd d a"
  by (simp add: rw_rd)

lemma read_page_bus:
  assumes "bus_ok s" "unat a < 0x10100" "readable s (ucast a)"
  shows "run_state (read_page m (drop_bit 8 a) (ucast a)) s = (zx (view s (ucast a)), s)"
proof -
  let ?p = "drop_bit 8 a :: u32" and ?a = "ucast a :: u16"
  have p: "unat ?p = unat a div 256" by (rule unat_page)
  have ok: "ok (dev (glb s))" and r: "rd (dev (glb s)) ?a"
    using assms by simp_all
  have tab: "unat ?p < MEM_TAB_SIZE" using assms(2) by (simp add: p MEM_TAB_SIZE_def)
  have hi: "unat (i_hi ?a) = unat a mod 65536 div 256" by (simp add: unat_i_hi unat_u32_u16)
  have "mem_read_tab m (glb s) (unat ?p) ?a = (peek (dev (glb s)) (mem_ram (glb s)) ?a, glb s)"
  proof (cases "i_hi ?a = 0")
    case True
    then have z: "unat a mod 65536 div 256 = 0" using hi by simp
    then have "unat ?p = 0 \<or> unat ?p = 0x100" using page_cases(1) [OF assms(2) z] unfolding p by simp
    moreover have "zp (i_lo ?a) = ?a" unfolding zp_def using True mk16_lo_hi [of ?a] by simp
    ultimately show ?thesis using read_zero [OF ok, of "unat ?p" ?a] r by simp
  next
    case False
    then have "unat a mod 65536 div 256 \<noteq> 0" using hi by (simp add: word_unat_eq_iff)
    then have "unat ?p = unat (i_hi ?a)" unfolding p hi by (rule page_cases(2) [OF assms(2)])
    then show ?thesis using read_page [OF ok False r] by simp
  qed
  then show ?thesis using tab by (simp add: read_page_def cpu)
qed

lemma write_page_bus:
  assumes "bus_ok s" "unat a < 0x10100" "writable s (ucast a)"
  shows "run_state (write_page m (drop_bit 8 a) (ucast a) v) s = ((), poke (ucast a) v s)"
proof -
  let ?p = "drop_bit 8 a :: u32" and ?a = "ucast a :: u16"
  have p: "unat ?p = unat a div 256" by (rule unat_page)
  have ok: "ok (dev (glb s))" and w: "wr (dev (glb s)) ?a"
    using assms by simp_all
  have tab: "unat ?p < MEM_TAB_SIZE" using assms(2) by (simp add: p MEM_TAB_SIZE_def)
  have hi: "unat (i_hi ?a) = unat a mod 65536 div 256" by (simp add: unat_i_hi unat_u32_u16)
  have "mem_write_tab m (glb s) (unat ?p) ?a v = (glb s)\<lparr>mem_ram := (mem_ram (glb s))(?a := v)\<rparr>"
  proof (cases "i_hi ?a = 0")
    case True
    then have z: "unat a mod 65536 div 256 = 0" using hi by simp
    then have "unat ?p = 0 \<or> unat ?p = 0x100" using page_cases(1) [OF assms(2) z] unfolding p by simp
    moreover have "zp (i_lo ?a) = ?a" unfolding zp_def using True mk16_lo_hi [of ?a] by simp
    ultimately show ?thesis using write_zero [OF ok, of "unat ?p" ?a v] w by simp
  next
    case False
    then have "unat a mod 65536 div 256 \<noteq> 0" using hi by (simp add: word_unat_eq_iff)
    then have "unat ?p = unat (i_hi ?a)" unfolding p hi by (rule page_cases(2) [OF assms(2)])
    then show ?thesis using write_page [OF ok False w] by simp
  qed
  then show ?thesis using tab by (simp add: write_page_def cpu)
qed

lemma LOAD_via:
  assumes "run_state addr s = (a, s)" "bus_ok s" "unat a < 0x10100" "readable s (ucast a)"
  shows "run_state (LOAD m addr) s = (zx (view s (ucast a)), s)"
  using assms read_page_bus [OF assms(2-4)] by (simp add: LOAD_def)

lemma LOAD_bus [bus]:
  "bus_ok s \<Longrightarrow> unat a < 0x10100 \<Longrightarrow> readable s (ucast a) \<Longrightarrow>
    run_state (LOAD m (ret a)) s = (zx (view s (ucast a)), s)"
  by (rule LOAD_via) simp_all

lemma LOAD_IND_bus [bus]:
  "bus_ok s \<Longrightarrow> unat a < 0x10100 \<Longrightarrow> readable s (ucast a) \<Longrightarrow>
    run_state (LOAD_IND m (ret a)) s = (zx (view s (ucast a)), s)"
  by (simp add: LOAD_IND_def LOAD_bus)

lemma STORE_bus [bus]:
  "bus_ok s \<Longrightarrow> unat a < 0x10100 \<Longrightarrow> writable s (ucast a) \<Longrightarrow>
    run_state (STORE m a v) s = ((), poke (ucast a) (lo8 v) s)"
  by (simp add: STORE_def write_page_bus)

lemma STORE_IND_bus [bus]:
  "bus_ok s \<Longrightarrow> unat a < 0x10100 \<Longrightarrow> writable s (ucast a) \<Longrightarrow>
    run_state (STORE_IND m a v) s = ((), poke (ucast a) (lo8 v) s)"
  by (simp add: STORE_IND_def STORE_bus)

lemma LOAD_ZERO_bus [bus]:
  assumes "bus_ok s" "readable s (zp (lo8 a))"
  shows "run_state (LOAD_ZERO m a) s = (zx (view s (zp (lo8 a))), s)"
  using assms read_zero [of "glb s" 0 "ucast a"]
  by (simp add: LOAD_ZERO_def read_page_def cpu MEM_TAB_SIZE_def addr)

lemma STORE_ZERO_bus [bus]:
  assumes "bus_ok s" "writable s (zp (lo8 a))"
  shows "run_state (STORE_ZERO m a v) s = ((), poke (zp (lo8 a)) (lo8 v) s)"
  using assms write_zero [of "glb s" 0 "ucast a"]
  by (simp add: STORE_ZERO_def write_page_def cpu MEM_TAB_SIZE_def addr)

lemma LOAD_ZERO_ADDR_bus [bus]:
  assumes "bus_ok s" "readable s (zp (lo8 a))" "readable s (zp (lo8 a + 1))"
  shows "run_state (LOAD_ZERO_ADDR m a) s = (ucast (zp_word (lo8 a) (abs_cpu s)), s)"
  using assms by (simp add: LOAD_ZERO_ADDR_def bus zp_word_def addr)

lemma LOAD_ADDR_bus [bus]:
  assumes "bus_ok s" "readable s a" "readable s (a + 1)" "unat a \<noteq> 0xffff"
  shows "run_state (LOAD_ADDR m (ucast a)) s = (ucast (mk16 (view s a) (view s (a + 1))), s)"
proof -
  have e: "ucast (ucast a + 1 :: u32) = a + 1" using sum16 [of a 1] by simp
  have "unat (ucast a + 1 :: u32) < 0x10100" using unat_sum16 [of a 1] u16_lt [of a] by simp
  then show ?thesis using assms u16_lt [of a]
    by (simp add: LOAD_ADDR_def bus addr e unat_u16_u32)
qed

section \<open>Operands\<close>

text \<open>A macro argument that returns the byte \<open>v\<close> after \<open>k\<close> cycles and changes nothing else.\<close>

definition yields :: "('e, u32) ex \<Rightarrow> 'e cpu \<Rightarrow> u8 \<Rightarrow> u32 \<Rightarrow> bool" where
  "yields val s v k \<longleftrightarrow> run_state val s = (zx v, tick k s)"

text \<open>All addresses an addressing mode touches are readable.\<close>

definition mode_ok :: "mode \<Rightarrow> u16 \<Rightarrow> 'e cpu \<Rightarrow> bool" where
  "mode_ok md w s \<longleftrightarrow> bus_ok s \<and>
     list_all (readable s) (isa_pointer md w (abs_cpu s) @ [isa_wrong md w (abs_cpu s), isa_ea md w (abs_cpu s)])"

lemma yields_imm: "yields (ret (zx (i_lo w))) s (isa_operand Imm w (abs_cpu s)) 0"
  by (simp add: yields_def isa_operand_def)

lemma yields_zp:
  "mode_ok Zp w s \<Longrightarrow> yields (LOAD_ZERO m (zx (i_lo w))) s (isa_operand Zp w (abs_cpu s)) 0"
  by (simp add: yields_def isa_operand_def mode_ok_def isa_ea_def bus)

lemma yields_zp_x:
  "mode_ok ZpX w s \<Longrightarrow> yields (LOAD_ZERO_X m (zx (i_lo w))) s (isa_operand ZpX w (abs_cpu s)) 0"
  by (simp add: yields_def isa_operand_def mode_ok_def isa_ea_def LOAD_ZERO_X_def bus)

lemma yields_zp_y:
  "mode_ok ZpY w s \<Longrightarrow> yields (LOAD_ZERO_Y m (zx (i_lo w))) s (isa_operand ZpY w (abs_cpu s)) 0"
  by (simp add: yields_def isa_operand_def mode_ok_def isa_ea_def LOAD_ZERO_Y_def bus)

lemma u16_bound [simp]: "unat (ucast (w :: u16) :: u32) < 0x10100"
  using u16_lt [of w] by (simp add: unat_u16_u32)

lemma sum_bound [simp]: "unat (ucast (w :: u16) + zx x) < 0x10100"
  using u16_lt [of w] u8_lt [of x] by (simp add: unat_sum16)

lemma yields_abs:
  "mode_ok Ab w s \<Longrightarrow> yields (LOAD m (ret (ucast w))) s (isa_operand Ab w (abs_cpu s)) 0"
  by (simp add: yields_def isa_operand_def mode_ok_def isa_ea_def bus addr)

text \<open>The shape of the two indexed modes, for the index \<open>x\<close>.\<close>

definition load_indexed :: "u8 \<Rightarrow> u32 \<Rightarrow> ('e, u32) ex" where
  "load_indexed x a = (if (a AND 0xff) + zx x > 0xff then do {
       LOAD m (ret ((a AND 0xff00) OR ((a + zx x) AND 0xff)));
       CLK_ADD CLK_INT_CYCLE;
       LOAD m (ret (a + zx x))
     } else LOAD m (ret (a + zx x)))"

lemma run_load_indexed:
  assumes "bus_ok s" "readable s (mk16 (i_lo (w + ucast x)) (i_hi w))" "readable s (w + ucast x)"
  shows "run_state (load_indexed x (ucast w)) s =
    (zx (view s (w + ucast x)), tick (of_bool (i_hi (w + ucast x) \<noteq> i_hi w)) s)"
proof -
  have "lo8 (ucast w) + x = i_lo (w + ucast x)"
    using lo8_add [of "ucast w" "zx x"] i_lo_ucast [of "ucast w + zx x"] by (simp add: addr)
  then show ?thesis using assms
    by (simp add: load_indexed_def crossing bus addr cpu CLK_INT_CYCLE_def)
qed

lemma yields_abs_x:
  assumes "mode_ok AbX w s"
  shows "yields (LOAD_ABS_X m (ucast w)) s (isa_operand AbX w (abs_cpu s))
    (of_bool (isa_crossed AbX w (abs_cpu s)))"
proof -
  have "run_state (LOAD_ABS_X m (ucast w)) s = run_state (load_indexed (reg_x s) (ucast w)) s"
    by (simp add: LOAD_ABS_X_def load_indexed_def)
  then show ?thesis using assms
    by (simp add: yields_def run_load_indexed mode_ok_def isa_operand_def isa_crossed_def isa_wrong_def isa_ea_def)
qed

lemma yields_abs_y:
  assumes "mode_ok AbY w s"
  shows "yields (LOAD_ABS_Y m (ucast w)) s (isa_operand AbY w (abs_cpu s))
    (of_bool (isa_crossed AbY w (abs_cpu s)))"
proof -
  have "run_state (LOAD_ABS_Y m (ucast w)) s = run_state (load_indexed (reg_y s) (ucast w)) s"
    by (simp add: LOAD_ABS_Y_def load_indexed_def)
  then show ?thesis using assms
    by (simp add: yields_def run_load_indexed mode_ok_def isa_operand_def isa_crossed_def isa_wrong_def isa_ea_def)
qed

lemma yields_ind_x:
  assumes "mode_ok IndX w s"
  shows "yields (LOAD_IND_X m (zx (i_lo w))) s (isa_operand IndX w (abs_cpu s)) 3"
proof -
  let ?s = "tick 3 s"
  have z: "zp_word b (abs_cpu ?s) = zp_word b (abs_cpu s)" for b by (simp add: zp_word_def)
  have "run_state (LOAD_ZERO_ADDR m (zx (i_lo w) + zx (reg_x s))) ?s =
      (ucast (isa_ea IndX w (abs_cpu s)), ?s)"
    using assms LOAD_ZERO_ADDR_bus [of ?s "zx (i_lo w) + zx (reg_x s)"]
    by (simp add: mode_ok_def z isa_ea_def)
  moreover have "readable ?s (ucast (ucast (isa_ea IndX w (abs_cpu s)) :: u32))"
    using assms by (simp add: mode_ok_def ucast_id16)
  ultimately show ?thesis using assms
    by (simp add: yields_def LOAD_IND_X_def cpu LOAD_via [of _ ?s "ucast (isa_ea IndX w (abs_cpu s))"]
        mode_ok_def isa_operand_def ucast_id16)
qed

lemma yields_ind_y:
  assumes "mode_ok IndY w s"
  shows "yields (LOAD_IND_Y m (zx (i_lo w))) s (isa_operand IndY w (abs_cpu s))
    (2 + of_bool (isa_crossed IndY w (abs_cpu s)))"
proof -
  let ?p = "isa_base IndY w (abs_cpu s)"
  have z: "run_state (LOAD_ZERO_ADDR m (zx (i_lo w))) (tick n s) = (ucast ?p, tick n s)" for n
    using assms LOAD_ZERO_ADDR_bus [of "tick n s" "zx (i_lo w)"] by (simp add: mode_ok_def zp_word_def)
  let ?y = "reg_y s" and ?ea = "isa_ea IndY w (abs_cpu s)"
  have lo: "lo8 (ucast ?p) + ?y = i_lo ?ea"
    using lo8_add [of "ucast ?p" "zx ?y"] i_lo_ucast [of "ucast ?p + zx ?y"] by (simp add: addr isa_ea_def)
  have wrong: "run_state (LOAD m (do { hi \<leftarrow> LOAD_ZERO_ADDR m (zx (i_lo w)); lo \<leftarrow> LOAD_ZERO_ADDR m (zx (i_lo w));
      ret ((hi AND 0xff00) OR ((lo + zx ?y) AND 0xff)) })) (tick 2 s) =
      (zx (view s (isa_wrong IndY w (abs_cpu s))), tick 2 s)"
    using assms z [of 2] lo
      LOAD_via [of _ "tick 2 s" "(ucast ?p AND 0xff00) OR ((ucast ?p + zx ?y) AND 0xff)"]
    by (simp add: addr mode_ok_def isa_wrong_def)
  have "run_state (LOAD m (do { b \<leftarrow> LOAD_ZERO_ADDR m (zx (i_lo w)); ret (b + zx ?y) })) (tick n s) =
      (zx (view s ?ea), tick n s)" for n
    using assms z [of n] LOAD_via [of _ "tick n s" "ucast ?p + zx ?y"]
    by (simp add: addr mode_ok_def isa_ea_def)
  then show ?thesis
    using assms z [of 2] wrong
    by (simp add: yields_def LOAD_IND_Y_def cpu crossing mode_ok_def isa_operand_def isa_crossed_def
        isa_ea_def CLK_INT_CYCLE_def add.assoc del: isa_base.simps)
qed

lemma LOAD_IND_Y_BANK_eq: "LOAD_IND_Y_BANK m a = LOAD_IND_Y m a"
  by (simp add: LOAD_IND_Y_BANK_def LOAD_IND_Y_def LOAD_IND_def cong: if_cong)

end

end
