(* ===== verification/CpuAlu.thy ===== *)
theory CpuAlu
  imports CpuArith Isa
begin

text \<open>
  The adder of the core against the one of the instruction set: the 32-bit expressions of \<open>ADC\<close> and \<open>SBC\<close>
  (binary and decimal, for every pair of operands, valid decimal digits or not) compute the numbers
  and flags of \<open>isa_adc\<close> and \<open>isa_sbc\<close>.
\<close>

section \<open>Decimal addition\<close>

definition dec_low :: "u8 \<Rightarrow> u8 \<Rightarrow> nat \<Rightarrow> nat" where
  "dec_low a v c = (let al = unat a mod 16 + unat v mod 16 + c in
     if 10 \<le> al then (al + 6) mod 16 + 16 else al)"

definition dec_mid :: "u8 \<Rightarrow> u8 \<Rightarrow> nat \<Rightarrow> nat" where
  "dec_mid a v c = 16 * (unat a div 16) + 16 * (unat v div 16) + dec_low a v c"

lemma dec_low_le: "c \<le> 1 \<Longrightarrow> dec_low a v c \<le> 31"
  by (simp add: dec_low_def Let_def) arith

lemma hi_le: "unat (b :: u8) div 16 \<le> 15"
  using u8_lt [of b] by arith

lemma adc_mid_num:
  assumes "unat c = n" "n \<le> 1"
  shows "unat (adc_mid (zx a) (zx v) c) = dec_mid a v n"
proof -
  have m: "unat a mod 16 \<le> 15" "unat v mod 16 \<le> 15" by arith+
  have t: "unat ((zx a AND 0xf) + (zx v AND 0xf) + c) = unat a mod 16 + unat v mod 16 + n" (is "unat ?t = ?n")
    using m assms by (simp add: unat_word_ariths(1) wnat)
  have n: "?n \<le> 31" using m assms(2) by linarith
  have low: "unat (adc_low (zx a) (zx v) c) = (if 10 \<le> ?n then ?n + 6 else ?n)"
    using n t by (simp add: adc_low_def Let_def word_less_nat_alt unat_word_ariths(1))
  let ?l = "adc_low (zx a) (zx v) c" and ?h = "16 * (unat a div 16) + 16 * (unat v div 16)"
  have h: "?h \<le> 480" using hi_le [of a] hi_le [of v] by linarith
  have small: "dec_low a v n = (if 10 \<le> ?n then (?n + 6) mod 16 + 16 else ?n)"
    by (simp add: dec_low_def Let_def)
  have hi: "unat (zx b AND 0xf0) = 16 * (unat b div 16)" for b
    using hi_le [of b] by (simp add: wnat)
  have lo: "unat (?l AND 0xf) = (if 10 \<le> ?n then ?n + 6 else ?n) mod 16" unfolding and_fields low ..
  have lo_le: "unat (?l AND 0xf) \<le> 15" unfolding lo by arith
  have sum: "unat ((?l AND 0xf) + (zx a AND 0xf0) + (zx v AND 0xf0)) = unat (?l AND 0xf) + ?h"
    using h lo_le unfolding unat_word_ariths(1) hi by simp
  have sum': "unat ((?l AND 0xf) + (zx a AND 0xf0) + (zx v AND 0xf0) + 0x10) = unat (?l AND 0xf) + ?h + 16"
    using h lo_le unfolding unat_word_ariths(1) [of _ "0x10"] sum by simp
  have le: "?l \<le> 0xf \<longleftrightarrow> \<not> 10 \<le> ?n" unfolding word_le_nat_alt low by simp
  show ?thesis
  proof (cases "10 \<le> ?n")
    case True
    then show ?thesis unfolding adc_mid_def Let_def le dec_mid_def small using sum' lo by simp
  next
    case False
    then have "?n mod 16 = ?n" by simp
    with False show ?thesis unfolding adc_mid_def Let_def le dec_mid_def small using sum lo by simp
  qed
qed

lemma dec_mid_le: "c \<le> 1 \<Longrightarrow> dec_mid a v c \<le> 511"
  using hi_le [of a] hi_le [of v] dec_low_le [of c a v] by (simp add: dec_mid_def)

lemma adc_high_num:
  assumes "unat t = h" "h \<le> 511"
  shows "unat (adc_high t) = (if 160 \<le> h then h + 96 else h)"
proof -
  have "unat (t AND 0x1f0) = h div 16 mod 32 * 16" using assms by (simp add: wnat)
  also have "\<dots> = h div 16 * 16" using assms(2) by simp
  finally have "(t AND 0x1f0) > 0x90 \<longleftrightarrow> 160 \<le> h" by (simp add: word_less_nat_alt) arith
  then show ?thesis using assms by (simp add: adc_high_def unat_word_ariths(1))
qed

lemma sint_hi: "sint ((a :: u8) AND 0xf0) = 16 * int (unat a div 16) - (if 128 \<le> unat a then 256 else 0)"
proof -
  have n: "unat (a AND 0xf0) = 16 * (unat a div 16)"
  proof -
    have "unat (a AND 0xf0) = unat a div 16 mod 16 * 16"
      using and_field [of 4 4 a] by (simp add: mask_eq_exp_minus_1)
    then show ?thesis using hi_le [of a] by simp
  qed
  have "128 \<le> unat (a AND 0xf0) \<longleftrightarrow> 128 \<le> unat a" unfolding n by arith
  then show ?thesis unfolding sint_u8 n by simp
qed

lemma dec_overflow:
  assumes "unat t = dec_mid a v c" "c \<le> 1"
  shows "(truth ((zx a XOR t) AND 0x80) \<and> \<not> truth ((zx a XOR zx v) AND 0x80)) \<longleftrightarrow>
    sint (a AND 0xf0) + sint (v AND 0xf0) + int (dec_low a v c) \<notin> {-128..127}"
proof -
  have lt: "unat t < 512" using assms dec_mid_le [of c a v] by simp
  have l: "dec_low a v c \<le> 31" by (rule dec_low_le [OF assms(2)])
  have a: "unat a div 16 \<le> 15" "128 \<le> unat a \<longleftrightarrow> 8 \<le> unat a div 16"
    and v: "unat v div 16 \<le> 15" "128 \<le> unat v \<longleftrightarrow> 8 \<le> unat v div 16"
    using u8_lt [of a] u8_lt [of v] by auto
  show ?thesis
    unfolding and_bits bit_xor_iff bit_zx7 bit7_u8 bit7_u32 [OF lt] sint_hi assms(1) dec_mid_def
    using l a v by (cases "8 \<le> unat a div 16"; cases "8 \<le> unat v div 16") auto
qed

section \<open>Results of the instruction set\<close>

lemma lo8_num: "unat w = n \<Longrightarrow> lo8 w = of_nat n"
  by (simp add: word_unat_eq_iff wnat unat_of_nat)

lemma isa_adc_binary:
  fixes v :: u8 and s :: "'e cpu"
  assumes "\<not> i_d t" "i_c t \<longleftrightarrow> bit (reg_p s) 0"
  defines "w \<equiv> zx v + zx (i_a t) + carry s"
  shows "isa_adc v t = nz (lo8 w) (t\<lparr>i_a := lo8 w, i_c := (0xff < w),
    i_v := (\<not> truth ((zx (i_a t) XOR zx v) AND 0x80) \<and> truth ((zx (i_a t) XOR w) AND 0x80))\<rparr>)"
proof -
  have "unat w = unat (i_a t) + unat v + of_bool (bit (reg_p s) 0)"
    unfolding w_def adc_sum by (simp add: ac_simps)
  then have "lo8 w = of_nat (unat (i_a t) + unat v + of_bool (bit (reg_p s) 0))" by (rule lo8_num)
  then show ?thesis using assms(1,2)
    unfolding w_def adc_overflow_bits adc_carry_out by (simp add: isa_adc_def Let_def)
qed

lemma isa_adc_decimal:
  fixes v :: u8 and s :: "'e cpu"
  assumes "i_d t" "i_c t \<longleftrightarrow> bit (reg_p s) 0"
  defines "w \<equiv> adc_mid (zx (i_a t)) (zx v) (carry s)"
  shows "isa_adc v t = t\<lparr>i_a := lo8 (adc_high w), i_c := ((adc_high w AND 0xff0) > 0xf0),
    i_z := ((zx (i_a t) + zx v + carry s) AND 0xff = 0), i_n := truth (w AND 0x80),
    i_v := (truth ((zx (i_a t) XOR w) AND 0x80) \<and> \<not> truth ((zx (i_a t) XOR zx v) AND 0x80))\<rparr>"
proof -
  let ?c = "of_bool (bit (reg_p s) 0) :: nat" and ?a = "i_a t"
  let ?h = "dec_mid ?a v ?c"
  let ?r = "if 160 \<le> ?h then ?h + 96 else ?h"
  have c: "unat (carry s) = ?c" "?c \<le> 1" by (simp_all add: carry_num)
  have h: "?h \<le> 511" by (rule dec_mid_le [OF c(2)])
  have w: "unat w = ?h" unfolding w_def by (rule adc_mid_num [OF c])
  have r: "unat (adc_high w) = ?r" by (rule adc_high_num [OF w h])
  have "?r < 4096" using h by simp
  then have "unat (adc_high w AND 0xff0) = ?r div 16 * 16" using r by (simp add: and_fields)
  then have carry: "(adc_high w AND 0xff0) > 0xf0 \<longleftrightarrow> 256 \<le> ?r" by (simp add: word_less_nat_alt) arith
  have "unat (zx ?a + zx v + carry s) = unat ?a + unat v + ?c"
    using adc_sum [of ?a v s] by (simp add: ac_simps)
  then have zero: "(zx ?a + zx v + carry s) AND 0xff = 0 \<longleftrightarrow> (unat ?a + unat v + ?c) mod 256 = 0"
    by (simp only: word_unat_eq_iff and_fields) simp
  have neg: "truth (w AND 0x80) \<longleftrightarrow> odd (?h div 128)" unfolding and_bits bit_nat w by simp
  show ?thesis
    unfolding carry zero neg dec_overflow [OF w c(2)] lo8_num [OF r]
    using assms(1,2) by (simp add: isa_adc_def Let_def dec_mid_def dec_low_def)
qed

lemma lo8_word_of_int: "lo8 (word_of_int k) = word_of_int k"
  by (rule bit_eqI) (auto simp: bit_simps)

lemma sint_not_u8: "sint (NOT (v :: u8)) = - sint v - 1"
  using u8_lt [of v] unfolding sint_u8 unat_not_u8 by (simp add: of_nat_diff) arith

lemma isa_sbc_core:
  fixes v :: u8 and s :: "'e cpu"
  assumes "i_c t \<longleftrightarrow> LOCAL_CARRY s" "i_a t = reg_a s"
  defines "b \<equiv> (if LOCAL_CARRY s then 0 else 1) :: u32"
  defines "w \<equiv> ucast (zx (reg_a s) - zx v - b) :: u16"
  shows "isa_sbc v t = nz (lo8 (ucast w)) (t\<lparr>
    i_a := (if i_d t then lo8 (sbc_digits (zx (reg_a s)) (zx v) b) else lo8 (ucast w)), i_c := (w < 0x100),
    i_v := (truth ((zx (reg_a s) XOR ucast w) AND 0x80) \<and> truth ((zx (reg_a s) XOR zx v) AND 0x80))\<rparr>)"
proof -
  define x where "x = int (unat (reg_a s)) - int (unat v) - of_bool (\<not> LOCAL_CARRY s)"
  have bi: "b = word_of_int (of_bool (\<not> LOCAL_CARRY s))" by (simp add: b_def)
  have u: "uint w = x mod 65536" unfolding w_def b_def sbc_tmp x_def by simp
  have res: "lo8 (ucast w) = word_of_int x"
    using uint_lo8_u16 [of w] unfolding u by (simp add: word_uint_eq_iff uint_word_of_int mod_mod_cancel)
  have carry: "w < 0x100 \<longleftrightarrow> 0 \<le> x" unfolding w_def b_def sbc_no_borrow x_def by simp linarith
  have digits: "lo8 (sbc_digits (zx (reg_a s)) (zx v) b) =
      word_of_int (let h = dec_diff (reg_a s) v (of_bool (\<not> LOCAL_CARRY s)) in if h < 0 then h - 96 else h)"
    unfolding bi using sbc_digits_int [of "of_bool (\<not> LOCAL_CARRY s)" "reg_a s" v]
    by (simp add: Let_def lo8_word_of_int)
  have ov: "(truth ((zx (reg_a s) XOR ucast w) AND 0x80) \<and> truth ((zx (reg_a s) XOR zx v) AND 0x80)) \<longleftrightarrow>
      sint (reg_a s) - sint v - of_bool (\<not> LOCAL_CARRY s) \<notin> {-128..127}"
  proof -
    have e: "sint (reg_a s) + sint (NOT v) + of_bool (bit (reg_p s) 0) =
        sint (reg_a s) - sint v - of_bool (\<not> LOCAL_CARRY s)" by (simp add: sint_not_u8)
    show ?thesis unfolding w_def b_def sbc_complement(3) adc_overflow_bits e ..
  qed
  show ?thesis unfolding res carry ov digits using assms(1,2)
    by (simp add: isa_sbc_def Let_def x_def dec_diff_def)
qed

section \<open>ARR\<close>

lemma or_nibbles: "unat (((x :: u32) AND 0xf0) OR (y AND 0xf)) = 16 * (unat x div 16 mod 16) + unat y mod 16"
proof -
  have m: "(0xf0 :: u32) = push_bit 4 (mask 4)" "(0xf :: u32) = mask 4"
    by (simp_all add: mask_eq_exp_minus_1)
  have "(x AND 0xf0) + (y AND 0xf) = (x AND 0xf0) OR (y AND 0xf)"
    by (rule disjunctive_add) (auto simp: m bit_simps)
  moreover have "unat ((x AND 0xf0) + (y AND 0xf)) = unat (x AND 0xf0) + unat (y AND 0xf)"
  proof (rule unat_add_small)
    have "unat x div 16 mod 16 \<le> 15" "unat y mod 16 \<le> 15" by arith+
    then show "unat (x AND 0xf0) + unat (y AND 0xf) < 2 ^ LENGTH(32)" unfolding and_fields by simp
  qed
  ultimately show ?thesis by (simp add: and_fields mult.commute)
qed

lemma rotated: "drop_bit 1 (zx t OR push_bit 8 (carry s)) =
    zx (drop_bit 1 t OR (if bit (reg_p s) 0 then 0x80 else 0))"
proof -
  have c: "carry s = of_bool (bit (reg_p s) 0)" by (simp add: word_unat_eq_iff carry_num)
  have x: "(0x80 :: u8) = push_bit 7 1" by simp
  show ?thesis unfolding c x
    by (rule bit_eqI) (auto simp: bit_simps bit_1_iff dest: bit_imp_le_length simp del: push_bit_of_1)
qed

text \<open>The digit adjustment of decimal ARR; \<open>t\<close> is A and the operand, \<open>r\<close> the rotated value.\<close>

definition arr_low :: "u32 \<Rightarrow> u32 \<Rightarrow> u32" where
  "arr_low t r = (if (t AND 0xf) + (t AND 0x1) > 0x5 then (r AND 0xf0) OR ((r + 0x6) AND 0xf) else r)"

definition arr_high :: "u32 \<Rightarrow> u32 \<Rightarrow> u32" where
  "arr_high t r = (if (t AND 0xf0) + (t AND 0x10) > 0x50 then (r AND 0x0f) OR ((r + 0x60) AND 0xf0) else r)"

lemma arr_conditions:
  fixes t :: u8
  shows "(zx t AND 0xf) + (zx t AND 0x1) > 0x5 \<longleftrightarrow> 5 < unat t mod 16 + unat t mod 16 mod 2"
    "(zx t AND 0xf0) + (zx t AND 0x10) > 0x50 \<longleftrightarrow> 5 < unat t div 16 + unat t div 16 mod 2"
proof -
  have a: "unat (zx t AND 0x1) = unat t mod 2" "unat (zx t AND 0x10) = unat t div 16 mod 2 * 16"
    using and_field [of 0 1 "zx t"] and_field [of 4 1 "zx t"] by (simp_all add: mask_eq_exp_minus_1 unat_zx)
  have b: "unat t mod 16 \<le> 15" "unat t mod 2 \<le> 1" "unat t div 16 mod 2 \<le> 1" "unat t mod 16 mod 2 = unat t mod 2"
    by (arith, arith, arith, simp add: mod_mod_cancel)
  have "unat ((zx t AND 0xf) + (zx t AND 0x1)) = unat t mod 16 + unat t mod 2"
    using b by (simp add: unat_word_ariths a and_fields unat_zx)
  then show "(zx t AND 0xf) + (zx t AND 0x1) > 0x5 \<longleftrightarrow> 5 < unat t mod 16 + unat t mod 16 mod 2"
    unfolding b(4) word_less_nat_alt by simp
  have "unat ((zx t AND 0xf0) + (zx t AND 0x10)) = 16 * (unat t div 16 + unat t div 16 mod 2)"
    using b hi_le [of t] by (simp add: unat_word_ariths a and_fields unat_zx)
  then show "(zx t AND 0xf0) + (zx t AND 0x10) > 0x50 \<longleftrightarrow> 5 < unat t div 16 + unat t div 16 mod 2"
    unfolding word_less_nat_alt by simp arith
qed

lemma arr_adjust:
  fixes t r :: u8
  shows "lo8 (arr_high (zx t) (arr_low (zx t) (zx r))) =
    of_nat (16 * ((unat r div 16 + (if 5 < unat t div 16 + unat t div 16 mod 2 then 6 else 0)) mod 16) +
      (unat r mod 16 + (if 5 < unat t mod 16 + unat t mod 16 mod 2 then 6 else 0)) mod 16)"
proof (rule lo8_num)
  define lo where "lo = (unat r mod 16 + (if 5 < unat t mod 16 + unat t mod 16 mod 2 then 6 else 0)) mod 16"
  let ?l = "arr_low (zx t) (zx r)"
  have lo: "lo < 16" by (simp add: lo_def)
  have six: "unat (zx r + 6) = unat r + 6" using u8_lt [of r] by (simp add: unat_word_ariths unat_zx)
  have l: "unat ?l = 16 * (unat r div 16) + lo"
    using hi_le [of r] unfolding arr_low_def arr_conditions lo_def
    by (auto simp: or_nibbles six unat_zx mod_simps)
  have big: "unat (?l + 0x60) = 16 * (unat r div 16 + 6) + lo"
    using hi_le [of r] lo by (simp add: unat_word_ariths l)
  have dm: "(16 * k + lo) div 16 = k" "(16 * k + lo) mod 16 = lo" for k using lo by simp_all
  show "unat (arr_high (zx t) ?l) =
      16 * ((unat r div 16 + (if 5 < unat t div 16 + unat t div 16 mod 2 then 6 else 0)) mod 16) +
      (unat r mod 16 + (if 5 < unat t mod 16 + unat t mod 16 mod 2 then 6 else 0)) mod 16"
  proof (cases "5 < unat t div 16 + unat t div 16 mod 2")
    case True
    then have "arr_high (zx t) ?l = ((?l + 0x60) AND 0xf0) OR (?l AND 0xf)"
      unfolding arr_high_def arr_conditions by (simp add: or.commute)
    then show ?thesis using True unfolding lo_def [symmetric] by (simp only: or_nibbles big l dm if_True)
  next
    case False
    then show ?thesis using hi_le [of r] l unfolding lo_def [symmetric] arr_high_def arr_conditions by simp
  qed
qed

lemma run_ARR_decimal:
  assumes "LOCAL_DECIMAL s"
  shows "run_state (ARR (ret v) pi) s =
    ((), let t = zx (reg_a s) AND v; r = drop_bit 1 (t OR push_bit 8 (carry s))
         in arith_result 0 pi (lo8 (arr_high t (arr_low t r))) (truth ((r XOR t) AND 0x40))
              ((t AND 0xf0) + (t AND 0x10) > 0x50) (if truth (carry s) then 0x80 else 0)
              (if r = 0 then 0 else 1) s)"
  using assms by (simp add: ARR_def cpu arith_result_def arr_low_def arr_high_def Let_def)

end
