(* ===== verification/IsaCycles.thy ===== *)
theory IsaCycles
  imports Isa
begin

text \<open>
  No operation of the instruction set looks at the cycle counter, so the cycles of an instruction can be
  counted in any order: the opcode fetch first, the rest later.
\<close>

lemma isa_adc_clock: "isa_adc v (t\<lparr>i_cyc := n\<rparr>) = (isa_adc v t)\<lparr>i_cyc := n\<rparr>"
  by (simp add: isa_adc_def Let_def nz_def)

lemma isa_sbc_clock: "isa_sbc v (t\<lparr>i_cyc := n\<rparr>) = (isa_sbc v t)\<lparr>i_cyc := n\<rparr>"
  by (simp add: isa_sbc_def Let_def nz_def)

lemma isa_arr_clock: "isa_arr v (t\<lparr>i_cyc := c\<rparr>) = (isa_arr v t)\<lparr>i_cyc := c\<rparr>"
  by (cases "i_d t") (simp_all add: isa_arr_def Let_def nz_def)

lemma isa_read_op_cyc: "isa_read_op k v (t\<lparr>i_cyc := c\<rparr>) = (isa_read_op k v t)\<lparr>i_cyc := c\<rparr>"
  by (cases k) (simp_all add: isa_adc_clock isa_sbc_clock isa_arr_clock isa_compare_def nz_def Let_def)

lemma isa_shift_cyc: "isa_shift k v (t\<lparr>i_cyc := c\<rparr>) = (fst (isa_shift k v t), (snd (isa_shift k v t))\<lparr>i_cyc := c\<rparr>)"
  by (cases k) (simp_all add: nz_def Let_def)

lemma isa_mod_op_cyc: "isa_mod_op k v (t\<lparr>i_cyc := c\<rparr>) = (fst (isa_mod_op k v t), (snd (isa_mod_op k v t))\<lparr>i_cyc := c\<rparr>)"
  by (cases k) (simp_all add: isa_shift_cyc isa_read_op_cyc split_beta del: isa_read_op.simps isa_shift.simps)

lemma isa_status_cyc: "isa_status b (t\<lparr>i_cyc := c\<rparr>) = isa_status b t"
  by (simp add: isa_status_def)

lemma isa_push_cyc: "isa_push v (t\<lparr>i_cyc := c\<rparr>) = (isa_push v t)\<lparr>i_cyc := c\<rparr>"
  by (simp add: isa_push_def)

lemma isa_imp_op_cyc: "isa_imp_op k (t\<lparr>i_cyc := c\<rparr>) = (isa_imp_op k t)\<lparr>i_cyc := c\<rparr>"
  by (cases k) (simp_all add: nz_def isa_push_def isa_pull_def isa_status_cyc isa_set_status_def)

lemma isa_address_cyc:
  "zp_word b (t\<lparr>i_cyc := c\<rparr>) = zp_word b t" "isa_base md w (t\<lparr>i_cyc := c\<rparr>) = isa_base md w t"
  "isa_index md (t\<lparr>i_cyc := c\<rparr>) = isa_index md t" "isa_ea md w (t\<lparr>i_cyc := c\<rparr>) = isa_ea md w t"
  "isa_crossed md w (t\<lparr>i_cyc := c\<rparr>) = isa_crossed md w t" "isa_wrong md w (t\<lparr>i_cyc := c\<rparr>) = isa_wrong md w t"
  "isa_operand md w (t\<lparr>i_cyc := c\<rparr>) = isa_operand md w t" "isa_pointer md w (t\<lparr>i_cyc := c\<rparr>) = isa_pointer md w t"
proof -
  show z: "zp_word b (t\<lparr>i_cyc := c\<rparr>) = zp_word b t" for b by (simp add: zp_word_def)
  show b: "isa_base md w (t\<lparr>i_cyc := c\<rparr>) = isa_base md w t" by (cases md) (simp_all add: z)
  show i: "isa_index md (t\<lparr>i_cyc := c\<rparr>) = isa_index md t" by (cases md) simp_all
  show ea: "isa_ea md w (t\<lparr>i_cyc := c\<rparr>) = isa_ea md w t" by (simp add: isa_ea_def b i)
  show "isa_crossed md w (t\<lparr>i_cyc := c\<rparr>) = isa_crossed md w t" by (simp add: isa_crossed_def ea b)
  show "isa_wrong md w (t\<lparr>i_cyc := c\<rparr>) = isa_wrong md w t" by (simp add: isa_wrong_def ea b)
  show "isa_operand md w (t\<lparr>i_cyc := c\<rparr>) = isa_operand md w t" by (simp add: isa_operand_def ea)
  show "isa_pointer md w (t\<lparr>i_cyc := c\<rparr>) = isa_pointer md w t" by (cases md) simp_all
qed

lemma isa_store_cyc:
  "isa_store_value k h (t\<lparr>i_cyc := c\<rparr>) = isa_store_value k h t"
  "isa_store_addr k md w (t\<lparr>i_cyc := c\<rparr>) = isa_store_addr k md w t"
proof -
  show v: "isa_store_value k h (t\<lparr>i_cyc := c\<rparr>) = isa_store_value k h t" for h by (cases k) simp_all
  show "isa_store_addr k md w (t\<lparr>i_cyc := c\<rparr>) = isa_store_addr k md w t"
    by (simp add: isa_store_addr_def isa_address_cyc v)
qed

lemma isa_flag_cyc: "isa_flag f (t\<lparr>i_cyc := c\<rparr>) = isa_flag f t"
  by (cases f) (simp_all add: isa_flag_def)

lemmas isa_cyc = isa_read_op_cyc isa_shift_cyc isa_mod_op_cyc isa_status_cyc isa_push_cyc isa_imp_op_cyc
  isa_address_cyc isa_store_cyc isa_flag_cyc

lemma isa_exec_cyc: "isa_exec ins md n w (t\<lparr>i_cyc := i_cyc t + k\<rparr>) = isa_exec ins md (n + k) w t"
proof -
  have keeps: "i_cyc (isa_read_op k v t) = i_cyc t" "i_cyc (snd (isa_mod_op k' v t)) = i_cyc t"
    "i_cyc (snd (isa_shift k'' v t)) = i_cyc t" "i_cyc (isa_imp_op k''' t) = i_cyc t" for k k' k'' k''' v
    using arg_cong [OF isa_read_op_cyc [of k v "i_cyc t" t], of i_cyc]
      arg_cong [OF isa_mod_op_cyc [of k' v "i_cyc t" t], of "\<lambda>p. i_cyc (snd p)"]
      arg_cong [OF isa_shift_cyc [of k'' v "i_cyc t" t], of "\<lambda>p. i_cyc (snd p)"]
      arg_cong [OF isa_imp_op_cyc [of k''' "i_cyc t" t], of i_cyc]
    by (simp_all del: isa_read_op.simps isa_mod_op.simps isa_shift.simps isa_imp_op.simps)
  show ?thesis
    by (cases ins) (simp_all add: isa_cyc keeps isa_next_def isa_enter_def isa_push_def isa_pull_def isa_set_status_def
        isa_branch_dest_def split_beta Let_def add.assoc add.commute [of k] cong: if_cong split del: if_split split_of_bool
        del: isa_read_op.simps isa_mod_op.simps isa_shift.simps isa_imp_op.simps isa_store_value.simps)
qed

end
