(* ===== verification/CpuRefine.thy ===== *)
theory CpuRefine
  imports CpuBus CpuAlu IsaCycles
begin

text \<open>
  The core implements the abstract instruction set of Isa on every machine that fulfils the bus contract:
  each opcode macro of 6510core.c, with each addressing mode the switch uses it with, changes the
  abstract state exactly as the instruction does, cycles included.
\<close>

section \<open>What an opcode changes\<close>

text \<open>The globals an opcode that does not jump may change.\<close>

definition moved :: "u32 \<Rightarrow> 'e globals \<Rightarrow> 'e globals \<Rightarrow> bool" where
  "moved p g g' \<longleftrightarrow> g' = g\<lparr>maincpu_clk := maincpu_clk g', reg_pc := reg_pc g + p, mem_ram := mem_ram g',
     last_opcode_info := last_opcode_info g', maincpu_rmw_flag := maincpu_rmw_flag g'\<rparr>"

text \<open>The N and Z bits live outside of \<open>reg_p\<close>, their places in it stay 0.\<close>

definition clean :: "u8 \<Rightarrow> bool" where
  "clean p \<longleftrightarrow> \<not> bit p 1 \<and> \<not> bit p 7"

lemma ucast16_add: "ucast ((a :: u32) + b) = (ucast a + ucast b :: u16)"
  by (simp add: word_unat_eq_iff unat_word_ariths unat_u32_u16 mod_simps mod_mod_cancel)

text \<open>Bytes in 32-bit words.\<close>

lemma zx_bitwise [simp]:
  "zx a AND zx b = zx (a AND b)" "zx a OR zx b = zx (a OR b)" "zx a XOR zx b = zx (a XOR b)"
  by (auto intro!: bit_eqI simp: bit_simps)

lemma zx_eq_0 [simp]: "zx a = 0 \<longleftrightarrow> a = 0"
  by (simp add: word_unat_eq_iff unat_zx)

lemma zx_drop_bit [simp]: "drop_bit n (zx a) = zx (drop_bit n a)"
  by (rule bit_eqI) (auto simp: bit_simps dest: bit_imp_le_length)

lemma lo8_mult [simp]: "lo8 (a * b) = lo8 a * lo8 b"
  by (rule word_unat_eq_iff [THEN iffD2]) (simp add: unat_word_ariths unat_lo8 mod_simps mod_mod_cancel)

lemma or_ff [simp]: "(a :: u8) OR 0xff = 0xff" "0xff OR (a :: u8) = 0xff"
proof -
  have m: "(0xff :: u8) = mask 8" by (simp add: mask_eq_exp_minus_1)
  show "a OR 0xff = 0xff" "0xff OR a = 0xff" unfolding m by (auto intro!: bit_eqI simp: bit_simps)
qed

lemma zx_flags [simp]:
  "zx v AND 1 = 0 \<longleftrightarrow> \<not> bit v 0" "zx v AND 0x10 = 0 \<longleftrightarrow> \<not> bit v 4" "zx v AND 0x20 = 0 \<longleftrightarrow> \<not> bit v 5"
  "zx v AND 0x40 = 0 \<longleftrightarrow> \<not> bit v 6" "zx v AND 0x80 = 0 \<longleftrightarrow> \<not> bit v 7"
  by (simp_all add: and_bits)

lemma flag_bytes [simp]:
  "bit (if c then 0x80 else 0 :: u8) 7 \<longleftrightarrow> c" "(if c then 0 else 1 :: u8) = 0 \<longleftrightarrow> c"
  by simp_all

lemma arr_overflow [simp]: "(zx r AND 0x40) XOR (zx r * 2 AND 0x40) = 0 \<longleftrightarrow> bit r 6 = bit r 5"
proof -
  have "(zx r AND 0x40) XOR (zx r * 2 AND 0x40) = (zx r XOR zx r * 2) AND 0x40"
    by (rule bit_eqI) (auto simp: bit_simps)
  then show ?thesis by (simp only: and_bits bit_xor_iff bit_twice) simp
qed

context ram_bus
begin

definition refines :: "('e, unit) ex \<Rightarrow> 'e cpu \<Rightarrow> u32 \<Rightarrow> u32 \<Rightarrow> isa \<Rightarrow> bool" where
  "refines f s p n t \<longleftrightarrow>
     abs_cpu (snd (run_state f s)) = t\<lparr>i_pc := i_pc t + ucast p, i_cyc := i_cyc t + n\<rparr> \<and>
     moved p (glb s) (glb (snd (run_state f s))) \<and>
     (clean (reg_p s) \<longrightarrow> clean (reg_p (snd (run_state f s))))"

lemmas refine_defs = yields_def refines_def moved_def clean_def nz_def isa_compare_def abs_cpu_def cpu ucast16_add Let_def no_borrow

lemma sim_LDA: "yields val s v k \<Longrightarrow> refines (LDA val c p) s p (k + c) (isa_read_op Lda v (abs_cpu s))"
  by (simp add: LDA_def refine_defs)

lemma sim_LDX: "yields val s v k \<Longrightarrow> refines (LDX val c p) s p (k + c) (isa_read_op Ldx v (abs_cpu s))"
  by (simp add: LDX_def refine_defs)

lemma sim_LDY: "yields val s v k \<Longrightarrow> refines (LDY val c p) s p (k + c) (isa_read_op Ldy v (abs_cpu s))"
  by (simp add: LDY_def refine_defs)

lemma sim_LAX: "yields val s v k \<Longrightarrow> refines (LAX val c p) s p (k + c) (isa_read_op Lax v (abs_cpu s))"
  by (simp add: LAX_def refine_defs)

lemma sim_AND: "yields val s v k \<Longrightarrow> refines (AND_op val c p) s p (k + c) (isa_read_op And v (abs_cpu s))"
  by (simp add: AND_op_def refine_defs)

lemma sim_ORA: "yields val s v k \<Longrightarrow> refines (ORA val c p) s p (k + c) (isa_read_op Ora v (abs_cpu s))"
  by (simp add: ORA_def refine_defs)

lemma sim_EOR: "yields val s v k \<Longrightarrow> refines (EOR val c p) s p (k + c) (isa_read_op Eor v (abs_cpu s))"
  by (simp add: EOR_def refine_defs)

lemma sim_CMP: "yields val s v k \<Longrightarrow> refines (CMP val c p) s p (k + c) (isa_read_op Cmp v (abs_cpu s))"
  by (simp add: CMP_def refine_defs)

lemma sim_BIT: "yields val s v k \<Longrightarrow> refines (BIT val p) s p (k + 1) (isa_read_op Bit v (abs_cpu s))"
  by (simp add: BIT_def refine_defs and.commute)

lemma sim_ANC: "yields val s v 0 \<Longrightarrow> refines (ANC val p) s p 0 (isa_read_op Anc v (abs_cpu s))"
  by (simp add: ANC_def refine_defs)

lemma sim_ASR: "yields val s v 0 \<Longrightarrow> refines (ASR val p) s p 0 (isa_read_op Asr v (abs_cpu s))"
  by (simp add: ASR_def refine_defs)

lemma sim_ANE: "yields val s v 0 \<Longrightarrow> refines (ANE val p) s p 0 (isa_read_op Ane v (abs_cpu s))"
  by (simp add: ANE_def refine_defs)

lemma sim_LXA: "yields val s v 0 \<Longrightarrow> refines (LXA val p) s p 0 (isa_read_op Lxa v (abs_cpu s))"
  by (simp add: LXA_def refine_defs)

lemma sim_SBX: "yields val s v 0 \<Longrightarrow> refines (SBX val p) s p 0 (isa_read_op Sbx v (abs_cpu s))"
  by (simp add: SBX_def refine_defs)

lemma sim_LAS: "yields val s v k \<Longrightarrow> refines (LAS val c p) s p (k + c) (isa_read_op Las v (abs_cpu s))"
  by (simp add: LAS_def refine_defs)

lemma sim_CPX: "yields val s v k \<Longrightarrow> refines (CPX val c p) s p (k + c) (isa_read_op Cpx v (abs_cpu s))"
  by (simp add: CPX_def refine_defs)

lemma sim_CPY: "yields val s v k \<Longrightarrow> refines (CPY val c p) s p (k + c) (isa_read_op Cpy v (abs_cpu s))"
  by (simp add: CPY_def refine_defs)

lemma refines_arith:
  assumes "run_state f s = ((), arith_result n p a v c fn fz (tick k s))"
    and "t = (abs_cpu s)\<lparr>i_a := a, i_v := v, i_c := c, i_n := bit fn 7, i_z := (fz = 0)\<rparr>"
  shows "refines f s p (k + n) t"
  using assms by (simp add: refines_def moved_def clean_def arith_result_def abs_cpu_def ucast16_add)

text \<open>What ADC and SBC leave behind, for the opcodes that contain them.\<close>

definition adds :: "('e, unit) ex \<Rightarrow> 'e cpu \<Rightarrow> u32 \<Rightarrow> u32 \<Rightarrow> 'e cpu \<Rightarrow> isa \<Rightarrow> bool" where
  "adds f s n p s0 t \<longleftrightarrow> (\<exists>a v c fn fz. run_state f s = ((), arith_result n p a v c fn fz s0) \<and>
     t = (abs_cpu s0)\<lparr>i_a := a, i_v := v, i_c := c, i_n := bit fn 7, i_z := (fz = 0)\<rparr>)"

lemma addsI:
  "run_state f s = ((), arith_result n p a v c fn fz s0) \<Longrightarrow>
   t = (abs_cpu s0)\<lparr>i_a := a, i_v := v, i_c := c, i_n := bit fn 7, i_z := (fz = 0)\<rparr> \<Longrightarrow> adds f s n p s0 t"
  unfolding adds_def by blast

lemma adds_refines:
  assumes "adds f s n p (tick k s) t"
  shows "refines f s p (k + n) (t\<lparr>i_cyc := maincpu_clk (glb s)\<rparr>)"
  using assms by (auto simp: adds_def refines_def moved_def clean_def arith_result_def abs_cpu_def ucast16_add)

lemma adds_ADC: "adds (ADC (ret (zx v)) c p) s c p s (isa_adc v (abs_cpu s))"
proof (cases "LOCAL_DECIMAL s")
  case False
  show ?thesis
    by (rule addsI, subst run_ADC_binary)
      (use False in \<open>simp add: isa_adc_binary [of _ s] nz_def Let_def lo8_and_ff abs_cpu_def\<close>)+
next
  case True
  show ?thesis
    by (rule addsI, subst run_ADC_decimal)
      (use True in \<open>simp add: isa_adc_decimal [of _ s] Let_def abs_cpu_def\<close>)+
qed

lemma adds_SBC: "adds (SBC (ret (zx v)) c p) s c p s (isa_sbc v (abs_cpu s))"
proof -
  define b where "b = (if LOCAL_CARRY s then 0 else 1 :: u32)"
  define w where "w = (ucast (zx (reg_a s) - zx v - b) :: u16)"
  let ?v = "truth ((zx (reg_a s) XOR ucast w) AND 0x80) \<and> truth ((zx (reg_a s) XOR zx v) AND 0x80)"
  let ?a = "if LOCAL_DECIMAL s then lo8 (sbc_digits (zx (reg_a s)) (zx v) b) else lo8 (ucast w)"
  have res: "run_state (SBC (ret (zx v)) c p) s =
      ((), arith_result c p ?a ?v (w < 0x100) (lo8 (ucast w)) (lo8 (ucast w)) s)"
  proof (cases "LOCAL_DECIMAL s")
    case False
    then show ?thesis unfolding run_SBC_binary [OF False] Let_def zx_u16 lo8_and_ff w_def b_def
      by (simp only: if_False)
  next
    case True
    then show ?thesis unfolding run_SBC_decimal [OF True] Let_def lo8_and_ff w_def b_def
      by (simp only: if_True)
  qed
  have "isa_sbc v (abs_cpu s) = nz (lo8 (ucast w)) ((abs_cpu s)\<lparr>i_a := ?a, i_c := (w < 0x100), i_v := ?v\<rparr>)"
    unfolding w_def b_def by (subst isa_sbc_core [of _ s]) (simp_all only: abs_simps local_flags)
  then show ?thesis by (intro addsI [OF res]) (simp add: nz_def abs_cpu_def)
qed

lemma abs_tick: "abs_cpu (tick k s) = (abs_cpu s)\<lparr>i_cyc := maincpu_clk (glb s) + k\<rparr>"
  by (simp add: abs_cpu_def)

lemma abs_same_clock [simp]: "(abs_cpu s)\<lparr>i_cyc := maincpu_clk (glb s)\<rparr> = abs_cpu s"
  by (simp add: abs_cpu_def)

lemma sim_ADC:
  assumes "yields val s v k"
  shows "refines (ADC val c p) s p (k + c) (isa_read_op Adc v (abs_cpu s))"
proof -
  have "run_state (ADC val c p) s = run_state (ADC (ret (zx v)) c p) (tick k s)"
    using assms by (simp add: ADC_def yields_def)
  then have "adds (ADC val c p) s c p (tick k s) (isa_adc v (abs_cpu (tick k s)))"
    using adds_ADC [of v c p "tick k s"] by (simp add: adds_def)
  from adds_refines [OF this] show ?thesis by (simp add: abs_tick flip: isa_adc_clock)
qed

lemma sim_SBC:
  assumes "yields val s v k"
  shows "refines (SBC val c p) s p (k + c) (isa_read_op Sbc v (abs_cpu s))"
proof -
  have "run_state (SBC val c p) s = run_state (SBC (ret (zx v)) c p) (tick k s)"
    using assms by (simp add: SBC_def yields_def)
  then have "adds (SBC val c p) s c p (tick k s) (isa_sbc v (abs_cpu (tick k s)))"
    using adds_SBC [of v c p "tick k s"] by (simp add: adds_def)
  from adds_refines [OF this] show ?thesis by (simp add: abs_tick flip: isa_sbc_clock)
qed

lemma sim_ARR:
  assumes "yields val s v 0"
  shows "refines (ARR val p) s p 0 (isa_read_op Arr v (abs_cpu s))"
proof -
  let ?t = "reg_a s AND v"
  let ?r = "drop_bit 1 ?t OR (if bit (reg_p s) 0 then 0x80 else 0)"
  have c: "truth (carry s) \<longleftrightarrow> bit (reg_p s) 0" by (simp add: word_unat_eq_iff carry_num)
  have val: "run_state val s = (zx v, s)" using assms by (simp add: yields_def)
  show ?thesis
  proof (cases "LOCAL_DECIMAL s")
    case False
    then show ?thesis
      using rotated [of ?t s] val
      by (simp add: ARR_def refines_def moved_def clean_def abs_cpu_def cpu ucast16_add Let_def isa_arr_def nz_def)
  next
    case True
    have run: "run_state (ARR val p) s = run_state (ARR (ret (zx v)) p) s" using val by (simp add: ARR_def cpu)
    have ov: "truth ((zx ?r XOR zx ?t) AND 0x40) \<longleftrightarrow> bit ?r 6 \<noteq> bit ?t 6"
      by (simp add: and_bits bit_xor_iff)
    let ?f = "if bit (reg_p s) 0 then 0x80 else 0 :: u8" and ?z = "if zx ?r = 0 then 0 else 1 :: u8"
    let ?v = "bit ?r 6 \<noteq> bit ?t 6" and ?c = "(zx ?t AND 0xf0) + (zx ?t AND 0x10) > 0x50"
    have res: "run_state (ARR val p) s =
        ((), arith_result 0 p (lo8 (arr_high (zx ?t) (arr_low (zx ?t) (zx ?r)))) ?v ?c ?f ?z (tick 0 s))"
      unfolding run run_ARR_decimal [OF True] Let_def zx_bitwise(1) rotated c ov by simp
    have "refines (ARR val p) s p (0 + 0) (isa_read_op Arr v (abs_cpu s))"
      by (rule refines_arith [OF res]) (use True in \<open>simp add: isa_arr_def Let_def arr_conditions arr_adjust\<close>)
    then show ?thesis by simp
  qed
qed

end

end
