(* ===== verification/CpuRmw.thy ===== *)
theory CpuRmw
  imports CpuRefine
begin

text \<open>
  The opcodes that modify memory or the accumulator, the stores, the transfers and the stack opcodes,
  against the instruction set.
\<close>

lemma bit_carry: "carry s = of_bool (bit (reg_p s) 0)"
  by (simp add: word_unat_eq_iff carry_num)

lemma lo8_of_bool [simp]: "lo8 (of_bool b) = of_bool b"
  by (cases b) simp_all

lemma stack_addr: "PAGE_ONE sp = i_stack sp"
proof -
  have "unat (PAGE_ONE sp) = unat (i_stack sp)"
    using u8_lt [of sp] by (simp add: PAGE_ONE_def i_stack_def unat_mk16 unat_word_ariths unsigned_ucast_eq take_bit_eq_mod)
  then show ?thesis unfolding word_unat_eq_iff .
qed

text \<open>The ninth bit of a shifted byte, and a carry shifted in from the left.\<close>

lemma shifted_out [simp]:
  "zx v * 2 AND 0x100 = 0 \<longleftrightarrow> \<not> bit v 7" "(zx v * 2 OR of_bool c) AND 0x100 = 0 \<longleftrightarrow> \<not> bit v 7"
  "(zx v OR 0x100) AND 1 = 0 \<longleftrightarrow> \<not> bit v 0"
  by (simp_all add: and_bits bit_or_iff bit_twice bit_1_iff split: if_splits)

lemma mask_lo8: "(x :: u32) AND 0xff = zx (lo8 x)"
  by (simp add: word_unat_eq_iff wnat)

lemma zx_le [simp]: "zx a \<le> zx b \<longleftrightarrow> a \<le> b"
  by (simp add: word_le_nat_alt unat_zx)

lemma rotate_in: "drop_bit 1 (zx v) OR push_bit 7 (zx p) = zx (drop_bit 1 v) OR push_bit 7 (zx p)"
  by simp

lemma lo8_rotate: "lo8 (drop_bit 1 (zx v) OR push_bit 7 (zx p)) = drop_bit 1 v OR (if bit p 0 then 0x80 else 0)"
proof -
  have x: "(0x80 :: u8) = push_bit 7 1" by simp
  show ?thesis unfolding x
    by (rule bit_eqI) (auto simp: bit_simps bit_1_iff simp del: push_bit_of_1)
qed

lemma lo8_ror: "lo8 (drop_bit 1 (if c then zx v OR 0x100 else zx v)) = drop_bit 1 v OR (if c then 0x80 else 0)"
proof -
  have x: "(0x80 :: u8) = push_bit 7 1" "(0x100 :: u32) = push_bit 8 1" by simp_all
  show ?thesis unfolding x
    by (rule bit_eqI) (auto simp: bit_simps bit_1_iff simp del: push_bit_of_1)
qed

text \<open>The adder only looks at A, C and D.\<close>

lemma isa_adc_frame:
  assumes "i_a t = i_a u" "i_c t = i_c u" "i_d t = i_d u"
    and "isa_adc w u = u\<lparr>i_a := a, i_v := v, i_c := c, i_n := n, i_z := z\<rparr>"
  shows "isa_adc w t = t\<lparr>i_a := a, i_v := v, i_c := c, i_n := n, i_z := z\<rparr>"
proof -
  have "isa_adc w t = t\<lparr>i_a := i_a (isa_adc w u), i_v := i_v (isa_adc w u), i_c := i_c (isa_adc w u),
      i_n := i_n (isa_adc w u), i_z := i_z (isa_adc w u)\<rparr>"
    using assms(1-3) by (simp add: isa_adc_def Let_def nz_def)
  then show ?thesis unfolding assms(4) by simp
qed

lemma isa_sbc_frame:
  assumes "i_a t = i_a u" "i_c t = i_c u" "i_d t = i_d u"
    and "isa_sbc w u = u\<lparr>i_a := a, i_v := v, i_c := c, i_n := n, i_z := z\<rparr>"
  shows "isa_sbc w t = t\<lparr>i_a := a, i_v := v, i_c := c, i_n := n, i_z := z\<rparr>"
proof -
  have "isa_sbc w t = t\<lparr>i_a := i_a (isa_sbc w u), i_v := i_v (isa_sbc w u), i_c := i_c (isa_sbc w u),
      i_n := i_n (isa_sbc w u), i_z := i_z (isa_sbc w u)\<rparr>"
    using assms(1-3) by (simp add: isa_sbc_def Let_def nz_def)
  then show ?thesis unfolding assms(4) by simp
qed

context ram_bus
begin

section \<open>Accumulator\<close>

lemma sim_ASL_A: "refines ASL_A s 1 0 (let (v, t) = isa_shift Asl (reg_a s) (abs_cpu s) in t\<lparr>i_a := v\<rparr>)"
  by (simp add: ASL_A_def refine_defs)

lemma sim_LSR_A: "refines LSR_A s 1 0 (let (v, t) = isa_shift Lsr (reg_a s) (abs_cpu s) in t\<lparr>i_a := v\<rparr>)"
  by (simp add: LSR_A_def refine_defs)

lemma sim_ROL_A: "refines ROL_A s 1 0 (let (v, t) = isa_shift Rol (reg_a s) (abs_cpu s) in t\<lparr>i_a := v\<rparr>)"
  by (simp add: ROL_A_def refine_defs bit_carry)

lemma sim_ROR_A: "refines ROR_A s 1 0 (let (v, t) = isa_shift Ror (reg_a s) (abs_cpu s) in t\<lparr>i_a := v\<rparr>)"
  using lo8_rotate [of "reg_a s" "put_flag P_CARRY (bit (reg_a s) 0) (reg_p s)"] lo8_rotate [of "reg_a s" "reg_p s"]
  by (simp add: ROR_A_def refine_defs)

section \<open>Memory\<close>

text \<open>\<open>lf\<close> and \<open>sf\<close> read and write the byte at \<open>A\<close> for the address argument \<open>a\<close>; the read takes \<open>k\<close> cycles.\<close>

definition rmw_at :: "(u32 \<Rightarrow> ('e, u32) ex) \<Rightarrow> (u32 \<Rightarrow> u32 \<Rightarrow> u32 \<Rightarrow> ('e, unit) ex) \<Rightarrow> u32 \<Rightarrow> 'e cpu \<Rightarrow> u16 \<Rightarrow> u32 \<Rightarrow> bool" where
  "rmw_at lf sf a s A k \<longleftrightarrow> bus_ok s \<and> writable s A \<and>
     (\<forall>n. run_state (lf a) (tick n s) = (zx (view s A), tick (n + k) s)) \<and>
     (\<forall>s' b c. dev (glb s') = dev (glb s) \<and> reg_x s' = reg_x s \<and> reg_y s' = reg_y s \<longrightarrow>
        run_state (sf a b c) s' = ((), poke A (lo8 b) (tick c s')))"

lemma rmw_atD:
  assumes "rmw_at lf sf a s A k"
  shows "run_state (lf a) (tick n s) = (zx (view s A), tick (n + k) s)" "run_state (lf a) s = (zx (view s A), tick k s)"
    and "dev (glb s') = dev (glb s) \<Longrightarrow> reg_x s' = reg_x s \<Longrightarrow> reg_y s' = reg_y s \<Longrightarrow>
      run_state (sf a b c) s' = ((), poke A (lo8 b) (tick c s'))"
    and "ok (dev (glb s))" "wr (dev (glb s)) A"
  using assms spec [of "\<lambda>n. run_state (lf a) (tick n s) = (zx (view s A), tick (n + k) s)" 0]
  by (auto simp: rmw_at_def)

lemmas rmw_defs = refines_def moved_def clean_def nz_def isa_compare_def abs_cpu_def cpu ucast16_add Let_def no_borrow
  rmw_store_def bit_carry peek_store

lemma sim_ASL:
  assumes "rmw_at lf sf a s A k"
  shows "refines (ASL a c p lf sf) s p (k + c) (let (v, t) = isa_shift Asl (view s A) (abs_cpu s) in t\<lparr>i_mem := (view s)(A := v)\<rparr>)"
  by (simp add: ASL_def rmw_atD [OF assms] rmw_defs add.assoc)

lemma sim_LSR:
  assumes "rmw_at lf sf a s A k"
  shows "refines (LSR a c p lf sf) s p (k + c) (let (v, t) = isa_shift Lsr (view s A) (abs_cpu s) in t\<lparr>i_mem := (view s)(A := v)\<rparr>)"
  by (simp add: LSR_def rmw_atD [OF assms] rmw_defs add.assoc)

lemma sim_ROL:
  assumes "rmw_at lf sf a s A k"
  shows "refines (ROL a c p lf sf) s p (k + c) (let (v, t) = isa_shift Rol (view s A) (abs_cpu s) in t\<lparr>i_mem := (view s)(A := v)\<rparr>)"
  by (simp add: ROL_def rmw_atD [OF assms] rmw_defs add.assoc)

lemma sim_ROR:
  assumes "rmw_at lf sf a s A k"
  shows "refines (ROR a c p lf sf) s p (k + c) (let (v, t) = isa_shift Ror (view s A) (abs_cpu s) in t\<lparr>i_mem := (view s)(A := v)\<rparr>)"
  using lo8_ror [of "bit (reg_p s) 0" "view s A"]
  by (cases "bit (reg_p s) 0") (simp_all add: ROR_def rmw_atD [OF assms] rmw_defs add.assoc)

lemma sim_INC:
  assumes "rmw_at lf sf a s A k"
  shows "refines (INC a c p lf sf) s p (k + c) (let (v, t) = isa_shift Inc (view s A) (abs_cpu s) in t\<lparr>i_mem := (view s)(A := v)\<rparr>)"
  by (simp add: INC_def rmw_atD [OF assms] rmw_defs add.assoc)

lemma sim_DEC:
  assumes "rmw_at lf sf a s A k"
  shows "refines (DEC a c p lf sf) s p (k + c) (let (v, t) = isa_shift Dec (view s A) (abs_cpu s) in t\<lparr>i_mem := (view s)(A := v)\<rparr>)"
  by (simp add: DEC_def rmw_atD [OF assms] rmw_defs add.assoc)

text \<open>The undocumented ones; \<open>addr\<close> computes the address argument and takes \<open>e\<close> cycles.\<close>

definition addr_at :: "('e, u32) ex \<Rightarrow> 'e cpu \<Rightarrow> u32 \<Rightarrow> u32 \<Rightarrow> bool" where
  "addr_at addr s a e \<longleftrightarrow> (\<forall>n. run_state addr (tick n s) = (a, tick (n + e) s))"

lemma addr_atD:
  assumes "addr_at addr s a e"
  shows "run_state addr (tick n s) = (a, tick (n + e) s)" "run_state addr s = (a, tick e s)"
  using assms spec [of "\<lambda>n. run_state addr (tick n s) = (a, tick (n + e) s)" 0] by (auto simp: addr_at_def)

lemma sim_SLO:
  assumes "addr_at addr s a e" "rmw_at lf sf a s A k"
  shows "refines (SLO addr j c p lf sf) s p (j + e + k + c)
    (let (v, t) = isa_mod_op Slo (view s A) (abs_cpu s) in t\<lparr>i_mem := (view s)(A := v)\<rparr>)"
  by (simp add: SLO_def addr_atD [OF assms(1)] rmw_atD [OF assms(2)] rmw_defs add.assoc)

lemma sim_SRE:
  assumes "addr_at addr s a e" "rmw_at lf sf a s A k"
  shows "refines (SRE addr j c p lf sf) s p (j + e + k + c)
    (let (v, t) = isa_mod_op Sre (view s A) (abs_cpu s) in t\<lparr>i_mem := (view s)(A := v)\<rparr>)"
  by (simp add: SRE_def addr_atD [OF assms(1)] rmw_atD [OF assms(2)] rmw_defs add.assoc)

lemma sim_RLA:
  assumes "addr_at addr s a e" "rmw_at lf sf a s A k"
  shows "refines (RLA addr j c p lf sf) s p (j + e + k + c)
    (let (v, t) = isa_mod_op Rla (view s A) (abs_cpu s) in t\<lparr>i_mem := (view s)(A := v)\<rparr>)"
  by (simp add: RLA_def addr_atD [OF assms(1)] rmw_atD [OF assms(2)] rmw_defs add.assoc)

lemma sim_DCP:
  assumes "addr_at addr s a e" "rmw_at lf sf a s A k"
  shows "refines (DCP addr j c p lf sf) s p (j + e + k + c)
    (let (v, t) = isa_mod_op Dcp (view s A) (abs_cpu s) in t\<lparr>i_mem := (view s)(A := v)\<rparr>)"
  by (simp add: DCP_def addr_atD [OF assms(1)] rmw_atD [OF assms(2)] rmw_defs add.assoc mask_lo8)

lemma addsE:
  assumes "adds f s n p s0 t"
  obtains a v c fn fz where "run_state f s = ((), arith_result n p a v c fn fz s0)"
    "t = (abs_cpu s0)\<lparr>i_a := a, i_v := v, i_c := c, i_n := bit fn 7, i_z := (fz = 0)\<rparr>"
  using assms unfolding adds_def by blast

text \<open>ISB and RRA run SBC and ADC on the byte they store.\<close>

lemma sim_ISB:
  assumes "addr_at addr s a e" "rmw_at lf sf a s A k"
  shows "refines (ISB addr j c p lf sf) s p (j + e + k + c)
    (let (v, t) = isa_mod_op Isb (view s A) (abs_cpu s) in t\<lparr>i_mem := (view s)(A := v)\<rparr>)"
proof -
  let ?v = "view s A + 1" and ?s = "tick (j + e + k) s"
  obtain a' v' c' fn fz where
    run: "run_state (SBC (ret (zx ?v)) 0 0) ?s = ((), arith_result 0 0 a' v' c' fn fz ?s)"
    and t: "isa_sbc ?v (abs_cpu ?s) = (abs_cpu ?s)\<lparr>i_a := a', i_v := v', i_c := c', i_n := bit fn 7, i_z := (fz = 0)\<rparr>"
    by (rule addsE [OF adds_SBC [of ?v 0 0 ?s]])
  have spec: "isa_sbc ?v (nz ?v (abs_cpu s)) =
      (nz ?v (abs_cpu s))\<lparr>i_a := a', i_v := v', i_c := c', i_n := bit fn 7, i_z := (fz = 0)\<rparr>"
    by (rule isa_sbc_frame [OF _ _ _ t]) (simp_all add: nz_def)
  have m: "(zx (view s A) + 1) AND 0xff = zx ?v" by (simp add: mask_lo8)
  show ?thesis
    using run
    by (simp add: ISB_def addr_atD [OF assms(1)] rmw_atD [OF assms(2)] cpu m rmw_store_def arith_result_def Let_def
        refines_def moved_def clean_def spec add.assoc add.left_commute [of e]) (simp add: nz_def abs_cpu_def ucast16_add rmw_atD [OF assms(2)] peek_store add.assoc)
qed

lemma sim_RRA:
  assumes "addr_at addr s a e" "rmw_at lf sf a s A k"
  shows "refines (RRA addr j c p lf sf) s p (j + e + k + c)
    (let (v, t) = isa_mod_op Rra (view s A) (abs_cpu s) in t\<lparr>i_mem := (view s)(A := v)\<rparr>)"
proof -
  let ?b = "view s A"
  let ?v = "drop_bit 1 ?b OR (if bit (reg_p s) 0 then 0x80 else 0)"
  let ?s = "(tick (j + e + k) s)\<lparr>reg_p := put_flag P_CARRY (bit ?b 0) (reg_p s),
    glb := (glb (tick (j + e + k) s))\<lparr>maincpu_rmw_flag := 1, reg_pc := reg_pc (glb s) + p\<rparr>\<rparr>"
  obtain a' v' c' fn fz where
    run: "run_state (ADC (ret (zx ?v)) 0 0) ?s = ((), arith_result 0 0 a' v' c' fn fz ?s)"
    and t: "isa_adc ?v (abs_cpu ?s) = (abs_cpu ?s)\<lparr>i_a := a', i_v := v', i_c := c', i_n := bit fn 7, i_z := (fz = 0)\<rparr>"
    by (rule addsE [OF adds_ADC [of ?v 0 0 ?s]])
  have spec: "isa_adc ?v (nz ?v ((abs_cpu s)\<lparr>i_c := bit ?b 0\<rparr>)) = (nz ?v ((abs_cpu s)\<lparr>i_c := bit ?b 0\<rparr>))
      \<lparr>i_a := a', i_v := v', i_c := c', i_n := bit fn 7, i_z := (fz = 0)\<rparr>"
    by (rule isa_adc_frame [OF _ _ _ t]) (simp_all add: nz_def)
  have m: "zx x OR 0x80 = zx (x OR 0x80)" for x
    using zx_bitwise(2) [of x "0x80"] by simp
  have "run_state (RRA addr j c p lf sf) s = ((), (poke A ?v (tick c (arith_result 0 0 a' v' c' fn fz ?s)))
      \<lparr>glb := (glb (poke A ?v (tick c (arith_result 0 0 a' v' c' fn fz ?s))))\<lparr>maincpu_rmw_flag := 0\<rparr>\<rparr>)"
    using run by (cases "bit (reg_p s) 0")
      (simp_all add: RRA_def addr_atD [OF assms(1)] rmw_atD [OF assms(2)] cpu m arith_result_def Let_def add.assoc)
  moreover have "isa_mod_op Rra ?b (abs_cpu s) = (?v, (nz ?v ((abs_cpu s)\<lparr>i_c := bit ?b 0\<rparr>))
      \<lparr>i_a := a', i_v := v', i_c := c', i_n := bit fn 7, i_z := (fz = 0)\<rparr>)"
    by (simp only: isa_mod_op.simps isa_shift.simps isa_read_op.simps Let_def prod.case abs_simps spec)
  ultimately show ?thesis
    by (simp add: refines_def moved_def clean_def arith_result_def add.assoc nz_def abs_cpu_def ucast16_add
        rmw_atD [OF assms(2)] peek_store)
qed

section \<open>Addressing for modification\<close>

lemma byte_bound [simp]: "unat (zx x) < 0x10100"
  using u8_lt [of x] by (simp add: unat_zx)

lemma ucast_zx16 [simp]: "ucast (zx b) = zp b"
  unfolding zp_def mk16_def by (rule bit_eqI) (auto simp: bit_simps dest: bit_imp_le_length)

lemma rmw_zero:
  assumes "bus_ok s" "writable s (zp b)"
  shows "rmw_at (LOAD_ZERO m) (STORE_ABS m) (zx b) s (zp b) 0" "rmw_at (LOAD_ABS m) (STORE_ABS m) (zx b) s (zp b) 0"
  using assms wr_rd [OF assms] by (simp_all add: rmw_at_def bus STORE_ABS_def LOAD_ABS_def cpu)

lemma rmw_abs:
  assumes "bus_ok s" "writable s a"
  shows "rmw_at (LOAD_ABS m) (STORE_ABS m) (ucast a) s a 0"
  using assms wr_rd [OF assms] by (simp add: rmw_at_def bus STORE_ABS_def LOAD_ABS_def cpu ucast_id16)

lemma lo_index: "lo8 (ucast (w :: u16)) + x = i_lo (w + ucast x)"
  using lo8_add [of "ucast w" "zx x"] i_lo_ucast [of "ucast w + zx x"] by (simp add: addr)

lemma rmw_abs_x:
  assumes "mode_ok AbX w s" "writable s (isa_ea AbX w (abs_cpu s))"
  shows "rmw_at (LOAD_ABS_X_RMW m) (STORE_ABS_X_RMW m) (ucast w) s (isa_ea AbX w (abs_cpu s)) 1"
  using assms lo_index [of w "reg_x s"]
  by (simp add: rmw_at_def bus STORE_ABS_X_RMW_def LOAD_ABS_X_RMW_def cpu mode_ok_def isa_ea_def isa_wrong_def
      addr CLK_INT_CYCLE_def)

lemma rmw_abs_y:
  assumes "mode_ok AbY w s" "writable s (isa_ea AbY w (abs_cpu s))"
  shows "rmw_at (LOAD_ABS_Y_RMW m) (STORE_ABS_Y_RMW m) (ucast w) s (isa_ea AbY w (abs_cpu s)) 1"
  using assms lo_index [of w "reg_y s"]
  by (simp add: rmw_at_def bus STORE_ABS_Y_RMW_def LOAD_ABS_Y_RMW_def cpu mode_ok_def isa_ea_def isa_wrong_def
      addr CLK_INT_CYCLE_def)

lemma addr_ret: "addr_at (ret a) s a 0"
  by (simp add: addr_at_def)

lemma zero_index: "(zx b + zx x) AND 0xff = zx (b + x)"
  by (simp add: mask_lo8)

lemma addr_zero_x: "addr_at (do { x \<leftarrow> X_read; ret ((zx b + x) AND 0xff) }) s (zx (b + reg_x s)) 0"
  by (simp add: addr_at_def cpu zero_index)

lemma zp_word_tick: "zp_word b (abs_cpu (tick n s)) = zp_word b (abs_cpu s)"
  by (simp add: zp_word_def)

lemma addr_ind_x:
  assumes "mode_ok IndX w s"
  shows "addr_at (do { x \<leftarrow> X_read; LOAD_ZERO_ADDR m (zx (i_lo w) + x) }) s (ucast (isa_ea IndX w (abs_cpu s))) 0"
proof -
  have "run_state (LOAD_ZERO_ADDR m (zx (i_lo w) + zx (reg_x s))) (tick n s) =
      (ucast (isa_ea IndX w (abs_cpu s)), tick n s)" for n
    using assms LOAD_ZERO_ADDR_bus [of "tick n s" "zx (i_lo w) + zx (reg_x s)"]
    by (simp add: mode_ok_def zp_word_tick isa_ea_def)
  then show ?thesis by (simp add: addr_at_def cpu)
qed

text \<open>The pointer of the (zero page),Y forms: the address argument has 17 bits.\<close>

definition ind_y_sum :: "u16 \<Rightarrow> 'e cpu \<Rightarrow> u32" where
  "ind_y_sum w s = ucast (isa_base IndY w (abs_cpu s)) + zx (reg_y s)"

lemma ind_y_sum [simp]: "ucast (ind_y_sum w s) = isa_ea IndY w (abs_cpu s)" "unat (ind_y_sum w s) < 0x10100"
  by (simp_all add: ind_y_sum_def isa_ea_def addr)

text \<open>A store through an index reads its pointer and the address without the carry.\<close>

definition index_ok :: "mode \<Rightarrow> u16 \<Rightarrow> 'e cpu \<Rightarrow> bool" where
  "index_ok md w s \<longleftrightarrow> bus_ok s \<and>
     list_all (readable s) (isa_pointer md w (abs_cpu s) @ [isa_wrong md w (abs_cpu s)])"

lemma mode_index: "mode_ok md w s \<Longrightarrow> index_ok md w s"
  by (simp add: mode_ok_def index_ok_def)

lemma LOAD_ZERO_ADDR_ind_y:
  assumes "index_ok IndY w s"
  shows "run_state (LOAD_ZERO_ADDR m (zx (i_lo w))) (tick n s) = (ucast (isa_base IndY w (abs_cpu s)), tick n s)"
  using assms LOAD_ZERO_ADDR_bus [of "tick n s" "zx (i_lo w)"] by (simp add: index_ok_def zp_word_tick)

lemma LOAD_wrong_ind_y:
  assumes "index_ok IndY w s"
  defines "p \<equiv> ucast (isa_base IndY w (abs_cpu s)) :: u32"
  shows "run_state (LOAD m (ret ((p AND 0xff00) OR ((p + zx (reg_y s)) AND 0xff)))) (tick n s) =
    (zx (view s (isa_wrong IndY w (abs_cpu s))), tick n s)"
  using assms(1) lo_index [of "isa_base IndY w (abs_cpu s)" "reg_y s"]
  by (simp add: p_def index_ok_def bus addr isa_wrong_def isa_ea_def)

lemma addr_ind_y:
  assumes "mode_ok IndY w s"
  shows "addr_at (do { t \<leftarrow> LOAD_ZERO_ADDR m (zx (i_lo w)); ind_y_addr m t }) s (ind_y_sum w s) 1"
    and "addr_at (do { t \<leftarrow> LOAD_ZERO_ADDR m (zx (i_lo w)); CLK_ADD 2; ind_y_addr m t }) s (ind_y_sum w s) 3"
  using assms LOAD_ZERO_ADDR_ind_y [OF mode_index [OF assms]] LOAD_wrong_ind_y [OF mode_index [OF assms]]
  by (simp_all add: addr_at_def ind_y_addr_def cpu CLK_IND_Y_RMW1_def ind_y_sum_def add.assoc)

lemma rmw_ind_y:
  assumes "bus_ok s" "writable s (isa_ea IndY w (abs_cpu s))"
  shows "rmw_at (LOAD_ABS m) (STORE_ABS m) (ind_y_sum w s) s (isa_ea IndY w (abs_cpu s)) 0"
  using assms wr_rd [OF assms] by (simp add: rmw_at_def bus STORE_ABS_def LOAD_ABS_def cpu)

text \<open>The macros for this mode are the general ones with the pointer read inlined.\<close>

lemma flags_then_globals: "s\<lparr>reg_p := p, glb := g\<rparr> = s\<lparr>glb := g, reg_p := p\<rparr>"
  by simp

lemma ind_y_macros:
  "run_state (SLO_IND_Y m a) s = run_state (SLO (do { t \<leftarrow> LOAD_ZERO_ADDR m a; ind_y_addr m t })
     2 CLK_IND_Y_RMW2 2 (LOAD_ABS m) (STORE_ABS m)) s"
  "run_state (SRE_IND_Y m a) s = run_state (SRE (do { t \<leftarrow> LOAD_ZERO_ADDR m a; CLK_ADD 2; ind_y_addr m t })
     0 CLK_IND_Y_RMW2 2 (LOAD_ABS m) (STORE_ABS m)) s"
  "run_state (RLA_IND_Y m a) s = run_state (RLA (do { t \<leftarrow> LOAD_ZERO_ADDR m a; CLK_ADD 2; ind_y_addr m t })
     0 CLK_IND_Y_RMW2 2 (LOAD_ABS m) (STORE_ABS m)) s"
  "run_state (DCP_IND_Y m a) s = run_state (DCP (do { t \<leftarrow> LOAD_ZERO_ADDR m a; CLK_ADD 2; ind_y_addr m t })
     0 CLK_IND_Y_RMW2 2 (LOAD_ABS m) (STORE_ABS m)) s"
  "run_state (ISB_IND_Y m a) s = run_state (ISB (do { t \<leftarrow> LOAD_ZERO_ADDR m a; CLK_ADD 2; ind_y_addr m t })
     0 CLK_IND_Y_RMW2 2 (LOAD_ABS m) (STORE_ABS m)) s"
  "run_state (RRA_IND_Y m a) s = run_state (RRA (do { t \<leftarrow> LOAD_ZERO_ADDR m a; ind_y_addr m t })
     2 CLK_IND_Y_RMW2 2 (LOAD_ABS m) (STORE_ABS m)) s"
  by (simp_all add: SLO_IND_Y_def SLO_def SRE_IND_Y_def SRE_def RLA_IND_Y_def RLA_def DCP_IND_Y_def DCP_def
      ISB_IND_Y_def ISB_def RRA_IND_Y_def RRA_def LOAD_ABS_def cpu Let_def split_def
      flags_then_globals cong: if_cong)

section \<open>Stores\<close>

text \<open>A store that only writes \<open>v\<close> at \<open>A\<close>.\<close>

lemma refines_store:
  assumes "run_state f s = ((), (poke A v s)\<lparr>glb := (glb (poke A v s))\<lparr>maincpu_clk := maincpu_clk (glb s) + n,
      reg_pc := reg_pc (glb s) + p\<rparr>\<rparr>)"
    and "bus_ok s" "writable s A"
  shows "refines f s p n ((abs_cpu s)\<lparr>i_mem := (view s)(A := v)\<rparr>)"
  using assms by (simp add: refines_def moved_def clean_def abs_cpu_def ucast16_add peek_store)

lemma sim_STA:
  assumes "addr_at addr s a e" "bus_ok s" "writable s A"
    and "\<And>n pc b c. run_state (sf a b c) (s\<lparr>glb := (glb s)\<lparr>maincpu_clk := n, reg_pc := pc\<rparr>\<rparr>) =
      ((), poke A (lo8 b) (s\<lparr>glb := (glb s)\<lparr>maincpu_clk := n + (k + c), reg_pc := pc\<rparr>\<rparr>))"
  shows "refines (STA addr j c p sf) s p (j + e + k + c) ((abs_cpu s)\<lparr>i_mem := (view s)(A := reg_a s)\<rparr>)"
  by (rule refines_store) (use assms(2-3) in \<open>simp_all add: STA_def addr_atD [OF assms(1)] cpu assms(4) add.assoc\<close>)

lemma sim_SAX:
  assumes "addr_at addr s a e" "bus_ok s" "writable s (ucast a)" "unat a < 0x10100"
  shows "refines (SAX m addr j c p) s p (j + e + c) ((abs_cpu s)\<lparr>i_mem := (view s)(ucast a := reg_a s AND reg_x s)\<rparr>)"
  by (rule refines_store) (use assms in \<open>simp_all add: SAX_def addr_atD [OF assms(1)] cpu bus add.assoc\<close>)

lemma sim_store_zero:
  assumes "bus_ok s" "writable s (zp (lo8 a))"
  shows "refines (STA_ZERO m a c p) s p c ((abs_cpu s)\<lparr>i_mem := (view s)(zp (lo8 a) := reg_a s)\<rparr>)"
    and "refines (STX_ZERO m a c p) s p c ((abs_cpu s)\<lparr>i_mem := (view s)(zp (lo8 a) := reg_x s)\<rparr>)"
    and "refines (STY_ZERO m a c p) s p c ((abs_cpu s)\<lparr>i_mem := (view s)(zp (lo8 a) := reg_y s)\<rparr>)"
    and "refines (SAX_ZERO m a c p) s p c ((abs_cpu s)\<lparr>i_mem := (view s)(zp (lo8 a) := reg_a s AND reg_x s)\<rparr>)"
  by (rule refines_store; use assms in \<open>simp add: STA_ZERO_def STX_ZERO_def STY_ZERO_def SAX_ZERO_def cpu bus\<close>)+

lemma sim_store_abs:
  assumes "bus_ok s" "writable s w"
  shows "refines (STX m (ucast w) c p) s p c ((abs_cpu s)\<lparr>i_mem := (view s)(w := reg_x s)\<rparr>)"
    and "refines (STY m (ucast w) c p) s p c ((abs_cpu s)\<lparr>i_mem := (view s)(w := reg_y s)\<rparr>)"
  by (rule refines_store; use assms in \<open>simp add: STX_def STY_def cpu bus ucast_id16\<close>)+

end

end
