(* ===== verification/CpuStack.thy ===== *)
theory CpuStack
  imports CpuRmw
begin

text \<open>
  The remaining opcodes that do not jump: stores through indexed addresses, the unstable stores, transfers,
  flags and the stack, against the instruction set. The status byte assembled from the lazily kept
  flags is that of the instruction set whenever the places of N and Z in \<open>reg_p\<close> are clear.
\<close>

section \<open>The status byte\<close>

lemma byte_eqI:
  fixes a b :: u8
  assumes "bit a 0 = bit b 0" "bit a 1 = bit b 1" "bit a 2 = bit b 2" "bit a 3 = bit b 3"
    "bit a 4 = bit b 4" "bit a 5 = bit b 5" "bit a 6 = bit b 6" "bit a 7 = bit b 7"
  shows "a = b"
proof (rule bit_eqI)
  fix n assume "possible_bit TYPE(u8) n"
  then have "n = 0 \<or> n = 1 \<or> n = 2 \<or> n = 3 \<or> n = 4 \<or> n = 5 \<or> n = 6 \<or> n = 7" by (simp add: possible_bit_def) arith
  then show "bit a n = bit b n" using assms by (elim disjE) simp_all
qed

context ram_bus
begin

lemma status_eq: "clean (reg_p s) \<Longrightarrow> LOCAL_STATUS s = isa_status (bit (reg_p s) 4) (abs_cpu s)"
  by (rule byte_eqI) (simp_all add: LOCAL_STATUS_def isa_status_def clean_def bit_or_iff bit_and_iff)

lemma status_break_eq: "clean (reg_p s) \<Longrightarrow> LOCAL_STATUS s OR P_BREAK = isa_status True (abs_cpu s)"
  by (rule byte_eqI) (simp_all add: LOCAL_STATUS_def isa_status_def clean_def bit_or_iff bit_and_iff)

section \<open>Stack\<close>

lemma run_PUSH: "run_state (PUSH v) s = ((), (poke (i_stack (reg_sp s)) (lo8 v) s)\<lparr>reg_sp := reg_sp s - 1\<rparr>)"
  by (simp add: PUSH_def stack_addr)

lemma run_PULL:
  assumes "bus_ok s"
  shows "run_state PULL s = (zx (view s (i_stack (reg_sp s + 1))), s\<lparr>reg_sp := reg_sp s + 1\<rparr>)"
  using assms by (simp add: PULL_def stack_addr peek_ram [OF assms] stack_rw i_stack_def)

lemma rw_stack [simp]: "ok d \<Longrightarrow> rw d (i_stack sp)"
  by (simp add: i_stack_def stack_rw)

lemma sim_PHA: "bus_ok s \<Longrightarrow> refines PHA s 1 1 (isa_push (reg_a s) (abs_cpu s))"
  by (simp add: PHA_def refine_defs run_PUSH isa_push_def CLK_STACK_PUSH_def peek_store)

lemma sim_PHP:
  assumes "bus_ok s" "clean (reg_p s)"
  shows "refines PHP s 1 1 (isa_push (isa_status True (abs_cpu s)) (abs_cpu s))"
proof -
  have "LOCAL_STATUS (tick n s) = LOCAL_STATUS s" for n by (simp add: LOCAL_STATUS_def)
  then show ?thesis using assms status_break_eq [OF assms(2)]
    by (simp add: PHP_def refine_defs run_PUSH isa_push_def CLK_STACK_PUSH_def peek_store)
qed

lemma sim_PLA:
  assumes "bus_ok s"
  shows "refines PLA s 1 2 (let (v, t) = isa_pull (abs_cpu s) in nz v (t\<lparr>i_a := v\<rparr>))"
  using assms by (simp add: PLA_def refine_defs run_PULL isa_pull_def CLK_STACK_PULL_def)

lemma bit_masked_status:
  "bit (v AND NOT P_ZERO AND NOT P_SIGN) n \<longleftrightarrow> bit v n \<and> n < 8 \<and> n \<noteq> 1 \<and> n \<noteq> 7"
  by (auto simp: bit_and_iff bit_not_iff possible_bit_def dest: bit_imp_le_length)

lemma sim_PLP:
  assumes "bus_ok s"
  shows "refines PLP s 1 2 (let (v, t) = isa_pull (abs_cpu s) in isa_set_status v t)"
  using assms
  by (simp add: PLP_def refine_defs run_PULL isa_pull_def CLK_STACK_PULL_def isa_set_status_def
      OPCODE_ENABLES_IRQ_def OPCODE_DISABLES_IRQ_def bit_masked_status)

section \<open>Flags and transfers\<close>

lemma sim_flags:
  "refines CLC s 1 0 (isa_imp_op Clc (abs_cpu s))" "refines SEC s 1 0 (isa_imp_op Sec (abs_cpu s))"
  "refines CLI s 1 0 (isa_imp_op Cli (abs_cpu s))" "refines SEI s 1 0 (isa_imp_op Sei (abs_cpu s))"
  "refines CLD s 1 0 (isa_imp_op Cld (abs_cpu s))" "refines SED s 1 0 (isa_imp_op Sed (abs_cpu s))"
  "refines CLV s 1 0 (isa_imp_op Clv (abs_cpu s))"
  by (simp_all add: CLC_def SEC_def CLI_def SEI_def CLD_def SED_def CLV_def refine_defs
      OPCODE_ENABLES_IRQ_def OPCODE_DISABLES_IRQ_def)

lemma sim_transfers:
  "refines TAX s 1 0 (isa_imp_op Tax (abs_cpu s))" "refines TAY s 1 0 (isa_imp_op Tay (abs_cpu s))"
  "refines TXA s 1 0 (isa_imp_op Txa (abs_cpu s))" "refines TYA s 1 0 (isa_imp_op Tya (abs_cpu s))"
  "refines TSX s 1 0 (isa_imp_op Tsx (abs_cpu s))" "refines TXS s 1 0 (isa_imp_op Txs (abs_cpu s))"
  "refines INX s 1 0 (isa_imp_op Inx (abs_cpu s))" "refines INY s 1 0 (isa_imp_op Iny (abs_cpu s))"
  "refines DEX s 1 0 (isa_imp_op Dex (abs_cpu s))" "refines DEY s 1 0 (isa_imp_op Dey (abs_cpu s))"
  by (simp_all add: TAX_def TAY_def TXA_def TYA_def TSX_def TXS_def INX_def INY_def DEX_def DEY_def refine_defs)

section \<open>Skipping\<close>

lemma sim_NOOP: "refines (NOOP c p) s p c (abs_cpu s)" "refines (NOOP_IMM p) s p 0 (abs_cpu s)"
  by (simp_all add: NOOP_def NOOP_IMM_def refine_defs)

lemma sim_NOOP_read:
  assumes "yields val s v k"
  shows "refines (do { val; CLK_ADD 1; INC_PC p }) s p (k + 1) (abs_cpu s)"
  using assms by (simp add: refine_defs)

section \<open>Stores through an index\<close>

lemma sim_STA_abs_x:
  assumes "index_ok AbX w s" "writable s (isa_ea AbX w (abs_cpu s))"
  shows "refines (STA (ret (ucast w)) 0 2 3 (STORE_ABS_X m)) s 3 2
    ((abs_cpu s)\<lparr>i_mem := (view s)(isa_ea AbX w (abs_cpu s) := reg_a s)\<rparr>)"
  by (rule refines_store; use assms lo_index [of w "reg_x s"] in
      \<open>simp add: STA_def cpu STORE_ABS_X_def bus index_ok_def isa_ea_def isa_wrong_def addr\<close>)

lemma sim_STA_abs_y:
  assumes "index_ok AbY w s" "writable s (isa_ea AbY w (abs_cpu s))"
  shows "refines (STA (ret (ucast w)) 0 2 3 (STORE_ABS_Y m)) s 3 2
    ((abs_cpu s)\<lparr>i_mem := (view s)(isa_ea AbY w (abs_cpu s) := reg_a s)\<rparr>)"
  by (rule refines_store; use assms lo_index [of w "reg_y s"] in
      \<open>simp add: STA_def cpu STORE_ABS_Y_def bus index_ok_def isa_ea_def isa_wrong_def addr\<close>)

lemma sim_STA_ind_y:
  assumes "index_ok IndY w s" "writable s (isa_ea IndY w (abs_cpu s))"
  shows "refines (STA_IND_Y m (zx (i_lo w))) s 2 4
    ((abs_cpu s)\<lparr>i_mem := (view s)(isa_ea IndY w (abs_cpu s) := reg_a s)\<rparr>)"
  by (rule refines_store;
      use assms LOAD_ZERO_ADDR_ind_y [OF assms(1)] LOAD_wrong_ind_y [OF assms(1)] in
      \<open>simp add: STA_IND_Y_def LOAD_IND_def STORE_IND_def cpu CLK_IND_Y_W_def index_ok_def bus addr isa_ea_def add.commute [of 4]\<close>)

section \<open>The unstable stores\<close>

lemma zx_and_any: "zx r AND x = zx (r AND lo8 x)"
  by (rule bit_eqI) (auto simp: bit_simps dest: bit_imp_le_length)

lemma lo8_page16: "lo8 (drop_bit 8 (ucast (w :: u16))) = i_hi w"
  unfolding i_hi_def by (rule bit_eqI) (auto simp: bit_simps)

lemma value_as_page: "(a AND 0xff) OR push_bit 8 (zx v) = ucast (mk16 (lo8 a) v)"
  by (simp add: mask_lo8 join_bytes)

text \<open>The two macros for the absolute modes, for a value that fits in a byte.\<close>

lemma run_STORE_ABS_SH_Y:
  fixes v :: u8 and w :: u16 and s :: "'e cpu"
  defines "ea \<equiv> isa_ea AbY w (abs_cpu s)" and "cr \<equiv> isa_crossed AbY w (abs_cpu s)"
  assumes "index_ok AbY w s" "dev (glb s') = dev (glb s)" "mem_ram (glb s') = mem_ram (glb s)" "reg_y s' = reg_y s"
    and "writable s (if cr then mk16 (i_lo ea) v else ea)"
  shows "run_state (STORE_ABS_SH_Y m (ucast w) (zx v) 2) s' = ((), poke (if cr then mk16 (i_lo ea) v else ea) v (tick 2 s'))"
proof (cases cr)
  case True
  then show ?thesis using assms lo_index [of w "reg_y s"]
    by (simp add: STORE_ABS_SH_Y_def cpu bus index_ok_def isa_wrong_def isa_ea_def addr crossing isa_crossed_def
        value_as_page Let_def)
next
  case False
  then show ?thesis using assms lo_index [of w "reg_y s"]
    by (simp add: STORE_ABS_SH_Y_def cpu bus index_ok_def isa_wrong_def isa_ea_def addr crossing isa_crossed_def Let_def)
qed

lemma run_STORE_ABS_SH_X:
  fixes v :: u8 and w :: u16 and s :: "'e cpu"
  defines "ea \<equiv> isa_ea AbX w (abs_cpu s)" and "cr \<equiv> isa_crossed AbX w (abs_cpu s)"
  assumes "index_ok AbX w s" "dev (glb s') = dev (glb s)" "mem_ram (glb s') = mem_ram (glb s)" "reg_x s' = reg_x s"
    and "writable s (if cr then mk16 (i_lo ea) v else ea)"
  shows "run_state (STORE_ABS_SH_X m (ucast w) (zx v) 2) s' = ((), poke (if cr then mk16 (i_lo ea) v else ea) v (tick 2 s'))"
proof (cases cr)
  case True
  then show ?thesis using assms lo_index [of w "reg_x s"]
    by (simp add: STORE_ABS_SH_X_def cpu bus index_ok_def isa_wrong_def isa_ea_def addr crossing isa_crossed_def
        value_as_page Let_def)
next
  case False
  then show ?thesis using assms lo_index [of w "reg_x s"]
    by (simp add: STORE_ABS_SH_X_def cpu bus index_ok_def isa_wrong_def isa_ea_def addr crossing isa_crossed_def Let_def)
qed

definition store_ok :: "wr_op \<Rightarrow> mode \<Rightarrow> u16 \<Rightarrow> 'e cpu \<Rightarrow> bool" where
  "store_ok k md w s \<longleftrightarrow> index_ok md w s \<and> writable s (isa_store_addr k md w (abs_cpu s))"

definition stored :: "wr_op \<Rightarrow> mode \<Rightarrow> u16 \<Rightarrow> 'e cpu \<Rightarrow> isa" where
  "stored k md w s = (abs_cpu s)\<lparr>i_mem := (view s)(isa_store_addr k md w (abs_cpu s) :=
      isa_store_value k (i_hi (isa_base md w (abs_cpu s))) (abs_cpu s)),
    i_s := (if k = Shs then reg_a s AND reg_x s else reg_sp s)\<rparr>"

lemma unstable_abs:
  assumes "k \<in> {Sha, Shx, Shy, Shs}" "md \<in> {AbX, AbY}"
  shows "isa_store_addr k md w t = (if isa_crossed md w t then mk16 (i_lo (isa_ea md w t)) (isa_store_value k (i_hi w) t)
      else isa_ea md w t)"
  using assms by (auto simp: isa_store_addr_def isa_unstable_def)

lemma refines_stored:
  assumes "run_state f s = ((), s\<lparr>glb := (glb s)\<lparr>reg_pc := reg_pc (glb s) + p, maincpu_clk := maincpu_clk (glb s) + n,
      mem_ram := (mem_ram (glb s))(A := v)\<rparr>, reg_sp := sp\<rparr>)"
    and "store_ok k md w s" "A = isa_store_addr k md w (abs_cpu s)" "sp = (if k = Shs then reg_a s AND reg_x s else reg_sp s)"
    and "v = isa_store_value k (i_hi (isa_base md w (abs_cpu s))) (abs_cpu s)"
  shows "refines f s p n (stored k md w s)"
proof -
  have "bus_ok s" "writable s A" using assms(2,3) by (simp_all add: store_ok_def index_ok_def)
  then have "abs_cpu (snd (run_state f s)) = (stored k md w s)\<lparr>i_pc := ucast (reg_pc (glb s) + p), i_cyc := maincpu_clk (glb s) + n\<rparr>"
    unfolding stored_def assms(3) [symmetric] assms(4,5) [symmetric] assms(1)
    by (simp add: abs_cpu_def peek_store)
  moreover have "i_pc (stored k md w s) = ucast (reg_pc (glb s))" "i_cyc (stored k md w s) = maincpu_clk (glb s)"
    by (simp_all add: stored_def)
  ultimately show ?thesis using assms(1) by (simp add: refines_def moved_def clean_def ucast16_add)
qed

lemma page_value: "zx r AND (drop_bit 8 (ucast w) + 1) = zx (r AND (i_hi (w :: u16) + 1))"
  by (simp add: zx_and_any lo8_page16 del: zx_bitwise)

abbreviation past :: "u32 \<Rightarrow> 'e cpu \<Rightarrow> 'e cpu" where
  "past n s \<equiv> s\<lparr>glb := (glb s)\<lparr>reg_pc := reg_pc (glb s) + n\<rparr>\<rparr>"

lemma writable_unstable:
  assumes "store_ok k md w s" "k \<in> {Sha, Shx, Shy, Shs}" "md \<in> {AbX, AbY}" "isa_store_value k (i_hi w) (abs_cpu s) = v"
  shows "index_ok md w s"
    "writable s (if isa_crossed md w (abs_cpu s) then mk16 (i_lo (isa_ea md w (abs_cpu s))) v else isa_ea md w (abs_cpu s))"
    "isa_store_addr k md w (abs_cpu s) =
      (if isa_crossed md w (abs_cpu s) then mk16 (i_lo (isa_ea md w (abs_cpu s))) v else isa_ea md w (abs_cpu s))"
  using assms(1) unfolding store_ok_def unstable_abs [OF assms(2,3)] assms(4) by simp_all

lemma sim_SHA_abs_y:
  assumes "store_ok Sha AbY w s"
  shows "refines (SHA_ABS_Y m (ucast w)) s 3 2 (stored Sha AbY w s)"
proof -
  note w = writable_unstable [OF assms, of "reg_a s AND reg_x s AND (i_hi w + 1)", simplified]
  show ?thesis
    by (rule refines_stored [OF _ assms w(3) [symmetric]])
      (simp_all add: SHA_ABS_Y_def cpu page_value CLK_ABS_I_STORE2_def run_STORE_ABS_SH_Y [OF w(1) _ _ _ w(2)] split del: if_split)
qed

lemma sim_SHX_abs_y:
  assumes "store_ok Shx AbY w s"
  shows "refines (SHX_ABS_Y m (ucast w)) s 3 2 (stored Shx AbY w s)"
proof -
  note w = writable_unstable [OF assms, of "reg_x s AND (i_hi w + 1)", simplified]
  show ?thesis
    by (rule refines_stored [OF _ assms w(3) [symmetric]])
      (simp_all add: SHX_ABS_Y_def cpu page_value CLK_ABS_I_STORE2_def run_STORE_ABS_SH_Y [OF w(1) _ _ _ w(2)] split del: if_split)
qed

lemma sim_SHS_abs_y:
  assumes "store_ok Shs AbY w s"
  shows "refines (SHS_ABS_Y m (ucast w)) s 3 2 (stored Shs AbY w s)"
proof -
  note w = writable_unstable [OF assms, of "reg_a s AND reg_x s AND (i_hi w + 1)", simplified]
  show ?thesis
    by (rule refines_stored [OF _ assms w(3) [symmetric]])
      (simp_all add: SHS_ABS_Y_def cpu page_value CLK_ABS_I_STORE2_def run_STORE_ABS_SH_Y [OF w(1) _ _ _ w(2)] split del: if_split)
qed

lemma sim_SHY_abs_x:
  assumes "store_ok Shy AbX w s"
  shows "refines (SHY_ABS_X m (ucast w)) s 3 2 (stored Shy AbX w s)"
proof -
  note w = writable_unstable [OF assms, of "reg_y s AND (i_hi w + 1)", simplified]
  show ?thesis
    by (rule refines_stored [OF _ assms w(3) [symmetric]])
      (simp_all add: SHY_ABS_X_def cpu page_value CLK_ABS_I_STORE2_def run_STORE_ABS_SH_X [OF w(1) _ _ _ w(2)] split del: if_split)
qed

lemma sim_SHA_ind_y:
  assumes "store_ok Sha IndY w s"
  shows "refines (SHA_IND_Y m (zx (i_lo w))) s 2 4 (stored Sha IndY w s)"
proof -
  let ?b = "isa_base IndY w (abs_cpu s)" and ?ea = "isa_ea IndY w (abs_cpu s)"
  let ?v = "reg_a s AND reg_x s AND (i_hi ?b + 1)"
  let ?A = "isa_store_addr Sha IndY w (abs_cpu s)"
  have ok: "index_ok IndY w s" "bus_ok s" "writable s ?A"
    using assms by (simp_all add: store_ok_def index_ok_def)
  have A: "?A = (if i_hi (?b + ucast (reg_y s)) \<noteq> i_hi ?b then mk16 (i_lo ?ea) ?v else ?b + ucast (reg_y s))"
    by (simp add: isa_store_addr_def isa_unstable_def isa_crossed_def isa_ea_def)
  have lo: "lo8 (ucast ?b + zx (reg_y s)) = i_lo ?ea"
    using lo_index [of ?b "reg_y s"] by (simp add: isa_ea_def addr)
  have v: "zx (reg_a s) AND zx (reg_x s) AND (drop_bit 8 (ucast ?b) + 1) AND 0xff = zx ?v"
    using page_value [of "reg_a s AND reg_x s" ?b] by (simp add: mask_lo8 zx_and_any lo8_page16)
  have store: "run_state (STORE m (if (ucast ?b AND 0xff) + zx (reg_y s) > 0xff
      then ((ucast ?b + zx (reg_y s)) AND 0xff) OR push_bit 8 (zx ?v) else ucast ?b + zx (reg_y s)) (zx ?v)) s' =
      ((), poke ?A ?v s')" if "dev (glb s') = dev (glb s)" for s'
    using ok that lo unfolding A crossing value_as_page
    by (cases "i_hi (?b + ucast (reg_y s)) \<noteq> i_hi ?b") (simp_all add: bus addr del: isa_base.simps lo8_add)
  show ?thesis
    by (rule refines_stored [OF _ assms refl])
      (simp_all add: SHA_IND_Y_def cpu CLK_IND_Y_W_def LOAD_ZERO_ADDR_ind_y [OF ok(1)] LOAD_wrong_ind_y [OF ok(1)] v store
        Let_def add.commute [of 4] cong: if_cong del: isa_base.simps push_bit_and split del: if_split)
qed

end

end
