(* ===== verification/CpuFlow.thy ===== *)
theory CpuFlow
  imports CpuStack
begin

text \<open>
  Control flow: the opcode fetch through the bank pointers, branches, jumps, calls and returns, BRK and
  the entry of an interrupt. \<open>settled\<close> is the invariant of the fetch hack of maincpu.c: between two
  instructions the program counter is never below the start of the bank whose limit the fetch compares it
  with, and the bank holds the bytes the handlers would return.
\<close>

lemma movedD:
  assumes "moved p g g'"
  shows "dev g' = dev g" "bank_base g' = bank_base g" "bank_start g' = bank_start g" "bank_limit g' = bank_limit g"
    "reg_pc g' = reg_pc g + p" "maincpu_int_status g' = maincpu_int_status g"
    "maincpu_alarm_context g' = maincpu_alarm_context g" "fault g' = fault g"
  using arg_cong [OF iffD1 [OF moved_def assms], of dev] arg_cong [OF iffD1 [OF moved_def assms], of bank_base]
    arg_cong [OF iffD1 [OF moved_def assms], of bank_start] arg_cong [OF iffD1 [OF moved_def assms], of bank_limit]
    arg_cong [OF iffD1 [OF moved_def assms], of reg_pc] arg_cong [OF iffD1 [OF moved_def assms], of maincpu_int_status]
    arg_cong [OF iffD1 [OF moved_def assms], of maincpu_alarm_context] arg_cong [OF iffD1 [OF moved_def assms], of fault]
  by simp_all

context ram_bus
begin

section \<open>The fetch bank\<close>

definition banks :: "'e globals \<Rightarrow> bool" where
  "banks g \<longleftrightarrow> 0 \<le> bank_start g \<and> bank_start g < 0x10000 \<and> 0 \<le> bank_limit g \<and> bank_limit g < 0x10000 \<and>
     (\<forall>g' i k. dev g' = dev g \<longrightarrow> bank_start g \<le> uint i \<longrightarrow> uint i < bank_limit g \<longrightarrow> k \<le> 2 \<longrightarrow>
        bank_byte m g' (bank_base g) (i + k) = peek (dev g') (mem_ram g') (ucast (i + k)))"

definition settled :: "'e cpu \<Rightarrow> bool" where
  "settled s \<longleftrightarrow> bus_ok s \<and> banks (glb s) \<and>
     (uint (reg_pc (glb s)) < bank_limit (glb s) \<longrightarrow> bank_start (glb s) \<le> uint (reg_pc (glb s)))"

text \<open>What an instruction leaves alone.\<close>

definition kept :: "'e globals \<Rightarrow> 'e globals \<Rightarrow> bool" where
  "kept g g' \<longleftrightarrow> maincpu_int_status g' = maincpu_int_status g \<and>
     maincpu_alarm_context g' = maincpu_alarm_context g \<and> fault g' = fault g \<and> dev g' = dev g"

lemma banks_cong:
  "dev g' = dev g \<Longrightarrow> bank_base g' = bank_base g \<Longrightarrow> bank_start g' = bank_start g \<Longrightarrow> bank_limit g' = bank_limit g \<Longrightarrow>
   banks g' = banks g"
  by (simp add: banks_def)

lemma banks_upd [simp]:
  "banks (g\<lparr>maincpu_clk := a\<rparr>) = banks g" "banks (g\<lparr>mem_ram := r\<rparr>) = banks g" "banks (g\<lparr>reg_pc := b\<rparr>) = banks g"
  "banks (g\<lparr>maincpu_regs := q\<rparr>) = banks g" "banks (g\<lparr>last_opcode_info := c\<rparr>) = banks g"
  "banks (g\<lparr>last_opcode_addr := c\<rparr>) = banks g" "banks (g\<lparr>maincpu_int_status := cs\<rparr>) = banks g"
  by (simp_all add: banks_def)

lemma banks_byte:
  "banks g \<Longrightarrow> dev g' = dev g \<Longrightarrow> bank_start g \<le> uint i \<Longrightarrow> uint i < bank_limit g \<Longrightarrow> k \<le> 2 \<Longrightarrow>
   bank_byte m g' (bank_base g) (i + k) = peek (dev g') (mem_ram g') (ucast (i + k))"
  by (simp add: banks_def)

abbreviation jumped :: "u32 \<Rightarrow> nat \<Rightarrow> int \<Rightarrow> int \<Rightarrow> 'e cpu \<Rightarrow> 'e cpu" where
  "jumped a b st li s \<equiv> s\<lparr>glb := (glb s)\<lparr>reg_pc := a, bank_base := b, bank_start := st, bank_limit := li\<rparr>\<rparr>"

lemma JUMP_settled:
  assumes "bus_ok s" "banks (glb s)" "uint a < 0x10000"
  obtains b st li where "run_state (JUMP m a) s = ((), jumped a b st li s)" "settled (jumped a b st li s)"
proof (cases "a \<ge> word_of_int (bank_limit (glb s)) \<or> a < word_of_int (bank_start (glb s))")
  case True
  obtain b st li where t: "mem_mmu_translate m ((glb s)\<lparr>reg_pc := a\<rparr>) a = (b, st, li)" by (metis prod_cases3)
  have ok: "ok (dev ((glb s)\<lparr>reg_pc := a\<rparr>))" using assms(1) by simp
  have "run_state (JUMP m a) s = ((), jumped a b st li s)"
    using True by (simp add: JUMP_def cpu t)
  moreover have "settled (jumped a b st li s)"
    using assms(1) translate_range [OF ok assms(3) t] translate_bytes [OF ok assms(3) t] by (simp add: settled_def banks_def)
  ultimately show ?thesis by (rule that)
next
  case False
  have "0 \<le> bank_start (glb s)" "bank_start (glb s) < 0x10000" using assms(2) by (simp_all add: banks_def)
  then have "uint (word_of_int (bank_start (glb s)) :: u32) = bank_start (glb s)"
    by (simp add: uint_word_of_int)
  then have "bank_start (glb s) \<le> uint a" using False by (simp add: word_less_def not_less)
  moreover have "run_state (JUMP m a) s = ((), jumped a (bank_base (glb s)) (bank_start (glb s)) (bank_limit (glb s)) s)"
    using False by (simp add: JUMP_def cpu)
  moreover have "banks ((glb s)\<lparr>reg_pc := a\<rparr>) = banks (glb s)" by (rule banks_cong) simp_all
  ultimately show ?thesis using assms(1,2) by (intro that [where b = "bank_base (glb s)" and st = "bank_start (glb s)" and li = "bank_limit (glb s)"])
    (simp_all add: settled_def)
qed

lemma sint_small: "uint (a :: u32) < 0x10100 \<Longrightarrow> sint a = uint a"
  using order_trans [OF _ uint_ge_0 [of a], of "- 2147483648"] by (simp add: sint_uint signed_take_bit_int_eq_self_iff)

text \<open>A parameter of an instruction whose bytes can be read.\<close>

lemma uint_bound: "unat (a :: u32) < n \<Longrightarrow> uint a < int n"
  by (simp only: uint_nat of_nat_less_iff)

lemma unat_bound: "uint (a :: u32) < int n \<Longrightarrow> unat a < n"
  by (simp only: uint_nat of_nat_less_iff)

lemma FETCH_PARAM_settled:
  assumes "bus_ok s" "banks (glb s)" "unat a < 0x10100" "readable s (ucast a)"
    and "uint a < bank_limit (glb s) \<longrightarrow> bank_start (glb s) \<le> uint a"
  shows "run_state (FETCH_PARAM m a) s = (zx (view s (ucast a)), s)"
proof (cases "uint a < bank_limit (glb s)")
  case True
  have si: "sint a = uint a" using uint_bound [OF assms(3)] by (intro sint_small) simp
  have "bank_byte m (glb s) (bank_base (glb s)) (a + 0) = view s (ucast (a + 0))"
    by (rule banks_byte [OF assms(2)]) (use assms(5) True in simp_all)
  then show ?thesis using True si by (simp add: FETCH_PARAM_def cpu)
next
  case False
  have "sint a = uint a" using uint_bound [OF assms(3)] by (intro sint_small) simp
  then show ?thesis using False LOAD_bus [OF assms(1,3,4)] by (simp add: FETCH_PARAM_def cpu)
qed

section \<open>What an instruction must do\<close>

text \<open>\<open>f\<close>, run after the fetch of an instruction, leads to the abstract state \<open>t\<close>.\<close>

definition lands :: "'e cpu \<Rightarrow> 'e cpu \<Rightarrow> isa \<Rightarrow> bool" where
  "lands s s' t \<longleftrightarrow> abs_cpu s' = t \<and> kept (glb s) (glb s') \<and> settled s' \<and> (clean (reg_p s) \<longrightarrow> clean (reg_p s'))"

definition leads :: "('e, unit) ex \<Rightarrow> 'e cpu \<Rightarrow> isa \<Rightarrow> bool" where
  "leads f s t \<longleftrightarrow> lands s (snd (run_state f s)) t"

lemma settled_moved:
  assumes "settled s" "moved p (glb s) (glb s')" "unat (reg_pc (glb s)) < 0x10100" "p \<le> 3"
  shows "settled s'"
proof -
  note g = movedD [OF assms(2)]
  have p: "uint p \<le> 3" using assms(4) by (simp add: word_le_def)
  have "uint (reg_pc (glb s)) < 0x10100" using uint_bound [OF assms(3)] by simp
  then have "uint (reg_pc (glb s) + p) = uint (reg_pc (glb s)) + uint p"
    using p by (intro uint_plus_simple no_olen_add [THEN iffD2]) simp
  then have "uint (reg_pc (glb s')) = uint (reg_pc (glb s)) + uint p" by (simp only: g)
  moreover have "bank_limit (glb s) \<le> uint (reg_pc (glb s)) \<or> bank_start (glb s) \<le> uint (reg_pc (glb s))"
    using assms(1) by (auto simp: settled_def)
  then have "uint (reg_pc (glb s)) + uint p < bank_limit (glb s) \<longrightarrow> bank_start (glb s) \<le> uint (reg_pc (glb s)) + uint p"
    using uint_ge_0 [of p] by linarith
  ultimately show ?thesis using assms(1) banks_cong [OF g(1-4)] by (simp add: settled_def g(1-4))
qed

text \<open>Instructions that do not jump.\<close>

lemma leads_next:
  assumes "refines f s p n t" "settled s" "unat (reg_pc (glb s)) < 0x10100" "p = ucast (isa_length md)"
  shows "leads f s (isa_next md n t)"
proof -
  have "p \<le> 3" unfolding assms(4) by (cases md) simp_all
  moreover have "ucast p = isa_length md" unfolding assms(4) by (cases md) simp_all
  ultimately show ?thesis using assms(1) settled_moved [OF assms(2) _ assms(3)]
    by (auto simp: refines_def leads_def lands_def kept_def isa_next_def Let_def movedD)
qed

section \<open>Jumps\<close>

lemma abs_jumped: "abs_cpu (jumped a b st li s) = (abs_cpu s)\<lparr>i_pc := ucast a\<rparr>"
  by (simp add: abs_cpu_def)

lemma abs_info: "abs_cpu (s\<lparr>glb := (glb s)\<lparr>last_opcode_info := i\<rparr>\<rparr>) = abs_cpu s"
  by (simp add: abs_cpu_def)

lemma abs_int_status: "abs_cpu (s\<lparr>glb := (glb s)\<lparr>maincpu_int_status := cs\<rparr>\<rparr>) = abs_cpu s"
  by (simp add: abs_cpu_def)

lemma leads_JUMP:
  assumes "run_state f s = run_state (JUMP m a) s1" "settled s" "kept (glb s) (glb s1)" "banks (glb s1)"
    and "uint a < 0x10000" "clean (reg_p s) \<longrightarrow> clean (reg_p s1)" "t = (abs_cpu s1)\<lparr>i_pc := ucast a\<rparr>"
  shows "leads f s t"
proof -
  have "bus_ok s1" using assms(2,3) by (simp add: settled_def kept_def)
  then obtain b st li where j: "run_state (JUMP m a) s1 = ((), jumped a b st li s1)" "settled (jumped a b st li s1)"
    by (rule JUMP_settled [OF _ assms(4,5)])
  then show ?thesis unfolding leads_def lands_def assms(1) j(1) using assms(3,6,7) by (simp add: abs_jumped kept_def)
qed

lemma uint_u16_u32 [simp]: "uint (ucast (w :: u16) :: u32) < 65536"
  by (rule order.strict_trans2 [OF uint_bound [of _ 65536]]) (use u16_lt [of w] in \<open>simp_all add: unat_u16_u32\<close>)

lemma settled_banks: "settled s \<Longrightarrow> banks (glb s) \<and> bus_ok s"
  by (simp add: settled_def)

lemma leads_JMP:
  assumes "settled s"
  shows "leads (JMP m (ucast w)) s (isa_exec Jmp Ab 0 w (abs_cpu s))"
  by (rule leads_JUMP [of _ _ "ucast w" s])
    (use assms in \<open>simp_all add: JMP_def settled_def kept_def addr abs_cpu_def\<close>)

lemma zx_join [simp]: "zx a OR push_bit 8 (zx b) = ucast (mk16 a b)"
  unfolding mk16_def by (rule bit_eqI) (auto simp: bit_simps dest: bit_imp_le_length)

lemma next_low: "((ucast w AND 0xff00) OR ((ucast w + 1) AND 0xff) :: u32) = ucast (ind_hi w)"
  by (simp add: wrong_addr addr ind_hi_def lo8_ucast16 ucast_id16)

lemma leads_JMP_IND:
  assumes "settled s" "list_all (readable s) (isa_pointer Ind w (abs_cpu s))"
  shows "leads (JMP_IND m (ucast w)) s (isa_exec Jmp Ind 2 w (abs_cpu s))"
proof (rule leads_JUMP [of _ _ "ucast (mk16 (view s w) (view s (ind_hi w)))" "tick 2 s"])
  show "run_state (JMP_IND m (ucast w)) s = run_state (JUMP m (ucast (mk16 (view s w) (view s (ind_hi w))))) (tick 2 s)"
    using assms by (simp add: JMP_IND_def settled_def bus cpu next_low Let_def ucast_id16 add.commute [of 2])
qed (use assms in \<open>simp_all add: settled_def kept_def banks_def addr abs_cpu_def\<close>)

text \<open>A parameter address next to the program counter stays in the bank.\<close>

lemma settled_near:
  assumes "settled s" "unat (reg_pc (glb s)) < 0x100fe" "unat k \<le> 2"
  shows "uint (reg_pc (glb s) + k) < bank_limit (glb s) \<longrightarrow> bank_start (glb s) \<le> uint (reg_pc (glb s) + k)"
    "unat (reg_pc (glb s) + k) < 0x10100"
proof -
  have k: "uint k \<le> 2" using uint_bound [of k 3] assms(3) by simp
  have pc: "uint (reg_pc (glb s)) < 0x100fe" using uint_bound [OF assms(2)] by simp
  then have sum: "uint (reg_pc (glb s) + k) = uint (reg_pc (glb s)) + uint k"
    using k by (intro uint_plus_simple no_olen_add [THEN iffD2]) simp
  then show "uint (reg_pc (glb s) + k) < bank_limit (glb s) \<longrightarrow> bank_start (glb s) \<le> uint (reg_pc (glb s) + k)"
    using assms(1) uint_ge_0 [of k] unfolding settled_def by linarith
  have "uint (reg_pc (glb s) + k) < 0x10100" unfolding sum using pc k by linarith
  then show "unat (reg_pc (glb s) + k) < 0x10100" by (intro unat_bound) simp
qed

lemma i_lo_add: "i_lo (a + b) = i_lo a + i_lo b"
  by (rule word_unat_eq_iff [THEN iffD2]) (simp add: unat_word_ariths unat_i_lo mod_simps mod_mod_cancel)

lemma i_lo_2 [simp]: "i_lo 2 = 2"
  by (simp add: i_lo_def)

lemma lo8_page [simp]: "lo8 (drop_bit 8 x) = i_hi (ucast x)"
  unfolding i_hi_def by (rule bit_eqI) (auto simp: bit_simps)

abbreviation called :: "'e cpu \<Rightarrow> 'e cpu" where
  "called s \<equiv> s\<lparr>glb := (glb s)\<lparr>reg_pc := reg_pc (glb s) + 2, maincpu_clk := maincpu_clk (glb s) + 3,
     mem_ram := (mem_ram (glb s))(i_stack (reg_sp s) := i_hi (ucast (reg_pc (glb s)) + 2),
       i_stack (reg_sp s - 1) := lo8 (reg_pc (glb s)) + 2)\<rparr>, reg_sp := reg_sp s - 2\<rparr>"

lemma leads_JSR:
  assumes "settled s" "unat (reg_pc (glb s)) < 0x100fe" "readable s (i_pc (abs_cpu s) + 2)"
  shows "leads (JSR m (zx (i_lo w))) s (isa_exec Jsr Ab 4 w (abs_cpu s))"
proof -
  let ?r = "ucast (reg_pc (glb s)) + 2 :: u16"
  have ok: "bus_ok s" "banks (glb s)" using assms(1) by (simp_all add: settled_def)
  note near = settled_near [OF assms(1,2), of 2]
  have b: "banks (glb (called s))" using ok(2) by (subst banks_cong [of _ "glb s"]) simp_all
  have p: "run_state (FETCH_PARAM m (reg_pc (glb s) + 2)) (called s) = (zx (view (called s) ?r), called s)"
    using FETCH_PARAM_settled [of "called s" "reg_pc (glb s) + 2"] ok b near assms(3) by (simp add: ucast16_add)
  show ?thesis
  proof (rule leads_JUMP [of _ _ "ucast (mk16 (i_lo w) (view (called s) ?r))" "tick 1 (called s)"])
    show "run_state (JSR m (zx (i_lo w))) s =
        run_state (JUMP m (ucast (mk16 (i_lo w) (view (called s) ?r)))) (tick 1 (called s))"
      using p by (simp add: JSR_def cpu run_PUSH Let_def CLK_JSR_INT_CYCLE_def mask_lo8 ucast16_add add.commute [of 3])
    have m: "view (called s) = (view s)(i_stack (reg_sp s) := i_hi ?r, i_stack (reg_sp s - 1) := lo8 (reg_pc (glb s)) + 2)"
      using ok(1) by (simp add: peek_store)
    then show "isa_exec Jsr Ab 4 w (abs_cpu s) =
        (abs_cpu (tick 1 (called s)))\<lparr>i_pc := ucast (ucast (mk16 (i_lo w) (view (called s) ?r)) :: u32)\<rparr>"
      by (simp add: abs_cpu_def isa_push_def Let_def i_lo_add i_lo_ucast ucast_id16 del: fun_upd_apply)
  qed (use assms(1) b in \<open>simp_all add: kept_def banks_def\<close>)
qed

lemma leads_RTI:
  assumes "settled s"
  shows "leads (RTI m) s (isa_exec Rti Imp 4 w (abs_cpu s))"
proof -
  have ok: "bus_ok s" "banks (glb s)" using assms by (simp_all add: settled_def)
  let ?v = "\<lambda>k. view s (i_stack (reg_sp s + k))"
  let ?s = "snd (run_state (LOCAL_SET_STATUS (?v 1)) (tick 4 s))\<lparr>reg_sp := reg_sp s + 3\<rparr>"
  show ?thesis
  proof (rule leads_JUMP [of _ _ "ucast (mk16 (?v 2) (?v 3))" ?s])
    show "run_state (RTI m) s = run_state (JUMP m (ucast (mk16 (?v 2) (?v 3)))) ?s"
      using ok by (simp add: RTI_def cpu CLK_RTI_def run_PULL add.commute [of 2] add.commute [of 3])
    show "clean (reg_p s) \<longrightarrow> clean (reg_p ?s)" by (simp add: cpu clean_def bit_masked_status)
    show "isa_exec Rti Imp 4 w (abs_cpu s) = (abs_cpu ?s)\<lparr>i_pc := ucast (ucast (mk16 (?v 2) (?v 3)) :: u32)\<rparr>"
      by (simp add: cpu abs_cpu_def isa_pull_def isa_set_status_def bit_masked_status ucast_id16 add.commute [of 2] add.commute [of 3])
  qed (use assms ok in \<open>simp_all add: cpu kept_def banks_def\<close>)
qed

lemma leads_RTS:
  assumes "settled s" "readable s (i_pc (isa_exec Rts Imp 4 w (abs_cpu s)) - 1)"
  shows "leads (RTS m) s (isa_exec Rts Imp 4 w (abs_cpu s))"
proof -
  have ok: "bus_ok s" "banks (glb s)" using assms by (simp_all add: settled_def)
  let ?v = "\<lambda>k. view s (i_stack (reg_sp s + k))"
  let ?s = "(tick 3 s)\<lparr>reg_sp := reg_sp s + 2\<rparr>" and ?a = "mk16 (?v 1) (?v 2)"
  have "bus_ok ?s" "banks (glb ?s)" using ok by simp_all
  then obtain b st li where j: "run_state (JUMP m (ucast ?a)) ?s = ((), jumped (ucast ?a) b st li ?s)"
    and s: "settled (jumped (ucast ?a) b st li ?s)"
    by (rule JUMP_settled [of ?s "ucast ?a"]) (simp_all)
  let ?j = "jumped (ucast ?a) b st li ?s"
  have pc: "unat (reg_pc (glb ?j)) < 0x10100" by simp
  have "readable s ?a" using assms(2) by (simp add: isa_pull_def add.commute [of 2])
  then have f: "run_state (FETCH_PARAM m (ucast ?a)) ?j = (zx (view ?j ?a), ?j)"
    using FETCH_PARAM_settled [of ?j "ucast ?a"] s by (simp add: settled_def ucast_id16)
  let ?f = "?j\<lparr>glb := (glb ?j)\<lparr>maincpu_clk := maincpu_clk (glb s) + 4, reg_pc := ucast ?a + 1\<rparr>\<rparr>"
  have r: "run_state (RTS m) s = ((), ?f)"
    using ok j f by (simp add: RTS_def cpu CLK_RTS_def run_PULL CLK_INT_CYCLE_def add.commute [of 2] add.commute [of 4])
  have "settled ?f" by (rule settled_moved [OF s _ pc, of 1]) (simp_all add: moved_def)
  then show ?thesis unfolding leads_def lands_def r
    by (simp add: kept_def abs_cpu_def isa_pull_def ucast16_add ucast_id16 add.commute [of 2])
qed

section \<open>Branches\<close>

lemma ucast16_scast: "ucast (scast (b :: u8) :: u32) = (scast b :: u16)"
  by (rule bit_eqI) (auto simp: bit_simps)

lemma mask16: "(a :: u32) AND 0xffff = ucast (ucast a :: u16)"
proof -
  have m: "(0xffff :: u32) = mask 16" by (simp add: mask_eq_exp_minus_1)
  show ?thesis unfolding m by (rule bit_eqI) (auto simp: bit_simps)
qed

lemma xor_zero: "(x :: u8) XOR y = 0 \<longleftrightarrow> x = y"
  by (auto simp: bit_eq_iff bit_xor_iff)

lemma page_differs: "truth (((a :: u32) XOR b) AND 0xff00) \<longleftrightarrow> i_hi (ucast b) \<noteq> i_hi (ucast a)"
proof -
  have m: "(0xff00 :: u32) = push_bit 8 (mask 8)" by (simp add: mask_eq_exp_minus_1)
  have p: "(a XOR b) AND 0xff00 = push_bit 8 (zx (i_hi (ucast a) XOR i_hi (ucast b)))"
    unfolding m i_hi_def by (rule bit_eqI) (auto simp: bit_simps)
  have "push_bit 8 (zx c) = (ucast (mk16 0 c) :: u32)" for c
    using zx_join [of 0 c] by simp
  then have "push_bit 8 (zx c) = 0 \<longleftrightarrow> c = 0" for c
    by (metis ucast_id16 i_hi_mk16 unsigned_0 zx_join zx_eq_0 push_bit_of_0 or.idem)
  then have "truth ((a XOR b) AND 0xff00) \<longleftrightarrow> i_hi (ucast a) XOR i_hi (ucast b) \<noteq> 0" unfolding p by simp
  also have "\<dots> \<longleftrightarrow> i_hi (ucast b) \<noteq> i_hi (ucast a)"
    by (auto simp: xor_zero)
  finally show ?thesis .
qed

lemma branch_dest:
  "ucast ((reg_pc (glb s) + 2 + scast (i_lo w)) AND 0xffff :: u32) = isa_branch_dest w (abs_cpu s)"
  by (simp add: mask16 ucast_id16 ucast16_add ucast16_scast isa_branch_dest_def)

lemma leads_BRANCH:
  assumes "settled s" "unat (reg_pc (glb s)) < 0x100fe" "list_all (readable s) (isa_reads (Br f b) Rel w (abs_cpu s))"
    and "cond = (isa_flag f (abs_cpu s) = b)"
  shows "leads (BRANCH m cond (zx (i_lo w))) s (isa_exec (Br f b) Rel 0 w (abs_cpu s))"
proof (cases cond)
  case False
  have "run_state (BRANCH m cond (zx (i_lo w))) s = ((), past 2 s)" using False by (simp add: BRANCH_def cpu)
  moreover have "settled (past 2 s)"
    using settled_moved [OF assms(1), of 2 "past 2 s"] assms(2) by (simp add: moved_def)
  ultimately show ?thesis using False assms(4) unfolding leads_def lands_def
    by (auto simp: kept_def isa_next_def abs_cpu_def ucast16_add)
next
  case True
  let ?pc = "reg_pc (glb s) + 2" and ?d = "isa_branch_dest w (abs_cpu s)"
  have ok: "bus_ok s" "banks (glb s)" using assms by (simp_all add: settled_def)
  let ?dest = "?pc + scast (i_lo w)"
  have d: "ucast ?dest = ?d" by (simp add: ucast16_add ucast16_scast isa_branch_dest_def)
  have r: "readable s (ucast ?pc)" "readable s (mk16 (i_lo ?d) (i_hi (ucast ?pc)))"
    using assms(3) by (simp_all add: ucast16_add Let_def)
  have f: "run_state (FETCH_PARAM m ?pc) (past 2 s) = (zx (view s (ucast ?pc)), past 2 s)"
    using FETCH_PARAM_settled [of "past 2 s" ?pc] settled_near [OF assms(1,2), of 2] ok r by simp
  let ?x = "truth ((?pc XOR ?dest) AND 0xff00)"
  have x: "?x \<longleftrightarrow> i_hi ?d \<noteq> i_hi (i_pc (abs_cpu s) + 2)"
    unfolding page_differs d by (simp add: ucast16_add)
  let ?s = "tick (1 + of_bool ?x) (past 2 s)"
  have l: "lo8 ?dest = i_lo ?d" by (simp add: i_lo_ucast flip: d)
  have w: "run_state (LOAD m (ret ((?pc AND 0xff00) OR (?dest AND 0xff)))) (tick 1 (past 2 s)) =
      (zx (view s (mk16 (i_lo ?d) (i_hi (ucast ?pc)))), tick 1 (past 2 s))"
    using ok r l LOAD_bus [of "tick 1 (past 2 s)" "ucast (mk16 (i_lo ?d) (i_hi (ucast ?pc)))"]
    by (simp add: wrong_addr ucast_id16 del: lo8_add)
  have a: "(?dest AND 0xffff) = ucast ?d" by (simp only: mask16 d)
  show ?thesis
  proof (rule leads_JUMP [of _ _ "?dest AND 0xffff" "?s\<lparr>glb := (glb ?s)\<lparr>last_opcode_info :=
      (if ?x then last_opcode_info (glb s) else OPINFO_SET_DELAYS_INTERRUPT (last_opcode_info (glb s)) True)\<rparr>\<rparr>"])
    show "run_state (BRANCH m cond (zx (i_lo w))) s = run_state (JUMP m (?dest AND 0xffff)) (?s\<lparr>glb := (glb ?s)\<lparr>last_opcode_info :=
      (if ?x then last_opcode_info (glb s) else OPINFO_SET_DELAYS_INTERRUPT (last_opcode_info (glb s)) True)\<rparr>\<rparr>)"
      using True f w by (cases ?x) (simp_all add: BRANCH_def cpu Let_def CLK_BRANCH2_def OPCODE_DELAYS_INTERRUPT_def add.commute [of 2])
    show "isa_exec (Br f b) Rel 0 w (abs_cpu s) = (abs_cpu (?s\<lparr>glb := (glb ?s)\<lparr>last_opcode_info :=
        (if ?x then last_opcode_info (glb s) else OPINFO_SET_DELAYS_INTERRUPT (last_opcode_info (glb s)) True)\<rparr>\<rparr>))
      \<lparr>i_pc := ucast (?dest AND 0xffff)\<rparr>"
      using True assms(4) x by (simp add: a ucast_id16 abs_cpu_def)
  qed (use assms(1) ok a in \<open>simp_all add: kept_def\<close>)
qed

section \<open>BRK\<close>

text \<open>No alarm becomes due within \<open>n\<close> cycles.\<close>

definition quiet :: "nat \<Rightarrow> 'e globals \<Rightarrow> bool" where
  "quiet n g \<longleftrightarrow> unat (maincpu_clk g) + n < unat (alarm_context_next_pending_clk (actx (maincpu_alarm_context g)))"

lemma clk_quiet: "quiet (unat k) g \<Longrightarrow> \<not> alarm_context_next_pending_clk (actx (maincpu_alarm_context g)) \<le> maincpu_clk g + k"
proof -
  assume q: "quiet (unat k) g"
  have "unat (alarm_context_next_pending_clk (actx (maincpu_alarm_context g))) < 2 ^ 32"
    using unsigned_less [of "alarm_context_next_pending_clk (actx (maincpu_alarm_context g))", where 'a = nat] by simp
  then have "unat (maincpu_clk g + k) = unat (maincpu_clk g) + unat k"
    using q by (simp add: quiet_def unat_word_ariths)
  then show ?thesis using q by (simp add: quiet_def word_le_nat_alt)
qed

lemma PROCESS_ALARMS_quiet:
  assumes "\<not> alarm_context_next_pending_clk (actx (maincpu_alarm_context (glb s))) \<le> maincpu_clk (glb s)"
  shows "run_state (PROCESS_ALARMS m) s = ((), s)"
  using assms by (simp add: PROCESS_ALARMS_def process_alarms.simps cpu)

text \<open>The state after the three pushes of BRK or an interrupt, \<open>n\<close> cycles after \<open>s\<close>.\<close>

definition saved :: "u8 \<Rightarrow> u32 \<Rightarrow> u32 \<Rightarrow> mos6510_regs \<Rightarrow> u8 \<Rightarrow> 'e cpu \<Rightarrow> 'e cpu" where
  "saved st pc n r p s = s\<lparr>reg_sp := reg_sp s - 3, glb := (glb s)\<lparr>maincpu_regs := r, reg_pc := pc,
     mem_ram := (mem_ram (glb s))(i_stack (reg_sp s) := i_hi (ucast pc), i_stack (reg_sp s - 1) := lo8 pc,
       i_stack (reg_sp s - 2) := st), maincpu_clk := maincpu_clk (glb s) + n\<rparr>, reg_p := p\<rparr>"

lemma abs_saved:
  assumes "bus_ok s" "bit p 6 = bit (reg_p s) 6" "bit p 3 = bit (reg_p s) 3" "bit p 0 = bit (reg_p s) 0" "bit p 2"
    and "st = isa_status b (abs_cpu s)"
  shows "(abs_cpu (saved st pc n r p s))\<lparr>i_pc := mk16 (view (saved st pc n r p s) vec) (view (saved st pc n r p s) (vec + 1))\<rparr> =
    isa_enter b vec (ucast pc) n (abs_cpu s)"
  using assms by (simp add: saved_def isa_enter_def isa_push_def Let_def abs_cpu_def peek_store i_lo_ucast isa_status_def
      del: fun_upd_apply)

lemma saved_glb [simp]:
  "dev (glb (saved st pc n r p s)) = dev (glb s)" "banks (glb (saved st pc n r p s)) = banks (glb s)"
  "kept g (glb (saved st pc n r p s)) = kept g (glb s)" "reg_p (saved st pc n r p s) = p"
  "maincpu_int_status (glb (saved st pc n r p s)) = maincpu_int_status (glb s)"
  "maincpu_alarm_context (glb (saved st pc n r p s)) = maincpu_alarm_context (glb s)"
  "fault (glb (saved st pc n r p s)) = fault (glb s)" "maincpu_clk (glb (saved st pc n r p s)) = maincpu_clk (glb s) + n"
  by (simp_all add: saved_def kept_def)

lemma kept_refl [simp]: "kept g g"
  by (simp add: kept_def)

lemma clean_put [simp]:
  "clean (put_flag P_BREAK b p) = clean p" "clean (put_flag P_INTERRUPT b p) = clean p"
  by (simp_all add: clean_def)

text \<open>The common end of BRK and interrupts: through the vector, with the I flag set.\<close>

lemma lands_enter:
  fixes s s0 :: "'e cpu" and b :: bool
  defines "p \<equiv> put_flag P_INTERRUPT True (put_flag P_BREAK b (reg_p s))" and "st \<equiv> isa_status b (abs_cpu s)"
  assumes "run_state f s0 = run_state (do { jump_vector m (ucast vec);
      upd_glob (\<lambda>g. g\<lparr>last_opcode_info := i g\<rparr>); CLK_ADD 2 }) (saved st pc n r p s)"
    and "settled s" "clean (reg_p s)" "readable s vec" "readable s (vec + 1)" "vec \<noteq> 0xffff"
  shows "lands s (snd (run_state f s0)) (isa_enter b vec (ucast pc) (n + 2) (abs_cpu s))"
proof -
  let ?s = "saved st pc n r p s"
  let ?a = "mk16 (view ?s vec) (view ?s (vec + 1))"
  have ok: "bus_ok ?s" "banks (glb ?s)" using assms(4) by (simp_all add: settled_def)
  have v: "unat vec \<noteq> 0xffff" using assms(8) by (simp add: word_unat_eq_iff)
  have l: "run_state (LOAD_ADDR m (ucast vec)) ?s = (ucast ?a, ?s)"
    using LOAD_ADDR_bus [OF ok(1), of vec] assms(6,7) v by simp
  obtain b' st' li where j: "run_state (JUMP m (ucast ?a)) ?s = ((), jumped (ucast ?a) b' st' li ?s)"
    and s: "settled (jumped (ucast ?a) b' st' li ?s)"
    by (rule JUMP_settled [OF ok, of "ucast ?a"]) simp_all
  let ?j = "jumped (ucast ?a) b' st' li ?s"
  let ?e = "tick 2 (?j\<lparr>glb := (glb ?j)\<lparr>last_opcode_info := i (glb ?j)\<rparr>\<rparr>)"
  have e: "snd (run_state f s0) = ?e"
    unfolding assms(3) using l j by (simp add: jump_vector_def cpu)
  have "abs_cpu ?e = ((abs_cpu ?s)\<lparr>i_pc := ?a\<rparr>)\<lparr>i_cyc := maincpu_clk (glb s) + n + 2\<rparr>"
    by (subst abs_tick, subst abs_info, subst abs_jumped) (simp add: ucast_id16)
  also have "(abs_cpu ?s)\<lparr>i_pc := ?a\<rparr> = isa_enter b vec (ucast pc) n (abs_cpu s)"
    by (rule abs_saved) (use ok(1) in \<open>simp_all add: p_def st_def\<close>)
  also have "(isa_enter b vec (ucast pc) n (abs_cpu s))\<lparr>i_cyc := maincpu_clk (glb s) + n + 2\<rparr> =
      isa_enter b vec (ucast pc) (n + 2) (abs_cpu s)"
    by (simp add: isa_enter_def Let_def isa_push_def add.assoc)
  finally show ?thesis unfolding e lands_def using s assms(5) by (simp add: settled_def kept_def p_def)
qed

lemma status_with_break:
  fixes s s' :: "'e cpu"
  assumes "clean (reg_p s)" "reg_p s' = put_flag P_BREAK b (reg_p s)" "flag_n s' = flag_n s" "flag_z s' = flag_z s"
  shows "LOCAL_STATUS s' = isa_status b (abs_cpu s)"
proof -
  have "clean (reg_p s')" using assms(1) by (simp add: assms(2) clean_def)
  from status_eq [OF this] show ?thesis using assms by (simp add: isa_status_def)
qed

lemma leads_BRK:
  assumes "settled s" "clean (reg_p s)" "readable s 0xfffe" "readable s 0xffff" "quiet 3 (glb s)"
    and "global_pending_int (maincpu_int_status (glb s)) = 0"
  shows "leads (BRK m) s (isa_exec Brk Imp 5 w (abs_cpu s))"
proof -
  have ok: "bus_ok s" "banks (glb s)" using assms(1) by (simp_all add: settled_def)
  let ?p = "put_flag P_INTERRUPT True (put_flag P_BREAK True (reg_p s))"
  let ?r = "\<lparr>mr_pc = reg_pc (glb s), mr_a = reg_a s, mr_x = reg_x s, mr_y = reg_y s, mr_sp = reg_sp s,
      mr_p = reg_p s, mr_n = flag_n s, mr_z = flag_z s\<rparr>"
  let ?st = "isa_status True (abs_cpu s)" and ?pc = "reg_pc (glb s) + 2"
  note st = status_with_break [OF assms(2), where b = True]
  have due: "\<not> alarm_context_next_pending_clk (actx (maincpu_alarm_context (glb s))) \<le> maincpu_clk (glb s) + 3"
    using clk_quiet [of 3 "glb s"] assms(5) by simp
  have "run_state (BRK m) s = run_state (do { jump_vector m (ucast (0xfffe :: u16));
      upd_glob (\<lambda>g. g\<lparr>last_opcode_info := last_opcode_info g\<rparr>); CLK_ADD 2 }) (saved ?st ?pc 3 ?r ?p s)"
    using ok due by (simp add: BRK_def cpu EXPORT_REGISTERS_def run_PUSH CLK_BRK_def st no_delay PROCESS_ALARMS_quiet
          nmi_due_def assms(6) saved_def mask_lo8 add.commute [of 3] ucast16_add)
  from lands_enter [OF this assms(1,2)] show ?thesis using assms(3,4) by (simp add: leads_def ucast16_add)
qed

section \<open>Interrupts\<close>

text \<open>The vector and the interrupt state after the service: an NMI that is due by then goes first.\<close>

definition served_vector :: "'e cpu \<Rightarrow> u16" where
  "served_vector s = (if nmi_due (glb (tick 5 s)) then 0xfffa else 0xfffe)"

definition served_status :: "'e cpu \<Rightarrow> interrupt_cpu_status" where
  "served_status s = (let cs = maincpu_int_status (glb s) in
     if nmi_due (glb (tick 5 s)) then fst (interrupt_ack_nmi cs) else interrupt_ack_irq cs)"

lemma lands_interrupt:
  assumes "settled s" "clean (reg_p s)" "unat (reg_pc (glb s)) < 0x10100" "readable s (i_pc (abs_cpu s))"
    and "quiet 5 (glb s)" "\<not> bit (monitor_mask m (glb s)) 2" "nmi_trap_func (maincpu_int_status (glb s)) = None"
    and "readable s (served_vector s)" "readable s (served_vector s + 1)"
  shows "lands (s\<lparr>glb := (glb s)\<lparr>maincpu_int_status := served_status s\<rparr>\<rparr>) (snd (run_state (serve_interrupt m) s))
    (isa_enter False (served_vector s) (i_pc (abs_cpu s)) 7 (abs_cpu s))"
proof -
  have ok: "bus_ok s" "banks (glb s)" using assms(1) by (simp_all add: settled_def)
  let ?s = "s\<lparr>glb := (glb s)\<lparr>maincpu_int_status := served_status s\<rparr>\<rparr>"
  let ?p = "put_flag P_INTERRUPT True (put_flag P_BREAK False (reg_p s))" and ?st = "isa_status False (abs_cpu s)"
  let ?t = "saved ?st (reg_pc (glb s)) 5 (maincpu_regs (glb s)) ?p ?s"
  let ?u = "s\<lparr>reg_sp := reg_sp s - 3, reg_p := ?p, glb := (glb s)\<lparr>mem_ram :=
      (mem_ram (glb s))(i_stack (reg_sp s) := i_hi (ucast (reg_pc (glb s))),
        i_stack (reg_sp s - 1) := lo8 (reg_pc (glb s)), i_stack (reg_sp s - 2) := ?st),
      maincpu_clk := maincpu_clk (glb s) + 5, maincpu_int_status := served_status s\<rparr>\<rparr>"
  have u: "?u = ?t" by (cases s; cases "glb s") (simp add: saved_def)
  note st = status_with_break [OF assms(2), where b = False]
  have due: "\<not> alarm_context_next_pending_clk (actx (maincpu_alarm_context (glb s))) \<le> maincpu_clk (glb s) + 5"
    using clk_quiet [of 5 "glb s"] assms(5) by simp
  have f: "run_state (FETCH_PARAM m (reg_pc (glb s))) (tick n s) = (zx (view s (ucast (reg_pc (glb s)))), tick n s)" for n
    using FETCH_PARAM_settled [of "tick n s" "reg_pc (glb s)"] ok assms by (simp add: settled_def)
  define d where "d = nmi_due (glb (tick 5 s))"
  have n: "nmi_due g = d" if "maincpu_int_status g = maincpu_int_status (glb s)" "maincpu_clk g = maincpu_clk (glb s) + 5" for g
    using that by (simp add: d_def nmi_due_def)
  have "run_state (serve_interrupt m) s = run_state (do { jump_vector m (ucast (served_vector s));
      upd_glob (\<lambda>g. g\<lparr>last_opcode_info := OPINFO_SET 0 False False False\<rparr>); CLK_ADD 2 }) ?u"
    using ok due f [of 0] f [of 1] assms(6,7)
    by (cases d)
      (simp_all add: serve_interrupt_def cpu NMI_CYCLES_def run_PUSH st no_delay PROCESS_ALARMS_quiet mask_lo8
        monitor_step_interrupt_def n ack_nmi_def ack_irq_def interrupt_ack_nmi_def Let_def add.commute [of 5]
        served_vector_def served_status_def SET_LAST_OPCODE_def flip: d_def)
  then have run: "run_state (serve_interrupt m) s = run_state (do { jump_vector m (ucast (served_vector s));
      upd_glob (\<lambda>g. g\<lparr>last_opcode_info := OPINFO_SET 0 False False False\<rparr>); CLK_ADD 2 })
      (saved (isa_status False (abs_cpu ?s)) (reg_pc (glb s)) 5 (maincpu_regs (glb s))
        (put_flag P_INTERRUPT True (put_flag P_BREAK False (reg_p ?s))) ?s)"
    unfolding u by (simp add: abs_int_status)
  have "settled ?s" using assms(1) by (simp add: settled_def)
  moreover have "served_vector s \<noteq> 0xffff" by (simp add: served_vector_def)
  ultimately show ?thesis
    using lands_enter [OF run] assms(2,8,9) by (simp add: abs_int_status)
qed

end

end
