(* ===== verification/CpuSim.thy ===== *)
theory CpuSim
  imports CpuFlow
begin

text \<open>
  The simulation theorem of the 6510 core: one turn of the main loop of maincpu.c, with no alarm due and no
  interrupt pending, is one step of the abstract instruction set, for each of the 244 opcodes that do not
  lock up the chip; and the service of an interrupt is its entry sequence. The opcode switch is taken
  row by row; \<open>op_ok s b\<close> says that the case of the opcode \<open>b\<close> does what the matrix says.
\<close>

section \<open>Opcode fetch\<close>

text \<open>The opcodes with a second parameter byte; JSR reads its own later, after the pushes.\<close>

definition isa_long :: "instr \<Rightarrow> mode \<Rightarrow> bool" where
  "isa_long ins md \<longleftrightarrow> isa_length md = 3 \<and> ins \<noteq> Jsr"

lemma fetch_tab_long:
  "list_all2 (\<lambda>d f. case d of None \<Rightarrow> True | Some (ins, md, n) \<Rightarrow> truth f = isa_long ins md) isa_opcodes fetch_tab"
  by (simp add: isa_opcodes_def fetch_tab_def isa_long_def)

lemma length_opcodes: "length isa_opcodes = 256"
  by (simp add: isa_opcodes_def)

lemma fetch_long:
  assumes "isa_decode b = Some (ins, md, n)"
  shows "truth (fetch_tab ! unat b) \<longleftrightarrow> isa_long ins md"
  using list_all2_nthD [OF fetch_tab_long, of "unat b"] u8_lt [of b] assms by (simp add: length_opcodes isa_decode_def)

lemma fetched_bytes:
  fixes b0 b1 b2 :: u8
  defines "op \<equiv> zx b0 OR push_bit 8 (zx b1) OR push_bit 16 (zx b2)"
  shows "op AND 0xff = zx b0" "p0_of op = zx b0" "p1_of op = zx b1" "p2_of op = ucast (mk16 b1 b2)"
proof -
  have m: "(0xff :: u32) = mask 8" by (simp add: mask_eq_exp_minus_1)
  show "op AND 0xff = zx b0"
    unfolding op_def m by (rule bit_eqI) (auto simp: bit_simps dest: bit_imp_le_length)
  then show "p0_of op = zx b0" by (simp add: p0_of_def)
  show "p1_of op = zx b1"
    unfolding op_def p1_of_def m by (rule bit_eqI) (auto simp: bit_simps possible_bit_def dest: bit_imp_le_length)
  show "p2_of op = ucast (mk16 b1 b2)"
    unfolding op_def p2_of_def mk16_def
    by (rule bit_eqI) (auto simp: bit_simps possible_bit_def add.commute dest: bit_imp_le_length)
qed

lemma two_bytes: "(zx b0 OR push_bit 8 (zx b1)) AND 0xff = zx b0"
  using fetched_bytes(1) [of b0 b1 0] by simp

lemma small_of_nat:
  assumes "k \<le> 2"
  shows "ucast (of_nat k :: u32) = (of_nat k :: u16)" "(of_nat k :: u32) \<le> 2" "unat (of_nat k :: u32) \<le> 2"
proof -
  have "k = 0 \<or> k = 1 \<or> k = 2" using assms by arith
  then show "ucast (of_nat k :: u32) = (of_nat k :: u16)" "(of_nat k :: u32) \<le> 2" "unat (of_nat k :: u32) \<le> 2"
    by (elim disjE; simp)+
qed

context ram_bus
begin

definition op_at :: "'e cpu \<Rightarrow> nat \<Rightarrow> u8" where
  "op_at s k = view s (ucast (reg_pc (glb s)) + of_nat k)"

lemma run_FETCH_OPCODE:
  fixes s :: "'e cpu"
  defines "long \<equiv> truth (fetch_tab ! unat (op_at s 0))"
  assumes "settled s" "unat (reg_pc (glb s)) < 0x100fe" "readable s (i_pc (abs_cpu s))"
    and "readable s (i_pc (abs_cpu s) + 1)" "long \<longrightarrow> readable s (i_pc (abs_cpu s) + 2)"
  obtains opcode where "run_state (FETCH_OPCODE m) s = (opcode, tick (2 + of_bool long) s)"
    "p0_of opcode = zx (op_at s 0)" "p1_of opcode = zx (op_at s 1)"
    "long \<Longrightarrow> p2_of opcode = ucast (mk16 (op_at s 1) (op_at s 2))"
proof -
  have ok: "bus_ok s" "banks (glb s)" using assms(2) by (simp_all add: settled_def)
  let ?pc = "reg_pc (glb s)" and ?g = "glb s"
  let ?op = "\<lambda>b2. zx (op_at s 0) OR push_bit 8 (zx (op_at s 1)) OR push_bit 16 (zx b2)"
  note near = settled_near(2) [OF assms(2,3)]
  have si: "sint ?pc = uint ?pc" using uint_bound [OF assms(3)] by (intro sint_small) simp
  show ?thesis
  proof (cases "uint ?pc < bank_limit ?g")
    case True
    have st: "bank_start ?g \<le> uint ?pc" using True assms(2) by (simp add: settled_def)
    have b: "bank_byte m ?g (bank_base ?g) (?pc + of_nat k) = op_at s k" if "k \<le> 2" for k
    proof -
      have "(of_nat k :: u32) \<le> 2" using that by (rule small_of_nat)
      then show ?thesis using banks_byte [OF ok(2) refl st True, of "of_nat k"]
        that by (simp add: op_at_def ucast16_add small_of_nat)
    qed
    have "run_state (FETCH_OPCODE m) s = (?op (op_at s 2), tick (2 + of_bool long) s)"
      using True si b [of 0] b [of 1] b [of 2]
      by (simp add: FETCH_OPCODE_def cpu Let_def fetched_bytes long_def unat_zx add.commute [of 2] add.commute [of 3])
    then show ?thesis by (rule that) (simp_all add: fetched_bytes)
  next
    case False
    let ?b = "if long then op_at s 2 else 0"
    have l: "run_state (LOAD_PC m (of_nat k)) (tick n s) = (zx (op_at s k), tick n s)"
      if "readable s (i_pc (abs_cpu s) + of_nat k)" "k \<le> 2" for k n
    proof -
      have "unat (of_nat k :: u32) \<le> 2" using that(2) by (rule small_of_nat)
      then have "unat (?pc + of_nat k) < 0x10100" by (rule near)
      then show ?thesis using LOAD_bus [of "tick n s" "?pc + of_nat k"] ok that(1)
        that by (simp add: LOAD_PC_def cpu op_at_def ucast16_add small_of_nat)
    qed
    have "run_state (FETCH_OPCODE m) s = (?op ?b, tick (2 + of_bool long) s)"
      using False si l [of 0 0] l [of 1 1] l [of 2 2] assms(4-6)
      by (simp add: FETCH_OPCODE_def cpu Let_def two_bytes long_def unat_zx
          add.commute [of 2] add.commute [of 3] or.assoc del: zx_join)
    then show ?thesis by (rule that) (simp_all add: fetched_bytes)
  qed
qed

section \<open>The cases of the opcode switch\<close>

text \<open>The state between the fetch and the switch.\<close>

definition ready :: "'e cpu \<Rightarrow> bool" where
  "ready s \<longleftrightarrow> settled s \<and> unat (reg_pc (glb s)) < 0x100fe \<and> clean (reg_p s) \<and> quiet 3 (glb s) \<and>
     global_pending_int (maincpu_int_status (glb s)) = 0"

definition access :: "'e cpu \<Rightarrow> instr \<Rightarrow> mode \<Rightarrow> u16 \<Rightarrow> bool" where
  "access s ins md w \<longleftrightarrow> list_all (readable s) (isa_reads ins md w (abs_cpu s)) \<and>
     list_all (writable s) (isa_writes ins md w (abs_cpu s))"

definition op_ok :: "'e cpu \<Rightarrow> u8 \<Rightarrow> bool" where
  "op_ok s b \<longleftrightarrow> (\<forall>ins md n w p2. isa_decode b = Some (ins, md, n) \<longrightarrow> ready s \<longrightarrow> access s ins md w \<longrightarrow>
     (isa_long ins md \<longrightarrow> p2 = ucast w) \<longrightarrow>
     leads (opcode_row m (zx b) (zx (i_lo w)) p2) s
       (isa_exec ins md (n - (2 + of_bool (isa_long ins md))) w (abs_cpu s)))"

lemma op_ok_short:
  assumes "isa_decode b = Some (ins, md, n)" "\<And>p1 p2. opcode_row m (zx b) p1 p2 = f p1 p2" "\<not> isa_long ins md"
    and "\<And>w p2. ready s \<Longrightarrow> access s ins md w \<Longrightarrow> leads (f (zx (i_lo w)) p2) s (isa_exec ins md (n - 2) w (abs_cpu s))"
  shows "op_ok s b"
  using assms by (auto simp: op_ok_def)

lemma op_ok_long:
  assumes "isa_decode b = Some (ins, md, n)" "\<And>p1 p2. opcode_row m (zx b) p1 p2 = f p1 p2" "isa_long ins md"
    and "\<And>w. ready s \<Longrightarrow> access s ins md w \<Longrightarrow>
      leads (f (zx (i_lo w)) (ucast w)) s (isa_exec ins md (n - 3) w (abs_cpu s))"
  shows "op_ok s b"
  using assms by (auto simp: op_ok_def)

lemma op_ok_jam: "isa_decode b = None \<Longrightarrow> op_ok s b"
  by (simp add: op_ok_def)

lemma readyD:
  assumes "ready s"
  shows "settled s" "unat (reg_pc (glb s)) < 0x10100" "bus_ok s" "clean (reg_p s)"
  using assms by (simp_all add: ready_def settled_def)

lemma isa_mode [simp]:
  "md \<notin> {AbX, AbY, IndY} \<Longrightarrow> isa_crossed md w t = False"
  by (cases md) (simp_all add: isa_crossed_def isa_ea_def)

lemma access_mode:
  assumes "ready s"
  shows "access s (Rd k) md w \<Longrightarrow> md \<noteq> Imm \<Longrightarrow> mode_ok md w s"
    "access s (Md j) md w \<Longrightarrow> mode_ok md w s" "access s (Md j) md w \<Longrightarrow> writable s (isa_ea md w (abs_cpu s))"
    "access s (Wr l) md w \<Longrightarrow> index_ok md w s" "access s (Wr l) md w \<Longrightarrow> store_ok l md w s"
    "access s (Wr l) md w \<Longrightarrow> \<not> isa_unstable l \<Longrightarrow> writable s (isa_ea md w (abs_cpu s))"
    "access s (Wr l) md w \<Longrightarrow> \<not> isa_unstable l \<Longrightarrow> mode_ok md w s"
  using readyD(3) [OF assms] wr_rd
  by (auto simp: access_def mode_ok_def index_ok_def store_ok_def isa_store_addr_def)

section \<open>From a macro to an instruction\<close>

lemma leads_Rd:
  assumes "refines f s p c (isa_read_op k (isa_operand md w (abs_cpu s)) (abs_cpu s))" "ready s"
    and "p = ucast (isa_length md)" "c = n + of_bool (isa_crossed md w (abs_cpu s))"
  shows "leads f s (isa_exec (Rd k) md n w (abs_cpu s))"
  using leads_next [OF assms(1) readyD(1,2) [OF assms(2)] assms(3)] assms(2,4) by simp

lemma leads_Md:
  assumes "refines f s p c (let (v, t) = isa_mod_op k (view s A) (abs_cpu s) in t\<lparr>i_mem := (view s)(A := v)\<rparr>)"
    and "ready s" "p = ucast (isa_length md)" "A = isa_ea md w (abs_cpu s)" "c = n"
  shows "leads f s (isa_exec (Md k) md n w (abs_cpu s))"
  using leads_next [OF assms(1) readyD(1,2) [OF assms(2)] assms(3)] assms(2,4,5)
  by (simp add: split_beta Let_def del: isa_mod_op.simps)

lemma leads_Sh:
  assumes "refines f s p c (let (v, t) = isa_shift k (view s A) (abs_cpu s) in t\<lparr>i_mem := (view s)(A := v)\<rparr>)"
    and "ready s" "p = ucast (isa_length md)" "A = isa_ea md w (abs_cpu s)" "c = n"
  shows "leads f s (isa_exec (Md (Sh k)) md n w (abs_cpu s))"
  by (rule leads_Md [where A = A]) (use assms in \<open>simp_all del: isa_shift.simps\<close>)

lemma leads_Acc:
  assumes "refines f s 1 c (let (v, t) = isa_shift k (reg_a s) (abs_cpu s) in t\<lparr>i_a := v\<rparr>)" "ready s" "c = n"
  shows "leads f s (isa_exec (Acc k) Imp n w (abs_cpu s))"
  using leads_next [OF assms(1) readyD(1,2) [OF assms(2)], of Imp] assms(3) by (simp add: split_beta Let_def del: isa_shift.simps)

lemma leads_Im:
  assumes "refines f s 1 c (isa_imp_op k (abs_cpu s))" "ready s" "c = n"
  shows "leads f s (isa_exec (Im k) Imp n w (abs_cpu s))"
  using leads_next [OF assms(1) readyD(1,2) [OF assms(2)], of Imp] assms(3) by (simp del: isa_imp_op.simps)

lemma leads_Wr:
  assumes "refines f s p c ((abs_cpu s)\<lparr>i_mem := (view s)(A := v)\<rparr>)" "ready s" "\<not> isa_unstable k"
    and "p = ucast (isa_length md)" "A = isa_ea md w (abs_cpu s)" "v = isa_store_value k (i_hi (isa_base md w (abs_cpu s))) (abs_cpu s)" "c = n"
  shows "leads f s (isa_exec (Wr k) md n w (abs_cpu s))"
proof -
  have "k \<noteq> Shs" "isa_store_addr k md w (abs_cpu s) = A" using assms(3,5) by (auto simp: isa_unstable_def isa_store_addr_def)
  moreover have e: "(abs_cpu s)\<lparr>i_mem := r, i_s := reg_sp s\<rparr> = (abs_cpu s)\<lparr>i_mem := r\<rparr>" for r by (simp add: abs_cpu_def)
  ultimately show ?thesis using leads_next [OF assms(1) readyD(1,2) [OF assms(2)] assms(4)] assms(6,7) by (simp add: e)
qed

lemma leads_stored:
  assumes "refines f s p c (stored k md w s)" "ready s" "p = ucast (isa_length md)" "c = n"
  shows "leads f s (isa_exec (Wr k) md n w (abs_cpu s))"
  using leads_next [OF assms(1) readyD(1,2) [OF assms(2)] assms(3)] assms(4) by (simp add: stored_def cong: if_cong split del: if_split)

section \<open>Rows without control flow\<close>

lemmas clk_defs = CLK_ZERO_I2_def CLK_ZERO_RMW_def CLK_ZERO_I_RMW_def CLK_IND_X_RMW_def CLK_IND_Y_RMW1_def
  CLK_IND_Y_RMW2_def CLK_ABS_RMW2_def CLK_ABS_I_RMW2_def CLK_ZERO_I_STORE_def CLK_ABS_I_STORE2_def CLK_NOOP_ZERO_X_def

lemmas row_defs = opcode_row_def opcode_0x_def opcode_1x_def opcode_2x_def opcode_3x_def opcode_4x_def opcode_5x_def
  opcode_6x_def opcode_7x_def opcode_8x_def opcode_9x_def opcode_ax_def opcode_bx_def opcode_cx_def opcode_dx_def
  opcode_ex_def opcode_fx_def

lemma decode_row: "isa_decode b = isa_opcodes ! unat b"
  by (simp add: isa_decode_def)

lemmas rd_sims = sim_LDA sim_LDX sim_LDY sim_LAX sim_AND sim_ORA sim_EOR sim_CMP sim_CPX sim_CPY sim_BIT sim_ADC sim_SBC
  sim_ANC sim_ASR sim_ARR sim_ANE sim_LXA sim_SBX sim_LAS

lemmas operands = yields_imm yields_zp yields_zp_x yields_zp_y yields_abs yields_abs_x yields_abs_y yields_ind_x yields_ind_y

end

end
