(* ===== verification/CpuRows.thy ===== *)
theory CpuRows
  imports CpuSim
begin

text \<open>
  The opcode switch of 6510core.c, case by case: for every opcode the macro with its arguments, as the
  switch has them, fulfils the entry of the opcode matrix. The lemmas are grouped by the kind of
  instruction, so that each group has one proof.
\<close>

context ram_bus
begin

lemma yields_ind_y_bank: "mode_ok IndY w s \<Longrightarrow> yields (LOAD_IND_Y_BANK m (zx (i_lo w))) s (isa_operand IndY w (abs_cpu s))
    (2 + of_bool (isa_crossed IndY w (abs_cpu s)))"
  by (simp add: LOAD_IND_Y_BANK_eq yields_ind_y)

lemma skip_sims:
  "refines (NOOP c p) s p c (isa_read_op Skip v (abs_cpu s))"
  "refines (NOOP_IMM p) s p 0 (isa_read_op Skip v (abs_cpu s))"
  "yields (LOAD m (ret a)) s v k \<Longrightarrow> refines (NOOP_ABS m a) s 3 (k + 1) (isa_read_op Skip v (abs_cpu s))"
  "yields (LOAD_ABS_X m a) s v k \<Longrightarrow> refines (NOOP_ABS_X m a) s 3 (k + 1) (isa_read_op Skip v (abs_cpu s))"
  by (simp_all add: sim_NOOP NOOP_ABS_def NOOP_ABS_X_def sim_NOOP_read)

lemmas acc_sims = sim_ASL_A sim_LSR_A sim_ROL_A sim_ROR_A

lemmas sh_sims = sim_ASL sim_LSR sim_ROL sim_ROR sim_INC sim_DEC

lemma refines_X: "refines (f (zx (reg_x s))) s p n t \<Longrightarrow> refines (do { x \<leftarrow> X_read; f x }) s p n t"
  by (simp add: refines_def cpu)

lemma rmw_zero_x:
  assumes "bus_ok s" "writable s (isa_ea ZpX w (abs_cpu s))"
  shows "rmw_at (LOAD_ZERO m) (STORE_ABS m) ((zx (i_lo w) + zx (reg_x s)) AND 0xff) s (isa_ea ZpX w (abs_cpu s)) 0"
    and "rmw_at (LOAD_ABS m) (STORE_ABS m) ((zx (i_lo w) + zx (reg_x s)) AND 0xff) s (isa_ea ZpX w (abs_cpu s)) 0"
  using rmw_zero [of s "i_lo w + reg_x s"] assms by (simp_all add: zero_index isa_ea_def)

lemmas rmw_modes = rmw_zero rmw_abs rmw_abs_x rmw_abs_y

lemma mode_ea:
  "isa_ea Zp w (abs_cpu s) = zp (i_lo w)" "isa_ea Ab w (abs_cpu s) = w"
  "isa_ea ZpX w (abs_cpu s) = zp (i_lo w + reg_x s)" "isa_ea ZpY w (abs_cpu s) = zp (i_lo w + reg_y s)"
  by (simp_all add: isa_ea_def)

lemma access_ea:
  assumes "ready s"
  shows "access s (Md k) Zp w \<Longrightarrow> writable s (zp (i_lo w))" "access s (Md k) Ab w \<Longrightarrow> writable s w"
    "access s (Md k) ZpX w \<Longrightarrow> writable s (zp (i_lo w + reg_x s))"
  using access_mode(3) [OF assms, where md = Zp] access_mode(3) [OF assms, where md = Ab]
    access_mode(3) [OF assms, where md = ZpX] by (simp_all add: mode_ea)

lemmas md_sims = sim_SLO sim_SRE sim_RLA sim_DCP sim_ISB sim_RRA

lemmas addr_modes = addr_ret addr_zero_x

lemma refines_cong: "run_state f s = run_state g s \<Longrightarrow> refines g s p n t \<Longrightarrow> refines f s p n t"
  by (simp add: refines_def)

lemma ind_y_sims:
  assumes "mode_ok IndY w s" "writable s (isa_ea IndY w (abs_cpu s))"
  defines "A \<equiv> isa_ea IndY w (abs_cpu s)"
  shows "refines (SLO_IND_Y m (zx (i_lo w))) s 2 6 (let (v, t) = isa_mod_op Slo (view s A) (abs_cpu s) in t\<lparr>i_mem := (view s)(A := v)\<rparr>)"
    and "refines (SRE_IND_Y m (zx (i_lo w))) s 2 6 (let (v, t) = isa_mod_op Sre (view s A) (abs_cpu s) in t\<lparr>i_mem := (view s)(A := v)\<rparr>)"
    and "refines (RLA_IND_Y m (zx (i_lo w))) s 2 6 (let (v, t) = isa_mod_op Rla (view s A) (abs_cpu s) in t\<lparr>i_mem := (view s)(A := v)\<rparr>)"
    and "refines (DCP_IND_Y m (zx (i_lo w))) s 2 6 (let (v, t) = isa_mod_op Dcp (view s A) (abs_cpu s) in t\<lparr>i_mem := (view s)(A := v)\<rparr>)"
    and "refines (ISB_IND_Y m (zx (i_lo w))) s 2 6 (let (v, t) = isa_mod_op Isb (view s A) (abs_cpu s) in t\<lparr>i_mem := (view s)(A := v)\<rparr>)"
    and "refines (RRA_IND_Y m (zx (i_lo w))) s 2 6 (let (v, t) = isa_mod_op Rra (view s A) (abs_cpu s) in t\<lparr>i_mem := (view s)(A := v)\<rparr>)"
proof -
  have "bus_ok s" using assms(1) by (simp add: mode_ok_def)
  then have r: "rmw_at (LOAD_ABS m) (STORE_ABS m) (ind_y_sum w s) s A 0"
    unfolding A_def using assms(2) by (rule rmw_ind_y)
  note i = addr_ind_y [OF assms(1)]
  show "refines (SLO_IND_Y m (zx (i_lo w))) s 2 6 (let (v, t) = isa_mod_op Slo (view s A) (abs_cpu s) in t\<lparr>i_mem := (view s)(A := v)\<rparr>)"
    by (rule refines_cong [OF ind_y_macros(1)], use sim_SLO [OF i(1) r, of 2 CLK_IND_Y_RMW2 2] in \<open>simp add: CLK_IND_Y_RMW2_def del: isa_mod_op.simps\<close>)
  show "refines (SRE_IND_Y m (zx (i_lo w))) s 2 6 (let (v, t) = isa_mod_op Sre (view s A) (abs_cpu s) in t\<lparr>i_mem := (view s)(A := v)\<rparr>)"
    by (rule refines_cong [OF ind_y_macros(2)], use sim_SRE [OF i(2) r, of 0 CLK_IND_Y_RMW2 2] in \<open>simp add: CLK_IND_Y_RMW2_def del: isa_mod_op.simps\<close>)
  show "refines (RLA_IND_Y m (zx (i_lo w))) s 2 6 (let (v, t) = isa_mod_op Rla (view s A) (abs_cpu s) in t\<lparr>i_mem := (view s)(A := v)\<rparr>)"
    by (rule refines_cong [OF ind_y_macros(3)], use sim_RLA [OF i(2) r, of 0 CLK_IND_Y_RMW2 2] in \<open>simp add: CLK_IND_Y_RMW2_def del: isa_mod_op.simps\<close>)
  show "refines (DCP_IND_Y m (zx (i_lo w))) s 2 6 (let (v, t) = isa_mod_op Dcp (view s A) (abs_cpu s) in t\<lparr>i_mem := (view s)(A := v)\<rparr>)"
    by (rule refines_cong [OF ind_y_macros(4)], use sim_DCP [OF i(2) r, of 0 CLK_IND_Y_RMW2 2] in \<open>simp add: CLK_IND_Y_RMW2_def del: isa_mod_op.simps\<close>)
  show "refines (ISB_IND_Y m (zx (i_lo w))) s 2 6 (let (v, t) = isa_mod_op Isb (view s A) (abs_cpu s) in t\<lparr>i_mem := (view s)(A := v)\<rparr>)"
    by (rule refines_cong [OF ind_y_macros(5)], use sim_ISB [OF i(2) r, of 0 CLK_IND_Y_RMW2 2] in \<open>simp add: CLK_IND_Y_RMW2_def del: isa_mod_op.simps\<close>)
  show "refines (RRA_IND_Y m (zx (i_lo w))) s 2 6 (let (v, t) = isa_mod_op Rra (view s A) (abs_cpu s) in t\<lparr>i_mem := (view s)(A := v)\<rparr>)"
    by (rule refines_cong [OF ind_y_macros(6)], use sim_RRA [OF i(1) r, of 2 CLK_IND_Y_RMW2 2] in \<open>simp add: CLK_IND_Y_RMW2_def del: isa_mod_op.simps\<close>)
qed

lemma im_sims:
  "refines NOP s 1 0 (isa_imp_op Nop (abs_cpu s))"
  "bus_ok s \<Longrightarrow> refines PHA s 1 1 (isa_imp_op Pha (abs_cpu s))"
  "bus_ok s \<Longrightarrow> clean (reg_p s) \<Longrightarrow> refines PHP s 1 1 (isa_imp_op Php (abs_cpu s))"
  "bus_ok s \<Longrightarrow> refines PLA s 1 2 (isa_imp_op Pla (abs_cpu s))"
  "bus_ok s \<Longrightarrow> refines PLP s 1 2 (isa_imp_op Plp (abs_cpu s))"
  "refines (NOOP_IMM 1) s 1 0 (isa_imp_op Nop (abs_cpu s))"
  using sim_PHA sim_PHP sim_PLA sim_PLP by (simp_all add: NOP_def sim_NOOP)

lemmas implied_sims = sim_flags sim_transfers im_sims

lemma refines_Y: "refines (f (zx (reg_y s))) s p n t \<Longrightarrow> refines (do { y \<leftarrow> Y_read; f y }) s p n t"
  by (simp add: refines_def cpu)

lemma addr_zero_y: "addr_at (do { y \<leftarrow> Y_read; ret ((zx b + y) AND 0xff) }) s (zx (b + reg_y s)) 0"
  by (simp add: addr_at_def cpu zero_index)

lemma sim_STA_abs:
  assumes "addr_at addr s (ucast A) e" "bus_ok s" "writable s A"
  shows "refines (STA addr j c p (STORE_ABS m)) s p (j + e + c) ((abs_cpu s)\<lparr>i_mem := (view s)(A := reg_a s)\<rparr>)"
  using sim_STA [OF assms, of "STORE_ABS m" 0] assms(2,3) by (simp add: STORE_ABS_def cpu bus ucast_id16)

lemma sim_SAX_abs:
  assumes "addr_at addr s (ucast A) e" "bus_ok s" "writable s A"
  shows "refines (SAX m addr j c p) s p (j + e + c) ((abs_cpu s)\<lparr>i_mem := (view s)(A := reg_a s AND reg_x s)\<rparr>)"
  using sim_SAX [OF assms(1,2)] assms(3) by (simp add: ucast_id16)

lemmas wr_sims = sim_STA_abs sim_SAX_abs

lemmas index_sims = sim_STA_abs_x sim_STA_abs_y

lemmas unstable_sims = sim_SHA_abs_y sim_SHX_abs_y sim_SHS_abs_y sim_SHY_abs_x

lemma access_wr:
  assumes "ready s"
  shows "access s (Wr k) Zp w \<Longrightarrow> \<not> isa_unstable k \<Longrightarrow> writable s (zp (i_lo w))"
    "access s (Wr k) Ab w \<Longrightarrow> \<not> isa_unstable k \<Longrightarrow> writable s w"
    "access s (Wr k) ZpX w \<Longrightarrow> \<not> isa_unstable k \<Longrightarrow> writable s (zp (i_lo w + reg_x s))"
    "access s (Wr k) ZpY w \<Longrightarrow> \<not> isa_unstable k \<Longrightarrow> writable s (zp (i_lo w + reg_y s))"
  using access_mode(6) [OF assms, where md = Zp] access_mode(6) [OF assms, where md = Ab]
    access_mode(6) [OF assms, where md = ZpX] access_mode(6) [OF assms, where md = ZpY]
  by (simp_all add: mode_ea)

lemma leads_n: "leads f s (isa_exec ins md k w t) \<Longrightarrow> k = n \<Longrightarrow> leads f s (isa_exec ins md n w t)"
  by simp

lemma leads_flag: "leads (f (c s)) s t \<Longrightarrow> leads (do { x \<leftarrow> gets c; f x }) s t"
  by (simp add: leads_def cpu)

lemma ready_near:
  assumes "ready s"
  shows "unat (reg_pc (glb s)) < 0x100fe" "quiet 3 (glb s)" "global_pending_int (maincpu_int_status (glb s)) = 0"
  using assms by (simp_all add: ready_def)

section \<open>The opcodes\<close>

text \<open>Instructions that read an operand.\<close>

lemma op_ok_read_short:
  shows "op_ok s 0x01" "op_ok s 0x05" "op_ok s 0x09" "op_ok s 0x0b" "op_ok s 0x11" "op_ok s 0x15" "op_ok s 0x21"
    "op_ok s 0x24" "op_ok s 0x25" "op_ok s 0x29" "op_ok s 0x2b" "op_ok s 0x31" "op_ok s 0x35" "op_ok s 0x41"
    "op_ok s 0x45" "op_ok s 0x49" "op_ok s 0x4b" "op_ok s 0x51" "op_ok s 0x55" "op_ok s 0x61" "op_ok s 0x65"
    "op_ok s 0x69" "op_ok s 0x6b" "op_ok s 0x71" "op_ok s 0x75" "op_ok s 0x8b" "op_ok s 0xa0" "op_ok s 0xa1"
    "op_ok s 0xa2" "op_ok s 0xa3" "op_ok s 0xa4" "op_ok s 0xa5" "op_ok s 0xa6" "op_ok s 0xa7" "op_ok s 0xa9"
    "op_ok s 0xab" "op_ok s 0xb1" "op_ok s 0xb3" "op_ok s 0xb4" "op_ok s 0xb5" "op_ok s 0xb6" "op_ok s 0xb7"
    "op_ok s 0xc0" "op_ok s 0xc1" "op_ok s 0xc4" "op_ok s 0xc5" "op_ok s 0xc9" "op_ok s 0xcb" "op_ok s 0xd1"
    "op_ok s 0xd5" "op_ok s 0xe0" "op_ok s 0xe1" "op_ok s 0xe4" "op_ok s 0xe5" "op_ok s 0xe9" "op_ok s 0xeb"
    "op_ok s 0xf1" "op_ok s 0xf5"
  by (rule op_ok_short, simp add: isa_decode_def isa_opcodes_def, simp add: row_defs, simp add: isa_long_def,
      rule leads_Rd, rule rd_sims, rule operands yields_ind_y_bank; simp add: access_mode clk_defs)+

lemma op_ok_read_long:
  shows "op_ok s 0x0d" "op_ok s 0x19" "op_ok s 0x1d" "op_ok s 0x2c" "op_ok s 0x2d" "op_ok s 0x39" "op_ok s 0x3d"
    "op_ok s 0x4d" "op_ok s 0x59" "op_ok s 0x5d" "op_ok s 0x6d" "op_ok s 0x79" "op_ok s 0x7d" "op_ok s 0xac"
    "op_ok s 0xad" "op_ok s 0xae" "op_ok s 0xaf" "op_ok s 0xb9" "op_ok s 0xbb" "op_ok s 0xbc" "op_ok s 0xbd"
    "op_ok s 0xbe" "op_ok s 0xbf" "op_ok s 0xcc" "op_ok s 0xcd" "op_ok s 0xd9" "op_ok s 0xdd" "op_ok s 0xec"
    "op_ok s 0xed" "op_ok s 0xf9" "op_ok s 0xfd"
  by (rule op_ok_long, simp add: isa_decode_def isa_opcodes_def, simp add: row_defs, simp add: isa_long_def,
      rule leads_Rd, rule rd_sims, rule operands yields_ind_y_bank; simp add: access_mode clk_defs)+

lemma op_ok_skip:
  shows "op_ok s 0x04" "op_ok s 0x14" "op_ok s 0x34" "op_ok s 0x44" "op_ok s 0x54" "op_ok s 0x64" "op_ok s 0x74"
    "op_ok s 0x80" "op_ok s 0x82" "op_ok s 0x89" "op_ok s 0xc2" "op_ok s 0xd4" "op_ok s 0xe2" "op_ok s 0xf4"
  by (rule op_ok_short, simp add: isa_decode_def isa_opcodes_def, simp add: row_defs, simp add: isa_long_def,
      rule leads_Rd, rule skip_sims; simp add: clk_defs)+

lemma op_ok_skip_long:
  shows "op_ok s 0x0c" "op_ok s 0x1c" "op_ok s 0x3c" "op_ok s 0x5c" "op_ok s 0x7c" "op_ok s 0xdc" "op_ok s 0xfc"
  by (rule op_ok_long, simp add: isa_decode_def isa_opcodes_def, simp add: row_defs, simp add: isa_long_def,
      rule leads_Rd, rule skip_sims, rule operands; simp add: access_mode)+

text \<open>Instructions that modify memory or the accumulator.\<close>

lemma op_ok_shift:
  shows "op_ok s 0x06" "op_ok s 0x26" "op_ok s 0x46" "op_ok s 0x66" "op_ok s 0xc6" "op_ok s 0xe6"
  by (rule op_ok_short, simp add: isa_decode_def isa_opcodes_def, simp add: row_defs, simp add: isa_long_def,
      rule leads_Sh, rule sh_sims, rule rmw_modes; simp add: access_mode access_ea mode_ea readyD clk_defs)+

lemma op_ok_shift_x:
  shows "op_ok s 0x16" "op_ok s 0x36" "op_ok s 0x56" "op_ok s 0x76" "op_ok s 0xd6" "op_ok s 0xf6"
  by (rule op_ok_short, simp add: isa_decode_def isa_opcodes_def, simp add: row_defs, simp add: isa_long_def,
      rule leads_Sh, rule refines_X, rule sh_sims, rule rmw_zero_x; simp add: access_mode readyD clk_defs)+

lemma op_ok_shift_long:
  shows "op_ok s 0x0e" "op_ok s 0x1e" "op_ok s 0x2e" "op_ok s 0x3e" "op_ok s 0x4e" "op_ok s 0x5e" "op_ok s 0x6e"
    "op_ok s 0x7e" "op_ok s 0xce" "op_ok s 0xde" "op_ok s 0xee" "op_ok s 0xfe"
  by (rule op_ok_long, simp add: isa_decode_def isa_opcodes_def, simp add: row_defs, simp add: isa_long_def,
      rule leads_Sh, rule sh_sims, rule rmw_modes; simp add: access_mode access_ea mode_ea readyD clk_defs)+

lemma op_ok_modify:
  shows "op_ok s 0x07" "op_ok s 0x17" "op_ok s 0x27" "op_ok s 0x37" "op_ok s 0x47" "op_ok s 0x57" "op_ok s 0x67"
    "op_ok s 0x77" "op_ok s 0xc7" "op_ok s 0xd7" "op_ok s 0xe7" "op_ok s 0xf7"
  by (rule op_ok_short, simp add: isa_decode_def isa_opcodes_def, simp add: row_defs, simp add: isa_long_def,
      rule leads_Md, rule md_sims, rule addr_modes, rule rmw_modes; simp add: access_mode access_ea mode_ea readyD clk_defs)+

lemma op_ok_modify_ind_x:
  shows "op_ok s 0x03" "op_ok s 0x23" "op_ok s 0x43" "op_ok s 0x63" "op_ok s 0xc3" "op_ok s 0xe3"
  by (rule op_ok_short, simp add: isa_decode_def isa_opcodes_def, simp add: row_defs, simp add: isa_long_def,
      rule leads_Md, rule md_sims, rule addr_ind_x, simp add: access_mode, rule rmw_modes; simp add: access_mode access_ea mode_ea readyD clk_defs)+

lemma op_ok_modify_ind_y:
  shows "op_ok s 0x13" "op_ok s 0x33" "op_ok s 0x53" "op_ok s 0x73" "op_ok s 0xd3" "op_ok s 0xf3"
  by (rule op_ok_short, simp add: isa_decode_def isa_opcodes_def, simp add: row_defs, simp add: isa_long_def,
      rule leads_Md, rule ind_y_sims; simp add: access_mode clk_defs)+

lemma op_ok_modify_long:
  shows "op_ok s 0x0f" "op_ok s 0x1b" "op_ok s 0x1f" "op_ok s 0x2f" "op_ok s 0x3b" "op_ok s 0x3f" "op_ok s 0x4f"
    "op_ok s 0x5b" "op_ok s 0x5f" "op_ok s 0x6f" "op_ok s 0x7b" "op_ok s 0x7f" "op_ok s 0xcf" "op_ok s 0xdb"
    "op_ok s 0xdf" "op_ok s 0xef" "op_ok s 0xfb" "op_ok s 0xff"
  by (rule op_ok_long, simp add: isa_decode_def isa_opcodes_def, simp add: row_defs, simp add: isa_long_def,
      rule leads_Md, rule md_sims, rule addr_modes, rule rmw_modes; simp add: access_mode access_ea mode_ea readyD clk_defs)+

lemma op_ok_acc:
  shows "op_ok s 0x0a" "op_ok s 0x2a" "op_ok s 0x4a" "op_ok s 0x6a"
  by (rule op_ok_short, simp add: isa_decode_def isa_opcodes_def, simp add: row_defs, simp add: isa_long_def,
      rule leads_Acc, rule acc_sims; simp add: cpu)+

text \<open>Registers, flags and the stack.\<close>

lemma op_ok_implied:
  shows "op_ok s 0x08" "op_ok s 0x18" "op_ok s 0x1a" "op_ok s 0x28" "op_ok s 0x38" "op_ok s 0x3a" "op_ok s 0x48"
    "op_ok s 0x58" "op_ok s 0x5a" "op_ok s 0x68" "op_ok s 0x78" "op_ok s 0x7a" "op_ok s 0x88" "op_ok s 0x8a"
    "op_ok s 0x98" "op_ok s 0x9a" "op_ok s 0xa8" "op_ok s 0xaa" "op_ok s 0xb8" "op_ok s 0xba" "op_ok s 0xc8"
    "op_ok s 0xca" "op_ok s 0xd8" "op_ok s 0xda" "op_ok s 0xe8" "op_ok s 0xea" "op_ok s 0xf8" "op_ok s 0xfa"
  by (rule op_ok_short, simp add: isa_decode_def isa_opcodes_def, simp add: row_defs, simp add: isa_long_def,
      rule leads_Im, rule implied_sims; simp add: readyD)+

text \<open>Stores.\<close>

lemma op_ok_store_ind_x:
  shows "op_ok s 0x81" "op_ok s 0x83"
  by (rule op_ok_short, simp add: isa_decode_def isa_opcodes_def, simp add: row_defs, simp add: isa_long_def,
      rule leads_Wr, rule wr_sims, rule addr_ind_x; simp add: access_mode access_wr mode_ea readyD clk_defs isa_unstable_def)+

lemma op_ok_store_zero:
  shows "op_ok s 0x84" "op_ok s 0x85" "op_ok s 0x86" "op_ok s 0x87"
  by (rule op_ok_short, simp add: isa_decode_def isa_opcodes_def, simp add: row_defs, simp add: isa_long_def,
      rule leads_Wr, rule sim_store_zero; simp add: access_wr mode_ea readyD clk_defs isa_unstable_def)+

lemma op_ok_store_zero_x:
  shows "op_ok s 0x94" "op_ok s 0x95"
  by (rule op_ok_short, simp add: isa_decode_def isa_opcodes_def, simp add: row_defs, simp add: isa_long_def,
      rule leads_Wr, rule refines_X, rule sim_store_zero; simp add: access_wr mode_ea readyD clk_defs isa_unstable_def)+

lemma op_ok_store_zero_y:
  shows "op_ok s 0x96"
  by (rule op_ok_short, simp add: isa_decode_def isa_opcodes_def, simp add: row_defs, simp add: isa_long_def,
      rule leads_Wr, rule refines_Y, rule sim_store_zero; simp add: access_wr mode_ea readyD clk_defs isa_unstable_def)+

lemma op_ok_sax_zero_y:
  shows "op_ok s 0x97"
  by (rule op_ok_short, simp add: isa_decode_def isa_opcodes_def, simp add: row_defs, simp add: isa_long_def,
      rule leads_Wr, rule sim_SAX, rule addr_zero_y; simp add: access_wr mode_ea readyD clk_defs isa_unstable_def)+

lemma op_ok_store_abs:
  shows "op_ok s 0x8c" "op_ok s 0x8e"
  by (rule op_ok_long, simp add: isa_decode_def isa_opcodes_def, simp add: row_defs, simp add: isa_long_def,
      rule leads_Wr, rule sim_store_abs; simp add: access_wr mode_ea readyD clk_defs isa_unstable_def)+

lemma op_ok_store_abs_a:
  shows "op_ok s 0x8d" "op_ok s 0x8f"
  by (rule op_ok_long, simp add: isa_decode_def isa_opcodes_def, simp add: row_defs, simp add: isa_long_def,
      rule leads_Wr, rule wr_sims, rule addr_ret; simp add: access_wr mode_ea readyD clk_defs isa_unstable_def)+

lemma op_ok_store_index:
  shows "op_ok s 0x9d" "op_ok s 0x99"
  by (rule op_ok_long, simp add: isa_decode_def isa_opcodes_def, simp add: row_defs CLK_ABS_I_STORE2_def, simp add: isa_long_def,
      rule leads_Wr, rule index_sims; simp add: access_mode readyD clk_defs isa_unstable_def)+

lemma op_ok_store_ind_y:
  shows "op_ok s 0x91"
  by (rule op_ok_short, simp add: isa_decode_def isa_opcodes_def, simp add: row_defs, simp add: isa_long_def,
      rule leads_Wr, rule sim_STA_ind_y; simp add: access_mode readyD clk_defs isa_unstable_def)+

lemma op_ok_unstable:
  shows "op_ok s 0x9b" "op_ok s 0x9c" "op_ok s 0x9e" "op_ok s 0x9f"
  by (rule op_ok_long, simp add: isa_decode_def isa_opcodes_def, simp add: row_defs, simp add: isa_long_def,
      rule leads_stored, rule unstable_sims; simp add: access_mode readyD clk_defs)+

lemma op_ok_unstable_ind_y:
  shows "op_ok s 0x93"
  by (rule op_ok_short, simp add: isa_decode_def isa_opcodes_def, simp add: row_defs, simp add: isa_long_def,
      rule leads_stored, rule sim_SHA_ind_y; simp add: access_mode readyD clk_defs)+

text \<open>Control flow.\<close>

lemma op_ok_branch:
  shows "op_ok s 0x10" "op_ok s 0x30" "op_ok s 0x50" "op_ok s 0x70" "op_ok s 0x90" "op_ok s 0xb0" "op_ok s 0xd0"
    "op_ok s 0xf0"
  by (rule op_ok_short, simp add: isa_decode_def isa_opcodes_def, simp add: row_defs, simp add: isa_long_def,
      rule leads_flag, rule leads_n, rule leads_BRANCH; simp add: access_def readyD ready_near isa_flag_def)+

lemma op_ok_jump:
  shows "op_ok s 0x4c"
  by (rule op_ok_long, simp add: isa_decode_def isa_opcodes_def, simp add: row_defs, simp add: isa_long_def,
      rule leads_n, rule leads_JMP; simp add: readyD)+

lemma op_ok_jump_ind:
  shows "op_ok s 0x6c"
  by (rule op_ok_long, simp add: isa_decode_def isa_opcodes_def, simp add: row_defs, simp add: isa_long_def,
      rule leads_n, rule leads_JMP_IND; simp add: readyD access_def)+

lemma op_ok_call:
  shows "op_ok s 0x20"
  by (rule op_ok_short, simp add: isa_decode_def isa_opcodes_def, simp add: row_defs, simp add: isa_long_def,
      rule leads_n, rule leads_JSR; simp add: readyD ready_near access_def)+

lemma op_ok_rti:
  shows "op_ok s 0x40"
  by (rule op_ok_short, simp add: isa_decode_def isa_opcodes_def, simp add: row_defs, simp add: isa_long_def,
      rule leads_n, rule leads_RTI; simp add: readyD)+

lemma op_ok_rts:
  shows "op_ok s 0x60"
  by (rule op_ok_short, simp add: isa_decode_def isa_opcodes_def, simp add: row_defs, simp add: isa_long_def,
      rule leads_n, rule leads_RTS; simp add: readyD access_def isa_pull_def)+

lemma op_ok_brk:
  shows "op_ok s 0x00"
  by (rule op_ok_short, simp add: isa_decode_def isa_opcodes_def, simp add: row_defs, simp add: isa_long_def,
      rule leads_n, rule leads_BRK; simp add: readyD ready_near access_def)+

lemma op_ok_jams:
  shows "op_ok s 0x02" "op_ok s 0x12" "op_ok s 0x22" "op_ok s 0x32" "op_ok s 0x42" "op_ok s 0x52" "op_ok s 0x62"
    "op_ok s 0x72" "op_ok s 0x92" "op_ok s 0xb2" "op_ok s 0xd2" "op_ok s 0xf2"
  by (rule op_ok_jam, simp add: isa_decode_def isa_opcodes_def)+

lemmas op_ok_opcodes = op_ok_read_short op_ok_read_long op_ok_skip op_ok_skip_long op_ok_shift op_ok_shift_x
  op_ok_shift_long op_ok_modify op_ok_modify_ind_x op_ok_modify_ind_y op_ok_modify_long op_ok_acc op_ok_implied
  op_ok_store_ind_x op_ok_store_zero op_ok_store_zero_x op_ok_store_zero_y op_ok_sax_zero_y op_ok_store_abs
  op_ok_store_abs_a op_ok_store_index op_ok_store_ind_y op_ok_unstable op_ok_unstable_ind_y op_ok_branch op_ok_jump
  op_ok_jump_ind op_ok_call op_ok_rti op_ok_rts op_ok_brk op_ok_jams

lemma all_bytes:
  assumes "list_all P (map word_of_nat [0..<256])"
  shows "P (b :: u8)"
proof -
  have "word_of_nat (unat b) = b" by simp
  moreover have "unat b < 256" by (rule u8_lt)
  ultimately show ?thesis using assms by (metis list_all_length length_map length_upt nth_map nth_upt add_0 diff_zero)
qed

lemma op_ok_all: "op_ok s b"
  by (rule all_bytes [where b = b]) (simp add: upt_rec [of 0 256] upt_rec [of "Suc 0" 256] upt_rec_numeral op_ok_opcodes flip: numeral_2_eq_2)

end

end
