(* ===== verification/CpuStep.thy ===== *)
theory CpuStep
  imports CpuRows
begin

text \<open>
  The refinement theorems of the 6510 core inside the bus contract: a turn of the main loop is a step of the
  instruction set, and so are any number of turns while no alarm comes due and no interrupt is pending.
\<close>

text \<open>The states an instruction can start from: \<open>n\<close> cycles without alarms lie ahead.\<close>

context ram_bus
begin

definition free :: "nat \<Rightarrow> 'e cpu \<Rightarrow> bool" where
  "free n s \<longleftrightarrow> settled s \<and> clean (reg_p s) \<and> quiet n (glb s) \<and>
     global_pending_int (maincpu_int_status (glb s)) = 0"

text \<open>The bytes of the instruction and its operands lie where the contract holds.\<close>

definition within :: "'e cpu \<Rightarrow> bool" where
  "within s \<longleftrightarrow> (let t = abs_cpu s in unat (reg_pc (glb s)) < 0x100fe \<and>
     (case isa_decode (i_mem t (i_pc t)) of None \<Rightarrow> False
      | Some (ins, md, n) \<Rightarrow>
          list_all (readable s) (isa_fetched md t) \<and> list_all (readable s) (isa_reads ins md (isa_word t) t) \<and>
          list_all (writable s) (isa_writes ins md (isa_word t) t)))"

lemma isa_reads_cyc: "isa_reads ins md w (t\<lparr>i_cyc := c\<rparr>) = isa_reads ins md w t"
  by (cases ins) (simp_all add: isa_cyc isa_branch_dest_def isa_pull_def)

lemma isa_writes_cyc: "isa_writes ins md w (t\<lparr>i_cyc := c\<rparr>) = isa_writes ins md w t"
  by (cases ins) (simp_all add: isa_cyc)

lemma lands_from:
  assumes "lands s1 s' t" "kept (glb s) (glb s1)" "reg_p s1 = reg_p s"
  shows "lands s s' t"
  using assms by (simp add: lands_def kept_def)

lemma decode_jam: "isa_decode 2 = None"
  by (simp add: isa_decode_def isa_opcodes_def)

theorem step_lands:
  assumes "free 6 s" "within s"
  shows "lands s (snd (run_state (cpu_step m) s)) (isa_step (abs_cpu s))"
proof -
  define t where "t = abs_cpu s"
  obtain ins md n where d: "isa_decode (op_at s 0) = Some (ins, md, n)"
    and reads: "list_all (readable s) (isa_fetched md t)" "list_all (readable s) (isa_reads ins md (isa_word t) t)"
    and writes: "list_all (writable s) (isa_writes ins md (isa_word t) t)" and pc: "unat (reg_pc (glb s)) < 0x100fe"
    using assms(2) by (auto simp: within_def Let_def t_def op_at_def split: option.splits)
  have st: "settled s" "bus_ok s" "clean (reg_p s)" "quiet 6 (glb s)" "global_pending_int (maincpu_int_status (glb s)) = 0"
    using assms(1) by (simp_all add: free_def settled_def)
  let ?s1 = "s\<lparr>glb := (glb s)\<lparr>last_opcode_addr := reg_pc (glb s)\<rparr>\<rparr>"
  define k :: u32 where "k = 2 + of_bool (isa_long ins md)"
  have k3: "unat k \<le> 3" by (simp add: k_def)
  have long: "truth (fetch_tab ! unat (op_at s 0)) \<longleftrightarrow> isa_long ins md" by (rule fetch_long [OF d])
  have o1: "op_at ?s1 k = op_at s k" for k by (simp add: op_at_def)
  have "settled ?s1" using st(1) by (simp add: settled_def)
  moreover have "isa_long ins md \<longrightarrow> readable s (i_pc t + 2)" using reads(1) by (simp add: isa_fetched_def isa_long_def split: if_splits)
  ultimately obtain opcode where f: "run_state (FETCH_OPCODE m) ?s1 = (opcode, tick k ?s1)"
    and p: "p0_of opcode = zx (op_at s 0)" "p1_of opcode = zx (op_at s 1)"
    and p2: "isa_long ins md \<longrightarrow> p2_of opcode = ucast (mk16 (op_at s 1) (op_at s 2))"
    using run_FETCH_OPCODE [of ?s1] pc reads(1) unfolding o1 long k_def [symmetric]
    by (auto simp: isa_fetched_def t_def)
  have w: "mk16 (op_at s 1) (op_at s 2) = isa_word t" by (simp add: op_at_def isa_word_def t_def)
  let ?s2 = "(tick k ?s1)\<lparr>glb := (glb (tick k ?s1))\<lparr>last_opcode_info := OPINFO_SET (zx (op_at s 0)) False False False\<rparr>\<rparr>"
  have due: "\<not> alarm_context_next_pending_clk (actx (maincpu_alarm_context (glb s))) \<le> maincpu_clk (glb s)"
    using st(4) by (simp add: quiet_def word_le_nat_alt)
  have nj: "op_at s 0 \<noteq> 2" using d decode_jam by auto
  have jam: "zx (op_at s 0) \<noteq> 2"
  proof
    assume "zx (op_at s 0) = 2"
    then have "lo8 (zx (op_at s 0)) = lo8 2" by simp
    then show False using nj by simp
  qed
  have t2: "abs_cpu ?s2 = t\<lparr>i_cyc := i_cyc t + k\<rparr>" by (simp add: t_def abs_cpu_def)
  have "access ?s2 ins md (isa_word t)"
    unfolding access_def t2 isa_reads_cyc isa_writes_cyc using reads(2) writes by simp
  moreover have "ready ?s2"
  proof -
    have "unat (maincpu_clk (glb s) + k) \<le> unat (maincpu_clk (glb s)) + 3"
      using unat_word_ariths(1) [of "maincpu_clk (glb s)" k] k3 by (simp add: order_trans [OF mod_less_eq_dividend])
    then have "quiet 3 (glb ?s2)" using st(4) by (simp add: quiet_def)
    then show ?thesis using st pc by (simp add: ready_def settled_def)
  qed
  ultimately have l: "leads (opcode_row m (zx (op_at s 0)) (zx (i_lo (isa_word t))) (p2_of opcode)) ?s2
      (isa_exec ins md (n - k) (isa_word t) (abs_cpu ?s2))"
    unfolding k_def using op_ok_all [of ?s2 "op_at s 0"] p2 w
    by (intro op_ok_all [unfolded op_ok_def, rule_format, OF d]) (simp_all add: k_def)
  have e: "isa_exec ins md (n - k) (isa_word t) (abs_cpu ?s2) = isa_step t"
    using d unfolding t2 isa_exec_cyc by (simp add: isa_step_def op_at_def t_def)
  have p1: "i_lo (isa_word t) = op_at s 1" by (simp flip: w)
  have "run_state (cpu_step m) s = run_state (execute m (fuel m) opcode) (tick k ?s1)"
    using st due f by (simp add: cpu_step_def cpu no_alternate no_delay PROCESS_ALARMS_quiet expire_irq_def Let_def IK_NONE_def
        SET_LAST_ADDR_def)
  also have "\<dots> = run_state (opcode_row m (zx (op_at s 0)) (zx (i_lo (isa_word t))) (p2_of opcode)) ?s2"
    unfolding execute.simps [of m "fuel m" opcode] p p1 using jam by (simp add: Let_def cpu SET_LAST_OPCODE_def)
  finally have "run_state (cpu_step m) s = run_state (opcode_row m (zx (op_at s 0)) (zx (i_lo (isa_word t))) (p2_of opcode)) ?s2" .
  then have "lands ?s2 (snd (run_state (cpu_step m) s)) (isa_step t)" using l unfolding leads_def e by (simp only:)
  then show ?thesis unfolding t_def by (rule lands_from) (simp_all add: kept_def)
qed

text \<open>Many turns.\<close>

definition turns :: "nat \<Rightarrow> 'e cpu \<Rightarrow> 'e cpu" where
  "turns n = (\<lambda>s. snd (run_state (cpu_step m) s)) ^^ n"

lemma lands_refl: "settled s \<Longrightarrow> lands s s (abs_cpu s)"
  by (simp add: lands_def)

lemma turns_lands:
  assumes "free 6 s" "\<And>i. i < n \<Longrightarrow> within (turns i s) \<and> quiet 6 (glb (turns i s))"
  shows "lands s (turns n s) ((isa_step ^^ n) (abs_cpu s))"
  using assms(2)
proof (induction n)
  case 0
  then show ?case using assms(1) by (simp add: turns_def lands_refl free_def)
next
  case (Suc n)
  then have l: "lands s (turns n s) ((isa_step ^^ n) (abs_cpu s))" by simp
  then have "free 6 (turns n s)" using assms(1) Suc.prems [of n] by (simp add: free_def lands_def kept_def)
  then have "lands (turns n s) (turns (Suc n) s) (isa_step (abs_cpu (turns n s)))"
    using step_lands [of "turns n s"] Suc.prems [of n] by (simp add: turns_def)
  then show ?case using l by (auto simp: lands_def kept_def)
qed

end

end
