(* ===== verification/C64Tables.thy ===== *)
theory C64Tables
  imports Prelude
begin

text \<open>
  The memory tables of the C64: \<open>mem_initialize_memory\<close> of c64mem.c with \<open>c64meminit\<close> of c64meminit.c and
  the limits of c64memlimit.c. A table entry is the name of the function or the array the C table points to;
  \<open>RNull\<close>, \<open>SNull\<close> and \<open>BNull\<close> are null pointers. A C loop over pages or configurations is a \<open>fold\<close> over its
  range and \<open>stmts\<close> runs the statements of a block. The lemmas give every table in closed form and the theorems compare it with the PLA.
\<close>

section \<open>Table entries\<close>

datatype read_func = RNull | Zero_read | Ram_read | Void_read | Chargen_read | Basic64_read | Kernal64_read |
  C64io_read nat | Colorram_read | Cia1_read | Cia2_read | Roml_read | Romh_read | Ultimax_romh_read_hirom |
  Ultimax_1000_7fff_read | Ultimax_a000_bfff_read | Ultimax_c000_cfff_read | Ultimax_d000_dfff_read |
  C64_256k_read nat | Plus256k_low_read | Plus256k_high_read | Plus60k_ram_read

datatype store_func = SNull | Zero_store | Ram_store | Void_store | Ram_hi_store | Vbank_store | Vbank_39xx_store |
  Vbank_3fxx_store | C64io_store nat | Colorram_store | Cia1_store | Cia2_store | Roml_no_ultimax_store |
  Raml_no_ultimax_store | Romh_no_ultimax_store | Ramh_no_ultimax_store | Roml_store | Romh_store |
  Ultimax_1000_7fff_store | Ultimax_a000_bfff_store | Ultimax_c000_cfff_store | Ultimax_d000_dfff_store |
  C64_256k_store nat | Plus256k_low_store | Plus256k_high_store | Plus60k_ram_store | Plus60k_ram_hi_store |
  Plus60k_vbank_store | Plus60k_vbank_39xx_store | Plus60k_vbank_3fxx_store

text \<open>The arrays a page can be fetched from; the offset of the pointer is the page the array is mapped to.\<close>

datatype base_ptr = BNull | Mem_ram | Mem_chargen_rom | Basic64_rom | Kernal64_trap_rom

record mem_tabs =
  t_write :: "nat \<Rightarrow> nat \<Rightarrow> nat \<Rightarrow> store_func"
  t_read :: "nat \<Rightarrow> nat \<Rightarrow> read_func"
  t_base :: "nat \<Rightarrow> nat \<Rightarrow> base_ptr"
  t_limit :: "nat \<Rightarrow> nat \<Rightarrow> u32"

definition NUM_CONFIGS :: nat where "NUM_CONFIGS = 32"
definition NUM_VBANKS :: nat where "NUM_VBANKS = 4"

text \<open>Static arrays start as zeros.\<close>

definition static_tabs :: mem_tabs where
  "static_tabs = \<lparr>t_write = \<lambda>_ _ _. SNull, t_read = \<lambda>_ _. RNull, t_base = \<lambda>_ _. BNull, t_limit = \<lambda>_ _. 0\<rparr>"

definition mem_read_tab_set :: "nat \<Rightarrow> nat \<Rightarrow> read_func \<Rightarrow> mem_tabs \<Rightarrow> mem_tabs" where
  "mem_read_tab_set base index f T = T\<lparr>t_read := (t_read T)(base := (t_read T base)(index := f))\<rparr>"

definition mem_read_base_set :: "nat \<Rightarrow> nat \<Rightarrow> base_ptr \<Rightarrow> mem_tabs \<Rightarrow> mem_tabs" where
  "mem_read_base_set base index p T = T\<lparr>t_base := (t_base T)(base := (t_base T base)(index := p))\<rparr>"

definition write_tab_set :: "nat \<Rightarrow> nat \<Rightarrow> nat \<Rightarrow> store_func \<Rightarrow> mem_tabs \<Rightarrow> mem_tabs" where
  "write_tab_set k i j f T = T\<lparr>t_write := (t_write T)(k := (t_write T k)(i := (t_write T k i)(j := f)))\<rparr>"

definition limit_set :: "nat \<Rightarrow> nat \<Rightarrow> u32 \<Rightarrow> mem_tabs \<Rightarrow> mem_tabs" where
  "limit_set i k v T = T\<lparr>t_limit := (t_limit T)(i := (t_limit T i)(k := v))\<rparr>"

definition mem_set_write_hook :: "nat \<Rightarrow> nat \<Rightarrow> store_func \<Rightarrow> mem_tabs \<Rightarrow> mem_tabs" where
  "mem_set_write_hook config page f = fold (\<lambda>i. write_tab_set i config page f) [0..<NUM_VBANKS]"

text \<open>\<open>for (i = a; i <= b; i++)\<close>\<close>

definition for_to :: "nat \<Rightarrow> nat \<Rightarrow> (nat \<Rightarrow> mem_tabs \<Rightarrow> mem_tabs) \<Rightarrow> mem_tabs \<Rightarrow> mem_tabs" where
  "for_to a b f = fold f [a..<Suc b]"

section \<open>Limits of the opcode fetch\<close>

definition segments :: "(nat \<times> nat) list" where
  "segments = [(0x00, 0x0f), (0x10, 0x7f), (0x80, 0x9f), (0xa0, 0xbf), (0xc0, 0xcf), (0xd0, 0xdf), (0xe0, 0xff)]"

definition limit_tab :: "u32 list list" where
  "limit_tab =
    [[0x0002fffd, 0x0002cffd, 0x0002cffd, 0x00029ffd, 0x0002fffd, 0x0002cffd, 0x0002cffd, 0x00029ffd,
      0x0002fffd, 0x0002cffd, 0x00029ffd, 0x00027ffd, 0x0002fffd, 0x0002cffd, 0x00029ffd, 0x00027ffd,
      0x00020ffd, 0x00020ffd, 0x00020ffd, 0x00020ffd, 0x00020ffd, 0x00020ffd, 0x00020ffd, 0x00020ffd,
      0x0002fffd, 0x0002cffd, 0x00029ffd, 0x00027ffd, 0x0002fffd, 0x0002cffd, 0x00029ffd, 0x00027ffd],
     [0x0002fffd, 0x0002cffd, 0x0002cffd, 0x00029ffd, 0x0002fffd, 0x0002cffd, 0x0002cffd, 0x00029ffd,
      0x0002fffd, 0x0002cffd, 0x00029ffd, 0x00027ffd, 0x0002fffd, 0x0002cffd, 0x00029ffd, 0x00027ffd,
      0, 0, 0, 0, 0, 0, 0, 0,
      0x0002fffd, 0x0002cffd, 0x00029ffd, 0x00027ffd, 0x0002fffd, 0x0002cffd, 0x00029ffd, 0x00027ffd],
     [0x0002fffd, 0x0002cffd, 0x0002cffd, 0x00029ffd, 0x0002fffd, 0x0002cffd, 0x0002cffd, 0x00029ffd,
      0x0002fffd, 0x0002cffd, 0x00029ffd, 0, 0x0002fffd, 0x0002cffd, 0x00029ffd, 0,
      0, 0, 0, 0, 0, 0, 0, 0,
      0x0002fffd, 0x0002cffd, 0x00029ffd, 0, 0x0002fffd, 0x0002cffd, 0x00029ffd, 0],
     [0x0002fffd, 0x0002cffd, 0x0002cffd, 0xa000bffd, 0x0002fffd, 0x0002cffd, 0x0002cffd, 0xa000bffd,
      0x0002fffd, 0x0002cffd, 0, 0, 0x0002fffd, 0x0002cffd, 0, 0,
      0, 0, 0, 0, 0, 0, 0, 0,
      0x0002fffd, 0x0002cffd, 0, 0, 0x0002fffd, 0x0002cffd, 0, 0],
     [0x0002fffd, 0x0002cffd, 0x0002cffd, 0xc000cffd, 0x0002fffd, 0x0002cffd, 0x0002cffd, 0xc000cffd,
      0x0002fffd, 0x0002cffd, 0xc000cffd, 0xc000cffd, 0x0002fffd, 0x0002cffd, 0xc000cffd, 0xc000cffd,
      0, 0, 0, 0, 0, 0, 0, 0,
      0x0002fffd, 0x0002cffd, 0xc000cffd, 0xc000cffd, 0x0002fffd, 0x0002cffd, 0xc000cffd, 0xc000cffd],
     [0x0002fffd, 0xd000dffd, 0xd000dffd, 0xd000dffd, 0x0002fffd, 0, 0, 0,
      0x0002fffd, 0xd000dffd, 0xd000dffd, 0xd000dffd, 0x0002fffd, 0, 0, 0,
      0, 0, 0, 0, 0, 0, 0, 0,
      0x0002fffd, 0xd000dffd, 0xd000dffd, 0xd000dffd, 0x0002fffd, 0, 0, 0],
     [0x0002fffd, 0xe000fffd, 0xe000fffd, 0xe000fffd, 0x0002fffd, 0xe000fffd, 0xe000fffd, 0xe000fffd,
      0x0002fffd, 0xe000fffd, 0xe000fffd, 0xe000fffd, 0x0002fffd, 0xe000fffd, 0xe000fffd, 0xe000fffd,
      0, 0, 0, 0, 0, 0, 0, 0,
      0x0002fffd, 0xe000fffd, 0xe000fffd, 0xe000fffd, 0x0002fffd, 0xe000fffd, 0xe000fffd, 0xe000fffd]]"

text \<open>The four initialisers run over the same pages; \<open>v\<close> is what they assign for configuration, segment, page.\<close>

definition limits_init :: "(nat \<Rightarrow> nat \<Rightarrow> nat \<Rightarrow> u32) \<Rightarrow> mem_tabs \<Rightarrow> mem_tabs" where
  "limits_init v = fold (\<lambda>i T. limit_set i 0x100 0
     (fold (\<lambda>j. case segments ! j of (a, b) \<Rightarrow> for_to a b (\<lambda>k. limit_set i k (v i j k))) [0..<7] T)) [0..<NUM_CONFIGS]"

definition mem_limit_init :: "mem_tabs \<Rightarrow> mem_tabs" where
  "mem_limit_init = limits_init (\<lambda>i j k. limit_tab ! j ! i)"

definition mem_limit_plus60k_init :: "mem_tabs \<Rightarrow> mem_tabs" where
  "mem_limit_plus60k_init = limits_init (\<lambda>i j k. if k < 0x10 then 0x00020ffd else 0)"

definition mem_limit_256k_init :: "mem_tabs \<Rightarrow> mem_tabs" where
  "mem_limit_256k_init = limits_init (\<lambda>i j k. 0)"

definition mem_limit_max_init :: "mem_tabs \<Rightarrow> mem_tabs" where
  "mem_limit_max_init = limits_init (\<lambda>i j k. if k < 0x8 then 0x000207fd else 0)"

section \<open>c64meminit.c\<close>

definition c64meminit_io_config :: "nat list" where
  "c64meminit_io_config = [0, 0, 0, 0, 0, 1, 1, 1, 0, 0, 0, 0, 0, 1, 1, 1, 2, 2, 2, 2, 2, 2, 2, 2, 0, 0, 0, 0, 0, 1, 1, 1]"

definition c64meminit_roml_config :: "nat list" where
  "c64meminit_roml_config = [0, 0, 0, 0, 0, 0, 0, 0, 0, 0, 0, 1, 0, 0, 0, 1, 1, 1, 1, 1, 1, 1, 1, 1, 0, 0, 0, 1, 0, 0, 0, 1]"

definition c64meminit_romh_config :: "nat list" where
  "c64meminit_romh_config = [0, 0, 0, 0, 0, 0, 0, 0, 0, 0, 0, 0, 0, 0, 0, 0, 1, 1, 1, 1, 1, 1, 1, 1, 0, 0, 1, 1, 0, 0, 1, 1]"

definition c64meminit_romh_mapping :: "nat list" where
  "c64meminit_romh_mapping = [0, 0, 0, 0, 0, 0, 0, 0, 0, 0, 0, 0, 0, 0, 0, 0,
     0xe0, 0xe0, 0xe0, 0xe0, 0xe0, 0xe0, 0xe0, 0xe0, 0, 0, 0xa0, 0xa0, 0, 0, 0xa0, 0xa0]"

definition meminit_basic :: "nat \<Rightarrow> mem_tabs \<Rightarrow> mem_tabs" where
  "meminit_basic base = for_to 0xa0 0xbf (\<lambda>i. stmts [
     fold (\<lambda>c. mem_read_tab_set (base + c) i Basic64_read) [3, 7, 11, 15],
     fold (\<lambda>c. mem_read_base_set (base + c) i Basic64_rom) [3, 7, 11, 15]])"

definition meminit_io_page :: "nat \<Rightarrow> nat \<Rightarrow> read_func \<Rightarrow> store_func \<Rightarrow> mem_tabs \<Rightarrow> mem_tabs" where
  "meminit_io_page c page r w = stmts [mem_read_tab_set c page r, mem_set_write_hook c page w]"

definition meminit_io :: "nat \<Rightarrow> nat \<Rightarrow> mem_tabs \<Rightarrow> mem_tabs" where
  "meminit_io base board = fold (\<lambda>j. stmts [
     if c64meminit_io_config ! j = 1 then stmts [
        fold (\<lambda>p. meminit_io_page (base + j) p (C64io_read p) (C64io_store p))
          [0xd0, 0xd1, 0xd2, 0xd3, 0xd4, 0xd5, 0xd6, 0xd7],
        for_to 0xd8 0xdb (\<lambda>i. meminit_io_page (base + j) i Colorram_read Colorram_store),
        meminit_io_page (base + j) 0xdc Cia1_read Cia1_store,
        if board \<noteq> 1 then meminit_io_page (base + j) 0xdd Cia2_read Cia2_store else id,
        fold (\<lambda>p. meminit_io_page (base + j) p (C64io_read p) (C64io_store p)) [0xde, 0xdf],
        for_to 0xd0 0xdf (\<lambda>i. mem_read_base_set (base + j) i BNull)]
     else id,
     if c64meminit_io_config ! j = 2 then
        for_to 0xd0 0xdf (\<lambda>i. stmts [meminit_io_page (base + j) i Ultimax_d000_dfff_read Ultimax_d000_dfff_store,
          mem_read_base_set (base + j) i BNull])
     else id]) [0..<32]"

definition meminit_kernal :: "nat \<Rightarrow> mem_tabs \<Rightarrow> mem_tabs" where
  "meminit_kernal base = for_to 0xe0 0xff (\<lambda>i. stmts [
     fold (\<lambda>c. mem_read_tab_set (base + c) i Kernal64_read) [2, 3, 6, 7, 10, 11, 14, 15, 26, 27, 30, 31],
     fold (\<lambda>c. mem_read_base_set (base + c) i Kernal64_trap_rom) [2, 3, 6, 7, 10, 11, 14, 15, 26, 27, 30, 31]])"

definition meminit_roml :: "nat \<Rightarrow> mem_tabs \<Rightarrow> mem_tabs" where
  "meminit_roml base = fold (\<lambda>j. if c64meminit_roml_config ! j \<noteq> 0 then
     for_to 0x80 0x9f (\<lambda>i. stmts [mem_read_tab_set (base + j) i Roml_read, mem_read_base_set (base + j) i BNull,
       mem_set_write_hook (base + j) i Roml_no_ultimax_store]) else id) [0..<32]"

text \<open>The three loops for $8000-$9FFF differ in their configurations only.\<close>

definition meminit_raml :: "nat \<Rightarrow> nat list \<Rightarrow> mem_tabs \<Rightarrow> mem_tabs" where
  "meminit_raml base = fold (\<lambda>j. if c64meminit_roml_config ! j = 0 then
     for_to 0x80 0x9f (\<lambda>i. mem_set_write_hook (base + j) i Raml_no_ultimax_store) else id)"

definition meminit_romh :: "nat \<Rightarrow> mem_tabs \<Rightarrow> mem_tabs" where
  "meminit_romh base = fold (\<lambda>j. if c64meminit_romh_config ! j \<noteq> 0 then
     for_to (c64meminit_romh_mapping ! j) (c64meminit_romh_mapping ! j + 0x1f)
       (\<lambda>i. stmts [mem_read_tab_set (base + j) i Romh_read, mem_read_base_set (base + j) i BNull,
         mem_set_write_hook (base + j) i Romh_no_ultimax_store]) else id) [24..<32]"

definition meminit_ramh :: "nat \<Rightarrow> nat list \<Rightarrow> mem_tabs \<Rightarrow> mem_tabs" where
  "meminit_ramh base = fold (\<lambda>j. if c64meminit_romh_config ! j = 0 then
     for_to 0xa0 0xbf (\<lambda>i. mem_set_write_hook (base + j) i Ramh_no_ultimax_store) else id)"

definition meminit_romh_ultimax :: "nat \<Rightarrow> mem_tabs \<Rightarrow> mem_tabs" where
  "meminit_romh_ultimax base = fold (\<lambda>j. if c64meminit_romh_config ! j \<noteq> 0 then
     for_to (c64meminit_romh_mapping ! j) (c64meminit_romh_mapping ! j + 0x1f)
       (\<lambda>i. stmts [mem_read_tab_set (base + j) i (if odd (j div 2) then Ultimax_romh_read_hirom else Romh_read),
         mem_read_base_set (base + j) i BNull]) else id) [16..<24]"

definition meminit_ultimax :: "nat \<Rightarrow> mem_tabs \<Rightarrow> mem_tabs" where
  "meminit_ultimax base = fold (\<lambda>j. stmts [
     for_to 0x10 0x7f (\<lambda>i. stmts [meminit_io_page (base + j) i Ultimax_1000_7fff_read Ultimax_1000_7fff_store,
       mem_read_base_set (base + j) i BNull]),
     for_to 0x80 0x9f (\<lambda>i. mem_set_write_hook (base + j) i Roml_store),
     for_to 0xa0 0xbf (\<lambda>i. stmts [meminit_io_page (base + j) i Ultimax_a000_bfff_read Ultimax_a000_bfff_store,
       mem_read_base_set (base + j) i BNull]),
     for_to 0xc0 0xcf (\<lambda>i. stmts [meminit_io_page (base + j) i Ultimax_c000_cfff_read Ultimax_c000_cfff_store,
       mem_read_base_set (base + j) i BNull]),
     for_to 0xe0 0xff (\<lambda>i. mem_set_write_hook (base + j) i Romh_store)]) [16..<24]"

text \<open>\<open>board\<close> is the resource BoardType: 1 is the MAX machine.\<close>

definition c64meminit :: "nat \<Rightarrow> nat \<Rightarrow> mem_tabs \<Rightarrow> mem_tabs" where
  "c64meminit base board = stmts [
     if board \<noteq> 1 then meminit_basic base else id,
     meminit_io base board,
     if board \<noteq> 1 then meminit_kernal base else id,
     meminit_roml base,
     meminit_raml base [8..<16], meminit_raml base [24..<32], meminit_raml base [0..<8],
     meminit_romh base,
     meminit_ramh base [24..<32], meminit_ramh base [0..<8],
     meminit_romh_ultimax base,
     meminit_ultimax base]"

section \<open>mem\_initialize\_memory\<close>

text \<open>
  Everything is RAM at first. On the MAX machine the pages from 8 on are open; their write hooks are set for
  configuration 0 whatever the configuration of the loop is, as the code has it.
\<close>

definition init_page :: "nat \<Rightarrow> nat \<Rightarrow> nat \<Rightarrow> mem_tabs \<Rightarrow> mem_tabs" where
  "init_page board i j =
     (if board = 1 \<and> 8 \<le> j then
        stmts [mem_read_tab_set i j Void_read, mem_read_base_set i j BNull, mem_set_write_hook 0 j Void_store]
      else
        stmts [mem_read_tab_set i j Ram_read, mem_read_base_set i j Mem_ram,
        fold (\<lambda>k. write_tab_set k i j
          (if j div 64 * 64 = k * 64 then
             (if j mod 64 = 0x39 then Vbank_39xx_store else if j mod 64 = 0x3f then Vbank_3fxx_store else Vbank_store)
           else Ram_store)) [0..<NUM_VBANKS]])"

definition init_ram :: "nat \<Rightarrow> mem_tabs \<Rightarrow> mem_tabs" where
  "init_ram board = fold (\<lambda>i. stmts [
     mem_set_write_hook i 0 Zero_store, mem_read_tab_set i 0 Zero_read, mem_read_base_set i 0 Mem_ram,
     for_to 1 0xfe (init_page board i),
     if board = 1 then
        stmts [mem_read_tab_set i 0xff Void_read, mem_read_base_set i 0xff BNull, mem_set_write_hook 0 0xff Void_store]
      else
        stmts [mem_read_tab_set i 0xff Ram_read, mem_read_base_set i 0xff Mem_ram, mem_set_write_hook i 0xff Ram_hi_store]])
     [0..<NUM_CONFIGS]"

definition init_chargen :: "mem_tabs \<Rightarrow> mem_tabs" where
  "init_chargen = for_to 0xd0 0xdf (\<lambda>i. stmts [
     fold (\<lambda>c. mem_read_tab_set c i Chargen_read) [1, 2, 3, 9, 10, 11, 26, 27],
     fold (\<lambda>c. mem_read_base_set c i Mem_chargen_rom) [1, 2, 3, 9, 10, 11, 26, 27]])"

text \<open>The entry after the last page is page 0 again.\<close>

definition init_last_page :: "mem_tabs \<Rightarrow> mem_tabs" where
  "init_last_page = fold (\<lambda>i T. let
       T1 = mem_read_tab_set i 0x100 (t_read T i 0) T;
       T2 = fold (\<lambda>j T. write_tab_set j i 0x100 (t_write T j i 0) T) [0..<NUM_VBANKS] T1
     in mem_read_base_set i 0x100 (t_base T2 i 0) T2) [0..<NUM_CONFIGS]"

definition mem_initialize_tabs :: "nat \<Rightarrow> mem_tabs \<Rightarrow> mem_tabs" where
  "mem_initialize_tabs board =
     stmts [mem_limit_init, init_ram board, init_chargen, c64meminit 0 board, init_last_page]"

section \<open>Internal memory expansions\<close>

text \<open>\<open>for\<close> loops over all configurations, some pages and all video banks.\<close>

definition check_256k_ram_write :: "store_func \<Rightarrow> bool" where
  "check_256k_ram_write f \<longleftrightarrow> f \<in> {Vbank_39xx_store, Vbank_3fxx_store, Vbank_store, Ram_hi_store, Ram_store,
     Raml_no_ultimax_store, Romh_no_ultimax_store, Ramh_no_ultimax_store, Romh_store}"

definition expansion_page :: "(store_func \<Rightarrow> store_func) \<Rightarrow> (read_func \<Rightarrow> read_func) \<Rightarrow> nat \<Rightarrow> nat \<Rightarrow> mem_tabs \<Rightarrow> mem_tabs" where
  "expansion_page sf rf i j = stmts [fold (\<lambda>k T. write_tab_set k i j (sf (t_write T k i j)) T) [0..<NUM_VBANKS],
     \<lambda>T. mem_read_tab_set i j (rf (t_read T i j)) T]"

definition c64_256k_init_config :: "bool \<Rightarrow> mem_tabs \<Rightarrow> mem_tabs" where
  "c64_256k_init_config enabled = (if enabled then stmts [mem_limit_256k_init,
     fold (\<lambda>i. for_to 1 0xff (\<lambda>j. expansion_page
       (\<lambda>f. if check_256k_ram_write f then C64_256k_store (j div 0x40) else f)
       (\<lambda>f. if f = Ram_read then C64_256k_read (j div 0x40) else f) i j)) [0..<NUM_CONFIGS]] else id)"

definition plus256k_init_config :: "bool \<Rightarrow> mem_tabs \<Rightarrow> mem_tabs" where
  "plus256k_init_config enabled = (if enabled then stmts [mem_limit_256k_init,
     fold (\<lambda>i. for_to 1 0xff (\<lambda>j. expansion_page
       (\<lambda>f. if check_256k_ram_write f then (if j < 0x10 then Plus256k_low_store else Plus256k_high_store) else f)
       (\<lambda>f. if f = Ram_read then (if j < 0x10 then Plus256k_low_read else Plus256k_high_read) else f) i j))
     [0..<NUM_CONFIGS]] else id)"

fun plus60k_store :: "store_func \<Rightarrow> store_func" where
  "plus60k_store Vbank_39xx_store = Plus60k_vbank_39xx_store"
| "plus60k_store Vbank_3fxx_store = Plus60k_vbank_3fxx_store"
| "plus60k_store Vbank_store = Plus60k_vbank_store"
| "plus60k_store Ram_hi_store = Plus60k_ram_hi_store"
| "plus60k_store Ram_store = Plus60k_ram_store"
| "plus60k_store Raml_no_ultimax_store = Plus60k_ram_store"
| "plus60k_store Romh_no_ultimax_store = Plus60k_ram_store"
| "plus60k_store Ramh_no_ultimax_store = Plus60k_ram_store"
| "plus60k_store Romh_store = Plus60k_ram_store"
| "plus60k_store f = f"

definition plus60k_init_config :: "bool \<Rightarrow> mem_tabs \<Rightarrow> mem_tabs" where
  "plus60k_init_config enabled = (if enabled then stmts [mem_limit_plus60k_init,
     fold (\<lambda>i. for_to 0x10 0xff (\<lambda>j. expansion_page plus60k_store
       (\<lambda>f. if f = Ram_read then Plus60k_ram_read else f) i j)) [0..<NUM_CONFIGS]] else id)"

end
