(* ===== verification/C64Mem.thy ===== *)
theory C64Mem
  imports C64Tables CpuState
begin

text \<open>
  The C64 memory system: the processor port (c64pla.c), the memory handlers, table pointers, banks and operations of
  c64mem.c, the ROMs of c64memrom.c, the VIC-II stores of vicii-mem.c and \<open>maincpu_resync_limits\<close> of maincpu.c.
  The state is the extension \<open>dev\<close> of the CPU globals; the chips, cartridges, expansions and the monitor, which c64mem.c
  reaches by calls, are functions on the globals in the record \<open>c64_hooks\<close>. A handler that is a null pointer, a configuration
  outside the tables and a loop out of fuel set \<open>fault\<close>.
\<close>

section \<open>State\<close>

record pport =
  pp_dir :: u8
  pp_data :: u8
  pp_dir_read :: u8
  pp_data_read :: u8
  pp_data_out :: u8
  data_set_clk_bit6 :: clock
  data_set_clk_bit7 :: clock
  data_set_bit6 :: u8
  data_set_bit7 :: u8
  data_falloff_bit6 :: bool
  data_falloff_bit7 :: bool

definition C64_CPU6510_DATA_PORT_FALL_OFF_CYCLES :: clock where
  "C64_CPU6510_DATA_PORT_FALL_OFF_CYCLES = 350000"

text \<open>The part of the VIC-II state that stores into the video bank use.\<close>

datatype vicii_fetch_idx = VICII_FETCH_MATRIX | VICII_CHECK_SPRITE_DMA | VICII_FETCH_SPRITE

record vicii =
  viciie :: bool
  fetch_clk :: clock
  draw_clk :: clock
  fetch_idx :: vicii_fetch_idx
  store_clk :: clock
  store_addr :: u16
  store_value :: u8
  ram_base_phi2 :: nat

text \<open>A pointer into the memory tables: the row of a configuration or the table of the watchpoint handlers.\<close>

datatype read_ptr = Read_watch | Read_row nat
datatype write_ptr = Write_watch | Write_row nat nat

text \<open>The cartridge devices asked by the opcode fetch, slot by slot, and what a device answers.\<close>

datatype cart_device = Mmc64 | Magicvoice | Tpi | Isepic | Expert | Ramcart | Dqbb | Main_slot int
datatype cart_read = CART_READ_THROUGH_NO_ULTIMAX | CART_READ_C64MEM | CART_READ_THROUGH | CART_READ_VALID

record 'x c64dev =
  pport :: pport
  old_port_data_out :: u8
  old_port_write_bit :: u8
  old_port_sense_out :: u8
  mem_color_ram :: "u16 \<Rightarrow> u8"
  mem_chargen_rom :: "u16 \<Rightarrow> u8"
  basic64_rom :: "u16 \<Rightarrow> u8"
  kernal64_rom :: "u16 \<Rightarrow> u8"
  kernal64_trap_rom :: "u16 \<Rightarrow> u8"
  tabs :: mem_tabs
  read_tab_ptr :: read_ptr
  write_tab_ptr :: write_ptr
  read_base_tab_ptr :: nat
  read_limit_tab_ptr :: nat
  vbank :: nat
  mem_config :: nat
  tape_sense :: int
  tape_write_in :: int
  tape_motor_in :: int
  watchpoints_active :: bool
  export_exrom :: u8
  export_game :: u8
  c64_256k_enabled :: bool
  plus256k_enabled :: bool
  plus60k_enabled :: bool
  device_enabled :: "cart_device \<Rightarrow> bool"
  mem_cartridge_type :: int
  z80_started :: bool
  o_bank_set :: bool
  vic :: vicii
  ext :: 'x

type_synonym 'x c64 = "'x c64dev globals"

record 'x c64_hooks =
  ext_read :: "read_func \<Rightarrow> u16 \<Rightarrow> 'x c64 \<Rightarrow> u8 \<times> 'x c64"
  ext_store :: "store_func \<Rightarrow> u16 \<Rightarrow> u8 \<Rightarrow> 'x c64 \<Rightarrow> 'x c64"
  ext_peek :: "read_func \<Rightarrow> u16 \<Rightarrow> 'x c64 \<Rightarrow> u8 \<times> 'x c64"
  vicii_read_phi1 :: "'x c64 \<Rightarrow> u8 \<times> 'x c64"
  vicii_read_phi1_lowlevel :: "'x c64 \<Rightarrow> u8 \<times> 'x c64"
  vicii_peek :: "u16 \<Rightarrow> 'x c64 \<Rightarrow> u8"
  cia2_peek :: "u16 \<Rightarrow> 'x c64 \<Rightarrow> u8"
  machine_handle_pending_alarms :: "int \<Rightarrow> 'x c64 \<Rightarrow> 'x c64"
  vicii_fetch_alarm_handler :: "clock \<Rightarrow> 'x c64 \<Rightarrow> 'x c64"
  vicii_raster_draw_alarm_handler :: "clock \<Rightarrow> 'x c64 \<Rightarrow> 'x c64"
  idle_store_39ff :: "u8 \<Rightarrow> 'x c64 \<Rightarrow> 'x c64"
  idle_store_3fff :: "u8 \<Rightarrow> 'x c64 \<Rightarrow> 'x c64"
  phi2_store :: "nat \<Rightarrow> u16 \<Rightarrow> u8 \<Rightarrow> 'x c64 \<Rightarrow> 'x c64"
  reu_dma :: "int \<Rightarrow> 'x c64 \<Rightarrow> 'x c64"
  tapeport_set_motor :: "bool \<Rightarrow> 'x c64 \<Rightarrow> 'x c64"
  tapeport_toggle_write_bit :: "u8 \<Rightarrow> 'x c64 \<Rightarrow> 'x c64"
  tapeport_set_sense_out :: "bool \<Rightarrow> 'x c64 \<Rightarrow> 'x c64"
  monitor_watch_push_load_addr :: "u16 \<Rightarrow> 'x c64 \<Rightarrow> 'x c64"
  monitor_watch_push_store_addr :: "u16 \<Rightarrow> 'x c64 \<Rightarrow> 'x c64"
  device_mmu_translate :: "cart_device \<Rightarrow> 'x c64 \<Rightarrow> u32 \<Rightarrow> cart_read \<times> nat \<times> int \<times> int"
  cartridge_peek_mem :: "u16 \<Rightarrow> 'x c64 \<Rightarrow> u8 \<times> 'x c64"
  cartridge_init_config :: "'x c64 \<Rightarrow> 'x c64"
  cpmcart_mainloop :: "'x c64 \<Rightarrow> 'x c64"
  vicii_set_vbank :: "nat \<Rightarrow> 'x c64 \<Rightarrow> 'x c64"
  vicii_set_chargen_addr_options :: "u16 \<Rightarrow> u16 \<Rightarrow> 'x c64 \<Rightarrow> 'x c64"
  loop_fuel :: nat

definition upd_dev :: "('x c64dev \<Rightarrow> 'x c64dev) \<Rightarrow> 'x c64 \<Rightarrow> 'x c64" where
  "upd_dev f g = g\<lparr>dev := f (dev g)\<rparr>"

definition upd_pport :: "(pport \<Rightarrow> pport) \<Rightarrow> 'x c64 \<Rightarrow> 'x c64" where
  "upd_pport f = upd_dev (\<lambda>d. d\<lparr>pport := f (pport d)\<rparr>)"

definition upd_vic :: "(vicii \<Rightarrow> vicii) \<Rightarrow> 'x c64 \<Rightarrow> 'x c64" where
  "upd_vic f = upd_dev (\<lambda>d. d\<lparr>vic := f (vic d)\<rparr>)"

definition poke_ram :: "u16 \<Rightarrow> u8 \<Rightarrow> 'x c64 \<Rightarrow> 'x c64" where
  "poke_ram a v g = g\<lparr>mem_ram := (mem_ram g)(a := v)\<rparr>"

definition faulty :: "'x c64 \<Rightarrow> 'x c64" where
  "faulty g = g\<lparr>fault := True\<rparr>"

section \<open>Processor port\<close>

text \<open>\<open>c64pla_config_changed\<close>: first the port registers, then the lines to the tape port.\<close>

definition pport_levels :: "int \<Rightarrow> int \<Rightarrow> int \<Rightarrow> int \<Rightarrow> u8 \<Rightarrow> pport \<Rightarrow> pport" where
  "pport_levels sense write_in motor_in caps_sense pullup p = (
     let out = (pp_data_out p AND NOT (pp_dir p)) OR (pp_data p AND pp_dir p);
         r = (pp_data p OR NOT (pp_dir p)) AND (out OR pullup);
         r = (if truth (pullup AND 0x40) \<and> caps_sense = 0 then r AND 0xbf else r);
         r = (if \<not> truth (pp_dir p AND 0x20) then r AND 0xdf else r);
         r = (if sense \<noteq> 0 \<and> \<not> truth (pp_dir p AND 0x10) then r AND 0xef else r);
         r = (if write_in \<noteq> 0 \<and> \<not> truth (pp_dir p AND 0x08) then r AND 0xf7 else r);
         r = (if motor_in \<noteq> 0 \<and> \<not> truth (pp_dir p AND 0x20) then r AND 0xdf else r)
     in p\<lparr>pp_data_out := out, pp_data_read := r\<rparr>)"

definition c64pla_config_changed :: "'x c64_hooks \<Rightarrow> int \<Rightarrow> int \<Rightarrow> int \<Rightarrow> int \<Rightarrow> u8 \<Rightarrow> 'x c64 \<Rightarrow> 'x c64" where
  "c64pla_config_changed h sense write_in motor_in caps_sense pullup = stmts [
     upd_pport (pport_levels sense write_in motor_in caps_sense pullup),
     \<lambda>g. let p = pport (dev g); v = (pp_dir p AND pp_data p) AND 0x20 in
       if v \<noteq> old_port_data_out (dev g)
       then tapeport_set_motor h (v = 0) (upd_dev (\<lambda>d. d\<lparr>old_port_data_out := v\<rparr>) g) else g,
     \<lambda>g. let p = pport (dev g); v = (NOT (pp_dir p) OR pp_data p) AND 0x8 in
       if v \<noteq> old_port_write_bit (dev g)
       then tapeport_toggle_write_bit h v (upd_dev (\<lambda>d. d\<lparr>old_port_write_bit := v\<rparr>) g) else g,
     \<lambda>g. let p = pport (dev g); v = (pp_dir p AND pp_data p) AND 0x10 in
       if v \<noteq> old_port_sense_out (dev g)
       then tapeport_set_sense_out h (v = 0) (upd_dev (\<lambda>d. d\<lparr>old_port_sense_out := v\<rparr>) g) else g,
     upd_pport (\<lambda>p. p\<lparr>pp_dir_read := pp_dir p\<rparr>)]"

definition c64pla_pport_reset :: "pport \<Rightarrow> pport" where
  "c64pla_pport_reset p = p\<lparr>pp_data := 0, pp_data_out := 0, pp_data_read := 0, pp_dir := 0, pp_dir_read := 0,
     data_set_bit6 := 0, data_set_bit7 := 0, data_falloff_bit6 := False, data_falloff_bit7 := False\<rparr>"

text \<open>The unused bits keep their charge until a clock; \<open>discharge\<close> is done for each bit when it is looked at.\<close>

definition discharge6 :: "clock \<Rightarrow> pport \<Rightarrow> pport" where
  "discharge6 clk p = (if data_falloff_bit6 p \<and> data_set_clk_bit6 p < clk
     then p\<lparr>data_falloff_bit6 := False, data_set_bit6 := 0\<rparr> else p)"

definition discharge7 :: "clock \<Rightarrow> pport \<Rightarrow> pport" where
  "discharge7 clk p = (if data_falloff_bit7 p \<and> data_set_clk_bit7 p < clk
     then p\<lparr>data_falloff_bit7 := False, data_set_bit7 := 0\<rparr> else p)"

definition clk_overflow_callback :: "clock \<Rightarrow> 'x c64 \<Rightarrow> 'x c64" where
  "clk_overflow_callback sub g = upd_pport (stmts [
     \<lambda>p. if data_set_clk_bit6 p > 0 then p\<lparr>data_set_clk_bit6 := data_set_clk_bit6 p - sub\<rparr> else p,
     discharge6 (maincpu_clk g),
     \<lambda>p. if data_set_clk_bit7 p > 0 then p\<lparr>data_set_clk_bit7 := data_set_clk_bit7 p - sub\<rparr> else p,
     discharge7 (maincpu_clk g)]) g"

section \<open>Translation of addresses for the opcode fetch\<close>

text \<open>Pointers are numbers for the CPU; 0 is the null pointer.\<close>

definition base_token :: "base_ptr \<Rightarrow> nat" where
  "base_token p = (case p of BNull \<Rightarrow> 0 | Mem_ram \<Rightarrow> 1 | Mem_chargen_rom \<Rightarrow> 2 | Basic64_rom \<Rightarrow> 3 | Kernal64_trap_rom \<Rightarrow> 4)"

text \<open>
  The byte at offset \<open>a\<close> of such a pointer; the ROM pointers are offset by the address they are mapped to.
  Outside the arrays, where C has no value, it is that of the index modulo the size.
\<close>

definition c64_bank_byte :: "'x c64 \<Rightarrow> nat \<Rightarrow> u32 \<Rightarrow> u8" where
  "c64_bank_byte g b a = (let d = dev g; i = (ucast a :: u16) in
     if b = base_token Mem_ram then mem_ram g i
     else if b = base_token Mem_chargen_rom then mem_chargen_rom d ((i - 0xd000) AND 0xfff)
     else if b = base_token Basic64_rom then basic64_rom d ((i - 0xa000) AND 0x1fff)
     else if b = base_token Kernal64_trap_rom then kernal64_trap_rom d ((i - 0xe000) AND 0x1fff)
     else 0)"

text \<open>\<open>cartridge_mmu_translate\<close> without HAVE_RAWNET: slot 0, slot 1, then the main slot by the type of the cartridge.\<close>

definition mmu_main_slot :: "int list" where
  "mmu_main_slot = [30, 3, - 2, - 3, 2, 4, - 6, 9, 32, 60, 39, 36, 20]"

definition cartridge_mmu_translate :: "'x c64_hooks \<Rightarrow> 'x c64 \<Rightarrow> u32 \<Rightarrow> nat \<times> int \<times> int" where
  "cartridge_mmu_translate h g addr = (
     let on = device_enabled (dev g); ask = (\<lambda>dv. device_mmu_translate h dv g addr);
         slot0 = (if on Mmc64 then Some (ask Mmc64) else if on Magicvoice then Some (ask Magicvoice)
           else if on Tpi then Some (ask Tpi) else None);
         rest = (if on Isepic then snd (ask Isepic) else if on Expert then snd (ask Expert)
           else if on Ramcart then snd (ask Ramcart) else if on Dqbb then snd (ask Dqbb)
           else if mem_cartridge_type (dev g) \<in> set mmu_main_slot then snd (ask (Main_slot (mem_cartridge_type (dev g))))
           else (0, 0, 0))
     in case slot0 of
          Some (CART_READ_VALID, t) \<Rightarrow> t
        | Some (CART_READ_C64MEM, t) \<Rightarrow> (0, 0, 0)
        | _ \<Rightarrow> rest)"

definition c64_mmu_translate :: "'x c64_hooks \<Rightarrow> 'x c64 \<Rightarrow> u32 \<Rightarrow> nat \<times> int \<times> int" where
  "c64_mmu_translate h g addr = (
     let d = dev g;
         page = unat (drop_bit 8 addr);
         p = t_base (tabs d) (read_base_tab_ptr d) page
     in if p \<noteq> BNull \<and> addr > 1
        then (let limits = t_limit (tabs d) (read_limit_tab_ptr d) page
              in (base_token p, uint (drop_bit 16 limits), uint (limits AND 0xffff)))
        else cartridge_mmu_translate h g addr)"

definition maincpu_resync_limits :: "'x c64_hooks \<Rightarrow> 'x c64 \<Rightarrow> 'x c64" where
  "maincpu_resync_limits h g =
     (if \<not> o_bank_set (dev g) then g
      else if unat (drop_bit 8 (reg_pc g)) \<ge> MEM_TAB_SIZE then faulty g
      else let (b, st, li) = c64_mmu_translate h g (reg_pc g)
           in g\<lparr>bank_base := b, bank_start := st, bank_limit := li\<rparr>)"

section \<open>Configuration\<close>

definition pla_config :: "pport \<Rightarrow> u8 \<Rightarrow> u8 \<Rightarrow> nat" where
  "pla_config p exrom game =
     unat ((ucast ((NOT (pp_dir p) OR pp_data p) AND 0x7) OR push_bit 3 (ucast exrom) OR push_bit 4 (ucast game)) :: u32)"

definition set_table_ptrs :: "'x c64dev \<Rightarrow> 'x c64dev" where
  "set_table_ptrs d =
     (if watchpoints_active d then d\<lparr>read_tab_ptr := Read_watch, write_tab_ptr := Write_watch\<rparr>
      else d\<lparr>read_tab_ptr := Read_row (mem_config d), write_tab_ptr := Write_row (vbank d) (mem_config d)\<rparr>)"

definition mem_pla_config_changed :: "'x c64_hooks \<Rightarrow> 'x c64 \<Rightarrow> 'x c64" where
  "mem_pla_config_changed h = stmts [
     upd_dev (\<lambda>d. d\<lparr>mem_config := pla_config (pport d) (export_exrom d) (export_game d)\<rparr>),
     \<lambda>g. c64pla_config_changed h (tape_sense (dev g)) (tape_write_in (dev g)) (tape_motor_in (dev g)) 1 0x17 g,
     \<lambda>g. if mem_config (dev g) \<ge> NUM_CONFIGS then faulty g else g,
     upd_dev set_table_ptrs,
     upd_dev (\<lambda>d. d\<lparr>read_base_tab_ptr := mem_config d, read_limit_tab_ptr := mem_config d\<rparr>),
     maincpu_resync_limits h]"

definition mem_toggle_watchpoints :: "bool \<Rightarrow> 'x c64 \<Rightarrow> 'x c64" where
  "mem_toggle_watchpoints flag = upd_dev (\<lambda>d. (set_table_ptrs (d\<lparr>watchpoints_active := flag\<rparr>)))"

definition mem_set_vbank :: "'x c64_hooks \<Rightarrow> nat \<Rightarrow> 'x c64 \<Rightarrow> 'x c64" where
  "mem_set_vbank h new_vbank = stmts [
     upd_dev (\<lambda>d. let d = d\<lparr>vbank := new_vbank\<rparr> in
       if write_tab_ptr d \<noteq> Write_watch then d\<lparr>write_tab_ptr := Write_row new_vbank (mem_config d)\<rparr> else d),
     vicii_set_vbank h new_vbank]"

definition mem_set_tape_sense :: "'x c64_hooks \<Rightarrow> int \<Rightarrow> 'x c64 \<Rightarrow> 'x c64" where
  "mem_set_tape_sense h sense = stmts [upd_dev (\<lambda>d. d\<lparr>tape_sense := sense\<rparr>), mem_pla_config_changed h]"

definition mem_set_tape_write_in :: "'x c64_hooks \<Rightarrow> int \<Rightarrow> 'x c64 \<Rightarrow> 'x c64" where
  "mem_set_tape_write_in h val = stmts [upd_dev (\<lambda>d. d\<lparr>tape_write_in := val\<rparr>), mem_pla_config_changed h]"

definition mem_set_tape_motor_in :: "'x c64_hooks \<Rightarrow> int \<Rightarrow> 'x c64 \<Rightarrow> 'x c64" where
  "mem_set_tape_motor_in h val = stmts [upd_dev (\<lambda>d. d\<lparr>tape_motor_in := val\<rparr>), mem_pla_config_changed h]"

section \<open>Handlers\<close>

text \<open>\<open>vicii_local_store_vbank\<close>: the VIC-II catches up before a store into the video bank. \<open>n\<close> bounds the loop.\<close>

definition phi2_poke :: "'x c64_hooks \<Rightarrow> u16 \<Rightarrow> u8 \<Rightarrow> 'x c64 \<Rightarrow> 'x c64" where
  "phi2_poke h a v g = (if ram_base_phi2 (vic (dev g)) = base_token Mem_ram then poke_ram a v g
     else phi2_store h (ram_base_phi2 (vic (dev g))) a v g)"

definition write_clk :: "'x c64 \<Rightarrow> clock" where
  "write_clk g = maincpu_clk g - word_of_int (maincpu_rmw_flag g) - 1"

text \<open>The body of \<open>vicii_delay_clk\<close> is compiled out.\<close>

definition vicii_delay_clk :: "'x c64 \<Rightarrow> 'x c64" where "vicii_delay_clk g = g"

definition delay_viciie :: "'x c64 \<Rightarrow> 'x c64" where
  "delay_viciie g = (if viciie (vic (dev g)) then vicii_delay_clk g else g)"

definition vbank_fetch :: "'x c64_hooks \<Rightarrow> u16 \<Rightarrow> u8 \<Rightarrow> 'x c64 \<Rightarrow> 'x c64" where
  "vbank_fetch h a v g = (let mclk = write_clk g in stmts [
     \<lambda>g. if mclk = fetch_clk (vic (dev g)) then phi2_poke h a v g else g,
     \<lambda>g. if fetch_idx (vic (dev g)) = VICII_CHECK_SPRITE_DMA
          then upd_vic (\<lambda>w. w\<lparr>store_clk := mclk, store_value := v, store_addr := a\<rparr>) g else g,
     \<lambda>g. vicii_fetch_alarm_handler h (maincpu_clk g - fetch_clk (vic (dev g))) g,
     upd_vic (\<lambda>w. w\<lparr>store_clk := CLOCK_MAX\<rparr>)] g)"

fun vbank_catch_up :: "'x c64_hooks \<Rightarrow> nat \<Rightarrow> u16 \<Rightarrow> u8 \<Rightarrow> 'x c64 \<Rightarrow> 'x c64" where
  "vbank_catch_up h n a v g = (
     let due = write_clk g \<ge> fetch_clk (vic (dev g));
         g1 = (if due then vbank_fetch h a v g else g);
         draw = write_clk g1 \<ge> draw_clk (vic (dev g1));
         g2 = delay_viciie (if draw then vicii_raster_draw_alarm_handler h 0 g1 else g1)
     in if \<not> (due \<or> draw) then g2
        else case n of 0 \<Rightarrow> faulty g2 | Suc k \<Rightarrow> vbank_catch_up h k a v g2)"

declare vbank_catch_up.simps [simp del]

definition vicii_mem_vbank_store :: "'x c64_hooks \<Rightarrow> u16 \<Rightarrow> u8 \<Rightarrow> 'x c64 \<Rightarrow> 'x c64" where
  "vicii_mem_vbank_store h a v = stmts [delay_viciie, vbank_catch_up h (loop_fuel h) a v, phi2_poke h a v]"

definition vicii_mem_vbank_39xx_store :: "'x c64_hooks \<Rightarrow> u16 \<Rightarrow> u8 \<Rightarrow> 'x c64 \<Rightarrow> 'x c64" where
  "vicii_mem_vbank_39xx_store h a v = stmts [vicii_mem_vbank_store h a v,
     if a AND 0x3fff = 0x39ff then idle_store_39ff h v else id]"

definition vicii_mem_vbank_3fxx_store :: "'x c64_hooks \<Rightarrow> u16 \<Rightarrow> u8 \<Rightarrow> 'x c64 \<Rightarrow> 'x c64" where
  "vicii_mem_vbank_3fxx_store h a v = stmts [vicii_mem_vbank_store h a v,
     if a AND 0x3fff = 0x3fff then idle_store_3fff h v else id]"

definition zero_read :: "'x c64_hooks \<Rightarrow> u16 \<Rightarrow> 'x c64 \<Rightarrow> u8 \<times> 'x c64" where
  "zero_read h addr g = (
     let addr = addr AND 0xff
     in if addr = 0 then (pp_dir_read (pport (dev g)), g)
        else if addr = 1 then
          (let r = pp_data_read (pport (dev g));
               g = upd_pport (\<lambda>p. discharge7 (maincpu_clk g) (discharge6 (maincpu_clk g) p)) g;
               p = pport (dev g);
               r = (if \<not> truth (pp_dir_read p AND 0x40) then (r AND NOT 0x40) OR data_set_bit6 p else r);
               r = (if \<not> truth (pp_dir_read p AND 0x80) then (r AND NOT 0x80) OR data_set_bit7 p else r)
           in (r, g))
        else if c64_256k_enabled (dev g) then ext_read h (C64_256k_read 0) addr g
        else if plus256k_enabled (dev g) then ext_read h Plus256k_low_read addr g
        else (mem_ram g (addr AND 0xff), g))"

text \<open>The write to the RAM below the port: with the bank of the VIC-II at 0 it goes through the VIC-II.\<close>

definition vbank0_store :: "'x c64_hooks \<Rightarrow> 'x c64dev \<Rightarrow> u16 \<Rightarrow> u8 \<Rightarrow> 'x c64 \<Rightarrow> 'x c64" where
  "vbank0_store h d addr v g =
     (if c64_256k_enabled d then ext_store h (C64_256k_store 0) addr v g
      else if plus256k_enabled d then ext_store h Plus256k_low_store addr v g
      else vicii_mem_vbank_store h addr v g)"

definition below_port_store :: "'x c64_hooks \<Rightarrow> u16 \<Rightarrow> 'x c64 \<Rightarrow> 'x c64" where
  "below_port_store h addr g =
     (if vbank (dev g) = 0 then (let (b, g') = vicii_read_phi1_lowlevel h g in vbank0_store h (dev g) addr b g')
      else (let (b, g) = vicii_read_phi1_lowlevel h g; g = poke_ram addr b g
            in machine_handle_pending_alarms h (maincpu_rmw_flag g + 1) g))"

definition charge6 :: "clock \<Rightarrow> u8 \<Rightarrow> pport \<Rightarrow> pport" where
  "charge6 clk v p = p\<lparr>data_set_clk_bit6 := clk + C64_CPU6510_DATA_PORT_FALL_OFF_CYCLES, data_set_bit6 := v AND 0x40,
     data_falloff_bit6 := True\<rparr>"

definition charge7 :: "clock \<Rightarrow> u8 \<Rightarrow> pport \<Rightarrow> pport" where
  "charge7 clk v p = p\<lparr>data_set_clk_bit7 := clk + C64_CPU6510_DATA_PORT_FALL_OFF_CYCLES, data_set_bit7 := v AND 0x80,
     data_falloff_bit7 := True\<rparr>"

definition zero_store :: "'x c64_hooks \<Rightarrow> u16 \<Rightarrow> u8 \<Rightarrow> 'x c64 \<Rightarrow> 'x c64" where
  "zero_store h addr value = (
     let addr = addr AND 0xff
     in if addr = 0 then stmts [
          below_port_store h 0,
          \<lambda>g. upd_pport (\<lambda>p. if truth (pp_dir p AND 0x40) \<and> truth ((pp_dir p XOR value) AND 0x40)
                             then charge6 (maincpu_clk g) (pp_data p) p else p) g,
          \<lambda>g. upd_pport (\<lambda>p. if truth (pp_dir p AND 0x80) \<and> truth ((pp_dir p XOR value) AND 0x80)
                             then charge7 (maincpu_clk g) (pp_data p) p else p) g,
          \<lambda>g. if pp_dir (pport (dev g)) \<noteq> value
               then mem_pla_config_changed h (upd_pport (\<lambda>p. p\<lparr>pp_dir := value\<rparr>) g) else g]
        else if addr = 1 then stmts [
          below_port_store h 1,
          \<lambda>g. upd_pport (\<lambda>p. if truth (pp_dir p AND 0x80) then charge7 (maincpu_clk g) value p else p) g,
          \<lambda>g. upd_pport (\<lambda>p. if truth (pp_dir p AND 0x40) then charge6 (maincpu_clk g) value p else p) g,
          \<lambda>g. if pp_data (pport (dev g)) \<noteq> value
               then mem_pla_config_changed h (upd_pport (\<lambda>p. p\<lparr>pp_data := value\<rparr>) g) else g]
        else (\<lambda>g. if vbank (dev g) = 0 then vbank0_store h (dev g) addr value g else poke_ram addr value g))"

definition ram_hi_store :: "'x c64_hooks \<Rightarrow> u16 \<Rightarrow> u8 \<Rightarrow> 'x c64 \<Rightarrow> 'x c64" where
  "ram_hi_store h addr value = stmts [
     \<lambda>g. if vbank (dev g) = 3 then vicii_mem_vbank_3fxx_store h addr value g else poke_ram addr value g,
     if addr = 0xff00 then reu_dma h (- 1) else id]"

definition colorram_read :: "'x c64_hooks \<Rightarrow> u16 \<Rightarrow> 'x c64 \<Rightarrow> u8 \<times> 'x c64" where
  "colorram_read h addr g = (let v = mem_color_ram (dev g) (addr AND 0x3ff); (b, g) = vicii_read_phi1 h g
     in (v OR (b AND 0xf0), g))"

definition colorram_store :: "u16 \<Rightarrow> u8 \<Rightarrow> 'x c64 \<Rightarrow> 'x c64" where
  "colorram_store addr value = upd_dev (\<lambda>d. d\<lparr>mem_color_ram := (mem_color_ram d)(addr AND 0x3ff := value AND 0xf)\<rparr>)"

text \<open>Calls through the tables. A null pointer is a fault; the chips, cartridges and expansions answer by hooks.\<close>

definition read_handler :: "'x c64_hooks \<Rightarrow> read_func \<Rightarrow> u16 \<Rightarrow> 'x c64 \<Rightarrow> u8 \<times> 'x c64" where
  "read_handler h f addr g = (case f of
     RNull \<Rightarrow> (0, faulty g)
   | Zero_read \<Rightarrow> zero_read h addr g
   | Ram_read \<Rightarrow> (mem_ram g addr, g)
   | Void_read \<Rightarrow> vicii_read_phi1 h g
   | Chargen_read \<Rightarrow> (mem_chargen_rom (dev g) (addr AND 0xfff), g)
   | Basic64_read \<Rightarrow> (basic64_rom (dev g) (addr AND 0x1fff), g)
   | Kernal64_read \<Rightarrow> (kernal64_rom (dev g) (addr AND 0x1fff), g)
   | Colorram_read \<Rightarrow> colorram_read h addr g
   | _ \<Rightarrow> ext_read h f addr g)"

definition store_handler :: "'x c64_hooks \<Rightarrow> store_func \<Rightarrow> u16 \<Rightarrow> u8 \<Rightarrow> 'x c64 \<Rightarrow> 'x c64" where
  "store_handler h f addr value g = (case f of
     SNull \<Rightarrow> faulty g
   | Zero_store \<Rightarrow> zero_store h addr value g
   | Ram_store \<Rightarrow> poke_ram addr value g
   | Void_store \<Rightarrow> g
   | Ram_hi_store \<Rightarrow> ram_hi_store h addr value g
   | Vbank_store \<Rightarrow> vicii_mem_vbank_store h addr value g
   | Vbank_39xx_store \<Rightarrow> vicii_mem_vbank_39xx_store h addr value g
   | Vbank_3fxx_store \<Rightarrow> vicii_mem_vbank_3fxx_store h addr value g
   | Colorram_store \<Rightarrow> colorram_store addr value g
   | _ \<Rightarrow> ext_store h f addr value g)"

definition page_of :: "u16 \<Rightarrow> nat" where "page_of addr = unat (drop_bit 8 addr)"

definition row_read :: "'x c64_hooks \<Rightarrow> nat \<Rightarrow> nat \<Rightarrow> u16 \<Rightarrow> 'x c64 \<Rightarrow> u8 \<times> 'x c64" where
  "row_read h c page addr g = read_handler h (t_read (tabs (dev g)) c page) addr g"

definition row_store :: "'x c64_hooks \<Rightarrow> nat \<Rightarrow> nat \<Rightarrow> nat \<Rightarrow> u16 \<Rightarrow> u8 \<Rightarrow> 'x c64 \<Rightarrow> 'x c64" where
  "row_store h k c page addr value g = store_handler h (t_write (tabs (dev g)) k c page) addr value g"

section \<open>Access through the current tables\<close>

definition table_read :: "'x c64_hooks \<Rightarrow> 'x c64 \<Rightarrow> nat \<Rightarrow> u16 \<Rightarrow> u8 \<times> 'x c64" where
  "table_read h g page addr = (case read_tab_ptr (dev g) of
     Read_row c \<Rightarrow> row_read h c page addr g
   | Read_watch \<Rightarrow>
       (if page = 0 then
          (let addr = addr AND 0xff; g = monitor_watch_push_load_addr h addr g in row_read h (mem_config (dev g)) 0 addr g)
        else (let g = monitor_watch_push_load_addr h addr g in row_read h (mem_config (dev g)) (page_of addr) addr g)))"

definition table_store :: "'x c64_hooks \<Rightarrow> 'x c64 \<Rightarrow> nat \<Rightarrow> u16 \<Rightarrow> u8 \<Rightarrow> 'x c64" where
  "table_store h g page addr value = (case write_tab_ptr (dev g) of
     Write_row k c \<Rightarrow> row_store h k c page addr value g
   | Write_watch \<Rightarrow>
       (if page = 0 then
          (let addr = addr AND 0xff; g = monitor_watch_push_store_addr h addr g
           in row_store h (vbank (dev g)) (mem_config (dev g)) 0 addr value g)
        else (let g = monitor_watch_push_store_addr h addr g
              in row_store h (vbank (dev g)) (mem_config (dev g)) (page_of addr) addr value g)))"

definition mem_read :: "'x c64_hooks \<Rightarrow> u16 \<Rightarrow> 'x c64 \<Rightarrow> u8 \<times> 'x c64" where
  "mem_read h addr g = table_read h g (page_of addr) addr"

definition mem_store :: "'x c64_hooks \<Rightarrow> u16 \<Rightarrow> u8 \<Rightarrow> 'x c64 \<Rightarrow> 'x c64" where
  "mem_store h addr value g = table_store h g (page_of addr) addr value"

definition mem_store_without_ultimax :: "'x c64_hooks \<Rightarrow> u16 \<Rightarrow> u8 \<Rightarrow> 'x c64 \<Rightarrow> 'x c64" where
  "mem_store_without_ultimax h addr value g = row_store h (vbank (dev g)) (mem_config (dev g) mod 8) (page_of addr) addr value g"

definition mem_read_without_ultimax :: "'x c64_hooks \<Rightarrow> u16 \<Rightarrow> 'x c64 \<Rightarrow> u8 \<times> 'x c64" where
  "mem_read_without_ultimax h addr g = row_read h (mem_config (dev g) mod 8) (page_of addr) addr g"

definition mem_store_without_romlh :: "'x c64_hooks \<Rightarrow> u16 \<Rightarrow> u8 \<Rightarrow> 'x c64 \<Rightarrow> 'x c64" where
  "mem_store_without_romlh h addr value g = row_store h (vbank (dev g)) 0 (page_of addr) addr value g"

section \<open>Power-up\<close>

definition mem_initialize_memory :: "'x c64_hooks \<Rightarrow> nat \<Rightarrow> 'x c64 \<Rightarrow> 'x c64" where
  "mem_initialize_memory h board = stmts [
     upd_dev (\<lambda>d. d\<lparr>tabs := mem_initialize_tabs board (tabs d)\<rparr>),
     upd_dev (\<lambda>d. d\<lparr>read_tab_ptr := Read_row 7, write_tab_ptr := Write_row (vbank d) 7, read_base_tab_ptr := 7, read_limit_tab_ptr := 7\<rparr>),
     vicii_set_chargen_addr_options h 0x7000 0x1000,
     upd_pport c64pla_pport_reset,
     upd_dev (\<lambda>d. d\<lparr>export_exrom := 0, export_game := 0\<rparr>),
     mem_pla_config_changed h,
     cartridge_init_config h,
     upd_dev (\<lambda>d. d\<lparr>tabs := plus60k_init_config (plus60k_enabled d) (tabs d)\<rparr>),
     upd_dev (\<lambda>d. d\<lparr>tabs := plus256k_init_config (plus256k_enabled d) (tabs d)\<rparr>),
     upd_dev (\<lambda>d. d\<lparr>tabs := c64_256k_init_config (c64_256k_enabled d) (tabs d)\<rparr>),
     if board = 1 then upd_dev (\<lambda>d. d\<lparr>tabs := mem_limit_max_init (tabs d)\<rparr>) else id]"

section \<open>ROMs\<close>

definition c64memrom_kernal64_store :: "u16 \<Rightarrow> u8 \<Rightarrow> 'x c64 \<Rightarrow> 'x c64" where
  "c64memrom_kernal64_store addr value = upd_dev (\<lambda>d. d\<lparr>kernal64_rom := (kernal64_rom d)(addr AND 0x1fff := value)\<rparr>)"

definition c64memrom_basic64_store :: "u16 \<Rightarrow> u8 \<Rightarrow> 'x c64 \<Rightarrow> 'x c64" where
  "c64memrom_basic64_store addr value = upd_dev (\<lambda>d. d\<lparr>basic64_rom := (basic64_rom d)(addr AND 0x1fff := value)\<rparr>)"

definition chargen_store :: "u16 \<Rightarrow> u8 \<Rightarrow> 'x c64 \<Rightarrow> 'x c64" where
  "chargen_store addr value = upd_dev (\<lambda>d. d\<lparr>mem_chargen_rom := (mem_chargen_rom d)(addr AND 0xfff := value)\<rparr>)"

definition c64memrom_trap_read :: "u16 \<Rightarrow> 'x c64 \<Rightarrow> u8" where
  "c64memrom_trap_read addr g =
     (if addr AND 0xf000 \<in> {0xe000, 0xf000} then kernal64_trap_rom (dev g) (addr AND 0x1fff) else 0)"

definition c64memrom_trap_store :: "u16 \<Rightarrow> u8 \<Rightarrow> 'x c64 \<Rightarrow> 'x c64" where
  "c64memrom_trap_store addr value =
     (if addr AND 0xf000 \<in> {0xe000, 0xf000}
      then upd_dev (\<lambda>d. d\<lparr>kernal64_trap_rom := (kernal64_trap_rom d)(addr AND 0x1fff := value)\<rparr>) else id)"

definition c64memrom_rom64_read :: "u16 \<Rightarrow> 'x c64 \<Rightarrow> u8" where
  "c64memrom_rom64_read addr g =
     (if addr AND 0xf000 \<in> {0xa000, 0xb000} then basic64_rom (dev g) (addr AND 0x1fff)
      else if addr AND 0xf000 = 0xd000 then mem_chargen_rom (dev g) (addr AND 0xfff)
      else if addr AND 0xf000 \<in> {0xe000, 0xf000} then kernal64_rom (dev g) (addr AND 0x1fff)
      else 0)"

definition c64memrom_rom64_store :: "u16 \<Rightarrow> u8 \<Rightarrow> 'x c64 \<Rightarrow> 'x c64" where
  "c64memrom_rom64_store addr value =
     (if addr AND 0xf000 \<in> {0xa000, 0xb000} then c64memrom_basic64_store addr value
      else if addr AND 0xf000 = 0xd000 then chargen_store addr value
      else if addr AND 0xf000 \<in> {0xe000, 0xf000} then c64memrom_kernal64_store addr value
      else id)"

definition c64_rom_trap_allowed :: "u16 \<Rightarrow> 'x c64 \<Rightarrow> bool" where
  "c64_rom_trap_allowed addr g \<longleftrightarrow> addr \<ge> 0xe000 \<and> mem_config (dev g) \<in> {2, 3, 6, 7, 10, 11, 14, 15, 26, 27, 30, 31}"

section \<open>Direct access\<close>

definition mem_get_basic_text :: "'x c64 \<Rightarrow> u16 \<times> u16" where
  "mem_get_basic_text g =
     (ucast (mem_ram g 0x2b) OR push_bit 8 (ucast (mem_ram g 0x2c)), ucast (mem_ram g 0x2d) OR push_bit 8 (ucast (mem_ram g 0x2e)))"

definition mem_set_basic_text :: "u16 \<Rightarrow> u16 \<Rightarrow> 'x c64 \<Rightarrow> 'x c64" where
  "mem_set_basic_text start end' = (
     let lo = (\<lambda>w. ucast (w AND 0xff)); hi = (\<lambda>w. ucast (drop_bit 8 w)) in stmts [
     poke_ram 0xac (lo start), poke_ram 0x2b (lo start),
     poke_ram 0xad (hi start), poke_ram 0x2c (hi start),
     poke_ram 0xae (lo end'), poke_ram 0x31 (lo end'), poke_ram 0x2f (lo end'), poke_ram 0x2d (lo end'),
     poke_ram 0xaf (hi end'), poke_ram 0x32 (hi end'), poke_ram 0x30 (hi end'), poke_ram 0x2e (hi end')])"

definition mem_inject :: "u32 \<Rightarrow> u8 \<Rightarrow> 'x c64 \<Rightarrow> 'x c64" where
  "mem_inject addr value = poke_ram (ucast (addr AND 0xffff)) value"

definition mem_color_ram_to_snapshot :: "'x c64 \<Rightarrow> u8 list" where
  "mem_color_ram_to_snapshot g = map (\<lambda>i. mem_color_ram (dev g) (of_nat i)) [0..<0x400]"

definition mem_color_ram_from_snapshot :: "u8 list \<Rightarrow> 'x c64 \<Rightarrow> 'x c64" where
  "mem_color_ram_from_snapshot color_ram = upd_dev (\<lambda>d. d\<lparr>mem_color_ram :=
     (\<lambda>a. if unat a < 0x400 then color_ram ! unat a else mem_color_ram d a)\<rparr>)"

text \<open>\<open>mem_get_screen_parameter\<close>: the address of the text screen, its rows and columns, and the bank it is read from.\<close>

definition mem_get_screen_parameter :: "'x c64_hooks \<Rightarrow> 'x c64 \<Rightarrow> u16 \<times> u8 \<times> u8 \<times> int" where
  "mem_get_screen_parameter h g =
     (push_bit 6 (ucast (vicii_peek h 0xd018 g AND 0xf0)) OR push_bit 14 (ucast (NOT (cia2_peek h 0xdd00 g) AND 0x03)), 25, 40, 0)"

section \<open>Banks of the monitor\<close>

definition banknames :: "string list" where
  "banknames = [''default'', ''cpu'', ''ram'', ''rom'', ''io'', ''cart'']"

definition banknums :: "int list" where
  "banknums = [1, 0, 1, 2, 3, 4]"

fun bank_lookup :: "string list \<Rightarrow> int list \<Rightarrow> string \<Rightarrow> int" where
  "bank_lookup (n # ns) (k # ks) name = (if n = name then k else bank_lookup ns ks name)"
| "bank_lookup _ _ name = - 1"

definition mem_bank_from_name :: "string \<Rightarrow> int" where
  "mem_bank_from_name name = bank_lookup banknames banknums name"

definition io_page_read :: "nat \<Rightarrow> read_func" where
  "io_page_read p = (if p \<in> {0xd8, 0xd9, 0xda, 0xdb} then Colorram_read else if p = 0xdc then Cia1_read
     else if p = 0xdd then Cia2_read else C64io_read p)"

definition io_page_store :: "nat \<Rightarrow> store_func" where
  "io_page_store p = (if p \<in> {0xd8, 0xd9, 0xda, 0xdb} then Colorram_store else if p = 0xdc then Cia1_store
     else if p = 0xdd then Cia2_store else C64io_store p)"

definition store_bank_io :: "'x c64_hooks \<Rightarrow> u16 \<Rightarrow> u8 \<Rightarrow> 'x c64 \<Rightarrow> 'x c64" where
  "store_bank_io h addr byte g = (if page_of addr \<in> {0xd0..0xdf} then store_handler h (io_page_store (page_of addr)) addr byte g else g)"

definition read_bank_io :: "'x c64_hooks \<Rightarrow> u16 \<Rightarrow> 'x c64 \<Rightarrow> u8 \<times> 'x c64" where
  "read_bank_io h addr g = (if page_of addr \<in> {0xd0..0xdf} then read_handler h (io_page_read (page_of addr)) addr g else (0xff, g))"

definition peek_bank_io :: "'x c64_hooks \<Rightarrow> u16 \<Rightarrow> 'x c64 \<Rightarrow> u8 \<times> 'x c64" where
  "peek_bank_io h addr g = (if page_of addr \<in> {0xd8, 0xd9, 0xda, 0xdb} then colorram_read h addr g
     else if page_of addr \<in> {0xd0..0xdf} then ext_peek h (io_page_read (page_of addr)) addr g else (0xff, g))"

definition rom_bank_read :: "u16 \<Rightarrow> 'x c64 \<Rightarrow> u8" where
  "rom_bank_read addr g =
     (if addr \<ge> 0xa000 \<and> addr \<le> 0xbfff then basic64_rom (dev g) (addr AND 0x1fff)
      else if addr \<ge> 0xd000 \<and> addr \<le> 0xdfff then mem_chargen_rom (dev g) (addr AND 0x0fff)
      else if addr \<ge> 0xe000 then kernal64_rom (dev g) (addr AND 0x1fff)
      else mem_ram g addr)"

definition mem_bank_read :: "'x c64_hooks \<Rightarrow> int \<Rightarrow> u16 \<Rightarrow> 'x c64 \<Rightarrow> u8 \<times> 'x c64" where
  "mem_bank_read h bank addr g =
     (if bank = 0 then mem_read h addr g
      else if bank = 3 \<and> addr \<ge> 0xd000 \<and> addr < 0xe000 then read_bank_io h addr g
      else if bank = 3 \<or> bank = 4 then cartridge_peek_mem h addr g
      else if bank = 2 then (rom_bank_read addr g, g)
      else (mem_ram g addr, g))"

definition mem_bank_peek :: "'x c64_hooks \<Rightarrow> int \<Rightarrow> u16 \<Rightarrow> 'x c64 \<Rightarrow> u8 \<times> 'x c64" where
  "mem_bank_peek h bank addr g =
     (if bank = 0 then
        (if c64meminit_io_config ! mem_config (dev g) \<noteq> 0 \<and> addr \<ge> 0xd000 \<and> addr < 0xe000 then peek_bank_io h addr g
         else mem_read h addr g)
      else if bank = 3 \<and> addr \<ge> 0xd000 \<and> addr < 0xe000 then peek_bank_io h addr g
      else if bank = 4 then cartridge_peek_mem h addr g
      else mem_bank_read h bank addr g)"

definition mem_bank_write :: "'x c64_hooks \<Rightarrow> int \<Rightarrow> u16 \<Rightarrow> u8 \<Rightarrow> 'x c64 \<Rightarrow> 'x c64" where
  "mem_bank_write h bank addr byte g =
     (if bank = 0 then mem_store h addr byte g
      else if bank = 3 \<and> addr \<ge> 0xd000 \<and> addr < 0xe000 then store_bank_io h addr byte g
      else if (bank = 3 \<or> bank = 2) \<and> (addr \<ge> 0xa000 \<and> addr \<le> 0xbfff \<or> addr \<ge> 0xd000 \<and> addr \<le> 0xdfff \<or> addr \<ge> 0xe000) then g
      else poke_ram addr byte g)"

end
