(* ===== verification/C64Maps.thy ===== *)
theory C64Maps
  imports C64Tables
begin

text \<open>
  The tables of C64Tables in closed form: for every loop and block of the initialisation, what it leaves in the entry of
  a configuration and a page. The rules are collected in \<open>entry\<close>.
\<close>

named_theorems entry \<open>the entry of a table after an assignment\<close>

lemma set_entries [entry]:
  "t_read (mem_read_tab_set b i f T) c p = (if c = b \<and> p = i then f else t_read T c p)"
  "t_base (mem_read_tab_set b i f T) c p = t_base T c p"
  "t_write (mem_read_tab_set b i f T) k c p = t_write T k c p"
  "t_limit (mem_read_tab_set b i f T) c p = t_limit T c p"
  "t_read (mem_read_base_set b i q T) c p = t_read T c p"
  "t_base (mem_read_base_set b i q T) c p = (if c = b \<and> p = i then q else t_base T c p)"
  "t_write (mem_read_base_set b i q T) k c p = t_write T k c p"
  "t_limit (mem_read_base_set b i q T) c p = t_limit T c p"
  "t_read (write_tab_set l b i g T) c p = t_read T c p"
  "t_base (write_tab_set l b i g T) c p = t_base T c p"
  "t_write (write_tab_set l b i g T) k c p = (if k = l \<and> c = b \<and> p = i then g else t_write T k c p)"
  "t_limit (write_tab_set l b i g T) c p = t_limit T c p"
  "t_read (limit_set b i v T) c p = t_read T c p"
  "t_base (limit_set b i v T) c p = t_base T c p"
  "t_write (limit_set b i v T) k c p = t_write T k c p"
  "t_limit (limit_set b i v T) c p = (if c = b \<and> p = i then v else t_limit T c p)"
  by (auto simp: mem_read_tab_set_def mem_read_base_set_def write_tab_set_def limit_set_def)

lemma for_to_at:
  assumes "\<And>i T. a \<le> i \<Longrightarrow> i \<le> b \<Longrightarrow> R (f i T) = (if i = k \<and> Q then v else R T)"
  shows "R (for_to a b f T) = (if a \<le> k \<and> k \<le> b \<and> Q then v else R T)"
proof -
  have "R (fold f [a..<Suc b] T) = (if k \<in> set [a..<Suc b] \<and> Q then v else R T)"
    by (rule fold_at) (rule assms; auto)
  then show ?thesis by (auto simp: for_to_def)
qed

lemma fold_range:
  assumes "\<And>i T. a \<le> i \<Longrightarrow> i < b \<Longrightarrow> R (f i T) = (if i = k \<and> Q then v else R T)"
  shows "R (fold f [a..<b] T) = (if a \<le> k \<and> k < b \<and> Q then v else R T)"
proof -
  have "R (fold f [a..<b] T) = (if k \<in> set [a..<b] \<and> Q then v else R T)"
    by (rule fold_at) (rule assms; simp only: set_upt atLeastLessThan_iff)
  then show ?thesis by (simp only: set_upt atLeastLessThan_iff conj_assoc)
qed

lemma for_to_frame:
  assumes "\<And>i T. R (f i T) = R T"
  shows "R (for_to a b f T) = R T"
  unfolding for_to_def by (rule fold_frame) (rule assms)

lemma write_hook [entry]:
  "t_read (mem_set_write_hook b i f T) c p = t_read T c p"
  "t_base (mem_set_write_hook b i f T) c p = t_base T c p"
  "t_limit (mem_set_write_hook b i f T) c p = t_limit T c p"
  "t_write (mem_set_write_hook b i f T) k c p = (if k < 4 \<and> c = b \<and> p = i then f else t_write T k c p)"
proof -
  show "t_read (mem_set_write_hook b i f T) c p = t_read T c p" "t_base (mem_set_write_hook b i f T) c p = t_base T c p"
    "t_limit (mem_set_write_hook b i f T) c p = t_limit T c p"
    unfolding mem_set_write_hook_def by (rule fold_frame; simp add: entry)+
  have "t_write (mem_set_write_hook b i f T) k c p = (if k \<in> set [0..<NUM_VBANKS] \<and> c = b \<and> p = i then f else t_write T k c p)"
    unfolding mem_set_write_hook_def by (rule fold_at [where R = "\<lambda>T. t_write T k c p"]) (auto simp add: entry)
  then show "t_write (mem_set_write_hook b i f T) k c p = (if k < 4 \<and> c = b \<and> p = i then f else t_write T k c p)"
    by (simp add: NUM_VBANKS_def)
qed

lemma fold_reads [entry]:
  "t_read (fold (\<lambda>c. mem_read_tab_set c i f) cs T) c p = (if c \<in> set cs \<and> p = i then f else t_read T c p)"
  by (rule fold_at [where R = "\<lambda>T. t_read T c p"]) (auto simp: entry)

lemma fold_reads_frame [entry]:
  "t_base (fold (\<lambda>c. mem_read_tab_set c i f) cs T) c p = t_base T c p"
  "t_write (fold (\<lambda>c. mem_read_tab_set c i f) cs T) k c p = t_write T k c p"
  "t_limit (fold (\<lambda>c. mem_read_tab_set c i f) cs T) c p = t_limit T c p"
  by (rule fold_frame; simp add: entry)+

lemma fold_bases [entry]:
  "t_base (fold (\<lambda>c. mem_read_base_set c i q) cs T) c p = (if c \<in> set cs \<and> p = i then q else t_base T c p)"
  by (rule fold_at [where R = "\<lambda>T. t_base T c p"]) (auto simp: entry)

lemma fold_bases_frame [entry]:
  "t_read (fold (\<lambda>c. mem_read_base_set c i q) cs T) c p = t_read T c p"
  "t_write (fold (\<lambda>c. mem_read_base_set c i q) cs T) k c p = t_write T k c p"
  "t_limit (fold (\<lambda>c. mem_read_base_set c i q) cs T) c p = t_limit T c p"
  by (rule fold_frame; simp add: entry)+

lemma io_page [entry]:
  "t_read (meminit_io_page b i r w T) c p = (if c = b \<and> p = i then r else t_read T c p)"
  "t_base (meminit_io_page b i r w T) c p = t_base T c p"
  "t_write (meminit_io_page b i r w T) k c p = (if k < 4 \<and> c = b \<and> p = i then w else t_write T k c p)"
  "t_limit (meminit_io_page b i r w T) c p = t_limit T c p"
  by (simp_all add: meminit_io_page_def entry)

text \<open>Loops over pages whose body writes one entry of each table.\<close>

lemma page_loops [entry]:
  "t_read (for_to a b (\<lambda>i. mem_set_write_hook d i w) T) c p = t_read T c p"
  "t_base (for_to a b (\<lambda>i. mem_set_write_hook d i w) T) c p = t_base T c p"
  "t_limit (for_to a b (\<lambda>i. mem_set_write_hook d i w) T) c p = t_limit T c p"
  "t_read (for_to a b (\<lambda>i. mem_read_base_set d i q) T) c p = t_read T c p"
  "t_write (for_to a b (\<lambda>i. mem_read_base_set d i q) T) k c p = t_write T k c p"
  "t_limit (for_to a b (\<lambda>i. mem_read_base_set d i q) T) c p = t_limit T c p"
  "t_base (for_to a b (\<lambda>i. meminit_io_page d i r w) T) c p = t_base T c p"
  "t_limit (for_to a b (\<lambda>i. meminit_io_page d i r w) T) c p = t_limit T c p"
  "t_base (fold (\<lambda>i. meminit_io_page d i (R i) (W i)) ps T) c p = t_base T c p"
  "t_limit (fold (\<lambda>i. meminit_io_page d i (R i) (W i)) ps T) c p = t_limit T c p"
  unfolding for_to_def by (rule fold_frame; simp add: entry)+

lemma page_loops_at [entry]:
  "t_write (for_to a b (\<lambda>i. mem_set_write_hook d i w) T) k c p =
     (if k < 4 \<and> c = d \<and> a \<le> p \<and> p \<le> b then w else t_write T k c p)"
  "t_base (for_to a b (\<lambda>i. mem_read_base_set d i q) T) c p =
     (if c = d \<and> a \<le> p \<and> p \<le> b then q else t_base T c p)"
  "t_read (for_to a b (\<lambda>i. meminit_io_page d i r w) T) c p =
     (if c = d \<and> a \<le> p \<and> p \<le> b then r else t_read T c p)"
  "t_write (for_to a b (\<lambda>i. meminit_io_page d i r w) T) k c p =
     (if k < 4 \<and> c = d \<and> a \<le> p \<and> p \<le> b then w else t_write T k c p)"
  by (rule trans [OF for_to_at [where R = "\<lambda>T. t_write T k c p" and k = p and Q = "k < 4 \<and> c = d"]]
        trans [OF for_to_at [where R = "\<lambda>T. t_base T c p" and k = p and Q = "c = d"]]
        trans [OF for_to_at [where R = "\<lambda>T. t_read T c p" and k = p and Q = "c = d"]]; auto simp: entry)+

lemma io_pages_at:
  "t_read (fold (\<lambda>i. meminit_io_page d i (R i) (W i)) ps T) c p =
     (if c = d \<and> p \<in> set ps then R p else t_read T c p)"
  "t_write (fold (\<lambda>i. meminit_io_page d i (R i) (W i)) ps T) k c p =
     (if k < 4 \<and> c = d \<and> p \<in> set ps then W p else t_write T k c p)"
  by (rule trans [OF fold_at [where R = "\<lambda>T. t_read T c p" and k = p and Q = "c = d"]]
        trans [OF fold_at [where R = "\<lambda>T. t_write T k c p" and k = p and Q = "k < 4 \<and> c = d"]]; auto simp: entry)+

lemma eight_pages: "p \<in> set [0xd0, 0xd1, 0xd2, 0xd3, 0xd4, 0xd5, 0xd6, 0xd7 :: nat] \<longleftrightarrow> 0xd0 \<le> p \<and> p \<le> 0xd7"
  by auto

lemma two_pages: "p \<in> set [0xde, 0xdf :: nat] \<longleftrightarrow> 0xde \<le> p \<and> p \<le> 0xdf"
  by auto

lemmas chip_pages [entry] =
  io_pages_at [of d R W "[0xd0, 0xd1, 0xd2, 0xd3, 0xd4, 0xd5, 0xd6, 0xd7]", unfolded eight_pages]
  io_pages_at [of d R W "[0xde, 0xdf]", unfolded two_pages] for d R W

lemma rom_pages [entry]:
  "t_read (for_to a b (\<lambda>i. stmts [mem_read_tab_set d i r, mem_read_base_set d i q, mem_set_write_hook d i w]) T) c p =
     (if c = d \<and> a \<le> p \<and> p \<le> b then r else t_read T c p)"
  "t_base (for_to a b (\<lambda>i. stmts [mem_read_tab_set d i r, mem_read_base_set d i q, mem_set_write_hook d i w]) T) c p =
     (if c = d \<and> a \<le> p \<and> p \<le> b then q else t_base T c p)"
  "t_write (for_to a b (\<lambda>i. stmts [mem_read_tab_set d i r, mem_read_base_set d i q, mem_set_write_hook d i w]) T) k c p =
     (if k < 4 \<and> c = d \<and> a \<le> p \<and> p \<le> b then w else t_write T k c p)"
  "t_read (for_to a b (\<lambda>i. stmts [mem_read_tab_set d i r, mem_read_base_set d i q]) T) c p =
     (if c = d \<and> a \<le> p \<and> p \<le> b then r else t_read T c p)"
  "t_base (for_to a b (\<lambda>i. stmts [mem_read_tab_set d i r, mem_read_base_set d i q]) T) c p =
     (if c = d \<and> a \<le> p \<and> p \<le> b then q else t_base T c p)"
  "t_read (for_to a b (\<lambda>i. stmts [meminit_io_page d i r w, mem_read_base_set d i q]) T) c p =
     (if c = d \<and> a \<le> p \<and> p \<le> b then r else t_read T c p)"
  "t_base (for_to a b (\<lambda>i. stmts [meminit_io_page d i r w, mem_read_base_set d i q]) T) c p =
     (if c = d \<and> a \<le> p \<and> p \<le> b then q else t_base T c p)"
  "t_write (for_to a b (\<lambda>i. stmts [meminit_io_page d i r w, mem_read_base_set d i q]) T) k c p =
     (if k < 4 \<and> c = d \<and> a \<le> p \<and> p \<le> b then w else t_write T k c p)"
  by (rule trans [OF for_to_at [where R = "\<lambda>T. t_read T c p" and k = p and Q = "c = d"]]
        trans [OF for_to_at [where R = "\<lambda>T. t_base T c p" and k = p and Q = "c = d"]]
        trans [OF for_to_at [where R = "\<lambda>T. t_write T k c p" and k = p and Q = "k < 4 \<and> c = d"]]; auto simp: entry)+

lemma rom_pages_frame [entry]:
  "t_write (for_to a b (\<lambda>i. stmts [mem_read_tab_set d i r, mem_read_base_set d i q]) T) k c p = t_write T k c p"
  "t_limit (for_to a b (\<lambda>i. stmts [mem_read_tab_set d i r, mem_read_base_set d i q, mem_set_write_hook d i w]) T) c p = t_limit T c p"
  "t_limit (for_to a b (\<lambda>i. stmts [mem_read_tab_set d i r, mem_read_base_set d i q]) T) c p = t_limit T c p"
  "t_limit (for_to a b (\<lambda>i. stmts [meminit_io_page d i r w, mem_read_base_set d i q]) T) c p = t_limit T c p"
  by (rule for_to_frame; simp add: entry)+

text \<open>One block of the initialisation: what it writes for configuration \<open>c\<close> and page \<open>p\<close>.\<close>

lemma basic_entries [entry]:
  "t_read (meminit_basic 0 T) c p = (if p \<in> {0xa0..0xbf} \<and> c \<in> {3, 7, 11, 15} then Basic64_read else t_read T c p)"
  "t_base (meminit_basic 0 T) c p = (if p \<in> {0xa0..0xbf} \<and> c \<in> {3, 7, 11, 15} then Basic64_rom else t_base T c p)"
  "t_write (meminit_basic 0 T) k c p = t_write T k c p"
  "t_limit (meminit_basic 0 T) c p = t_limit T c p"
  unfolding meminit_basic_def add_0
  by (rule trans [OF for_to_at [where R = "\<lambda>T. t_read T c p" and k = p and Q = "c \<in> {3, 7, 11, 15}"]]
        trans [OF for_to_at [where R = "\<lambda>T. t_base T c p" and k = p and Q = "c \<in> {3, 7, 11, 15}"]]
        for_to_frame; auto simp add: entry)+

lemma kernal_entries [entry]:
  "t_read (meminit_kernal 0 T) c p = (if p \<in> {0xe0..0xff} \<and> c \<in> {2, 3, 6, 7, 10, 11, 14, 15, 26, 27, 30, 31} then Kernal64_read else t_read T c p)"
  "t_base (meminit_kernal 0 T) c p = (if p \<in> {0xe0..0xff} \<and> c \<in> {2, 3, 6, 7, 10, 11, 14, 15, 26, 27, 30, 31} then Kernal64_trap_rom else t_base T c p)"
  "t_write (meminit_kernal 0 T) k c p = t_write T k c p"
  "t_limit (meminit_kernal 0 T) c p = t_limit T c p"
  unfolding meminit_kernal_def add_0
  by (rule trans [OF for_to_at [where R = "\<lambda>T. t_read T c p" and k = p and Q = "c \<in> {2, 3, 6, 7, 10, 11, 14, 15, 26, 27, 30, 31}"]]
        trans [OF for_to_at [where R = "\<lambda>T. t_base T c p" and k = p and Q = "c \<in> {2, 3, 6, 7, 10, 11, 14, 15, 26, 27, 30, 31}"]]
        for_to_frame; auto simp add: entry)+

lemma roml_entries [entry]:
  "t_read (meminit_roml 0 T) c p = (if c < 32 \<and> p \<in> {0x80..0x9f} \<and> c64meminit_roml_config ! c \<noteq> 0 then Roml_read else t_read T c p)"
  "t_base (meminit_roml 0 T) c p = (if c < 32 \<and> p \<in> {0x80..0x9f} \<and> c64meminit_roml_config ! c \<noteq> 0 then BNull else t_base T c p)"
  unfolding meminit_roml_def add_0
  by (rule trans [OF fold_range [where R = "\<lambda>T. t_read T c p" and k = c and Q = "p \<in> {0x80..0x9f} \<and> c64meminit_roml_config ! c \<noteq> 0"]]
        trans [OF fold_range [where R = "\<lambda>T. t_base T c p" and k = c and Q = "p \<in> {0x80..0x9f} \<and> c64meminit_roml_config ! c \<noteq> 0"]]; auto simp: entry)+

lemma romh_entries [entry]:
  "t_read (meminit_romh 0 T) c p = (if 24 \<le> c \<and> c < 32 \<and> c64meminit_romh_mapping ! c \<le> p \<and> p \<le> c64meminit_romh_mapping ! c + 0x1f \<and>
     c64meminit_romh_config ! c \<noteq> 0 then Romh_read else t_read T c p)"
  "t_base (meminit_romh 0 T) c p = (if 24 \<le> c \<and> c < 32 \<and> c64meminit_romh_mapping ! c \<le> p \<and> p \<le> c64meminit_romh_mapping ! c + 0x1f \<and>
     c64meminit_romh_config ! c \<noteq> 0 then BNull else t_base T c p)"
  unfolding meminit_romh_def add_0
  by (rule trans [OF fold_range [where R = "\<lambda>T. t_read T c p" and k = c and Q = "c64meminit_romh_mapping ! c \<le> p \<and>
          p \<le> c64meminit_romh_mapping ! c + 0x1f \<and> c64meminit_romh_config ! c \<noteq> 0"]]
        trans [OF fold_range [where R = "\<lambda>T. t_base T c p" and k = c and Q = "c64meminit_romh_mapping ! c \<le> p \<and>
          p \<le> c64meminit_romh_mapping ! c + 0x1f \<and> c64meminit_romh_config ! c \<noteq> 0"]]; auto simp: entry)+

definition io_read_at :: "nat \<Rightarrow> nat \<Rightarrow> read_func" where
  "io_read_at c p = (if c64meminit_io_config ! c = 2 then Ultimax_d000_dfff_read
     else if p \<in> {0xd8..0xdb} then Colorram_read else if p = 0xdc then Cia1_read else if p = 0xdd then Cia2_read
     else C64io_read p)"

definition io_store_at :: "nat \<Rightarrow> nat \<Rightarrow> store_func" where
  "io_store_at c p = (if c64meminit_io_config ! c = 2 then Ultimax_d000_dfff_store
     else if p \<in> {0xd8..0xdb} then Colorram_store else if p = 0xdc then Cia1_store else if p = 0xdd then Cia2_store
     else C64io_store p)"

lemma chip_cases:
  obtains "p < 0xd0" | "0xd0 \<le> p" "p \<le> 0xd7" | "0xd8 \<le> p" "p \<le> 0xdb" | "p = 0xdc" | "p = 0xdd"
    | "0xde \<le> p" "p \<le> 0xdf" | "0xdf < (p :: nat)"
  by linarith

lemma io_entries [entry]:
  "t_read (meminit_io 0 0 T) c p = (if c < 32 \<and> p \<in> {0xd0..0xdf} \<and> c64meminit_io_config ! c \<in> {1, 2} then
     io_read_at c p else t_read T c p)"
  "t_base (meminit_io 0 0 T) c p = (if c < 32 \<and> p \<in> {0xd0..0xdf} \<and> c64meminit_io_config ! c \<in> {1, 2} then BNull else t_base T c p)"
  "t_write (meminit_io 0 0 T) k c p = (if c < 32 \<and> k < 4 \<and> p \<in> {0xd0..0xdf} \<and> c64meminit_io_config ! c \<in> {1, 2} then
     io_store_at c p else t_write T k c p)"
  "t_limit (meminit_io 0 b T) c p = t_limit T c p"
proof -
  show "t_read (meminit_io 0 0 T) c p = (if c < 32 \<and> p \<in> {0xd0..0xdf} \<and> c64meminit_io_config ! c \<in> {1, 2} then
     io_read_at c p else t_read T c p)"
    unfolding meminit_io_def add_0
    by (rule trans [OF fold_range [where R = "\<lambda>T. t_read T c p" and k = c and v = "io_read_at c p" and
          Q = "p \<in> {0xd0..0xdf} \<and> c64meminit_io_config ! c \<in> {1, 2}"]]) (cases p rule: chip_cases; auto simp: entry io_read_at_def)+
  show "t_base (meminit_io 0 0 T) c p = (if c < 32 \<and> p \<in> {0xd0..0xdf} \<and> c64meminit_io_config ! c \<in> {1, 2} then BNull else t_base T c p)"
    unfolding meminit_io_def add_0
    by (rule trans [OF fold_range [where R = "\<lambda>T. t_base T c p" and k = c and v = BNull and
          Q = "p \<in> {0xd0..0xdf} \<and> c64meminit_io_config ! c \<in> {1, 2}"]]) (auto simp: entry)
  show "t_write (meminit_io 0 0 T) k c p = (if c < 32 \<and> k < 4 \<and> p \<in> {0xd0..0xdf} \<and> c64meminit_io_config ! c \<in> {1, 2} then
     io_store_at c p else t_write T k c p)"
    unfolding meminit_io_def add_0
    by (rule trans [OF fold_range [where R = "\<lambda>T. t_write T k c p" and k = c and v = "io_store_at c p" and
          Q = "k < 4 \<and> p \<in> {0xd0..0xdf} \<and> c64meminit_io_config ! c \<in> {1, 2}"]]) (cases p rule: chip_cases; auto simp: entry io_store_at_def)+
  show "t_limit (meminit_io 0 b T) c p = t_limit T c p"
    unfolding meminit_io_def add_0 by (rule fold_frame) (simp add: entry)
qed

lemma rom_writes [entry]:
  "t_write (meminit_roml 0 T) k c p = (if c < 32 \<and> k < 4 \<and> p \<in> {0x80..0x9f} \<and> c64meminit_roml_config ! c \<noteq> 0
     then Roml_no_ultimax_store else t_write T k c p)"
  "t_write (meminit_romh 0 T) k c p = (if 24 \<le> c \<and> c < 32 \<and> k < 4 \<and> c64meminit_romh_mapping ! c \<le> p \<and>
     p \<le> c64meminit_romh_mapping ! c + 0x1f \<and> c64meminit_romh_config ! c \<noteq> 0 then Romh_no_ultimax_store else t_write T k c p)"
  "t_write (meminit_raml 0 cs T) k c p = (if c \<in> set cs \<and> k < 4 \<and> p \<in> {0x80..0x9f} \<and> c64meminit_roml_config ! c = 0
     then Raml_no_ultimax_store else t_write T k c p)"
  "t_write (meminit_ramh 0 cs T) k c p = (if c \<in> set cs \<and> k < 4 \<and> p \<in> {0xa0..0xbf} \<and> c64meminit_romh_config ! c = 0
     then Ramh_no_ultimax_store else t_write T k c p)"
  unfolding meminit_roml_def meminit_romh_def meminit_raml_def meminit_ramh_def add_0
  by (rule trans [OF fold_range [where R = "\<lambda>T. t_write T k c p" and k = c and
          Q = "k < 4 \<and> p \<in> {0x80..0x9f} \<and> c64meminit_roml_config ! c \<noteq> 0"]]
        trans [OF fold_range [where R = "\<lambda>T. t_write T k c p" and k = c and
          Q = "k < 4 \<and> c64meminit_romh_mapping ! c \<le> p \<and> p \<le> c64meminit_romh_mapping ! c + 0x1f \<and> c64meminit_romh_config ! c \<noteq> 0"]]
        trans [OF fold_at [where R = "\<lambda>T. t_write T k c p" and k = c and
          Q = "k < 4 \<and> p \<in> {0x80..0x9f} \<and> c64meminit_roml_config ! c = 0"]]
        trans [OF fold_at [where R = "\<lambda>T. t_write T k c p" and k = c and
          Q = "k < 4 \<and> p \<in> {0xa0..0xbf} \<and> c64meminit_romh_config ! c = 0"]]; auto simp: entry)+

lemma ram_frames [entry]:
  "t_read (meminit_raml 0 cs T) c p = t_read T c p" "t_base (meminit_raml 0 cs T) c p = t_base T c p"
  "t_read (meminit_ramh 0 cs T) c p = t_read T c p" "t_base (meminit_ramh 0 cs T) c p = t_base T c p"
  "t_limit (meminit_raml 0 cs T) c p = t_limit T c p" "t_limit (meminit_ramh 0 cs T) c p = t_limit T c p"
  "t_limit (meminit_roml 0 T) c p = t_limit T c p" "t_limit (meminit_romh 0 T) c p = t_limit T c p"
  unfolding meminit_raml_def meminit_ramh_def meminit_roml_def meminit_romh_def
  by (rule fold_frame; simp add: entry)+

lemma romh_ultimax_entries [entry]:
  "t_read (meminit_romh_ultimax 0 T) c p = (if 16 \<le> c \<and> c < 24 \<and> c64meminit_romh_mapping ! c \<le> p \<and>
     p \<le> c64meminit_romh_mapping ! c + 0x1f \<and> c64meminit_romh_config ! c \<noteq> 0
     then (if odd (c div 2) then Ultimax_romh_read_hirom else Romh_read) else t_read T c p)"
  "t_base (meminit_romh_ultimax 0 T) c p = (if 16 \<le> c \<and> c < 24 \<and> c64meminit_romh_mapping ! c \<le> p \<and>
     p \<le> c64meminit_romh_mapping ! c + 0x1f \<and> c64meminit_romh_config ! c \<noteq> 0 then BNull else t_base T c p)"
  "t_write (meminit_romh_ultimax 0 T) k c p = t_write T k c p"
  "t_limit (meminit_romh_ultimax 0 T) c p = t_limit T c p"
proof -
  have v: "t_read (meminit_romh_ultimax 0 T) c p = (if 16 \<le> c \<and> c < 24 \<and> c64meminit_romh_mapping ! c \<le> p \<and>
     p \<le> c64meminit_romh_mapping ! c + 0x1f \<and> c64meminit_romh_config ! c \<noteq> 0
     then (if odd (c div 2) then Ultimax_romh_read_hirom else Romh_read) else t_read T c p)"
    unfolding meminit_romh_ultimax_def add_0
    by (rule fold_range [where R = "\<lambda>T. t_read T c p"]) (auto simp: entry)
  have b: "t_base (meminit_romh_ultimax 0 T) c p = (if 16 \<le> c \<and> c < 24 \<and> c64meminit_romh_mapping ! c \<le> p \<and>
     p \<le> c64meminit_romh_mapping ! c + 0x1f \<and> c64meminit_romh_config ! c \<noteq> 0 then BNull else t_base T c p)"
    unfolding meminit_romh_ultimax_def add_0
    by (rule fold_range [where R = "\<lambda>T. t_base T c p"]) (auto simp: entry)
  show "t_read (meminit_romh_ultimax 0 T) c p = (if 16 \<le> c \<and> c < 24 \<and> c64meminit_romh_mapping ! c \<le> p \<and>
     p \<le> c64meminit_romh_mapping ! c + 0x1f \<and> c64meminit_romh_config ! c \<noteq> 0
     then (if odd (c div 2) then Ultimax_romh_read_hirom else Romh_read) else t_read T c p)"
    by (rule v)
  show "t_base (meminit_romh_ultimax 0 T) c p = (if 16 \<le> c \<and> c < 24 \<and> c64meminit_romh_mapping ! c \<le> p \<and>
     p \<le> c64meminit_romh_mapping ! c + 0x1f \<and> c64meminit_romh_config ! c \<noteq> 0 then BNull else t_base T c p)"
    by (rule b)
  show "t_write (meminit_romh_ultimax 0 T) k c p = t_write T k c p" "t_limit (meminit_romh_ultimax 0 T) c p = t_limit T c p"
    unfolding meminit_romh_ultimax_def by (rule fold_frame; simp add: entry)+
qed

definition ultimax_read_at :: "nat \<Rightarrow> read_func" where
  "ultimax_read_at p = (if p \<le> 0x7f then Ultimax_1000_7fff_read else if p \<le> 0xbf then Ultimax_a000_bfff_read
     else Ultimax_c000_cfff_read)"

definition ultimax_store_at :: "nat \<Rightarrow> store_func" where
  "ultimax_store_at p = (if p \<le> 0x7f then Ultimax_1000_7fff_store else if p \<le> 0x9f then Roml_store
     else if p \<le> 0xbf then Ultimax_a000_bfff_store else if p \<le> 0xcf then Ultimax_c000_cfff_store else Romh_store)"

lemma ultimax_entries [entry]:
  "t_read (meminit_ultimax 0 T) c p = (if 16 \<le> c \<and> c < 24 \<and> p \<in> {0x10..0x7f} \<union> {0xa0..0xcf} then ultimax_read_at p
     else t_read T c p)"
  "t_base (meminit_ultimax 0 T) c p = (if 16 \<le> c \<and> c < 24 \<and> p \<in> {0x10..0x7f} \<union> {0xa0..0xcf} then BNull else t_base T c p)"
  "t_write (meminit_ultimax 0 T) k c p = (if 16 \<le> c \<and> c < 24 \<and> k < 4 \<and> p \<in> {0x10..0xcf} \<union> {0xe0..0xff}
     then ultimax_store_at p else t_write T k c p)"
  "t_limit (meminit_ultimax 0 T) c p = t_limit T c p"
  unfolding meminit_ultimax_def add_0
  by (rule fold_range [where R = "\<lambda>T. t_read T c p" and k = c and v = "ultimax_read_at p"]
        fold_range [where R = "\<lambda>T. t_base T c p" and k = c and v = BNull]
        fold_range [where R = "\<lambda>T. t_write T k c p" and k = c and v = "ultimax_store_at p"]
        fold_frame; auto simp: entry ultimax_read_at_def ultimax_store_at_def)+

section \<open>The tables of the machine\<close>

lemma bank_loop [entry]:
  "t_write (fold (\<lambda>k. write_tab_set k i j (W k)) [0..<NUM_VBANKS] T) k c p =
     (if k < 4 \<and> c = i \<and> p = j then W k else t_write T k c p)"
  "t_read (fold (\<lambda>k. write_tab_set k i j (W k)) [0..<NUM_VBANKS] T) c p = t_read T c p"
  "t_base (fold (\<lambda>k. write_tab_set k i j (W k)) [0..<NUM_VBANKS] T) c p = t_base T c p"
  "t_limit (fold (\<lambda>k. write_tab_set k i j (W k)) [0..<NUM_VBANKS] T) c p = t_limit T c p"
  by (rule trans [OF fold_at [where R = "\<lambda>T. t_write T k c p" and k = k and Q = "c = i \<and> p = j"]]
        fold_frame; auto simp: entry NUM_VBANKS_def)+

definition vbank_handler :: "nat \<Rightarrow> nat \<Rightarrow> store_func" where
  "vbank_handler k p = (if p div 64 = k then
     (if p mod 64 = 0x39 then Vbank_39xx_store else if p mod 64 = 0x3f then Vbank_3fxx_store else Vbank_store) else Ram_store)"

lemma init_page_0 [entry]:
  "t_read (init_page 0 i j T) c p = (if c = i \<and> p = j then Ram_read else t_read T c p)"
  "t_base (init_page 0 i j T) c p = (if c = i \<and> p = j then Mem_ram else t_base T c p)"
  "t_write (init_page 0 i j T) k c p = (if k < 4 \<and> c = i \<and> p = j then vbank_handler k p else t_write T k c p)"
  "t_limit (init_page b i j T) c p = t_limit T c p"
  by (auto simp: init_page_def entry vbank_handler_def)

lemma init_pages [entry]:
  "t_read (for_to a b (init_page 0 i) T) c p = (if c = i \<and> a \<le> p \<and> p \<le> b then Ram_read else t_read T c p)"
  "t_base (for_to a b (init_page 0 i) T) c p = (if c = i \<and> a \<le> p \<and> p \<le> b then Mem_ram else t_base T c p)"
  "t_write (for_to a b (init_page 0 i) T) k c p = (if k < 4 \<and> c = i \<and> a \<le> p \<and> p \<le> b then vbank_handler k p else t_write T k c p)"
  "t_limit (for_to a b (init_page d i) T) c p = t_limit T c p"
  by (rule trans [OF for_to_at [where R = "\<lambda>T. t_read T c p" and k = p and Q = "c = i"]]
        trans [OF for_to_at [where R = "\<lambda>T. t_base T c p" and k = p and Q = "c = i"]]
        trans [OF for_to_at [where R = "\<lambda>T. t_write T k c p" and k = p and Q = "k < 4 \<and> c = i"]]
        for_to_frame; auto simp: entry)+

lemma init_ram_entries [entry]:
  "t_read (init_ram 0 T) c p = (if c < 32 \<and> p \<le> 0xff then (if p = 0 then Zero_read else Ram_read) else t_read T c p)"
  "t_base (init_ram 0 T) c p = (if c < 32 \<and> p \<le> 0xff then Mem_ram else t_base T c p)"
  "t_write (init_ram 0 T) k c p = (if c < 32 \<and> k < 4 \<and> p \<le> 0xff then
     (if p = 0 then Zero_store else if p = 0xff then Ram_hi_store else vbank_handler k p) else t_write T k c p)"
  "t_limit (init_ram b T) c p = t_limit T c p"
  unfolding init_ram_def
  by (rule trans [OF fold_range [where R = "\<lambda>T. t_read T c p" and k = c and Q = "p \<le> 0xff"]]
        trans [OF fold_range [where R = "\<lambda>T. t_base T c p" and k = c and Q = "p \<le> 0xff"]]
        trans [OF fold_range [where R = "\<lambda>T. t_write T k c p" and k = c and Q = "k < 4 \<and> p \<le> 0xff"]]
        fold_frame; auto simp: entry NUM_CONFIGS_def)+

lemma init_chargen_entries [entry]:
  "t_read (init_chargen T) c p = (if p \<in> {0xd0..0xdf} \<and> c \<in> {1, 2, 3, 9, 10, 11, 26, 27} then Chargen_read else t_read T c p)"
  "t_base (init_chargen T) c p = (if p \<in> {0xd0..0xdf} \<and> c \<in> {1, 2, 3, 9, 10, 11, 26, 27} then Mem_chargen_rom else t_base T c p)"
  "t_write (init_chargen T) k c p = t_write T k c p"
  "t_limit (init_chargen T) c p = t_limit T c p"
  unfolding init_chargen_def
  by (rule trans [OF for_to_at [where R = "\<lambda>T. t_read T c p" and k = p and Q = "c \<in> {1, 2, 3, 9, 10, 11, 26, 27}"]]
        trans [OF for_to_at [where R = "\<lambda>T. t_base T c p" and k = p and Q = "c \<in> {1, 2, 3, 9, 10, 11, 26, 27}"]]
        for_to_frame; auto simp add: entry)+

end
