(* ===== verification/C64Pla.thy ===== *)
theory C64Pla
  imports C64Maps
begin

text \<open>
  The memory map the PLA of the C64 decodes, and the proof that the tables \<open>mem_initialize_memory\<close> builds agree with it:
  the handlers of every page in every configuration, and the windows of the opcode fetch.
\<close>

section \<open>The map the PLA decodes\<close>

text \<open>
  The five signals are the bits of a configuration, from bit 0: LORAM, HIRAM, CHAREN, and the EXROM and GAME lines of a
  cartridge (1: the cartridge pulls the line). A segment of the address space is one of \<open>segments\<close>.
\<close>

datatype region = Reg_ram | Reg_open | Reg_basic | Reg_kernal | Reg_chargen | Reg_io | Reg_roml | Reg_romh

definition ultimax :: "nat \<Rightarrow> bool" where
  "ultimax c \<longleftrightarrow> odd (c div 16) \<and> \<not> odd (c div 8)"

definition seg :: "nat \<Rightarrow> nat" where
  "seg p = (if p < 0x10 then 0 else if p < 0x80 then 1 else if p < 0xa0 then 2 else if p < 0xc0 then 3
     else if p < 0xd0 then 4 else if p < 0xe0 then 5 else 6)"

definition pla :: "nat \<Rightarrow> nat \<Rightarrow> region" where
  "pla c s = (let loram = odd c; hiram = odd (c div 2); charen = odd (c div 4); exrom = odd (c div 8); game = odd (c div 16) in
     if ultimax c then [Reg_ram, Reg_open, Reg_roml, Reg_open, Reg_open, Reg_io, Reg_romh] ! s
     else if s = 2 \<and> loram \<and> hiram \<and> exrom then Reg_roml
     else if s = 3 \<and> hiram \<and> exrom \<and> game then Reg_romh
     else if s = 3 \<and> loram \<and> hiram then Reg_basic
     else if s = 5 \<and> charen \<and> (loram \<or> hiram) then Reg_io
     else if s = 5 \<and> (hiram \<or> loram \<and> \<not> game) then Reg_chargen
     else if s = 6 \<and> hiram then Reg_kernal
     else Reg_ram)"

definition pla_read :: "nat \<Rightarrow> nat \<Rightarrow> read_func" where
  "pla_read c p = (case pla c (seg p) of
     Reg_ram \<Rightarrow> if p = 0 then Zero_read else Ram_read
   | Reg_open \<Rightarrow> ultimax_read_at p
   | Reg_basic \<Rightarrow> Basic64_read
   | Reg_kernal \<Rightarrow> Kernal64_read
   | Reg_chargen \<Rightarrow> Chargen_read
   | Reg_io \<Rightarrow> io_read_at c p
   | Reg_roml \<Rightarrow> Roml_read
   | Reg_romh \<Rightarrow> if ultimax c \<and> odd (c div 2) then Ultimax_romh_read_hirom else Romh_read)"

definition pla_base :: "nat \<Rightarrow> nat \<Rightarrow> base_ptr" where
  "pla_base c s = (case pla c s of
     Reg_ram \<Rightarrow> Mem_ram | Reg_basic \<Rightarrow> Basic64_rom | Reg_kernal \<Rightarrow> Kernal64_trap_rom
   | Reg_chargen \<Rightarrow> Mem_chargen_rom | _ \<Rightarrow> BNull)"

text \<open>What a store does: it reaches the RAM below a ROM, through the cartridge hooks from $8000 to $BFFF.\<close>

definition pla_store :: "nat \<Rightarrow> nat \<Rightarrow> nat \<Rightarrow> store_func" where
  "pla_store k c p = (if p = 0 then Zero_store
     else if pla c (seg p) = Reg_io then io_store_at c p
     else if ultimax c \<and> 0x10 \<le> p then ultimax_store_at p
     else if seg p = 2 then (if pla c 2 = Reg_roml then Roml_no_ultimax_store else Raml_no_ultimax_store)
     else if seg p = 3 \<and> pla c 3 = Reg_romh then Romh_no_ultimax_store
     else if seg p = 3 \<and> \<not> (odd (c div 8) \<and> \<not> odd (c div 16)) then Ramh_no_ultimax_store
     else if p = 0xff then Ram_hi_store
     else vbank_handler k p)"

lemma seg_cases:
  obtains "p = 0" "seg p = 0" | "0 < p" "p < 0x10" "seg p = 0" | "0x10 \<le> p" "p < 0x80" "seg p = 1" | "0x80 \<le> p" "p < 0xa0" "seg p = 2"
    | "0xa0 \<le> p" "p < 0xc0" "seg p = 3" | "0xc0 \<le> p" "p < 0xd0" "seg p = 4" | "0xd0 \<le> p" "p < 0xe0" "seg p = 5"
    | "0xe0 \<le> p" "p < 0xff" "seg p = 6" | "p = 0xff" "seg p = 6" | "0xff < p" "seg p = 6"
proof -
  consider "p = 0" | "0 < p" "p < 0x10" | "0x10 \<le> p" "p < 0x80" | "0x80 \<le> p" "p < 0xa0" | "0xa0 \<le> p" "p < 0xc0"
    | "0xc0 \<le> p" "p < 0xd0" | "0xd0 \<le> p" "p < 0xe0" | "0xe0 \<le> p" "p < 0xff" | "p = 0xff" | "0xff < p" by linarith
  then show thesis by cases (simp_all add: that seg_def)
qed

lemma each_config: "list_all P [0..<32] \<Longrightarrow> c < 32 \<Longrightarrow> P c"
  by (simp add: list_all_iff del: upt.simps upt_rec_numeral)

lemmas configs = c64meminit_io_config_def c64meminit_roml_config_def c64meminit_romh_config_def c64meminit_romh_mapping_def

section \<open>The page after the last\<close>

lemma last_page_writes [entry]:
  "t_write (fold (\<lambda>j T. write_tab_set j i 0x100 (t_write T j i 0) T) js T) k c p =
     (if k \<in> set js \<and> c = i \<and> p = 0x100 then t_write T k c 0 else t_write T k c p)"
  "t_read (fold (\<lambda>j T. write_tab_set j i 0x100 (t_write T j i 0) T) js T) c p = t_read T c p"
  "t_base (fold (\<lambda>j T. write_tab_set j i 0x100 (t_write T j i 0) T) js T) c p = t_base T c p"
  "t_limit (fold (\<lambda>j T. write_tab_set j i 0x100 (t_write T j i 0) T) js T) c p = t_limit T c p"
  by (induction js arbitrary: T) (auto simp: entry)

lemma last_page_entries [entry]:
  "t_read (init_last_page T) c p = (if c < 32 \<and> p = 0x100 then t_read T c 0 else t_read T c p)"
  "t_base (init_last_page T) c p = (if c < 32 \<and> p = 0x100 then t_base T c 0 else t_base T c p)"
  "t_write (init_last_page T) k c p = (if c < 32 \<and> k < 4 \<and> p = 0x100 then t_write T k c 0 else t_write T k c p)"
  "t_limit (init_last_page T) c p = t_limit T c p"
proof -
  let ?f = "\<lambda>i T. let T1 = mem_read_tab_set i 0x100 (t_read T i 0) T;
       T2 = fold (\<lambda>j T. write_tab_set j i 0x100 (t_write T j i 0) T) [0..<NUM_VBANKS] T1
     in mem_read_base_set i 0x100 (t_base T2 i 0) T2"
  have l: "t_read (fold ?f is T) c p = (if c \<in> set is \<and> p = 0x100 then t_read T c 0 else t_read T c p)"
    "t_base (fold ?f is T) c p = (if c \<in> set is \<and> p = 0x100 then t_base T c 0 else t_base T c p)"
    "t_write (fold ?f is T) k c p = (if c \<in> set is \<and> k < 4 \<and> p = 0x100 then t_write T k c 0 else t_write T k c p)"
    "t_limit (fold ?f is T) c p = t_limit T c p" for "is"
    by (induction "is" arbitrary: T) (auto simp: Let_def entry NUM_VBANKS_def)
  show "t_read (init_last_page T) c p = (if c < 32 \<and> p = 0x100 then t_read T c 0 else t_read T c p)"
    "t_base (init_last_page T) c p = (if c < 32 \<and> p = 0x100 then t_base T c 0 else t_base T c p)"
    "t_write (init_last_page T) k c p = (if c < 32 \<and> k < 4 \<and> p = 0x100 then t_write T k c 0 else t_write T k c p)"
    "t_limit (init_last_page T) c p = t_limit T c p"
    unfolding init_last_page_def l NUM_CONFIGS_def by (simp_all del: upt.simps upt_rec_numeral)
qed

section \<open>The tables decode as the PLA does\<close>

text \<open>What the tables of c64meminit.c and the chargen loop say, segment by segment.\<close>

definition decoded :: "nat \<Rightarrow> nat \<Rightarrow> region" where
  "decoded c s = [Reg_ram,
     if 16 \<le> c \<and> c < 24 then Reg_open else Reg_ram,
     if c64meminit_roml_config ! c \<noteq> 0 then Reg_roml else Reg_ram,
     if 16 \<le> c \<and> c < 24 then Reg_open else if 24 \<le> c \<and> c64meminit_romh_config ! c \<noteq> 0 then Reg_romh
       else if c \<in> {3, 7, 11, 15} then Reg_basic else Reg_ram,
     if 16 \<le> c \<and> c < 24 then Reg_open else Reg_ram,
     if c64meminit_io_config ! c \<in> {1, 2} then Reg_io else if c \<in> {1, 2, 3, 9, 10, 11, 26, 27} then Reg_chargen else Reg_ram,
     if 16 \<le> c \<and> c < 24 \<and> c64meminit_romh_config ! c \<noteq> 0 then Reg_romh
       else if c \<in> {2, 3, 6, 7, 10, 11, 14, 15, 26, 27, 30, 31} then Reg_kernal else Reg_ram] ! s"

lemma decoded_pla:
  assumes "c < 32" "s < 7"
  shows "decoded c s = pla c s"
proof -
  have "list_all (\<lambda>c. list_all (\<lambda>s. decoded c s = pla c s) [0..<7]) [0..<32]" by code_simp
  from each_config [OF this assms(1)] assms(2) show ?thesis by (simp add: list_all_iff del: upt.upt_Suc)
qed

lemma mapping:
  assumes "c < 32"
  shows "ultimax c \<longleftrightarrow> 16 \<le> c \<and> c < 24"
    "16 \<le> c \<Longrightarrow> c < 24 \<Longrightarrow> c64meminit_romh_config ! c = 1 \<and> c64meminit_romh_mapping ! c = 0xe0"
    "24 \<le> c \<Longrightarrow> c64meminit_romh_config ! c \<noteq> 0 \<Longrightarrow> c64meminit_romh_mapping ! c = 0xa0"
    "16 \<le> c \<Longrightarrow> c < 24 \<Longrightarrow> c64meminit_io_config ! c = 2"
proof -
  have "list_all (\<lambda>c. (ultimax c \<longleftrightarrow> 16 \<le> c \<and> c < 24) \<and>
    (16 \<le> c \<longrightarrow> c < 24 \<longrightarrow> c64meminit_romh_config ! c = 1 \<and> c64meminit_romh_mapping ! c = 0xe0 \<and> c64meminit_io_config ! c = 2) \<and>
    (24 \<le> c \<longrightarrow> c64meminit_romh_config ! c \<noteq> 0 \<longrightarrow> c64meminit_romh_mapping ! c = 0xa0))
    [0..<32]" by code_simp
  from each_config [OF this assms(1)]
  show "ultimax c \<longleftrightarrow> 16 \<le> c \<and> c < 24"
    "16 \<le> c \<Longrightarrow> c < 24 \<Longrightarrow> c64meminit_romh_config ! c = 1 \<and> c64meminit_romh_mapping ! c = 0xe0"
    "24 \<le> c \<Longrightarrow> c64meminit_romh_config ! c \<noteq> 0 \<Longrightarrow> c64meminit_romh_mapping ! c = 0xa0"
    "16 \<le> c \<Longrightarrow> c < 24 \<Longrightarrow> c64meminit_io_config ! c = 2" by blast+
qed

lemma romh_range:
  assumes "c < 32"
  shows "24 \<le> c \<and> c < 32 \<and> c64meminit_romh_mapping ! c \<le> p \<and> p \<le> c64meminit_romh_mapping ! c + 0x1f \<and>
      c64meminit_romh_config ! c \<noteq> 0 \<longleftrightarrow> 24 \<le> c \<and> c64meminit_romh_config ! c \<noteq> 0 \<and> 0xa0 \<le> p \<and> p \<le> 0xbf"
    "16 \<le> c \<and> c < 24 \<and> c64meminit_romh_mapping ! c \<le> p \<and> p \<le> c64meminit_romh_mapping ! c + 0x1f \<and>
      c64meminit_romh_config ! c \<noteq> 0 \<longleftrightarrow> 16 \<le> c \<and> c < 24 \<and> 0xe0 \<le> p \<and> p \<le> 0xff"
    "24 \<le> c \<and> c < 32 \<and> k < 4 \<and> c64meminit_romh_mapping ! c \<le> p \<and> p \<le> c64meminit_romh_mapping ! c + 0x1f \<and>
      c64meminit_romh_config ! c \<noteq> 0 \<longleftrightarrow> 24 \<le> c \<and> c64meminit_romh_config ! c \<noteq> 0 \<and> k < 4 \<and> 0xa0 \<le> p \<and> p \<le> 0xbf"
  using assms mapping(2,3) [OF assms] by auto

text \<open>The blocks whose range depends on the configuration.\<close>

lemma romh_blocks:
  assumes "c < 32"
  shows "t_read (meminit_romh 0 T) c p =
      (if 24 \<le> c \<and> c64meminit_romh_config ! c \<noteq> 0 \<and> 0xa0 \<le> p \<and> p \<le> 0xbf then Romh_read else t_read T c p)"
    "t_base (meminit_romh 0 T) c p =
      (if 24 \<le> c \<and> c64meminit_romh_config ! c \<noteq> 0 \<and> 0xa0 \<le> p \<and> p \<le> 0xbf then BNull else t_base T c p)"
    "t_write (meminit_romh 0 T) k c p = (if 24 \<le> c \<and> c64meminit_romh_config ! c \<noteq> 0 \<and> k < 4 \<and> 0xa0 \<le> p \<and> p \<le> 0xbf
      then Romh_no_ultimax_store else t_write T k c p)"
    "t_read (meminit_romh_ultimax 0 T) c p = (if 16 \<le> c \<and> c < 24 \<and> 0xe0 \<le> p \<and> p \<le> 0xff
      then (if odd (c div 2) then Ultimax_romh_read_hirom else Romh_read) else t_read T c p)"
    "t_base (meminit_romh_ultimax 0 T) c p = (if 16 \<le> c \<and> c < 24 \<and> 0xe0 \<le> p \<and> p \<le> 0xff then BNull else t_base T c p)"
  unfolding romh_entries romh_ultimax_entries rom_writes romh_range [OF assms] by (rule refl)+

lemmas tabs = mem_initialize_tabs_def c64meminit_def stmts.simps

lemma read_blocks:
  assumes "c < 32" "p \<le> 0xff"
  shows "t_read (mem_initialize_tabs 0 T) c p =
    (if 16 \<le> c \<and> c < 24 \<and> p \<in> {0x10..0x7f} \<union> {0xa0..0xcf} then ultimax_read_at p
     else if 16 \<le> c \<and> c < 24 \<and> 0xe0 \<le> p \<and> p \<le> 0xff then (if odd (c div 2) then Ultimax_romh_read_hirom else Romh_read)
     else if 24 \<le> c \<and> c64meminit_romh_config ! c \<noteq> 0 \<and> 0xa0 \<le> p \<and> p \<le> 0xbf then Romh_read
     else if p \<in> {0x80..0x9f} \<and> c64meminit_roml_config ! c \<noteq> 0 then Roml_read
     else if p \<in> {0xe0..0xff} \<and> c \<in> {2, 3, 6, 7, 10, 11, 14, 15, 26, 27, 30, 31} then Kernal64_read
     else if p \<in> {0xd0..0xdf} \<and> c64meminit_io_config ! c \<in> {1, 2} then io_read_at c p
     else if p \<in> {0xa0..0xbf} \<and> c \<in> {3, 7, 11, 15} then Basic64_read
     else if p \<in> {0xd0..0xdf} \<and> c \<in> {1, 2, 3, 9, 10, 11, 26, 27} then Chargen_read
     else if p = 0 then Zero_read else Ram_read)"
  using assms
  by (simp add: tabs entry romh_blocks [OF assms(1)] del: romh_entries romh_ultimax_entries(1,2) rom_writes(2) upt.simps upt_rec_numeral
      cong: if_cong split del: if_split)

lemma initial_read:
  assumes "c < 32" "p \<le> 0xff"
  shows "t_read (mem_initialize_tabs 0 T) c p = pla_read c p"
proof -
  have s7: "seg p < 7" by (simp add: seg_def)
  show ?thesis
    using assms mapping(2,4) [OF assms(1)] unfolding read_blocks [OF assms] pla_read_def decoded_pla [OF assms(1) s7, symmetric]
    by (cases p rule: seg_cases; auto simp add: decoded_def mapping(1))
qed

lemma base_blocks:
  assumes "c < 32" "p \<le> 0xff"
  shows "t_base (mem_initialize_tabs 0 T) c p =
    (if 16 \<le> c \<and> c < 24 \<and> p \<in> {0x10..0x7f} \<union> {0xa0..0xcf} then BNull
     else if 16 \<le> c \<and> c < 24 \<and> 0xe0 \<le> p \<and> p \<le> 0xff then BNull
     else if 24 \<le> c \<and> c64meminit_romh_config ! c \<noteq> 0 \<and> 0xa0 \<le> p \<and> p \<le> 0xbf then BNull
     else if p \<in> {0x80..0x9f} \<and> c64meminit_roml_config ! c \<noteq> 0 then BNull
     else if p \<in> {0xe0..0xff} \<and> c \<in> {2, 3, 6, 7, 10, 11, 14, 15, 26, 27, 30, 31} then Kernal64_trap_rom
     else if p \<in> {0xd0..0xdf} \<and> c64meminit_io_config ! c \<in> {1, 2} then BNull
     else if p \<in> {0xa0..0xbf} \<and> c \<in> {3, 7, 11, 15} then Basic64_rom
     else if p \<in> {0xd0..0xdf} \<and> c \<in> {1, 2, 3, 9, 10, 11, 26, 27} then Mem_chargen_rom
     else Mem_ram)"
  using assms
  by (simp add: tabs entry romh_blocks [OF assms(1)] del: romh_entries romh_ultimax_entries(1,2) rom_writes(2) upt.simps upt_rec_numeral
      cong: if_cong split del: if_split)

lemma initial_base:
  assumes "c < 32" "p \<le> 0xff"
  shows "t_base (mem_initialize_tabs 0 T) c p = pla_base c (seg p)"
proof -
  have s7: "seg p < 7" by (simp add: seg_def)
  show ?thesis
    using assms mapping(2,4) [OF assms(1)] unfolding base_blocks [OF assms] pla_base_def decoded_pla [OF assms(1) s7, symmetric]
    by (cases p rule: seg_cases; auto simp add: decoded_def)
qed

lemma write_blocks:
  assumes "c < 32" "p \<le> 0xff" "k < 4"
  shows "t_write (mem_initialize_tabs 0 T) k c p =
    (if 16 \<le> c \<and> c < 24 \<and> p \<in> {0x10..0xcf} \<union> {0xe0..0xff} then ultimax_store_at p
     else if c < 8 \<and> p \<in> {0xa0..0xbf} \<and> c64meminit_romh_config ! c = 0 then Ramh_no_ultimax_store
     else if 24 \<le> c \<and> p \<in> {0xa0..0xbf} \<and> c64meminit_romh_config ! c = 0 then Ramh_no_ultimax_store
     else if 24 \<le> c \<and> c64meminit_romh_config ! c \<noteq> 0 \<and> 0xa0 \<le> p \<and> p \<le> 0xbf then Romh_no_ultimax_store
     else if c < 8 \<and> p \<in> {0x80..0x9f} \<and> c64meminit_roml_config ! c = 0 then Raml_no_ultimax_store
     else if 24 \<le> c \<and> p \<in> {0x80..0x9f} \<and> c64meminit_roml_config ! c = 0 then Raml_no_ultimax_store
     else if 8 \<le> c \<and> c < 16 \<and> p \<in> {0x80..0x9f} \<and> c64meminit_roml_config ! c = 0 then Raml_no_ultimax_store
     else if p \<in> {0x80..0x9f} \<and> c64meminit_roml_config ! c \<noteq> 0 then Roml_no_ultimax_store
     else if p \<in> {0xd0..0xdf} \<and> c64meminit_io_config ! c \<in> {1, 2} then io_store_at c p
     else if p = 0 then Zero_store else if p = 0xff then Ram_hi_store else vbank_handler k p)"
  using assms
  by (simp add: tabs entry romh_blocks [OF assms(1)] del: romh_entries romh_ultimax_entries(1,2) rom_writes(2) upt.simps upt_rec_numeral
      cong: if_cong split del: if_split)

lemma roml_bits:
  assumes "c < 32"
  shows "16 \<le> c \<Longrightarrow> c < 24 \<Longrightarrow> c64meminit_roml_config ! c = 1" "c < 8 \<Longrightarrow> c64meminit_romh_config ! c = 0"
    "odd (c div 8) \<and> even (c div 16) \<longleftrightarrow> 8 \<le> c \<and> c < 16"
proof -
  have "list_all (\<lambda>c. (16 \<le> c \<longrightarrow> c < 24 \<longrightarrow> c64meminit_roml_config ! c = 1) \<and> (c < 8 \<longrightarrow> c64meminit_romh_config ! c = 0) \<and>
     (odd (c div 8) \<and> even (c div 16) \<longleftrightarrow> 8 \<le> c \<and> c < 16)) [0..<32]" by code_simp
  from each_config [OF this assms]
  show "16 \<le> c \<Longrightarrow> c < 24 \<Longrightarrow> c64meminit_roml_config ! c = 1" "c < 8 \<Longrightarrow> c64meminit_romh_config ! c = 0"
    "odd (c div 8) \<and> even (c div 16) \<longleftrightarrow> 8 \<le> c \<and> c < 16" by blast+
qed

lemma initial_write:
  assumes "c < 32" "p \<le> 0xff" "k < 4"
  shows "t_write (mem_initialize_tabs 0 T) k c p = pla_store k c p"
proof -
  have s7: "seg p < 7" by (simp add: seg_def)
  note d = decoded_pla [OF assms(1)]
  note m = d [of 2, simplified, symmetric] d [of 3, simplified, symmetric] decoded_pla [OF assms(1) s7, symmetric]
  have b: "(odd (c div 8) \<and> \<not> odd (c div 16)) \<longleftrightarrow> 8 \<le> c \<and> c < 16" using roml_bits(3) [OF assms(1)] by simp
  show ?thesis
    using assms mapping(1,2,4) [OF assms(1)] roml_bits(1,2) [OF assms(1)]
    unfolding write_blocks [OF assms] pla_store_def b m
    by (cases p rule: seg_cases; auto simp add: decoded_def)
qed

section \<open>Limits\<close>

lemma in_segment:
  "j < 7 \<Longrightarrow> fst (segments ! j) \<le> p \<and> p \<le> snd (segments ! j) \<longleftrightarrow> j = seg p \<and> p \<le> 0xff"
proof -
  assume "j < 7"
  then have "j \<in> {0, 1, 2, 3, 4, 5, 6}" by auto
  then show ?thesis by (cases p rule: seg_cases; auto simp: segments_def)
qed

lemma limit_loop: "t_limit (for_to a b (\<lambda>k. limit_set i k (V k)) T) c p =
  (if c = i \<and> a \<le> p \<and> p \<le> b then V p else t_limit T c p)"
  by (rule trans [OF for_to_at [where R = "\<lambda>T. t_limit T c p" and k = p and v = "V p" and Q = "c = i"]]) (auto simp: entry)

lemma limit_segments:
  "t_limit (fold (\<lambda>j. case segments ! j of (a, b) \<Rightarrow> for_to a b (\<lambda>k. limit_set i k (v i j k))) [0..<7] T) c p =
    (if c = i \<and> p \<le> 0xff then v i (seg p) p else t_limit T c p)"
proof -
  have s7: "seg p < 7" by (simp add: seg_def)
  have "t_limit (fold (\<lambda>j. case segments ! j of (a, b) \<Rightarrow> for_to a b (\<lambda>k. limit_set i k (v i j k))) [0..<7] T) c p =
    (if 0 \<le> seg p \<and> seg p < 7 \<and> c = i \<and> p \<le> 0xff then v i (seg p) p else t_limit T c p)"
  proof (rule fold_range [where R = "\<lambda>T. t_limit T c p"])
    fix j T assume "j < (7 :: nat)"
    note m = in_segment [OF this, of p]
    show "t_limit ((case segments ! j of (a, b) \<Rightarrow> for_to a b (\<lambda>k. limit_set i k (v i j k))) T) c p =
      (if j = seg p \<and> c = i \<and> p \<le> 0xff then v i (seg p) p else t_limit T c p)"
      using m by (auto simp: limit_loop split: prod.split)
  qed
  then show ?thesis using s7 by simp
qed

lemma limits_init_entries:
  "t_limit (limits_init v T) c p =
    (if c < 32 \<and> p \<le> 0x100 then (if p = 0x100 then 0 else v c (seg p) p) else t_limit T c p)"
  unfolding limits_init_def
  by (rule trans [OF fold_range [where R = "\<lambda>T. t_limit T c p" and k = c and v = "if p = 0x100 then 0 else v c (seg p) p" and
        Q = "p \<le> 0x100"]]) (auto simp: entry limit_segments NUM_CONFIGS_def)

lemma limits_frames [entry]:
  "t_write (limits_init v T) k c p = t_write T k c p"
proof -
  have "t_write (for_to a b (\<lambda>k. limit_set i k (V k)) T) k c p = t_write T k c p" for a b i V T
    by (rule for_to_frame) (simp add: entry)
  then have "t_write (fold (\<lambda>j. case segments ! j of (a, b) \<Rightarrow> for_to a b (\<lambda>k. limit_set i k (v i j k))) [0..<7] T) k c p =
    t_write T k c p" for i T
    by (intro fold_frame) (simp split: prod.split)
  then show ?thesis unfolding limits_init_def by (intro fold_frame) (simp add: entry)
qed

lemma initial_limit:
  assumes "c < 32" "p \<le> 0xff"
  shows "t_limit (mem_initialize_tabs 0 T) c p = limit_tab ! seg p ! c"
  using assms by (simp add: tabs entry mem_limit_init_def limits_init_entries)

section \<open>Fetch windows\<close>

text \<open>
  The opcode fetch reads up to three bytes behind the pointer of the page it started from, as long as the address is
  below the limit of that page.
\<close>

definition fetch_start :: "u32 \<Rightarrow> int" where "fetch_start l = uint (drop_bit 16 l)"
definition fetch_limit :: "u32 \<Rightarrow> int" where "fetch_limit l = uint (l AND 0xffff)"

definition seg_first :: "int list" where "seg_first = [0, 0x1000, 0x8000, 0xa000, 0xc000, 0xd000, 0xe000]"
definition seg_last :: "int list" where "seg_last = [0xfff, 0x7fff, 0x9fff, 0xbfff, 0xcfff, 0xdfff, 0xffff]"

definition window :: "nat \<Rightarrow> nat \<Rightarrow> base_ptr \<times> int \<times> int" where
  "window c s = (pla_base c s, fetch_start (limit_tab ! s ! c), fetch_limit (limit_tab ! s ! c))"

definition window_ok :: "(base_ptr \<times> int \<times> int) list \<Rightarrow> bool" where
  "window_ok row \<longleftrightarrow> list_all (\<lambda>((b, st, li), first). b = BNull \<or> li = 0 \<or>
     st \<le> max 2 first \<and> li + 2 \<le> 0xffff \<and>
     list_all (\<lambda>((b', _, _), f, l). f \<le> li + 1 \<and> st \<le> l \<longrightarrow> b' = b) (zip row (zip seg_first seg_last))) (zip row seg_first)"

lemma windows_ok: "list_all (\<lambda>c. window_ok (map (window c) [0..<7])) [0..<32]"
  by code_simp
lemma window_checked:
  assumes "c < 32" "s < 7" "pla_base c s \<noteq> BNull" "fetch_limit (limit_tab ! s ! c) \<noteq> 0"
  shows "fetch_start (limit_tab ! s ! c) \<le> max 2 (seg_first ! s)" "fetch_limit (limit_tab ! s ! c) + 2 \<le> 0xffff"
    and "t < 7 \<Longrightarrow> seg_first ! t \<le> fetch_limit (limit_tab ! s ! c) + 1 \<Longrightarrow>
      fetch_start (limit_tab ! s ! c) \<le> seg_last ! t \<Longrightarrow> pla_base c t = pla_base c s"
proof -
  have w: "window_ok (map (window c) [0..<7])" by (rule each_config [OF windows_ok assms(1)])
  have l: "length seg_first = 7" "length seg_last = 7" by (simp_all add: seg_first_def seg_last_def)
  show "fetch_start (limit_tab ! s ! c) \<le> max 2 (seg_first ! s)" "fetch_limit (limit_tab ! s ! c) + 2 \<le> 0xffff"
    "t < 7 \<Longrightarrow> seg_first ! t \<le> fetch_limit (limit_tab ! s ! c) + 1 \<Longrightarrow>
      fetch_start (limit_tab ! s ! c) \<le> seg_last ! t \<Longrightarrow> pla_base c t = pla_base c s"
    using w assms l unfolding window_ok_def list_all_length
    by (auto simp: window_def simp del: upt.simps upt_rec_numeral)
qed

lemma fetch_window:
  assumes "c < 32" "p \<le> 0xff" "t_base (mem_initialize_tabs 0 T) c p \<noteq> BNull"
    and "fetch_start (t_limit (mem_initialize_tabs 0 T) c p) \<le> int i" "int i < fetch_limit (t_limit (mem_initialize_tabs 0 T) c p)" "k \<le> 2"
  shows "(i + k) div 256 \<le> 0xff \<and> t_base (mem_initialize_tabs 0 T) c ((i + k) div 256) = t_base (mem_initialize_tabs 0 T) c p \<and>
    fetch_start (t_limit (mem_initialize_tabs 0 T) c p) \<le> max 2 (256 * int p)"
proof -
  define s t where "s = seg p" and "t = seg ((i + k) div 256)"
  have s7: "s < 7" "t < 7" by (simp_all add: s_def t_def seg_def)
  let ?l = "limit_tab ! s ! c"
  have b: "pla_base c s \<noteq> BNull" using assms(3) unfolding initial_base [OF assms(1,2)] s_def .
  have w: "fetch_start ?l \<le> int i" "int i < fetch_limit ?l"
    using assms(4,5) unfolding initial_limit [OF assms(1,2)] s_def by blast+
  then have z: "fetch_limit ?l \<noteq> 0" by linarith
  note chk = window_checked [OF assms(1) s7(1) b z]
  have n: "i + k \<le> 0xfffe" using w(2) chk(2) assms(6) by linarith
  then have p1: "(i + k) div 256 \<le> 0xff" by simp
  have "seg_first ! t \<le> int (i + k) \<and> int (i + k) \<le> seg_last ! t"
    using p1 unfolding t_def
    by (cases "(i + k) div 256" rule: seg_cases; simp add: seg_first_def seg_last_def; linarith?)
  then have "pla_base c t = pla_base c s" using chk(3) [OF s7(2)] w assms(6) by linarith
  moreover have "seg_first ! s \<le> 256 * int p"
    using assms(2) unfolding s_def by (cases p rule: seg_cases; simp add: seg_first_def)
  ultimately show ?thesis
    using chk(1) p1 unfolding initial_base [OF assms(1) p1] initial_base [OF assms(1,2)] initial_limit [OF assms(1,2)] s_def t_def
    by simp
qed

section \<open>Properties\<close>

text \<open>
  C3 (pla_memory_map). For each of the 32 states of the five signals and each page, the handlers that
  \<open>mem_initialize_memory\<close> and \<open>c64meminit\<close> install for reading and for writing are those of the region the PLA selects.
\<close>

theorem pla_memory_map:
  assumes "c < 32" "p \<le> 0xff" "k < 4"
  shows "t_read (mem_initialize_tabs 0 T) c p = pla_read c p \<and> t_write (mem_initialize_tabs 0 T) k c p = pla_store k c p"
  using initial_read [OF assms(1,2)] initial_write [OF assms] by blast

theorem pla_memory_map_witness:
  "t_read (mem_initialize_tabs 0 static_tabs) 7 0xa5 = Basic64_read \<and>
   t_write (mem_initialize_tabs 0 static_tabs) 0 5 0xe0 = Ram_store"
  using pla_memory_map [of 7 "0xa5" 0 static_tabs] pla_memory_map [of 5 "0xe0" 0 static_tabs]
  by (simp add: pla_read_def pla_store_def pla_def seg_def ultimax_def vbank_handler_def)

text \<open>
  C12 (fetch_window_safe). When the opcode fetch may bypass the handlers from an address of a page, the three bytes it reads
  at any address inside the window of that page lie in pages fetched through the same pointer, which is the array the read
  handler of those pages reads, and the address it started from is inside the window.
\<close>

theorem fetch_window_safe:
  assumes "c < 32" "p \<le> 0xff" "t_base (mem_initialize_tabs 0 T) c p \<noteq> BNull"
    and "fetch_start (t_limit (mem_initialize_tabs 0 T) c p) \<le> int i" "int i < fetch_limit (t_limit (mem_initialize_tabs 0 T) c p)" "k \<le> 2"
  shows "(i + k) div 256 \<le> 0xff \<and> t_base (mem_initialize_tabs 0 T) c ((i + k) div 256) = t_base (mem_initialize_tabs 0 T) c p \<and>
    fetch_start (t_limit (mem_initialize_tabs 0 T) c p) \<le> max 2 (256 * int p)"
  using assms by (rule fetch_window)

theorem fetch_window_safe_witness:
  "(0xbffc + 2) div 256 \<le> (0xff :: nat) \<and> t_base (mem_initialize_tabs 0 static_tabs) 7 ((0xbffc + 2) div 256) = Basic64_rom"
  using fetch_window_safe [of 7 "0xa0" static_tabs "0xbffc" 2]
    initial_base [of 7 "0xa0" static_tabs] initial_limit [of 7 "0xa0" static_tabs]
  by (simp add: pla_base_def pla_def seg_def ultimax_def limit_tab_def fetch_start_def fetch_limit_def)

lemma max_pages:
  assumes "c \<noteq> 0" "8 \<le> p" "p \<le> 0xf"
  shows "t_write (for_to a b (init_page 1 i) T) k c p = t_write T k c p"
  by (rule for_to_frame) (use assms in \<open>auto simp: init_page_def entry\<close>)

lemma max_io:
  assumes "p \<le> 0xf"
  shows "t_write (meminit_io 0 1 T) k c p = t_write T k c p"
  unfolding meminit_io_def add_0
  by (rule fold_frame) (use assms in \<open>auto simp: entry\<close>)

lemma max_ram:
  assumes "c \<noteq> 0" "8 \<le> p" "p \<le> 0xf"
  shows "t_write (init_ram 1 T) k c p = t_write T k c p"
  unfolding init_ram_def by (rule fold_frame) (use assms in \<open>simp add: entry max_pages del: One_nat_def\<close>)

text \<open>
  C32 (max_null_store). On the MAX machine the pages from $0800 to $0fff have no store handler in the Ultimax configurations:
  \<open>mem_initialize_memory\<close> sets the hook of configuration 0 instead of that of the loop's configuration.
\<close>

theorem max_null_store:
  assumes "16 \<le> c" "c < 24" "8 \<le> p" "p \<le> 0xf"
  shows "t_write (mem_initialize_tabs 1 static_tabs) k c p = SNull"
  using assms
  by (simp add: tabs entry max_ram max_io mem_limit_init_def static_tabs_def romh_blocks(3) del: One_nat_def upt.simps upt_rec_numeral)

theorem max_null_store_witness: "t_write (mem_initialize_tabs 1 static_tabs) 0 16 8 = SNull"
  by (rule max_null_store) simp_all

end
