(* ===== verification/C64Bus.thy ===== *)
theory C64Bus
  imports C64Mem C64Pla CpuStep
begin

text \<open>
  The C64 as a bus of the 6510 core: the interpretation of the contract \<open>ram_bus\<close> by the tables, handlers and
  windows of c64mem.c. The contract is claimed for the addresses whose handler has no effect beyond the memory: RAM and ROM
  pages and the zero page behind the processor port for reading, RAM pages outside the bank of the VIC-II for writing.
\<close>

definition c64_machine :: "'x c64_hooks \<Rightarrow> 'x c64dev machine \<Rightarrow> 'x c64dev machine" where
  "c64_machine h m = m\<lparr>mem_read_tab := table_read h, mem_write_tab := table_store h, bank_byte := c64_bank_byte,
     mem_mmu_translate := c64_mmu_translate h, cpu_delay_clk := id,
     run_alternate_cpu := (\<lambda>g. if z80_started (dev g) then cpmcart_mainloop h g else g),
     mem_rom_trap_allowed := (\<lambda>g a. c64_rom_trap_allowed a g)\<rparr>"

text \<open>The plain C64: the tables as initialised, no cartridge device that translates, no expansion, no watchpoint, no trap in the KERNAL.\<close>

definition plain :: "'x c64dev \<Rightarrow> bool" where
  "plain d \<longleftrightarrow> tabs d = mem_initialize_tabs 0 static_tabs \<and> mem_config d < 32 \<and> vbank d < 4 \<and>
     read_tab_ptr d = Read_row (mem_config d) \<and> write_tab_ptr d = Write_row (vbank d) (mem_config d) \<and>
     read_base_tab_ptr d = mem_config d \<and> read_limit_tab_ptr d = mem_config d \<and>
     \<not> c64_256k_enabled d \<and> \<not> plus256k_enabled d \<and> kernal64_trap_rom d = kernal64_rom d \<and> \<not> z80_started d \<and>
     list_all (\<lambda>v. \<not> device_enabled d v) [Mmc64, Magicvoice, Tpi, Isepic, Expert, Ramcart, Dqbb] \<and>
     mem_cartridge_type d \<notin> set mmu_main_slot"

definition page_handler :: "'x c64dev \<Rightarrow> u16 \<Rightarrow> read_func" where
  "page_handler d a = t_read (tabs d) (mem_config d) (page_of a)"

definition c64_peek :: "'x c64dev \<Rightarrow> (u16 \<Rightarrow> u8) \<Rightarrow> u16 \<Rightarrow> u8" where
  "c64_peek d ram a = (case page_handler d a of
     Basic64_read \<Rightarrow> basic64_rom d (a AND 0x1fff)
   | Kernal64_read \<Rightarrow> kernal64_rom d (a AND 0x1fff)
   | Chargen_read \<Rightarrow> mem_chargen_rom d (a AND 0xfff)
   | _ \<Rightarrow> ram a)"

definition c64_rd :: "'x c64dev \<Rightarrow> u16 \<Rightarrow> bool" where
  "c64_rd d a \<longleftrightarrow> page_handler d a \<in> {Ram_read, Basic64_read, Kernal64_read, Chargen_read} \<or> page_of a = 0 \<and> a \<ge> 2"

definition c64_rw :: "'x c64dev \<Rightarrow> u16 \<Rightarrow> bool" where
  "c64_rw d a \<longleftrightarrow> page_handler d a = Ram_read \<or> page_of a = 0 \<and> a \<ge> 2"

definition c64_wr :: "'x c64dev \<Rightarrow> u16 \<Rightarrow> bool" where
  "c64_wr d a \<longleftrightarrow> page_handler d a = Ram_read \<and> t_write (tabs d) (vbank d) (mem_config d) (page_of a) = Ram_store \<or>
     page_of a = 0 \<and> a \<ge> 2 \<and> vbank d \<noteq> 0"

lemma page_of_less: "page_of a \<le> 0xff"
proof -
  have "unat (drop_bit 8 a) = unat a div 256" by (simp add: drop_bit_eq_div unat_div)
  then show ?thesis using u16_lt [of a] by (simp add: page_of_def)
qed

lemma plain_read:
  assumes "plain d" "p \<le> 0xff"
  shows "t_read (tabs d) (mem_config d) p = pla_read (mem_config d) p"
  using assms initial_read [of "mem_config d" p static_tabs] by (simp add: plain_def)

lemma page_of_hi: "page_of a = unat (i_hi a)"
proof -
  have "unat a div 256 < 256" using u16_lt [of a] by simp
  then show ?thesis by (simp add: page_of_def i_hi_def drop_bit_eq_div unat_div unsigned_ucast_eq take_bit_eq_mod)
qed

lemma page_0 [simp]: "page_of (zp b) = 0"
  by (simp add: page_of_hi zp_def)

lemma pla_low: "pla c 0 = Reg_ram"
  by (simp add: pla_def Let_def)

lemma plain_zero:
  assumes "plain d" "p = 0 \<or> p = 0x100"
  shows "t_read (tabs d) (mem_config d) p = Zero_read" "t_write (tabs d) (vbank d) (mem_config d) p = Zero_store"
proof -
  have "t_read (tabs d) (mem_config d) 0x100 = t_read (tabs d) (mem_config d) 0"
    "t_write (tabs d) (vbank d) (mem_config d) 0x100 = t_write (tabs d) (vbank d) (mem_config d) 0"
    using assms(1) by (simp_all add: plain_def tabs entry)
  then show "t_read (tabs d) (mem_config d) p = Zero_read" "t_write (tabs d) (vbank d) (mem_config d) p = Zero_store"
    using assms initial_read [of "mem_config d" 0 static_tabs] initial_write [of "mem_config d" 0 "vbank d" static_tabs]
    by (auto simp: plain_def pla_read_def pla_store_def seg_def pla_low)
qed

lemma zero_page_handler: "plain d \<Longrightarrow> page_of a = 0 \<Longrightarrow> page_handler d a = Zero_read"
  by (simp add: page_handler_def plain_zero)

lemma c64_read_page:
  assumes "plain (dev g)" "page_handler (dev g) a \<in> {Ram_read, Basic64_read, Kernal64_read, Chargen_read}"
  shows "table_read h g (page_of a) a = (c64_peek (dev g) (mem_ram g) a, g)"
  using assms by (auto simp: table_read_def row_read_def plain_def page_handler_def c64_peek_def read_handler_def)

lemma and_ff_zp: "a AND 0xff = zp (i_lo a)"
proof -
  have "(0xff :: u16) = mask 8" by (simp add: mask_eq_exp_minus_1)
  then show ?thesis unfolding \<open>0xff = mask 8\<close> by (auto simp: zp_def mk16_def i_lo_def bit_simps intro!: bit_word_eqI)
qed

lemma c64_read_zero:
  assumes "plain (dev g)" "p = 0 \<or> p = 0x100" "2 \<le> zp (i_lo a)"
  shows "table_read h g p a = (c64_peek (dev g) (mem_ram g) (zp (i_lo a)), g)"
proof -
  have z: "zp (i_lo a) \<noteq> 0" "zp (i_lo a) \<noteq> 1" using assms(3) by (auto simp: word_le_nat_alt)
  have "zp (i_lo a) AND 0xff = zp (i_lo a)" by (simp add: and_ff_zp [symmetric] and.assoc)
  then show ?thesis
    using assms z plain_zero(1) [OF assms(1,2)] zero_page_handler [OF assms(1), of "zp (i_lo a)"]
    by (simp add: table_read_def row_read_def plain_def read_handler_def zero_read_def Let_def and_ff_zp c64_peek_def)
qed

lemma c64_write_zero:
  assumes "plain (dev g)" "p = 0 \<or> p = 0x100" "2 \<le> zp (i_lo a)" "vbank (dev g) \<noteq> 0"
  shows "table_store h g p a v = poke_ram (zp (i_lo a)) v g"
proof -
  have z: "zp (i_lo a) \<noteq> 0" "zp (i_lo a) \<noteq> 1" using assms(3) by (auto simp: word_le_nat_alt)
  then show ?thesis
    using assms plain_zero(2) [OF assms(1,2)]
    by (simp add: table_store_def row_store_def plain_def store_handler_def zero_store_def Let_def and_ff_zp)
qed

lemma c64_write_page:
  assumes "plain (dev g)" "t_write (tabs (dev g)) (vbank (dev g)) (mem_config (dev g)) (page_of a) = Ram_store"
  shows "table_store h g (page_of a) a v = poke_ram a v g"
  using assms by (simp add: table_store_def row_store_def plain_def store_handler_def)

lemma c64_rw_peek:
  assumes "plain d" "c64_rw d a"
  shows "c64_peek d ram a = ram a" "c64_peek d (ram(a := v)) = (c64_peek d ram)(a := v)"
proof -
  have h: "page_handler d a \<in> {Ram_read, Zero_read}"
    using assms zero_page_handler [OF assms(1), of a] by (auto simp: c64_rw_def)
  then show "c64_peek d ram a = ram a" by (auto simp: c64_peek_def)
  show "c64_peek d (ram(a := v)) = (c64_peek d ram)(a := v)"
  proof
    fix b show "c64_peek d (ram(a := v)) b = ((c64_peek d ram)(a := v)) b"
      using h by (cases "b = a") (auto simp: c64_peek_def split: read_func.splits)
  qed
qed

lemma c64_stack: "plain d \<Longrightarrow> c64_rw d (mk16 sp 1)"
proof -
  assume p: "plain d"
  have "page_of (mk16 sp 1) = 1" by (simp add: page_of_hi)
  moreover have "pla_read (mem_config d) 1 = Ram_read" by (simp add: pla_read_def seg_def pla_low)
  ultimately show ?thesis using plain_read [OF p, of 1] by (simp add: c64_rw_def page_handler_def)
qed

lemma rom_index:
  fixes a :: u16
  shows "(a - 0xd000) AND 0xfff = a AND 0xfff" "(a - 0xa000) AND 0x1fff = a AND 0x1fff" "(a - 0xe000) AND 0x1fff = a AND 0x1fff"
proof -
  have m: "(0xfff :: u16) = mask 12" "(0x1fff :: u16) = mask 13" by (simp_all add: mask_eq_exp_minus_1)
  have d: "take_bit n (a + b) = take_bit n a" if "n \<le> 16" "unat b mod 2 ^ n = 0" for b :: u16 and n
  proof (rule iffD2 [OF word_unat_eq_iff])
    have "(2 ^ n :: nat) dvd 2 ^ 16" using that(1) by (rule le_imp_power_dvd)
    then have "unat (a + b) mod 2 ^ n = (unat a + unat b) mod 2 ^ n"
      using unat_word_ariths(1) [of a b] by (simp add: mod_mod_cancel)
    also have "\<dots> = unat a mod 2 ^ n" using that(2) by (metis add.right_neutral mod_add_right_eq)
    finally show "unat (take_bit n (a + b)) = unat (take_bit n a)"
      unfolding unsigned_take_bit_eq unfolding take_bit_eq_mod .
  qed
  have e: "a - 0xd000 = a + 0x3000" "a - 0xa000 = a + 0x6000" "a - 0xe000 = a + 0x2000"
    by (simp_all add: diff_conv_add_uminus del: add_uminus_conv_diff)
  show "(a - 0xd000) AND 0xfff = a AND 0xfff" "(a - 0xa000) AND 0x1fff = a AND 0x1fff" "(a - 0xe000) AND 0x1fff = a AND 0x1fff"
    unfolding m take_bit_eq_mask [symmetric] e by (rule d; simp)+
qed

text \<open>The array a page is fetched from holds what its read handler returns.\<close>

lemma base_token_byte:
  "c64_bank_byte g (base_token Mem_ram) i = mem_ram g (ucast i)"
  "c64_bank_byte g (base_token Mem_chargen_rom) i = mem_chargen_rom (dev g) (ucast i AND 0xfff)"
  "c64_bank_byte g (base_token Basic64_rom) i = basic64_rom (dev g) (ucast i AND 0x1fff)"
  "c64_bank_byte g (base_token Kernal64_trap_rom) i = kernal64_trap_rom (dev g) (ucast i AND 0x1fff)"
  unfolding c64_bank_byte_def Let_def rom_index by (simp_all add: base_token_def)

lemma base_peek:
  assumes "plain (dev g)" "t_base (tabs (dev g)) (mem_config (dev g)) (page_of (ucast i)) \<noteq> BNull"
  shows "c64_bank_byte g (base_token (t_base (tabs (dev g)) (mem_config (dev g)) (page_of (ucast i)))) i =
    c64_peek (dev g) (mem_ram g) (ucast i)"
proof -
  let ?d = "dev g" and ?a = "ucast i :: u16"
  have c: "mem_config ?d < 32" "tabs ?d = mem_initialize_tabs 0 static_tabs" "kernal64_trap_rom ?d = kernal64_rom ?d"
    using assms(1) by (simp_all add: plain_def)
  have b: "t_base (tabs ?d) (mem_config ?d) (page_of ?a) = pla_base (mem_config ?d) (seg (page_of ?a))"
    using initial_base [OF c(1) page_of_less] c(2) by simp
  have r: "page_handler ?d ?a = pla_read (mem_config ?d) (page_of ?a)"
    using plain_read [OF assms(1) page_of_less] by (simp add: page_handler_def)
  have "pla_base (mem_config ?d) (seg (page_of ?a)) \<noteq> BNull" using assms(2) unfolding b .
  then show ?thesis unfolding b c64_peek_def r pla_base_def pla_read_def
    by (cases "pla (mem_config ?d) (seg (page_of ?a))") (simp_all only: region.case base_token_byte read_func.case c(3) split: if_split, simp_all)
qed

lemma translate_plain:
  assumes "plain (dev g)" "uint pc < 0x10000"
  obtains p l where "p = unat (drop_bit 8 pc)" "p \<le> 0xff" "t_base (tabs (dev g)) (mem_config (dev g)) p \<noteq> BNull" "2 \<le> pc"
      "l = t_limit (tabs (dev g)) (mem_config (dev g)) p"
      "c64_mmu_translate h g pc = (base_token (t_base (tabs (dev g)) (mem_config (dev g)) p), fetch_start l, fetch_limit l)"
  | "c64_mmu_translate h g pc = (0, 0, 0)"
proof -
  have "unat (drop_bit 8 pc) = unat pc div 256" by (simp add: drop_bit_eq_div unat_div)
  moreover have "unat pc < 0x10000"
  proof -
    have "int (unat pc) < 0x10000" using assms(2) by simp
    then show ?thesis by linarith
  qed
  ultimately have p: "unat (drop_bit 8 pc) \<le> 0xff" by simp
  have two: "2 \<le> pc" if "\<not> pc \<le> 1" using that by (simp add: word_le_nat_alt word_less_nat_alt)
  show thesis
  proof (cases "t_base (tabs (dev g)) (mem_config (dev g)) (unat (drop_bit 8 pc)) \<noteq> BNull \<and> 1 < pc")
    case True
    then show thesis using assms(1) p two
      by (intro that(1) [OF refl p _ _ refl]) (auto simp: c64_mmu_translate_def plain_def Let_def fetch_start_def fetch_limit_def)
  next
    case False
    then show thesis using assms(1)
      by (intro that(2)) (auto simp: c64_mmu_translate_def cartridge_mmu_translate_def plain_def Let_def)
  qed
qed

lemma translate_window:
  assumes "plain (dev g)" "uint pc < 0x10000" "c64_mmu_translate h g pc = (b, st, li)"
  shows "0 \<le> st \<and> st < 0x10000 \<and> 0 \<le> li \<and> li < 0x10000 \<and> (uint pc < li \<longrightarrow> st \<le> uint pc)"
    and "st \<le> uint i \<Longrightarrow> uint i < li \<Longrightarrow> k \<le> 2 \<Longrightarrow> dev g' = dev g \<Longrightarrow>
      c64_bank_byte g' b (i + k) = c64_peek (dev g') (mem_ram g') (ucast (i + k))"
proof -
  let ?d = "dev g"
  have c: "mem_config ?d < 32" "tabs ?d = mem_initialize_tabs 0 static_tabs" using assms(1) by (simp_all add: plain_def)
  show "0 \<le> st \<and> st < 0x10000 \<and> 0 \<le> li \<and> li < 0x10000 \<and> (uint pc < li \<longrightarrow> st \<le> uint pc)"
  proof (rule translate_plain [OF assms(1,2), of h])
    fix p l assume p: "p = unat (drop_bit 8 pc)" "p \<le> 0xff" "t_base (tabs ?d) (mem_config ?d) p \<noteq> BNull" "2 \<le> pc"
      "l = t_limit (tabs ?d) (mem_config ?d) p"
      "c64_mmu_translate h g pc = (base_token (t_base (tabs ?d) (mem_config ?d) p), fetch_start l, fetch_limit l)"
    have st: "st = fetch_start l" "li = fetch_limit l" using p(6) assms(3) by simp_all
    have "uint (drop_bit 16 l) < 2 ^ 16"
      using uint_lt2p [of l] by (simp add: drop_bit_eq_div uint_div)
    moreover have "uint (l AND 0xffff) \<le> 0xffff"
    proof -
      have "l AND 0xffff \<le> 0xffff" by (rule word_and_le1)
      then show ?thesis by (simp add: word_le_def)
    qed
    moreover have "st \<le> uint pc" if "uint pc < li"
    proof -
      have "seg p < 7" by (simp add: seg_def)
      moreover have lt: "l = limit_tab ! seg p ! mem_config ?d" using initial_limit [OF c(1) p(2)] c(2) p(5) by simp
      moreover have "pla_base (mem_config ?d) (seg p) \<noteq> BNull" using initial_base [OF c(1) p(2)] c(2) p(3) by simp
      moreover have "fetch_limit l \<noteq> 0" using that st uint_ge_0 [of pc] by linarith
      ultimately have "st \<le> max 2 (seg_first ! seg p)" using window_checked(1) [OF c(1)] st by simp
      moreover have "seg_first ! seg p \<le> 256 * int p"
        using p(2) by (cases p rule: seg_cases; simp add: seg_first_def)
      moreover have "256 * int p \<le> uint pc"
      proof -
        have "int p = uint pc div 256" unfolding p(1) by (simp add: drop_bit_eq_div uint_div)
        then show ?thesis by simp
      qed
      moreover have "2 \<le> uint pc" using p(4) by (simp add: word_le_def)
      ultimately show ?thesis by linarith
    qed
    ultimately show ?thesis unfolding st fetch_start_def fetch_limit_def using uint_ge_0 by (auto simp: st fetch_start_def fetch_limit_def)
  next
    assume "c64_mmu_translate h g pc = (0, 0, 0)"
    then show ?thesis using assms(3) by simp
  qed
  assume i: "st \<le> uint i" "uint i < li" and k: "k \<le> 2" and d: "dev g' = dev g"
  show "c64_bank_byte g' b (i + k) = c64_peek (dev g') (mem_ram g') (ucast (i + k))"
  proof (rule translate_plain [OF assms(1,2), of h])
    fix p l assume p: "p = unat (drop_bit 8 pc)" "p \<le> 0xff" "t_base (tabs ?d) (mem_config ?d) p \<noteq> BNull" "2 \<le> pc"
      "l = t_limit (tabs ?d) (mem_config ?d) p"
      "c64_mmu_translate h g pc = (base_token (t_base (tabs ?d) (mem_config ?d) p), fetch_start l, fetch_limit l)"
    have st: "b = base_token (t_base (tabs ?d) (mem_config ?d) p)" "st = fetch_start l" "li = fetch_limit l"
      using p(6) assms(3) by simp_all
    have k2: "unat k \<le> 2" using k by (simp add: word_le_nat_alt)
    have w: "(unat i + unat k) div 256 \<le> 0xff \<and> t_base (tabs ?d) (mem_config ?d) ((unat i + unat k) div 256) = t_base (tabs ?d) (mem_config ?d) p"
      using fetch_window [OF c(1) p(2), of static_tabs "unat i" "unat k"] p(3,5) i k2 st c(2) by simp
    have "(unat i + unat k) div 256 < 256" using conjunct1 [OF w] by linarith
    then have n: "unat i + unat k < 0x10000"
      using div_less_iff_less_mult [of 256 "unat i + unat k" 256] by simp
    then have u: "unat (i + k) = unat i + unat k" using unat_word_ariths(1) [of i k] by simp
    have "unat (ucast (i + k) :: u16) = unat i + unat k"
      using n by (simp add: unsigned_ucast_eq take_bit_eq_mod u)
    then have pg: "page_of (ucast (i + k)) = (unat i + unat k) div 256"
      by (simp add: page_of_def drop_bit_eq_div unat_div)
    show ?thesis
      using base_peek [of g' "i + k"] assms(1) d w p(3) unfolding st pg by simp
  next
    assume "c64_mmu_translate h g pc = (0, 0, 0)"
    then show ?thesis using assms(3) i uint_ge_0 [of i] by simp
  qed
qed

interpretation c64: ram_bus "c64_machine h base" plain c64_rd c64_wr c64_rw c64_peek for h base
proof (unfold_locales, goal_cases)
  case (1 g p a)
  then show ?case using c64_read_zero by (auto simp: c64_machine_def c64_rd_def zero_page_handler)
next
  case (2 g a)
  then have "page_handler (dev g) a \<in> {Ram_read, Basic64_read, Kernal64_read, Chargen_read}"
    by (auto simp: c64_rd_def page_of_hi unat_eq_zero)
  then show ?case using c64_read_page [OF 2(1), of a h] by (simp add: c64_machine_def page_of_hi)
next
  case (3 g p a v)
  then have "2 \<le> zp (i_lo a)" "vbank (dev g) \<noteq> 0" by (auto simp: c64_wr_def zero_page_handler)
  then show ?case using c64_write_zero [OF 3(1,2), of a h v] by (simp add: c64_machine_def poke_ram_def)
next
  case (4 g a v)
  then have "t_write (tabs (dev g)) (vbank (dev g)) (mem_config (dev g)) (page_of a) = Ram_store"
    by (auto simp: c64_wr_def page_of_hi unat_eq_zero)
  then show ?case using c64_write_page [OF 4(1), of a h v] by (simp add: c64_machine_def page_of_hi poke_ram_def)
next
  case (5 d a ram v)
  then show ?case by (rule c64_rw_peek)
next
  case (6 d a ram)
  then show ?case by (rule c64_rw_peek)
next
  case (7 d a)
  then show ?case by (auto simp: c64_wr_def c64_rw_def)
next
  case (8 d a)
  then show ?case by (auto simp: c64_rd_def c64_rw_def)
next
  case (9 d sp)
  then show ?case by (rule c64_stack)
next
  case (10 g pc b st li)
  then show ?case using translate_window(1) by (simp add: c64_machine_def)
next
  case (11 g pc b st li i k g')
  then show ?case using translate_window(2) [OF 11(1,2)] by (simp add: c64_machine_def)
next
  case (12 g)
  then show ?case by (simp add: c64_machine_def)
next
  case (13 g)
  then show ?case by (simp add: c64_machine_def plain_def)
qed

section \<open>The C64 runs its instruction set\<close>

text \<open>What the program sees of the machine: the registers, the flags and the memory of the current configuration.\<close>

definition c64_abs :: "'x c64dev cpu \<Rightarrow> isa" where
  "c64_abs s = \<lparr>i_pc = ucast (reg_pc (glb s)), i_a = reg_a s, i_x = reg_x s, i_y = reg_y s,
     i_s = reg_sp s, i_n = bit (flag_n s) 7, i_v = bit (reg_p s) 6, i_d = bit (reg_p s) 3,
     i_i = bit (reg_p s) 2, i_z = (flag_z s = 0), i_c = bit (reg_p s) 0,
     i_mem = c64_peek (dev (glb s)) (mem_ram (glb s)), i_cyc = maincpu_clk (glb s)\<rparr>"

text \<open>The next instruction is documented or stable, and lies, with its operands, in memory without side effects.\<close>

definition c64_within :: "'x c64dev cpu \<Rightarrow> bool" where
  "c64_within s \<longleftrightarrow> (let t = c64_abs s in unat (reg_pc (glb s)) < 0x100fe \<and>
     (case isa_decode (i_mem t (i_pc t)) of None \<Rightarrow> False
      | Some (ins, md, n) \<Rightarrow>
          list_all (c64_rd (dev (glb s))) (isa_fetched md t) \<and>
          list_all (c64_rd (dev (glb s))) (isa_reads ins md (isa_word t) t) \<and>
          list_all (c64_wr (dev (glb s))) (isa_writes ins md (isa_word t) t)))"

definition c64_turn :: "'x c64_hooks \<Rightarrow> 'x c64dev machine \<Rightarrow> 'x c64dev cpu \<Rightarrow> 'x c64dev cpu" where
  "c64_turn h m s = snd (run_state (cpu_step (c64_machine h m)) s)"

text \<open>A plain C64 about to fetch, its fetch window empty, with no interrupt pending.\<close>

definition c64_start :: "'x c64dev cpu \<Rightarrow> bool" where
  "c64_start s \<longleftrightarrow> plain (dev (glb s)) \<and> bank_start (glb s) = 0 \<and> bank_limit (glb s) = 0 \<and>
     \<not> bit (reg_p s) 1 \<and> \<not> bit (reg_p s) 7 \<and> global_pending_int (maincpu_int_status (glb s)) = 0"

text \<open>The next alarm is more than \<open>n\<close> cycles away.\<close>

definition alarm_after :: "nat \<Rightarrow> 'x c64dev cpu \<Rightarrow> bool" where
  "alarm_after n s \<longleftrightarrow>
     unat (maincpu_clk (glb s)) + n < unat (alarm_context_next_pending_clk (actx (maincpu_alarm_context (glb s))))"

lemma c64_names:
  "c64.abs_cpu s = c64_abs s" "c64.within s = c64_within s" "c64.turns h m n s = (c64_turn h m ^^ n) s"
  "c64.quiet n (glb s) = alarm_after n s"
  by (simp_all add: c64.abs_cpu_def c64_abs_def c64.within_def c64_within_def c64.turns_def c64_turn_def [abs_def] c64.quiet_def
      alarm_after_def)

lemma c64_start_free: "c64_start s \<Longrightarrow> alarm_after 6 s \<Longrightarrow> c64.free h m 6 s"
  by (simp add: c64_start_def c64.free_def c64.settled_def c64.banks_def clean_def c64_names)

text \<open>
  C1 (c64_runs_isa). The main loop of the 6510 core on the memory system of a plain C64 refines the instruction set: after any
  number of turns the registers, flags, visible memory and cycle count are those of as many steps of the reference
  instruction set, as long as the instructions run in memory without side effects and no alarm comes due; no step
  faults or changes the configuration.
\<close>

theorem c64_runs_isa:
  assumes "c64_start s"
    and "\<forall>i<n. c64_within ((c64_turn h m ^^ i) s) \<and> alarm_after 6 ((c64_turn h m ^^ i) s)"
  shows "c64_abs ((c64_turn h m ^^ n) s) = (isa_step ^^ n) (c64_abs s) \<and>
    fault (glb ((c64_turn h m ^^ n) s)) = fault (glb s) \<and> dev (glb ((c64_turn h m ^^ n) s)) = dev (glb s)"
proof (cases n)
  case (Suc k)
  then have "alarm_after 6 s" using assms(2) by auto
  then have "c64.lands h m s (c64.turns h m n s) ((isa_step ^^ n) (c64.abs_cpu s))"
    using assms c64_start_free by (intro c64.turns_lands) (simp_all add: c64_names)
  then show ?thesis by (simp add: c64.lands_def c64.kept_def c64_names)
qed simp

text \<open>A C64 with \<open>LDA #$05; STA $C100\<close> at $C000, BASIC, I/O and KERNAL visible.\<close>

definition wit_c64dev :: "unit c64dev" where
  "wit_c64dev = \<lparr>pport = \<lparr>pp_dir = 0x2f, pp_data = 0x37, pp_dir_read = 0x2f, pp_data_read = 0x37, pp_data_out = 0x27,
       data_set_clk_bit6 = 0, data_set_clk_bit7 = 0, data_set_bit6 = 0, data_set_bit7 = 0, data_falloff_bit6 = False,
       data_falloff_bit7 = False\<rparr>,
     old_port_data_out = 0x20, old_port_write_bit = 0, old_port_sense_out = 0, mem_color_ram = \<lambda>_. 0, mem_chargen_rom = \<lambda>_. 0,
     basic64_rom = \<lambda>_. 0, kernal64_rom = \<lambda>_. 0, kernal64_trap_rom = \<lambda>_. 0, tabs = mem_initialize_tabs 0 static_tabs,
     read_tab_ptr = Read_row 7, write_tab_ptr = Write_row 0 7, read_base_tab_ptr = 7, read_limit_tab_ptr = 7, vbank = 0,
     mem_config = 7, tape_sense = 0, tape_write_in = 0, tape_motor_in = 0, watchpoints_active = False, export_exrom = 0,
     export_game = 0, c64_256k_enabled = False, plus256k_enabled = False, plus60k_enabled = False,
     device_enabled = \<lambda>_. False, mem_cartridge_type = - 1, z80_started = False, o_bank_set = True,
     vic = \<lparr>viciie = False, fetch_clk = 0xffff, draw_clk = 0xffff, fetch_idx = VICII_FETCH_MATRIX, store_clk = - 1,
       store_addr = 0, store_value = 0, ram_base_phi2 = 1\<rparr>, ext = ()\<rparr>"

definition wit_c64 :: "unit c64dev cpu" where
  "wit_c64 = \<lparr>glb = \<lparr>maincpu_clk = 6, maincpu_int_status = zeroed_status, maincpu_alarm_context = wit_start,
       maincpu_rmw_flag = 0, last_opcode_info = 0, last_opcode_addr = 0, maincpu_regs = maincpu_regs (glb wit_cpu),
       reg_pc = 0xc000, bank_base = 0, bank_start = 0, bank_limit = 0,
       mem_ram = (\<lambda>_. 0)(0xc000 := 0xa9, 0xc001 := 0x05, 0xc002 := 0x8d, 0xc003 := 0x00, 0xc004 := 0xc1),
       fault = False, dev = wit_c64dev\<rparr>,
     reg_a = 0, reg_x = 0, reg_y = 0, reg_p = 0x20, reg_sp = 0xff, flag_n = 0, flag_z = 1\<rparr>"

lemma wit_plain: "plain wit_c64dev"
  by (simp add: plain_def wit_c64dev_def mmu_main_slot_def)

lemma wit_page_c0: "page_of a = 0xc0 \<Longrightarrow> page_handler wit_c64dev a = Ram_read"
  using plain_read [OF wit_plain, of "0xc0"] 
  by (simp add: page_handler_def pla_read_def pla_def seg_def ultimax_def wit_c64dev_def)

lemma wit_peek: "page_of a = 0xc0 \<Longrightarrow> c64_peek wit_c64dev ram a = ram a"
  by (simp add: c64_peek_def wit_page_c0)

lemma wit_decode: "isa_decode 0xa9 = Some (Rd Lda, Imm, 2)"
  by (simp add: isa_decode_def isa_opcodes_def)

lemma wit_within: "c64_within wit_c64" "alarm_after 6 wit_c64" "c64_start wit_c64"
proof -
  have p: "page_of 0xc000 = 0xc0" "page_of 0xc001 = 0xc0" by (simp_all add: page_of_def)
  have g: "dev (glb wit_c64) = wit_c64dev" "reg_pc (glb wit_c64) = 0xc000" "mem_ram (glb wit_c64) 0xc000 = 0xa9"
    by (simp_all add: wit_c64_def)
  have t: "i_pc (c64_abs wit_c64) = 0xc000" "i_mem (c64_abs wit_c64) 0xc000 = 0xa9"
    using g by (simp_all add: c64_abs_def wit_peek p)
  have r: "c64_rd wit_c64dev 0xc000" "c64_rd wit_c64dev 0xc001" by (simp_all add: c64_rd_def wit_page_c0 p)
  show "c64_within wit_c64" using r
    by (simp add: c64_within_def Let_def t g wit_decode isa_fetched_def)
  show "alarm_after 6 wit_c64"
    by (simp add: alarm_after_def wit_c64_def wit_start_def alarm_context_new_def alarm_context_init_def
        alarm_context_next_pending_clk_def unsigned_minus_1_eq_mask mask_eq_exp_minus_1)
  show "c64_start wit_c64"
    using wit_plain by (simp add: c64_start_def wit_c64_def zeroed_status_def)
qed

theorem c64_runs_isa_witness:
  "\<forall>h m. c64_abs (c64_turn h m wit_c64) = isa_step (c64_abs wit_c64) \<and> \<not> fault (glb (c64_turn h m wit_c64))"
proof (intro allI)
  fix h :: "unit c64_hooks" and m :: "unit c64dev machine"
  show "c64_abs (c64_turn h m wit_c64) = isa_step (c64_abs wit_c64) \<and> \<not> fault (glb (c64_turn h m wit_c64))"
    using c64_runs_isa [where s = wit_c64 and n = 1 and h = h and m = m] wit_within by (simp add: wit_c64_def)
qed
end
