(* ===== verification/CiaTimer.thy ===== *)
theory CiaTimer
  imports Alarm
begin

unbundle bit_operations_syntax

text \<open>
  The timer of the MOS 6526 CIA, ciatimer.c and ciatimer.h. A timer is a word of state bits, a counter and a latch, advanced
  to a clock tick on demand: \<open>ciat_update\<close> steps cycle by cycle through a table of successor states, and jumps over stretches
  in which the counter only counts down, stands still or reloads. \<open>ciat_set_alarm\<close> computes the next underflow and sets the
  alarm for it. The first part translates the operations, the second gives the cycle the loop repeats as the reference and
  proves that the jumps land where the cycles would, and the third that the alarm is set for the first underflow.

  A C \<open>int\<close> here counts underflows; it is kept as the 32 bits it occupies.
\<close>

section \<open>State and operations\<close>

definition CIAT_TABLEN :: nat where "CIAT_TABLEN = 2 * 2 ^ 13"
definition CIAT_CR_START :: u16 where "CIAT_CR_START = 0x001"
definition CIAT_CR_ONESHOT :: u16 where "CIAT_CR_ONESHOT = 0x008"
definition CIAT_CR_FLOAD :: u16 where "CIAT_CR_FLOAD = 0x010"
definition CIAT_PHI2IN :: u16 where "CIAT_PHI2IN = 0x020"
definition CIAT_STEP :: u16 where "CIAT_STEP = 0x004"
definition CIAT_COUNT2 :: u16 where "CIAT_COUNT2 = 0x002"
definition CIAT_COUNT3 :: u16 where "CIAT_COUNT3 = 0x040"
definition CIAT_COUNT :: u16 where "CIAT_COUNT = 0x800"
definition CIAT_LOAD1 :: u16 where "CIAT_LOAD1 = 0x080"
definition CIAT_ONESHOT0 :: u16 where "CIAT_ONESHOT0 = 0x100"
definition CIAT_ONESHOT :: u16 where "CIAT_ONESHOT = 0x1000"
definition CIAT_LOAD :: u16 where "CIAT_LOAD = 0x200"
definition CIAT_OUT :: u16 where "CIAT_OUT = 0x400"
definition CIAT_CR_MASK :: u16 where "CIAT_CR_MASK = 0x039"

record ciat =
  ciat_name :: string
  tstate :: u16
  latch :: u16
  cnt :: u16
  alarmclk :: clock
  tclk :: clock
  talarm :: nat

text \<open>The body of the loop of \<open>ciat_init_table\<close>, and the table; an index beyond the table is the result None.\<close>

definition ciat_entry :: "u16 \<Rightarrow> u16" where
  "ciat_entry i =
    (let tmp = i AND (CIAT_CR_START OR CIAT_CR_ONESHOT OR CIAT_PHI2IN);
         tmp = (if truth (i AND CIAT_CR_START) \<and> truth (i AND CIAT_PHI2IN) then tmp OR CIAT_COUNT2 else tmp);
         tmp = (if truth (i AND CIAT_COUNT2) \<or> truth (i AND CIAT_STEP) \<and> truth (i AND CIAT_CR_START)
                then tmp OR CIAT_COUNT3 else tmp);
         tmp = (if truth (i AND CIAT_COUNT3) then tmp OR CIAT_COUNT else tmp);
         tmp = (if truth (i AND CIAT_CR_FLOAD) then tmp OR CIAT_LOAD1 else tmp);
         tmp = (if truth (i AND CIAT_LOAD1) then tmp OR CIAT_LOAD else tmp);
         tmp = (if truth (i AND CIAT_CR_ONESHOT) then tmp OR CIAT_ONESHOT0 else tmp)
     in if truth (i AND CIAT_ONESHOT0) then tmp OR CIAT_ONESHOT else tmp)"

definition ciat_init_table :: "u16 list" where
  "ciat_init_table = map (\<lambda>i. ciat_entry (word_of_nat i)) [0..<CIAT_TABLEN]"

definition ciat_table :: "u16 \<Rightarrow> u16 option" where
  "ciat_table t = arr_get ciat_init_table (uint t)"

definition ciat_init :: "ciat \<Rightarrow> string \<Rightarrow> clock \<Rightarrow> nat \<Rightarrow> ciat" where
  "ciat_init c name cclk a = c\<lparr>ciat_name := name, tclk := cclk, alarmclk := CLOCK_MAX, cnt := 0xffff, latch := 0xffff,
     talarm := a\<rparr>"

definition ciat_reset :: "clock \<Rightarrow> ciat \<Rightarrow> alarm_sys \<Rightarrow> (ciat \<times> alarm_sys) option" where
  "ciat_reset cclk c q = map_option (Pair (c\<lparr>tclk := cclk, alarmclk := CLOCK_MAX, cnt := 0xffff, latch := 0xffff,
     tstate := 0\<rparr>)) (alarm_unset (talarm c) q)"

definition ciat_prevent_clock_overflow :: "clock \<Rightarrow> ciat \<Rightarrow> ciat" where
  "ciat_prevent_clock_overflow sub c =
    (let c = c\<lparr>tclk := tclk c - sub\<rparr>
     in if alarmclk c < CLOCK_MAX then c\<lparr>alarmclk := alarmclk c - sub\<rparr> else c)"

text \<open>The one-shot bits agree: the last clause of both jump conditions.\<close>

definition oneshot_settled :: "u16 \<Rightarrow> bool" where
  "oneshot_settled t \<longleftrightarrow>
     truth (t AND CIAT_CR_ONESHOT) \<and> truth (t AND CIAT_ONESHOT0) \<and> truth (t AND CIAT_ONESHOT) \<or>
     t AND CIAT_CR_ONESHOT = 0 \<and> t AND CIAT_ONESHOT0 = 0 \<and> t AND CIAT_ONESHOT = 0"

definition warp_counting :: "u16 \<Rightarrow> bool" where
  "warp_counting t \<longleftrightarrow>
     t AND (CIAT_CR_START OR CIAT_CR_FLOAD OR CIAT_LOAD1 OR CIAT_PHI2IN OR CIAT_COUNT2 OR CIAT_COUNT3 OR CIAT_COUNT OR
            CIAT_LOAD) =
       CIAT_CR_START OR CIAT_PHI2IN OR CIAT_COUNT2 OR CIAT_COUNT3 OR CIAT_COUNT \<and>
     oneshot_settled t"

definition not_counting :: "u16 \<Rightarrow> bool" where
  "not_counting t \<longleftrightarrow> t AND (CIAT_COUNT2 OR CIAT_COUNT3 OR CIAT_COUNT) = 0 \<and>
     (t AND CIAT_CR_START = 0 \<or> t AND (CIAT_PHI2IN OR CIAT_STEP) = 0)"

text \<open>The two tests that end an iteration of \<open>ciat_update\<close>: reload, and stop after a one-shot.\<close>

definition reload :: "ciat \<Rightarrow> u16 \<Rightarrow> u16 \<times> u16" where
  "reload c t = (if truth (t AND CIAT_LOAD) then (latch c, t AND NOT CIAT_COUNT3) else (cnt c, t))"

definition oneshot_stop :: "u16 \<Rightarrow> u16" where
  "oneshot_stop t = (if truth (t AND CIAT_OUT) \<and> truth (t AND (CIAT_ONESHOT OR CIAT_ONESHOT0))
     then t AND NOT (CIAT_CR_START OR CIAT_COUNT2) else t)"

text \<open>One cycle: the branch \<open>inc\<close> of both loops.\<close>

definition ciat_inc :: "ciat \<Rightarrow> u16 \<Rightarrow> (ciat \<times> u16) option" where
  "ciat_inc c t = do {
     t' \<leftarrow> ciat_table t;
     Some ((if truth (cnt c) \<and> truth (t AND CIAT_COUNT3) then c\<lparr>cnt := cnt c - 1\<rparr> else c)\<lparr>tclk := tclk c + 1\<rparr>, t')
   }"

text \<open>The end of an iteration of \<open>ciat_update\<close>, after one of its branches.\<close>

definition ciat_settle :: "ciat \<Rightarrow> u16 \<Rightarrow> u32 \<Rightarrow> ciat \<times> u16 \<times> u32" where
  "ciat_settle c t n =
    (let (t, n) = (if cnt c = 0 \<and> truth (t AND CIAT_COUNT3) then (t OR (CIAT_LOAD OR CIAT_OUT), n + 1) else (t, n));
         (v, t) = reload c t
     in (c\<lparr>cnt := v\<rparr>, oneshot_stop t, n))"

definition count_warp :: "clock \<Rightarrow> ciat \<Rightarrow> u16 \<Rightarrow> u32 \<Rightarrow> ciat \<times> u32" where
  "count_warp cclk c t n =
    (if tclk c + ucast (cnt c) > cclk then (c\<lparr>cnt := cnt c - ucast (cclk - tclk c), tclk := cclk\<rparr>, n)
     else (let c = c\<lparr>tclk := tclk c + ucast (cnt c), cnt := 0\<rparr> in
       if truth (t AND (CIAT_CR_ONESHOT OR CIAT_ONESHOT0)) then (c, n)
       else if uint (ucast (cclk - tclk c) :: u16) \<ge> uint (latch c) + 1 then
         (let m = (cclk - tclk c) div (ucast (latch c) + 1) in
          (c\<lparr>tclk := tclk c + m * (ucast (latch c) + 1)\<rparr>, n + m))
       else (c, n)))"

definition alternating :: "u16 \<Rightarrow> ciat \<Rightarrow> bool" where
  "alternating t c \<longleftrightarrow> t = CIAT_COUNT OR CIAT_OUT OR CIAT_LOAD OR CIAT_PHI2IN OR CIAT_COUNT2 OR CIAT_CR_START \<and>
     cnt c = 1 \<and> latch c = 1"

definition ciat_branch :: "clock \<Rightarrow> ciat \<Rightarrow> u16 \<Rightarrow> u32 \<Rightarrow> (ciat \<times> u16 \<times> u32) option" where
  "ciat_branch cclk c t n =
    (if warp_counting t then (let (c, n) = count_warp cclk c t n in Some (c, t, n))
     else if not_counting t \<and> t AND (CIAT_CR_FLOAD OR CIAT_LOAD1 OR CIAT_LOAD) = 0 \<and> oneshot_settled t then
       Some (c\<lparr>tclk := cclk\<rparr>, t, n)
     else if alternating t c then
       (let m = (cclk - tclk c) AND NOT 1 in
        if truth m then Some (c\<lparr>tclk := tclk c + m\<rparr>, t, n + signed_drop_bit 1 m)
        else do { t' \<leftarrow> ciat_table t; Some (c\<lparr>tclk := tclk c + 1\<rparr>, t', n) })
     else do { (c', t') \<leftarrow> ciat_inc c t; Some (c', t', n) })"

text \<open>The loop of \<open>ciat_update\<close>; a loop that does not end is None.\<close>

partial_function (option) ciat_update_loop :: "clock \<Rightarrow> ciat \<Rightarrow> u16 \<Rightarrow> u32 \<Rightarrow> (ciat \<times> u16 \<times> u32) option" where
  "ciat_update_loop cclk c t n =
    (if tclk c < cclk then do {
       (c1, t1, n1) \<leftarrow> ciat_branch cclk c t n;
       let (c2, t2, n2) = ciat_settle c1 t1 n1;
       ciat_update_loop cclk c2 t2 n2
     } else Some (c, t, n))"

definition ciat_update :: "clock \<Rightarrow> ciat \<Rightarrow> (ciat \<times> u32) option" where
  "ciat_update cclk c = map_option (\<lambda>(c, t, n). (c\<lparr>tstate := t\<rparr>, n)) (ciat_update_loop cclk c (tstate c) 0)"

text \<open>The search of \<open>ciat_set_alarm\<close> for the next underflow, on local copies of clock, counter and state bits.\<close>

partial_function (option) set_alarm_loop :: "ciat \<Rightarrow> u16 \<Rightarrow> clock option" where
  "set_alarm_loop c t =
    (if warp_counting t then Some (tclk c + ucast (cnt c))
     else if not_counting t \<and> oneshot_settled t then Some CLOCK_MAX
     else do {
       (c1, t1) \<leftarrow> ciat_inc c t;
       if cnt c1 = 0 \<and> truth (t1 AND CIAT_COUNT3) then Some (tclk c1)
       else (let (v, t2) = reload c1 t1 in set_alarm_loop (c1\<lparr>cnt := v\<rparr>) (oneshot_stop t2))
     })"

definition ciat_set_alarm :: "ciat \<Rightarrow> alarm_sys \<Rightarrow> (ciat \<times> alarm_sys) option" where
  "ciat_set_alarm c q = do {
     tmp \<leftarrow> set_alarm_loop c (tstate c);
     q' \<leftarrow> (if tmp \<noteq> CLOCK_MAX then alarm_set (talarm c) tmp q else alarm_unset (talarm c) q);
     Some (c\<lparr>alarmclk := tmp\<rparr>, q')
   }"

definition ciat_alarm_clk :: "ciat \<Rightarrow> clock" where "ciat_alarm_clk c = alarmclk c"
definition ciat_read_latch :: "ciat \<Rightarrow> u16" where "ciat_read_latch c = latch c"
definition ciat_read_timer :: "ciat \<Rightarrow> u16" where "ciat_read_timer c = cnt c"

definition ciat_is_underflow_clk :: "ciat \<Rightarrow> u16" where
  "ciat_is_underflow_clk c = (if truth (tstate c AND CIAT_OUT) then 1 else 0)"

definition ciat_is_running :: "ciat \<Rightarrow> u16" where
  "ciat_is_running c = (if truth (tstate c AND CIAT_CR_START) then 1 else 0)"

text \<open>\<open>ciat_single_step\<close> always returns 0.\<close>

definition ciat_single_step :: "ciat \<Rightarrow> alarm_sys \<Rightarrow> (ciat \<times> alarm_sys) option" where
  "ciat_single_step c q = (if truth (tstate c AND CIAT_CR_START)
     then ciat_set_alarm (c\<lparr>tstate := tstate c OR CIAT_STEP\<rparr>) q else Some (c, q))"

definition ciat_set_latchhi :: "u8 \<Rightarrow> ciat \<Rightarrow> alarm_sys \<Rightarrow> (ciat \<times> alarm_sys) option" where
  "ciat_set_latchhi byte c q =
    (let c = c\<lparr>latch := (latch c AND 0xff) OR push_bit 8 (ucast byte)\<rparr>;
         c = (if truth (tstate c AND CIAT_LOAD) \<or> tstate c AND CIAT_CR_START = 0 then c\<lparr>cnt := latch c\<rparr> else c)
     in ciat_set_alarm c q)"

definition ciat_set_latchlo :: "u8 \<Rightarrow> ciat \<Rightarrow> alarm_sys \<Rightarrow> (ciat \<times> alarm_sys) option" where
  "ciat_set_latchlo byte c q =
    (let c = c\<lparr>latch := (latch c AND 0xff00) OR ucast byte\<rparr>;
         c = (if truth (tstate c AND CIAT_LOAD) then c\<lparr>cnt := (cnt c AND 0xff00) OR ucast byte\<rparr> else c)
     in ciat_set_alarm c q)"

definition ciat_set_ctrl :: "u8 \<Rightarrow> ciat \<Rightarrow> alarm_sys \<Rightarrow> (ciat \<times> alarm_sys) option" where
  "ciat_set_ctrl byte c q = ciat_set_alarm
     (c\<lparr>tstate := (tstate c AND NOT CIAT_CR_MASK) OR ((ucast byte AND CIAT_CR_MASK) XOR CIAT_PHI2IN)\<rparr>) q"

definition ciat_ack_alarm :: "ciat \<Rightarrow> alarm_sys \<Rightarrow> (ciat \<times> alarm_sys) option" where
  "ciat_ack_alarm c q = map_option (Pair (c\<lparr>alarmclk := CLOCK_MAX\<rparr>)) (alarm_unset (talarm c) q)"

text \<open>\<open>ciat_save_snapshot\<close> writes the state word for versions from 1.0 on; \<open>word\<close> is what \<open>ciat_load_snapshot\<close> reads back.\<close>

definition ciat_save_snapshot :: "ciat \<Rightarrow> int \<Rightarrow> u16 option" where
  "ciat_save_snapshot c ver = (if ver \<ge> 0x100 then Some (tstate c) else None)"

definition ciat_load_snapshot ::
    "clock \<Rightarrow> u16 \<Rightarrow> u16 \<Rightarrow> u8 \<Rightarrow> u16 \<Rightarrow> int \<Rightarrow> ciat \<Rightarrow> alarm_sys \<Rightarrow> (ciat \<times> alarm_sys) option" where
  "ciat_load_snapshot cclk cn la cr word ver c q =
    (let c = c\<lparr>tclk := cclk, cnt := cn, latch := la\<rparr>;
         t = ucast cr :: u16;
         t1 = (if truth (t AND CIAT_CR_START) then t OR (CIAT_COUNT2 OR CIAT_COUNT3 OR CIAT_COUNT) else t);
         t2 = (if truth (t AND CIAT_CR_ONESHOT) then t1 OR (CIAT_ONESHOT0 OR CIAT_ONESHOT) else t1)
     in ciat_set_alarm (c\<lparr>tstate := (if ver \<ge> 0x101 then word else t2)\<rparr>) q)"

section \<open>State bits\<close>

named_theorems tbit \<open>state words as sets of bits\<close>

lemma bit_CIAT [tbit]:
  "bit CIAT_CR_START k \<longleftrightarrow> k = 0" "bit CIAT_COUNT2 k \<longleftrightarrow> k = 1" "bit CIAT_STEP k \<longleftrightarrow> k = 2"
  "bit CIAT_CR_ONESHOT k \<longleftrightarrow> k = 3" "bit CIAT_CR_FLOAD k \<longleftrightarrow> k = 4" "bit CIAT_PHI2IN k \<longleftrightarrow> k = 5"
  "bit CIAT_COUNT3 k \<longleftrightarrow> k = 6" "bit CIAT_LOAD1 k \<longleftrightarrow> k = 7" "bit CIAT_ONESHOT0 k \<longleftrightarrow> k = 8"
  "bit CIAT_LOAD k \<longleftrightarrow> k = 9" "bit CIAT_OUT k \<longleftrightarrow> k = 10" "bit CIAT_COUNT k \<longleftrightarrow> k = 11"
  "bit CIAT_ONESHOT k \<longleftrightarrow> k = 12"
proof -
  have c: "CIAT_CR_START = push_bit 0 1" "CIAT_COUNT2 = push_bit 1 1" "CIAT_STEP = push_bit 2 1" "CIAT_CR_ONESHOT = push_bit 3 1"
    "CIAT_CR_FLOAD = push_bit 4 1" "CIAT_PHI2IN = push_bit 5 1" "CIAT_COUNT3 = push_bit 6 1" "CIAT_LOAD1 = push_bit 7 1"
    "CIAT_ONESHOT0 = push_bit 8 1" "CIAT_LOAD = push_bit 9 1" "CIAT_OUT = push_bit 10 1" "CIAT_COUNT = push_bit 11 1"
    "CIAT_ONESHOT = push_bit 12 1"
    by (simp_all add: CIAT_CR_START_def CIAT_COUNT2_def CIAT_STEP_def CIAT_CR_ONESHOT_def CIAT_CR_FLOAD_def CIAT_PHI2IN_def
        CIAT_COUNT3_def CIAT_LOAD1_def CIAT_ONESHOT0_def CIAT_LOAD_def CIAT_OUT_def CIAT_COUNT_def CIAT_ONESHOT_def)
  show "bit CIAT_CR_START k \<longleftrightarrow> k = 0" "bit CIAT_COUNT2 k \<longleftrightarrow> k = 1" "bit CIAT_STEP k \<longleftrightarrow> k = 2"
    "bit CIAT_CR_ONESHOT k \<longleftrightarrow> k = 3" "bit CIAT_CR_FLOAD k \<longleftrightarrow> k = 4" "bit CIAT_PHI2IN k \<longleftrightarrow> k = 5"
    "bit CIAT_COUNT3 k \<longleftrightarrow> k = 6" "bit CIAT_LOAD1 k \<longleftrightarrow> k = 7" "bit CIAT_ONESHOT0 k \<longleftrightarrow> k = 8"
    "bit CIAT_LOAD k \<longleftrightarrow> k = 9" "bit CIAT_OUT k \<longleftrightarrow> k = 10" "bit CIAT_COUNT k \<longleftrightarrow> k = 11"
    "bit CIAT_ONESHOT k \<longleftrightarrow> k = 12"
    unfolding c bit_push_bit_iff bit_1_iff by (auto simp: possible_bit_def)
qed

lemma and_single:
  fixes t c :: "'a::len word"
  assumes "\<And>k. bit c k \<longleftrightarrow> k = i"
  shows "t AND c = 0 \<longleftrightarrow> \<not> bit t i"
  by (auto simp: bit_eq_iff [where 'a = "'a word"] bit_and_iff assms dest: bit_imp_le_length)

lemma and_CIAT [tbit]:
  "t AND CIAT_CR_START = 0 \<longleftrightarrow> \<not> bit t 0" "t AND CIAT_COUNT2 = 0 \<longleftrightarrow> \<not> bit t 1" "t AND CIAT_STEP = 0 \<longleftrightarrow> \<not> bit t 2"
  "t AND CIAT_CR_ONESHOT = 0 \<longleftrightarrow> \<not> bit t 3" "t AND CIAT_CR_FLOAD = 0 \<longleftrightarrow> \<not> bit t 4" "t AND CIAT_PHI2IN = 0 \<longleftrightarrow> \<not> bit t 5"
  "t AND CIAT_COUNT3 = 0 \<longleftrightarrow> \<not> bit t 6" "t AND CIAT_LOAD1 = 0 \<longleftrightarrow> \<not> bit t 7" "t AND CIAT_ONESHOT0 = 0 \<longleftrightarrow> \<not> bit t 8"
  "t AND CIAT_LOAD = 0 \<longleftrightarrow> \<not> bit t 9" "t AND CIAT_OUT = 0 \<longleftrightarrow> \<not> bit t 10" "t AND CIAT_COUNT = 0 \<longleftrightarrow> \<not> bit t 11"
  "t AND CIAT_ONESHOT = 0 \<longleftrightarrow> \<not> bit t 12"
  by (rule and_single, rule tbit)+

lemma and_or_zero [tbit]: "w AND (a OR b) = 0 \<longleftrightarrow> w AND a = 0 \<and> w AND b = 0" for w :: "'a::len word"
  by (auto simp: bit_eq_iff [where 'a = "'a word"] bit_and_iff bit_or_iff)

lemma oneshot_settled_bits [tbit]:
  "oneshot_settled t \<longleftrightarrow> bit t 3 \<and> bit t 8 \<and> bit t 12 \<or> \<not> bit t 3 \<and> \<not> bit t 8 \<and> \<not> bit t 12"
  by (simp add: oneshot_settled_def tbit)

lemma warp_counting_bits [tbit]:
  "warp_counting t \<longleftrightarrow> bit t 0 \<and> bit t 5 \<and> bit t 1 \<and> bit t 6 \<and> bit t 11 \<and> \<not> bit t 4 \<and> \<not> bit t 7 \<and> \<not> bit t 9 \<and>
     oneshot_settled t"
proof -
  have "t AND (CIAT_CR_START OR CIAT_CR_FLOAD OR CIAT_LOAD1 OR CIAT_PHI2IN OR CIAT_COUNT2 OR CIAT_COUNT3 OR CIAT_COUNT OR
        CIAT_LOAD) = CIAT_CR_START OR CIAT_PHI2IN OR CIAT_COUNT2 OR CIAT_COUNT3 OR CIAT_COUNT \<longleftrightarrow>
    bit t 0 \<and> bit t 5 \<and> bit t 1 \<and> bit t 6 \<and> bit t 11 \<and> \<not> bit t 4 \<and> \<not> bit t 7 \<and> \<not> bit t 9"
    (is "?l = ?r \<longleftrightarrow> ?b")
  proof
    assume e: "?l = ?r"
    show ?b using arg_cong [OF e, of "\<lambda>w. bit w 0"] arg_cong [OF e, of "\<lambda>w. bit w 5"] arg_cong [OF e, of "\<lambda>w. bit w 1"]
      arg_cong [OF e, of "\<lambda>w. bit w 6"] arg_cong [OF e, of "\<lambda>w. bit w 11"] arg_cong [OF e, of "\<lambda>w. bit w 4"]
      arg_cong [OF e, of "\<lambda>w. bit w 7"] arg_cong [OF e, of "\<lambda>w. bit w 9"]
      by (simp add: bit_and_iff bit_or_iff tbit)
  next
    assume ?b then show "?l = ?r" by (intro bit_eqI) (auto simp: bit_and_iff bit_or_iff tbit)
  qed
  then show ?thesis unfolding warp_counting_def by blast
qed

lemma not_counting_bits [tbit]:
  "not_counting t \<longleftrightarrow> \<not> bit t 1 \<and> \<not> bit t 6 \<and> \<not> bit t 11 \<and> (\<not> bit t 0 \<or> \<not> bit t 5 \<and> \<not> bit t 2)"
  by (simp add: not_counting_def tbit)

lemma bit_entry [tbit]:
  "bit (ciat_entry t) k \<longleftrightarrow> k = 0 \<and> bit t 0 \<or> k = 3 \<and> bit t 3 \<or> k = 5 \<and> bit t 5 \<or> k = 1 \<and> bit t 0 \<and> bit t 5 \<or>
     k = 6 \<and> (bit t 1 \<or> bit t 2 \<and> bit t 0) \<or> k = 11 \<and> bit t 6 \<or> k = 7 \<and> bit t 4 \<or> k = 9 \<and> bit t 7 \<or> k = 8 \<and> bit t 3 \<or>
     k = 12 \<and> bit t 8"
  unfolding ciat_entry_def Let_def by (auto simp: bit_and_iff bit_or_iff tbit)

lemma bit_settle [tbit]:
  "bit (t OR (CIAT_LOAD OR CIAT_OUT)) k \<longleftrightarrow> bit t k \<or> k = 9 \<or> k = 10"
  "bit (t AND NOT CIAT_COUNT3) k \<longleftrightarrow> bit t k \<and> k \<noteq> 6"
  "bit (t AND NOT CIAT_COUNT) k \<longleftrightarrow> bit t k \<and> k \<noteq> 11"
  "bit (oneshot_stop t) k \<longleftrightarrow> bit t k \<and> (bit t 10 \<and> (bit t 12 \<or> bit t 8) \<longrightarrow> k \<noteq> 0 \<and> k \<noteq> 1)"
  by (auto simp: oneshot_stop_def bit_and_iff bit_or_iff bit_not_iff possible_bit_def tbit dest: bit_imp_le_length)

text \<open>The table is defined on every state the timer can be in: bits 13 to 15 are never set.\<close>

lemma ciat_table_entry:
  assumes "t < 0x4000"
  shows "ciat_table t = Some (ciat_entry t)"
proof -
  have "unat t < CIAT_TABLEN" using assms by (simp add: word_less_nat_alt CIAT_TABLEN_def)
  then show ?thesis by (simp add: ciat_table_def ciat_init_table_def arr_get_def del: upt.simps)
qed

section \<open>The reference: one cycle at a time\<close>

definition ciat_cycle :: "ciat \<times> u16 \<times> u32 \<Rightarrow> ciat \<times> u16 \<times> u32" where
  "ciat_cycle x = (case x of (c, t, n) \<Rightarrow>
     ciat_settle (c\<lparr>cnt := (if cnt c \<noteq> 0 \<and> truth (t AND CIAT_COUNT3) then cnt c - 1 else cnt c), tclk := tclk c + 1\<rparr>)
       (ciat_entry t) n)"

text \<open>
  What holds of a timer between two cycles: an underflow reloads, a reload suspends counting, a counting timer is not at
  zero, a single step waits only in a running timer that does not count the clock.
\<close>

definition timer_ok :: "u16 \<Rightarrow> ciat \<Rightarrow> bool" where
  "timer_ok t c \<longleftrightarrow> t < 0x2000 \<and> (bit t 10 \<longrightarrow> bit t 9) \<and> (bit t 9 \<longrightarrow> \<not> bit t 6) \<and> (bit t 6 \<longrightarrow> cnt c \<noteq> 0) \<and>
     (bit t 2 \<longrightarrow> bit t 0 \<and> \<not> bit t 5)"

text \<open>
  Equal up to \<open>CIAT_COUNT\<close>, the bit that only tells the loops that the counter has been counting for a while: a jump over
  several periods of a latch of 0 leaves it set, where the cycles clear it.
\<close>

definition same_timer :: "ciat \<times> u16 \<times> u32 \<Rightarrow> ciat \<times> u16 \<times> u32 \<Rightarrow> bool" where
  "same_timer x y \<longleftrightarrow> fst x = fst y \<and> fst (snd x) AND NOT CIAT_COUNT = fst (snd y) AND NOT CIAT_COUNT \<and>
     snd (snd x) = snd (snd y)"

lemma small_state: "t < 0x2000 \<longleftrightarrow> (\<forall>k\<ge>13. \<not> bit t k)" for t :: u16
proof -
  have "t < 0x2000 \<longleftrightarrow> take_bit 13 t = t"
    by (simp add: word_unat_eq_iff unsigned_take_bit_eq take_bit_nat_eq_self_iff word_less_nat_alt)
  also have "\<dots> \<longleftrightarrow> (\<forall>k\<ge>13. \<not> bit t k)"
    unfolding bit_eq_iff [where 'a = "16 word"] bit_take_bit_iff
    by (metis bit_imp_le_length impossible_bit not_le)
  finally show ?thesis .
qed

lemma state_eqI: "(\<And>k. k < 13 \<Longrightarrow> bit t k = bit u k) \<Longrightarrow> t < 0x2000 \<Longrightarrow> u < 0x2000 \<Longrightarrow> t = u" for t u :: u16
  by (rule bit_word_eqI) (metis not_le small_state)

lemma same_timer_refl [simp]: "same_timer x x"
  by (simp add: same_timer_def)

lemma same_timer_trans: "same_timer x y \<Longrightarrow> same_timer y z \<Longrightarrow> same_timer x z"
  by (simp add: same_timer_def)

lemma not_count_bits:
  "t AND NOT CIAT_COUNT = u AND NOT CIAT_COUNT \<Longrightarrow> k \<noteq> 11 \<Longrightarrow> bit t k = bit u k"
  by (metis bit_settle(3))

lemma entry_cong:
  assumes "t AND NOT CIAT_COUNT = u AND NOT CIAT_COUNT"
  shows "ciat_entry t = ciat_entry u"
  using not_count_bits [OF assms] by (intro bit_eqI) (simp add: tbit)

lemma cycle_cong: "same_timer x y \<Longrightarrow> ciat_cycle x = ciat_cycle y"
proof -
  obtain c t n where x: "x = (c, t, n)" by (cases x)
  moreover assume "same_timer x y"
  ultimately obtain u where y: "y = (c, u, n)" and e: "t AND NOT CIAT_COUNT = u AND NOT CIAT_COUNT"
    by (cases y) (simp add: same_timer_def)
  show ?thesis unfolding x y ciat_cycle_def by (simp add: entry_cong [OF e] tbit not_count_bits [OF e])
qed

lemma cycles_cong: "same_timer x y \<Longrightarrow> same_timer ((ciat_cycle ^^ k) x) ((ciat_cycle ^^ k) y)"
  by (induction k) (simp_all add: cycle_cong)

lemma cycle_ok:
  assumes "ciat_cycle (c, t, n) = (c', t', n')"
  shows "timer_ok t' c'" "tclk c' = tclk c + 1" "latch c' = latch c" "talarm c' = talarm c" "alarmclk c' = alarmclk c"
    "tstate c' = tstate c"
  using assms
  by (auto simp: ciat_cycle_def ciat_settle_def reload_def timer_ok_def small_state tbit Let_def split: if_splits)

section \<open>Jumps\<close>

lemma counting_entry: "warp_counting t \<Longrightarrow> timer_ok t c \<Longrightarrow> ciat_entry t = t"
  by (rule state_eqI) (auto simp: timer_ok_def small_state tbit less_Suc_eq numeral_eq_Suc)

lemma stopped_entry:
  assumes "not_counting t" "t AND (CIAT_CR_FLOAD OR CIAT_LOAD1 OR CIAT_LOAD) = 0" "oneshot_settled t" "timer_ok t c"
  shows "ciat_entry t = t"
  using assms by (intro state_eqI) (auto simp: timer_ok_def small_state tbit less_Suc_eq numeral_eq_Suc)

lemma unat_sub_nat:
  fixes w :: "'a::len word"
  assumes "k \<le> unat w"
  shows "unat (w - word_of_nat k) = unat w - k"
proof -
  have "k < 2 ^ LENGTH('a)" using assms unsigned_less [of w] by (rule le_less_trans)
  then show ?thesis using assms by (subst unat_sub) (simp_all add: word_le_nat_alt unat_of_nat)
qed

lemma count_down:
  assumes "warp_counting t" "timer_ok t c"
  shows "j < unat (cnt c) \<Longrightarrow>
    (ciat_cycle ^^ j) (c, t, n) = (c\<lparr>cnt := cnt c - word_of_nat j, tclk := tclk c + word_of_nat j\<rparr>, t, n)"
proof (induction j)
  case (Suc j)
  have c: "bit t 6" "\<not> bit t 9" "\<not> bit t 10" using assms by (auto simp: tbit timer_ok_def)
  have "unat (cnt c - word_of_nat j) \<noteq> 0" "unat (cnt c - word_of_nat (Suc j)) \<noteq> 0"
    using Suc.prems by (simp_all add: unat_sub_nat del: of_nat_Suc)
  then have "cnt c - word_of_nat j \<noteq> 0" "cnt c - word_of_nat j - 1 \<noteq> 0"
    by (auto simp: diff_diff_eq add.commute)
  then show ?case
    using Suc c by (simp add: ciat_cycle_def counting_entry [OF assms] ciat_settle_def reload_def oneshot_stop_def tbit
        algebra_simps)
qed simp

lemma underflow:
  assumes "warp_counting t" "timer_ok t c"
  shows "(ciat_cycle ^^ unat (cnt c)) (c, t, n) = ciat_settle (c\<lparr>tclk := tclk c + ucast (cnt c), cnt := 0\<rparr>) t n"
proof -
  have "cnt c \<noteq> 0" using assms by (simp add: tbit timer_ok_def)
  then obtain j where j: "unat (cnt c) = Suc j" by (metis unat_eq_0 not0_implies_Suc)
  have e: "(word_of_nat (Suc j) :: clock) = ucast (cnt c)" "word_of_nat (Suc j) = cnt c" unfolding j [symmetric] by simp_all
  have "(ciat_cycle ^^ j) (c, t, n) = (c\<lparr>cnt := 1, tclk := tclk c + ucast (cnt c) - 1\<rparr>, t, n)"
    using count_down [OF assms, of j n] j e by (simp add: algebra_simps)
  then have "(ciat_cycle ^^ unat (cnt c)) (c, t, n) = ciat_settle (c\<lparr>cnt := 0, tclk := tclk c + ucast (cnt c)\<rparr>) t n"
    using assms(1) by (simp add: j ciat_cycle_def counting_entry [OF assms] tbit algebra_simps)
  also have "c\<lparr>cnt := 0, tclk := tclk c + ucast (cnt c)\<rparr> = c\<lparr>tclk := tclk c + ucast (cnt c), cnt := 0\<rparr>" by simp
  finally show ?thesis .
qed

text \<open>A free-running timer right after an underflow, and one period later.\<close>

definition reloaded :: "ciat \<Rightarrow> u16 \<Rightarrow> u32 \<Rightarrow> ciat \<times> u16 \<times> u32" where
  "reloaded c t n = (c\<lparr>cnt := latch c\<rparr>, (t OR (CIAT_LOAD OR CIAT_OUT)) AND NOT CIAT_COUNT3, n)"

lemma settle_reloaded:
  assumes "warp_counting t" "\<not> bit t 3" "cnt c = 0"
  shows "ciat_settle c t n = reloaded c t (n + 1)"
  using assms by (simp add: ciat_settle_def reload_def oneshot_stop_def reloaded_def tbit)

lemma period:
  assumes w: "warp_counting t" "t < 0x2000" "\<not> bit t 2" "\<not> bit t 3" "\<not> bit t 10"
  shows "same_timer ((ciat_cycle ^^ Suc (unat (latch c))) (reloaded c t n))
    (reloaded (c\<lparr>tclk := tclk c + ucast (latch c) + 1\<rparr>) t (n + 1))"
proof -
  let ?u = "t AND NOT CIAT_COUNT"
  have e: "ciat_entry ((t OR (CIAT_LOAD OR CIAT_OUT)) AND NOT CIAT_COUNT3) = ?u"
    using w by (intro state_eqI) (auto simp: small_state tbit less_Suc_eq numeral_eq_Suc)
  have e2: "ciat_entry ?u = t"
    using w by (intro state_eqI) (auto simp: small_state tbit less_Suc_eq numeral_eq_Suc)
  show ?thesis
  proof (cases "latch c = 0")
    case True
    then show ?thesis using w
      by (auto simp: reloaded_def same_timer_def ciat_cycle_def e ciat_settle_def reload_def oneshot_stop_def tbit intro!: bit_eqI)
  next
    case False
    have c1: "ciat_cycle (reloaded c t n) = (c\<lparr>cnt := latch c, tclk := tclk c + 1\<rparr>, ?u, n)"
      using w False by (auto simp: reloaded_def ciat_cycle_def e ciat_settle_def reload_def oneshot_stop_def tbit)
    have "same_timer (c\<lparr>cnt := latch c, tclk := tclk c + 1\<rparr>, ?u, n) (c\<lparr>cnt := latch c, tclk := tclk c + 1\<rparr>, t, n)"
      by (auto simp: same_timer_def tbit intro!: bit_eqI)
    then have "same_timer ((ciat_cycle ^^ Suc (unat (latch c))) (reloaded c t n))
      ((ciat_cycle ^^ unat (latch c)) (c\<lparr>cnt := latch c, tclk := tclk c + 1\<rparr>, t, n))"
      unfolding funpow_Suc_right comp_apply c1 by (rule cycles_cong)
    moreover have "timer_ok t (c\<lparr>cnt := latch c, tclk := tclk c + 1\<rparr>)"
      using w False by (auto simp: timer_ok_def tbit)
    from underflow [OF w(1) this, of n]
    have "(ciat_cycle ^^ unat (latch c)) (c\<lparr>cnt := latch c, tclk := tclk c + 1\<rparr>, t, n) =
      reloaded (c\<lparr>tclk := tclk c + ucast (latch c) + 1\<rparr>) t (n + 1)"
      using w by (simp add: settle_reloaded) (simp add: reloaded_def algebra_simps)
    ultimately show ?thesis by simp
  qed
qed

lemma periods:
  assumes "warp_counting t" "t < 0x2000" "\<not> bit t 2" "\<not> bit t 3" "\<not> bit t 10"
  shows "same_timer ((ciat_cycle ^^ (k * Suc (unat (latch c)))) (reloaded c t n))
    (reloaded (c\<lparr>tclk := tclk c + word_of_nat k * (ucast (latch c) + 1)\<rparr>) t (n + word_of_nat k))"
proof (induction k)
  case (Suc k)
  let ?c = "c\<lparr>tclk := tclk c + word_of_nat k * (ucast (latch c) + 1)\<rparr>" and ?p = "Suc (unat (latch c))"
  have 1: "(ciat_cycle ^^ (Suc k * ?p)) (reloaded c t n) = (ciat_cycle ^^ ?p) ((ciat_cycle ^^ (k * ?p)) (reloaded c t n))"
    by (simp only: mult_Suc funpow_add comp_apply)
  have 2: "same_timer ((ciat_cycle ^^ ?p) ((ciat_cycle ^^ (k * ?p)) (reloaded c t n)))
      ((ciat_cycle ^^ ?p) (reloaded ?c t (n + word_of_nat k)))"
    by (rule cycles_cong [OF Suc.IH])
  have 3: "reloaded (?c\<lparr>tclk := tclk ?c + ucast (latch ?c) + 1\<rparr>) t (n + word_of_nat k + 1) =
      reloaded (c\<lparr>tclk := tclk c + word_of_nat (Suc k) * (ucast (latch c) + 1)\<rparr>) t (n + word_of_nat (Suc k))"
    by (simp add: algebra_simps)
  show ?case unfolding 1 3 [symmetric] by (rule same_timer_trans [OF 2]) (use period [OF assms, of ?c] in simp)
qed simp

lemma unat_zx16: "unat (ucast (w :: u16) :: clock) = unat w"
  by (simp add: unsigned_ucast_eq take_bit_nat_eq_self_iff less_trans [OF unsigned_less])

lemma unat_clk_add: "unat (c :: clock) + unat (w :: u16) < 2 ^ 32 \<Longrightarrow> unat (c + ucast w) = unat c + unat w"
  by (subst unat_add_lem [THEN iffD1]) (simp_all add: unat_zx16)

lemma unat_period: "unat (ucast (w :: u16) + 1 :: clock) = Suc (unat w)"
  using unsigned_less [of w, where 'a = nat] by (subst unat_add_lem [THEN iffD1]) (simp_all add: unat_zx16)

lemma count_warp_cycles:
  assumes w: "warp_counting t" "timer_ok t c" and clk: "tclk c < cclk" "unat cclk + 0x10000 < 2 ^ 32"
    and r: "count_warp cclk c t n = (c1, n1)"
  shows "\<exists>k>0. k \<le> unat (cclk - tclk c) \<and> same_timer (ciat_settle c1 t n1) ((ciat_cycle ^^ k) (c, t, n))"
proof -
  have t: "t < 0x2000" "\<not> bit t 2" "\<not> bit t 10" "bit t 6" "\<not> bit t 9" and pos: "0 < unat (cnt c)"
    using w by (auto simp: tbit timer_ok_def unat_gt_0)
  have d: "unat (cclk - tclk c) = unat cclk - unat (tclk c)" "unat (tclk c) < unat cclk"
    using clk(1) by (simp_all add: unat_sub word_le_nat_alt word_less_nat_alt)
  have l16: "unat (v :: u16) < 0x10000" for v using unsigned_less [of v] by simp
  have s: "unat (tclk c + ucast (cnt c)) = unat (tclk c) + unat (cnt c)"
    using d clk(2) l16 [of "cnt c"] by (intro unat_clk_add) linarith
  show ?thesis
  proof (cases "tclk c + ucast (cnt c) > cclk")
    case True
    let ?k = "unat (cclk - tclk c)"
    have k: "?k < unat (cnt c)" using True d s by (simp add: word_less_nat_alt)
    have "(word_of_nat ?k :: u16) = ucast (cclk - tclk c)" by (simp add: of_nat_unat)
    then have e: "(ciat_cycle ^^ ?k) (c, t, n) = (c1, t, n1)"
      using count_down [OF w k, of n] r True by (simp add: count_warp_def)
    have "unat (cnt c - word_of_nat ?k) \<noteq> 0" using k unat_sub_nat [of ?k "cnt c"] by (simp del: of_nat_unat)
    then have "cnt c1 \<noteq> 0" using r True by (auto simp: count_warp_def of_nat_unat)
    then have "ciat_settle c1 t n1 = (c1, t, n1)"
      using t by (simp add: ciat_settle_def reload_def oneshot_stop_def tbit)
    then show ?thesis using e d by (intro exI [of _ ?k]) auto
  next
    case False
    let ?c = "c\<lparr>tclk := tclk c + ucast (cnt c), cnt := 0\<rparr>" and ?k = "unat (cnt c)" and ?p = "Suc (unat (latch c))"
    have le: "?k \<le> unat (cclk - tclk c)" using False d s by (simp add: word_less_nat_alt)
    have u: "(ciat_cycle ^^ ?k) (c, t, n) = ciat_settle ?c t n" using underflow [OF w] by simp
    show ?thesis
    proof (cases "\<not> truth (t AND (CIAT_CR_ONESHOT OR CIAT_ONESHOT0)) \<and> uint (ucast (cclk - tclk ?c) :: u16) \<ge> uint (latch c) + 1")
      case True
      define m where "m = (cclk - tclk ?c) div (ucast (latch c) + 1)"
      have one: "\<not> bit t 3" using True by (simp add: tbit)
      have r': "c1 = ?c\<lparr>tclk := tclk ?c + m * (ucast (latch c) + 1)\<rparr>" "n1 = n + m"
        using True False r by (simp_all add: count_warp_def Let_def m_def)
      have rel: "unat (cclk - tclk ?c) = unat cclk - unat (tclk c) - ?k"
        using False s by (simp add: unat_sub word_le_nat_alt word_less_nat_alt)
      have "unat m * ?p \<le> unat (cclk - tclk ?c)"
        unfolding m_def unat_div unat_period by (rule div_times_less_eq_dividend)
      then have bound: "?k + unat m * ?p \<le> unat (cclk - tclk c)" using rel d le by linarith
      have "(ciat_cycle ^^ (?k + unat m * ?p)) (c, t, n) = (ciat_cycle ^^ (unat m * ?p)) (reloaded ?c t (n + 1))"
        unfolding add.commute [of ?k] funpow_add comp_apply u using settle_reloaded [OF w(1) one, of ?c n] by simp
      moreover have "same_timer \<dots> (reloaded c1 t (n1 + 1))"
        using periods [OF w(1) t(1,2) one t(3), of "unat m" ?c "n + 1"] r' by (simp add: algebra_simps)
      moreover have "ciat_settle c1 t n1 = reloaded c1 t (n1 + 1)"
        by (rule settle_reloaded [OF w(1) one]) (simp add: r')
      ultimately show ?thesis using bound pos
        by (intro exI [of _ "?k + unat m * ?p"]) (simp add: same_timer_def)
    next
      case other: False
      then have "c1 = ?c" "n1 = n" using False r by (auto simp: count_warp_def Let_def split: if_splits)
      then show ?thesis using u le pos by (intro exI [of _ ?k]) simp
    qed
  qed
qed

lemma stopped_cycles:
  assumes s: "not_counting t" "t AND (CIAT_CR_FLOAD OR CIAT_LOAD1 OR CIAT_LOAD) = 0" "oneshot_settled t" "timer_ok t c"
  shows "(ciat_cycle ^^ k) (c, t, n) = ciat_settle (c\<lparr>tclk := tclk c + word_of_nat k\<rparr>) t n"
proof -
  have b: "\<not> bit t 6" "\<not> bit t 9" "\<not> bit t 10" using s by (auto simp: tbit timer_ok_def)
  have settle: "ciat_settle c' t n = (c', t, n)" for c'
    using b by (simp add: ciat_settle_def reload_def oneshot_stop_def tbit)
  show ?thesis unfolding settle
    by (induction k) (simp_all add: ciat_cycle_def stopped_entry [OF s] b settle tbit algebra_simps)
qed

definition counting_state :: u16 where
  "counting_state = CIAT_COUNT OR CIAT_COUNT3 OR CIAT_PHI2IN OR CIAT_COUNT2 OR CIAT_CR_START"

lemma bit_counting_state [tbit]: "bit counting_state k \<longleftrightarrow> k \<in> {0, 1, 5, 6, 11}"
  unfolding counting_state_def bit_or_iff tbit by blast

lemma alternating_cycles:
  assumes "alternating t c"
  shows "same_timer ((ciat_cycle ^^ (k * 2)) (c, t, n)) (ciat_settle (c\<lparr>tclk := tclk c + word_of_nat (k * 2)\<rparr>) t (n + word_of_nat k))"
proof -
  let ?u = "counting_state"
  have t: "t = (?u OR (CIAT_LOAD OR CIAT_OUT)) AND NOT CIAT_COUNT3" and c: "cnt c = 1" "latch c = 1"
    using assms unfolding alternating_def by (auto intro!: bit_eqI simp: tbit bit_or_iff)
  have u: "warp_counting ?u" "?u < 0x2000" "\<not> bit ?u 2" "\<not> bit ?u 3" "\<not> bit ?u 10"
    by (auto simp: tbit small_state)
  have r: "reloaded c ?u n = (c, t, n)" unfolding reloaded_def t using c by simp
  have s: "ciat_settle (c\<lparr>tclk := tclk c + word_of_nat (k * 2)\<rparr>) t (n + word_of_nat k) =
      reloaded (c\<lparr>tclk := tclk c + word_of_nat k * (ucast (latch c) + 1)\<rparr>) ?u (n + word_of_nat k)"
    using c by (simp add: ciat_settle_def reload_def oneshot_stop_def reloaded_def t tbit)
  have p: "Suc (unat (latch c)) = 2" using c by simp
  show ?thesis using periods [OF u, where c = c and k = k and n = n] unfolding p r s .
qed

lemma even_part:
  assumes "unat (d :: 32 word) < 2 ^ 31"
  shows "unat (d AND NOT 1) = unat d div 2 * 2" "signed_drop_bit 1 (d AND NOT 1) = word_of_nat (unat d div 2)"
proof -
  have e: "d AND NOT 1 = push_bit 1 (drop_bit 1 d)"
  proof (rule bit_word_eqI)
    fix k assume "k < LENGTH(32)"
    then show "bit (d AND NOT 1) k = bit (push_bit 1 (drop_bit 1 d)) k"
      unfolding bit_and_iff bit_not_iff bit_1_iff bit_push_bit_iff bit_drop_bit_eq possible_bit_def o_def
      by (cases k) auto
  qed
  have "unat (push_bit 1 (drop_bit 1 d)) = take_bit 32 (unat d div 2 * 2)"
    unfolding unsigned_push_bit_eq by (simp add: unsigned_drop_bit_eq push_bit_eq_mult drop_bit_eq_div unat_div)
  moreover have "unat d div 2 * 2 < 2 ^ 32" using assms by simp
  ultimately show u: "unat (d AND NOT 1) = unat d div 2 * 2" unfolding e by (simp add: take_bit_nat_eq_self_iff)
  have "signed_drop_bit 1 (d AND NOT 1) = drop_bit 1 d"
  proof (rule bit_word_eqI)
    fix k assume "k < LENGTH(32)"
    have "\<not> bit (unat d) 31" using assms by (simp add: bit_iff_odd)
    then have "\<not> bit d 31" by (simp add: bit_unsigned_iff)
    then show "bit (signed_drop_bit 1 (d AND NOT 1)) k = bit (drop_bit 1 d) k"
      by (auto simp: bit_signed_drop_bit_iff bit_simps dest: bit_imp_le_length)
  qed
  then show "signed_drop_bit 1 (d AND NOT 1) = word_of_nat (unat d div 2)"
    using assms by (simp add: word_unat_eq_iff unsigned_drop_bit_eq drop_bit_eq_div unat_of_nat unat_div)
qed

lemma branch_cycles:
  assumes ok: "timer_ok t c" and clk: "tclk c < cclk" "unat cclk + 0x10000 < 2 ^ 32" "unat (cclk - tclk c) < 2 ^ 31"
  obtains c1 t1 n1 k where "ciat_branch cclk c t n = Some (c1, t1, n1)" "0 < k" "k \<le> unat (cclk - tclk c)"
    "same_timer (ciat_settle c1 t1 n1) ((ciat_cycle ^^ k) (c, t, n))"
proof -
  let ?d = "unat (cclk - tclk c)"
  have d: "0 < ?d" using clk(1) by (simp add: unat_gt_0)
  have table: "ciat_table t = Some (ciat_entry t)"
    using ok by (intro ciat_table_entry) (auto simp: timer_ok_def elim: order.strict_trans)
  let ?stop = "not_counting t \<and> t AND (CIAT_CR_FLOAD OR CIAT_LOAD1 OR CIAT_LOAD) = 0 \<and> oneshot_settled t"
  consider (count) "warp_counting t" | (stop) "\<not> warp_counting t" ?stop
    | (alt) "\<not> warp_counting t" "\<not> ?stop" "alternating t c" "2 \<le> ?d"
    | (inc) "\<not> warp_counting t" "\<not> ?stop" "alternating t c" "?d = 1"
    | (other) "\<not> warp_counting t" "\<not> ?stop" "\<not> alternating t c"
    using d by linarith
  then show thesis
  proof cases
    case count
    obtain c1 n1 where r: "count_warp cclk c t n = (c1, n1)" by fastforce
    show thesis using that [of c1 t n1] count count_warp_cycles [OF count ok clk(1,2) r] r
      by (auto simp: ciat_branch_def)
  next
    case stop
    have "cclk = tclk c + word_of_nat ?d" by simp
    then show thesis using that [of "c\<lparr>tclk := cclk\<rparr>" t n ?d] stop d stopped_cycles [of t c ?d n] ok
      by (simp add: ciat_branch_def)
  next
    case alt
    define m where "m = (cclk - tclk c) AND NOT 1"
    have m: "unat m = ?d div 2 * 2" "signed_drop_bit 1 m = word_of_nat (?d div 2)"
      using even_part [OF clk(3)] by (simp_all add: m_def)
    have "unat m \<noteq> 0" using alt(4) m(1) by simp
    then have nz: "m \<noteq> 0" by auto
    have w: "word_of_nat (?d div 2 * 2) = m" unfolding m(1) [symmetric] by simp
    have "ciat_branch cclk c t n = Some (c\<lparr>tclk := tclk c + m\<rparr>, t, n + signed_drop_bit 1 m)"
      using alt(1-3) nz unfolding ciat_branch_def m_def [symmetric] Let_def by auto
    moreover have "same_timer (ciat_settle (c\<lparr>tclk := tclk c + m\<rparr>) t (n + signed_drop_bit 1 m))
        ((ciat_cycle ^^ (?d div 2 * 2)) (c, t, n))"
      using alternating_cycles [OF alt(3), of "?d div 2" n] unfolding w m(2) by (simp add: same_timer_def)
    moreover have "0 < ?d div 2 * 2" "?d div 2 * 2 \<le> ?d" using alt(4) by simp_all
    ultimately show thesis using that by blast
  next
    case inc
    have one: "cclk - tclk c = 1" using inc(4) by (metis unat_1 word_unat_eq_iff)
    have "\<not> bit t 6" using inc(3) by (simp add: alternating_def bit_or_iff tbit)
    then show thesis using that [of "c\<lparr>tclk := tclk c + 1\<rparr>" "ciat_entry t" n 1] inc table one
      by (auto simp: ciat_branch_def ciat_cycle_def tbit)
  next
    case other
    then show thesis
      using that [of "c\<lparr>cnt := (if cnt c \<noteq> 0 \<and> truth (t AND CIAT_COUNT3) then cnt c - 1 else cnt c), tclk := tclk c + 1\<rparr>"
          "ciat_entry t" n 1] d table
      by (auto simp: ciat_branch_def ciat_cycle_def ciat_inc_def)
  qed
qed

lemma cycles_ok:
  assumes "(ciat_cycle ^^ Suc k) (c, t, n) = (c', t', n')"
  shows "timer_ok t' c' \<and> tclk c' = tclk c + word_of_nat (Suc k)"
  using assms
proof (induction k arbitrary: c' t' n')
  case 0
  then show ?case using cycle_ok [of c t n c' t' n'] by simp
next
  case (Suc k)
  obtain c1 t1 n1 where e: "(ciat_cycle ^^ Suc k) (c, t, n) = (c1, t1, n1)" by (metis prod_cases3)
  then have "ciat_cycle (c1, t1, n1) = (c', t', n')" using Suc.prems by simp
  then show ?case using cycle_ok [of c1 t1 n1 c' t' n'] Suc.IH [OF e] by (simp add: add_ac)
qed

lemma timer_ok_cong: "t AND NOT CIAT_COUNT = u AND NOT CIAT_COUNT \<Longrightarrow> timer_ok t c \<Longrightarrow> timer_ok u c"
  using not_count_bits [of t u] by (auto simp: timer_ok_def small_state)

lemma update_loop_cycles:
  assumes "timer_ok t c" "tclk c \<le> cclk" "unat cclk + 0x10000 < 2 ^ 32" "unat (cclk - tclk c) < 2 ^ 31"
  shows "\<exists>x. ciat_update_loop cclk c t n = Some x \<and> same_timer x ((ciat_cycle ^^ unat (cclk - tclk c)) (c, t, n))"
  using assms
proof (induction "unat (cclk - tclk c)" arbitrary: c t n rule: less_induct)
  case less
  show ?case
  proof (cases "tclk c < cclk")
    case False
    then have "tclk c = cclk" using less.prems(2) by simp
    then show ?thesis by (subst ciat_update_loop.simps) simp
  next
    case True
    let ?d = "unat (cclk - tclk c)"
    obtain c1 t1 n1 k where b: "ciat_branch cclk c t n = Some (c1, t1, n1)" "0 < k" "k \<le> ?d"
      "same_timer (ciat_settle c1 t1 n1) ((ciat_cycle ^^ k) (c, t, n))"
      using branch_cycles [OF less.prems(1) True less.prems(3,4)] by blast
    obtain c2 t2 n2 where s: "ciat_settle c1 t1 n1 = (c2, t2, n2)" by (metis prod_cases3)
    obtain c3 t3 n3 where y: "(ciat_cycle ^^ k) (c, t, n) = (c3, t3, n3)" by (metis prod_cases3)
    have e: "c2 = c3" "t2 AND NOT CIAT_COUNT = t3 AND NOT CIAT_COUNT" "n2 = n3"
      using b(4) unfolding s y same_timer_def by simp_all
    have "timer_ok t3 c3 \<and> tclk c3 = tclk c + word_of_nat k"
      using cycles_ok [of "k - 1" c t n] y b(2) by simp
    then have ok: "timer_ok t2 c2" and clk: "tclk c2 = tclk c + word_of_nat k"
      using timer_ok_cong [OF e(2) [symmetric]] e(1) by simp_all
    have d: "unat (cclk - tclk c2) = ?d - k"
      using unat_sub_nat [OF b(3)] clk by (simp add: diff_diff_eq)
    moreover have "tclk c2 \<le> cclk"
    proof -
      have "?d = unat cclk - unat (tclk c)" "unat (tclk c) < unat cclk"
        using True by (simp_all add: unat_sub word_le_nat_alt word_less_nat_alt)
      then have le: "unat (tclk c) + k \<le> unat cclk" using b(3) by linarith
      then have k: "unat (word_of_nat k :: clock) = k" using unsigned_less [of cclk, where 'a = nat] by (simp add: unat_of_nat)
      then have "unat (tclk c2) = unat (tclk c) + k"
        unfolding clk using le unsigned_less [of cclk, where 'a = nat] by (subst unat_add_lem [THEN iffD1]) simp_all
      then show ?thesis using le by (simp add: word_le_nat_alt)
    qed
    moreover have "unat (cclk - tclk c2) < ?d" "unat (cclk - tclk c2) < 2 ^ 31" using d b(2,3) less.prems(4) by simp_all
    ultimately obtain x where x: "ciat_update_loop cclk c2 t2 n2 = Some x"
      "same_timer x ((ciat_cycle ^^ (?d - k)) (c2, t2, n2))"
      using less.hyps [of c2 t2 n2] ok less.prems(3) by auto
    have "same_timer ((ciat_cycle ^^ (?d - k)) (c2, t2, n2)) ((ciat_cycle ^^ (?d - k)) ((ciat_cycle ^^ k) (c, t, n)))"
      using b(4) unfolding s by (rule cycles_cong)
    also have "(ciat_cycle ^^ (?d - k)) ((ciat_cycle ^^ k) (c, t, n)) = (ciat_cycle ^^ ?d) (c, t, n)"
      using b(3) by (simp flip: comp_apply [of "ciat_cycle ^^ (?d - k)"] funpow_add)
    finally show ?thesis using x True b(1) s same_timer_trans
      by (subst ciat_update_loop.simps) auto
  qed
qed

section \<open>The alarm\<close>

text \<open>The rounds after which the search of \<open>ciat_set_alarm\<close> has shifted the pipeline bits out.\<close>

definition stage :: "nat \<Rightarrow> u16 \<Rightarrow> bool" where
  "stage i t \<longleftrightarrow> t < 0x4000 \<and>
     (1 \<le> i \<longrightarrow> \<not> bit t 4 \<and> \<not> bit t 2 \<and> \<not> bit t 10 \<and> (bit t 1 \<longleftrightarrow> bit t 0 \<and> bit t 5) \<and> (bit t 8 \<longleftrightarrow> bit t 3)) \<and>
     (2 \<le> i \<longrightarrow> \<not> bit t 7 \<and> (bit t 12 \<longleftrightarrow> bit t 3)) \<and> (3 \<le> i \<longrightarrow> \<not> bit t 9 \<and> (bit t 6 \<longleftrightarrow> bit t 1)) \<and>
     (4 \<le> i \<longrightarrow> (bit t 11 \<longleftrightarrow> bit t 6))"

definition search_ends :: "u16 \<Rightarrow> bool" where
  "search_ends t \<longleftrightarrow> warp_counting t \<or> not_counting t \<and> oneshot_settled t"

lemma stage_ends: "stage 4 t \<Longrightarrow> search_ends t"
  by (auto simp: stage_def search_ends_def tbit)

lemma search_round:
  assumes t: "t < 0x4000" and e: "\<not> search_ends t"
  obtains c' t' where "\<And>n. ciat_cycle (c, t, n) = (c', t', n)" "set_alarm_loop c t = set_alarm_loop c' t'"
      "\<And>i. stage i t \<Longrightarrow> stage (Suc i) t'"
  | c' t' where "\<And>n. ciat_cycle (c, t, n) = (c', t', n + 1)" "set_alarm_loop c t = Some (tclk c + 1)"
proof -
  let ?c = "c\<lparr>cnt := (if cnt c \<noteq> 0 \<and> truth (t AND CIAT_COUNT3) then cnt c - 1 else cnt c), tclk := tclk c + 1\<rparr>"
  let ?v = "reload ?c (ciat_entry t)"
  have inc: "ciat_inc c t = Some (?c, ciat_entry t)" using ciat_table_entry [OF t] by (simp add: ciat_inc_def)
  have loop: "set_alarm_loop c t = (if cnt ?c = 0 \<and> truth (ciat_entry t AND CIAT_COUNT3) then Some (tclk ?c)
      else set_alarm_loop (?c\<lparr>cnt := fst ?v\<rparr>) (oneshot_stop (snd ?v)))"
  proof -
    have "warp_counting t = False" "(not_counting t \<and> oneshot_settled t) = False" using e by (auto simp: search_ends_def)
    then show ?thesis
      unfolding set_alarm_loop.simps [of c t] by (simp only: inc if_False Option.bind.simps prod.case_eq_if fst_conv snd_conv Let_def)
  qed
  show thesis
  proof (cases "cnt ?c = 0 \<and> truth (ciat_entry t AND CIAT_COUNT3)")
    case True
    let ?w = "reload ?c (ciat_entry t OR (CIAT_LOAD OR CIAT_OUT))"
    have "ciat_cycle (c, t, n) = (?c\<lparr>cnt := fst ?w\<rparr>, oneshot_stop (snd ?w), n + 1)" for n
      using True unfolding ciat_cycle_def ciat_settle_def prod.case by (simp add: Let_def split: prod.split)
    then show thesis using that(2) loop True by simp
  next
    case False
    have 1: "ciat_cycle (c, t, n) = (?c\<lparr>cnt := fst ?v\<rparr>, oneshot_stop (snd ?v), n)" for n
      using False unfolding ciat_cycle_def ciat_settle_def prod.case by (simp add: Let_def split: prod.split)
    have 2: "stage (Suc i) (oneshot_stop (snd ?v))" if "stage i t" for i
    proof -
      have small: "u < 0x4000" if "u < 0x2000" for u :: u16 using that by (rule order.strict_trans) simp
      have "oneshot_stop (snd ?v) < 0x2000" by (simp add: small_state reload_def tbit)
      then show ?thesis using that small by (auto simp: stage_def reload_def tbit)
    qed
    have 3: "set_alarm_loop c t = set_alarm_loop (?c\<lparr>cnt := fst ?v\<rparr>) (oneshot_stop (snd ?v))"
      using loop False by (simp only: if_False)
    show thesis by (rule that(1) [OF 1 3 2])
  qed
qed

lemma search_terminates: "stage i t \<Longrightarrow> i \<le> 4 \<Longrightarrow> \<exists>a. set_alarm_loop c t = Some a"
proof (induction "4 - i" arbitrary: i c t)
  case 0
  then have "search_ends t" using stage_ends by simp
  then show ?case by (subst set_alarm_loop.simps) (auto simp: search_ends_def)
next
  case (Suc k)
  show ?case
  proof (cases "search_ends t")
    case True
    then show ?thesis by (subst set_alarm_loop.simps) (auto simp: search_ends_def)
  next
    case False
    have t: "t < 0x4000" using Suc.prems by (simp add: stage_def)
    show ?thesis using search_round [OF t False, of c] Suc.hyps(1) [of "Suc i"] Suc.hyps(2) Suc.prems(1) by fastforce
  qed
qed

text \<open>The tick of the first underflow, CLOCK_MAX when there is none.\<close>

definition first_underflow :: "clock \<Rightarrow> ciat \<Rightarrow> u16 \<Rightarrow> bool" where
  "first_underflow a c t \<longleftrightarrow>
     (if a = CLOCK_MAX then \<forall>k n. snd (snd ((ciat_cycle ^^ k) (c, t, n))) = n
      else \<exists>k>0. unat a = unat (tclk c) + k \<and> (\<forall>n. snd (snd ((ciat_cycle ^^ k) (c, t, n))) = n + 1) \<and>
        (\<forall>j<k. \<forall>n. snd (snd ((ciat_cycle ^^ j) (c, t, n))) = n))"

lemma idle_cycle:
  assumes "not_counting t"
  shows "\<exists>c' t'. not_counting t' \<and> (\<forall>n. ciat_cycle (c, t, n) = (c', t', n))"
proof -
  let ?c = "c\<lparr>tclk := tclk c + 1\<rparr>" and ?v = "reload (c\<lparr>tclk := tclk c + 1\<rparr>) (ciat_entry t)"
  have b: "\<not> bit t 6" "\<not> bit (ciat_entry t) 6" using assms by (auto simp: tbit)
  have "ciat_cycle (c, t, n) = (?c\<lparr>cnt := fst ?v\<rparr>, oneshot_stop (snd ?v), n)" for n
    using b unfolding ciat_cycle_def ciat_settle_def prod.case by (simp add: Let_def and_CIAT split: prod.split)
  moreover have "not_counting (oneshot_stop (snd ?v))" using assms by (auto simp: reload_def tbit)
  ultimately show ?thesis by blast
qed

lemma idle_cycles: "not_counting t \<Longrightarrow> snd (snd ((ciat_cycle ^^ k) (c, t, n))) = n"
proof (induction k arbitrary: c t)
  case (Suc k)
  then obtain c' t' where "not_counting t'" "ciat_cycle (c, t, n) = (c', t', n)" using idle_cycle by blast
  then show ?case using Suc.IH by (simp add: funpow_Suc_right del: funpow.simps)
qed simp

lemma counting_first:
  assumes "warp_counting t" "timer_ok t c" "unat (tclk c) + 0x10000 < 2 ^ 32"
  shows "first_underflow (tclk c + ucast (cnt c)) c t"
proof -
  have l: "unat (cnt c) < 0x10000" using unsigned_less [of "cnt c", where 'a = nat] by simp
  have a: "unat (tclk c + ucast (cnt c)) = unat (tclk c) + unat (cnt c)" using assms(3) l by (intro unat_clk_add) simp
  have "unat (tclk c) + unat (cnt c) \<noteq> 2 ^ 32 - 1" using assms(3) l by linarith
  then have "unat (tclk c + ucast (cnt c)) \<noteq> unat CLOCK_MAX" unfolding a by (simp add: unsigned_minus_1_eq_mask mask_eq_exp_minus_1)
  then have m: "tclk c + ucast (cnt c) \<noteq> CLOCK_MAX" by metis
  have b: "bit t 6" "0 < unat (cnt c)" using assms(1,2) by (auto simp: tbit timer_ok_def unat_gt_0)
  have "snd (snd ((ciat_cycle ^^ unat (cnt c)) (c, t, n))) = n + 1" for n
    unfolding underflow [OF assms(1,2)] ciat_settle_def using b(1) by (simp add: Let_def and_CIAT split: prod.split)
  then show ?thesis using m a b(2) count_down [OF assms(1,2)] by (auto simp: first_underflow_def)
qed

lemma ended_first:
  assumes "search_ends t" "timer_ok t c" "unat (tclk c) + 0x10000 < 2 ^ 32" "set_alarm_loop c t = Some a"
  shows "first_underflow a c t"
proof (cases "warp_counting t")
  case True
  then show ?thesis using assms counting_first by (subst (asm) set_alarm_loop.simps) auto
next
  case False
  then have "not_counting t" "a = CLOCK_MAX"
    using assms(1,4) by (auto simp: search_ends_def set_alarm_loop.simps [of c t])
  then show ?thesis using idle_cycles by (simp add: first_underflow_def)
qed

lemma first_step:
  assumes "\<And>n. ciat_cycle (c, t, n) = (c', t', n)" "unat (tclk c') = Suc (unat (tclk c))" "first_underflow a c' t'"
  shows "first_underflow a c t"
proof -
  have s: "(ciat_cycle ^^ Suc k) (c, t, n) = (ciat_cycle ^^ k) (c', t', n)" for k n
    by (simp add: funpow_Suc_right assms(1) del: funpow.simps)
  show ?thesis
  proof (cases "a = CLOCK_MAX")
    case True
    have "snd (snd ((ciat_cycle ^^ k) (c, t, n))) = n" for k n
      using assms(3) True s by (cases k) (auto simp: first_underflow_def simp del: funpow.simps(2))
    then show ?thesis using True by (simp add: first_underflow_def)
  next
    case False
    then obtain k where k: "0 < k" "unat a = unat (tclk c') + k" "\<And>n. snd (snd ((ciat_cycle ^^ k) (c', t', n))) = n + 1"
      "\<And>j n. j < k \<Longrightarrow> snd (snd ((ciat_cycle ^^ j) (c', t', n))) = n"
      using assms(3) by (auto simp: first_underflow_def)
    have "snd (snd ((ciat_cycle ^^ j) (c, t, n))) = n" if "j < Suc k" for j n
      using that k(4) s by (cases j) (auto simp del: funpow.simps(2))
    then show ?thesis using False k(2) k(3) s assms(2)
      by (auto simp: first_underflow_def simp del: funpow.simps(2) intro!: exI [of _ "Suc k"])
  qed
qed

lemma search_first:
  "stage i t \<Longrightarrow> i \<le> 4 \<Longrightarrow> timer_ok t c \<Longrightarrow> unat (tclk c) + 0x10000 + (4 - i) < 2 ^ 32 \<Longrightarrow> set_alarm_loop c t = Some a \<Longrightarrow>
    first_underflow a c t"
proof (induction "4 - i" arbitrary: i c t)
  case 0
  then show ?case using stage_ends by (intro ended_first) auto
next
  case (Suc k)
  show ?case
  proof (cases "search_ends t")
    case True
    then show ?thesis using Suc.prems by (intro ended_first) auto
  next
    case False
    have t: "t < 0x4000" using Suc.prems by (simp add: stage_def)
    have clk: "unat (tclk c + 1) = Suc (unat (tclk c))"
      using Suc.prems(4) by (subst unat_add_lem [THEN iffD1]) simp_all
    from t False show ?thesis
    proof (rule search_round [where c = c])
      fix c' t' assume r: "\<And>n. ciat_cycle (c, t, n) = (c', t', n)" "set_alarm_loop c t = set_alarm_loop c' t'"
        "\<And>i. stage i t \<Longrightarrow> stage (Suc i) t'"
      have "first_underflow a c' t'"
        using Suc.hyps(1) [of "Suc i" t' c'] Suc.hyps(2) Suc.prems r cycle_ok [OF r(1)] clk by auto
      then show ?thesis using first_step [OF r(1)] cycle_ok(2) [OF r(1)] clk by simp
    next
      fix c' t' assume r: "\<And>n. ciat_cycle (c, t, n) = (c', t', n + 1)" "set_alarm_loop c t = Some (tclk c + 1)"
      then have a: "a = tclk c + 1" using Suc.prems(5) by simp
      have "unat a \<noteq> unat CLOCK_MAX"
        using clk Suc.prems(4) unfolding a by (simp add: unsigned_minus_1_eq_mask mask_eq_exp_minus_1)
      then have m: "a \<noteq> CLOCK_MAX" by metis
      show ?thesis unfolding first_underflow_def if_not_P [OF m]
        using r(1) clk a by (auto intro!: exI [of _ "1 :: nat"])
    qed
  qed
qed

section \<open>Properties\<close>

text \<open>
  C4 (ciat_update_cycles): bringing a timer up to a tick takes as many cycles as the clock has moved, with as many
  underflows: the jumps over counting, idle and alternating stretches are exact up to the state bit \<open>CIAT_COUNT\<close>, and the
  loop ends.
\<close>
theorem ciat_update_cycles:
  assumes "timer_ok (tstate c) c" "tclk c \<le> cclk" "unat cclk + 0x10000 < 2 ^ 32" "unat (cclk - tclk c) < 2 ^ 31"
  shows "\<exists>c' t u n. (ciat_cycle ^^ unat (cclk - tclk c)) (c, tstate c, 0) = (c', t, n) \<and>
    ciat_update cclk c = Some (c'\<lparr>tstate := u\<rparr>, n) \<and> u AND NOT CIAT_COUNT = t AND NOT CIAT_COUNT"
proof -
  obtain c2 u n2 where x: "ciat_update_loop cclk c (tstate c) 0 = Some (c2, u, n2)"
    "same_timer (c2, u, n2) ((ciat_cycle ^^ unat (cclk - tclk c)) (c, tstate c, 0))"
    using update_loop_cycles [OF assms] by (metis prod_cases3)
  then show ?thesis
    by (cases "(ciat_cycle ^^ unat (cclk - tclk c)) (c, tstate c, 0)") (auto simp: ciat_update_def same_timer_def)
qed

text \<open>
  C33 (ciat_search_ends): the search of ciat_set_alarm for the next underflow ends for every content of the state word
  within the table, counter, latch and clock.
\<close>
theorem ciat_search_ends:
  assumes "tstate c < 0x4000"
  shows "\<exists>a. set_alarm_loop c (tstate c) = Some a"
  using search_terminates [of 0 "tstate c" c] assms by (simp add: stage_def)

lemma cycles_alarmclk:
  "snd (snd ((ciat_cycle ^^ k) (c\<lparr>alarmclk := x\<rparr>, t, n))) = snd (snd ((ciat_cycle ^^ k) (c, t, n)))"
proof -
  have "ciat_cycle (c\<lparr>alarmclk := x\<rparr>, t, n) = (case ciat_cycle (c, t, n) of (c', y) \<Rightarrow> (c'\<lparr>alarmclk := x\<rparr>, y))" for c t n
    by (cases c) (simp add: ciat_cycle_def ciat_settle_def reload_def Let_def)
  then have "(ciat_cycle ^^ k) (c\<lparr>alarmclk := x\<rparr>, t, n) = (case (ciat_cycle ^^ k) (c, t, n) of (c', y) \<Rightarrow> (c'\<lparr>alarmclk := x\<rparr>, y))"
    by (induction k) (simp_all split: prod.splits)
  then show ?thesis by (simp split: prod.split)
qed

lemma update_until:
  assumes ok: "timer_ok (tstate c) c" and room: "unat (tclk c) + 0x10004 < 2 ^ 32" and a: "set_alarm_loop c (tstate c) = Some a"
    and cclk: "tclk c \<le> cclk" "unat cclk + 0x10000 < 2 ^ 32" "unat (cclk - tclk c) < 2 ^ 31" "cclk \<le> a"
  shows "\<exists>c'. ciat_update cclk (c\<lparr>alarmclk := x\<rparr>) = Some (c', if cclk = a then 1 else 0)"
proof -
  let ?c = "c\<lparr>alarmclk := x\<rparr>" and ?d = "unat (cclk - tclk c)"
  let ?n = "snd (snd ((ciat_cycle ^^ ?d) (c, tstate c, 0)))"
  have "timer_ok (tstate c) ?c" using ok by (simp add: timer_ok_def)
  from update_loop_cycles [OF this, of cclk 0] cclk
  have "\<exists>x. ciat_update_loop cclk ?c (tstate c) 0 = Some x \<and> same_timer x ((ciat_cycle ^^ ?d) (?c, tstate c, 0))" by simp
  then obtain c2 u n2 where l: "ciat_update_loop cclk ?c (tstate c) 0 = Some (c2, u, n2)"
    "same_timer (c2, u, n2) ((ciat_cycle ^^ ?d) (?c, tstate c, 0))" by (metis prod_cases3)
  then have r: "ciat_update cclk ?c = Some (c2\<lparr>tstate := u\<rparr>, ?n)"
    using cycles_alarmclk by (auto simp: ciat_update_def same_timer_def)
  have "tstate c < 0x4000" using ok by (auto simp: timer_ok_def elim: order.strict_trans)
  then have f: "first_underflow a c (tstate c)"
    using search_first [of 0 "tstate c" c a] ok room a by (simp add: stage_def)
  have d: "?d = unat cclk - unat (tclk c)" using cclk(1) by (simp add: unat_sub word_le_nat_alt)
  have "unat cclk \<noteq> unat CLOCK_MAX" using cclk(2) by (simp add: unsigned_minus_1_eq_mask mask_eq_exp_minus_1)
  then have m: "cclk \<noteq> CLOCK_MAX" by metis
  have "?n = (if cclk = a then 1 else 0)"
  proof (cases "a = CLOCK_MAX")
    case True
    then show ?thesis using f m by (simp add: first_underflow_def)
  next
    case False
    then obtain k where k: "unat a = unat (tclk c) + k" "snd (snd ((ciat_cycle ^^ k) (c, tstate c, 0))) = 1"
      "\<And>j. j < k \<Longrightarrow> snd (snd ((ciat_cycle ^^ j) (c, tstate c, 0))) = 0"
      using f by (auto simp: first_underflow_def)
    show ?thesis
    proof (cases "cclk = a")
      case True
      then show ?thesis using k d by simp
    next
      case False
      then have "unat cclk < unat a" using cclk(4) by (simp add: word_less_nat_alt [symmetric])
      then have "?d < k" using k(1) d cclk(1) by (simp add: word_le_nat_alt)
      then show ?thesis using k(3) False by simp
    qed
  qed
  then show ?thesis using r by simp
qed

text \<open>
  C34 (ciat_alarm_exact): setting the alarm of a timer never fails; the alarm is then pending for the tick in alarmclk, or
  not at all when that is CLOCK_MAX. Bringing the timer up to a tick before alarmclk finds no underflow, bringing it up to
  alarmclk finds exactly one.
\<close>
theorem ciat_alarm_exact:
  assumes "timer_ok (tstate c) c" "unat (tclk c) + 0x10004 < 2 ^ 32"
    and "alarm_reach q" "talarm c \<in> dom (heap q)"
    and "alarm_map q (talarm c) \<noteq> None \<or> card (dom (alarm_map q)) < ALARM_CONTEXT_MAX_PENDING_ALARMS"
  shows "\<exists>c' q'. ciat_set_alarm c q = Some (c', q') \<and>
    alarm_map q' = (alarm_map q)(talarm c := if alarmclk c' = CLOCK_MAX then None else Some (alarmclk c')) \<and>
    (\<forall>cclk. tclk c \<le> cclk \<and> unat cclk + 0x10000 < 2 ^ 32 \<and> unat (cclk - tclk c) < 2 ^ 31 \<and> cclk \<le> alarmclk c' \<longrightarrow>
      (\<exists>c''. ciat_update cclk c' = Some (c'', if cclk = alarmclk c' then 1 else 0)))"
proof -
  have "tstate c < 0x4000" using assms(1) by (auto simp: timer_ok_def elim: order.strict_trans)
  then obtain a where a: "set_alarm_loop c (tstate c) = Some a"
    using search_terminates [of 0 "tstate c" c] by (auto simp: stage_def)
  obtain q' where q: "(if a \<noteq> CLOCK_MAX then alarm_set (talarm c) a q else alarm_unset (talarm c) q) = Some q'"
      "alarm_map q' = (alarm_map q)(talarm c := if a = CLOCK_MAX then None else Some a)"
    using aq.set_law [OF alarm_reach_inv [OF assms(3)] assms(4,5), of a]
      aq.unset_law [OF alarm_reach_inv [OF assms(3)] assms(4)] by (cases "a = CLOCK_MAX") auto
  have "ciat_set_alarm c q = Some (c\<lparr>alarmclk := a\<rparr>, q')" using a q(1) by (simp add: ciat_set_alarm_def)
  then show ?thesis using update_until [OF assms(1,2) a] q(2)
    by (intro exI [of _ "c\<lparr>alarmclk := a\<rparr>"] exI [of _ q']) simp
qed

definition wit_timer :: ciat where
  "wit_timer = \<lparr>ciat_name = ''CIA1_TA'', tstate = 0x863, latch = 99, cnt = 50, alarmclk = CLOCK_MAX, tclk = 1000, talarm = 7\<rparr>"

lemma wit_timer_state: "tstate wit_timer = counting_state"
  by (simp add: wit_timer_def counting_state_def CIAT_COUNT_def CIAT_COUNT3_def CIAT_PHI2IN_def CIAT_COUNT2_def CIAT_CR_START_def)

lemma wit_timer_ok: "timer_ok (tstate wit_timer) wit_timer"
  unfolding timer_ok_def wit_timer_state by (auto simp: small_state tbit wit_timer_def)

lemma wit_timer_search: "set_alarm_loop wit_timer (tstate wit_timer) = Some 1050"
proof -
  have "warp_counting (tstate wit_timer)" unfolding wit_timer_state by (simp add: tbit)
  then show ?thesis by (subst set_alarm_loop.simps) (simp add: wit_timer_def)
qed

theorem ciat_update_cycles_witness:
  "\<exists>c' t u n. (ciat_cycle ^^ 200) (wit_timer, tstate wit_timer, 0) = (c', t, n) \<and>
    ciat_update 1200 wit_timer = Some (c'\<lparr>tstate := u\<rparr>, n) \<and> u AND NOT CIAT_COUNT = t AND NOT CIAT_COUNT"
  using ciat_update_cycles [OF wit_timer_ok, of 1200] by (simp add: wit_timer_def)

theorem ciat_search_ends_witness: "\<exists>a. set_alarm_loop wit_timer (tstate wit_timer) = Some a"
  by (rule ciat_search_ends) (simp add: wit_timer_def)

theorem ciat_alarm_exact_witness:
  "\<exists>c' q'. ciat_set_alarm wit_timer wit_new = Some (c', q') \<and>
    alarm_map q' = [7 \<mapsto> 1050] \<and> (\<exists>c''. ciat_update 1050 c' = Some (c'', 1))"
proof -
  have w: "tclk wit_timer = 1000" "talarm wit_timer = 7" by (simp_all add: wit_timer_def)
  obtain c' q' where r: "ciat_set_alarm wit_timer wit_new = Some (c', q')"
    "alarm_map q' = (alarm_map wit_new)(7 := if alarmclk c' = CLOCK_MAX then None else Some (alarmclk c'))"
    "\<forall>cclk. 1000 \<le> cclk \<and> unat cclk + 0x10000 < 2 ^ 32 \<and> unat (cclk - 1000) < 2 ^ 31 \<and> cclk \<le> alarmclk c' \<longrightarrow>
      (\<exists>c''. ciat_update cclk c' = Some (c'', if cclk = alarmclk c' then 1 else 0))"
    using ciat_alarm_exact [OF wit_timer_ok _ wit_new_reach, unfolded w] wit_new_dom
    by (auto simp: ALARM_CONTEXT_MAX_PENDING_ALARMS_def)
  moreover have "alarmclk c' = 1050" using r(1) wit_timer_search by (auto simp: ciat_set_alarm_def split: bind_splits)
  moreover from this have "\<exists>c''. ciat_update 1050 c' = Some (c'', 1)" using spec [OF r(3), of 1050] by simp
  ultimately show ?thesis using wit_new_dom by auto
qed

end
