(* ===== verification/CiaCore.thy ===== *)
theory CiaCore
  imports CiaTimer
begin

unbundle bit_operations_syntax

text \<open>
  The MOS 6526 CIA of ciacore.c: the register file with its two timers, the time of day clock, the interrupt logic and the
  serial port. The chip is a record that holds the context \<open>cia_context_t\<close>, the alarm queue it lives on, the clock and the
  read-modify-write flag of the CPU it points to, and in \<open>prv\<close> whatever its callbacks own. The callbacks of a machine are
  the record \<open>cia_hooks\<close>: functions on the whole chip, since they get its pointer; a null pointer is None.

  Bringing a timer up to date runs the alarms it has missed, and such an alarm brings the other timer up to date: these
  functions call each other and loop over pending alarms, and get fuel. Arrays of the context are functions of the index;
  the indices of the code are masked, so they never leave the arrays.
\<close>

section \<open>State\<close>

definition CIA_PRA :: nat where "CIA_PRA = 0"
definition CIA_PRB :: nat where "CIA_PRB = 1"
definition CIA_DDRA :: nat where "CIA_DDRA = 2"
definition CIA_DDRB :: nat where "CIA_DDRB = 3"
definition CIA_TAL :: nat where "CIA_TAL = 4"
definition CIA_TAH :: nat where "CIA_TAH = 5"
definition CIA_TBL :: nat where "CIA_TBL = 6"
definition CIA_TBH :: nat where "CIA_TBH = 7"
definition CIA_TOD_TEN :: nat where "CIA_TOD_TEN = 8"
definition CIA_TOD_SEC :: nat where "CIA_TOD_SEC = 9"
definition CIA_TOD_MIN :: nat where "CIA_TOD_MIN = 10"
definition CIA_TOD_HR :: nat where "CIA_TOD_HR = 11"
definition CIA_SDR :: nat where "CIA_SDR = 12"
definition CIA_ICR :: nat where "CIA_ICR = 13"
definition CIA_CRA :: nat where "CIA_CRA = 14"
definition CIA_CRB :: nat where "CIA_CRB = 15"

lemmas cia_registers = CIA_PRA_def CIA_PRB_def CIA_DDRA_def CIA_DDRB_def CIA_TAL_def CIA_TAH_def CIA_TBL_def CIA_TBH_def
  CIA_TOD_TEN_def CIA_TOD_SEC_def CIA_TOD_MIN_def CIA_TOD_HR_def CIA_SDR_def CIA_ICR_def CIA_CRA_def CIA_CRB_def

definition CIA_IM_SET :: u8 where "CIA_IM_SET = 0x80"
definition CIA_IM_TA :: u32 where "CIA_IM_TA = 1"
definition CIA_IM_TB :: u32 where "CIA_IM_TB = 2"
definition CIA_IM_TOD :: u32 where "CIA_IM_TOD = 4"
definition CIA_IM_SDR :: u32 where "CIA_IM_SDR = 8"
definition CIA_IM_FLG :: u32 where "CIA_IM_FLG = 16"
definition CIA_IM_TBB :: u32 where "CIA_IM_TBB = 0x100"

definition CIA_MODEL_6526 :: int where "CIA_MODEL_6526 = 0"
definition CIA_MODEL_6526A :: int where "CIA_MODEL_6526A = 1"
definition CIA_MAX_IDLE_CYCLES :: clock where "CIA_MAX_IDLE_CYCLES = 5000"
definition READ_OFFSET :: clock where "READ_OFFSET = 0"

record 'x cia =
  c_cia :: "nat \<Rightarrow> u8"
  ta_alarm :: nat
  tb_alarm :: nat
  tod_alarm :: nat
  idle_alarm :: nat
  irqflags :: u32
  irq_enabled :: u8
  rdi :: clock
  tat :: u32
  tbt :: u32
  todclk :: clock
  sr_bits :: u32
  sdr_valid :: bool
  shifter :: u8
  old_pa :: u8
  old_pb :: u8
  todstopped :: bool
  todlatched :: bool
  todalarm :: "nat \<Rightarrow> u8"
  todlatch :: "nat \<Rightarrow> u8"
  todticks :: u32
  todtickcounter :: u8
  power_freq :: int
  power_tickcounter :: int
  power_ticks :: clock
  ticks_per_sec :: clock
  ta :: ciat
  tb :: ciat
  read_clk :: clock
  read_offset :: u32
  last_read :: u8
  irq_line :: u32
  clk :: clock
  rmw_flag :: bool
  write_offset :: clock
  model :: int
  cia_enabled :: bool
  queue :: alarm_sys
  prv :: 'x

record 'x cia_hooks =
  store_ciapa :: "clock \<Rightarrow> u8 \<Rightarrow> 'x cia \<Rightarrow> 'x cia"
  store_ciapb :: "clock \<Rightarrow> u8 \<Rightarrow> 'x cia \<Rightarrow> 'x cia"
  store_sdr :: "u8 \<Rightarrow> 'x cia \<Rightarrow> 'x cia"
  read_ciapa :: "'x cia \<Rightarrow> u8 \<times> 'x cia"
  read_ciapb :: "'x cia \<Rightarrow> u8 \<times> 'x cia"
  read_ciaicr :: "'x cia \<Rightarrow> 'x cia"
  read_sdr :: "'x cia \<Rightarrow> 'x cia"
  cia_set_int_clk :: "u32 \<Rightarrow> clock \<Rightarrow> 'x cia \<Rightarrow> 'x cia"
  do_reset_cia :: "'x cia \<Rightarrow> 'x cia"
  pulse_ciapc :: "clock \<Rightarrow> 'x cia \<Rightarrow> 'x cia"
  pre_store :: "('x cia \<Rightarrow> 'x cia) option"
  pre_read :: "('x cia \<Rightarrow> 'x cia) option"
  pre_peek :: "('x cia \<Rightarrow> 'x cia) option"
  lib_unsigned_rand :: "'x cia \<Rightarrow> u32 \<times> 'x cia"

definition call_pre :: "('x cia \<Rightarrow> 'x cia) option \<Rightarrow> 'x cia \<Rightarrow> 'x cia" where
  "call_pre f s = (case f of None \<Rightarrow> s | Some g \<Rightarrow> g s)"

definition set_reg :: "nat \<Rightarrow> u8 \<Rightarrow> 'x cia \<Rightarrow> 'x cia" where
  "set_reg i v s = s\<lparr>c_cia := (c_cia s)(i := v)\<rparr>"

text \<open>An operation of the alarm queue, or of a timer on the queue.\<close>

definition on_queue :: "(alarm_sys \<Rightarrow> alarm_sys option) \<Rightarrow> 'x cia \<Rightarrow> 'x cia option" where
  "on_queue f s = map_option (\<lambda>q. s\<lparr>queue := q\<rparr>) (f (queue s))"

definition on_ta :: "(ciat \<Rightarrow> alarm_sys \<Rightarrow> (ciat \<times> alarm_sys) option) \<Rightarrow> 'x cia \<Rightarrow> 'x cia option" where
  "on_ta f s = map_option (\<lambda>(c, q). s\<lparr>ta := c, queue := q\<rparr>) (f (ta s) (queue s))"

definition on_tb :: "(ciat \<Rightarrow> alarm_sys \<Rightarrow> (ciat \<times> alarm_sys) option) \<Rightarrow> 'x cia \<Rightarrow> 'x cia option" where
  "on_tb f s = map_option (\<lambda>(c, q). s\<lparr>tb := c, queue := q\<rparr>) (f (tb s) (queue s))"

section \<open>Interrupts\<close>

definition my_set_int :: "'x cia_hooks \<Rightarrow> bool \<Rightarrow> clock \<Rightarrow> 'x cia \<Rightarrow> 'x cia" where
  "my_set_int h val rclk s =
    (if val then (cia_set_int_clk h (irq_line s) rclk s)\<lparr>irq_enabled := 1\<rparr>
     else (cia_set_int_clk h 0 rclk s)\<lparr>irq_enabled := 0\<rparr>)"

text \<open>The comparison of four bytes by \<open>memcmp\<close>.\<close>

definition check_ciatodalarm :: "'x cia_hooks \<Rightarrow> 'x cia \<Rightarrow> 'x cia" where
  "check_ciatodalarm h s =
    (if list_all (\<lambda>i. todalarm s i = c_cia s (CIA_TOD_TEN + i)) [0..<4] then
       (let s = s\<lparr>irqflags := irqflags s OR CIA_IM_TOD\<rparr> in
        if truth (ucast (c_cia s CIA_ICR) AND CIA_IM_TOD) then
          my_set_int h (truth (irq_line s)) (clk s) (s\<lparr>irqflags := irqflags s OR 0x80\<rparr>)
        else s)
     else s)"

definition cia_do_update_ta :: "clock \<Rightarrow> 'x cia \<Rightarrow> 'x cia option" where
  "cia_do_update_ta rclk s = do {
     (c, n) \<leftarrow> ciat_update rclk (ta s);
     let s = s\<lparr>ta := c\<rparr>;
     Some (if truth n then s\<lparr>irqflags := irqflags s OR CIA_IM_TA, tat := (tat s + n) AND 1\<rparr> else s)
   }"

definition cia_do_update_tb :: "clock \<Rightarrow> 'x cia \<Rightarrow> 'x cia option" where
  "cia_do_update_tb rclk s = do {
     (c, n) \<leftarrow> ciat_update rclk (tb s);
     let s = s\<lparr>tb := c\<rparr>;
     Some (if truth n then
         (let s = s\<lparr>irqflags := irqflags s OR CIA_IM_TB\<rparr>;
              s = (if model s = CIA_MODEL_6526 \<and> rdi s = rclk - 1 then s\<lparr>irqflags := irqflags s OR CIA_IM_TBB\<rparr>
                   else s\<lparr>irqflags := irqflags s AND NOT CIA_IM_TBB\<rparr>)
          in s\<lparr>tbt := (tbt s + n) AND 1\<rparr>)
       else s)
   }"

text \<open>\<open>ciat_single_step\<close> returns 0, so the flags are never touched here.\<close>

definition cia_do_step_tb :: "'x cia \<Rightarrow> 'x cia option" where
  "cia_do_step_tb s = on_tb ciat_single_step s"

definition cia_do_set_int :: "'x cia_hooks \<Rightarrow> clock \<Rightarrow> 'x cia \<Rightarrow> 'x cia" where
  "cia_do_set_int h rclk s =
    (let rclk = (if rdi s = rclk - 1 \<and> model s = CIA_MODEL_6526A then rclk + 1 else rclk) in
     if irqflags s AND ucast (c_cia s CIA_ICR) AND 0x7f = 0 then s
     else if model s \<noteq> CIA_MODEL_6526A \<and> rdi s = rclk then s
     else (let rclk = (if model s \<noteq> CIA_MODEL_6526A then rclk + 1 else rclk);
               s = (if truth (irqflags s AND CIA_IM_TBB)
                    then s\<lparr>irqflags := irqflags s AND NOT (CIA_IM_TBB OR CIA_IM_TB)\<rparr> else s);
               s = my_set_int h (truth (irq_line s)) rclk s
           in s\<lparr>irqflags := irqflags s OR 0x80\<rparr>))"

section \<open>Timers\<close>

text \<open>The middle of \<open>ciacore_intta\<close>: the shift register counts underflows of timer A.\<close>

definition shift_out :: "'x cia_hooks \<Rightarrow> 'x cia \<Rightarrow> 'x cia" where
  "shift_out h s =
    (if truth (c_cia s CIA_CRA AND 0x40) then
       (let s = (if truth (sr_bits s) then
                   (let s = s\<lparr>sr_bits := sr_bits s - 1\<rparr> in
                    if sr_bits s = 0 then store_sdr h (shifter s) (s\<lparr>irqflags := irqflags s OR CIA_IM_SDR\<rparr>) else s)
                 else s)
        in if sr_bits s = 0 \<and> sdr_valid s then s\<lparr>shifter := c_cia s CIA_SDR, sdr_valid := False, sr_bits := 14\<rparr> else s)
     else s)"

definition keep_ta_alarm :: "'x cia \<Rightarrow> bool" where
  "keep_ta_alarm s \<longleftrightarrow> c_cia s CIA_CRA AND 0x29 = 0x01 \<and>
     (truth (ucast (c_cia s CIA_ICR) AND CIA_IM_TA) \<and> irqflags s AND 0x80 = 0 \<or> truth (c_cia s CIA_CRA AND 0x42) \<or>
      truth (c_cia s CIA_CRB AND 0x40))"

definition keep_tb_alarm :: "'x cia \<Rightarrow> bool" where
  "keep_tb_alarm s \<longleftrightarrow> c_cia s CIA_CRB AND 0x69 = 0x01 \<and> truth (ucast (c_cia s CIA_ICR) AND CIA_IM_TB)"

definition tb_counts_ta :: "'x cia \<Rightarrow> bool" where
  "tb_counts_ta s \<longleftrightarrow> c_cia s CIA_CRB AND 0x41 = 0x41"

definition ciacore_inttb :: "'x cia_hooks \<Rightarrow> clock \<Rightarrow> 'x cia \<Rightarrow> 'x cia option" where
  "ciacore_inttb h off s = do {
     let rclk = clk s - off;
     s \<leftarrow> cia_do_update_tb rclk s;
     s \<leftarrow> on_tb ciat_ack_alarm s;
     s \<leftarrow> (if keep_tb_alarm s then on_tb ciat_set_alarm s else Some s);
     Some (cia_do_set_int h rclk s)
   }"

text \<open>The loop of \<open>cia_update_tb\<close> over missed alarms; the tick of the last one is returned.\<close>

fun tb_loop :: "nat \<Rightarrow> 'x cia_hooks \<Rightarrow> clock \<Rightarrow> clock \<Rightarrow> 'x cia \<Rightarrow> (clock \<times> 'x cia) option" where
  "tb_loop 0 h rclk lt s = None"
| "tb_loop (Suc f) h rclk lt s =
    (let tmp = ciat_alarm_clk (tb s) in
     if tmp \<le> rclk then do { s \<leftarrow> ciacore_inttb h (clk s - tmp) s; tb_loop f h rclk tmp s } else Some (lt, s))"

fun cia_update_ta :: "nat \<Rightarrow> 'x cia_hooks \<Rightarrow> clock \<Rightarrow> 'x cia \<Rightarrow> 'x cia option"
  and ta_loop :: "nat \<Rightarrow> 'x cia_hooks \<Rightarrow> clock \<Rightarrow> clock \<Rightarrow> 'x cia \<Rightarrow> (clock \<times> 'x cia) option"
  and ciacore_intta :: "nat \<Rightarrow> 'x cia_hooks \<Rightarrow> clock \<Rightarrow> 'x cia \<Rightarrow> 'x cia option"
  and cia_update_tb :: "nat \<Rightarrow> 'x cia_hooks \<Rightarrow> clock \<Rightarrow> 'x cia \<Rightarrow> 'x cia option" where
  "cia_update_ta 0 h rclk s = None"
| "cia_update_ta (Suc f) h rclk s = do {
     (lt, s) \<leftarrow> ta_loop f h rclk 0 s;
     if lt \<noteq> rclk then cia_do_update_ta rclk s else Some s
   }"
| "ta_loop 0 h rclk lt s = None"
| "ta_loop (Suc f) h rclk lt s =
    (let tmp = ciat_alarm_clk (ta s) in
     if tmp \<le> rclk then do { s \<leftarrow> ciacore_intta f h (clk s - tmp) s; ta_loop f h rclk tmp s } else Some (lt, s))"
| "ciacore_intta 0 h off s = None"
| "ciacore_intta (Suc f) h off s = do {
     let rclk = clk s - off;
     s \<leftarrow> cia_do_update_ta rclk s;
     s \<leftarrow> on_ta ciat_ack_alarm s;
     s \<leftarrow> (if keep_ta_alarm s then on_ta ciat_set_alarm s else Some s);
     let s = shift_out h s;
     s \<leftarrow> (if tb_counts_ta s then do { s \<leftarrow> cia_update_tb f h rclk s; cia_do_step_tb s } else Some s);
     Some (cia_do_set_int h rclk s)
   }"
| "cia_update_tb 0 h rclk s = None"
| "cia_update_tb (Suc f) h rclk s = do {
     s \<leftarrow> (if tb_counts_ta s then cia_update_ta f h rclk s else Some s);
     (lt, s) \<leftarrow> tb_loop f h rclk 0 s;
     if lt \<noteq> rclk then cia_do_update_tb rclk s else Some s
   }"

definition ciacore_clk_overflow_callback :: "nat \<Rightarrow> 'x cia_hooks \<Rightarrow> clock \<Rightarrow> 'x cia \<Rightarrow> 'x cia option" where
  "ciacore_clk_overflow_callback f h sub s =
    (if \<not> cia_enabled s then Some s
     else do {
       s \<leftarrow> cia_update_ta f h (clk s + sub) s;
       s \<leftarrow> cia_update_tb f h (clk s + sub) s;
       let s = s\<lparr>ta := ciat_prevent_clock_overflow sub (ta s), tb := ciat_prevent_clock_overflow sub (tb s)\<rparr>;
       let s = (if rdi s > sub then s\<lparr>rdi := rdi s - sub\<rparr> else s\<lparr>rdi := 0\<rparr>);
       let s = (if read_clk s > sub then s\<lparr>read_clk := read_clk s - sub\<rparr> else s\<lparr>read_clk := 0\<rparr>);
       Some (if truth (todclk s) then s\<lparr>todclk := todclk s - sub\<rparr> else s)
     })"

text \<open>\<open>USE_IDLE_CALLBACK\<close> is not yet defined where \<open>ciacore_disable\<close> tests it.\<close>

definition ciacore_disable :: "'x cia \<Rightarrow> 'x cia option" where
  "ciacore_disable s = do {
     s \<leftarrow> on_queue (alarm_unset (ta_alarm s)) s;
     s \<leftarrow> on_queue (alarm_unset (tb_alarm s)) s;
     s \<leftarrow> on_queue (alarm_unset (tod_alarm s)) s;
     Some (s\<lparr>cia_enabled := False\<rparr>)
   }"

definition ciacore_reset :: "'x cia_hooks \<Rightarrow> 'x cia \<Rightarrow> 'x cia option" where
  "ciacore_reset h s = do {
     let s = s\<lparr>c_cia := (\<lambda>i. if i < 16 then 0 else c_cia s i), rdi := 0, sr_bits := 0, read_clk := 0\<rparr>;
     s \<leftarrow> on_ta (ciat_reset (clk s)) s;
     s \<leftarrow> on_tb (ciat_reset (clk s)) s;
     let s = s\<lparr>sdr_valid := False, todalarm := (\<lambda>_. 0), todlatched := False, todstopped := True\<rparr>;
     let s = set_reg CIA_TOD_HR 1 s;
     let s = s\<lparr>todlatch := (\<lambda>i. c_cia s (CIA_TOD_TEN + i)), todclk := clk s + todticks s\<rparr>;
     s \<leftarrow> on_queue (alarm_set (tod_alarm s) (todclk s)) s;
     let s = s\<lparr>todtickcounter := 0, irqflags := 0, irq_enabled := 0\<rparr>;
     let s = (my_set_int h False (clk s) s)\<lparr>old_pa := 0, old_pb := 0\<rparr>;
     Some ((do_reset_cia h s)\<lparr>cia_enabled := True\<rparr>)
   }"

section \<open>Registers\<close>

text \<open>Bits 6 and 7 of port B when a timer drives them.\<close>

definition pb6_out :: "nat \<Rightarrow> 'x cia_hooks \<Rightarrow> clock \<Rightarrow> u8 \<Rightarrow> 'x cia \<Rightarrow> (u8 \<times> 'x cia) option" where
  "pb6_out f h rclk byte s =
    (if truth (c_cia s CIA_CRA AND 0x02) then do {
       s \<leftarrow> cia_update_ta f h rclk s;
       let byte = byte AND 0xbf;
       Some (if (if truth (c_cia s CIA_CRA AND 0x04) then truth (tat s) else truth (ciat_is_underflow_clk (ta s)))
             then byte OR 0x40 else byte, s)
     } else Some (byte, s))"

definition pb7_out :: "nat \<Rightarrow> 'x cia_hooks \<Rightarrow> clock \<Rightarrow> u8 \<Rightarrow> 'x cia \<Rightarrow> (u8 \<times> 'x cia) option" where
  "pb7_out f h rclk byte s =
    (if truth (c_cia s CIA_CRB AND 0x02) then do {
       s \<leftarrow> cia_update_tb f h rclk s;
       let byte = byte AND 0x7f;
       Some (if (if truth (c_cia s CIA_CRB AND 0x04) then truth (tbt s) else truth (ciat_is_underflow_clk (tb s)))
             then byte OR 0x80 else byte, s)
     } else Some (byte, s))"

definition port_b_timers :: "nat \<Rightarrow> 'x cia_hooks \<Rightarrow> clock \<Rightarrow> u8 \<Rightarrow> 'x cia \<Rightarrow> (u8 \<times> 'x cia) option" where
  "port_b_timers f h rclk byte s =
    (if truth ((c_cia s CIA_CRA OR c_cia s CIA_CRB) AND 0x02) then do {
       (byte, s) \<leftarrow> pb6_out f h rclk byte s;
       pb7_out f h rclk byte s
     } else Some (byte, s))"

text \<open>Writing a time of day register: the byte as masked, then alarm or time.\<close>

definition tod_byte :: "nat \<Rightarrow> u8 \<Rightarrow> 'x cia \<Rightarrow> u8" where
  "tod_byte addr byte s =
    (if addr = CIA_TOD_HR then
       (let byte = byte AND 0x9f in
        if byte AND 0x1f = 0x12 \<and> c_cia s CIA_CRB AND 0x80 = 0 then byte XOR 0x80 else byte)
     else if addr = CIA_TOD_MIN then byte AND 0x7f
     else if addr = CIA_TOD_SEC then byte AND 0x7f
     else if addr = CIA_TOD_TEN then byte AND 0x0f else byte)"

definition store_tod :: "'x cia_hooks \<Rightarrow> nat \<Rightarrow> u8 \<Rightarrow> 'x cia \<Rightarrow> 'x cia" where
  "store_tod h addr byte s =
    (let byte = tod_byte addr byte s;
         (changed, s) =
           (if truth (c_cia s CIA_CRB AND 0x80) then
              (todalarm s (addr - CIA_TOD_TEN) \<noteq> byte, s\<lparr>todalarm := (todalarm s)(addr - CIA_TOD_TEN := byte)\<rparr>)
            else
              (let s = (if addr = CIA_TOD_TEN then
                          (if todstopped s then s\<lparr>todtickcounter := 0\<rparr> else s)\<lparr>todstopped := False\<rparr> else s);
                   s = (if addr = CIA_TOD_HR then s\<lparr>todstopped := True\<rparr> else s)
               in (c_cia s addr \<noteq> byte, set_reg addr byte s)))
     in if changed then check_ciatodalarm h s else s)"

text \<open>The interrupt control register.\<close>

definition store_icr :: "nat \<Rightarrow> 'x cia_hooks \<Rightarrow> clock \<Rightarrow> u8 \<Rightarrow> 'x cia \<Rightarrow> 'x cia option" where
  "store_icr f h rclk byte s = do {
     s \<leftarrow> cia_update_ta f h rclk s;
     s \<leftarrow> cia_update_tb f h rclk s;
     let s = (if truth (byte AND CIA_IM_SET) then set_reg CIA_ICR (c_cia s CIA_ICR OR (byte AND 0x7f)) s
              else set_reg CIA_ICR (c_cia s CIA_ICR AND NOT (byte AND 0x7f)) s);
     let s = (if truth (ucast (c_cia s CIA_ICR) AND irqflags s AND 0x7f) then cia_do_set_int h (rclk + 1) s else s);
     s \<leftarrow> (if truth (ucast (c_cia s CIA_ICR) AND CIA_IM_TA) then on_ta ciat_set_alarm s else Some s);
     if truth (ucast (c_cia s CIA_ICR) AND CIA_IM_TB) then on_tb ciat_set_alarm s else Some s
   }"

definition store_cra :: "nat \<Rightarrow> 'x cia_hooks \<Rightarrow> clock \<Rightarrow> u8 \<Rightarrow> 'x cia \<Rightarrow> 'x cia option" where
  "store_cra f h rclk byte s = do {
     let s = (if truth (byte AND 1) \<and> c_cia s CIA_CRA AND 1 = 0 then s\<lparr>tat := 1\<rparr> else s);
     s \<leftarrow> cia_update_ta f h rclk s;
     s \<leftarrow> on_ta (ciat_set_ctrl byte) s;
     Some (set_reg CIA_CRA (byte AND 0xef) s)
   }"

definition store_crb :: "nat \<Rightarrow> 'x cia_hooks \<Rightarrow> clock \<Rightarrow> u8 \<Rightarrow> 'x cia \<Rightarrow> 'x cia option" where
  "store_crb f h rclk byte s = do {
     let s = (if truth (byte AND 1) \<and> c_cia s CIA_CRB AND 1 = 0 then s\<lparr>tbt := 1\<rparr> else s);
     s \<leftarrow> cia_update_ta f h rclk s;
     s \<leftarrow> cia_update_tb f h rclk s;
     s \<leftarrow> (if truth (byte AND 0x40) then do { s \<leftarrow> on_ta ciat_set_alarm s; on_tb (ciat_set_ctrl (byte OR 0x20)) s }
           else on_tb (ciat_set_ctrl byte) s);
     Some (set_reg CIA_CRB (byte AND 0xef) s)
   }"

definition store_pa :: "'x cia_hooks \<Rightarrow> nat \<Rightarrow> u8 \<Rightarrow> 'x cia \<Rightarrow> 'x cia" where
  "store_pa h addr byte s =
    (let s = set_reg addr byte s;
         byte = c_cia s CIA_PRA OR NOT (c_cia s CIA_DDRA)
     in if byte \<noteq> old_pa s then (store_ciapa h (clk s) byte s)\<lparr>old_pa := byte\<rparr> else s)"

definition store_pb :: "nat \<Rightarrow> 'x cia_hooks \<Rightarrow> clock \<Rightarrow> nat \<Rightarrow> u8 \<Rightarrow> 'x cia \<Rightarrow> 'x cia option" where
  "store_pb f h rclk addr byte s = do {
     let s = set_reg addr byte s;
     (byte, s) \<leftarrow> port_b_timers f h rclk (c_cia s CIA_PRB OR NOT (c_cia s CIA_DDRB)) s;
     let s = (if byte \<noteq> old_pb s then (store_ciapb h (clk s) byte s)\<lparr>old_pb := byte\<rparr> else s);
     Some (if addr = CIA_PRB then pulse_ciapc h rclk s else s)
   }"

definition ciacore_store_internal :: "nat \<Rightarrow> 'x cia_hooks \<Rightarrow> u16 \<Rightarrow> u8 \<Rightarrow> 'x cia \<Rightarrow> 'x cia option" where
  "ciacore_store_internal f h address byte s =
    (let addr = unat (address AND 0xf); rclk = clk s - write_offset s in
     if addr = CIA_PRA \<or> addr = CIA_DDRA then Some (store_pa h addr byte s)
     else if addr = CIA_PRB \<or> addr = CIA_DDRB then store_pb f h rclk addr byte s
     else if addr = CIA_TAL then do { s \<leftarrow> cia_update_ta f h rclk s; on_ta (ciat_set_latchlo byte) s }
     else if addr = CIA_TBL then do { s \<leftarrow> cia_update_tb f h rclk s; on_tb (ciat_set_latchlo byte) s }
     else if addr = CIA_TAH then do { s \<leftarrow> cia_update_ta f h rclk s; on_ta (ciat_set_latchhi byte) s }
     else if addr = CIA_TBH then do { s \<leftarrow> cia_update_tb f h rclk s; on_tb (ciat_set_latchhi byte) s }
     else if addr \<in> {CIA_TOD_TEN, CIA_TOD_HR, CIA_TOD_SEC, CIA_TOD_MIN} then Some (store_tod h addr byte s)
     else if addr = CIA_SDR then
       (let s = set_reg addr byte s in
        if c_cia s CIA_CRA AND 0x40 = 0x40 then
          do { s \<leftarrow> cia_update_ta f h rclk (s\<lparr>sdr_valid := True\<rparr>); on_ta ciat_set_alarm s }
        else Some s)
     else if addr = CIA_ICR then store_icr f h rclk byte s
     else if addr = CIA_CRA then store_cra f h rclk byte s
     else if addr = CIA_CRB then store_crb f h rclk byte s
     else Some (set_reg addr byte s))"

definition ciacore_store :: "nat \<Rightarrow> 'x cia_hooks \<Rightarrow> u16 \<Rightarrow> u8 \<Rightarrow> 'x cia \<Rightarrow> 'x cia option" where
  "ciacore_store f h addr byte s = do {
     let s = call_pre (pre_store h) s;
     s \<leftarrow> (if rmw_flag s then do {
             let s = s\<lparr>clk := clk s - 1\<rparr>;
             s \<leftarrow> ciacore_store_internal f h addr (last_read s) s;
             Some (s\<lparr>clk := clk s + 1\<rparr>)
           } else Some s);
     ciacore_store_internal f h addr byte s
   }"

text \<open>Every read leaves its value in \<open>last_read\<close>.\<close>

definition reads :: "u8 \<Rightarrow> 'x cia \<Rightarrow> u8 \<times> 'x cia" where
  "reads v s = (v, s\<lparr>last_read := v\<rparr>)"

definition timer_lo :: "ciat \<Rightarrow> u8" where "timer_lo c = ucast (ciat_read_timer c AND 0xff)"
definition timer_hi :: "ciat \<Rightarrow> u8" where "timer_hi c = ucast (drop_bit 8 (ciat_read_timer c) AND 0xff)"

definition read_tod :: "nat \<Rightarrow> 'x cia \<Rightarrow> u8 \<times> 'x cia" where
  "read_tod addr s =
    (let s = (if \<not> todlatched s then s\<lparr>todlatch := (\<lambda>i. c_cia s (CIA_TOD_TEN + i))\<rparr> else s);
         s = (if addr = CIA_TOD_TEN then s\<lparr>todlatched := False\<rparr> else s);
         s = (if addr = CIA_TOD_HR then s\<lparr>todlatched := True\<rparr> else s)
     in reads (todlatch s (addr - CIA_TOD_TEN)) s)"

definition read_icr :: "nat \<Rightarrow> 'x cia_hooks \<Rightarrow> clock \<Rightarrow> 'x cia \<Rightarrow> (u8 \<times> 'x cia) option" where
  "read_icr f h rclk s = do {
     let s = s\<lparr>rdi := rclk\<rparr>;
     s \<leftarrow> cia_update_ta f h rclk s;
     s \<leftarrow> cia_update_tb f h rclk s;
     let s = read_ciaicr h s;
     s \<leftarrow> on_ta ciat_set_alarm s;
     s \<leftarrow> on_tb ciat_set_alarm s;
     let s = (if truth (irqflags s AND CIA_IM_TBB) then s\<lparr>irqflags := irqflags s AND NOT (CIA_IM_TBB OR CIA_IM_TB)\<rparr> else s);
     let t = (ucast (irqflags s) :: u8);
     let s = my_set_int h False rclk (s\<lparr>irqflags := 0\<rparr>);
     Some (reads t s)
   }"

definition ciacore_read :: "nat \<Rightarrow> 'x cia_hooks \<Rightarrow> u16 \<Rightarrow> 'x cia \<Rightarrow> (u8 \<times> 'x cia) option" where
  "ciacore_read f h address s =
    (let addr = unat (address AND 0xf);
         s = call_pre (pre_read h) s;
         s = s\<lparr>read_clk := clk s, read_offset := 0\<rparr>;
         rclk = clk s - READ_OFFSET;
         s = call_pre (pre_read h) s
     in if addr = CIA_PRA then (let (v, s) = read_ciapa h s in Some (reads v s))
     else if addr = CIA_PRB then do {
       let (v, s) = read_ciapb h s;
       (v, s) \<leftarrow> port_b_timers f h rclk v (pulse_ciapc h rclk s);
       Some (reads v s)
     }
     else if addr = CIA_TAL then do { s \<leftarrow> cia_update_ta f h rclk s; Some (reads (timer_lo (ta s)) s) }
     else if addr = CIA_TAH then do { s \<leftarrow> cia_update_ta f h rclk s; Some (reads (timer_hi (ta s)) s) }
     else if addr = CIA_TBL then do { s \<leftarrow> cia_update_tb f h rclk s; Some (reads (timer_lo (tb s)) s) }
     else if addr = CIA_TBH then do { s \<leftarrow> cia_update_tb f h rclk s; Some (reads (timer_hi (tb s)) s) }
     else if addr \<in> {CIA_TOD_TEN, CIA_TOD_SEC, CIA_TOD_MIN, CIA_TOD_HR} then Some (read_tod addr s)
     else if addr = CIA_SDR then (let s = read_sdr h s in Some (reads (c_cia s CIA_SDR) s))
     else if addr = CIA_ICR then read_icr f h rclk s
     else if addr = CIA_CRA then
       do { s \<leftarrow> cia_update_ta f h rclk s; Some (reads ((c_cia s CIA_CRA AND 0xfe) OR ucast (ciat_is_running (ta s))) s) }
     else if addr = CIA_CRB then
       do { s \<leftarrow> cia_update_tb f h rclk s; Some (reads ((c_cia s CIA_CRB AND 0xfe) OR ucast (ciat_is_running (tb s))) s) }
     else Some (reads (c_cia s addr) s))"

definition ciacore_peek :: "nat \<Rightarrow> 'x cia_hooks \<Rightarrow> u16 \<Rightarrow> 'x cia \<Rightarrow> (u8 \<times> 'x cia) option" where
  "ciacore_peek f h address s =
    (let addr = unat (address AND 0xf);
         s = call_pre (pre_peek h) s;
         rclk = clk s - READ_OFFSET
     in if addr = CIA_PRA then Some (read_ciapa h s)
     else if addr = CIA_PRB then (let (v, s) = read_ciapb h s in port_b_timers f h rclk v s)
     else if addr = CIA_TAL then do { s \<leftarrow> cia_update_ta f h rclk s; Some (timer_lo (ta s), s) }
     else if addr = CIA_TAH then do { s \<leftarrow> cia_update_ta f h rclk s; Some (timer_hi (ta s), s) }
     else if addr = CIA_TBL then do { s \<leftarrow> cia_update_tb f h rclk s; Some (timer_lo (tb s), s) }
     else if addr = CIA_TBH then do { s \<leftarrow> cia_update_tb f h rclk s; Some (timer_hi (tb s), s) }
     else if addr \<in> {CIA_TOD_TEN, CIA_TOD_SEC, CIA_TOD_MIN, CIA_TOD_HR} then
       Some (if todlatched s then todlatch s (addr - CIA_TOD_TEN) else c_cia s addr, s)
     else if addr = CIA_SDR then (let s = read_sdr h s in Some (c_cia s CIA_SDR, s))
     else if addr = CIA_ICR then do {
       s \<leftarrow> cia_update_ta f h rclk s;
       s \<leftarrow> cia_update_tb f h rclk s;
       s \<leftarrow> on_ta ciat_set_alarm s;
       s \<leftarrow> on_tb ciat_set_alarm s;
       Some (ucast (irqflags s), s)
     }
     else if addr = CIA_CRA then
       do { s \<leftarrow> cia_update_ta f h rclk s; Some ((c_cia s CIA_CRA AND 0xfe) OR ucast (ciat_is_running (ta s)), s) }
     else if addr = CIA_CRB then
       do { s \<leftarrow> cia_update_tb f h rclk s; Some ((c_cia s CIA_CRB AND 0xfe) OR ucast (ciat_is_running (tb s)), s) }
     else Some (c_cia s addr, s))"

definition ciacore_set_flag :: "'x cia_hooks \<Rightarrow> 'x cia \<Rightarrow> 'x cia" where
  "ciacore_set_flag h s =
    (let s = s\<lparr>irqflags := irqflags s OR CIA_IM_FLG\<rparr> in
     if truth (ucast (c_cia s CIA_ICR) AND CIA_IM_FLG) then
       my_set_int h (truth (irq_line s)) (clk s) (s\<lparr>irqflags := irqflags s OR 0x80\<rparr>)
     else s)"

definition ciacore_set_sdr :: "'x cia_hooks \<Rightarrow> u8 \<Rightarrow> 'x cia \<Rightarrow> 'x cia" where
  "ciacore_set_sdr h data s =
    (if c_cia s CIA_CRA AND 0x40 = 0 then
       (let s = (set_reg CIA_SDR data s)\<lparr>irqflags := irqflags s OR CIA_IM_SDR\<rparr> in
        if truth (ucast (c_cia s CIA_ICR) AND CIA_IM_SDR) then
          my_set_int h (truth (irq_line s)) (clk s) (s\<lparr>irqflags := irqflags s OR 0x80\<rparr>)
        else s)
     else s)"

definition ciacore_idle :: "nat \<Rightarrow> 'x cia_hooks \<Rightarrow> clock \<Rightarrow> 'x cia \<Rightarrow> 'x cia option" where
  "ciacore_idle f h off s = do {
     let rclk = clk s - off;
     s \<leftarrow> cia_update_ta f h rclk s;
     s \<leftarrow> cia_update_tb f h rclk s;
     on_queue (alarm_set (idle_alarm s) (rclk + CIA_MAX_IDLE_CYCLES)) s
   }"

definition ciacore_setup_context :: "'x cia \<Rightarrow> 'x cia" where
  "ciacore_setup_context s = s\<lparr>read_clk := 0, read_offset := 0, last_read := 0, write_offset := 1, model := 0\<rparr>"

section \<open>Time of day\<close>

text \<open>The length of the next tick of the mains, kept on average at the mains frequency.\<close>

definition tod_power_tick :: "'x cia_hooks \<Rightarrow> 'x cia \<Rightarrow> 'x cia" where
  "tod_power_tick h s =
    (let s = s\<lparr>todticks := ticks_per_sec s div word_of_int (power_freq s)\<rparr>;
         tclk = (word_of_int (power_tickcounter s) * ticks_per_sec s) div word_of_int (power_freq s);
         s = (if power_ticks s < tclk then (let (r, s) = lib_unsigned_rand h s in s\<lparr>todticks := todticks s + r\<rparr>)
              else if power_ticks s > tclk then (let (r, s) = lib_unsigned_rand h s in s\<lparr>todticks := todticks s - r\<rparr>)
              else s);
         s = s\<lparr>power_tickcounter := power_tickcounter s + 1\<rparr>
     in if power_tickcounter s \<ge> power_freq s then
          s\<lparr>todticks := ticks_per_sec s - power_ticks s, power_tickcounter := 0, power_ticks := 0\<rparr>
        else s\<lparr>power_ticks := power_ticks s + todticks s\<rparr>)"

definition tod_tick :: "'x cia \<Rightarrow> bool \<times> 'x cia" where
  "tod_tick s =
    (if todstopped s then (False, s)
     else (let s = s\<lparr>todtickcounter := (todtickcounter s + 1) AND 7\<rparr> in
       if todtickcounter s = (if truth (c_cia s CIA_CRA AND 0x80) then 5 else 6) then (True, s\<lparr>todtickcounter := 0\<rparr>)
       else (False, s)))"

text \<open>The carries of the counters, innermost last: hours, minutes, seconds, tenths.\<close>

definition tod_hours :: "u8 \<Rightarrow> u8 \<Rightarrow> u8 \<Rightarrow> u8 \<times> u8 \<times> u8" where
  "tod_hours t5 t6 pm =
    (let t5 = (t5 + 1) AND 0x0f in
     if truth t6 then
       (let pm = (if t5 = 2 then pm XOR 0x80 else pm) in if t5 = 3 then (1, 0, pm) else (t5, t6, pm))
     else if t5 = 10 then (0, 1, pm) else (t5, t6, pm))"

definition tod_minutes :: "u8 \<Rightarrow> u8 \<Rightarrow> u8 \<times> u8 \<times> u8 \<Rightarrow> u8 \<times> u8 \<times> u8 \<times> u8 \<times> u8" where
  "tod_minutes t3 t4 hours =
    (let t3 = (t3 + 1) AND 0x0f in
     if t3 = 10 then
       (let t4 = (t4 + 1) AND 0x07 in
        if t4 = 6 then (case hours of (t5, t6, pm) \<Rightarrow> (0, 0, tod_hours t5 t6 pm)) else (0, t4, hours))
     else (t3, t4, hours))"

definition tod_seconds ::
    "u8 \<Rightarrow> u8 \<Rightarrow> u8 \<times> u8 \<times> u8 \<times> u8 \<times> u8 \<Rightarrow> u8 \<times> u8 \<times> u8 \<times> u8 \<times> u8 \<times> u8 \<times> u8" where
  "tod_seconds t1 t2 rest =
    (let t1 = (t1 + 1) AND 0x0f in
     if t1 = 10 then
       (let t2 = (t2 + 1) AND 0x07 in
        if t2 = 6 then (case rest of (t3, t4, hours) \<Rightarrow> (0, 0, tod_minutes t3 t4 hours)) else (0, t2, rest))
     else (t1, t2, rest))"

definition tod_advance :: "'x cia \<Rightarrow> 'x cia" where
  "tod_advance s =
    (let t0 = c_cia s CIA_TOD_TEN AND 0x0f;
         t1 = c_cia s CIA_TOD_SEC AND 0x0f; t2 = drop_bit 4 (c_cia s CIA_TOD_SEC) AND 0x0f;
         t3 = c_cia s CIA_TOD_MIN AND 0x0f; t4 = drop_bit 4 (c_cia s CIA_TOD_MIN) AND 0x0f;
         t5 = c_cia s CIA_TOD_HR AND 0x0f; t6 = drop_bit 4 (c_cia s CIA_TOD_HR) AND 0x01;
         pm = c_cia s CIA_TOD_HR AND 0x80;
         t0 = (t0 + 1) AND 0x0f;
         (t0, t1, t2, t3, t4, t5, t6, pm) =
           (if t0 = 10 then (0, tod_seconds t1 t2 (t3, t4, t5, t6, pm)) else (t0, t1, t2, t3, t4, t5, t6, pm))
     in s\<lparr>c_cia := (c_cia s)(CIA_TOD_TEN := t0, CIA_TOD_SEC := t1 OR push_bit 4 t2, CIA_TOD_MIN := t3 OR push_bit 4 t4,
          CIA_TOD_HR := t5 OR push_bit 4 t6 OR pm)\<rparr>)"

definition ciacore_inttod :: "'x cia_hooks \<Rightarrow> 'x cia \<Rightarrow> 'x cia option" where
  "ciacore_inttod h s =
    (if power_freq s = 0 then
       (let s = s\<lparr>todclk := clk s + 100000\<rparr> in on_queue (alarm_set (tod_alarm s) (todclk s)) s)
     else do {
       let s = tod_power_tick h s;
       let s = s\<lparr>todclk := clk s + todticks s\<rparr>;
       s \<leftarrow> on_queue (alarm_set (tod_alarm s) (todclk s)) s;
       let (update, s) = tod_tick s;
       Some (if update then check_ciatodalarm h (tod_advance s) else s)
     })"

end
