(* ===== verification/CiaTod.thy ===== *)
theory CiaTod
  imports CiaCore
begin

unbundle bit_operations_syntax

text \<open>
  What the time of day clock of ciacore.c counts: on the four registers, read as binary coded decimals with a 12 hour clock,
  \<open>ciacore_inttod\<close> adds a tenth of a second modulo a day. Also what \<open>ciacore_disable\<close> does to the alarm queue.
\<close>

section \<open>Binary coded decimals\<close>

definition bcd :: "u8 \<Rightarrow> nat" where "bcd b = unat b div 16 * 10 + unat b mod 16"

definition bcd60 :: "u8 \<Rightarrow> bool" where "bcd60 b \<longleftrightarrow> unat b mod 16 < 10 \<and> unat b div 16 < 6"

lemma nibbles:
  fixes b :: u8
  shows "unat (b AND 0x0f) = unat b mod 16" "unat (drop_bit 4 b AND 0x0f) = unat b div 16"
proof -
  have m: "(0x0f :: u8) = mask 4" by (simp add: mask_eq_exp_minus_1)
  show "unat (b AND 0x0f) = unat b mod 16" unfolding m take_bit_eq_mask [symmetric]
    unfolding unsigned_take_bit_eq unfolding take_bit_eq_mod by simp
  have "unat b div 16 < 16" using unsigned_less [of b, where 'a = nat] by simp
  then show "unat (drop_bit 4 b AND 0x0f) = unat b div 16"
    unfolding m take_bit_eq_mask [symmetric] unsigned_take_bit_eq unsigned_drop_bit_eq
    by (simp add: take_bit_eq_mod drop_bit_eq_div)
qed

lemma unat_byte:
  fixes lo hi :: u8
  assumes "unat lo < 16" "unat hi < 16"
  shows "unat (lo OR push_bit 4 hi) = unat lo + 16 * unat hi"
proof -
  have l: "\<not> bit lo k" if "4 \<le> k" for k
  proof -
    have "lo = take_bit 4 lo" using assms(1) by (simp add: word_unat_eq_iff unsigned_take_bit_eq take_bit_nat_eq_self)
    then show ?thesis using that by (metis bit_take_bit_iff not_le)
  qed
  have "lo AND push_bit 4 hi = 0" using l by (auto intro!: bit_word_eqI simp: bit_simps)
  then have e: "lo OR push_bit 4 hi = lo + push_bit 4 hi" by (rule disjunctive_add_eq_or [symmetric])
  have p: "unat (push_bit 4 hi) = 16 * unat hi"
    using assms(2) unfolding unsigned_push_bit_eq by (simp add: push_bit_eq_mult take_bit_nat_eq_self_iff mult.commute)
  show ?thesis unfolding e using assms p by (subst unat_add_lem [THEN iffD1]) simp_all
qed

lemma inc_low:
  fixes t :: u8
  assumes "unat t < 15"
  shows "unat ((t + 1) AND 0x0f) = unat t + 1"
proof -
  have "unat (t + 1) = unat t + 1" using assms by (subst unat_add_lem [THEN iffD1]) simp_all
  then show ?thesis using assms nibbles(1) [of "t + 1"] by simp
qed

lemma inc_high:
  fixes t :: u8
  assumes "unat t < 7"
  shows "unat ((t + 1) AND 0x07) = unat t + 1"
proof -
  have m: "(0x07 :: u8) = mask 3" by (simp add: mask_eq_exp_minus_1)
  have "unat (t + 1) = unat t + 1" using assms by (subst unat_add_lem [THEN iffD1]) simp_all
  then show ?thesis using assms unfolding m take_bit_eq_mask [symmetric] unsigned_take_bit_eq unfolding take_bit_eq_mod by simp
qed

lemma unat_eq_num: "t = word_of_nat n \<longleftrightarrow> unat t = n" if "n < 256" for t :: u8
  using that by (auto simp: unat_of_nat word_unat_eq_iff)

section \<open>The clock counts\<close>

text \<open>A valid hour, a valid time, and the tenths of a second since midnight.\<close>

definition hour12 :: "u8 \<Rightarrow> bool" where
  "hour12 b \<longleftrightarrow> (let h = unat b mod 128 in 1 \<le> h \<and> h \<le> 9 \<or> 16 \<le> h \<and> h \<le> 18)"

definition tod_valid :: "'x cia \<Rightarrow> bool" where
  "tod_valid s \<longleftrightarrow> unat (c_cia s CIA_TOD_TEN) < 10 \<and> bcd60 (c_cia s CIA_TOD_SEC) \<and> bcd60 (c_cia s CIA_TOD_MIN) \<and>
     hour12 (c_cia s CIA_TOD_HR)"

definition tod_hour :: "u8 \<Rightarrow> nat" where
  "tod_hour b = (if unat b \<ge> 128 then 12 else 0) + (unat b mod 128 div 16 * 10 + unat b mod 16) mod 12"

definition tod_value :: "'x cia \<Rightarrow> nat" where
  "tod_value s = tod_hour (c_cia s CIA_TOD_HR) * 36000 + bcd (c_cia s CIA_TOD_MIN) * 600 + bcd (c_cia s CIA_TOD_SEC) * 10 +
     unat (c_cia s CIA_TOD_TEN)"

lemma u8_eq: "t = 10 \<longleftrightarrow> unat t = 10" "t = 6 \<longleftrightarrow> unat t = 6" "t = 2 \<longleftrightarrow> unat t = 2" "t = 3 \<longleftrightarrow> unat t = 3" for t :: u8
  by (auto simp: word_unat_eq_iff)

text \<open>A counter of 60: the two digits after one step, with the carry.\<close>

lemma count60:
  assumes "bcd60 b"
  defines "lo \<equiv> (b AND 0x0f) + 1 AND 0x0f" and "hi \<equiv> (drop_bit 4 b AND 0x0f) + 1 AND 0x07"
  shows "lo = 10 \<Longrightarrow> hi = 6 \<Longrightarrow> bcd b = 59"
    and "lo = 10 \<Longrightarrow> hi \<noteq> 6 \<Longrightarrow> bcd60 (push_bit 4 hi) \<and> bcd (push_bit 4 hi) = bcd b + 1"
    and "lo \<noteq> 10 \<Longrightarrow> bcd60 (lo OR push_bit 4 (drop_bit 4 b AND 0x0f)) \<and>
      bcd (lo OR push_bit 4 (drop_bit 4 b AND 0x0f)) = bcd b + 1"
proof -
  have b: "unat b mod 16 < 10" "unat b div 16 < 6" using assms(1) by (simp_all add: bcd60_def)
  have lo: "unat lo = unat b mod 16 + 1" unfolding lo_def using b by (subst inc_low) (simp_all add: nibbles)
  have hi: "unat hi = unat b div 16 + 1" unfolding hi_def using b nibbles(2) [of b] by (subst inc_high) simp_all
  show "lo = 10 \<Longrightarrow> hi = 6 \<Longrightarrow> bcd b = 59" using lo hi by (simp add: u8_eq bcd_def)
  show "bcd60 (push_bit 4 hi) \<and> bcd (push_bit 4 hi) = bcd b + 1" if "lo = 10" "hi \<noteq> 6"
    using that lo hi b unat_byte [of 0 hi] by (simp add: u8_eq bcd_def bcd60_def)
  show "bcd60 (lo OR push_bit 4 (drop_bit 4 b AND 0x0f)) \<and> bcd (lo OR push_bit 4 (drop_bit 4 b AND 0x0f)) = bcd b + 1"
    if "lo \<noteq> 10"
  proof -
    define q where "q = drop_bit 4 b AND 0x0f"
    have "unat q = unat b div 16" unfolding q_def by (rule nibbles)
    then show ?thesis using that lo b unat_byte [of lo q] by (simp add: u8_eq bcd_def bcd60_def mod_Suc div_Suc flip: q_def)
  qed
qed

text \<open>The hour digits: 1 to 12, and noon and midnight turn the flag.\<close>

lemma hour_cases:
  assumes "hour12 b"
  shows "unat b \<in> {1, 2, 3, 4, 5, 6, 7, 8, 9, 16, 17, 18, 129, 130, 131, 132, 133, 134, 135, 136, 137, 144, 145, 146}"
proof -
  define m where "m = unat b mod 128"
  have n: "unat b = m \<or> unat b = m + 128"
  proof (cases "unat b < 128")
    case False
    then have "m = unat b - 128" using unsigned_less [of b, where 'a = nat] unfolding m_def by (simp add: le_mod_geq)
    then show ?thesis using False by simp
  qed (simp add: m_def)
  have "1 \<le> m \<and> m \<le> 9 \<or> 16 \<le> m \<and> m \<le> 18" using assms by (simp add: hour12_def m_def Let_def)
  then have "m = 1 \<or> m = 2 \<or> m = 3 \<or> m = 4 \<or> m = 5 \<or> m = 6 \<or> m = 7 \<or> m = 8 \<or> m = 9 \<or> m = 16 \<or> m = 17 \<or> m = 18"
    by presburger
  then show ?thesis using n by (elim disjE) simp_all
qed

lemma hour_induct:
  assumes "hour12 b" "\<forall>n \<in> {1, 2, 3, 4, 5, 6, 7, 8, 9, 16, 17, 18, 129, 130, 131, 132, 133, 134, 135, 136, 137, 144, 145, 146}.
    P (word_of_nat n)"
  shows "P b"
  using bspec [OF assms(2) hour_cases [OF assms(1)]] by simp

definition hour_join :: "u8 \<times> u8 \<times> u8 \<Rightarrow> u8" where
  "hour_join = (\<lambda>(t5, t6, pm). t5 OR push_bit 4 t6 OR pm)"

definition hour_split :: "u8 \<Rightarrow> u8 \<times> u8 \<times> u8" where
  "hour_split b = (b AND 0x0f, drop_bit 4 b AND 0x01, b AND 0x80)"

lemma join_split_hour: "hour12 b \<Longrightarrow> hour_join (hour_split b) = b"
  by (erule hour_induct) (simp add: hour_join_def hour_split_def)

lemma count12:
  "hour12 b \<Longrightarrow> hour12 (hour_join (case hour_split b of (t5, t6, pm) \<Rightarrow> tod_hours t5 t6 pm)) \<and>
    tod_hour (hour_join (case hour_split b of (t5, t6, pm) \<Rightarrow> tod_hours t5 t6 pm)) = (tod_hour b + 1) mod 24"
  by (erule hour_induct) (simp add: hour_join_def hour_split_def tod_hours_def tod_hour_def hour12_def)

lemma join_byte: "(b AND 0x0f) OR push_bit 4 (drop_bit 4 b AND 0x0f) = (b :: u8)"
  using unat_byte [of "b AND 0x0f" "drop_bit 4 b AND 0x0f"] nibbles [of b] unsigned_less [of b, where 'a = nat]
  by (intro word_unat_eq_iff [THEN iffD2]) (simp add: nibbles del: and_numerals)

definition tod_set :: "u8 \<Rightarrow> u8 \<Rightarrow> u8 \<Rightarrow> u8 \<Rightarrow> 'x cia \<Rightarrow> 'x cia" where
  "tod_set t s' m h s = s\<lparr>c_cia := (c_cia s)(CIA_TOD_TEN := t, CIA_TOD_SEC := s', CIA_TOD_MIN := m, CIA_TOD_HR := h)\<rparr>"

abbreviation inc_lo :: "u8 \<Rightarrow> u8" where "inc_lo b \<equiv> (b AND 0x0f) + 1 AND 0x0f"
abbreviation inc_hi :: "u8 \<Rightarrow> u8" where "inc_hi b \<equiv> (drop_bit 4 b AND 0x0f) + 1 AND 0x07"

text \<open>One step of a counter of 60: its new digits, and whether it carries.\<close>

definition next60 :: "u8 \<Rightarrow> u8 \<times> bool" where
  "next60 b = (if inc_lo b = 10 then (if inc_hi b = 6 then (0, True) else (push_bit 4 (inc_hi b), False))
     else (inc_lo b OR push_bit 4 (drop_bit 4 b AND 0x0f), False))"

lemma next60_value:
  assumes "bcd60 b" "next60 b = (b', carry)"
  shows "bcd60 b'" "if carry then bcd b = 59 \<and> bcd b' = 0 else bcd b' = bcd b + 1"
  using count60 [OF assms(1)] assms(2) by (auto simp: next60_def bcd60_def bcd_def split: if_splits)

lemma tod_advance_steps:
  assumes "hour12 (c_cia s CIA_TOD_HR)" "inc_lo (c_cia s CIA_TOD_TEN) = 10"
    and "next60 (c_cia s CIA_TOD_SEC) = (sec, c1)" "next60 (c_cia s CIA_TOD_MIN) = (mins, c2)"
  shows "tod_advance s = tod_set 0 sec (if c1 then mins else c_cia s CIA_TOD_MIN)
    (if c1 \<and> c2 then hour_join (case hour_split (c_cia s CIA_TOD_HR) of (t5, t6, pm) \<Rightarrow> tod_hours t5 t6 pm)
     else c_cia s CIA_TOD_HR) s"
  using assms join_split_hour [OF assms(1)]
  unfolding tod_advance_def tod_seconds_def tod_minutes_def next60_def Let_def tod_set_def
  by (auto simp: join_byte join_byte [simplified] hour_split_def hour_join_def split: if_splits prod.splits)

lemma tod_set_regs [simp]:
  "c_cia (tod_set t sec m h s) CIA_TOD_TEN = t" "c_cia (tod_set t sec m h s) CIA_TOD_SEC = sec"
  "c_cia (tod_set t sec m h s) CIA_TOD_MIN = m" "c_cia (tod_set t sec m h s) CIA_TOD_HR = h"
  by (simp_all add: tod_set_def cia_registers)

lemma tod_hour_less: "hour12 b \<Longrightarrow> tod_hour b < 24"
  by (erule hour_induct) (simp add: tod_hour_def)

lemma bcd60_less: "bcd60 b \<Longrightarrow> bcd b < 60"
  by (simp add: bcd60_def bcd_def)

lemma tod_advance_value:
  assumes "tod_valid s"
  shows "tod_valid (tod_advance s)" and "tod_value (tod_advance s) = (tod_value s + 1) mod 864000"
proof -
  let ?ten = "c_cia s CIA_TOD_TEN" and ?sec = "c_cia s CIA_TOD_SEC" and ?min = "c_cia s CIA_TOD_MIN" and ?hr = "c_cia s CIA_TOD_HR"
  have v: "unat ?ten < 10" "bcd60 ?sec" "bcd60 ?min" "hour12 ?hr" using assms by (simp_all add: tod_valid_def)
  have ten: "?ten AND 0x0f = ?ten" using v(1) nibbles(1) [of ?ten] by (simp add: word_unat_eq_iff)
  have inc: "unat (inc_lo ?ten) = unat ?ten + 1" unfolding ten using v(1) by (intro inc_low) simp
  have bound: "tod_hour ?hr < 24" "bcd ?min < 60" "bcd ?sec < 60" using v tod_hour_less bcd60_less by auto
  have "tod_valid (tod_advance s) \<and> tod_value (tod_advance s) = (tod_value s + 1) mod 864000"
  proof (cases "inc_lo ?ten = 10")
    case False
    have j: "(?hr AND 0x0f) OR push_bit 4 (drop_bit 4 ?hr AND 0x01) OR (?hr AND 0x80) = ?hr"
      using join_split_hour [OF v(4)] by (simp add: hour_join_def hour_split_def)
    have e: "tod_advance s = tod_set (inc_lo ?ten) ?sec ?min ?hr s"
      unfolding tod_advance_def Let_def tod_set_def using False by (simp only: if_False prod.case join_byte j)
    have "unat ?ten \<noteq> 9" using False inc by (simp add: u8_eq)
    then show ?thesis unfolding e using v inc bound by (simp add: tod_valid_def tod_value_def)
  next
    case True
    obtain sec c1 where s: "next60 ?sec = (sec, c1)" by fastforce
    obtain mins c2 where m: "next60 ?min = (mins, c2)" by fastforce
    have new: "bcd sec < 60" "bcd mins < 60" using next60_value(1) [OF v(2) s] next60_value(1) [OF v(3) m] bcd60_less by auto
    note e = tod_advance_steps [OF v(4) True s m]
    have "unat ?ten = 9" using True inc by (simp add: u8_eq)
    then show ?thesis
      unfolding e using v bound new next60_value [OF v(2) s] next60_value [OF v(3) m] count12 [OF v(4)]
      by (cases c1; cases c2) (auto simp: tod_valid_def tod_value_def mod_if)
  qed
  then show "tod_valid (tod_advance s)" "tod_value (tod_advance s) = (tod_value s + 1) mod 864000" by blast+
qed

section \<open>Properties\<close>

text \<open>What the clock needs of the callbacks: they leave the registers and the tick counter alone.\<close>

definition keeps_tod :: "('x cia \<Rightarrow> 'x cia) \<Rightarrow> bool" where
  "keeps_tod f \<longleftrightarrow> (\<forall>s. c_cia (f s) = c_cia s \<and> todstopped (f s) = todstopped s \<and> todtickcounter (f s) = todtickcounter s \<and>
     queue (f s) = queue s \<and> tod_alarm (f s) = tod_alarm s)"

definition tod_hooks :: "'x cia_hooks \<Rightarrow> bool" where
  "tod_hooks h \<longleftrightarrow> keeps_tod (\<lambda>s. snd (lib_unsigned_rand h s)) \<and> (\<forall>l r. keeps_tod (cia_set_int_clk h l r))"

text \<open>The mains ticks that carry into the tenths: every fifth or sixth.\<close>

definition tod_due :: "'x cia \<Rightarrow> bool" where
  "tod_due s \<longleftrightarrow> \<not> todstopped s \<and> (todtickcounter s + 1) AND 7 = (if truth (c_cia s CIA_CRA AND 0x80) then 5 else 6)"

lemma power_tick_keeps: "tod_hooks h \<Longrightarrow> keeps_tod (tod_power_tick h)"
  by (auto simp: tod_hooks_def keeps_tod_def tod_power_tick_def Let_def case_prod_beta)

lemma check_alarm_keeps: "tod_hooks h \<Longrightarrow> keeps_tod (check_ciatodalarm h)"
  by (auto simp: tod_hooks_def keeps_tod_def check_ciatodalarm_def my_set_int_def Let_def)

lemma tod_value_cong: "c_cia s = c_cia s' \<Longrightarrow> tod_value s = tod_value s' \<and> tod_valid s = tod_valid s'"
  by (simp add: tod_value_def tod_valid_def)

text \<open>
  C8 (tod_counts): on a valid time, a tick of the mains either leaves the time of day or, when the tick divider is due and
  the clock runs, advances it by a tenth of a second modulo a day, through AM and PM; the time stays valid, and the next
  tick is scheduled.
\<close>
theorem tod_counts:
  assumes "tod_valid s" "power_freq s \<noteq> 0" "tod_hooks h" "alarm_reach (queue s)" "tod_alarm s \<in> dom (heap (queue s))"
  shows "\<exists>s'. ciacore_inttod h s = Some s' \<and> tod_valid s' \<and>
    tod_value s' = (if tod_due s then (tod_value s + 1) mod 864000 else tod_value s)"
proof -
  define p where "p = tod_power_tick h s"
  define w where "w = p\<lparr>todclk := clk p + todticks p\<rparr>"
  have p: "c_cia p = c_cia s" "todstopped p = todstopped s" "todtickcounter p = todtickcounter s"
      "queue p = queue s" "tod_alarm p = tod_alarm s"
    using power_tick_keeps [OF assms(3)] by (simp_all add: keeps_tod_def p_def)
  obtain q where q: "alarm_set (tod_alarm s) (todclk w) (queue s) = Some q"
    using aq.set_defined [OF alarm_reach_inv [OF assms(4)] assms(5)] by blast
  define s1 where "s1 = w\<lparr>queue := q\<rparr>"
  have s1: "c_cia s1 = c_cia s" "todstopped s1 = todstopped s" "todtickcounter s1 = todtickcounter s"
    using p by (simp_all add: s1_def w_def)
  have r: "ciacore_inttod h s = Some (if fst (tod_tick s1) then check_ciatodalarm h (tod_advance (snd (tod_tick s1)))
      else snd (tod_tick s1))"
    using assms(2) q p unfolding ciacore_inttod_def p_def [symmetric] Let_def w_def [symmetric] on_queue_def
    by (simp add: w_def s1_def case_prod_beta)
  have t: "fst (tod_tick s1) = tod_due s" "c_cia (snd (tod_tick s1)) = c_cia s"
    using s1 by (auto simp: tod_tick_def tod_due_def Let_def)
  have v: "tod_valid (snd (tod_tick s1))" "tod_value (snd (tod_tick s1)) = tod_value s"
    using tod_value_cong [OF t(2)] assms(1) by simp_all
  have k: "c_cia (check_ciatodalarm h x) = c_cia x" for x
    using check_alarm_keeps [OF assms(3)] by (simp add: keeps_tod_def)
  show ?thesis using r t(1) v tod_advance_value [OF v(1)] tod_value_cong [OF k] by (cases "tod_due s") auto
qed

text \<open>
  C35 (cia_disable_idle): disabling the chip takes its timer and time of day alarms out of the queue and no other: the idle
  alarm, set when the chip was created, stays pending and goes on stepping the timers of the disabled chip.
\<close>
theorem cia_disable_idle:
  assumes "alarm_reach (queue s)" "{ta_alarm s, tb_alarm s, tod_alarm s} \<subseteq> dom (heap (queue s))"
    and "idle_alarm s \<notin> {ta_alarm s, tb_alarm s, tod_alarm s}"
  shows "\<exists>s'. ciacore_disable s = Some s' \<and> \<not> cia_enabled s' \<and>
    (\<forall>a \<in> {ta_alarm s, tb_alarm s, tod_alarm s}. alarm_map (queue s') a = None) \<and>
    alarm_map (queue s') (idle_alarm s) = alarm_map (queue s) (idle_alarm s)"
proof -
  obtain q1 where q1: "alarm_unset (ta_alarm s) (queue s) = Some q1" "alarm_inv q1" "dom (heap q1) = dom (heap (queue s))"
    "alarm_map q1 = (alarm_map (queue s))(ta_alarm s := None)"
    using aq.unset_law [OF alarm_reach_inv [OF assms(1)]] assms(2) by blast
  obtain q2 where q2: "alarm_unset (tb_alarm s) q1 = Some q2" "alarm_inv q2" "dom (heap q2) = dom (heap (queue s))"
    "alarm_map q2 = (alarm_map q1)(tb_alarm s := None)"
    using aq.unset_law [OF q1(2)] q1(3) assms(2) by force
  obtain q3 where q3: "alarm_unset (tod_alarm s) q2 = Some q3" "alarm_map q3 = (alarm_map q2)(tod_alarm s := None)"
    using aq.unset_law [OF q2(2)] q2(3) assms(2) by force
  show ?thesis using q1 q2 q3 assms(3) by (simp add: ciacore_disable_def on_queue_def)
qed

text \<open>A chip at 11:59:59.9 PM, one tick of the mains before midnight, its alarms 7 and 8 on the queue \<open>q\<close>.\<close>

definition wit_cia :: "alarm_sys \<Rightarrow> unit cia" where
  "wit_cia q = \<lparr>c_cia = (\<lambda>_. 0)(CIA_TOD_TEN := 9, CIA_TOD_SEC := 0x59, CIA_TOD_MIN := 0x59, CIA_TOD_HR := 0x91),
     ta_alarm = 7, tb_alarm = 7, tod_alarm = 7, idle_alarm = 8, irqflags = 0, irq_enabled = 0, rdi = 0, tat = 0, tbt = 0,
     todclk = 0, sr_bits = 0, sdr_valid = False, shifter = 0, old_pa = 0, old_pb = 0, todstopped = False, todlatched = False,
     todalarm = (\<lambda>_. 0), todlatch = (\<lambda>_. 0), todticks = 100000, todtickcounter = 5, power_freq = 50, power_tickcounter = 0,
     power_ticks = 0, ticks_per_sec = 985248, ta = wit_timer, tb = wit_timer, read_clk = 0, read_offset = 0, last_read = 0,
     irq_line = 1, clk = 1000, rmw_flag = False, write_offset = 1, model = 0, cia_enabled = True, queue = q, prv = ()\<rparr>"

definition wit_hooks :: "unit cia_hooks" where
  "wit_hooks = \<lparr>store_ciapa = (\<lambda>_ _. id), store_ciapb = (\<lambda>_ _. id), store_sdr = (\<lambda>_. id), read_ciapa = Pair 0xff,
     read_ciapb = Pair 0xff, read_ciaicr = id, read_sdr = id, cia_set_int_clk = (\<lambda>_ _. id), do_reset_cia = id,
     pulse_ciapc = (\<lambda>_. id), pre_store = None, pre_read = None, pre_peek = None, lib_unsigned_rand = Pair 0\<rparr>"

lemma wit_cia_tod: "tod_valid (wit_cia q)" "tod_value (wit_cia q) = 863999" "tod_due (wit_cia q)"
  by (simp_all add: wit_cia_def tod_valid_def tod_value_def tod_due_def cia_registers bcd60_def bcd_def hour12_def tod_hour_def)

theorem tod_counts_witness: "\<exists>s'. ciacore_inttod wit_hooks (wit_cia wit_new) = Some s' \<and> tod_value s' = 0"
proof -
  have "tod_hooks wit_hooks" by (simp add: tod_hooks_def wit_hooks_def keeps_tod_def)
  moreover have "power_freq (wit_cia wit_new) \<noteq> 0" "queue (wit_cia wit_new) = wit_new" "tod_alarm (wit_cia wit_new) = 7"
    by (simp_all add: wit_cia_def)
  ultimately show ?thesis
    using tod_counts [of "wit_cia wit_new" wit_hooks] wit_cia_tod wit_new_reach wit_new_dom(1) by auto
qed

theorem cia_disable_idle_witness:
  "\<exists>q s'. alarm_reach q \<and> ciacore_disable (wit_cia q) = Some s' \<and> alarm_map (queue s') 8 = Some 5000"
proof -
  have n: "heap wit_new 8 = None" by (simp add: wit_new_def wit_start_def alarm_new_def alarm_init_def alarm_context_new_def
      alarm_context_init_def)
  obtain q1 where q1: "alarm_new 8 ''IDLE'' 5 0 wit_new = Some q1" "alarm_inv q1" "alarm_map q1 = Map.empty"
    "dom (heap q1) = insert 8 (dom (heap wit_new))"
    using alarm_inv_new [OF alarm_reach_inv [OF wit_new_reach] n] wit_new_dom(2) by metis
  obtain q where q: "alarm_set 8 5000 q1 = Some q" "alarm_map q = [8 \<mapsto> 5000]" "dom (heap q) = dom (heap q1)"
    using aq.set_law [OF q1(2), of 8 5000] q1(3,4) by (auto simp: ALARM_CONTEXT_MAX_PENDING_ALARMS_def)
  have r: "alarm_reach q"
    using alarm_reach.set [OF alarm_reach.new [OF wit_new_reach n q1(1)] _ q(1)] q1(4) by simp
  have f: "queue (wit_cia q) = q" "ta_alarm (wit_cia q) = 7" "tb_alarm (wit_cia q) = 7" "tod_alarm (wit_cia q) = 7"
    "idle_alarm (wit_cia q) = 8" by (simp_all add: wit_cia_def)
  show ?thesis using cia_disable_idle [of "wit_cia q", unfolded f] r q q1(4) wit_new_dom(1) by auto
qed

end
