(* ===== verification/DiskGeometry.thy ===== *)
theory DiskGeometry
  imports Prelude
begin

text \<open>
  The geometry of disk images: diskimage.c and fsimage-check.c. Formats are the numbers of diskimage.h; a track has a speed
  zone, and the zone gives the number of its sectors, the bytes of its raw track and the gap between sectors. The check of a
  track and sector numbers the blocks of an image from 0 and rejects addresses outside with a negative code. Counts stay far
  below the range of \<open>unsigned int\<close>, so they are natural numbers; the subtractions never go below zero. Log messages are left out.
\<close>

section \<open>Formats\<close>

definition DISK_IMAGE_TYPE_X64 :: nat where "DISK_IMAGE_TYPE_X64 = 0"
definition DISK_IMAGE_TYPE_G64 :: nat where "DISK_IMAGE_TYPE_G64 = 100"
definition DISK_IMAGE_TYPE_G71 :: nat where "DISK_IMAGE_TYPE_G71 = 101"
definition DISK_IMAGE_TYPE_P64 :: nat where "DISK_IMAGE_TYPE_P64 = 200"
definition DISK_IMAGE_TYPE_D64 :: nat where "DISK_IMAGE_TYPE_D64 = 1541"
definition DISK_IMAGE_TYPE_D67 :: nat where "DISK_IMAGE_TYPE_D67 = 2040"
definition DISK_IMAGE_TYPE_D71 :: nat where "DISK_IMAGE_TYPE_D71 = 1571"
definition DISK_IMAGE_TYPE_D81 :: nat where "DISK_IMAGE_TYPE_D81 = 1581"
definition DISK_IMAGE_TYPE_D80 :: nat where "DISK_IMAGE_TYPE_D80 = 8050"
definition DISK_IMAGE_TYPE_D82 :: nat where "DISK_IMAGE_TYPE_D82 = 8250"
definition DISK_IMAGE_TYPE_D1M :: nat where "DISK_IMAGE_TYPE_D1M = 1000"
definition DISK_IMAGE_TYPE_D2M :: nat where "DISK_IMAGE_TYPE_D2M = 2000"
definition DISK_IMAGE_TYPE_D4M :: nat where "DISK_IMAGE_TYPE_D4M = 4000"

definition DISK_IMAGE_DEVICE_FS :: nat where "DISK_IMAGE_DEVICE_FS = 0"
definition DISK_IMAGE_DEVICE_REAL :: nat where "DISK_IMAGE_DEVICE_REAL = 1"
definition DISK_IMAGE_DEVICE_RAW :: nat where "DISK_IMAGE_DEVICE_RAW = 2"

lemmas disk_types = DISK_IMAGE_TYPE_X64_def DISK_IMAGE_TYPE_G64_def DISK_IMAGE_TYPE_G71_def DISK_IMAGE_TYPE_P64_def
  DISK_IMAGE_TYPE_D64_def DISK_IMAGE_TYPE_D67_def DISK_IMAGE_TYPE_D71_def DISK_IMAGE_TYPE_D81_def DISK_IMAGE_TYPE_D80_def
  DISK_IMAGE_TYPE_D82_def DISK_IMAGE_TYPE_D1M_def DISK_IMAGE_TYPE_D2M_def DISK_IMAGE_TYPE_D4M_def

lemmas disk_devices = DISK_IMAGE_DEVICE_FS_def DISK_IMAGE_DEVICE_REAL_def DISK_IMAGE_DEVICE_RAW_def

definition NUM_TRACKS_1541 :: nat where "NUM_TRACKS_1541 = 35"
definition NUM_BLOCKS_1541 :: nat where "NUM_BLOCKS_1541 = 683"
definition MAX_TRACKS_1541 :: nat where "MAX_TRACKS_1541 = 42"
definition MAX_BLOCKS_1541 :: nat where "MAX_BLOCKS_1541 = 802"
definition NUM_TRACKS_2040 :: nat where "NUM_TRACKS_2040 = 35"
definition NUM_BLOCKS_2040 :: nat where "NUM_BLOCKS_2040 = 690"
definition MAX_TRACKS_2040 :: nat where "MAX_TRACKS_2040 = 35"
definition MAX_BLOCKS_2040 :: nat where "MAX_BLOCKS_2040 = 690"
definition NUM_TRACKS_1571 :: nat where "NUM_TRACKS_1571 = 70"
definition NUM_BLOCKS_1571 :: nat where "NUM_BLOCKS_1571 = 1366"
definition MAX_TRACKS_1571 :: nat where "MAX_TRACKS_1571 = 70"
definition MAX_BLOCKS_1571 :: nat where "MAX_BLOCKS_1571 = 1366"
definition NUM_TRACKS_1581 :: nat where "NUM_TRACKS_1581 = 80"
definition NUM_SECTORS_1581 :: nat where "NUM_SECTORS_1581 = 40"
definition NUM_BLOCKS_1581 :: nat where "NUM_BLOCKS_1581 = 3200"
definition MAX_TRACKS_1581 :: nat where "MAX_TRACKS_1581 = 83"
definition MAX_BLOCKS_1581 :: nat where "MAX_BLOCKS_1581 = 3320"
definition NUM_TRACKS_8050 :: nat where "NUM_TRACKS_8050 = 77"
definition NUM_BLOCKS_8050 :: nat where "NUM_BLOCKS_8050 = 2083"
definition MAX_TRACKS_8050 :: nat where "MAX_TRACKS_8050 = 77"
definition MAX_BLOCKS_8050 :: nat where "MAX_BLOCKS_8050 = 2083"
definition NUM_TRACKS_8250 :: nat where "NUM_TRACKS_8250 = 154"
definition NUM_BLOCKS_8250 :: nat where "NUM_BLOCKS_8250 = 4166"
definition MAX_TRACKS_8250 :: nat where "MAX_TRACKS_8250 = 154"
definition MAX_BLOCKS_8250 :: nat where "MAX_BLOCKS_8250 = 4166"
definition NUM_TRACKS_1000 :: nat where "NUM_TRACKS_1000 = 13"
definition NUM_BLOCKS_1000 :: nat where "NUM_BLOCKS_1000 = 3240"
definition NUM_SYS_SECTORS_1000 :: nat where "NUM_SYS_SECTORS_1000 = 168"
definition MAX_TRACKS_1000 :: nat where "MAX_TRACKS_1000 = 13"
definition NUM_TRACKS_2000 :: nat where "NUM_TRACKS_2000 = 26"
definition NUM_BLOCKS_2000 :: nat where "NUM_BLOCKS_2000 = 6480"
definition NUM_SYS_SECTORS_2000 :: nat where "NUM_SYS_SECTORS_2000 = 80"
definition MAX_TRACKS_2000 :: nat where "MAX_TRACKS_2000 = 26"
definition NUM_TRACKS_4000 :: nat where "NUM_TRACKS_4000 = 51"
definition NUM_BLOCKS_4000 :: nat where "NUM_BLOCKS_4000 = 12960"
definition NUM_SYS_SECTORS_4000 :: nat where "NUM_SYS_SECTORS_4000 = 160"
definition MAX_TRACKS_4000 :: nat where "MAX_TRACKS_4000 = 51"

lemmas disk_sizes = NUM_TRACKS_1541_def NUM_BLOCKS_1541_def MAX_TRACKS_1541_def MAX_BLOCKS_1541_def
  NUM_TRACKS_2040_def NUM_BLOCKS_2040_def MAX_TRACKS_2040_def MAX_BLOCKS_2040_def
  NUM_TRACKS_1571_def NUM_BLOCKS_1571_def MAX_TRACKS_1571_def MAX_BLOCKS_1571_def
  NUM_TRACKS_1581_def NUM_SECTORS_1581_def NUM_BLOCKS_1581_def MAX_TRACKS_1581_def MAX_BLOCKS_1581_def
  NUM_TRACKS_8050_def NUM_BLOCKS_8050_def MAX_TRACKS_8050_def MAX_BLOCKS_8050_def
  NUM_TRACKS_8250_def NUM_BLOCKS_8250_def MAX_TRACKS_8250_def MAX_BLOCKS_8250_def
  NUM_TRACKS_1000_def NUM_BLOCKS_1000_def NUM_SYS_SECTORS_1000_def MAX_TRACKS_1000_def
  NUM_TRACKS_2000_def NUM_BLOCKS_2000_def NUM_SYS_SECTORS_2000_def MAX_TRACKS_2000_def
  NUM_TRACKS_4000_def NUM_BLOCKS_4000_def NUM_SYS_SECTORS_4000_def MAX_TRACKS_4000_def

section \<open>Zones\<close>

definition disk_image_speed_map :: "nat \<Rightarrow> nat \<Rightarrow> nat" where
  "disk_image_speed_map format track =
    (if format \<in> {DISK_IMAGE_TYPE_D67, DISK_IMAGE_TYPE_D64, DISK_IMAGE_TYPE_X64, DISK_IMAGE_TYPE_G64, DISK_IMAGE_TYPE_P64} then
       of_bool (track < 31) + of_bool (track < 25) + of_bool (track < 18)
     else if format = DISK_IMAGE_TYPE_D80 then of_bool (track < 65) + of_bool (track < 54) + of_bool (track < 40)
     else if format = DISK_IMAGE_TYPE_D82 then
       (let track = (if track > 77 then track - 77 else track)
        in of_bool (track < 65) + of_bool (track < 54) + of_bool (track < 40))
     else if format = DISK_IMAGE_TYPE_D71 then
       (let track = (if track > 35 then track - 35 else track)
        in of_bool (track < 31) + of_bool (track < 25) + of_bool (track < 18))
     else if format = DISK_IMAGE_TYPE_G71 then
       (let track = (if track > 42 then track - 42 else track)
        in of_bool (track < 31) + of_bool (track < 25) + of_bool (track < 18))
     else 0)"

definition sector_map_d64 :: "nat list" where "sector_map_d64 = [17, 18, 19, 21]"
definition sector_map_d67 :: "nat list" where "sector_map_d67 = [17, 18, 20, 21]"
definition sector_map_d80 :: "nat list" where "sector_map_d80 = [23, 25, 27, 29]"

definition disk_image_sector_per_track :: "nat \<Rightarrow> nat \<Rightarrow> nat" where
  "disk_image_sector_per_track format track =
    (if format \<in> {DISK_IMAGE_TYPE_D64, DISK_IMAGE_TYPE_X64, DISK_IMAGE_TYPE_G64, DISK_IMAGE_TYPE_P64, DISK_IMAGE_TYPE_D71,
        DISK_IMAGE_TYPE_G71} then sector_map_d64 ! disk_image_speed_map format track
     else if format = DISK_IMAGE_TYPE_D67 then sector_map_d67 ! disk_image_speed_map format track
     else if format \<in> {DISK_IMAGE_TYPE_D80, DISK_IMAGE_TYPE_D82} then sector_map_d80 ! disk_image_speed_map format track
     else 0)"

definition raw_track_size_d64 :: "nat list" where "raw_track_size_d64 = [6250, 6666, 7142, 7692]"
definition raw_track_size_d80 :: "nat list" where "raw_track_size_d80 = [9375, 10000, 10714, 11538]"

definition disk_image_raw_track_size :: "nat \<Rightarrow> nat \<Rightarrow> nat" where
  "disk_image_raw_track_size format track =
    (if format \<in> {DISK_IMAGE_TYPE_D64, DISK_IMAGE_TYPE_X64, DISK_IMAGE_TYPE_G64, DISK_IMAGE_TYPE_P64, DISK_IMAGE_TYPE_D71,
        DISK_IMAGE_TYPE_G71, DISK_IMAGE_TYPE_D67} then raw_track_size_d64 ! disk_image_speed_map format track
     else if format \<in> {DISK_IMAGE_TYPE_D80, DISK_IMAGE_TYPE_D82} then raw_track_size_d80 ! disk_image_speed_map format track
     else 1)"

definition gap_size_d64 :: "nat list" where "gap_size_d64 = [9, 12, 17, 8]"

definition disk_image_gap_size :: "nat \<Rightarrow> nat \<Rightarrow> nat" where
  "disk_image_gap_size format track =
    (if format \<in> {DISK_IMAGE_TYPE_D64, DISK_IMAGE_TYPE_X64, DISK_IMAGE_TYPE_G64, DISK_IMAGE_TYPE_P64, DISK_IMAGE_TYPE_D71,
        DISK_IMAGE_TYPE_G71, DISK_IMAGE_TYPE_D67} then gap_size_d64 ! disk_image_speed_map format track
     else if format \<in> {DISK_IMAGE_TYPE_D80, DISK_IMAGE_TYPE_D82} then 25
     else 1)"

section \<open>Block numbers\<close>

definition FSIMAGE_BAD_TRKNUM :: int where "FSIMAGE_BAD_TRKNUM = - 2"
definition FSIMAGE_BAD_SECNUM :: int where "FSIMAGE_BAD_SECNUM = - 3"

text \<open>The cases with zones: \<open>fmt\<close> is the format whose sector counts are used, \<open>sectors\<close> the blocks before the side.\<close>

definition zone_block :: "nat \<Rightarrow> nat \<Rightarrow> nat \<Rightarrow> nat \<Rightarrow> int" where
  "zone_block fmt sectors track sector =
    (if sector \<ge> disk_image_sector_per_track fmt track then FSIMAGE_BAD_SECNUM
     else int (fold (\<lambda>i sectors. sectors + disk_image_sector_per_track fmt i) [1..<track] sectors + sector))"

definition cmd_block :: "nat \<Rightarrow> nat \<Rightarrow> nat \<Rightarrow> nat \<Rightarrow> int" where
  "cmd_block tracks sys_sectors track sector =
    (if track > tracks then FSIMAGE_BAD_TRKNUM
     else if sector > 255 \<or> track = tracks \<and> sector \<ge> sys_sectors then FSIMAGE_BAD_SECNUM
     else int ((track - 1) * 256 + sector))"

text \<open>\<open>type\<close> and \<open>tracks\<close> are those of the image.\<close>

definition fsimage_check_sector :: "nat \<Rightarrow> nat \<Rightarrow> nat \<Rightarrow> nat \<Rightarrow> int" where
  "fsimage_check_sector type tracks track sector =
    (if track < 1 then FSIMAGE_BAD_TRKNUM
     else if type \<in> {DISK_IMAGE_TYPE_D64, DISK_IMAGE_TYPE_X64} then
       (if track > MAX_TRACKS_1541 then FSIMAGE_BAD_TRKNUM else zone_block DISK_IMAGE_TYPE_D64 0 track sector)
     else if type = DISK_IMAGE_TYPE_D67 then
       (if track > MAX_TRACKS_2040 then FSIMAGE_BAD_TRKNUM else zone_block DISK_IMAGE_TYPE_D67 0 track sector)
     else if type = DISK_IMAGE_TYPE_D71 then
       (if track > MAX_TRACKS_1571 then FSIMAGE_BAD_TRKNUM
        else if track > NUM_TRACKS_1541 then zone_block DISK_IMAGE_TYPE_D64 NUM_BLOCKS_1541 (track - NUM_TRACKS_1541) sector
        else zone_block DISK_IMAGE_TYPE_D64 0 track sector)
     else if type = DISK_IMAGE_TYPE_D81 then
       (if track > MAX_TRACKS_1581 then FSIMAGE_BAD_TRKNUM
        else if sector \<ge> NUM_SECTORS_1581 then FSIMAGE_BAD_SECNUM
        else int ((track - 1) * NUM_SECTORS_1581 + sector))
     else if type = DISK_IMAGE_TYPE_D80 then
       (if track > MAX_TRACKS_8050 then FSIMAGE_BAD_TRKNUM else zone_block DISK_IMAGE_TYPE_D80 0 track sector)
     else if type = DISK_IMAGE_TYPE_D82 then
       (if track > MAX_TRACKS_8250 then FSIMAGE_BAD_TRKNUM
        else if track > NUM_TRACKS_8050 then zone_block DISK_IMAGE_TYPE_D80 NUM_BLOCKS_8050 (track - NUM_TRACKS_8050) sector
        else zone_block DISK_IMAGE_TYPE_D80 0 track sector)
     else if type \<in> {DISK_IMAGE_TYPE_G64, DISK_IMAGE_TYPE_G71, DISK_IMAGE_TYPE_P64} then
       (if track > tracks \<or> track > MAX_TRACKS_1541 then FSIMAGE_BAD_TRKNUM else zone_block DISK_IMAGE_TYPE_D64 0 track sector)
     else if type = DISK_IMAGE_TYPE_D1M then cmd_block NUM_TRACKS_1000 NUM_SYS_SECTORS_1000 track sector
     else if type = DISK_IMAGE_TYPE_D2M then cmd_block NUM_TRACKS_2000 NUM_SYS_SECTORS_2000 track sector
     else if type = DISK_IMAGE_TYPE_D4M then cmd_block NUM_TRACKS_4000 NUM_SYS_SECTORS_4000 track sector
     else - 1)"

definition disk_image_check_sector :: "nat \<Rightarrow> nat \<Rightarrow> nat \<Rightarrow> nat \<Rightarrow> nat \<Rightarrow> int" where
  "disk_image_check_sector device type tracks track sector =
    (if device = DISK_IMAGE_DEVICE_FS then fsimage_check_sector type tracks track sector else 0)"

section \<open>Numbering\<close>

lemma fold_add: "fold (\<lambda>i s. s + f i) xs a = a + sum_list (map f xs)" for f :: "nat \<Rightarrow> nat"
  by (induction xs arbitrary: a) simp_all

definition blocks_before :: "(nat \<Rightarrow> nat) \<Rightarrow> nat \<Rightarrow> nat" where
  "blocks_before n t = sum_list (map n [1..<t])"

lemma blocks_before_Suc: "1 \<le> t \<Longrightarrow> blocks_before n (Suc t) = blocks_before n t + n t"
  by (simp add: blocks_before_def)

lemma numbering_bij:
  "bij_betw (\<lambda>(t, s). blocks_before n t + s) {(t, s). 1 \<le> t \<and> t \<le> T \<and> s < n t} {0..<blocks_before n (Suc T)}"
proof (induction T)
  case 0
  have "{(t, s). 1 \<le> t \<and> t \<le> 0 \<and> s < n t} = {}" by auto
  then show ?case by (simp only: bij_betw_def) (simp add: blocks_before_def)
next
  case (Suc T)
  let ?f = "\<lambda>(t, s). blocks_before n t + s"
  have "bij_betw ?f ({(t, s). 1 \<le> t \<and> t \<le> T \<and> s < n t} \<union> {Suc T} \<times> {0..<n (Suc T)})
      ({0..<blocks_before n (Suc T)} \<union> {blocks_before n (Suc T)..<blocks_before n (Suc (Suc T))})"
  proof (rule bij_betw_combine [OF Suc.IH])
    have "{blocks_before n (Suc T)..<blocks_before n (Suc (Suc T))} = ?f ` ({Suc T} \<times> {0..<n (Suc T)})"
    proof -
      have "x \<in> ?f ` ({Suc T} \<times> {0..<n (Suc T)})" if "blocks_before n (Suc T) \<le> x" "x < blocks_before n (Suc (Suc T))" for x
        using that by (intro image_eqI [of _ _ "(Suc T, x - blocks_before n (Suc T))"]) (auto simp: blocks_before_Suc)
      then show ?thesis by (auto simp: blocks_before_Suc)
    qed
    then show "bij_betw ?f ({Suc T} \<times> {0..<n (Suc T)}) {blocks_before n (Suc T)..<blocks_before n (Suc (Suc T))}"
      by (auto simp: bij_betw_def inj_on_def)
  qed auto
  moreover have "{(t, s). 1 \<le> t \<and> t \<le> Suc T \<and> s < n t} = {(t, s). 1 \<le> t \<and> t \<le> T \<and> s < n t} \<union> {Suc T} \<times> {0..<n (Suc T)}"
    by (auto simp: le_Suc_eq)
  moreover have "{0..<blocks_before n (Suc (Suc T))} =
      {0..<blocks_before n (Suc T)} \<union> {blocks_before n (Suc T)..<blocks_before n (Suc (Suc T))}"
    by (auto simp: blocks_before_Suc)
  ultimately show ?case by simp
qed

text \<open>Tracks of the two sides of a disk.\<close>

definition two_sides :: "nat \<Rightarrow> (nat \<Rightarrow> nat) \<Rightarrow> nat \<Rightarrow> nat" where
  "two_sides k n t = n (if t > k then t - k else t)"

lemma blocks_before_two_sides:
  shows "t \<le> Suc k \<Longrightarrow> blocks_before (two_sides k n) t = blocks_before n t"
    and "1 \<le> t \<Longrightarrow> blocks_before (two_sides k n) (k + t) = blocks_before n (Suc k) + blocks_before n t"
proof -
  show front: "t \<le> Suc k \<Longrightarrow> blocks_before (two_sides k n) t = blocks_before n t" for t
    by (auto simp: blocks_before_def two_sides_def intro!: arg_cong [where f = sum_list])
  show "1 \<le> t \<Longrightarrow> blocks_before (two_sides k n) (k + t) = blocks_before n (Suc k) + blocks_before n t"
  proof (induction t rule: nat_induct_at_least)
    case base
    then show ?case using front [of "Suc k"] by (simp add: blocks_before_def)
  next
    case (Suc t)
    then show ?case by (simp add: blocks_before_Suc two_sides_def)
  qed
qed

definition disk_sectors :: "nat \<Rightarrow> nat \<Rightarrow> nat" where
  "disk_sectors type =
    (if type = DISK_IMAGE_TYPE_D67 then disk_image_sector_per_track DISK_IMAGE_TYPE_D67
     else if type = DISK_IMAGE_TYPE_D71 then two_sides 35 (disk_image_sector_per_track DISK_IMAGE_TYPE_D64)
     else if type = DISK_IMAGE_TYPE_D81 then (\<lambda>t. 40)
     else if type = DISK_IMAGE_TYPE_D80 then disk_image_sector_per_track DISK_IMAGE_TYPE_D80
     else if type = DISK_IMAGE_TYPE_D82 then two_sides 77 (disk_image_sector_per_track DISK_IMAGE_TYPE_D80)
     else if type = DISK_IMAGE_TYPE_D1M then (\<lambda>t. if t = 13 then 168 else 256)
     else if type = DISK_IMAGE_TYPE_D2M then (\<lambda>t. if t = 26 then 80 else 256)
     else if type = DISK_IMAGE_TYPE_D4M then (\<lambda>t. if t = 51 then 160 else 256)
     else disk_image_sector_per_track DISK_IMAGE_TYPE_D64)"

definition disk_tracks :: "nat \<Rightarrow> nat \<Rightarrow> nat" where
  "disk_tracks type tracks =
    (if type = DISK_IMAGE_TYPE_D67 then 35 else if type = DISK_IMAGE_TYPE_D71 then 70 else if type = DISK_IMAGE_TYPE_D81 then 83
     else if type = DISK_IMAGE_TYPE_D80 then 77 else if type = DISK_IMAGE_TYPE_D82 then 154
     else if type = DISK_IMAGE_TYPE_D1M then 13 else if type = DISK_IMAGE_TYPE_D2M then 26 else if type = DISK_IMAGE_TYPE_D4M then 51
     else if type \<in> {DISK_IMAGE_TYPE_D64, DISK_IMAGE_TYPE_X64} then 42 else min tracks 42)"

definition disk_formats :: "nat set" where
  "disk_formats = {DISK_IMAGE_TYPE_D64, DISK_IMAGE_TYPE_X64, DISK_IMAGE_TYPE_D67, DISK_IMAGE_TYPE_D71, DISK_IMAGE_TYPE_D81,
     DISK_IMAGE_TYPE_D80, DISK_IMAGE_TYPE_D82, DISK_IMAGE_TYPE_G64, DISK_IMAGE_TYPE_G71, DISK_IMAGE_TYPE_P64,
     DISK_IMAGE_TYPE_D1M, DISK_IMAGE_TYPE_D2M, DISK_IMAGE_TYPE_D4M}"

lemma sectors_zones:
  "disk_image_sector_per_track DISK_IMAGE_TYPE_D64 t = (if t < 18 then 21 else if t < 25 then 19 else if t < 31 then 18 else 17)"
  "disk_image_sector_per_track DISK_IMAGE_TYPE_D67 t = (if t < 18 then 21 else if t < 25 then 20 else if t < 31 then 18 else 17)"
  "disk_image_sector_per_track DISK_IMAGE_TYPE_D80 t = (if t < 40 then 29 else if t < 54 then 27 else if t < 65 then 25 else 23)"
  by (simp_all add: disk_image_sector_per_track_def disk_image_speed_map_def disk_types sector_map_d64_def sector_map_d67_def
      sector_map_d80_def numeral_eq_Suc)

lemma side_blocks:
  "blocks_before (disk_image_sector_per_track DISK_IMAGE_TYPE_D64) 36 = 683"
  "blocks_before (disk_image_sector_per_track DISK_IMAGE_TYPE_D80) 78 = 2083"
  by (simp_all add: blocks_before_def sectors_zones upt_rec)

lemma zone_block_blocks:
  "zone_block fmt k t s = (if s \<ge> disk_image_sector_per_track fmt t then FSIMAGE_BAD_SECNUM
     else int (k + blocks_before (disk_image_sector_per_track fmt) t + s))"
  by (simp add: zone_block_def fold_add blocks_before_def)

lemma blocks_before_const: "(\<And>i. 1 \<le> i \<Longrightarrow> i < t \<Longrightarrow> n i = c) \<Longrightarrow> blocks_before n t = (t - 1) * c"
proof (induction t)
  case (Suc t)
  then show ?case by (cases t) (simp_all add: blocks_before_Suc, simp add: blocks_before_def)
qed (simp add: blocks_before_def)

text \<open>The address check is the numbering of the blocks, track by track.\<close>

lemma check_sector_numbering:
  assumes "type \<in> disk_formats"
  shows "fsimage_check_sector type tracks t s =
    (if t < 1 \<or> t > disk_tracks type tracks then FSIMAGE_BAD_TRKNUM else if s \<ge> disk_sectors type t then FSIMAGE_BAD_SECNUM
     else int (blocks_before (disk_sectors type) t + s))"
proof -
  have two: "blocks_before (two_sides k n) t = (if t > k then blocks_before n (Suc k) + blocks_before n (t - k) else blocks_before n t)" for k n
    using blocks_before_two_sides(1) [of t k n] blocks_before_two_sides(2) [of "t - k" k n] by auto
  have cmd: "blocks_before (\<lambda>i. if i = T then c else 256) t = (t - 1) * 256" if "t \<le> T" for t T c
    using that by (intro blocks_before_const) simp
  have b: "blocks_before (\<lambda>t. 40) t = (t - 1) * 40" by (intro blocks_before_const) simp
  note defs = fsimage_check_sector_def disk_tracks_def disk_sectors_def disk_sizes
  from assms consider "type \<in> {DISK_IMAGE_TYPE_D64, DISK_IMAGE_TYPE_X64, DISK_IMAGE_TYPE_D67, DISK_IMAGE_TYPE_D80, DISK_IMAGE_TYPE_D81}"
    | "type \<in> {DISK_IMAGE_TYPE_D71, DISK_IMAGE_TYPE_D82}" | "type \<in> {DISK_IMAGE_TYPE_G64, DISK_IMAGE_TYPE_G71, DISK_IMAGE_TYPE_P64}"
    | "type \<in> {DISK_IMAGE_TYPE_D1M, DISK_IMAGE_TYPE_D2M, DISK_IMAGE_TYPE_D4M}"
    unfolding disk_formats_def by blast
  then show ?thesis
  proof cases
    case 1
    then show ?thesis by (elim insertE emptyE; hypsubst) (simp_all add: defs zone_block_blocks b disk_types)
  next
    case 2
    then show ?thesis
      by (elim insertE emptyE; hypsubst) (simp_all add: defs zone_block_blocks two two_sides_def side_blocks [unfolded disk_types] disk_types)
  next
    case 3
    then show ?thesis by (elim insertE emptyE; hypsubst) (simp_all add: defs zone_block_blocks min_less_iff_disj disk_types)
  next
    case 4
    then show ?thesis
      using cmd [of t 13 168] cmd [of t 26 80] cmd [of t 51 160]
      by (elim insertE emptyE; hypsubst) (auto simp: defs cmd_block_def disk_types)
  qed
qed

definition disk_blocks :: "nat \<Rightarrow> nat" where
  "disk_blocks type =
    (if type = DISK_IMAGE_TYPE_D67 then MAX_BLOCKS_2040 else if type = DISK_IMAGE_TYPE_D71 then MAX_BLOCKS_1571
     else if type = DISK_IMAGE_TYPE_D81 then MAX_BLOCKS_1581 else if type = DISK_IMAGE_TYPE_D80 then MAX_BLOCKS_8050
     else if type = DISK_IMAGE_TYPE_D82 then MAX_BLOCKS_8250 else if type = DISK_IMAGE_TYPE_D1M then NUM_BLOCKS_1000
     else if type = DISK_IMAGE_TYPE_D2M then NUM_BLOCKS_2000 else if type = DISK_IMAGE_TYPE_D4M then NUM_BLOCKS_4000
     else MAX_BLOCKS_1541)"

lemma disk_blocks_total:
  assumes "type \<in> disk_formats" "42 \<le> tracks"
  shows "blocks_before (disk_sectors type) (Suc (disk_tracks type tracks)) = disk_blocks type"
proof -
  have z: "blocks_before (disk_image_sector_per_track DISK_IMAGE_TYPE_D64) 43 = 802"
    "blocks_before (disk_image_sector_per_track DISK_IMAGE_TYPE_D67) 36 = 690"
    by (simp_all add: blocks_before_def sectors_zones upt_rec)
  have t: "blocks_before (two_sides 35 (disk_image_sector_per_track DISK_IMAGE_TYPE_D64)) 71 = 1366"
    "blocks_before (two_sides 77 (disk_image_sector_per_track DISK_IMAGE_TYPE_D80)) 155 = 4166"
    using blocks_before_two_sides(2) [of 36 35] blocks_before_two_sides(2) [of 78 77] side_blocks by simp_all
  have c: "blocks_before (\<lambda>t. 40) 84 = 3320" using blocks_before_const [of 84 "\<lambda>t. 40" 40] by simp
  have l: "blocks_before (\<lambda>i. if i = T then c else 256) (Suc T) = (T - 1) * 256 + c" if "1 \<le> T" for T c
    using blocks_before_Suc [OF that, of "\<lambda>i. if i = T then c else 256"] blocks_before_const [of T "\<lambda>i. if i = T then c else 256" 256] by simp
  show ?thesis
    using assms z t c side_blocks l [of 13 168] l [of 26 80] l [of 51 160]
    unfolding disk_formats_def
    by (elim insertE emptyE; hypsubst) (simp_all add: disk_sectors_def disk_tracks_def disk_blocks_def disk_sizes disk_types)
qed



end
