(* ===== verification/Gcr.thy ===== *)
theory Gcr
  imports Prelude
begin

unbundle bit_operations_syntax

text \<open>
  The group code recording of gcr.c: how sectors become the bit stream of a disk track and are found and decoded again. A
  track is a buffer of bytes read as bits, most significant first, starting over at the end; positions are bit numbers. A
  sync mark is ten or more ones. Reading or writing outside the buffer is the result None, as is a search that does not end.
\<close>

section \<open>Four bytes\<close>

definition GCR_conv_data :: "u8 list" where
  "GCR_conv_data =
    [0x0a, 0x0b, 0x12, 0x13,
     0x0e, 0x0f, 0x16, 0x17,
     0x09, 0x19, 0x1a, 0x1b,
     0x0d, 0x1d, 0x1e, 0x15]"

definition From_GCR_conv_data :: "u8 list" where
  "From_GCR_conv_data =
    [0, 0, 0, 0, 0, 0, 0, 0,
     0, 8, 0, 1, 0, 12, 4, 5,
     0, 0, 2, 3, 0, 15, 6, 7,
     0, 9, 10, 11, 0, 13, 14, 0]"

text \<open>One source byte shifted into the register, high nybble first.\<close>

definition gcr_shift_in :: "u32 \<Rightarrow> u8 \<Rightarrow> u32" where
  "gcr_shift_in tdest s =
    (let tdest = push_bit 5 tdest OR ucast (GCR_conv_data ! unat (drop_bit 4 s))
     in push_bit 5 tdest OR ucast (GCR_conv_data ! unat (s AND 0x0f)))"

fun gcr_encode :: "nat \<Rightarrow> u32 \<Rightarrow> u8 list \<Rightarrow> u8 list" where
  "gcr_encode i tdest [] = [ucast tdest]"
| "gcr_encode i tdest (s # source) =
    (let tdest = gcr_shift_in tdest s in ucast (drop_bit i tdest) # gcr_encode (i + 2) tdest source)"

definition gcr_convert_4bytes_to_GCR :: "u8 list \<Rightarrow> u8 list" where
  "gcr_convert_4bytes_to_GCR source = gcr_encode 2 0 source"

definition gcr_lookup :: "u32 \<Rightarrow> u8" where
  "gcr_lookup tdest = From_GCR_conv_data ! unat (drop_bit 16 tdest AND 0x1f)"

fun gcr_decode :: "nat \<Rightarrow> u32 \<Rightarrow> u8 list \<Rightarrow> u8 list" where
  "gcr_decode i tdest [] = []"
| "gcr_decode i tdest (s # source) =
    (let tdest = tdest OR push_bit i (ucast s);
         hi = push_bit 4 (gcr_lookup tdest);
         tdest = push_bit 5 tdest;
         lo = gcr_lookup tdest
     in (hi OR lo) # gcr_decode (i + 2) (push_bit 5 tdest) source)"

definition gcr_convert_GCR_to_4bytes :: "u8 list \<Rightarrow> u8 list" where
  "gcr_convert_GCR_to_4bytes source = gcr_decode 5 (push_bit 13 (ucast (hd source))) (tl source)"

section \<open>A sector\<close>

definition CBMDOS_FDC_ERR_OK :: int where "CBMDOS_FDC_ERR_OK = 1"
definition CBMDOS_FDC_ERR_HEADER :: int where "CBMDOS_FDC_ERR_HEADER = 2"
definition CBMDOS_FDC_ERR_SYNC :: int where "CBMDOS_FDC_ERR_SYNC = 3"
definition CBMDOS_FDC_ERR_NOBLOCK :: int where "CBMDOS_FDC_ERR_NOBLOCK = 4"
definition CBMDOS_FDC_ERR_DCHECK :: int where "CBMDOS_FDC_ERR_DCHECK = 5"
definition CBMDOS_FDC_ERR_HCHECK :: int where "CBMDOS_FDC_ERR_HCHECK = 9"
definition CBMDOS_FDC_ERR_ID :: int where "CBMDOS_FDC_ERR_ID = 11"
definition CBMDOS_FDC_ERR_DRIVE :: int where "CBMDOS_FDC_ERR_DRIVE = 15"

lemmas fdc_err_defs = CBMDOS_FDC_ERR_OK_def CBMDOS_FDC_ERR_HEADER_def CBMDOS_FDC_ERR_SYNC_def CBMDOS_FDC_ERR_NOBLOCK_def
  CBMDOS_FDC_ERR_DCHECK_def CBMDOS_FDC_ERR_HCHECK_def CBMDOS_FDC_ERR_ID_def CBMDOS_FDC_ERR_DRIVE_def

record gcr_header =
  h_sector :: u8
  h_track :: u8
  h_id2 :: u8
  h_id1 :: u8

text \<open>The write pointer \<open>data\<close> as an offset into the track: writing bytes and stepping over a gap.\<close>

definition gcr_put :: "u8 list \<Rightarrow> nat \<times> u8 list \<Rightarrow> (nat \<times> u8 list) option" where
  "gcr_put bs m = (case m of (off, mem) \<Rightarrow>
     if off + length bs \<le> length mem then Some (off + length bs, take off mem @ bs @ drop (off + length bs) mem) else None)"

definition gcr_skip :: "nat \<Rightarrow> nat \<times> u8 list \<Rightarrow> (nat \<times> u8 list) option" where
  "gcr_skip n m = (case m of (off, mem) \<Rightarrow> Some (off + n, mem))"

text \<open>The 63 blocks of four bytes after the first, with the running checksum.\<close>

fun gcr_put_blocks :: "nat \<Rightarrow> u8 list \<Rightarrow> u8 \<Rightarrow> nat \<times> u8 list \<Rightarrow> (u8 list \<times> u8 \<times> nat \<times> u8 list) option" where
  "gcr_put_blocks 0 buffer chksum m = Some (buffer, chksum, m)"
| "gcr_put_blocks (Suc n) buffer chksum m = do {
     let chksum = chksum XOR buffer ! 0 XOR buffer ! 1 XOR buffer ! 2 XOR buffer ! 3;
     m \<leftarrow> gcr_put (gcr_convert_4bytes_to_GCR (take 4 buffer)) m;
     gcr_put_blocks n (drop 4 buffer) chksum m
   }"

definition gcr_convert_sector_to_GCR ::
    "u8 list \<Rightarrow> gcr_header \<Rightarrow> nat \<Rightarrow> nat \<Rightarrow> int \<Rightarrow> nat \<times> u8 list \<Rightarrow> (nat \<times> u8 list) option" where
  "gcr_convert_sector_to_GCR buffer header gap sync error_code m = do {
     let idm = (if error_code = CBMDOS_FDC_ERR_ID then 0xff else 0 :: u8);
     let syn = (if error_code = CBMDOS_FDC_ERR_SYNC then 0x55 else 0xff :: u8);
     m \<leftarrow> gcr_put (replicate 5 syn) m;
     let chksum = (if error_code = CBMDOS_FDC_ERR_HCHECK then 0xff else 0 :: u8) XOR
       h_sector header XOR h_track header XOR h_id2 header XOR h_id1 header XOR idm;
     m \<leftarrow> gcr_put (gcr_convert_4bytes_to_GCR
       [if error_code = CBMDOS_FDC_ERR_HEADER then 0xff else 0x08, chksum, h_sector header, h_track header]) m;
     m \<leftarrow> gcr_put (gcr_convert_4bytes_to_GCR [h_id2 header, h_id1 header XOR idm, 0x0f, 0x0f]) m;
     m \<leftarrow> gcr_skip gap m;
     m \<leftarrow> gcr_put (replicate sync syn) m;
     let chksum = (if error_code = CBMDOS_FDC_ERR_DCHECK then 0xff else 0 :: u8) XOR buffer ! 0 XOR buffer ! 1 XOR buffer ! 2;
     m \<leftarrow> gcr_put (gcr_convert_4bytes_to_GCR
       [if error_code = CBMDOS_FDC_ERR_NOBLOCK then 0x00 else 0x07, buffer ! 0, buffer ! 1, buffer ! 2]) m;
     (buffer, chksum, m) \<leftarrow> gcr_put_blocks 63 (drop 3 buffer) chksum m;
     gcr_put (gcr_convert_4bytes_to_GCR [buffer ! 0, chksum XOR buffer ! 0, 0, 0]) m
   }"

section \<open>Finding and reading a sector\<close>

record disk_track =
  trk_data :: "u8 list option"
  trk_size :: nat

definition raw_byte :: "disk_track \<Rightarrow> int \<Rightarrow> u8 option" where
  "raw_byte raw i = do { d \<leftarrow> trk_data raw; arr_get d i }"

text \<open>The loop of \<open>gcr_find_sync\<close>: \<open>w\<close> holds the last bits read, \<open>b\<close> the rest of the current byte.\<close>

fun gcr_sync_loop :: "disk_track \<Rightarrow> int \<Rightarrow> u32 \<Rightarrow> u32 \<Rightarrow> nat \<Rightarrow> int option" where
  "gcr_sync_loop raw p w b 0 = Some (- CBMDOS_FDC_ERR_SYNC)"
| "gcr_sync_loop raw p w b (Suc s) =
    (if \<not> truth (b AND 0x80) \<and> NOT w AND 0x3ff = 0 then Some p
     else
       (let w = (if truth (b AND 0x80) then push_bit 1 w OR 1 else push_bit 1 w) in
        if p mod 8 \<noteq> 7 then gcr_sync_loop raw (p + 1) w (push_bit 1 b) s
        else
          (let p = (if p + 1 \<ge> int (trk_size raw * 8) then 0 else p + 1) in do {
             b \<leftarrow> raw_byte raw (p div 8);
             gcr_sync_loop raw p w (ucast b) s
           })))"

definition gcr_find_sync :: "disk_track \<Rightarrow> int \<Rightarrow> nat \<Rightarrow> int option" where
  "gcr_find_sync raw p s =
    (if trk_data raw = None \<or> trk_size raw = 0 then Some (- CBMDOS_FDC_ERR_SYNC)
     else do {
       b \<leftarrow> raw_byte raw (p div 8);
       gcr_sync_loop raw p 0 (push_bit (nat (p mod 8)) (ucast b)) s
     })"

text \<open>The next byte of \<open>gcr_decode_block\<close>: the offset steps round the track, \<open>b\<close> carries the rest of the last byte.\<close>

definition gcr_next_byte :: "disk_track \<Rightarrow> nat \<Rightarrow> int \<times> u8 \<Rightarrow> (u8 \<times> int \<times> u8) option" where
  "gcr_next_byte raw sh st = (case st of (off, b) \<Rightarrow> do {
     let off = (if off + 1 \<ge> int (trk_size raw) then 0 else off + 1);
     c \<leftarrow> raw_byte raw off;
     if sh \<noteq> 0 then Some (b OR ucast (drop_bit 8 (push_bit sh (ucast c :: u32))), off, push_bit sh c)
     else Some (b, off, c)
   })"

fun gcr_next_bytes :: "disk_track \<Rightarrow> nat \<Rightarrow> nat \<Rightarrow> int \<times> u8 \<Rightarrow> (u8 list \<times> int \<times> u8) option" where
  "gcr_next_bytes raw sh 0 st = Some ([], st)"
| "gcr_next_bytes raw sh (Suc n) st = do {
     (g, st) \<leftarrow> gcr_next_byte raw sh st;
     (gs, st) \<leftarrow> gcr_next_bytes raw sh n st;
     Some (g # gs, st)
   }"

fun gcr_decode_blocks :: "disk_track \<Rightarrow> nat \<Rightarrow> nat \<Rightarrow> int \<times> u8 \<Rightarrow> u8 list option" where
  "gcr_decode_blocks raw sh 0 st = Some []"
| "gcr_decode_blocks raw sh (Suc num) st = do {
     (gcr, st) \<leftarrow> gcr_next_bytes raw sh 5 st;
     rest \<leftarrow> gcr_decode_blocks raw sh num st;
     Some (gcr_convert_GCR_to_4bytes gcr @ rest)
   }"

definition gcr_decode_block :: "disk_track \<Rightarrow> int \<Rightarrow> nat \<Rightarrow> u8 list option" where
  "gcr_decode_block raw p num = do {
     let sh = nat (p mod 8);
     b \<leftarrow> raw_byte raw (p div 8);
     gcr_decode_blocks raw sh num (p div 8, push_bit sh b)
   }"

partial_function (option) gcr_header_loop :: "disk_track \<Rightarrow> u8 \<Rightarrow> int \<Rightarrow> int \<Rightarrow> int option" where
  "gcr_header_loop raw sector p p2 = do {
     p \<leftarrow> gcr_find_sync raw p (trk_size raw * 8);
     if p2 = p then Some (if p2 < 0 then p2 else - CBMDOS_FDC_ERR_HEADER)
     else do {
       header \<leftarrow> gcr_decode_block raw p 1;
       if header ! 0 = 0x08 \<and> header ! 2 = sector then Some p
       else gcr_header_loop raw sector p (if p2 < 0 then p else p2)
     }
   }"

definition gcr_find_sector_header :: "disk_track \<Rightarrow> u8 \<Rightarrow> int option" where
  "gcr_find_sector_header raw sector = gcr_header_loop raw sector 0 (- CBMDOS_FDC_ERR_SYNC)"

text \<open>The result code, and the 256 bytes of the sector when they were read.\<close>

definition gcr_read_sector :: "disk_track \<Rightarrow> u8 \<Rightarrow> (int \<times> u8 list option) option" where
  "gcr_read_sector raw sector = do {
     p \<leftarrow> gcr_find_sector_header raw sector;
     if p < 0 then Some (- p, None)
     else do {
       p \<leftarrow> gcr_find_sync raw p (500 * 8);
       if p < 0 then Some (- p, None)
       else do {
         buffer \<leftarrow> gcr_decode_block raw p 65;
         let data = map (\<lambda>i. buffer ! (i + 1)) [0..<256];
         let b = foldl (XOR) (buffer ! 257) data;
         Some (if buffer ! 0 \<noteq> 0x07 then CBMDOS_FDC_ERR_NOBLOCK
               else if truth b then CBMDOS_FDC_ERR_DCHECK else CBMDOS_FDC_ERR_OK, Some data)
       }
     }
   }"

section \<open>Writing a sector\<close>

definition raw_store :: "disk_track \<Rightarrow> int \<Rightarrow> u8 \<Rightarrow> disk_track option" where
  "raw_store raw i v = do { d \<leftarrow> trk_data raw; d \<leftarrow> arr_set d i v; Some (raw\<lparr>trk_data := Some d\<rparr>) }"

definition gcr_write_byte :: "nat \<Rightarrow> u8 \<Rightarrow> int \<times> u8 \<times> disk_track \<Rightarrow> (int \<times> u8 \<times> disk_track) option" where
  "gcr_write_byte sh g st = (case st of (off, b, raw) \<Rightarrow> do {
     raw \<leftarrow> raw_store raw off (if sh \<noteq> 0 then b OR drop_bit sh g else g);
     let b = (if sh \<noteq> 0 then ucast (drop_bit sh (push_bit 8 (ucast g :: u32))) else b);
     Some (if off + 1 \<ge> int (trk_size raw) then 0 else off + 1, b, raw)
   })"

fun gcr_write_bytes :: "nat \<Rightarrow> u8 list \<Rightarrow> int \<times> u8 \<times> disk_track \<Rightarrow> (int \<times> u8 \<times> disk_track) option" where
  "gcr_write_bytes sh [] st = Some st"
| "gcr_write_bytes sh (g # gs) st = do { st \<leftarrow> gcr_write_byte sh g st; gcr_write_bytes sh gs st }"

fun gcr_write_blocks :: "nat \<Rightarrow> nat \<Rightarrow> u8 list \<Rightarrow> int \<times> u8 \<times> disk_track \<Rightarrow> (int \<times> u8 \<times> disk_track) option" where
  "gcr_write_blocks sh 0 buf st = Some st"
| "gcr_write_blocks sh (Suc n) buf st = do {
     st \<leftarrow> gcr_write_bytes sh (gcr_convert_4bytes_to_GCR (take 4 buf)) st;
     gcr_write_blocks sh n (drop 4 buf) st
   }"

definition gcr_write_sector :: "disk_track \<Rightarrow> u8 list \<Rightarrow> u8 \<Rightarrow> (int \<times> disk_track) option" where
  "gcr_write_sector raw data sector = do {
     p \<leftarrow> gcr_find_sector_header raw sector;
     if p < 0 then Some (- p, raw)
     else do {
       p \<leftarrow> gcr_find_sync raw p (500 * 8);
       if p < 0 then Some (- p, raw)
       else do {
         let sh = nat (p mod 8);
         first \<leftarrow> raw_byte raw (p div 8);
         let b = first AND ucast (drop_bit sh (0xff00 :: u32));
         let chksum = foldl (XOR) (data ! 0) (map (\<lambda>i. data ! i) [1..<256]);
         let buffer = [0x07] @ take 256 data @ [chksum, 0, 0];
         (off, b, raw) \<leftarrow> gcr_write_blocks sh 65 buffer (p div 8, b, raw);
         c \<leftarrow> raw_byte raw off;
         raw \<leftarrow> raw_store raw off (b OR (c AND drop_bit sh 0xff));
         Some (CBMDOS_FDC_ERR_OK, raw)
       }
     }
   }"

section \<open>A track of a D64 image\<close>

text \<open>The loop of \<open>fsimage_read_dxx_image\<close> over the sectors of a track, each with its error code from the image.\<close>

definition SECTOR_GCR_SIZE_WITH_HEADER :: nat where "SECTOR_GCR_SIZE_WITH_HEADER = 340"

fun dxx_sectors :: "gcr_header \<Rightarrow> nat \<Rightarrow> nat \<Rightarrow> (int \<times> u8 list) list \<Rightarrow> nat \<Rightarrow> u8 list \<Rightarrow> u8 list option" where
  "dxx_sectors header gap sector [] ptr mem = Some mem"
| "dxx_sectors header gap sector ((rf, buffer) # bs) ptr mem = do {
     (_, mem) \<leftarrow> gcr_convert_sector_to_GCR buffer (header\<lparr>h_sector := word_of_nat sector\<rparr>) 9 5 rf (ptr, mem);
     dxx_sectors header gap (Suc sector) bs (ptr + (SECTOR_GCR_SIZE_WITH_HEADER + 9 + gap + 5)) mem
   }"

definition dxx_track :: "gcr_header \<Rightarrow> nat \<Rightarrow> nat \<Rightarrow> (int \<times> u8 list) list \<Rightarrow> u8 list option" where
  "dxx_track header gap track_size bs = dxx_sectors header gap 0 bs 0 (replicate track_size 0x55)"

end
