(* ===== verification/DiskImage.thy ===== *)
theory DiskImage
  imports DiskGeometry Gcr
begin

unbundle bit_operations_syntax

text \<open>
  Disk images on files: fsimage-dxx.c, fsimage-gcr.c, fsimage.c and the dispatch of diskimage.c. A file is its bytes and whether
  it was opened for writing; a read past its end fails and leaves what it got in the buffer, a write past its end fills with
  zeros. A write to a file that is open for writing succeeds. The error map of an image is a list whose length is \<open>error_info.len\<close>.
  Reading or writing outside a buffer, the map or the 168 tracks of the raw image is the result None. \<open>long\<close> has 64 bits.
  The flux images of fsimage-p64.c are the functions of the record \<open>p64_code\<close>. Log messages are left out.
\<close>

section \<open>State\<close>

record bin_file =
  f_data :: "u8 list"
  f_writable :: bool

record fsimage =
  fs_fd :: "bin_file option"
  fs_name :: string
  fs_map :: "u8 list option"
  fs_dirty :: bool

record disk_image =
  im_fs :: fsimage
  im_read_only :: bool
  im_device :: nat
  im_type :: nat
  im_tracks :: nat
  im_max_half_tracks :: nat
  im_gcr :: "disk_track list option"

record p64_code =
  p64_read_sector :: "disk_image \<Rightarrow> u8 list \<Rightarrow> nat \<Rightarrow> nat \<Rightarrow> (int \<times> u8 list) option"
  p64_write_sector :: "disk_image \<Rightarrow> u8 list \<Rightarrow> nat \<Rightarrow> nat \<Rightarrow> (int \<times> disk_image) option"
  p64_write_half_track :: "disk_image \<Rightarrow> nat \<Rightarrow> disk_track \<Rightarrow> (int \<times> disk_image) option"
  p64_read_image :: "disk_image \<Rightarrow> (int \<times> disk_image) option"

definition MAX_GCR_TRACKS :: nat where "MAX_GCR_TRACKS = 168"
definition X64_HEADER_LENGTH :: nat where "X64_HEADER_LENGTH = 64"

abbreviation check_sector :: "disk_image \<Rightarrow> nat \<Rightarrow> nat \<Rightarrow> int" where
  "check_sector im \<equiv> disk_image_check_sector (im_device im) (im_type im) (im_tracks im)"

abbreviation set_fd :: "bin_file \<Rightarrow> disk_image \<Rightarrow> disk_image" where
  "set_fd f \<equiv> im_fs_update (fs_fd_update (\<lambda>_. Some f))"

section \<open>Files\<close>

definition util_fpread :: "bin_file \<Rightarrow> u8 list \<Rightarrow> nat \<Rightarrow> int \<Rightarrow> (int \<times> u8 list) option" where
  "util_fpread f buf num offset =
    (if length buf < num then None
     else if offset < 0 then Some (- 1, buf)
     else let got = take num (drop (nat offset) (f_data f))
          in Some (if num = 0 \<or> length got < num then - 1 else 0, got @ drop (length got) buf))"

definition util_fpwrite :: "bin_file \<Rightarrow> u8 list \<Rightarrow> nat \<Rightarrow> int \<Rightarrow> (int \<times> bin_file) option" where
  "util_fpwrite f buf num offset =
    (if length buf < num then None
     else if offset < 0 \<or> \<not> f_writable f \<or> num = 0 then Some (- 1, f)
     else let off = nat offset; old = f_data f
          in Some (0, f\<lparr>f_data := take off (old @ replicate (off - length old) 0) @ take num buf @ drop (off + num) old\<rparr>))"

definition util_le_buf_to_word :: "u8 list \<Rightarrow> u16" where
  "util_le_buf_to_word buf = ucast (buf ! 0) OR push_bit 8 (ucast (buf ! 1))"

definition util_le_buf_to_dword :: "u8 list \<Rightarrow> u32" where
  "util_le_buf_to_dword buf =
    ucast (buf ! 0) OR push_bit 8 (ucast (buf ! 1)) OR push_bit 16 (ucast (buf ! 2)) OR push_bit 24 (ucast (buf ! 3))"

definition util_word_to_le_buf :: "u16 \<Rightarrow> u8 list" where
  "util_word_to_le_buf data = [ucast (data AND 0xff), ucast (drop_bit 8 data AND 0xff)]"

definition util_dword_to_le_buf :: "u32 \<Rightarrow> u8 list" where
  "util_dword_to_le_buf data =
    [ucast (data AND 0xff), ucast (drop_bit 8 data AND 0xff), ucast (drop_bit 16 data AND 0xff), ucast (drop_bit 24 data AND 0xff)]"

definition util_file_length :: "bin_file \<Rightarrow> nat" where
  "util_file_length f = length (f_data f)"

section \<open>Error codes\<close>

definition CBMDOS_IPE_OK :: int where "CBMDOS_IPE_OK = 0"
definition CBMDOS_IPE_READ_ERROR_BNF :: int where "CBMDOS_IPE_READ_ERROR_BNF = 20"
definition CBMDOS_IPE_READ_ERROR_SYNC :: int where "CBMDOS_IPE_READ_ERROR_SYNC = 21"
definition CBMDOS_IPE_READ_ERROR_DATA :: int where "CBMDOS_IPE_READ_ERROR_DATA = 22"
definition CBMDOS_IPE_READ_ERROR_CHK :: int where "CBMDOS_IPE_READ_ERROR_CHK = 23"
definition CBMDOS_IPE_READ_ERROR_GCR :: int where "CBMDOS_IPE_READ_ERROR_GCR = 24"
definition CBMDOS_IPE_WRITE_ERROR_VER :: int where "CBMDOS_IPE_WRITE_ERROR_VER = 25"
definition CBMDOS_IPE_WRITE_PROTECT_ON :: int where "CBMDOS_IPE_WRITE_PROTECT_ON = 26"
definition CBMDOS_IPE_READ_ERROR_BCHK :: int where "CBMDOS_IPE_READ_ERROR_BCHK = 27"
definition CBMDOS_IPE_WRITE_ERROR_BIG :: int where "CBMDOS_IPE_WRITE_ERROR_BIG = 28"
definition CBMDOS_IPE_DISK_ID_MISMATCH :: int where "CBMDOS_IPE_DISK_ID_MISMATCH = 29"
definition CBMDOS_IPE_NOT_READY :: int where "CBMDOS_IPE_NOT_READY = 74"

definition CBMDOS_FDC_ERR_VERIFY :: int where "CBMDOS_FDC_ERR_VERIFY = 7"
definition CBMDOS_FDC_ERR_WPROT :: int where "CBMDOS_FDC_ERR_WPROT = 8"
definition CBMDOS_FDC_ERR_BLENGTH :: int where "CBMDOS_FDC_ERR_BLENGTH = 10"
definition CBMDOS_FDC_ERR_DECODE :: int where "CBMDOS_FDC_ERR_DECODE = 16"

text \<open>The switch of the sector readers on the controller's code; \<open>other\<close> is its default.\<close>

definition fdc_to_ipe :: "int \<Rightarrow> int \<Rightarrow> int" where
  "fdc_to_ipe other rf =
    (if rf = CBMDOS_FDC_ERR_OK then CBMDOS_IPE_OK
     else if rf = CBMDOS_FDC_ERR_HEADER then CBMDOS_IPE_READ_ERROR_BNF
     else if rf = CBMDOS_FDC_ERR_SYNC then CBMDOS_IPE_READ_ERROR_SYNC
     else if rf = CBMDOS_FDC_ERR_NOBLOCK then CBMDOS_IPE_READ_ERROR_DATA
     else if rf = CBMDOS_FDC_ERR_DCHECK then CBMDOS_IPE_READ_ERROR_CHK
     else if rf = CBMDOS_FDC_ERR_VERIFY then CBMDOS_IPE_WRITE_ERROR_VER
     else if rf = CBMDOS_FDC_ERR_WPROT then CBMDOS_IPE_WRITE_PROTECT_ON
     else if rf = CBMDOS_FDC_ERR_HCHECK then CBMDOS_IPE_READ_ERROR_BCHK
     else if rf = CBMDOS_FDC_ERR_BLENGTH then CBMDOS_IPE_WRITE_ERROR_BIG
     else if rf = CBMDOS_FDC_ERR_ID then CBMDOS_IPE_DISK_ID_MISMATCH
     else if rf = CBMDOS_FDC_ERR_DRIVE then CBMDOS_IPE_NOT_READY
     else if rf = CBMDOS_FDC_ERR_DECODE then CBMDOS_IPE_READ_ERROR_GCR
     else other)"

section \<open>Sector images\<close>

text \<open>The file offset of a block.\<close>

definition dxx_offset :: "disk_image \<Rightarrow> int \<Rightarrow> int" where
  "dxx_offset im sectors = sectors * 256 + (if im_type im = DISK_IMAGE_TYPE_X64 then int X64_HEADER_LENGTH else 0)"

definition gcr_track_of :: "disk_track list \<Rightarrow> nat \<Rightarrow> disk_track option" where
  "gcr_track_of tracks track = arr_get tracks (int track * 2 - 2)"

text \<open>The 256 bytes that \<open>gcr_read_sector\<close> stores through its pointer.\<close>

definition gcr_read_into :: "disk_track \<Rightarrow> u8 list \<Rightarrow> nat \<Rightarrow> (int \<times> u8 list) option" where
  "gcr_read_into raw buf sector = do {
     (rf, data) \<leftarrow> gcr_read_sector raw (word_of_nat sector);
     case data of
       None \<Rightarrow> Some (rf, buf)
     | Some d \<Rightarrow> if length buf < 256 then None else Some (rf, d @ drop 256 buf)
   }"

definition fsimage_dxx_read_sector :: "disk_image \<Rightarrow> u8 list \<Rightarrow> nat \<Rightarrow> nat \<Rightarrow> (int \<times> u8 list) option" where
  "fsimage_dxx_read_sector im buf track sector =
    (let sectors = check_sector im track sector in
     if sectors < 0 then Some (- 1, buf)
     else case im_gcr im of
       None \<Rightarrow> do {
         f \<leftarrow> fs_fd (im_fs im);
         (r, buf) \<leftarrow> util_fpread f buf 256 (dxx_offset im sectors);
         if r < 0 then Some (- 1, buf)
         else do {
           rf \<leftarrow> (case fs_map (im_fs im) of None \<Rightarrow> Some CBMDOS_FDC_ERR_OK | Some m \<Rightarrow> map_option uint (arr_get m sectors));
           Some (fdc_to_ipe CBMDOS_IPE_OK rf, buf)
         }
       }
     | Some tracks \<Rightarrow> do {
         raw \<leftarrow> gcr_track_of tracks track;
         (rf, buf) \<leftarrow> gcr_read_into raw buf sector;
         Some (fdc_to_ipe CBMDOS_IPE_OK rf, buf)
       })"

text \<open>Writing into the raw image; the result code of \<open>gcr_write_sector\<close> is dropped.\<close>

definition gcr_write_track :: "disk_image \<Rightarrow> u8 list \<Rightarrow> nat \<Rightarrow> nat \<Rightarrow> (int \<times> disk_image) option" where
  "gcr_write_track im buf track sector =
    (case im_gcr im of
       None \<Rightarrow> Some (CBMDOS_FDC_ERR_OK, im)
     | Some tracks \<Rightarrow> do {
         raw \<leftarrow> gcr_track_of tracks track;
         (rf, raw) \<leftarrow> gcr_write_sector raw buf (word_of_nat sector);
         Some (rf, im\<lparr>im_gcr := Some (tracks[nat (int track * 2 - 2) := raw])\<rparr>)
       })"

definition fsimage_dxx_write_sector :: "disk_image \<Rightarrow> u8 list \<Rightarrow> nat \<Rightarrow> nat \<Rightarrow> (int \<times> disk_image) option" where
  "fsimage_dxx_write_sector im buf track sector =
    (let sectors = check_sector im track sector in
     if sectors < 0 then Some (- 1, im)
     else do {
       f \<leftarrow> fs_fd (im_fs im);
       (r, f) \<leftarrow> util_fpwrite f buf 256 (dxx_offset im sectors);
       if r < 0 then Some (- 1, im)
       else do {
         (_, im) \<leftarrow> gcr_write_track (set_fd f im) buf track sector;
         case fs_map (im_fs im) of
           None \<Rightarrow> Some (0, im)
         | Some m \<Rightarrow> do {
             e \<leftarrow> arr_get m sectors;
             if uint e \<noteq> CBMDOS_FDC_ERR_OK then do {
               let m = m[nat sectors := word_of_int CBMDOS_FDC_ERR_OK];
               let im = im\<lparr>im_fs := (im_fs im)\<lparr>fs_map := Some m\<rparr>\<rparr>;
               (_, f) \<leftarrow> util_fpwrite f (drop (nat sectors) m) 1 (dxx_offset im (int (length m)) + sectors);
               Some (0, set_fd f im)
             } else Some (0, im)
           }
       }
     })"

section \<open>Writing a raw track back\<close>

text \<open>The error map for a disk of the sectors it has now, all without error; the mark that it was created.\<close>

definition create_error_map :: "disk_image \<Rightarrow> disk_image \<times> bool" where
  "create_error_map im =
    (let newlen = check_sector im (im_tracks im) 0 in
     if newlen \<ge> 0 then
       (im\<lparr>im_fs := (im_fs im)\<lparr>fs_map := Some (replicate (nat newlen + disk_image_sector_per_track (im_type im) (im_tracks im)) (word_of_int CBMDOS_FDC_ERR_OK)),
          fs_dirty := True\<rparr>\<rparr>, True)
     else (im, False))"

fun half_track_sectors ::
    "disk_track \<Rightarrow> int \<Rightarrow> nat \<Rightarrow> nat \<Rightarrow> u8 list \<times> disk_image \<times> bool \<Rightarrow> (u8 list \<times> disk_image \<times> bool) option" where
  "half_track_sectors raw sectors sector 0 st = Some st"
| "half_track_sectors raw sectors sector (Suc n) (buffer, im, created) = do {
     (rf, data) \<leftarrow> gcr_read_into raw (drop (sector * 256) buffer) sector;
     let buffer = take (sector * 256) buffer @ data;
     let (im, created) = (if rf \<noteq> CBMDOS_FDC_ERR_OK \<and> fs_map (im_fs im) = None then
         (let (im, c) = create_error_map im in (im, created \<or> c)) else (im, created));
     im \<leftarrow> (case fs_map (im_fs im) of
         None \<Rightarrow> Some im
       | Some m \<Rightarrow> do {
           e \<leftarrow> arr_get m (sectors + int sector);
           Some (if e \<noteq> word_of_int rf then
             im\<lparr>im_fs := (im_fs im)\<lparr>fs_map := Some (m[nat (sectors + int sector) := word_of_int rf]), fs_dirty := True\<rparr>\<rparr> else im)
         });
     half_track_sectors raw sectors (Suc sector) n (buffer, im, created)
   }"

definition fsimage_dxx_write_half_track :: "disk_image \<Rightarrow> nat \<Rightarrow> disk_track \<Rightarrow> (int \<times> disk_image) option" where
  "fsimage_dxx_write_half_track im half_track raw =
    (let track = half_track div 2;
         max_sector = disk_image_sector_per_track (im_type im) track;
         sectors = check_sector im track 0 in
     if sectors < 0 then Some (- 1, im)
     else do {
       im \<leftarrow> (if track > im_tracks im then do {
           m \<leftarrow> (case fs_map (im_fs im) of
               None \<Rightarrow> Some None
             | Some m \<Rightarrow> (let newlen = nat sectors + max_sector in
                 if newlen < length m then None else Some (Some (m @ replicate (newlen - length m) 0))));
           Some (im\<lparr>im_tracks := track, im_fs := (im_fs im)\<lparr>fs_map := m, fs_dirty := fs_dirty (im_fs im) \<or> m \<noteq> None\<rparr>\<rparr>)
         } else Some im);
       (buffer, im, created) \<leftarrow> half_track_sectors raw sectors 0 max_sector (replicate (max_sector * 256) 0, im, False);
       f \<leftarrow> fs_fd (im_fs im);
       (r, f) \<leftarrow> util_fpwrite f buffer (max_sector * 256) (dxx_offset im sectors);
       let im = set_fd f im;
       if r < 0 then Some (- 1, im)
       else (case fs_map (im_fs im) of
           None \<Rightarrow> Some (0, im)
         | Some m \<Rightarrow>
             if fs_dirty (im_fs im) then do {
               let im = im\<lparr>im_fs := (im_fs im)\<lparr>fs_dirty := False\<rparr>\<rparr>;
               (res, f) \<leftarrow> (if created then util_fpwrite f m (length m) (int (length m) * 256)
                 else util_fpwrite f (drop (nat sectors) m) max_sector (dxx_offset im (int (length m)) + sectors));
               Some (if res < 0 then - 1 else 0, set_fd f im)
             } else Some (0, im))
     })"

section \<open>Reading an image into raw tracks\<close>

definition BAM_TRACK_1541 :: nat where "BAM_TRACK_1541 = 18"
definition BAM_SECTOR_1541 :: nat where "BAM_SECTOR_1541 = 0"
definition BAM_ID_1541 :: nat where "BAM_ID_1541 = 162"
definition BAM_TRACK_1571 :: nat where "BAM_TRACK_1571 = 18"
definition BAM_SECTOR_1571 :: nat where "BAM_SECTOR_1571 = 0"
definition BAM_ID_1571 :: nat where "BAM_ID_1571 = 162"
definition BAM_TRACK_8050 :: nat where "BAM_TRACK_8050 = 39"
definition BAM_SECTOR_8050 :: nat where "BAM_SECTOR_8050 = 0"
definition BAM_ID_8050 :: nat where "BAM_ID_8050 = 24"

lemmas bam_places = BAM_TRACK_1541_def BAM_SECTOR_1541_def BAM_ID_1541_def BAM_TRACK_1571_def BAM_SECTOR_1571_def
  BAM_ID_1571_def BAM_TRACK_8050_def BAM_SECTOR_8050_def BAM_ID_8050_def

text \<open>A block of the disk into the buffer when it exists; the result of the read is dropped.\<close>

definition read_bam :: "disk_image \<Rightarrow> u8 list \<Rightarrow> int \<Rightarrow> u8 list option" where
  "read_bam im buffer sectors =
    (if sectors \<ge> 0 then do { f \<leftarrow> fs_fd (im_fs im); map_option snd (util_fpread f buffer 256 (sectors * 256)) }
     else Some buffer)"

fun dxx_read_sectors ::
    "disk_image \<Rightarrow> nat \<Rightarrow> gcr_header \<Rightarrow> nat \<Rightarrow> nat \<Rightarrow> nat \<Rightarrow> nat \<Rightarrow> u8 list \<Rightarrow> u8 list \<Rightarrow> (u8 list \<times> u8 list) option" where
  "dxx_read_sectors im track header gap sector 0 ptr mem buffer = Some (mem, buffer)"
| "dxx_read_sectors im track header gap sector (Suc n) ptr mem buffer = do {
     let sectors = check_sector im track sector;
     (mem, buffer) \<leftarrow> (if sectors \<ge> 0 then do {
         f \<leftarrow> fs_fd (im_fs im);
         (r, buffer) \<leftarrow> util_fpread f buffer 256 (dxx_offset im sectors);
         rf \<leftarrow> (case fs_map (im_fs im) of
             Some m \<Rightarrow> if r \<ge> 0 then map_option uint (arr_get m sectors) else Some CBMDOS_FDC_ERR_DRIVE
           | None \<Rightarrow> Some CBMDOS_FDC_ERR_DRIVE);
         (_, mem) \<leftarrow> gcr_convert_sector_to_GCR buffer (header\<lparr>h_sector := word_of_nat sector\<rparr>) 9 5 rf (ptr, mem);
         Some (mem, buffer)
       } else Some (mem, buffer));
     dxx_read_sectors im track header gap (Suc sector) n (ptr + (SECTOR_GCR_SIZE_WITH_HEADER + 9 + gap + 5)) mem buffer
   }"

text \<open>One round of the loop over the tracks: \<open>header\<close> carries the track number and the disk ID.\<close>

definition dxx_read_track ::
    "disk_image \<Rightarrow> bool \<Rightarrow> nat \<Rightarrow> disk_track list \<times> gcr_header \<times> u8 list \<Rightarrow> (disk_track list \<times> gcr_header \<times> u8 list) option" where
  "dxx_read_track im double_sided track st = (case st of (tracks, header, buffer) \<Rightarrow> do {
     let half_track = track * 2 - 2;
     let track_size = disk_image_raw_track_size (im_type im) track;
     _ \<leftarrow> arr_get tracks (int half_track);
     (mem, header, buffer) \<leftarrow>
       (if track \<le> im_tracks im then do {
          (header, buffer) \<leftarrow> (if double_sided \<and> track = 36 then do {
              let buffer = buffer[BAM_ID_1571 := 0xa0, BAM_ID_1571 + 1 := 0xa0];
              buffer \<leftarrow> read_bam im buffer (check_sector im (BAM_TRACK_1571 + 35) BAM_SECTOR_1571);
              Some (header\<lparr>h_id1 := buffer ! BAM_ID_1571, h_id2 := buffer ! (BAM_ID_1571 + 1), h_track := 1\<rparr>, buffer)
            } else Some (header, buffer));
          (mem, buffer) \<leftarrow> dxx_read_sectors im track header (disk_image_gap_size (im_type im) track) 0
            (disk_image_sector_per_track (im_type im) track) 0 (replicate track_size 0x55) buffer;
          Some (mem, header, buffer)
        } else Some (replicate track_size 0x55, header, buffer));
     _ \<leftarrow> arr_get tracks (int (Suc half_track));
     let tracks = tracks[half_track := \<lparr>trk_data = Some mem, trk_size = track_size\<rparr>];
     let odd_track = tracks ! Suc half_track;
     Some (if trk_data odd_track = None then tracks else tracks[Suc half_track := \<lparr>trk_data = None, trk_size = 0\<rparr>],
       header\<lparr>h_track := h_track header + 1\<rparr>, buffer)
   })"

fun dxx_read_tracks ::
    "disk_image \<Rightarrow> bool \<Rightarrow> nat \<Rightarrow> nat \<Rightarrow> disk_track list \<times> gcr_header \<times> u8 list \<Rightarrow> (disk_track list \<times> gcr_header \<times> u8 list) option" where
  "dxx_read_tracks im double_sided track 0 st = Some st"
| "dxx_read_tracks im double_sided track (Suc n) st = do {
     st \<leftarrow> dxx_read_track im double_sided track st;
     dxx_read_tracks im double_sided (Suc track) n st
   }"

text \<open>\<open>buffer\<close> is what the local buffer holds on entry.\<close>

definition fsimage_read_dxx_image :: "u8 list \<Rightarrow> disk_image \<Rightarrow> (int \<times> disk_image) option" where
  "fsimage_read_dxx_image buffer im = do {
     let (sectors, bam_id) =
       (if im_type im = DISK_IMAGE_TYPE_D80 \<or> im_type im = DISK_IMAGE_TYPE_D82
        then (check_sector im BAM_TRACK_8050 BAM_SECTOR_8050, BAM_ID_8050)
        else (check_sector im BAM_TRACK_1541 BAM_SECTOR_1541, BAM_ID_1541));
     buffer \<leftarrow> read_bam im (buffer[bam_id := 0xa0, bam_id + 1 := 0xa0]) sectors;
     let header = \<lparr>h_sector = 0, h_track = 1, h_id2 = buffer ! (bam_id + 1), h_id1 = buffer ! bam_id\<rparr>;
     let double_sided = (im_type im = DISK_IMAGE_TYPE_D71 \<and> \<not> truth (buffer ! 3 AND 0x80));
     tracks \<leftarrow> im_gcr im;
     (tracks, _) \<leftarrow> dxx_read_tracks im double_sided 1 (im_max_half_tracks im div 2) (tracks, header, buffer);
     Some (0, im\<lparr>im_gcr := Some tracks\<rparr>)
   }"

section \<open>GCR images\<close>

definition gcr_image_header_expected_1541 :: "u8 list" where
  "gcr_image_header_expected_1541 = [0x47, 0x43, 0x52, 0x2D, 0x31, 0x35, 0x34, 0x31, 0x00]"
definition gcr_image_header_expected_1571 :: "u8 list" where
  "gcr_image_header_expected_1571 = [0x47, 0x43, 0x52, 0x2D, 0x31, 0x35, 0x37, 0x31, 0x00]"

text \<open>An entry of the table of half tracks; the position is computed in \<open>unsigned int\<close>.\<close>

definition half_track_entry :: "int \<Rightarrow> int" where
  "half_track_entry k = (12 + k * 4) mod 2 ^ 32"

text \<open>The offset of the half track in the file, the longest track and the number of half tracks; the last two when they were set.\<close>

definition fsimage_gcr_seek_half_track :: "fsimage \<Rightarrow> nat \<Rightarrow> (int \<times> u16 \<times> nat) option" where
  "fsimage_gcr_seek_half_track fs half_track =
    (case fs_fd fs of
       None \<Rightarrow> Some (- 1, 0, 0)
     | Some f \<Rightarrow> do {
         (r, buf) \<leftarrow> util_fpread f (replicate 12 0) 12 0;
         if r < 0 then Some (- 1, 0, 0)
         else if take 9 buf \<noteq> gcr_image_header_expected_1541 \<and> take 9 buf \<noteq> gcr_image_header_expected_1571 then Some (- 1, 0, 0)
         else do {
           let num_half_tracks = unat (buf ! 9);
           if num_half_tracks > MAX_GCR_TRACKS then Some (- 1, 0, num_half_tracks)
           else do {
             let max_track_length = util_le_buf_to_word (drop 10 buf);
             (r, buf) \<leftarrow> util_fpread f (take 4 buf) 4 (half_track_entry (int half_track - 2));
             Some (if r < 0 then - 1 else uint (util_le_buf_to_dword buf), max_track_length, num_half_tracks)
           }
         }
       })"

definition fsimage_gcr_read_half_track :: "disk_image \<Rightarrow> nat \<Rightarrow> (int \<times> disk_track) option" where
  "fsimage_gcr_read_half_track im half_track = do {
     let none = \<lparr>trk_data = None, trk_size = 0\<rparr>;
     (offset, max_track_length, _) \<leftarrow> fsimage_gcr_seek_half_track (im_fs im) half_track;
     if offset < 0 then Some (- 1, none)
     else if offset \<noteq> 0 then do {
       f \<leftarrow> fs_fd (im_fs im);
       (r, buf) \<leftarrow> util_fpread f (replicate 4 0) 2 offset;
       if r < 0 then Some (- 1, none)
       else do {
         let track_len = util_le_buf_to_word buf;
         if track_len < 1 \<or> track_len > max_track_length then Some (- 1, none)
         else do {
           (r, data) \<leftarrow> util_fpread f (replicate (unat track_len) 0) (unat track_len) (offset + 2);
           Some (if r < 0 then - 1 else 0, \<lparr>trk_data = Some data, trk_size = unat track_len\<rparr>)
         }
       }
     } else do {
       let n = disk_image_raw_track_size (im_type im) (half_track div 2);
       Some (0, \<lparr>trk_data = Some (replicate n 0x55), trk_size = n\<rparr>)
     }
   }"

fun gcr_read_tracks :: "disk_image \<Rightarrow> nat \<Rightarrow> disk_track list \<Rightarrow> disk_track list option" where
  "gcr_read_tracks im half_track [] = Some []"
| "gcr_read_tracks im half_track (t # ts) = do {
     let t = (if trk_data t = None then t else \<lparr>trk_data = None, trk_size = 0\<rparr>);
     t \<leftarrow> (if half_track < im_max_half_tracks im then map_option snd (fsimage_gcr_read_half_track im (half_track + 2)) else Some t);
     ts \<leftarrow> gcr_read_tracks im (Suc half_track) ts;
     Some (t # ts)
   }"

definition fsimage_read_gcr_image :: "disk_image \<Rightarrow> (int \<times> disk_image) option" where
  "fsimage_read_gcr_image im = do {
     tracks \<leftarrow> im_gcr im;
     tracks \<leftarrow> gcr_read_tracks im 0 tracks;
     Some (0, im\<lparr>im_gcr := Some tracks\<rparr>)
   }"

text \<open>The track, its padding and, for a track that was not in the file, its two table entries.\<close>

definition gcr_put_track :: "disk_image \<Rightarrow> nat \<Rightarrow> disk_track \<Rightarrow> u8 list \<Rightarrow> int \<Rightarrow> bool \<Rightarrow> u16 \<Rightarrow> nat \<Rightarrow> bin_file \<Rightarrow> (int \<times> bin_file) option" where
  "gcr_put_track im half_track raw data offset extended max_track_length num_half_tracks f = do {
     (r, f) \<leftarrow> util_fpwrite f (util_word_to_le_buf (word_of_nat (trk_size raw))) 2 offset;
     if r < 0 then Some (- 1, f)
     else do {
       (r, f) \<leftarrow> util_fpwrite f data (trk_size raw) (offset + 2);
       if r < 0 then Some (- 1, f)
       else do {
         let gap = unat max_track_length - trk_size raw;
         (r, f) \<leftarrow> (if gap > 0 then util_fpwrite f (replicate gap 0) gap (offset + 2 + int (trk_size raw)) else Some (0, f));
         if r < 0 then Some (- 1, f)
         else if extended then do {
           (r, f) \<leftarrow> util_fpwrite f (util_dword_to_le_buf (word_of_int offset)) 4 (half_track_entry (int half_track - 2));
           if r < 0 then Some (- 1, f)
           else do {
             (r, f) \<leftarrow> util_fpwrite f (util_dword_to_le_buf (word_of_nat (disk_image_speed_map (im_type im) (half_track div 2)))) 4
               (half_track_entry (int half_track - 2 + int num_half_tracks));
             Some (if r < 0 then - 1 else 0, f)
           }
         } else Some (0, f)
       }
     }
   }"

definition fsimage_gcr_write_half_track :: "disk_image \<Rightarrow> nat \<Rightarrow> disk_track \<Rightarrow> (int \<times> disk_image) option" where
  "fsimage_gcr_write_half_track im half_track raw = do {
     (offset, max_track_length, num_half_tracks) \<leftarrow> fsimage_gcr_seek_half_track (im_fs im) half_track;
     if offset < 0 then Some (- 1, im)
     else if im_read_only im then Some (- 1, im)
     else if trk_size raw > unat max_track_length then Some (- 1, im)
     else do {
       f \<leftarrow> fs_fd (im_fs im);
       let extended = (offset = 0);
       let offset = (if extended then int (util_file_length f) else offset);
       case trk_data raw of
         None \<Rightarrow> Some (0, im)
       | Some data \<Rightarrow> do {
           (r, f) \<leftarrow> gcr_put_track im half_track raw data offset extended max_track_length num_half_tracks f;
           Some (r, set_fd f im)
         }
     }
   }"

definition fsimage_gcr_read_sector :: "disk_image \<Rightarrow> u8 list \<Rightarrow> nat \<Rightarrow> nat \<Rightarrow> (int \<times> u8 list) option" where
  "fsimage_gcr_read_sector im buf track sector =
    (if track > im_tracks im then Some (- 1, buf)
     else case im_gcr im of
       None \<Rightarrow> do {
         (r, raw) \<leftarrow> fsimage_gcr_read_half_track im (track * 2);
         if r < 0 then Some (- 1, buf)
         else if trk_data raw = None then Some (CBMDOS_IPE_NOT_READY, buf)
         else do {
           (rf, buf) \<leftarrow> gcr_read_into raw buf sector;
           Some (fdc_to_ipe CBMDOS_IPE_NOT_READY rf, buf)
         }
       }
     | Some tracks \<Rightarrow> do {
         raw \<leftarrow> gcr_track_of tracks track;
         (rf, buf) \<leftarrow> gcr_read_into raw buf sector;
         Some (fdc_to_ipe CBMDOS_IPE_NOT_READY rf, buf)
       })"

definition fsimage_gcr_write_sector :: "disk_image \<Rightarrow> u8 list \<Rightarrow> nat \<Rightarrow> nat \<Rightarrow> (int \<times> disk_image) option" where
  "fsimage_gcr_write_sector im buf track sector =
    (if track > im_tracks im then Some (- 1, im)
     else case im_gcr im of
       None \<Rightarrow> do {
         (r, raw) \<leftarrow> fsimage_gcr_read_half_track im (track * 2);
         if r < 0 \<or> trk_data raw = None then Some (- 1, im)
         else do {
           (rf, raw) \<leftarrow> gcr_write_sector raw buf (word_of_nat sector);
           if rf \<noteq> CBMDOS_FDC_ERR_OK then Some (- 1, im)
           else do {
             (r, im) \<leftarrow> fsimage_gcr_write_half_track im (track * 2) raw;
             Some (if r < 0 then - 1 else 0, im)
           }
         }
       }
     | Some tracks \<Rightarrow> do {
         (rf, im) \<leftarrow> gcr_write_track im buf track sector;
         if rf \<noteq> CBMDOS_FDC_ERR_OK then Some (- 1, im)
         else do {
           tracks \<leftarrow> im_gcr im;
           raw \<leftarrow> gcr_track_of tracks track;
           (r, im) \<leftarrow> fsimage_gcr_write_half_track im (track * 2) raw;
           Some (if r < 0 then - 1 else 0, im)
         }
       })"

section \<open>Dispatch\<close>

definition dxx_types :: "nat list" where
  "dxx_types = [DISK_IMAGE_TYPE_D64, DISK_IMAGE_TYPE_D67, DISK_IMAGE_TYPE_D71, DISK_IMAGE_TYPE_D81, DISK_IMAGE_TYPE_D80,
     DISK_IMAGE_TYPE_D82, DISK_IMAGE_TYPE_X64, DISK_IMAGE_TYPE_D1M, DISK_IMAGE_TYPE_D2M, DISK_IMAGE_TYPE_D4M]"

definition fsimage_read_sector :: "p64_code \<Rightarrow> disk_image \<Rightarrow> u8 list \<Rightarrow> nat \<Rightarrow> nat \<Rightarrow> (int \<times> u8 list) option" where
  "fsimage_read_sector p64 im buf track sector =
    (if fs_fd (im_fs im) = None then Some (CBMDOS_IPE_NOT_READY, buf)
     else if im_type im \<in> set dxx_types then fsimage_dxx_read_sector im buf track sector
     else if im_type im \<in> {DISK_IMAGE_TYPE_G64, DISK_IMAGE_TYPE_G71} then fsimage_gcr_read_sector im buf track sector
     else if im_type im = DISK_IMAGE_TYPE_P64 then p64_read_sector p64 im buf track sector
     else Some (CBMDOS_IPE_NOT_READY, buf))"

definition fsimage_write_sector :: "p64_code \<Rightarrow> disk_image \<Rightarrow> u8 list \<Rightarrow> nat \<Rightarrow> nat \<Rightarrow> (int \<times> disk_image) option" where
  "fsimage_write_sector p64 im buf track sector =
    (if fs_fd (im_fs im) = None then Some (- 1, im)
     else if im_type im \<in> set dxx_types then do {
       (r, im) \<leftarrow> fsimage_dxx_write_sector im buf track sector;
       Some (if r < 0 then - 1 else 0, im)
     }
     else if im_type im \<in> {DISK_IMAGE_TYPE_G64, DISK_IMAGE_TYPE_G71} then do {
       (r, im) \<leftarrow> fsimage_gcr_write_sector im buf track sector;
       Some (if r < 0 then - 1 else 0, im)
     }
     else if im_type im = DISK_IMAGE_TYPE_P64 then do {
       (r, im) \<leftarrow> p64_write_sector p64 im buf track sector;
       Some (if r < 0 then - 1 else 0, im)
     }
     else Some (- 1, im))"

text \<open>The devices other than files are only compiled in with \<open>HAVE_OPENCBM\<close> and \<open>HAVE_RAWDRIVE\<close>; this is the build without them.\<close>

definition disk_image_read_sector :: "p64_code \<Rightarrow> disk_image \<Rightarrow> u8 list \<Rightarrow> nat \<Rightarrow> nat \<Rightarrow> (int \<times> u8 list) option" where
  "disk_image_read_sector p64 im buf track sector =
    (if im_device im = DISK_IMAGE_DEVICE_FS then fsimage_read_sector p64 im buf track sector else Some (- 1, buf))"

definition disk_image_write_sector :: "p64_code \<Rightarrow> disk_image \<Rightarrow> u8 list \<Rightarrow> nat \<Rightarrow> nat \<Rightarrow> (int \<times> disk_image) option" where
  "disk_image_write_sector p64 im buf track sector =
    (if im_read_only im then Some (- 1, im)
     else if im_device im = DISK_IMAGE_DEVICE_FS then fsimage_write_sector p64 im buf track sector
     else Some (- 1, im))"

definition disk_image_write_half_track :: "p64_code \<Rightarrow> disk_image \<Rightarrow> nat \<Rightarrow> disk_track \<Rightarrow> (int \<times> disk_image) option" where
  "disk_image_write_half_track p64 im half_track raw =
    (if half_track > im_max_half_tracks im then Some (- 1, im)
     else if im_read_only im then Some (- 1, im)
     else if im_type im = DISK_IMAGE_TYPE_P64 then p64_write_half_track p64 im half_track raw
     else if im_type im \<in> {DISK_IMAGE_TYPE_G64, DISK_IMAGE_TYPE_G71} then fsimage_gcr_write_half_track im half_track raw
     else fsimage_dxx_write_half_track im half_track raw)"

definition disk_image_read_image :: "p64_code \<Rightarrow> u8 list \<Rightarrow> disk_image \<Rightarrow> (int \<times> disk_image) option" where
  "disk_image_read_image p64 buffer im =
    (if im_type im = DISK_IMAGE_TYPE_P64 then p64_read_image p64 im
     else if im_type im \<in> {DISK_IMAGE_TYPE_G64, DISK_IMAGE_TYPE_G71} then fsimage_read_gcr_image im
     else fsimage_read_dxx_image buffer im)"

end
