(* ===== verification/DiskProbe.thy ===== *)
theory DiskProbe
  imports DiskImage
begin

unbundle bit_operations_syntax

text \<open>
  The recognition of disk images in fsimage-probe.c, from the size of the file, its header or its extension. Each test returns
  whether the image is of its format and the image with the fields it has set, which a failed test may have set too. Counting
  the blocks of a file by reading it is a loop over its bytes. The test of D64 images also reads the whole file byte by byte,
  which has no effect on a file of the size it just measured. Allocation succeeds and log messages are left out.
\<close>

section \<open>Sizes\<close>

definition D64_FILE_SIZE_35 :: nat where "D64_FILE_SIZE_35 = 174848"
definition D67_FILE_SIZE :: nat where "D67_FILE_SIZE = 176640"
definition D71_FILE_SIZE :: nat where "D71_FILE_SIZE = 349696"
definition D71_FILE_SIZE_E :: nat where "D71_FILE_SIZE_E = 349696 + 1366"
definition D81_FILE_SIZE :: nat where "D81_FILE_SIZE = 819200"
definition D81_FILE_SIZE_E :: nat where "D81_FILE_SIZE_E = 822400"
definition D81_FILE_SIZE_81 :: nat where "D81_FILE_SIZE_81 = 829440"
definition D81_FILE_SIZE_81E :: nat where "D81_FILE_SIZE_81E = 832680"
definition D81_FILE_SIZE_82 :: nat where "D81_FILE_SIZE_82 = 839680"
definition D81_FILE_SIZE_82E :: nat where "D81_FILE_SIZE_82E = 842960"
definition D81_FILE_SIZE_83 :: nat where "D81_FILE_SIZE_83 = 849920"
definition D81_FILE_SIZE_83E :: nat where "D81_FILE_SIZE_83E = 853240"
definition D80_FILE_SIZE :: nat where "D80_FILE_SIZE = 533248"
definition D82_FILE_SIZE :: nat where "D82_FILE_SIZE = 1066496"
definition D1M_FILE_SIZE :: nat where "D1M_FILE_SIZE = 829440"
definition D1M_FILE_SIZE_E :: nat where "D1M_FILE_SIZE_E = 832680"
definition D2M_FILE_SIZE :: nat where "D2M_FILE_SIZE = 1658880"
definition D2M_FILE_SIZE_E :: nat where "D2M_FILE_SIZE_E = 1665360"
definition D4M_FILE_SIZE :: nat where "D4M_FILE_SIZE = 3317760"
definition D4M_FILE_SIZE_E :: nat where "D4M_FILE_SIZE_E = 3330720"

definition IS_D67_LEN :: "nat \<Rightarrow> bool" where "IS_D67_LEN x \<longleftrightarrow> x = D67_FILE_SIZE"
definition IS_D71_LEN :: "nat \<Rightarrow> bool" where "IS_D71_LEN x \<longleftrightarrow> x = D71_FILE_SIZE \<or> x = D71_FILE_SIZE_E"
definition IS_D81_LEN :: "nat \<Rightarrow> bool" where
  "IS_D81_LEN x \<longleftrightarrow> x = D81_FILE_SIZE \<or> x = D81_FILE_SIZE_E \<or> x = D81_FILE_SIZE_81 \<or> x = D81_FILE_SIZE_81E \<or>
     x = D81_FILE_SIZE_82 \<or> x = D81_FILE_SIZE_82E \<or> x = D81_FILE_SIZE_83 \<or> x = D81_FILE_SIZE_83E"
definition IS_D80_LEN :: "nat \<Rightarrow> bool" where "IS_D80_LEN x \<longleftrightarrow> x = D80_FILE_SIZE"
definition IS_D82_LEN :: "nat \<Rightarrow> bool" where "IS_D82_LEN x \<longleftrightarrow> x = D82_FILE_SIZE"
definition IS_D1M_LEN :: "nat \<Rightarrow> bool" where "IS_D1M_LEN x \<longleftrightarrow> x = D1M_FILE_SIZE \<or> x = D1M_FILE_SIZE_E"
definition IS_D2M_LEN :: "nat \<Rightarrow> bool" where "IS_D2M_LEN x \<longleftrightarrow> x = D2M_FILE_SIZE \<or> x = D2M_FILE_SIZE_E"
definition IS_D4M_LEN :: "nat \<Rightarrow> bool" where "IS_D4M_LEN x \<longleftrightarrow> x = D4M_FILE_SIZE \<or> x = D4M_FILE_SIZE_E"

section \<open>Tests\<close>

definition set_format :: "nat \<Rightarrow> nat \<Rightarrow> nat \<Rightarrow> disk_image \<Rightarrow> disk_image" where
  "set_format type tracks half_tracks im = im\<lparr>im_type := type, im_tracks := tracks, im_max_half_tracks := half_tracks\<rparr>"

text \<open>The whole blocks of a file, counted until there are more than \<open>limit\<close>.\<close>

function count_blocks :: "nat \<Rightarrow> nat \<Rightarrow> u8 list \<Rightarrow> nat" where
  "count_blocks limit blk data =
    (if length data < 256 then blk else if Suc blk > limit then Suc blk else count_blocks limit (Suc blk) (drop 256 data))"
  by auto
termination by (relation "measure (\<lambda>(limit, blk, data). length data)") auto

declare count_blocks.simps [simp del]

definition disk_image_check_min_block :: "nat \<Rightarrow> nat \<Rightarrow> int" where
  "disk_image_check_min_block blk len = (if blk < len then - 1 else 0)"

text \<open>The error map after the blocks of the file.\<close>

definition read_error_map :: "nat \<Rightarrow> bin_file \<Rightarrow> disk_image \<Rightarrow> (bool \<times> disk_image) option" where
  "read_error_map blocks f im = do {
     (r, m) \<leftarrow> util_fpread f (replicate blocks 0) blocks (256 * int blocks);
     Some (0 \<le> r, im\<lparr>im_fs := (im_fs im)\<lparr>fs_map := Some m\<rparr>\<rparr>)
   }"

text \<open>The search for the number of tracks: the tracks, the blocks, and whether there is error information.\<close>

function d64_size_loop :: "nat \<Rightarrow> nat \<Rightarrow> nat \<Rightarrow> (nat \<times> nat \<times> bool) option" where
  "d64_size_loop realsize tracks blocks =
    (if realsize = blocks * 256 then Some (tracks, blocks, False)
     else if realsize = blocks * 256 + blocks then Some (tracks, blocks, True)
     else if Suc tracks > MAX_TRACKS_1541 then None
     else d64_size_loop realsize (Suc tracks) (blocks + 17))"
  by auto
termination by (relation "measure (\<lambda>(realsize, tracks, blocks). MAX_TRACKS_1541 - tracks)") auto

declare d64_size_loop.simps [simp del]

definition disk_image_check_for_d64 :: "bin_file \<Rightarrow> disk_image \<Rightarrow> (bool \<times> disk_image) option" where
  "disk_image_check_for_d64 f im =
    (case d64_size_loop (util_file_length f) NUM_TRACKS_1541 (D64_FILE_SIZE_35 div 256) of
       None \<Rightarrow> Some (False, im)
     | Some (tracks, blocks, errorinfo) \<Rightarrow>
         (let im = set_format DISK_IMAGE_TYPE_D64 tracks (MAX_TRACKS_1541 * 2) im in
          if errorinfo then read_error_map blocks f im else Some (True, im)))"

definition disk_image_check_for_d67 :: "bin_file \<Rightarrow> disk_image \<Rightarrow> (bool \<times> disk_image) option" where
  "disk_image_check_for_d67 f im =
    (if \<not> IS_D67_LEN (util_file_length f) then Some (False, im)
     else let im = set_format DISK_IMAGE_TYPE_D67 NUM_TRACKS_2040 (MAX_TRACKS_2040 * 2) im;
              blk = count_blocks NUM_BLOCKS_2040 0 (f_data f) in
       Some (\<not> disk_image_check_min_block blk NUM_BLOCKS_2040 < 0 \<and> blk = NUM_BLOCKS_2040, im))"

definition disk_image_check_for_d71 :: "bin_file \<Rightarrow> disk_image \<Rightarrow> (bool \<times> disk_image) option" where
  "disk_image_check_for_d71 f im =
    (if \<not> IS_D71_LEN (util_file_length f) then Some (False, im)
     else let errorinfo = (util_file_length f = D71_FILE_SIZE_E);
              im = set_format DISK_IMAGE_TYPE_D71 NUM_TRACKS_1571 (MAX_TRACKS_1571 * 2) im;
              blk = count_blocks (NUM_BLOCKS_1571 - 1) 0 (f_data f) in
       if disk_image_check_min_block blk NUM_BLOCKS_1571 < 0 then Some (False, im)
       else if errorinfo then read_error_map blk f im else Some (True, im))"

definition util_get_extension :: "string \<Rightarrow> string option" where
  "util_get_extension filename =
    (if CHR ''.'' \<in> set filename then Some (rev (takeWhile (\<lambda>c. c \<noteq> CHR ''.'') (rev filename))) else None)"

definition d81_tracks :: "nat \<Rightarrow> (nat \<times> bool) option" where
  "d81_tracks blk =
    (if blk = NUM_BLOCKS_1581 then Some (NUM_TRACKS_1581, False)
     else if blk = NUM_BLOCKS_1581 + 12 then Some (NUM_TRACKS_1581, True)
     else if blk = NUM_BLOCKS_1581 + 40 then Some (NUM_TRACKS_1581 + 1, False)
     else if blk = NUM_BLOCKS_1581 + 40 + 12 then Some (NUM_TRACKS_1581 + 1, True)
     else if blk = NUM_BLOCKS_1581 + 80 then Some (NUM_TRACKS_1581 + 2, False)
     else if blk = NUM_BLOCKS_1581 + 80 + 12 then Some (NUM_TRACKS_1581 + 2, True)
     else if blk = NUM_BLOCKS_1581 + 120 then Some (NUM_TRACKS_1581 + 3, False)
     else if blk = NUM_BLOCKS_1581 + 120 + 12 then Some (NUM_TRACKS_1581 + 3, True)
     else None)"

definition disk_image_check_for_d81 :: "bin_file \<Rightarrow> disk_image \<Rightarrow> (bool \<times> disk_image) option" where
  "disk_image_check_for_d81 f im =
    (if \<not> IS_D81_LEN (util_file_length f) then Some (False, im)
     else if (case util_get_extension (fs_name (im_fs im)) of
         None \<Rightarrow> False | Some ext \<Rightarrow> length ext \<ge> 3 \<and> ext ! 1 = CHR ''1'') then Some (False, im)
     else let blk = count_blocks (MAX_BLOCKS_1581 + 13) 0 (f_data f) in
       if disk_image_check_min_block blk NUM_BLOCKS_1581 < 0 then Some (False, im)
       else case d81_tracks blk of
         None \<Rightarrow> Some (False, im)
       | Some (tracks, errorinfo) \<Rightarrow>
           (let im = set_format DISK_IMAGE_TYPE_D81 tracks (MAX_TRACKS_1581 * 2) im in
            if errorinfo then read_error_map (tracks * 40) f im else Some (True, im)))"

definition disk_image_check_for_d80 :: "bin_file \<Rightarrow> disk_image \<Rightarrow> (bool \<times> disk_image) option" where
  "disk_image_check_for_d80 f im =
    (if \<not> IS_D80_LEN (util_file_length f) then Some (False, im)
     else let im = set_format DISK_IMAGE_TYPE_D80 NUM_TRACKS_8050 (MAX_TRACKS_8050 * 2) im;
              blk = count_blocks (NUM_BLOCKS_8050 + 6) 0 (f_data f) in
       Some (\<not> disk_image_check_min_block blk NUM_BLOCKS_8050 < 0 \<and> blk = NUM_BLOCKS_8050, im))"

definition disk_image_check_for_d82 :: "bin_file \<Rightarrow> disk_image \<Rightarrow> (bool \<times> disk_image) option" where
  "disk_image_check_for_d82 f im =
    (if \<not> IS_D82_LEN (util_file_length f) then Some (False, im)
     else let im = set_format DISK_IMAGE_TYPE_D82 NUM_TRACKS_8250 (MAX_TRACKS_8250 * 2) im;
              blk = count_blocks (NUM_BLOCKS_8250 + 6) 0 (f_data f) in
       Some (\<not> disk_image_check_min_block blk NUM_BLOCKS_8250 < 0 \<and> blk = NUM_BLOCKS_8250, im))"

definition disk_image_check_for_x64 :: "bin_file \<Rightarrow> disk_image \<Rightarrow> (bool \<times> disk_image) option" where
  "disk_image_check_for_x64 f im =
    (let header = take X64_HEADER_LENGTH (f_data f) in
     if length header < X64_HEADER_LENGTH then Some (False, im)
     else if take 4 header \<noteq> [0x43, 0x15, 0x41, 0x64] then Some (False, im)
     else if unat (header ! 7) > MAX_TRACKS_1541 then Some (False, im)
     else Some (True, set_format DISK_IMAGE_TYPE_X64 (unat (header ! 7)) (MAX_TRACKS_1541 * 2) im))"

definition disk_image_check_for_gcr :: "bin_file \<Rightarrow> disk_image \<Rightarrow> (bool \<times> disk_image) option" where
  "disk_image_check_for_gcr f im = do {
     (r, header) \<leftarrow> util_fpread f (replicate 32 0) 32 0;
     if r < 0 then Some (False, im)
     else if header ! 8 \<noteq> 0 then Some (False, im)
     else if header ! 9 < 1 then Some (False, im)
     else do {
       let is41 = (take 8 header = [0x47, 0x43, 0x52, 0x2D, 0x31, 0x35, 0x34, 0x31]);
       let is71 = (take 8 header = [0x47, 0x43, 0x52, 0x2D, 0x31, 0x35, 0x37, 0x31]);
       if is41 \<or> is71 then
         Some (True, set_format (if is41 then DISK_IMAGE_TYPE_G64 else DISK_IMAGE_TYPE_G71) (unat (header ! 9) div 2) (unat (header ! 9)) im)
       else Some (False, im)
     }
   }"

text \<open>With \<open>has_p64\<close> the flux image is read at once.\<close>

definition disk_image_check_for_p64 :: "p64_code \<Rightarrow> bool \<Rightarrow> bin_file \<Rightarrow> disk_image \<Rightarrow> (bool \<times> disk_image) option" where
  "disk_image_check_for_p64 p64 has_p64 f im = do {
     (r, header) \<leftarrow> util_fpread f (replicate 8 0) 8 0;
     if r < 0 then Some (False, im)
     else if header \<noteq> [0x50, 0x36, 0x34, 0x2D, 0x31, 0x35, 0x34, 0x31] then Some (False, im)
     else do {
       let im = set_format DISK_IMAGE_TYPE_P64 MAX_TRACKS_1541 (MAX_TRACKS_1541 * 2) im;
       if has_p64 then do { (r, im) \<leftarrow> p64_read_image p64 im; Some (\<not> r < 0, im) } else Some (True, im)
     }
   }"

definition disk_image_check_for_d1m :: "bin_file \<Rightarrow> disk_image \<Rightarrow> (bool \<times> disk_image) option" where
  "disk_image_check_for_d1m f im =
    (if \<not> IS_D1M_LEN (util_file_length f) then Some (False, im)
     else if (case util_get_extension (fs_name (im_fs im)) of
         None \<Rightarrow> False | Some ext \<Rightarrow> length ext \<ge> 3 \<and> ext ! 1 = CHR ''8'' \<and> ext ! 2 = CHR ''1'') then Some (False, im)
     else let im = set_format DISK_IMAGE_TYPE_D1M NUM_TRACKS_1000 (MAX_TRACKS_1000 * 2) im;
              blk = count_blocks (NUM_BLOCKS_1000 + 13) 0 (f_data f) in
       Some (\<not> disk_image_check_min_block blk NUM_BLOCKS_1000 < 0 \<and> (blk = NUM_BLOCKS_1000 \<or> blk = NUM_BLOCKS_1000 + 12), im))"

definition disk_image_check_for_d2m :: "bin_file \<Rightarrow> disk_image \<Rightarrow> (bool \<times> disk_image) option" where
  "disk_image_check_for_d2m f im =
    (if \<not> IS_D2M_LEN (util_file_length f) then Some (False, im)
     else let im = set_format DISK_IMAGE_TYPE_D2M NUM_TRACKS_2000 (MAX_TRACKS_2000 * 2) im;
              blk = count_blocks (NUM_BLOCKS_2000 + 26) 0 (f_data f) in
       Some (\<not> disk_image_check_min_block blk NUM_BLOCKS_2000 < 0 \<and> (blk = NUM_BLOCKS_2000 \<or> blk = NUM_BLOCKS_2000 + 25), im))"

definition disk_image_check_for_d4m :: "bin_file \<Rightarrow> disk_image \<Rightarrow> (bool \<times> disk_image) option" where
  "disk_image_check_for_d4m f im =
    (let im = im\<lparr>im_tracks := NUM_TRACKS_2000\<rparr> in
     if \<not> IS_D4M_LEN (util_file_length f) then Some (False, im)
     else let im = set_format DISK_IMAGE_TYPE_D4M NUM_TRACKS_4000 (MAX_TRACKS_4000 * 2) im;
              blk = count_blocks (NUM_BLOCKS_4000 + 51) 0 (f_data f) in
       Some (\<not> disk_image_check_min_block blk NUM_BLOCKS_4000 < 0 \<and> (blk = NUM_BLOCKS_4000 \<or> blk = NUM_BLOCKS_4000 + 50), im))"

section \<open>Opening an image\<close>

fun first_format :: "(bin_file \<Rightarrow> disk_image \<Rightarrow> (bool \<times> disk_image) option) list \<Rightarrow> bin_file \<Rightarrow> disk_image \<Rightarrow> (int \<times> disk_image) option" where
  "first_format [] f im = Some (- 1, im)"
| "first_format (c # cs) f im = do {
     (ok, im) \<leftarrow> c f im;
     if ok then Some (0, im) else first_format cs f im
   }"

definition fsimage_probe :: "p64_code \<Rightarrow> bool \<Rightarrow> disk_image \<Rightarrow> (int \<times> disk_image) option" where
  "fsimage_probe p64 has_p64 im = do {
     f \<leftarrow> fs_fd (im_fs im);
     first_format [disk_image_check_for_d64, disk_image_check_for_d67, disk_image_check_for_d71, disk_image_check_for_d81,
       disk_image_check_for_d80, disk_image_check_for_d82, disk_image_check_for_p64 p64 has_p64, disk_image_check_for_gcr,
       disk_image_check_for_x64, disk_image_check_for_d1m, disk_image_check_for_d2m, disk_image_check_for_d4m] f im
   }"

definition fsimage_close :: "disk_image \<Rightarrow> int \<times> disk_image" where
  "fsimage_close im =
    (if fs_fd (im_fs im) = None then (- 1, im) else (0, im\<lparr>im_fs := (im_fs im)\<lparr>fs_map := None, fs_fd := None\<rparr>\<rparr>))"

text \<open>\<open>file\<close> is what the name leads to: the bytes, and whether they may be written, or None.\<close>

definition fsimage_open :: "p64_code \<Rightarrow> bool \<Rightarrow> (u8 list \<times> bool) option \<Rightarrow> disk_image \<Rightarrow> (int \<times> disk_image) option" where
  "fsimage_open p64 has_p64 file im =
    (let read_only = (im_read_only im \<or> (case file of None \<Rightarrow> True | Some (_, w) \<Rightarrow> \<not> w));
         fd = map_option (\<lambda>(bytes, _). \<lparr>f_data = bytes, f_writable = \<not> read_only\<rparr>) file;
         im = im\<lparr>im_read_only := read_only, im_fs := (im_fs im)\<lparr>fs_map := None, fs_fd := fd\<rparr>\<rparr> in
     if fd = None then Some (- 1, im)
     else do {
       (r, im) \<leftarrow> fsimage_probe p64 has_p64 im;
       if r = 0 then Some (0, im) else Some (- 1, snd (fsimage_close im))
     })"

end
