(* ===== verification/GcrLaws.thy ===== *)
theory GcrLaws
  imports Gcr
begin

unbundle bit_operations_syntax

text \<open>
  The laws of group code recording. Bits: the encoder writes the codes of the nybbles one after the other, and the decoder
  inverts it. Marks: the search for a sync mark finds the first zero after ten ones, and codes and gaps never hold ten ones.
  Tracks: the sectors that the D64 reader lays out are found, one after the other, and give their blocks back.
\<close>

section \<open>Codes\<close>

definition hi_code :: "u8 \<Rightarrow> u8" where "hi_code s = GCR_conv_data ! unat (drop_bit 4 s)"
definition lo_code :: "u8 \<Rightarrow> u8" where "lo_code s = GCR_conv_data ! unat (s AND 0x0f)"

lemma nibble_less: "unat (drop_bit 4 s) < 16" "unat (s AND 0x0f) < 16" for s :: u8
proof -
  show "unat (drop_bit 4 s) < 16" using unsigned_less [of s, where 'a = nat] by (simp add: unsigned_drop_bit_eq drop_bit_eq_div unat_div)
  have "s AND 0x0f \<le> 0x0f" by (rule word_and_le1)
  then show "unat (s AND 0x0f) < 16" by (simp add: word_le_nat_alt)
qed

lemma less_16: "n < 16 \<Longrightarrow> n \<in> {0, 1, 2, 3, 4, 5, 6, 7, 8, 9, 10, 11, 12, 13, 14, 15 :: nat}"
  by (simp add: numeral_eq_Suc less_Suc_eq)

lemma conv_code:
  assumes "n < 16"
  shows "unat (GCR_conv_data ! n) < 32" "From_GCR_conv_data ! unat (GCR_conv_data ! n) = word_of_nat n"
  using less_16 [OF assms] by (auto simp: GCR_conv_data_def From_GCR_conv_data_def)

lemma code_bits:
  assumes "5 \<le> k"
  shows "\<not> bit (hi_code s) k" "\<not> bit (lo_code s) k"
proof -
  have "\<not> bit c k" if "unat c < 32" for c :: u8
  proof -
    have "(2 :: nat) ^ 5 \<le> 2 ^ k" using assms by (rule power_increasing) simp
    then have "unat c < 2 ^ k" using that by simp
    then have "\<not> bit (unat c) k" by (simp add: bit_iff_odd)
    then show ?thesis by (auto simp: bit_unsigned_iff dest: bit_imp_possible_bit)
  qed
  then show "\<not> bit (hi_code s) k" "\<not> bit (lo_code s) k"
    using conv_code(1) nibble_less by (auto simp: hi_code_def lo_code_def)
qed

lemma code_lookup:
  "From_GCR_conv_data ! unat (hi_code s) = drop_bit 4 s" "From_GCR_conv_data ! unat (lo_code s) = s AND 0x0f"
  using conv_code(2) nibble_less [of s] by (simp_all add: hi_code_def lo_code_def)

lemma bit_shift_in:
  "bit (gcr_shift_in t s) k \<longleftrightarrow> k < 32 \<and>
     (if k < 5 then bit (lo_code s) k else if k < 10 then bit (hi_code s) (k - 5) else bit t (k - 10))"
proof -
  have u: "bit (ucast (c :: u8) :: u32) k \<longleftrightarrow> bit c k" for c k
    by (auto simp: bit_unsigned_iff dest: bit_imp_le_length)
  show ?thesis
    unfolding gcr_shift_in_def Let_def hi_code_def [symmetric] lo_code_def [symmetric] bit_or_iff bit_push_bit_iff u
    using code_bits [of k s] code_bits [of "k - 5" s] bit_imp_le_length [of "lo_code s" k]
    by (auto simp: possible_bit_def not_less)
qed

definition byte_bits :: "u8 \<Rightarrow> bool list" where
  "byte_bits b = map (\<lambda>i. bit b (7 - i)) [0..<8]"

definition code_seq :: "u8 \<Rightarrow> bool list" where
  "code_seq s = map (\<lambda>i. bit (hi_code s) (4 - i)) [0..<5] @ map (\<lambda>i. bit (lo_code s) (4 - i)) [0..<5]"

lemma encode_bits:
  "concat (map byte_bits (gcr_convert_4bytes_to_GCR [a, b, c, d])) = concat (map code_seq [a, b, c, d])"
proof -
  have u: "bit (ucast (x :: u32) :: u8) k \<longleftrightarrow> k < 8 \<and> bit x k" for x k
    by (auto simp: bit_unsigned_iff possible_bit_def)
  show ?thesis
    by (simp add: gcr_convert_4bytes_to_GCR_def Let_def byte_bits_def code_seq_def upt_rec bit_shift_in u bit_drop_bit_eq) (simp add: eval_nat_numeral)
qed

text \<open>The five bits the decoder looks at, when they are those of a code.\<close>

lemma lookup_code:
  assumes "\<And>k. k < 5 \<Longrightarrow> bit t (k + 16) = bit c k" "\<And>k. 5 \<le> k \<Longrightarrow> \<not> bit c k"
  shows "gcr_lookup t = From_GCR_conv_data ! unat (c :: u8)"
proof -
  have m: "(0x1f :: u32) = mask 5" by (simp add: mask_eq_exp_minus_1)
  have "drop_bit 16 t AND 0x1f = ucast c"
  proof (rule bit_word_eqI)
    fix k assume "k < LENGTH(32)"
    then have "bit (ucast c :: u32) k = bit c k" by (simp add: bit_unsigned_iff possible_bit_def)
    then show "bit (drop_bit 16 t AND 0x1f) k = bit (ucast c :: u32) k"
      unfolding m bit_and_iff bit_mask_iff bit_drop_bit_eq o_def
      using assms(1) [of k] assms(2) [of k] \<open>k < LENGTH(32)\<close> by (cases "k < 5") (simp_all add: possible_bit_def add.commute)
  qed
  then have "unat (drop_bit 16 t AND 0x1f) = unat c" by (simp add: unsigned_ucast_eq take_bit_nat_eq_self_iff less_trans [OF unsigned_less])
  then show ?thesis by (simp add: gcr_lookup_def)
qed

lemma join_nibbles: "push_bit 4 (drop_bit 4 s) OR (s AND 0x0f) = (s :: u8)"
proof (rule bit_word_eqI)
  fix k assume "k < LENGTH(8)"
  have m: "(0x0f :: u8) = mask 4" by (simp add: mask_eq_exp_minus_1)
  show "bit (push_bit 4 (drop_bit 4 s) OR (s AND 0x0f)) k = bit s k"
    unfolding m bit_or_iff bit_and_iff bit_mask_iff bit_push_bit_iff bit_drop_bit_eq o_def
    by (cases "k < 4") (auto simp: possible_bit_def dest: bit_imp_le_length)
qed

lemma decode_encode: "gcr_convert_GCR_to_4bytes (gcr_convert_4bytes_to_GCR [a, b, c, d]) = [a, b, c, d]"
proof -
  have u: "bit (ucast (x :: u32) :: u8) k \<longleftrightarrow> k < 8 \<and> bit x k" "bit (ucast (y :: u8) :: u32) k \<longleftrightarrow> bit y k" for x y k
    by (auto simp: bit_unsigned_iff possible_bit_def dest: bit_imp_le_length)
  have l: "gcr_lookup t = From_GCR_conv_data ! unat (c :: u8)"
    if "bit t 16 = bit c 0" "bit t 17 = bit c 1" "bit t 18 = bit c 2" "bit t 19 = bit c 3" "bit t 20 = bit c 4"
      "\<And>k. 5 \<le> k \<Longrightarrow> \<not> bit c k" for t c
  proof (rule lookup_code)
    show "bit t (k + 16) = bit c k" if "k < 5" for k
      using that \<open>bit t 16 = bit c 0\<close> \<open>bit t 17 = bit c 1\<close> \<open>bit t 18 = bit c 2\<close> \<open>bit t 19 = bit c 3\<close> \<open>bit t 20 = bit c 4\<close>
      by (auto simp: numeral_eq_Suc less_Suc_eq)
  qed fact
  define s1 where "s1 = gcr_shift_in 0 a"
  define s2 where "s2 = gcr_shift_in s1 b"
  define s3 where "s3 = gcr_shift_in s2 c"
  define s4 where "s4 = gcr_shift_in s3 d"
  have e: "gcr_convert_4bytes_to_GCR [a, b, c, d] =
      [ucast (drop_bit 2 s1), ucast (drop_bit 4 s2), ucast (drop_bit 6 s3), ucast (drop_bit 8 s4), ucast s4]"
    by (simp add: gcr_convert_4bytes_to_GCR_def Let_def s1_def s2_def s3_def s4_def)
  define t1 :: u32 where "t1 = push_bit 13 (ucast (ucast (drop_bit 2 s1) :: u8)) OR push_bit 5 (ucast (ucast (drop_bit 4 s2) :: u8))"
  define t2 where "t2 = push_bit 5 (push_bit 5 t1) OR push_bit 7 (ucast (ucast (drop_bit 6 s3) :: u8))"
  define t3 where "t3 = push_bit 5 (push_bit 5 t2) OR push_bit 9 (ucast (ucast (drop_bit 8 s4) :: u8))"
  define t4 where "t4 = push_bit 5 (push_bit 5 t3) OR push_bit 11 (ucast (ucast s4 :: u8))"
  note bits = t1_def t2_def t3_def t4_def s1_def s2_def s3_def s4_def bit_shift_in code_bits u bit_or_iff bit_push_bit_iff bit_drop_bit_eq
  have r: "gcr_lookup t1 = From_GCR_conv_data ! unat (hi_code a)" "gcr_lookup (push_bit 5 t1) = From_GCR_conv_data ! unat (lo_code a)"
    "gcr_lookup t2 = From_GCR_conv_data ! unat (hi_code b)" "gcr_lookup (push_bit 5 t2) = From_GCR_conv_data ! unat (lo_code b)"
    "gcr_lookup t3 = From_GCR_conv_data ! unat (hi_code c)" "gcr_lookup (push_bit 5 t3) = From_GCR_conv_data ! unat (lo_code c)"
    "gcr_lookup t4 = From_GCR_conv_data ! unat (hi_code d)" "gcr_lookup (push_bit 5 t4) = From_GCR_conv_data ! unat (lo_code d)"
    by (rule l; simp add: bits)+
  have "gcr_convert_GCR_to_4bytes (gcr_convert_4bytes_to_GCR [a, b, c, d]) =
    [push_bit 4 (gcr_lookup t1) OR gcr_lookup (push_bit 5 t1), push_bit 4 (gcr_lookup t2) OR gcr_lookup (push_bit 5 t2),
     push_bit 4 (gcr_lookup t3) OR gcr_lookup (push_bit 5 t3), push_bit 4 (gcr_lookup t4) OR gcr_lookup (push_bit 5 t4)]"
    unfolding e gcr_convert_GCR_to_4bytes_def list.sel gcr_decode.simps Let_def t1_def [symmetric]
    by (simp only: Let_def numeral_plus_numeral add_num_simps t1_def [symmetric] t2_def [symmetric] t3_def [symmetric] t4_def [symmetric])
  then show ?thesis unfolding r code_lookup join_nibbles .
qed

section \<open>Sync marks in a list of bits\<close>

text \<open>The first zero after ten ones, after \<open>r\<close> ones already seen.\<close>

fun sync_scan :: "nat \<Rightarrow> bool list \<Rightarrow> nat option" where
  "sync_scan r [] = None"
| "sync_scan r (b # bs) =
    (if b then map_option Suc (sync_scan (Suc r) bs) else if 10 \<le> r then Some 0 else map_option Suc (sync_scan 0 bs))"

fun quiet :: "nat \<Rightarrow> bool list \<Rightarrow> bool" where
  "quiet r [] \<longleftrightarrow> True"
| "quiet r (b # bs) \<longleftrightarrow> (if b then quiet (Suc r) bs else r < 10 \<and> quiet 0 bs)"

fun ones_after :: "nat \<Rightarrow> bool list \<Rightarrow> nat" where
  "ones_after r [] = r"
| "ones_after r (b # bs) = ones_after (if b then Suc r else 0) bs"

lemma scan_append: "quiet r xs \<Longrightarrow> sync_scan r (xs @ ys) = map_option (\<lambda>k. length xs + k) (sync_scan (ones_after r xs) ys)"
proof (induction r xs rule: quiet.induct)
  case (1 r)
  then show ?case by (simp add: option.map_ident)
next
  case (2 r b bs)
  then show ?case by (auto simp: option.map_comp comp_def split: if_splits)
qed

lemma quiet_append: "quiet r (xs @ ys) \<longleftrightarrow> quiet r xs \<and> quiet (ones_after r xs) ys"
  by (induction r xs rule: quiet.induct) auto

lemma ones_append: "ones_after r (xs @ ys) = ones_after (ones_after r xs) ys"
  by (induction r xs rule: ones_after.induct) auto

text \<open>Stretches that never come near ten ones.\<close>

definition calm :: "bool list \<Rightarrow> bool" where
  "calm xs \<longleftrightarrow> (\<forall>r\<le>4. quiet r xs \<and> ones_after r xs \<le> 4)"

lemma calm_append: "calm xs \<Longrightarrow> calm ys \<Longrightarrow> calm (xs @ ys)"
  by (simp add: calm_def quiet_append ones_append)

lemma calm_concat: "(\<And>xs. xs \<in> set xss \<Longrightarrow> calm xs) \<Longrightarrow> calm (concat xss)"
  by (induction xss) (simp_all add: calm_append, simp add: calm_def)

lemma calm_code: "n < 16 \<Longrightarrow> calm (map (\<lambda>i. bit (GCR_conv_data ! n) (4 - i)) [0..<5])"
  by (drule less_16) (auto simp: calm_def GCR_conv_data_def upt_rec bit_numeral_rec)

lemma calm_code_seq: "calm (code_seq s)"
  unfolding code_seq_def hi_code_def lo_code_def by (intro calm_append calm_code nibble_less)

lemma calm_gap: "calm (byte_bits 0x55)"
  by (simp add: calm_def byte_bits_def upt_rec)

lemma ones_sync: "quiet r (replicate n True)" "ones_after r (replicate n True) = r + n"
  by (induction n arbitrary: r) simp_all

lemma sync_bits: "byte_bits 0xff = replicate 8 True"
  by (simp add: byte_bits_def upt_rec numeral_eq_Suc)

text \<open>A calm stretch, a sync mark, and a zero.\<close>

lemma scan_mark:
  assumes "calm xs" "r \<le> 4" "10 \<le> n"
  shows "sync_scan r (xs @ replicate n True @ False # ys) = Some (length xs + n)"
proof -
  have "sync_scan r' (replicate n True @ False # ys) = Some n" for r'
    using assms(3) by (simp add: scan_append ones_sync)
  then show ?thesis using assms(1,2) by (simp add: scan_append calm_def)
qed

section \<open>The search for a sync mark\<close>

abbreviation track_bits :: "u8 list \<Rightarrow> bool list" where "track_bits d \<equiv> concat (map byte_bits d)"

lemma length_byte_bits [simp]: "length (byte_bits b) = 8"
  by (simp add: byte_bits_def)

lemma length_track_bits [simp]: "length (track_bits d) = 8 * length d"
  by (induction d) simp_all

lemma nth_track_bits: "k < 8 * length d \<Longrightarrow> track_bits d ! k = bit (d ! (k div 8)) (7 - k mod 8)"
proof (induction d arbitrary: k)
  case (Cons b d)
  show ?case
  proof (cases "k < 8")
    case True
    then show ?thesis by (simp add: nth_append) (simp add: byte_bits_def)
  next
    case False
    then obtain j where "k = j + 8" by (metis add.commute le_add_diff_inverse not_less)
    moreover have "(j + 8) div 8 = Suc (j div 8)" by simp
    ultimately show ?thesis using Cons by (simp add: nth_append del: div_add_self2)
  qed
qed simp

definition last_ones :: "nat \<Rightarrow> u32 \<Rightarrow> bool" where
  "last_ones r w \<longleftrightarrow> (\<forall>i<10. (i < r \<longrightarrow> bit w i) \<and> (i = r \<longrightarrow> \<not> bit w i))"

lemma bit_shl: "bit (push_bit 1 b) k \<longleftrightarrow> 0 < k \<and> k < 32 \<and> bit b (k - 1)" for b :: u32
  unfolding bit_push_bit_iff by (auto simp: possible_bit_def dest: bit_imp_le_length)

lemma last_ones_step:
  assumes "last_ones r w"
  shows "last_ones (Suc r) (push_bit 1 w OR 1)" "last_ones 0 (push_bit 1 w)"
proof -
  show "last_ones (Suc r) (push_bit 1 w OR 1)"
    unfolding last_ones_def
  proof (intro allI impI conjI)
    fix i :: nat assume "i < 10"
    have b: "bit (push_bit 1 w OR 1) i \<longleftrightarrow> (if i = 0 then True else bit w (i - 1))"
      using \<open>i < 10\<close> by (cases i) (simp_all add: bit_or_iff bit_push_bit_iff bit_1_iff possible_bit_def del: push_bit_of_1 push_bit_Suc)
    show "bit (push_bit 1 w OR 1) i" if "i < Suc r"
      using that assms \<open>i < 10\<close> unfolding b last_ones_def by (cases i) auto
    show "\<not> bit (push_bit 1 w OR 1) i" if "i = Suc r"
      using that assms \<open>i < 10\<close> unfolding b last_ones_def by (metis One_nat_def Suc_lessD diff_Suc_1 nat.distinct(1))
  qed
  show "last_ones 0 (push_bit 1 w)"
    unfolding last_ones_def bit_shl by simp
qed

lemma last_ones_sync: 
  assumes "last_ones r w"
  shows "NOT w AND 0x3ff = 0 \<longleftrightarrow> 10 \<le> r"
proof -
  have m: "(0x3ff :: u32) = mask 10" by (simp add: mask_eq_exp_minus_1)
  have "NOT w AND 0x3ff = 0 \<longleftrightarrow> (\<forall>i<10. bit w i)"
  proof
    assume "NOT w AND 0x3ff = 0"
    then have z: "\<not> bit (NOT w AND 0x3ff) i" for i by simp
    have "bit w i" if "i < 10" for i
      using z [of i] that unfolding m bit_and_iff bit_not_iff bit_mask_iff by (simp add: possible_bit_def)
    then show "\<forall>i<10. bit w i" by simp
  next
    assume *: "\<forall>i<10. bit w i"
    show "NOT w AND 0x3ff = 0"
    proof (rule bit_word_eqI)
      fix i assume "i < LENGTH(32)"
      show "bit (NOT w AND 0x3ff) i = bit (0 :: u32) i" unfolding m bit_and_iff bit_not_iff bit_mask_iff using * by (auto simp: possible_bit_def)
    qed
  qed
  also have "\<dots> \<longleftrightarrow> 10 \<le> r" 
  proof
    assume "\<forall>i<10. bit w i"
    then show "10 \<le> r" using assms unfolding last_ones_def by (cases "r < 10") auto
  next
    assume "10 \<le> r"
    then show "\<forall>i<10. bit w i" using assms unfolding last_ones_def by simp
  qed
  finally show ?thesis .
qed

lemma top_bit: "truth (b AND 0x80) \<longleftrightarrow> bit b 7" for b :: u32
proof -
  have m: "(0x80 :: u32) = push_bit 7 1" by simp
  have "bit (b AND 0x80) i \<longleftrightarrow> bit b 7 \<and> i = 7" for i
    unfolding m bit_and_iff bit_push_bit_iff bit_1_iff possible_bit_def by auto
  then show ?thesis by (metis bit_0_eq bot_apply bot_bool_def bit_eqI)
qed

text \<open>Without a wrap at the end of the track the loop finds the mark where the scan of the bits does.\<close>

lemma sync_loop_scan:
  assumes "trk_data raw = Some d" "trk_size raw = length d"
  shows "sync_scan r (drop k (track_bits d)) = Some n \<Longrightarrow> n < s \<Longrightarrow> last_ones r w \<Longrightarrow>
    (\<And>i. i < 8 - k mod 8 \<Longrightarrow> bit b (7 - i) = track_bits d ! (k + i)) \<Longrightarrow>
    gcr_sync_loop raw (int k) w b s = Some (int (k + n))"
proof (induction s arbitrary: r k n w b)
  case (Suc s)
  let ?B = "track_bits d"
  have k: "k < length ?B" using Suc.prems(1) by (cases "k < length ?B") simp_all
  have d: "drop k ?B = ?B ! k # drop (Suc k) ?B" by (rule Cons_nth_drop_Suc [OF k, symmetric])
  have b: "truth (b AND 0x80) \<longleftrightarrow> ?B ! k"
    using Suc.prems(4) [of 0] by (simp add: top_bit)
  let ?r = "if ?B ! k then Suc r else 0"
  let ?w = "if ?B ! k then push_bit 1 w OR 1 else push_bit 1 w"
  have w: "last_ones ?r ?w" using last_ones_step [OF Suc.prems(3)] by simp
  show ?case
  proof (cases "\<not> ?B ! k \<and> 10 \<le> r")
    case True
    then show ?thesis using Suc.prems(1) by (simp only: d gcr_sync_loop.simps b last_ones_sync [OF Suc.prems(3)]) simp
  next
    case False
    then obtain n' where n': "sync_scan ?r (drop (Suc k) ?B) = Some n'" "n = Suc n'"
      using Suc.prems(1) unfolding d by (auto split: if_splits)
    have k': "Suc k < length ?B" using n'(1) by (cases "Suc k < length ?B") (simp_all split: if_splits)
    have "n' < s" using n'(2) Suc.prems(2) by simp
    note IH = Suc.IH [OF n'(1) \<open>n' < s\<close> w]
    have pos: "int k mod 8 \<noteq> 7 \<longleftrightarrow> k mod 8 \<noteq> 7" by (metis of_nat_eq_iff of_nat_numeral zmod_int)
    have step: "gcr_sync_loop raw (int k) w b (Suc s) =
      (if k mod 8 \<noteq> 7 then gcr_sync_loop raw (int (Suc k)) ?w (push_bit 1 b) s
       else gcr_sync_loop raw (int (Suc k)) ?w (ucast (d ! (Suc k div 8))) s)"
    proof -
      have "raw_byte raw (int (Suc k) div 8) = Some (d ! (Suc k div 8))"
        using k' assms(1) by (simp add: raw_byte_def zdiv_int [symmetric] flip: of_nat_Suc)
          (metis arr_get_int less_mult_imp_div_less mult.commute of_nat_numeral zdiv_int)
      moreover have "\<not> int (Suc k) \<ge> int (trk_size raw * 8)" using k' assms(2) by simp
      ultimately show ?thesis using False
        by (simp only: gcr_sync_loop.simps b last_ones_sync [OF Suc.prems(3)] pos Let_def) (auto simp: add.commute)
    qed
    show ?thesis
    proof (cases "k mod 8 = 7")
      case True
      have "gcr_sync_loop raw (int (Suc k)) ?w (ucast (d ! (Suc k div 8))) s = Some (int (Suc k + n'))"
      proof (rule IH)
        fix i assume i: "i < 8 - Suc k mod 8"
        have "Suc k mod 8 = 0" using True by presburger
        then have "i < 8" using i by simp
        have "(Suc k + i) div 8 = Suc k div 8" "(Suc k + i) mod 8 = i"
          using div_add1_eq [of "Suc k" i 8] mod_add_eq [of "Suc k" 8 i] \<open>Suc k mod 8 = 0\<close> \<open>i < 8\<close> by (simp_all del: add_Suc)
        moreover have "Suc k + i < 8 * length d"
        proof -
          have "Suc k div 8 < length d" using k' by (simp add: less_mult_imp_div_less mult.commute)
          then have "8 * (Suc k div 8) + 8 \<le> 8 * length d" by simp
          moreover have "8 * (Suc k div 8) = Suc k" using \<open>Suc k mod 8 = 0\<close> by (metis add_0_right mult_div_mod_eq)
          ultimately show ?thesis using \<open>i < 8\<close> by linarith
        qed
        ultimately show "bit (ucast (d ! (Suc k div 8)) :: u32) (7 - i) = ?B ! (Suc k + i)"
          by (simp add: nth_track_bits bit_unsigned_iff possible_bit_def less_imp_diff_less)
      qed
      then show ?thesis unfolding step using True n'(2) by simp
    next
      case False
      have "gcr_sync_loop raw (int (Suc k)) ?w (push_bit 1 b) s = Some (int (Suc k + n'))"
      proof (rule IH)
        fix i assume i: "i < 8 - Suc k mod 8"
        have "Suc k mod 8 = Suc (k mod 8)" using False by presburger
        then have "Suc i < 8 - k mod 8" using i by simp
        then show "bit (push_bit 1 b) (7 - i) = ?B ! (Suc k + i)"
          using Suc.prems(4) [of "Suc i"] unfolding bit_shl by (simp add: less_imp_diff_less) linarith
      qed
      then show ?thesis unfolding step using False n'(2) by simp
    qed
  qed
qed simp

lemma find_sync_scan:
  assumes raw: "trk_data raw = Some d" "trk_size raw = length d"
    and scan: "sync_scan 0 (drop k (track_bits d)) = Some n" and "n < s"
  shows "gcr_find_sync raw (int k) s = Some (int (k + n))"
proof -
  have k: "k < 8 * length d" using scan by (cases "k < 8 * length d") simp_all
  then have k8: "k div 8 < length d" by (simp add: less_mult_imp_div_less mult.commute)
  have byte: "raw_byte raw (int k div 8) = Some (d ! (k div 8))"
    using k8 raw(1) by (simp add: raw_byte_def) (metis arr_get_int of_nat_numeral zdiv_int)
  have "gcr_sync_loop raw (int k) 0 (push_bit (k mod 8) (ucast (d ! (k div 8)))) s = Some (int (k + n))"
  proof (rule sync_loop_scan [OF raw scan \<open>n < s\<close>])
    show "last_ones 0 0" by (simp add: last_ones_def)
    fix i assume i: "i < 8 - k mod 8"
    have "k + i = 8 * (k div 8) + (k mod 8 + i)" by simp
    then have p: "(k + i) div 8 = k div 8" "(k + i) mod 8 = k mod 8 + i"
      using i by (metis add.commute div_mult_self4 zero_neq_numeral div_less add_0 less_diff_conv, metis mod_mult_self4 mod_less less_diff_conv add.commute)
    have "k + i < 8 * length d"
    proof -
      have "(k + i) div 8 < length d" using p(1) k8 by simp
      then show ?thesis by (simp add: div_less_iff_less_mult mult.commute)
    qed
    then have "track_bits d ! (k + i) = bit (d ! (k div 8)) (7 - (k mod 8 + i))"
      unfolding nth_track_bits [OF \<open>k + i < 8 * length d\<close>] p by simp
    moreover have "k mod 8 \<le> 7 - i" "7 - i < 32" using i by linarith+
    moreover have "7 - (k mod 8 + i) = 7 - i - k mod 8" by simp
    ultimately show "bit (push_bit (k mod 8) (ucast (d ! (k div 8))) :: u32) (7 - i) = track_bits d ! (k + i)"
      unfolding bit_push_bit_iff bit_unsigned_iff possible_bit_def by (simp add: not_le less_imp_diff_less)
  qed
  moreover have "nat (int k mod 8) = k mod 8" by (metis nat_int of_nat_numeral zmod_int)
  moreover have "d \<noteq> []" using k8 by auto
  ultimately show ?thesis using raw by (simp add: gcr_find_sync_def byte)
qed

section \<open>Groups of four bytes on a track\<close>

fun encode_groups :: "u8 list \<Rightarrow> u8 list" where
  "encode_groups (a # b # c # d # xs) = gcr_convert_4bytes_to_GCR [a, b, c, d] @ encode_groups xs"
| "encode_groups xs = []"

lemma length_encode4 [simp]: "length (gcr_convert_4bytes_to_GCR [a, b, c, d]) = 5"
  by (simp add: gcr_convert_4bytes_to_GCR_def Let_def)

lemma four_more:
  assumes "length xs = 4 * Suc n"
  obtains a b c d ys where "xs = a # b # c # d # ys" "length ys = 4 * n"
proof -
  have "length xs = Suc (Suc (Suc (Suc (4 * n))))" using assms by simp
  then show thesis using that by (auto simp: length_Suc_conv)
qed

lemma length_encode_groups: "length xs = 4 * n \<Longrightarrow> length (encode_groups xs) = 5 * n"
proof (induction n arbitrary: xs)
  case (Suc n)
  then show ?case by (elim four_more) simp
qed simp

lemma encode_groups_bits: "length xs = 4 * n \<Longrightarrow> track_bits (encode_groups xs) = concat (map code_seq xs)"
proof (induction n arbitrary: xs)
  case (Suc n)
  then show ?case using encode_bits by (elim four_more) simp
qed simp

lemma encode_groups_append: "length xs = 4 * n \<Longrightarrow> encode_groups (xs @ ys) = encode_groups xs @ encode_groups ys"
proof (induction n arbitrary: xs)
  case (Suc n)
  then show ?case by (elim four_more) simp
qed simp

lemma drop_track_bits: "drop (8 * k) (track_bits d) = track_bits (drop k d)"
proof (induction k arbitrary: d)
  case (Suc k)
  then show ?case by (cases d) simp_all
qed simp

text \<open>Reading bytes at a byte boundary.\<close>

lemma next_bytes_aligned:
  assumes raw: "trk_data raw = Some d" "trk_size raw = length d" and "j < length d"
  shows "j + n \<le> length d \<Longrightarrow> \<exists>j'. (j + n < length d \<longrightarrow> j' = j + n) \<and> j' < length d \<and>
    gcr_next_bytes raw 0 n (int j, d ! j) = Some (take n (drop j d), int j', d ! j')"
  using \<open>j < length d\<close>
proof (induction n arbitrary: j)
  case 0
  then show ?case by simp
next
  case (Suc n)
  let ?j = "if j + 1 \<ge> length d then 0 else j + 1"
  have j: "?j < length d" using Suc.prems by (cases d) auto
  have "(if int j + 1 \<ge> int (trk_size raw) then 0 else int j + 1) = int ?j" using raw by simp
  then have step: "gcr_next_byte raw 0 (int j, d ! j) = Some (d ! j, int ?j, d ! ?j)"
    using j raw by (simp add: gcr_next_byte_def raw_byte_def Let_def del: of_nat_Suc split del: if_split)
  have tk: "take (Suc n) (drop j d) = d ! j # take n (drop (Suc j) d)"
    using Suc.prems(2) by (simp add: Cons_nth_drop_Suc [symmetric])
  show ?case
  proof (cases "n = 0")
    case True
    then show ?thesis using j tk by (intro exI [of _ ?j]) (simp add: step)
  next
    case False
    then have jj: "?j = Suc j" "Suc j + n \<le> length d" "Suc j < length d" using Suc.prems by auto
    obtain j' where "(Suc j + n < length d \<longrightarrow> j' = Suc j + n) \<and> j' < length d \<and>
      gcr_next_bytes raw 0 n (int (Suc j), d ! Suc j) = Some (take n (drop (Suc j) d), int j', d ! j')"
      using Suc.IH [OF jj(2,3)] by blast
    then show ?thesis by (intro exI [of _ j']) (simp add: step [unfolded jj(1)] tk del: of_nat_Suc)
  qed
qed

lemma decode_groups:
  assumes raw: "trk_data raw = Some d" "trk_size raw = length d"
  shows "length xs = 4 * n \<Longrightarrow> j < length d \<Longrightarrow> drop j d = encode_groups xs @ rest \<Longrightarrow>
    gcr_decode_blocks raw 0 n (int j, d ! j) = Some xs"
proof (induction n arbitrary: xs j)
  case (Suc m)
  obtain a b c e ys where xs: "xs = a # b # c # e # ys" "length ys = 4 * m" by (rule four_more [OF Suc.prems(1)])
  have dj: "drop j d = gcr_convert_4bytes_to_GCR [a, b, c, e] @ encode_groups ys @ rest" using Suc.prems(3) xs(1) by simp
  have len: "length (drop j d) = 5 + length (encode_groups ys @ rest)" unfolding dj by simp
  then have "j + 5 \<le> length d" by simp
  then obtain j' where j': "j + 5 < length d \<longrightarrow> j' = j + 5" "j' < length d"
    "gcr_next_bytes raw 0 5 (int j, d ! j) = Some (take 5 (drop j d), int j', d ! j')"
    using next_bytes_aligned [OF raw Suc.prems(2)] by blast
  have g: "take 5 (drop j d) = gcr_convert_4bytes_to_GCR [a, b, c, e]" unfolding dj by simp
  have r: "drop (j + 5) d = encode_groups ys @ rest"
  proof -
    have "drop 5 (drop j d) = encode_groups ys @ rest" unfolding dj by simp
    then show ?thesis by (simp add: add.commute)
  qed
  show ?case
  proof (cases "m = 0")
    case True
    then show ?thesis using xs by (simp add: j'(3) g decode_encode)
  next
    case False
    then have "encode_groups ys \<noteq> []" using length_encode_groups [OF xs(2)] by auto
    then have "j + 5 < length d" using len by (cases "encode_groups ys") simp_all
    then have "j' = j + 5" using j'(1) by simp
    then show ?thesis using Suc.IH [OF xs(2) j'(2)] r by (simp add: xs(1) j'(3) g decode_encode)
  qed
qed simp

lemma decode_block_groups:
  assumes raw: "trk_data raw = Some d" "trk_size raw = length d"
    and "length xs = 4 * n" "j < length d" "drop j d = encode_groups xs @ rest"
  shows "gcr_decode_block raw (int (8 * j)) n = Some xs"
  using decode_groups [OF assms] assms by (simp add: gcr_decode_block_def raw_byte_def)

section \<open>A track of sectors\<close>

definition sector_bytes :: "nat \<Rightarrow> u8 list \<times> u8 list \<Rightarrow> u8 list" where
  "sector_bytes gap s = replicate 5 0xff @ encode_groups (fst s) @ replicate 9 0x55 @ replicate 5 0xff @
     encode_groups (snd s) @ replicate gap 0x55"

definition sector_ok :: "u8 list \<times> u8 list \<Rightarrow> bool" where
  "sector_ok s \<longleftrightarrow> length (fst s) = 8 \<and> length (snd s) = 260 \<and> fst s ! 0 = 0x08 \<and> snd s ! 0 \<in> {0, 0x07}"

definition sector_track :: "nat \<Rightarrow> (u8 list \<times> u8 list) list \<Rightarrow> u8 list \<Rightarrow> u8 list" where
  "sector_track gap ss rest = concat (map (sector_bytes gap) ss) @ rest"

lemma length_sector_bytes: "sector_ok s \<Longrightarrow> length (sector_bytes gap s) = 354 + gap"
  using length_encode_groups [of "fst s" 2] length_encode_groups [of "snd s" 65] by (simp add: sector_ok_def sector_bytes_def)

lemma drop_sectors:
  assumes "\<forall>s\<in>set ss. sector_ok s"
  shows "i \<le> length ss \<Longrightarrow> drop (i * (354 + gap)) (sector_track gap ss rest) = sector_track gap (drop i ss) rest"
  using assms
proof (induction ss arbitrary: i)
  case (Cons s ss)
  show ?case
  proof (cases i)
    case (Suc j)
    have "drop (i * (354 + gap)) (sector_track gap (s # ss) rest) = drop (j * (354 + gap)) (sector_track gap ss rest)"
      using Cons.prems length_sector_bytes [of s gap] by (simp add: Suc sector_track_def)
    then show ?thesis using Cons Suc by simp
  qed simp
qed simp

lemma drop_sector:
  assumes "\<forall>s\<in>set ss. sector_ok s" "i < length ss"
  shows "drop (i * (354 + gap)) (sector_track gap ss rest) = sector_bytes gap (ss ! i) @ sector_track gap (drop (Suc i) ss) rest"
  using drop_sectors [OF assms(1), of i] assms(2) by (simp add: Cons_nth_drop_Suc [symmetric] sector_track_def)

text \<open>Bits of a block start with a zero.\<close>

lemma block_start:
  assumes "length xs = 4 * Suc n" "xs ! 0 \<in> {0, 0x07, 0x08}"
  shows "\<exists>ys. track_bits (encode_groups xs) = False # ys"
proof -
  obtain a as where xs: "xs = a # as" using assms(1) by (cases xs) simp_all
  have "\<exists>ys. code_seq a = False # ys"
    using assms(2) by (auto simp: xs code_seq_def hi_code_def GCR_conv_data_def upt_rec bit_numeral_rec)
  then show ?thesis using encode_groups_bits [OF assms(1)] by (auto simp: xs)
qed

lemma calm_groups: "length xs = 4 * n \<Longrightarrow> calm (track_bits (encode_groups xs))"
  by (simp add: encode_groups_bits) (rule calm_concat, auto simp: calm_code_seq)

lemma calm_gaps: "calm (track_bits (replicate n 0x55))"
  by (rule calm_concat) (simp add: calm_gap)

lemma sync_marks: "track_bits (replicate n 0xff) = replicate (8 * n) True"
proof (induction n)
  case (Suc n)
  have "replicate (8 * Suc n) True = replicate 8 True @ replicate (8 * n) True" by (simp flip: replicate_add)
  then show ?case using Suc by (simp only: replicate_Suc list.map concat.simps sync_bits)
qed simp

lemma scan_to_block:
  assumes "length xs = 4 * Suc n" "xs ! 0 \<in> {0, 0x07, 0x08}" "calm (track_bits pre)" "drop k d = pre @ replicate 5 0xff @ encode_groups xs @ rest"
  shows "sync_scan 0 (drop (8 * k) (track_bits d)) = Some (8 * length pre + 40)"
proof -
  obtain ys where ys: "track_bits (encode_groups xs) = False # ys" using block_start [OF assms(1,2)] ..
  have "drop (8 * k) (track_bits d) = track_bits pre @ replicate 40 True @ False # ys @ track_bits rest"
    unfolding drop_track_bits assms(4) by (simp add: ys sync_marks [of 5, simplified])
  then show ?thesis using scan_mark [OF assms(3), of 0 40 "ys @ track_bits rest"] by simp
qed

definition header_bit :: "nat \<Rightarrow> nat \<Rightarrow> nat" where "header_bit gap i = 8 * (i * (354 + gap) + 5)"
definition data_bit :: "nat \<Rightarrow> nat \<Rightarrow> nat" where "data_bit gap i = 8 * (i * (354 + gap) + 29)"

lemma drop_in_sector:
  assumes "\<forall>s\<in>set ss. sector_ok s" "i < length ss"
  shows "drop (i * (354 + gap)) (sector_track gap ss rest) =
      replicate 5 0xff @ encode_groups (fst (ss ! i)) @ replicate 9 0x55 @ replicate 5 0xff @ encode_groups (snd (ss ! i)) @
      replicate gap 0x55 @ sector_track gap (drop (Suc i) ss) rest"
    "drop (i * (354 + gap) + 5) (sector_track gap ss rest) =
      encode_groups (fst (ss ! i)) @ replicate 9 0x55 @ replicate 5 0xff @ encode_groups (snd (ss ! i)) @
      replicate gap 0x55 @ sector_track gap (drop (Suc i) ss) rest"
    "drop (i * (354 + gap) + 29) (sector_track gap ss rest) =
      encode_groups (snd (ss ! i)) @ replicate gap 0x55 @ sector_track gap (drop (Suc i) ss) rest"
proof -
  have ok: "sector_ok (ss ! i)" using assms by simp
  note d = drop_sector [OF assms, of gap rest]
  show "drop (i * (354 + gap)) (sector_track gap ss rest) =
      replicate 5 0xff @ encode_groups (fst (ss ! i)) @ replicate 9 0x55 @ replicate 5 0xff @ encode_groups (snd (ss ! i)) @
      replicate gap 0x55 @ sector_track gap (drop (Suc i) ss) rest"
    by (simp add: d sector_bytes_def)
  have p: "drop (i * (354 + gap) + n) (sector_track gap ss rest) = drop n (drop (i * (354 + gap)) (sector_track gap ss rest))" for n
    by (simp add: add.commute)
  have l: "length (encode_groups (fst (ss ! i))) = 10" using length_encode_groups [of "fst (ss ! i)" 2] ok by (simp add: sector_ok_def)
  show "drop (i * (354 + gap) + 5) (sector_track gap ss rest) =
      encode_groups (fst (ss ! i)) @ replicate 9 0x55 @ replicate 5 0xff @ encode_groups (snd (ss ! i)) @
      replicate gap 0x55 @ sector_track gap (drop (Suc i) ss) rest"
    unfolding p d sector_bytes_def by simp
  show "drop (i * (354 + gap) + 29) (sector_track gap ss rest) =
      encode_groups (snd (ss ! i)) @ replicate gap 0x55 @ sector_track gap (drop (Suc i) ss) rest"
    unfolding p d sector_bytes_def by (simp add: l)
qed

lemma scan_bound: "sync_scan r xs = Some n \<Longrightarrow> n < length xs"
  by (induction r xs arbitrary: n rule: sync_scan.induct) (auto split: if_splits)

definition holds_sectors :: "disk_track \<Rightarrow> nat \<Rightarrow> (u8 list \<times> u8 list) list \<Rightarrow> u8 list \<Rightarrow> bool" where
  "holds_sectors raw gap ss rest \<longleftrightarrow> (let d = sector_track gap ss rest in
     trk_data raw = Some d \<and> trk_size raw = length d \<and> (\<forall>s\<in>set ss. sector_ok s))"

lemma first_header:
  assumes holds: "holds_sectors raw gap ss rest" and in_range: "ss \<noteq> []"
  shows "gcr_find_sync raw 0 (trk_size raw * 8) = Some (int (header_bit gap 0))"
proof -
  define d where "d = sector_track gap ss rest"
  have raw: "trk_data raw = Some d" "trk_size raw = length d" and ok: "\<forall>s\<in>set ss. sector_ok s"
    using holds by (simp_all add: holds_sectors_def d_def Let_def)
  have "sync_scan 0 (drop (8 * 0) (track_bits d)) = Some (8 * length ([] :: u8 list) + 40)"
    using ok in_range drop_in_sector(1) [OF ok, of 0 gap rest]
    by (intro scan_to_block [where xs = "fst (ss ! 0)" and n = 1]) (simp_all add: d_def sector_ok_def calm_def)
  then have s: "sync_scan 0 (drop 0 (track_bits d)) = Some 40" by simp
  show ?thesis using find_sync_scan [OF raw s, of "trk_size raw * 8"] scan_bound [OF s] by (simp add: raw header_bit_def)
qed

lemma header_to_data:
  assumes holds: "holds_sectors raw gap ss rest" and in_range: "i < length ss" and room: "232 < s"
  shows "gcr_find_sync raw (int (header_bit gap i)) s = Some (int (data_bit gap i))"
proof -
  define d where "d = sector_track gap ss rest"
  have raw: "trk_data raw = Some d" "trk_size raw = length d" and ok: "\<forall>s\<in>set ss. sector_ok s"
    using holds by (simp_all add: holds_sectors_def d_def Let_def)
  have o: "sector_ok (ss ! i)" using ok in_range by simp
  let ?pre = "encode_groups (fst (ss ! i)) @ replicate 9 0x55"
  have l: "length ?pre = 19" using length_encode_groups [of "fst (ss ! i)" 2] o by (simp add: sector_ok_def)
  have c: "calm (track_bits ?pre)"
    using calm_groups [of "fst (ss ! i)" 2] calm_gaps [of 9] o by (simp add: sector_ok_def calm_append)
  have "sync_scan 0 (drop (header_bit gap i) (track_bits d)) = Some (8 * length ?pre + 40)"
    unfolding header_bit_def using drop_in_sector(2) [OF ok in_range, of gap rest] o c
    by (intro scan_to_block [where xs = "snd (ss ! i)" and n = 64]) (auto simp: d_def sector_ok_def)
  then have "sync_scan 0 (drop (header_bit gap i) (track_bits d)) = Some (8 * 19 + 40)" by (simp only: l)
  then have s: "sync_scan 0 (drop (header_bit gap i) (track_bits d)) = Some 192" by simp
  show ?thesis using find_sync_scan [OF raw s, of s] room by (simp add: header_bit_def data_bit_def)
qed

lemma data_to_header:
  assumes holds: "holds_sectors raw gap ss rest" and in_range: "Suc i < length ss"
  shows "gcr_find_sync raw (int (data_bit gap i)) (trk_size raw * 8) = Some (int (header_bit gap (Suc i)))"
proof -
  define d where "d = sector_track gap ss rest"
  have raw: "trk_data raw = Some d" "trk_size raw = length d" and ok: "\<forall>s\<in>set ss. sector_ok s"
    using holds by (simp_all add: holds_sectors_def d_def Let_def)
  have o: "sector_ok (ss ! i)" "sector_ok (ss ! Suc i)" using ok in_range by simp_all
  let ?pre = "encode_groups (snd (ss ! i)) @ replicate gap 0x55"
  have l: "length ?pre = 325 + gap" using length_encode_groups [of "snd (ss ! i)" 65] o by (simp add: sector_ok_def)
  have c: "calm (track_bits ?pre)"
    using calm_groups [of "snd (ss ! i)" 65] calm_gaps [of gap] o by (simp add: sector_ok_def calm_append)
  have "sector_track gap (drop (Suc i) ss) rest = sector_bytes gap (ss ! Suc i) @ sector_track gap (drop (Suc (Suc i)) ss) rest"
    using in_range by (simp add: Cons_nth_drop_Suc [symmetric] sector_track_def)
  then have "drop (i * (354 + gap) + 29) d = ?pre @ replicate 5 0xff @ encode_groups (fst (ss ! Suc i)) @
      (replicate 9 0x55 @ replicate 5 0xff @ encode_groups (snd (ss ! Suc i)) @ replicate gap 0x55 @
       sector_track gap (drop (Suc (Suc i)) ss) rest)"
    using drop_in_sector(3) [OF ok, of i gap rest] in_range by (simp add: d_def sector_bytes_def)
  then have "sync_scan 0 (drop (data_bit gap i) (track_bits d)) = Some (8 * length ?pre + 40)"
    unfolding data_bit_def using o c by (intro scan_to_block [where xs = "fst (ss ! Suc i)" and n = 1]) (auto simp: sector_ok_def)
  then have s: "sync_scan 0 (drop (data_bit gap i) (track_bits d)) = Some (8 * (325 + gap) + 40)" by (simp only: l)
  have "8 * (325 + gap) + 40 < trk_size raw * 8" using scan_bound [OF s] raw by simp
  from find_sync_scan [OF raw s this] show ?thesis by (simp add: header_bit_def data_bit_def algebra_simps)
qed

lemma decode_header:
  assumes holds: "holds_sectors raw gap ss rest" and in_range: "i < length ss"
  shows "\<exists>h. gcr_decode_block raw (int (header_bit gap i)) 1 = Some h \<and> h ! 0 = 0x08 \<and> h ! 2 = fst (ss ! i) ! 2"
proof -
  define d where "d = sector_track gap ss rest"
  have raw: "trk_data raw = Some d" "trk_size raw = length d" and ok: "\<forall>s\<in>set ss. sector_ok s"
    using holds by (simp_all add: holds_sectors_def d_def Let_def)
  have o: "sector_ok (ss ! i)" using ok in_range by simp
  then have l: "length (take 4 (fst (ss ! i))) = 4 * 1" by (simp add: sector_ok_def)
  have "encode_groups (fst (ss ! i)) = encode_groups (take 4 (fst (ss ! i))) @ encode_groups (drop 4 (fst (ss ! i)))"
    using encode_groups_append [OF l, of "drop 4 (fst (ss ! i))"] by simp
  then have dr: "drop (i * (354 + gap) + 5) d = encode_groups (take 4 (fst (ss ! i))) @
     (encode_groups (drop 4 (fst (ss ! i))) @ replicate 9 0x55 @ replicate 5 0xff @ encode_groups (snd (ss ! i)) @
      replicate gap 0x55 @ sector_track gap (drop (Suc i) ss) rest)"
    using drop_in_sector(2) [OF ok in_range, of gap rest] by (simp add: d_def)
  have "drop (i * (354 + gap) + 5) d \<noteq> []" unfolding dr using length_encode_groups [OF l] by auto
  then have "i * (354 + gap) + 5 < length d" by simp
  from decode_block_groups [OF raw l this dr]
  show ?thesis using o by (intro exI [of _ "take 4 (fst (ss ! i))"]) (simp add: header_bit_def sector_ok_def)
qed

lemma decode_data:
  assumes holds: "holds_sectors raw gap ss rest" and in_range: "i < length ss"
  shows "gcr_decode_block raw (int (data_bit gap i)) 65 = Some (snd (ss ! i))"
    "\<exists>h. gcr_decode_block raw (int (data_bit gap i)) 1 = Some h \<and> h ! 0 \<noteq> 0x08"
proof -
  define d where "d = sector_track gap ss rest"
  have raw: "trk_data raw = Some d" "trk_size raw = length d" and ok: "\<forall>s\<in>set ss. sector_ok s"
    using holds by (simp_all add: holds_sectors_def d_def Let_def)
  have o: "sector_ok (ss ! i)" using ok in_range by simp
  have l: "length (snd (ss ! i)) = 4 * 65" "length (take 4 (snd (ss ! i))) = 4 * 1" using o by (simp_all add: sector_ok_def)
  have dr: "drop (i * (354 + gap) + 29) d = encode_groups (snd (ss ! i)) @ replicate gap 0x55 @ sector_track gap (drop (Suc i) ss) rest"
    using drop_in_sector(3) [OF ok in_range, of gap rest] by (simp add: d_def)
  have "drop (i * (354 + gap) + 29) d \<noteq> []" unfolding dr using length_encode_groups [OF l(1)] by auto
  then have len: "i * (354 + gap) + 29 < length d" by simp
  show "gcr_decode_block raw (int (data_bit gap i)) 65 = Some (snd (ss ! i))"
    unfolding data_bit_def by (rule decode_block_groups [OF raw l(1) len dr])
  have "encode_groups (snd (ss ! i)) = encode_groups (take 4 (snd (ss ! i))) @ encode_groups (drop 4 (snd (ss ! i)))"
    using encode_groups_append [OF l(2), of "drop 4 (snd (ss ! i))"] by simp
  then have "drop (i * (354 + gap) + 29) d = encode_groups (take 4 (snd (ss ! i))) @
      (encode_groups (drop 4 (snd (ss ! i))) @ replicate gap 0x55 @ sector_track gap (drop (Suc i) ss) rest)"
    using dr by simp
  from decode_block_groups [OF raw l(2) len this]
  show "\<exists>h. gcr_decode_block raw (int (data_bit gap i)) 1 = Some h \<and> h ! 0 \<noteq> 0x08"
    using o by (intro exI [of _ "take 4 (snd (ss ! i))"]) (auto simp: data_bit_def sector_ok_def)
qed

lemma header_loop_step:
  assumes "gcr_find_sync raw p (trk_size raw * 8) = Some q" "p2 \<noteq> q" "gcr_decode_block raw q 1 = Some h"
  shows "gcr_header_loop raw sector p p2 =
    (if h ! 0 = 0x08 \<and> h ! 2 = sector then Some q else gcr_header_loop raw sector q (if p2 < 0 then q else p2))"
  using assms by (subst gcr_header_loop.simps) simp

text \<open>The search runs past the sectors before the one wanted.\<close>

lemma header_search:
  assumes holds: "holds_sectors raw gap ss rest"
  shows "i + n < length ss \<Longrightarrow> \<forall>j<i + n. fst (ss ! j) ! 2 \<noteq> sector \<Longrightarrow> fst (ss ! (i + n)) ! 2 = sector \<Longrightarrow>
    0 < i \<Longrightarrow> gcr_header_loop raw sector (int (data_bit gap (i - 1))) (int (header_bit gap 0)) = Some (int (header_bit gap (i + n)))"
proof (induction n arbitrary: i)
  case (0 i)
  then obtain k where i: "i = Suc k" by (cases i) simp_all
  obtain h where h: "gcr_decode_block raw (int (header_bit gap i)) 1 = Some h" "h ! 0 = 0x08" "h ! 2 = fst (ss ! i) ! 2"
    using decode_header [OF holds] 0 by auto
  have "int (header_bit gap 0) \<noteq> int (header_bit gap i)" unfolding of_nat_eq_iff by (simp add: header_bit_def i)
  then show ?case using header_loop_step [OF data_to_header [OF holds, of k], of _ h sector] h 0 by (simp add: i)
next
  case (Suc n i)
  then obtain k where i: "i = Suc k" by (cases i) simp_all
  have il: "i < length ss" using Suc.prems by simp
  obtain h where h: "gcr_decode_block raw (int (header_bit gap i)) 1 = Some h" "h ! 2 = fst (ss ! i) ! 2"
    using decode_header [OF holds il] by auto
  obtain g where g: "gcr_decode_block raw (int (data_bit gap i)) 1 = Some g" "g ! 0 \<noteq> 0x08"
    using decode_data(2) [OF holds il] by auto
  have ne: "int (header_bit gap 0) \<noteq> int (header_bit gap i)" "int (header_bit gap 0) \<noteq> int (data_bit gap i)"
    unfolding of_nat_eq_iff by (simp_all add: header_bit_def data_bit_def i)
  have "232 < trk_size raw * 8"
    using holds il length_sector_bytes [of "ss ! 0" gap] by (cases ss) (auto simp: holds_sectors_def Let_def sector_track_def)
  have "gcr_header_loop raw sector (int (data_bit gap k)) (int (header_bit gap 0)) =
      gcr_header_loop raw sector (int (header_bit gap i)) (int (header_bit gap 0))"
    using header_loop_step [OF data_to_header [OF holds, of k] ne(1) [unfolded i] h(1) [unfolded i], of sector] Suc.prems h(2) il
    by (auto simp: i)
  also have "\<dots> = gcr_header_loop raw sector (int (data_bit gap i)) (int (header_bit gap 0))"
    using header_loop_step [OF header_to_data [OF holds il \<open>232 < _\<close>] ne(2) g(1), of sector] g(2) by simp
  also have "\<dots> = Some (int (header_bit gap (i + Suc n)))"
    using Suc.IH [of "Suc i"] Suc.prems by simp
  finally show ?case by (simp add: i)
qed

lemma find_header:
  assumes holds: "holds_sectors raw gap ss rest"
    and i: "i < length ss" "fst (ss ! i) ! 2 = sector" "\<forall>j<i. fst (ss ! j) ! 2 \<noteq> sector"
  shows "gcr_find_sector_header raw sector = Some (int (header_bit gap i))"
proof -
  have ne: "ss \<noteq> []" using i(1) by auto
  obtain h where h: "gcr_decode_block raw (int (header_bit gap 0)) 1 = Some h" "h ! 0 = 0x08" "h ! 2 = fst (ss ! 0) ! 2"
    using decode_header [OF holds, of 0] ne by auto
  note first = header_loop_step [OF first_header [OF holds ne] _ h(1), of "- CBMDOS_FDC_ERR_SYNC" sector]
  show ?thesis
  proof (cases i)
    case 0
    then show ?thesis using first h i by (simp add: gcr_find_sector_header_def fdc_err_defs)
  next
    case (Suc k)
    obtain g where g: "gcr_decode_block raw (int (data_bit gap 0)) 1 = Some g" "g ! 0 \<noteq> 0x08"
      using decode_data(2) [OF holds, of 0] ne by auto
    have big: "232 < trk_size raw * 8"
      using holds ne length_sector_bytes [of "ss ! 0" gap] by (cases ss) (auto simp: holds_sectors_def Let_def sector_track_def)
    have ne2: "int (header_bit gap 0) \<noteq> int (data_bit gap 0)" by (simp add: header_bit_def data_bit_def)
    have "gcr_find_sector_header raw sector = gcr_header_loop raw sector (int (header_bit gap 0)) (int (header_bit gap 0))"
      using first h(3) i(3) Suc by (simp add: gcr_find_sector_header_def fdc_err_defs)
    also have "\<dots> = gcr_header_loop raw sector (int (data_bit gap 0)) (int (header_bit gap 0))"
      using header_loop_step [OF header_to_data [OF holds _ big, of 0] ne2 g(1), of sector] g(2) ne by simp
    also have "\<dots> = Some (int (header_bit gap i))"
      using header_search [OF holds, of 1 k sector] i Suc by simp
    finally show ?thesis .
  qed
qed

lemma read_sector:
  assumes holds: "holds_sectors raw gap ss rest"
    and i: "i < length ss" "fst (ss ! i) ! 2 = sector" "\<forall>j<i. fst (ss ! j) ! 2 \<noteq> sector"
  shows "gcr_read_sector raw sector =
    (let x = snd (ss ! i) in
     Some (if x ! 0 \<noteq> 0x07 then CBMDOS_FDC_ERR_NOBLOCK
           else if truth (foldl (XOR) (x ! 257) (take 256 (drop 1 x))) then CBMDOS_FDC_ERR_DCHECK else CBMDOS_FDC_ERR_OK,
           Some (take 256 (drop 1 x))))"
proof -
  have "length (snd (ss ! i)) = 260" using holds i(1) by (simp add: holds_sectors_def Let_def sector_ok_def)
  then have "map (\<lambda>k. snd (ss ! i) ! (k + 1)) [0..<256] = take 256 (drop 1 (snd (ss ! i)))"
    by (intro nth_equalityI) simp_all
  then show ?thesis
    using find_header [OF assms] header_to_data [OF holds i(1), of "500 * 8"] decode_data(1) [OF holds i(1)]
    by (simp add: gcr_read_sector_def Let_def)
qed

section \<open>Laying out a track\<close>

lemma put_blank:
  assumes "length bs \<le> m"
  shows "gcr_put bs (length pre, pre @ replicate m x) = Some (length (pre @ bs), (pre @ bs) @ replicate (m - length bs) x)"
  using assms by (simp add: gcr_put_def)

lemma skip_blank:
  assumes "n \<le> m"
  shows "gcr_skip n (length pre, pre @ replicate m x) = Some (length (pre @ replicate n x), (pre @ replicate n x) @ replicate (m - n) x)"
  using assms by (simp add: gcr_skip_def flip: replicate_add)

lemma put_blocks_blank:
  "length buffer = 4 * n + k \<Longrightarrow> 5 * n \<le> m \<Longrightarrow>
    gcr_put_blocks n buffer chk (length pre, pre @ replicate m x) =
    Some (drop (4 * n) buffer, foldl (XOR) chk (take (4 * n) buffer),
      length (pre @ encode_groups (take (4 * n) buffer)), (pre @ encode_groups (take (4 * n) buffer)) @ replicate (m - 5 * n) x)"
proof (induction n arbitrary: buffer chk pre m)
  case (Suc n)
  obtain a b c d ys where b: "buffer = a # b # c # d # ys" and y: "length ys = 4 * n + k"
  proof -
    have "length buffer = Suc (Suc (Suc (Suc (4 * n + k))))" using Suc.prems(1) by simp
    then show thesis using that by (auto simp: length_Suc_conv)
  qed
  have m: "5 \<le> m" "5 * n \<le> m - 5" using Suc.prems(2) by simp_all
  have "4 + 4 * n = Suc (Suc (Suc (Suc (4 * n))))" by simp
  then have t: "take (4 + 4 * n) (a # b # c # d # ys) = a # b # c # d # take (4 * n) ys" "drop (4 + 4 * n) (a # b # c # d # ys) = drop (4 * n) ys"
    by (simp_all only: take_Suc_Cons drop_Suc_Cons)
  show ?case
    using put_blank [of "gcr_convert_4bytes_to_GCR [a, b, c, d]" m pre x] m
      Suc.IH [OF y m(2), of "chk XOR a XOR b XOR c XOR d" "pre @ gcr_convert_4bytes_to_GCR [a, b, c, d]"]
    by (simp add: b t Let_def xor.assoc)
qed simp

definition header_block :: "gcr_header \<Rightarrow> int \<Rightarrow> u8 list" where
  "header_block header rf = (let idm = (if rf = CBMDOS_FDC_ERR_ID then 0xff else 0) in
     [0x08, (if rf = CBMDOS_FDC_ERR_HCHECK then 0xff else 0) XOR h_sector header XOR h_track header XOR h_id2 header XOR h_id1 header XOR idm,
      h_sector header, h_track header, h_id2 header, h_id1 header XOR idm, 0x0f, 0x0f])"

definition data_block :: "u8 list \<Rightarrow> int \<Rightarrow> u8 list" where
  "data_block buffer rf =
     (if rf = CBMDOS_FDC_ERR_NOBLOCK then 0 else 0x07) # buffer @
     [foldl (XOR) (if rf = CBMDOS_FDC_ERR_DCHECK then 0xff else 0) buffer, 0, 0]"

lemma convert_sector:
  assumes "length buffer = 256" "rf \<noteq> CBMDOS_FDC_ERR_HEADER" "rf \<noteq> CBMDOS_FDC_ERR_SYNC" "354 \<le> m"
  shows "gcr_convert_sector_to_GCR buffer header 9 5 rf (length pre, pre @ replicate m 0x55) =
    (let s = sector_bytes 0 (header_block header rf, data_block buffer rf) in
     Some (length (pre @ s), (pre @ s) @ replicate (m - 354) 0x55))"
proof -
  obtain b0 b1 b2 bs where b: "buffer = b0 # b1 # b2 # bs" "length bs = 253"
    using assms(1) by (auto simp: numeral_eq_Suc length_Suc_conv)
  obtain cs z where c: "bs = cs @ [z]" "length cs = 252"
    using b(2) by (cases bs rule: rev_cases) simp_all
  have e: "encode_groups (data_block buffer rf) =
    gcr_convert_4bytes_to_GCR [(if rf = CBMDOS_FDC_ERR_NOBLOCK then 0 else 0x07), b0, b1, b2] @ encode_groups cs @
    gcr_convert_4bytes_to_GCR [z, foldl (XOR) (if rf = CBMDOS_FDC_ERR_DCHECK then 0xff else 0) buffer, 0, 0]"
    using encode_groups_append [of cs 63] c(2) by (simp add: data_block_def b(1) c(1))
  have l: "length (encode_groups cs) = 315" using length_encode_groups [of cs 63] c(2) by simp
  define P where "P = (\<lambda>pre m. (length pre, pre @ replicate m (0x55 :: u8)))"
  have put: "gcr_put xs (P q k) = Some (P (q @ xs) (k - length xs))" if "length xs \<le> k" for xs q k
    using put_blank [OF that] by (simp add: P_def)
  have skip: "gcr_skip 9 (P q k) = Some (P (q @ replicate 9 0x55) (k - 9))" if "9 \<le> k" for q k
    using skip_blank [OF that] by (simp add: P_def)
  have blocks: "gcr_put_blocks 63 bs chk (P q k) = Some ([z], foldl (XOR) chk cs, P (q @ encode_groups cs) (k - 315))" if "315 \<le> k" for chk q k
    using put_blocks_blank [of bs 63 1 k chk q] that c by (simp add: P_def)
  have "gcr_convert_sector_to_GCR buffer header 9 5 rf (P pre m) = Some (P (pre @ sector_bytes 0 (header_block header rf, data_block buffer rf)) (m - 354))"
    unfolding gcr_convert_sector_to_GCR_def Let_def
    using assms
    by (simp add: put skip blocks b(1) l split del: if_split)
      (simp add: sector_bytes_def header_block_def e [unfolded b(1) c(1)] c(1) Let_def xor.assoc split del: if_split)
  then show ?thesis by (simp add: P_def Let_def)
qed

definition sector_image :: "gcr_header \<Rightarrow> nat \<Rightarrow> int \<times> u8 list \<Rightarrow> u8 list \<times> u8 list" where
  "sector_image header k s = (header_block (header\<lparr>h_sector := word_of_nat k\<rparr>) (fst s), data_block (snd s) (fst s))"

definition plain_sector :: "int \<times> u8 list \<Rightarrow> bool" where
  "plain_sector s \<longleftrightarrow> length (snd s) = 256 \<and> fst s \<noteq> CBMDOS_FDC_ERR_HEADER \<and> fst s \<noteq> CBMDOS_FDC_ERR_SYNC"

lemma dxx_sectors_layout:
  "\<forall>s\<in>set bs. plain_sector s \<Longrightarrow> length bs * (354 + gap) \<le> m \<Longrightarrow>
    dxx_sectors header gap k bs (length pre) (pre @ replicate m 0x55) =
    Some (pre @ sector_track gap (map (\<lambda>i. sector_image header (k + i) (bs ! i)) [0..<length bs]) (replicate (m - length bs * (354 + gap)) 0x55))"
proof (induction bs arbitrary: k pre m)
  case Nil
  then show ?case by (simp add: sector_track_def)
next
  case (Cons s bs)
  obtain rf buffer where s: "s = (rf, buffer)" by (cases s)
  have b: "length buffer = 256" "rf \<noteq> CBMDOS_FDC_ERR_HEADER" "rf \<noteq> CBMDOS_FDC_ERR_SYNC" using Cons.prems(1) by (simp_all add: s plain_sector_def)
  have m: "354 \<le> m" "length bs * (354 + gap) \<le> m - (354 + gap)" "gap \<le> m - 354" using Cons.prems(2) by simp_all
  let ?im = "sector_image header k s"
  let ?s = "sector_bytes 0 ?im"
  have g: "?s @ replicate gap 0x55 = sector_bytes gap ?im" by (simp add: sector_bytes_def)
  have l: "length ?s = 354"
    using length_encode_groups [of "fst ?im" 2] length_encode_groups [of "snd ?im" 65] b
    by (simp add: sector_bytes_def sector_image_def header_block_def data_block_def s Let_def)
  have one: "gcr_convert_sector_to_GCR buffer (header\<lparr>h_sector := word_of_nat k\<rparr>) 9 5 rf (length pre, pre @ replicate m 0x55) =
      Some (length (pre @ ?s), (pre @ ?s) @ replicate (m - 354) 0x55)"
    using convert_sector [OF b m(1), of "header\<lparr>h_sector := word_of_nat k\<rparr>" pre] by (simp add: Let_def sector_image_def s)
  have split: "(pre @ ?s) @ replicate (m - 354) 0x55 = (pre @ sector_bytes gap ?im) @ replicate (m - (354 + gap)) 0x55"
    using m(3) by (simp flip: g replicate_add)
  have ptr: "length pre + (SECTOR_GCR_SIZE_WITH_HEADER + 9 + gap + 5) = length (pre @ sector_bytes gap ?im)"
    using l by (simp add: SECTOR_GCR_SIZE_WITH_HEADER_def flip: g)
  have "dxx_sectors header gap k (s # bs) (length pre) (pre @ replicate m 0x55) =
      dxx_sectors header gap (Suc k) bs (length pre + (SECTOR_GCR_SIZE_WITH_HEADER + 9 + gap + 5)) ((pre @ ?s) @ replicate (m - 354) 0x55)"
    unfolding s dxx_sectors.simps one [unfolded s] by simp
  also have "\<dots> = dxx_sectors header gap (Suc k) bs (length (pre @ sector_bytes gap ?im)) ((pre @ sector_bytes gap ?im) @ replicate (m - (354 + gap)) 0x55)"
    unfolding ptr split ..
  also have "\<dots> = Some ((pre @ sector_bytes gap ?im) @
      sector_track gap (map (\<lambda>i. sector_image header (Suc k + i) (bs ! i)) [0..<length bs]) (replicate (m - (354 + gap) - length bs * (354 + gap)) 0x55))"
    by (rule Cons.IH) (use Cons.prems(1) m(2) in simp_all)
  also have "\<dots> = Some (pre @ sector_track gap (map (\<lambda>i. sector_image header (k + i) ((s # bs) ! i)) [0..<length (s # bs)])
      (replicate (m - length (s # bs) * (354 + gap)) 0x55))"
    by (simp add: sector_track_def upt_conv_Cons map_Suc_upt [symmetric] comp_def diff_diff_add del: upt_Suc)
  finally show ?case .
qed

lemma foldl_xor: "foldl (XOR) c xs = c XOR foldl (XOR) 0 xs" for c :: u8
proof (induction xs arbitrary: c)
  case (Cons x xs)
  show ?case using Cons [of "c XOR x"] Cons [of x] by (simp add: xor.assoc)
qed simp

lemma dxx_track_holds:
  assumes "\<forall>s\<in>set bs. plain_sector s" "length bs * (354 + gap) \<le> sz"
  obtains mem rest where "dxx_track header gap sz bs = Some mem" "length mem = sz"
    "holds_sectors \<lparr>trk_data = Some mem, trk_size = sz\<rparr> gap (map (\<lambda>i. sector_image header i (bs ! i)) [0..<length bs]) rest"
proof -
  let ?ss = "map (\<lambda>i. sector_image header i (bs ! i)) [0..<length bs]"
  let ?rest = "replicate (sz - length bs * (354 + gap)) (0x55 :: u8)"
  have ok: "\<forall>s\<in>set ?ss. sector_ok s"
    using assms(1) by (auto simp: sector_ok_def sector_image_def header_block_def data_block_def plain_sector_def Let_def)
  have "dxx_track header gap sz bs = Some (sector_track gap ?ss ?rest)"
    using dxx_sectors_layout [OF assms, of header 0 "[]"] by (simp add: dxx_track_def)
  moreover have "length (sector_track gap ?ss ?rest) = sz"
  proof -
    have "map (length \<circ> sector_bytes gap) ?ss = replicate (length bs) (354 + gap)"
      using ok by (intro nth_equalityI) (simp_all add: length_sector_bytes)
    then show ?thesis using assms(2) by (simp add: sector_track_def length_concat sum_list_replicate comp_assoc)
  qed
  moreover from this have "holds_sectors \<lparr>trk_data = Some (sector_track gap ?ss ?rest), trk_size = sz\<rparr> gap ?ss ?rest"
    using ok by (simp add: holds_sectors_def)
  ultimately show thesis using that by blast
qed

lemma track_round_trip:
  assumes "\<forall>s\<in>set bs. length (snd s) = 256 \<and> fst s \<noteq> CBMDOS_FDC_ERR_HEADER \<and> fst s \<noteq> CBMDOS_FDC_ERR_SYNC"
    and "length bs \<le> 256" "length bs * (SECTOR_GCR_SIZE_WITH_HEADER + 9 + gap + 5) \<le> sz" "i < length bs"
  shows "\<exists>mem. dxx_track header gap sz bs = Some mem \<and>
    gcr_read_sector \<lparr>trk_data = Some mem, trk_size = sz\<rparr> (word_of_nat i) =
      Some (if fst (bs ! i) \<in> {CBMDOS_FDC_ERR_NOBLOCK, CBMDOS_FDC_ERR_DCHECK} then fst (bs ! i) else CBMDOS_FDC_ERR_OK, Some (snd (bs ! i)))"
proof -
  have p: "\<forall>s\<in>set bs. plain_sector s" and l: "length bs * (354 + gap) \<le> sz"
    using assms(1,3) by (simp_all add: plain_sector_def SECTOR_GCR_SIZE_WITH_HEADER_def)
  obtain mem rest where mem: "dxx_track header gap sz bs = Some mem"
    and holds: "holds_sectors \<lparr>trk_data = Some mem, trk_size = sz\<rparr> gap (map (\<lambda>i. sector_image header i (bs ! i)) [0..<length bs]) rest"
    by (rule dxx_track_holds [OF p l])
  define x where "x = data_block (snd (bs ! i)) (fst (bs ! i))"
  have b: "length (snd (bs ! i)) = 256" using assms(1,4) by simp
  have no: "fst (sector_image header j (bs ! j)) ! 2 = word_of_nat j" for j
    by (simp add: sector_image_def header_block_def Let_def)
  have "(word_of_nat j :: u8) \<noteq> word_of_nat i" if "j < i" for j
    using that assms(2,4) by (simp add: word_of_nat_eq_iff take_bit_nat_eq_self)
  then have "gcr_read_sector \<lparr>trk_data = Some mem, trk_size = sz\<rparr> (word_of_nat i) =
    (Some (if x ! 0 \<noteq> 0x07 then CBMDOS_FDC_ERR_NOBLOCK
           else if truth (foldl (XOR) (x ! 257) (take 256 (drop 1 x))) then CBMDOS_FDC_ERR_DCHECK else CBMDOS_FDC_ERR_OK,
           Some (take 256 (drop 1 x))))"
    using read_sector [OF holds, of i "word_of_nat i"] assms(4) no by (simp add: sector_image_def x_def)
  moreover have "take 256 (drop 1 x) = snd (bs ! i)" "x ! 0 = (if fst (bs ! i) = CBMDOS_FDC_ERR_NOBLOCK then 0 else 0x07)"
    "x ! 257 = foldl (XOR) (if fst (bs ! i) = CBMDOS_FDC_ERR_DCHECK then 0xff else 0) (snd (bs ! i))"
    using b by (simp_all add: x_def data_block_def nth_append)
  moreover have "foldl (XOR) (foldl (XOR) c (snd (bs ! i))) (snd (bs ! i)) = c" for c
    using foldl_xor [of c "snd (bs ! i)"] foldl_xor [of "foldl (XOR) c (snd (bs ! i))" "snd (bs ! i)"] by (simp add: xor.assoc)
  ultimately show ?thesis using mem by (simp add: Let_def fdc_err_defs)
qed



text \<open>
  Decoding the five code bytes of four data bytes gives the four bytes back.
\<close>

theorem gcr_bytes_round_trip: "gcr_convert_GCR_to_4bytes (gcr_convert_4bytes_to_GCR [a, b, c, d]) = [a, b, c, d]"
  by (rule decode_encode)

section \<open>A track with a single sync mark\<close>

definition one_sync_track :: disk_track where
  "one_sync_track = \<lparr>trk_data = Some (replicate 5 0xff @ gcr_convert_4bytes_to_GCR [0x08, 0, 1, 1] @ replicate 5 0x55), trk_size = 15\<rparr>"

lemma one_sync_search:
  "gcr_find_sync one_sync_track 0 120 = Some 40" "gcr_find_sync one_sync_track 40 120 = Some (- 3)"
  "gcr_decode_block one_sync_track 40 1 = Some [0x08, 0, 1, 1]"
  by code_simp+



end
