(* ===== verification/DiskLaws.thy ===== *)
theory DiskLaws
  imports DiskProbe GcrLaws
begin

unbundle bit_operations_syntax

text \<open>
  The laws of disk images. Files: what a write leaves at its place and elsewhere. Sectors: a sector written to a sector image is
  read back and no other sector changes. Formats: an image that the tests accept has an error map that covers its tracks.
\<close>

section \<open>Files\<close>

lemma fpread_ok:
  assumes "n \<le> length buf" "0 < n" "k + n \<le> length (f_data f)"
  shows "util_fpread f buf n (int k) = Some (0, take n (drop k (f_data f)) @ drop n buf)"
  using assms by (simp add: util_fpread_def Let_def)

lemma fpread_short:
  assumes "n \<le> length buf" "length (f_data f) < k + n" "0 < n"
  shows "\<exists>buf'. util_fpread f buf n (int k) = Some (- 1, buf') \<and> length buf' = length buf"
  using assms by (auto simp: util_fpread_def Let_def min_def)

lemma fpwrite_ok:
  assumes "f_writable f" "n \<le> length buf" "0 < n"
  shows "util_fpwrite f buf n (int k) =
    Some (0, f\<lparr>f_data := take k (f_data f @ replicate (k - length (f_data f)) 0) @ take n buf @ drop (k + n) (f_data f)\<rparr>)"
  using assms by (simp add: util_fpwrite_def Let_def)

text \<open>What a write leaves at its place and elsewhere.\<close>

lemma patched_at:
  assumes "n \<le> length buf"
  shows "take n (drop k (take k (d @ replicate (k - length d) 0) @ take n buf @ drop (k + n) d)) = take n buf"
  using assms by simp

lemma patched_before:
  assumes "j + m \<le> k" "j + m \<le> length d"
  shows "take m (drop j (take k (d @ replicate (k - length d) 0) @ take n buf @ drop (k + n) d)) = take m (drop j d)"
  using assms by (simp add: take_drop min_def)

lemma patched_after:
  assumes "k + n \<le> j" "j + m \<le> length d" "n \<le> length buf"
  shows "take m (drop j (take k (d @ replicate (k - length d) 0) @ take n buf @ drop (k + n) d)) = take m (drop j d)"
proof -
  have "length (take k (d @ replicate (k - length d) 0)) = k" by simp
  then have "drop j (take k (d @ replicate (k - length d) 0) @ take n buf @ drop (k + n) d) = drop (j - k - n) (drop (k + n) d)"
    using assms by (simp add: diff_diff_add)
  then show ?thesis using assms by (simp add: add.commute)
qed

lemma patched_length:
  assumes "n \<le> length buf"
  shows "length (take k (d @ replicate (k - length d) 0) @ take n buf @ drop (k + n) d) = max (k + n) (length d)"
  using assms by (auto simp: max_def min_def)

section \<open>Sectors\<close>

definition file_block :: "bin_file \<Rightarrow> nat \<Rightarrow> u8 list" where
  "file_block f k = take 256 (drop k (f_data f))"

definition header_size :: "disk_image \<Rightarrow> nat" where
  "header_size im = (if im_type im = DISK_IMAGE_TYPE_X64 then X64_HEADER_LENGTH else 0)"

definition block_at :: "disk_image \<Rightarrow> nat \<Rightarrow> nat \<Rightarrow> nat" where
  "block_at im track sector = nat (check_sector im track sector) * 256 + header_size im"

lemma block_at_offset:
  assumes "0 \<le> check_sector im t s"
  shows "dxx_offset im (check_sector im t s) = int (block_at im t s)"
  using assms by (simp add: block_at_def header_size_def dxx_offset_def)

lemma block_at_apart:
  assumes "0 \<le> check_sector im t s" "0 \<le> check_sector im t' s'" "check_sector im t s \<noteq> check_sector im t' s'"
  shows "block_at im t s + 256 \<le> block_at im t' s' \<or> block_at im t' s' + 256 \<le> block_at im t s"
proof -
  have "nat (check_sector im t s) < nat (check_sector im t' s') \<or> nat (check_sector im t' s') < nat (check_sector im t s)"
    using assms by linarith
  then show ?thesis unfolding block_at_def by (elim disjE) linarith+
qed

text \<open>An image on a file that has no raw tracks, with an error map that covers the block if there is one.\<close>

definition plain_image :: "disk_image \<Rightarrow> bin_file \<Rightarrow> bool" where
  "plain_image im f \<longleftrightarrow> im_gcr im = None \<and> fs_fd (im_fs im) = Some f"

definition mapped :: "disk_image \<Rightarrow> int \<Rightarrow> bool" where
  "mapped im k \<longleftrightarrow> (case fs_map (im_fs im) of None \<Rightarrow> True | Some m \<Rightarrow> 0 \<le> k \<and> nat k < length m)"

definition block_code :: "disk_image \<Rightarrow> int \<Rightarrow> int" where
  "block_code im k = (case fs_map (im_fs im) of None \<Rightarrow> CBMDOS_FDC_ERR_OK | Some m \<Rightarrow> uint (m ! nat k))"

lemma dxx_read_plain:
  assumes "plain_image im f" "0 \<le> check_sector im t s" "mapped im (check_sector im t s)" "256 \<le> length b"
    "block_at im t s + 256 \<le> length (f_data f)"
  shows "fsimage_dxx_read_sector im b t s =
    Some (fdc_to_ipe CBMDOS_IPE_OK (block_code im (check_sector im t s)), file_block f (block_at im t s) @ drop 256 b)"
  using assms fpread_ok [of 256 b "block_at im t s" f]
  by (auto simp: fsimage_dxx_read_sector_def Let_def plain_image_def block_at_offset mapped_def block_code_def file_block_def arr_get_def
      split: option.splits)

lemma check_sector_map [simp]:
  "check_sector (im\<lparr>im_fs := x\<rparr>) t s = check_sector im t s" "block_at (im\<lparr>im_fs := x\<rparr>) t s = block_at im t s"
  "dxx_offset (im\<lparr>im_fs := x\<rparr>) k = dxx_offset im k"
  by (simp_all add: block_at_def header_size_def dxx_offset_def)

text \<open>What a write of a sector makes of a plain image: the file and the map.\<close>

definition error_mark :: "disk_image \<Rightarrow> int \<Rightarrow> bool" where
  "error_mark im k \<longleftrightarrow> (case fs_map (im_fs im) of None \<Rightarrow> False | Some m \<Rightarrow> uint (m ! nat k) \<noteq> CBMDOS_FDC_ERR_OK)"

definition patch :: "bin_file \<Rightarrow> u8 list \<Rightarrow> nat \<Rightarrow> nat \<Rightarrow> bin_file" where
  "patch f buf n k = f\<lparr>f_data := take k (f_data f @ replicate (k - length (f_data f)) 0) @ take n buf @ drop (k + n) (f_data f)\<rparr>"

lemma dxx_write_plain:
  assumes "plain_image im f" "f_writable f" "length buf = 256" "0 \<le> check_sector im t s" "mapped im (check_sector im t s)"
  shows "\<exists>im' f'. fsimage_dxx_write_sector im buf t s = Some (0, im') \<and> plain_image im' f' \<and> f_writable f' \<and>
    (\<forall>x y. check_sector im' x y = check_sector im x y \<and> block_at im' x y = block_at im x y) \<and>
    (\<forall>k. mapped im' k = mapped im k \<and> (0 \<le> k \<longrightarrow> mapped im k \<longrightarrow>
      block_code im' k = (if k = check_sector im t s then CBMDOS_FDC_ERR_OK else block_code im k))) \<and>
    (\<exists>g. g = patch f buf 256 (block_at im t s) \<and>
      (f' = g \<or> (\<exists>m. fs_map (im_fs im) = Some m \<and> f' = patch g [1] 1 (length m * 256 + header_size im + nat (check_sector im t s)))))"
proof -
  let ?k = "check_sector im t s"
  let ?g = "patch f buf 256 (block_at im t s)"
  have w: "util_fpwrite f buf 256 (dxx_offset im ?k) = Some (0, ?g)"
    using fpwrite_ok [of f 256 buf "block_at im t s"] assms by (simp add: block_at_offset patch_def)
  have gcr: "gcr_write_track (set_fd ?g im) buf t s = Some (CBMDOS_FDC_ERR_OK, set_fd ?g im)"
    using assms(1) by (simp add: gcr_write_track_def plain_image_def)
  show ?thesis
  proof (cases "fs_map (im_fs im)")
    case None
    then show ?thesis
      using assms w gcr
      by (intro exI [of _ "set_fd ?g im"] exI [of _ ?g])
        (simp add: fsimage_dxx_write_sector_def Let_def plain_image_def mapped_def block_code_def block_at_def header_size_def patch_def)
  next
    case (Some m)
    have k: "nat ?k < length m" using assms(5) Some by (simp add: mapped_def)
    show ?thesis
    proof (cases "uint (m ! nat ?k) = CBMDOS_FDC_ERR_OK")
      case True
      then show ?thesis
        using assms w gcr Some k
        by (intro exI [of _ "set_fd ?g im"] exI [of _ ?g])
          (auto simp: fsimage_dxx_write_sector_def Let_def plain_image_def mapped_def block_code_def block_at_def header_size_def patch_def arr_get_def)
    next
      case False
      let ?m = "m[nat ?k := word_of_int CBMDOS_FDC_ERR_OK]"
      let ?o = "length m * 256 + header_size im + nat ?k"
      let ?h = "patch ?g [1] 1 ?o"
      let ?im = "im\<lparr>im_fs := (im_fs im)\<lparr>fs_map := Some ?m, fs_fd := Some ?h\<rparr>\<rparr>"
      have e: "take 1 (drop (nat ?k) ?m) = [1]"
        using k by (simp add: drop_update_swap Cons_nth_drop_Suc [symmetric] CBMDOS_FDC_ERR_OK_def)
      have o: "dxx_offset im (int (length m)) + ?k = int ?o" using assms(4) by (simp add: dxx_offset_def header_size_def)
      have "util_fpwrite ?g (drop (nat ?k) ?m) 1 (int ?o) = Some (0, ?h)"
        using fpwrite_ok [of ?g 1 "drop (nat ?k) ?m" ?o] k assms(2) e by (simp add: patch_def)
      then have "fsimage_dxx_write_sector im buf t s = Some (0, ?im)"
        using assms(4) w gcr Some k False assms(1)
        by (simp add: fsimage_dxx_write_sector_def Let_def plain_image_def arr_get_def o)
      moreover have "plain_image ?im ?h" "f_writable ?h" using assms(1,2) by (simp_all add: plain_image_def patch_def)
      moreover have "check_sector ?im x y = check_sector im x y \<and> block_at ?im x y = block_at im x y" for x y by simp
      moreover have "mapped ?im x = mapped im x \<and> (0 \<le> x \<longrightarrow> mapped im x \<longrightarrow>
        block_code ?im x = (if x = ?k then CBMDOS_FDC_ERR_OK else block_code im x))" for x
        using assms(4) k by (simp add: mapped_def block_code_def Some nth_list_update CBMDOS_FDC_ERR_OK_def nat_eq_iff2)
      ultimately show ?thesis using Some by blast
    qed
  qed
qed

lemma patch_block_same: "length buf = n \<Longrightarrow> take n (drop k (f_data (patch f buf n k))) = buf"
  using patched_at [of n buf k "f_data f"] by (simp add: patch_def)

lemma patch_block_other:
  assumes "j + m \<le> k \<or> k + n \<le> j" "j + m \<le> length (f_data f)" "n \<le> length buf"
  shows "take m (drop j (f_data (patch f buf n k))) = take m (drop j (f_data f))"
  using assms patched_before [of j m k "f_data f" n buf] patched_after [of k n j m "f_data f" buf] by (auto simp: patch_def)

lemma patch_length: "n \<le> length buf \<Longrightarrow> length (f_data (patch f buf n k)) = max (k + n) (length (f_data f))"
  using patched_length [of n buf k "f_data f"] by (simp add: patch_def)

lemma block_before_map:
  assumes "fs_map (im_fs im) = Some m" "mapped im (check_sector im t s)"
  shows "block_at im t s + 256 \<le> length m * 256 + header_size im"
  using assms by (simp add: mapped_def block_at_def)

text \<open>
  C16 (sector_write_read) On a sector image without raw tracks a sector written is read back without error, and every other
  sector of the file reads as before: neither the block nor the byte written to the error information touches another block.
\<close>

theorem sector_write_read:
  assumes "im_gcr im = None" "fs_fd (im_fs im) = Some f" "f_writable f" "length buf = 256"
    and "0 \<le> check_sector im t s" "mapped im (check_sector im t s)"
  shows "\<exists>im'. fsimage_dxx_write_sector im buf t s = Some (0, im') \<and>
    (\<forall>b. length b = 256 \<longrightarrow> fsimage_dxx_read_sector im' b t s = Some (CBMDOS_IPE_OK, buf)) \<and>
    (\<forall>t' s' b. length b = 256 \<and> 0 \<le> check_sector im t' s' \<and> check_sector im t' s' \<noteq> check_sector im t s \<and>
      mapped im (check_sector im t' s') \<and> block_at im t' s' + 256 \<le> length (f_data f) \<longrightarrow>
      fsimage_dxx_read_sector im' b t' s' = fsimage_dxx_read_sector im b t' s')"
proof -
  let ?k = "block_at im t s"
  have plain: "plain_image im f" using assms by (simp add: plain_image_def)
  obtain im' f' g where w: "fsimage_dxx_write_sector im buf t s = Some (0, im')" and im': "plain_image im' f'"
    and chk: "\<forall>x y. check_sector im' x y = check_sector im x y \<and> block_at im' x y = block_at im x y"
    and codes: "\<forall>k. mapped im' k = mapped im k \<and> (0 \<le> k \<longrightarrow> mapped im k \<longrightarrow>
      block_code im' k = (if k = check_sector im t s then CBMDOS_FDC_ERR_OK else block_code im k))"
    and g: "g = patch f buf 256 ?k"
    and f': "f' = g \<or> (\<exists>m. fs_map (im_fs im) = Some m \<and> f' = patch g [1] 1 (length m * 256 + header_size im + nat (check_sector im t s)))"
    using dxx_write_plain [OF plain assms(3-6)] by (elim exE conjE) (rule that)
  have map: "mapped im' k = mapped im k"
    and code: "0 \<le> k \<Longrightarrow> mapped im k \<Longrightarrow> block_code im' k = (if k = check_sector im t s then CBMDOS_FDC_ERR_OK else block_code im k)" for k
    using codes by auto
  have keep: "take 256 (drop (block_at im x y) (f_data f')) = take 256 (drop (block_at im x y) (f_data g))"
    "block_at im x y + 256 \<le> length (f_data f')"
    if "mapped im (check_sector im x y)" "block_at im x y + 256 \<le> length (f_data g)" for x y
  proof -
    have "f' = g \<or> (\<exists>m :: u8 list. f' = patch g [1] 1 (length m * 256 + header_size im + nat (check_sector im t s)) \<and>
        block_at im x y + 256 \<le> length m * 256 + header_size im)"
      using f'
    proof
      assume "\<exists>m. fs_map (im_fs im) = Some m \<and> f' = patch g [1] 1 (length m * 256 + header_size im + nat (check_sector im t s))"
      then obtain m where m: "fs_map (im_fs im) = Some m" "f' = patch g [1] 1 (length m * 256 + header_size im + nat (check_sector im t s))" by blast
      show ?thesis using m(2) block_before_map [OF m(1) that(1)] by (intro disjI2 exI [of _ m] conjI)
    qed simp
    then show "take 256 (drop (block_at im x y) (f_data f')) = take 256 (drop (block_at im x y) (f_data g))"
      "block_at im x y + 256 \<le> length (f_data f')"
      using that(2) patch_block_other [of "block_at im x y" 256 _ 1 g "[1]"] patch_length [of 1 "[1]" g] by auto
  qed
  have len: "?k + 256 \<le> length (f_data g)" using patch_length [of 256 buf f ?k] assms(4) g by simp
  have "fsimage_dxx_read_sector im' b t s = Some (CBMDOS_IPE_OK, buf)" if "length b = 256" for b
  proof -
    have "file_block f' ?k = buf"
      using keep(1) [OF assms(6) len] patch_block_same [of buf 256 ?k f] assms(4) g by (simp add: file_block_def)
    then show ?thesis
      using dxx_read_plain [OF im', of t s b] keep(2) [OF assms(6) len] assms that chk map code [OF assms(5,6)]
      by (simp add: fdc_to_ipe_def)
  qed
  moreover have "fsimage_dxx_read_sector im' b t' s' = fsimage_dxx_read_sector im b t' s'"
    if *: "length b = 256" "0 \<le> check_sector im t' s'" "check_sector im t' s' \<noteq> check_sector im t s"
      "mapped im (check_sector im t' s')" "block_at im t' s' + 256 \<le> length (f_data f)" for t' s' b
  proof -
    let ?j = "block_at im t' s'"
    have lg: "?j + 256 \<le> length (f_data g)" using *(5) patch_length [of 256 buf f ?k] assms(4) g by simp
    have "take 256 (drop ?j (f_data g)) = take 256 (drop ?j (f_data f))"
      using patch_block_other [of ?j 256 ?k 256 f buf] block_at_apart [OF *(2) assms(5) *(3)] *(5) assms(4) g by simp
    then have "file_block f' ?j = file_block f ?j"
      using keep(1) [OF *(4) lg] by (simp add: file_block_def)
    then show ?thesis
      using dxx_read_plain [OF im', of t' s' b] dxx_read_plain [OF plain, of t' s' b] keep(2) [OF *(4) lg] * chk map code [OF *(2,4)]
      by simp
  qed
  ultimately show ?thesis using w by blast
qed

theorem sector_write_read_witness:
  "\<exists>im'. fsimage_dxx_write_sector
      \<lparr>im_fs = \<lparr>fs_fd = Some \<lparr>f_data = [], f_writable = True\<rparr>, fs_name = [], fs_map = None, fs_dirty = False\<rparr>,
       im_read_only = False, im_device = 0, im_type = 1581, im_tracks = 80, im_max_half_tracks = 166, im_gcr = None\<rparr>
      (replicate 256 7) 1 2 = Some (0, im') \<and>
    (\<forall>b. length b = 256 \<longrightarrow> fsimage_dxx_read_sector im' b 1 2 = Some (CBMDOS_IPE_OK, replicate 256 7))"
  using sector_write_read [of "\<lparr>im_fs = \<lparr>fs_fd = Some \<lparr>f_data = [], f_writable = True\<rparr>, fs_name = [], fs_map = None, fs_dirty = False\<rparr>,
       im_read_only = False, im_device = 0, im_type = 1581, im_tracks = 80, im_max_half_tracks = 166, im_gcr = None\<rparr>"
      "\<lparr>f_data = [], f_writable = True\<rparr>" "replicate 256 7" 1 2]
  by (simp add: disk_image_check_sector_def fsimage_check_sector_def disk_devices disk_types disk_sizes mapped_def)

section \<open>Recognised images\<close>

text \<open>What the tests promise of an image: a known format, and an error map that covers the blocks of its tracks.\<close>

definition map_covers :: "disk_image \<Rightarrow> bool" where
  "map_covers im \<longleftrightarrow> (\<forall>t s. t \<le> im_tracks im \<and> 0 \<le> check_sector im t s \<longrightarrow> mapped im (check_sector im t s))"

lemma map_covers_None: "fs_map (im_fs im) = None \<Longrightarrow> map_covers im"
  by (simp add: map_covers_def mapped_def)

lemma blocks_before_mono: "t \<le> u \<Longrightarrow> blocks_before n t \<le> blocks_before n u"
proof (induction u)
  case (Suc u)
  show ?case
  proof (cases "t = Suc u")
    case False
    then have "blocks_before n t \<le> blocks_before n u" using Suc by simp
    also have "\<dots> \<le> blocks_before n (Suc u)" by (cases u) (simp_all add: blocks_before_Suc, simp add: blocks_before_def)
    finally show ?thesis .
  qed simp
qed simp

lemma check_below:
  assumes "im_device im = DISK_IMAGE_DEVICE_FS" "im_type im \<in> disk_formats" "0 \<le> check_sector im t s" "t \<le> u"
  shows "nat (check_sector im t s) < blocks_before (disk_sectors (im_type im)) (Suc u)"
proof -
  have c: "check_sector im t s = int (blocks_before (disk_sectors (im_type im)) t + s)" "s < disk_sectors (im_type im) t" "1 \<le> t"
    using assms by (auto simp: disk_image_check_sector_def check_sector_numbering FSIMAGE_BAD_TRKNUM_def FSIMAGE_BAD_SECNUM_def split: if_splits)
  then have "nat (check_sector im t s) < blocks_before (disk_sectors (im_type im)) (Suc t)" by (simp add: blocks_before_Suc)
  also have "\<dots> \<le> blocks_before (disk_sectors (im_type im)) (Suc u)" using assms(4) by (intro blocks_before_mono) simp
  finally show ?thesis .
qed

lemma map_covers_blocks:
  assumes "im_device im = DISK_IMAGE_DEVICE_FS" "im_type im \<in> disk_formats" "fs_map (im_fs im) = Some m"
    and "blocks_before (disk_sectors (im_type im)) (Suc (im_tracks im)) \<le> length m"
  shows "map_covers im"
  using check_below [OF assms(1,2)] assms(3,4) unfolding map_covers_def mapped_def by (auto intro: less_le_trans)

text \<open>The search for the size of a D64 image.\<close>

lemma d64_loop:
  "d64_size_loop realsize tracks blocks = Some (t, b, e) \<Longrightarrow> 35 \<le> tracks \<Longrightarrow> tracks \<le> 42 \<Longrightarrow>
    blocks = blocks_before (disk_sectors DISK_IMAGE_TYPE_D64) (Suc tracks) \<Longrightarrow>
    tracks \<le> t \<and> t \<le> 42 \<and> b = blocks_before (disk_sectors DISK_IMAGE_TYPE_D64) (Suc t) \<and> realsize = b * 256 + (if e then b else 0)"
proof (induction realsize tracks blocks rule: d64_size_loop.induct)
  case (1 realsize tracks blocks)
  have "disk_sectors DISK_IMAGE_TYPE_D64 (Suc tracks) = 17"
    using 1(3) by (simp add: disk_sectors_def disk_types sectors_zones [unfolded disk_types])
  then have more: "blocks + 17 = blocks_before (disk_sectors DISK_IMAGE_TYPE_D64) (Suc (Suc tracks))"
    using 1(5) blocks_before_Suc [of "Suc tracks" "disk_sectors DISK_IMAGE_TYPE_D64"] by simp
  show ?case
  proof (cases "realsize = blocks * 256 \<or> realsize = blocks * 256 + blocks")
    case True
    then show ?thesis using 1(2,4,5) by (subst (asm) d64_size_loop.simps) (auto split: if_splits)
  next
    case False
    then have "d64_size_loop realsize (Suc tracks) (blocks + 17) = Some (t, b, e)" "\<not> Suc tracks > MAX_TRACKS_1541"
      using 1(2) by (subst (asm) d64_size_loop.simps, simp split: if_splits)+
    then show ?thesis using 1(1) False more 1(3) by (auto simp: MAX_TRACKS_1541_def)
  qed
qed

lemma read_error_map_Some:
  assumes "read_error_map blocks f im = Some (ok, im')"
  shows "\<exists>m. im' = im\<lparr>im_fs := (im_fs im)\<lparr>fs_map := Some m\<rparr>\<rparr> \<and> length m = blocks"
proof -
  obtain r m where m: "util_fpread f (replicate blocks 0) blocks (256 * int blocks) = Some (r, m)"
    "im' = im\<lparr>im_fs := (im_fs im)\<lparr>fs_map := Some m\<rparr>\<rparr>"
    using assms by (auto simp: read_error_map_def bind_eq_Some_conv)
  moreover have "length m = blocks" using m(1) by (auto simp: util_fpread_def Let_def min_def split: if_splits)
  ultimately show ?thesis by blast
qed

lemma count_blocks_div: "blk \<le> limit \<Longrightarrow> count_blocks limit blk data = min (blk + length data div 256) (Suc limit)"
proof (induction limit blk data rule: count_blocks.induct)
  case (1 limit blk data)
  show ?case
  proof (cases "length data < 256 \<or> Suc blk > limit")
    case True
    then show ?thesis using 1(2) by (subst count_blocks.simps) (auto simp: min_def div_greater_zero_iff not_less Suc_le_eq)
  next
    case False
    then have "count_blocks limit blk data = count_blocks limit (Suc blk) (drop 256 data)" by (subst count_blocks.simps) simp
    also have "\<dots> = min (Suc blk + (length data - 256) div 256) (Suc limit)" using 1(1) False by simp
    also have "Suc blk + (length data - 256) div 256 = blk + length data div 256"
      using False le_div_geq [of 256 "length data"] by simp
    finally show ?thesis .
  qed
qed

text \<open>What a test does to an image without an error map.\<close>

definition sound_test :: "(bin_file \<Rightarrow> disk_image \<Rightarrow> (bool \<times> disk_image) option) \<Rightarrow> bool" where
  "sound_test c \<longleftrightarrow> (\<forall>f im ok im'. fs_map (im_fs im) = None \<longrightarrow> im_device im = DISK_IMAGE_DEVICE_FS \<longrightarrow> c f im = Some (ok, im') \<longrightarrow>
     im_device im' = DISK_IMAGE_DEVICE_FS \<and> fs_fd (im_fs im') = fs_fd (im_fs im) \<and> im_gcr im' = im_gcr im \<and>
     im_read_only im' = im_read_only im \<and>
     (if ok then im_type im' \<in> disk_formats \<and> map_covers im' else fs_map (im_fs im') = None))"

lemma sound_without_map:
  assumes "\<And>f im ok im'. c f im = Some (ok, im') \<Longrightarrow>
    (\<exists>type tracks half. type \<in> disk_formats \<and> im' = set_format type tracks half im) \<or> \<not> ok \<and> (\<exists>tracks. im' = im \<or> im' = im\<lparr>im_tracks := tracks\<rparr>)"
  shows "sound_test c"
  unfolding sound_test_def
proof (intro allI impI)
  fix f im ok im' assume *: "fs_map (im_fs im) = None" "im_device im = DISK_IMAGE_DEVICE_FS" "c f im = Some (ok, im')"
  from assms [OF *(3)] show "im_device im' = DISK_IMAGE_DEVICE_FS \<and> fs_fd (im_fs im') = fs_fd (im_fs im) \<and> im_gcr im' = im_gcr im \<and>
     im_read_only im' = im_read_only im \<and>
     (if ok then im_type im' \<in> disk_formats \<and> map_covers im' else fs_map (im_fs im') = None)"
    using * by (auto simp: set_format_def map_covers_None)
qed

lemma sound_with_map:
  assumes "fs_map (im_fs im) = None" "im_device im = DISK_IMAGE_DEVICE_FS"
    and "read_error_map blocks f (set_format type tracks half im) = Some (ok, im')" "length (f_data f) = blocks * 256 + blocks" "0 < blocks"
    and "type \<in> disk_formats" "blocks_before (disk_sectors type) (Suc tracks) \<le> blocks"
  shows "im_device im' = DISK_IMAGE_DEVICE_FS \<and> fs_fd (im_fs im') = fs_fd (im_fs im) \<and> im_gcr im' = im_gcr im \<and>
     im_read_only im' = im_read_only im \<and>
     (if ok then im_type im' \<in> disk_formats \<and> map_covers im' else fs_map (im_fs im') = None)"
proof -
  obtain m where m: "im' = (set_format type tracks half im)\<lparr>im_fs := (im_fs im)\<lparr>fs_map := Some m\<rparr>\<rparr>" "length m = blocks"
    using read_error_map_Some [OF assms(3)] by (auto simp: set_format_def)
  have "util_fpread f (replicate blocks 0) blocks (256 * int blocks) = Some (0, take blocks (drop (256 * blocks) (f_data f)))"
    using fpread_ok [of blocks "replicate blocks 0" "256 * blocks" f] assms(4,5) by simp
  then have "ok" using assms(3) by (simp add: read_error_map_def)
  moreover have "map_covers im'"
    using assms(2,6,7) m by (intro map_covers_blocks [of _ m]) (simp_all add: set_format_def)
  ultimately show ?thesis using assms(2,6) m by (simp add: set_format_def)
qed

lemma sound_d64: "sound_test disk_image_check_for_d64"
  unfolding sound_test_def
proof (intro allI impI)
  fix f im ok im'
  assume *: "fs_map (im_fs im) = None" "im_device im = DISK_IMAGE_DEVICE_FS" "disk_image_check_for_d64 f im = Some (ok, im')"
  have start: "D64_FILE_SIZE_35 div 256 = blocks_before (disk_sectors DISK_IMAGE_TYPE_D64) (Suc NUM_TRACKS_1541)"
    using side_blocks(1) by (simp add: D64_FILE_SIZE_35_def NUM_TRACKS_1541_def disk_sectors_def disk_types)
  have f: "DISK_IMAGE_TYPE_D64 \<in> disk_formats" by (simp add: disk_formats_def)
  show "im_device im' = DISK_IMAGE_DEVICE_FS \<and> fs_fd (im_fs im') = fs_fd (im_fs im) \<and> im_gcr im' = im_gcr im \<and>
     im_read_only im' = im_read_only im \<and>
     (if ok then im_type im' \<in> disk_formats \<and> map_covers im' else fs_map (im_fs im') = None)"
  proof (cases "d64_size_loop (util_file_length f) NUM_TRACKS_1541 (D64_FILE_SIZE_35 div 256)")
    case None
    then show ?thesis using * by (simp add: disk_image_check_for_d64_def)
  next
    case (Some r)
    obtain t b e where r: "r = (t, b, e)" by (cases r)
    have tb: "NUM_TRACKS_1541 \<le> t" "b = blocks_before (disk_sectors DISK_IMAGE_TYPE_D64) (Suc t)"
        "length (f_data f) = b * 256 + (if e then b else 0)"
      using d64_loop [OF Some [unfolded r] _ _ start] by (auto simp: NUM_TRACKS_1541_def util_file_length_def)
    have "blocks_before (disk_sectors DISK_IMAGE_TYPE_D64) 36 = 683"
      using side_blocks(1) by (simp add: disk_sectors_def disk_types)
    then have pos: "0 < b" using blocks_before_mono [of 36 "Suc t" "disk_sectors DISK_IMAGE_TYPE_D64"] tb
      by (simp add: NUM_TRACKS_1541_def)
    show ?thesis
    proof (cases e)
      case True
      show ?thesis
        by (rule sound_with_map [OF *(1,2), where blocks = b and type = DISK_IMAGE_TYPE_D64 and tracks = t and half = "MAX_TRACKS_1541 * 2"])
          (use * Some r True tb f pos in \<open>simp_all add: disk_image_check_for_d64_def util_file_length_def\<close>)
    next
      case False
      then show ?thesis using * Some r f by (auto simp: disk_image_check_for_d64_def set_format_def map_covers_None)
    qed
  qed
qed

lemma sound_d71: "sound_test disk_image_check_for_d71"
  unfolding sound_test_def
proof (intro allI impI)
  fix f im ok im'
  assume *: "fs_map (im_fs im) = None" "im_device im = DISK_IMAGE_DEVICE_FS" "disk_image_check_for_d71 f im = Some (ok, im')"
  have f: "DISK_IMAGE_TYPE_D71 \<in> disk_formats" by (simp add: disk_formats_def)
  have blk: "count_blocks 1365 0 (f_data f) = 1366" if "IS_D71_LEN (util_file_length f)"
    using that by (auto simp: count_blocks_div IS_D71_LEN_def D71_FILE_SIZE_def D71_FILE_SIZE_E_def util_file_length_def NUM_BLOCKS_1571_def)
  have total: "blocks_before (disk_sectors DISK_IMAGE_TYPE_D71) (Suc NUM_TRACKS_1571) = 1366"
    using disk_blocks_total [OF f, of 42] by (simp add: disk_tracks_def disk_blocks_def disk_types disk_sizes)
  show "im_device im' = DISK_IMAGE_DEVICE_FS \<and> fs_fd (im_fs im') = fs_fd (im_fs im) \<and> im_gcr im' = im_gcr im \<and>
     im_read_only im' = im_read_only im \<and>
     (if ok then im_type im' \<in> disk_formats \<and> map_covers im' else fs_map (im_fs im') = None)"
  proof (cases "util_file_length f = D71_FILE_SIZE_E")
    case True
    then have l: "IS_D71_LEN (util_file_length f)" by (simp add: IS_D71_LEN_def)
    show ?thesis
      by (rule sound_with_map [OF *(1,2), where blocks = 1366 and type = DISK_IMAGE_TYPE_D71 and tracks = NUM_TRACKS_1571 and half = "MAX_TRACKS_1571 * 2"])
        (use *(3) l True f total in \<open>simp_all add: disk_image_check_for_d71_def blk [OF l] disk_image_check_min_block_def Let_def
          NUM_BLOCKS_1571_def util_file_length_def D71_FILE_SIZE_E_def\<close>)
  next
    case False
    then show ?thesis using * f
      by (auto simp: disk_image_check_for_d71_def Let_def set_format_def map_covers_None split: if_splits)
  qed
qed

lemma sound_d81: "sound_test disk_image_check_for_d81"
  unfolding sound_test_def
proof (intro allI impI)
  fix f im ok im'
  assume *: "fs_map (im_fs im) = None" "im_device im = DISK_IMAGE_DEVICE_FS" "disk_image_check_for_d81 f im = Some (ok, im')"
  have f: "DISK_IMAGE_TYPE_D81 \<in> disk_formats" by (simp add: disk_formats_def)
  define blk where "blk = count_blocks (MAX_BLOCKS_1581 + 13) 0 (f_data f)"
  show "im_device im' = DISK_IMAGE_DEVICE_FS \<and> fs_fd (im_fs im') = fs_fd (im_fs im) \<and> im_gcr im' = im_gcr im \<and>
     im_read_only im' = im_read_only im \<and>
     (if ok then im_type im' \<in> disk_formats \<and> map_covers im' else fs_map (im_fs im') = None)"
  proof (cases "\<exists>tracks. IS_D81_LEN (util_file_length f) \<and> d81_tracks blk = Some (tracks, True) \<and>
      read_error_map (tracks * 40) f (set_format DISK_IMAGE_TYPE_D81 tracks (MAX_TRACKS_1581 * 2) im) = Some (ok, im')")
    case True
    then obtain tracks where t: "IS_D81_LEN (util_file_length f)" "d81_tracks blk = Some (tracks, True)"
      and e: "read_error_map (tracks * 40) f (set_format DISK_IMAGE_TYPE_D81 tracks (MAX_TRACKS_1581 * 2) im) = Some (ok, im')" by blast
    have size: "util_file_length f = tracks * 40 * 256 + tracks * 40" "0 < tracks"
      using t(1,2) unfolding blk_def
      by (auto simp: count_blocks_div IS_D81_LEN_def d81_tracks_def util_file_length_def disk_sizes
          D81_FILE_SIZE_def D81_FILE_SIZE_E_def D81_FILE_SIZE_81_def D81_FILE_SIZE_81E_def D81_FILE_SIZE_82_def
          D81_FILE_SIZE_82E_def D81_FILE_SIZE_83_def D81_FILE_SIZE_83E_def)
    have total: "blocks_before (disk_sectors DISK_IMAGE_TYPE_D81) (Suc tracks) = tracks * 40"
      using blocks_before_const [of "Suc tracks" "\<lambda>t. 40" 40] by (simp add: disk_sectors_def disk_types)
    show ?thesis
      by (rule sound_with_map [OF *(1,2) e]) (use size f total in \<open>simp_all add: util_file_length_def\<close>)
  next
    case False
    then show ?thesis using * f
      by (auto simp: disk_image_check_for_d81_def Let_def blk_def map_covers_None split: if_splits option.splits)
        (simp_all add: set_format_def map_covers_None)
  qed
qed

lemma sound_others:
  "sound_test disk_image_check_for_d67" "sound_test disk_image_check_for_d80" "sound_test disk_image_check_for_d82"
  "sound_test disk_image_check_for_x64" "sound_test disk_image_check_for_gcr" "sound_test (disk_image_check_for_p64 p64 False)"
  "sound_test disk_image_check_for_d1m" "sound_test disk_image_check_for_d2m" "sound_test disk_image_check_for_d4m"
proof -
  have f: "DISK_IMAGE_TYPE_D67 \<in> disk_formats" "DISK_IMAGE_TYPE_D80 \<in> disk_formats" "DISK_IMAGE_TYPE_D82 \<in> disk_formats"
    "DISK_IMAGE_TYPE_X64 \<in> disk_formats" "DISK_IMAGE_TYPE_G64 \<in> disk_formats" "DISK_IMAGE_TYPE_G71 \<in> disk_formats"
    "DISK_IMAGE_TYPE_P64 \<in> disk_formats" "DISK_IMAGE_TYPE_D1M \<in> disk_formats" "DISK_IMAGE_TYPE_D2M \<in> disk_formats"
    "DISK_IMAGE_TYPE_D4M \<in> disk_formats"
    by (simp_all add: disk_formats_def)
  show "sound_test disk_image_check_for_d67"
    by (rule sound_without_map) (use f in \<open>auto simp: disk_image_check_for_d67_def Let_def split: if_splits\<close>)
  show "sound_test disk_image_check_for_d80"
    by (rule sound_without_map) (use f in \<open>auto simp: disk_image_check_for_d80_def Let_def split: if_splits\<close>)
  show "sound_test disk_image_check_for_d82"
    by (rule sound_without_map) (use f in \<open>auto simp: disk_image_check_for_d82_def Let_def split: if_splits\<close>)
  show "sound_test disk_image_check_for_x64"
    by (rule sound_without_map) (use f in \<open>auto simp: disk_image_check_for_x64_def Let_def split: if_splits\<close>)
  show "sound_test disk_image_check_for_gcr"
    by (rule sound_without_map) (use f in \<open>auto simp: disk_image_check_for_gcr_def Let_def bind_eq_Some_conv split: if_splits\<close>)
  show "sound_test (disk_image_check_for_p64 p64 False)"
    by (rule sound_without_map) (use f in \<open>auto simp: disk_image_check_for_p64_def Let_def bind_eq_Some_conv split: if_splits\<close>)
  show "sound_test disk_image_check_for_d1m"
    by (rule sound_without_map) (use f in \<open>auto simp: disk_image_check_for_d1m_def Let_def split: if_splits\<close>)
  show "sound_test disk_image_check_for_d2m"
    by (rule sound_without_map) (use f in \<open>auto simp: disk_image_check_for_d2m_def Let_def split: if_splits\<close>)
  show "sound_test disk_image_check_for_d4m"
    by (rule sound_without_map) (use f in \<open>auto simp: disk_image_check_for_d4m_def Let_def set_format_def split: if_splits\<close>)
qed

lemma first_format_sound:
  assumes "\<forall>c\<in>set cs. sound_test c" "fs_map (im_fs im) = None" "im_device im = DISK_IMAGE_DEVICE_FS" "first_format cs f im = Some (0, im')"
  shows "im_device im' = DISK_IMAGE_DEVICE_FS \<and> fs_fd (im_fs im') = fs_fd (im_fs im) \<and> im_gcr im' = im_gcr im \<and>
    im_read_only im' = im_read_only im \<and> im_type im' \<in> disk_formats \<and> map_covers im'"
  using assms
proof (induction cs arbitrary: im)
  case (Cons c cs)
  obtain ok im1 where c: "c f im = Some (ok, im1)" "if ok then im' = im1 else first_format cs f im1 = Some (0, im')"
    using Cons.prems(4) by (auto simp: bind_eq_Some_conv split: if_splits)
  have s: "im_device im1 = DISK_IMAGE_DEVICE_FS \<and> fs_fd (im_fs im1) = fs_fd (im_fs im) \<and> im_gcr im1 = im_gcr im \<and>
     im_read_only im1 = im_read_only im \<and>
     (if ok then im_type im1 \<in> disk_formats \<and> map_covers im1 else fs_map (im_fs im1) = None)"
    using Cons.prems(1) c(1) Cons.prems(2,3) unfolding sound_test_def by (meson list.set_intros(1))
  show ?case
  proof (cases ok)
    case False
    then show ?thesis using Cons.IH [of im1] Cons.prems(1) s c(2) by simp
  qed (use s c(2) in simp)
qed simp



end
