(* ===== verification/DiskAttach.thy ===== *)
theory DiskAttach
  imports DiskLaws
begin

unbundle bit_operations_syntax

text \<open>
  Attaching a disk image to the emulated drive: the sectors of a D64, X64 or D71 image are laid out on raw tracks, and the image
  answers sector reads from these tracks as it did from its file. The last section holds the images on which the code leaves its
  arrays or takes the wrong block.
\<close>

section \<open>Reading an image into raw tracks\<close>

text \<open>A sector the image has on its file, with an error code that the raw track reproduces.\<close>

definition loadable_code :: "disk_image \<Rightarrow> int \<Rightarrow> bool" where
  "loadable_code im k \<longleftrightarrow> mapped im k \<and> block_code im k \<in> {CBMDOS_FDC_ERR_OK, CBMDOS_FDC_ERR_NOBLOCK, CBMDOS_FDC_ERR_DCHECK}"

definition loadable :: "disk_image \<Rightarrow> bin_file \<Rightarrow> nat \<Rightarrow> nat \<Rightarrow> bool" where
  "loadable im f t n \<longleftrightarrow> fs_fd (im_fs im) = Some f \<and>
    (\<forall>s<n. 0 \<le> check_sector im t s \<and> block_at im t s + 256 \<le> length (f_data f) \<and> loadable_code im (check_sector im t s))"

text \<open>The code \<open>fsimage_read_dxx_image\<close> lays the sector out with.\<close>

definition layout_code :: "disk_image \<Rightarrow> int \<Rightarrow> int" where
  "layout_code im k = (case fs_map (im_fs im) of None \<Rightarrow> CBMDOS_FDC_ERR_DRIVE | Some m \<Rightarrow> uint (m ! nat k))"

lemma fdc_distinct:
  "CBMDOS_FDC_ERR_OK \<notin> {CBMDOS_FDC_ERR_HEADER, CBMDOS_FDC_ERR_SYNC, CBMDOS_FDC_ERR_NOBLOCK, CBMDOS_FDC_ERR_DCHECK}"
  "CBMDOS_FDC_ERR_DRIVE \<notin> {CBMDOS_FDC_ERR_HEADER, CBMDOS_FDC_ERR_SYNC, CBMDOS_FDC_ERR_NOBLOCK, CBMDOS_FDC_ERR_DCHECK}"
  "CBMDOS_FDC_ERR_NOBLOCK \<notin> {CBMDOS_FDC_ERR_HEADER, CBMDOS_FDC_ERR_SYNC}"
  "CBMDOS_FDC_ERR_DCHECK \<notin> {CBMDOS_FDC_ERR_HEADER, CBMDOS_FDC_ERR_SYNC}"
  by (simp_all add: fdc_err_defs)

lemma layout_code_plain:
  assumes "loadable_code im k"
  shows "layout_code im k \<notin> {CBMDOS_FDC_ERR_HEADER, CBMDOS_FDC_ERR_SYNC}"
    "(if layout_code im k \<in> {CBMDOS_FDC_ERR_NOBLOCK, CBMDOS_FDC_ERR_DCHECK} then layout_code im k else CBMDOS_FDC_ERR_OK) = block_code im k"
  using assms fdc_distinct by (auto simp: loadable_code_def layout_code_def block_code_def split: option.splits)

definition layout_list :: "disk_image \<Rightarrow> bin_file \<Rightarrow> nat \<Rightarrow> nat \<Rightarrow> nat \<Rightarrow> (int \<times> u8 list) list" where
  "layout_list im f t k n = map (\<lambda>s. (layout_code im (check_sector im t s), file_block f (block_at im t s))) [k..<k + n]"

lemma layout_list_Suc:
  "layout_list im f t k (Suc n) = (layout_code im (check_sector im t k), file_block f (block_at im t k)) # layout_list im f t (Suc k) n"
  by (simp add: layout_list_def upt_conv_Cons del: upt_Suc)

text \<open>The loop over the sectors is the layout of the file's blocks.\<close>

lemma read_sectors_layout:
  assumes "loadable im f t m"
  shows "k + n \<le> m \<Longrightarrow> length buffer = 256 \<Longrightarrow> dxx_sectors header gap k (layout_list im f t k n) ptr mem = Some mem' \<Longrightarrow>
    \<exists>buffer'. length buffer' = 256 \<and> dxx_read_sectors im t header gap k n ptr mem buffer = Some (mem', buffer')"
proof (induction n arbitrary: k ptr mem buffer)
  case 0
  then show ?case by (simp add: layout_list_def)
next
  case (Suc n)
  let ?c = "check_sector im t k"
  let ?block = "file_block f (block_at im t k)"
  have ok: "fs_fd (im_fs im) = Some f" "0 \<le> ?c" "block_at im t k + 256 \<le> length (f_data f)" "loadable_code im ?c"
    using assms Suc.prems(1) by (auto simp: loadable_def)
  have r: "util_fpread f buffer 256 (dxx_offset im ?c) = Some (0, ?block)"
    using fpread_ok [of 256 buffer "block_at im t k" f] ok Suc.prems(2) by (simp add: block_at_offset file_block_def)
  have c: "(case fs_map (im_fs im) of Some m \<Rightarrow> if (0::int) \<ge> 0 then map_option uint (arr_get m ?c) else Some CBMDOS_FDC_ERR_DRIVE
      | None \<Rightarrow> Some CBMDOS_FDC_ERR_DRIVE) = Some (layout_code im ?c)"
    using ok(2,4) by (auto simp: layout_code_def loadable_code_def mapped_def arr_get_def split: option.splits)
  have len: "length ?block = 256" using ok(3) by (simp add: file_block_def)
  obtain off mem1 where m: "gcr_convert_sector_to_GCR ?block (header\<lparr>h_sector := word_of_nat k\<rparr>) 9 5 (layout_code im ?c) (ptr, mem) = Some (off, mem1)"
    "dxx_sectors header gap (Suc k) (layout_list im f t (Suc k) n) (ptr + (SECTOR_GCR_SIZE_WITH_HEADER + 9 + gap + 5)) mem1 = Some mem'"
    using Suc.prems(3) by (auto simp: layout_list_Suc bind_eq_Some_conv)
  obtain buffer' where b: "length buffer' = 256"
    "dxx_read_sectors im t header gap (Suc k) n (ptr + (SECTOR_GCR_SIZE_WITH_HEADER + 9 + gap + 5)) mem1 ?block = Some (mem', buffer')"
    using Suc.IH [OF _ len m(2)] Suc.prems(1) by auto
  have "dxx_read_sectors im t header gap k (Suc n) ptr mem buffer = Some (mem', buffer')"
    using ok(1,2) r c m(1) b(2) by (simp add: Let_def)
  then show ?case using b(1) by blast
qed

text \<open>A raw track that gives the sectors of the file.\<close>

definition track_holds :: "disk_image \<Rightarrow> bin_file \<Rightarrow> nat \<Rightarrow> nat \<Rightarrow> disk_track \<Rightarrow> bool" where
  "track_holds im f t n raw \<longleftrightarrow> (\<forall>s<n. gcr_read_sector raw (word_of_nat s) =
     Some (block_code im (check_sector im t s), Some (file_block f (block_at im t s))))"

lemma read_sectors_holds:
  assumes l: "loadable im f t n" and n: "n \<le> 256" "n * (SECTOR_GCR_SIZE_WITH_HEADER + 9 + gap + 5) \<le> sz" and "length buffer = 256"
  shows "\<exists>mem buffer'. length buffer' = 256 \<and> dxx_read_sectors im t header gap 0 n 0 (replicate sz 0x55) buffer = Some (mem, buffer') \<and>
    track_holds im f t n \<lparr>trk_data = Some mem, trk_size = sz\<rparr>"
proof -
  let ?bs = "layout_list im f t 0 n"
  have len: "length ?bs = n" by (simp add: layout_list_def)
  have nth: "?bs ! s = (layout_code im (check_sector im t s), file_block f (block_at im t s))" if "s < n" for s
    using that by (simp add: layout_list_def)
  have code: "loadable_code im (check_sector im t s)" "block_at im t s + 256 \<le> length (f_data f)" if "s < n" for s
    using l that by (simp_all add: loadable_def)
  have plain: "\<forall>s\<in>set ?bs. length (snd s) = 256 \<and> fst s \<noteq> CBMDOS_FDC_ERR_HEADER \<and> fst s \<noteq> CBMDOS_FDC_ERR_SYNC"
  proof -
    have "length (file_block f (block_at im t s)) = 256" if "s < n" for s using code(2) [OF that] by (simp add: file_block_def)
    then show ?thesis using layout_code_plain(1) [OF code(1)] by (auto simp: layout_list_def)
  qed
  have size: "length ?bs * (SECTOR_GCR_SIZE_WITH_HEADER + 9 + gap + 5) \<le> sz" using n(2) len by simp
  note trip = track_round_trip [OF plain _ size, of _ header]
  have "\<exists>mem. dxx_track header gap sz ?bs = Some mem"
  proof -
    have "\<forall>s\<in>set ?bs. plain_sector s" using plain by (simp add: plain_sector_def)
    moreover have "length ?bs * (354 + gap) \<le> sz" using size by (simp add: SECTOR_GCR_SIZE_WITH_HEADER_def)
    ultimately show ?thesis by (rule dxx_track_holds) blast
  qed
  then obtain mem where mem: "dxx_track header gap sz ?bs = Some mem" ..
  obtain buffer' where b: "length buffer' = 256" "dxx_read_sectors im t header gap 0 n 0 (replicate sz 0x55) buffer = Some (mem, buffer')"
    using read_sectors_layout [OF l _ assms(4), of 0 n header gap 0 "replicate sz 0x55" mem] mem by (auto simp: dxx_track_def)
  have "gcr_read_sector \<lparr>trk_data = Some mem, trk_size = sz\<rparr> (word_of_nat s) =
     Some (block_code im (check_sector im t s), Some (file_block f (block_at im t s)))" if "s < n" for s
  proof -
    have "gcr_read_sector \<lparr>trk_data = Some mem, trk_size = sz\<rparr> (word_of_nat s) =
        Some (if fst (?bs ! s) \<in> {CBMDOS_FDC_ERR_NOBLOCK, CBMDOS_FDC_ERR_DCHECK} then fst (?bs ! s) else CBMDOS_FDC_ERR_OK, Some (snd (?bs ! s)))"
      using trip [of s] that n(1) len mem by simp
    then show ?thesis unfolding nth [OF that] fst_conv snd_conv layout_code_plain(2) [OF code(1) [OF that]] .
  qed
  then show ?thesis using b by (auto simp: track_holds_def)
qed

lemma fpread_length: "util_fpread f buf n k = Some (r, buf') \<Longrightarrow> length buf' = length buf"
  by (auto simp: util_fpread_def Let_def min_def split: if_splits)

lemma read_bam_Some:
  assumes "fs_fd (im_fs im) = Some f" "length buffer = 256"
  shows "\<exists>buffer'. read_bam im buffer k = Some buffer' \<and> length buffer' = 256"
proof (cases "k \<ge> 0")
  case True
  have "\<exists>r buffer'. util_fpread f buffer 256 (k * 256) = Some (r, buffer')" using assms(2) by (simp add: util_fpread_def Let_def)
  then show ?thesis using True assms fpread_length by (auto simp: read_bam_def)
qed (use assms in \<open>simp add: read_bam_def\<close>)

definition track_fits :: "disk_image \<Rightarrow> bin_file \<Rightarrow> nat \<Rightarrow> bool" where
  "track_fits im f t \<longleftrightarrow> (let n = disk_image_sector_per_track (im_type im) t in loadable im f t n \<and> n \<le> 256 \<and>
     n * (SECTOR_GCR_SIZE_WITH_HEADER + 9 + disk_image_gap_size (im_type im) t + 5) \<le> disk_image_raw_track_size (im_type im) t)"

lemma read_track_step:
  assumes "fs_fd (im_fs im) = Some f" "1 \<le> t" "t * 2 \<le> length tracks" "length buffer = 256" "t \<le> im_tracks im \<Longrightarrow> track_fits im f t"
  shows "\<exists>tracks' header' buffer'. dxx_read_track im ds t (tracks, header, buffer) = Some (tracks', header', buffer') \<and>
    length tracks' = length tracks \<and> length buffer' = 256 \<and>
    (\<forall>i. i \<noteq> t * 2 - 2 \<longrightarrow> i \<noteq> t * 2 - 1 \<longrightarrow> tracks' ! i = tracks ! i) \<and>
    (t \<le> im_tracks im \<longrightarrow> track_holds im f t (disk_image_sector_per_track (im_type im) t) (tracks' ! (t * 2 - 2)))"
proof -
  let ?h = "t * 2 - 2"
  let ?sz = "disk_image_raw_track_size (im_type im) t"
  have i: "?h < length tracks" "Suc ?h < length tracks" "Suc ?h = t * 2 - 1" using assms(2,3) by simp_all
  have a: "arr_get tracks (int t * 2 - 2) = Some (tracks ! ?h)" "arr_get tracks (int t * 2 - 1) = Some (tracks ! (t * 2 - 1))"
  proof -
    have "int t * 2 - 2 = int ?h" "int t * 2 - 1 = int (t * 2 - 1)" using assms(2) by linarith+
    then show "arr_get tracks (int t * 2 - 2) = Some (tracks ! ?h)" "arr_get tracks (int t * 2 - 1) = Some (tracks ! (t * 2 - 1))"
      using i arr_get_int [of ?h tracks] arr_get_int [of "t * 2 - 1" tracks] by simp_all
  qed
  define put where "put mem = (let ts = tracks[?h := \<lparr>trk_data = Some mem, trk_size = ?sz\<rparr>] in
    if trk_data (ts ! Suc ?h) = None then ts else ts[Suc ?h := \<lparr>trk_data = None, trk_size = 0\<rparr>])" for mem
  have put: "length (put mem) = length tracks" "put mem ! ?h = \<lparr>trk_data = Some mem, trk_size = ?sz\<rparr>"
    "j \<noteq> ?h \<Longrightarrow> j \<noteq> t * 2 - 1 \<Longrightarrow> put mem ! j = tracks ! j" for mem j
    using i by (simp_all add: put_def Let_def)
  have "\<exists>mem header' buffer'. dxx_read_track im ds t (tracks, header, buffer) = Some (put mem, header', buffer') \<and> length buffer' = 256 \<and>
    (t \<le> im_tracks im \<longrightarrow> track_holds im f t (disk_image_sector_per_track (im_type im) t) \<lparr>trk_data = Some mem, trk_size = ?sz\<rparr>)"
  proof (cases "t \<le> im_tracks im")
    case True
    define n where "n = disk_image_sector_per_track (im_type im) t"
    note fit = assms(5) [OF True, unfolded track_fits_def Let_def n_def [symmetric]]
    have "\<exists>header1 buffer1. (if ds \<and> t = 36 then do {
          let buffer = buffer[BAM_ID_1571 := 0xa0, BAM_ID_1571 + 1 := 0xa0];
          buffer \<leftarrow> read_bam im buffer (check_sector im (BAM_TRACK_1571 + 35) BAM_SECTOR_1571);
          Some (header\<lparr>h_id1 := buffer ! BAM_ID_1571, h_id2 := buffer ! (BAM_ID_1571 + 1), h_track := 1\<rparr>, buffer)
        } else Some (header, buffer)) = Some (header1, buffer1) \<and> length buffer1 = 256"
      using read_bam_Some [OF assms(1), of "buffer[BAM_ID_1571 := 0xa0, BAM_ID_1571 + 1 := 0xa0]" "check_sector im (BAM_TRACK_1571 + 35) BAM_SECTOR_1571"]
        assms(4) by (auto simp: Let_def)
    then obtain header1 buffer1 where bam: "(if ds \<and> t = 36 then do {
          let buffer = buffer[BAM_ID_1571 := 0xa0, BAM_ID_1571 + 1 := 0xa0];
          buffer \<leftarrow> read_bam im buffer (check_sector im (BAM_TRACK_1571 + 35) BAM_SECTOR_1571);
          Some (header\<lparr>h_id1 := buffer ! BAM_ID_1571, h_id2 := buffer ! (BAM_ID_1571 + 1), h_track := 1\<rparr>, buffer)
        } else Some (header, buffer)) = Some (header1, buffer1)" "length buffer1 = 256" by blast
    obtain mem buffer' where m: "length buffer' = 256"
      "dxx_read_sectors im t header1 (disk_image_gap_size (im_type im) t) 0 n 0 (replicate ?sz 0x55) buffer1 = Some (mem, buffer')"
      "track_holds im f t n \<lparr>trk_data = Some mem, trk_size = ?sz\<rparr>"
      using read_sectors_holds [of im f t n _ ?sz buffer1 header1] fit bam(2) by blast
    have "dxx_read_track im ds t (tracks, header, buffer) = Some (put mem, header1\<lparr>h_track := h_track header1 + 1\<rparr>, buffer')"
      unfolding dxx_read_track_def prod.case Let_def [of "?h"] bam(1) Let_def [of "?sz"]
      using True i m(2) by (simp add: a n_def [symmetric] bam(1) put_def Let_def)
    then show ?thesis using m(1,3) n_def by blast
  next
    case False
    then have "dxx_read_track im ds t (tracks, header, buffer) = Some (put (replicate ?sz 0x55), header\<lparr>h_track := h_track header + 1\<rparr>, buffer)"
      using i by (simp add: a dxx_read_track_def put_def Let_def)
    then show ?thesis using False assms(4) by blast
  qed
  then show ?thesis using put by (metis (no_types, lifting))
qed

lemma read_tracks_hold:
  assumes "fs_fd (im_fs im) = Some f" "\<And>t. 1 \<le> t \<Longrightarrow> t \<le> im_tracks im \<Longrightarrow> track_fits im f t"
  shows "1 \<le> k \<Longrightarrow> (k + n - 1) * 2 \<le> length tracks \<Longrightarrow> length buffer = 256 \<Longrightarrow>
    \<exists>tracks' header' buffer'. dxx_read_tracks im ds k n (tracks, header, buffer) = Some (tracks', header', buffer') \<and> length tracks' = length tracks \<and>
      (\<forall>i<k * 2 - 2. tracks' ! i = tracks ! i) \<and>
      (\<forall>t. k \<le> t \<longrightarrow> t < k + n \<longrightarrow> t \<le> im_tracks im \<longrightarrow>
        track_holds im f t (disk_image_sector_per_track (im_type im) t) (tracks' ! (t * 2 - 2)))"
proof (induction n arbitrary: k tracks header buffer)
  case (Suc n)
  have k: "k * 2 \<le> length tracks" using Suc.prems(1,2) by simp
  obtain tracks1 header1 buffer1 where s: "dxx_read_track im ds k (tracks, header, buffer) = Some (tracks1, header1, buffer1)"
    "length tracks1 = length tracks" "length buffer1 = 256" "\<And>i. i \<noteq> k * 2 - 2 \<Longrightarrow> i \<noteq> k * 2 - 1 \<Longrightarrow> tracks1 ! i = tracks ! i"
    "k \<le> im_tracks im \<Longrightarrow> track_holds im f k (disk_image_sector_per_track (im_type im) k) (tracks1 ! (k * 2 - 2))"
    using read_track_step [OF assms(1) Suc.prems(1) k Suc.prems(3) assms(2) [OF Suc.prems(1)], of ds header] by blast
  obtain tracks2 header2 buffer2 where r: "dxx_read_tracks im ds (Suc k) n (tracks1, header1, buffer1) = Some (tracks2, header2, buffer2)"
    "length tracks2 = length tracks1" "\<And>i. i < Suc k * 2 - 2 \<Longrightarrow> tracks2 ! i = tracks1 ! i"
    "\<And>t. Suc k \<le> t \<Longrightarrow> t < Suc k + n \<Longrightarrow> t \<le> im_tracks im \<Longrightarrow>
        track_holds im f t (disk_image_sector_per_track (im_type im) t) (tracks2 ! (t * 2 - 2))"
    using Suc.IH [of "Suc k" tracks1 buffer1 header1] Suc.prems s(2,3) by auto
  have "track_holds im f t (disk_image_sector_per_track (im_type im) t) (tracks2 ! (t * 2 - 2))"
    if "k \<le> t" "t < k + Suc n" "t \<le> im_tracks im" for t
  proof (cases "t = k")
    case True
    have "tracks2 ! (k * 2 - 2) = tracks1 ! (k * 2 - 2)" using Suc.prems(1) by (intro r(3)) simp
    then show ?thesis using s(5) that True by simp
  qed (use r(4) that in simp)
  moreover have "tracks2 ! i = tracks ! i" if "i < k * 2 - 2" for i
    using r(3) [of i] s(4) [of i] that by simp
  ultimately show ?case using s(1,2) r(1,2) by auto
qed simp

lemma holds_read:
  assumes "track_holds im f t n raw" "s < n" "length b = 256" "length (file_block f (block_at im t s)) = 256"
  shows "gcr_read_into raw b s = Some (block_code im (check_sector im t s), file_block f (block_at im t s))"
  using assms by (simp add: gcr_read_into_def track_holds_def)

lemma sectors_fit:
  assumes "format \<in> {DISK_IMAGE_TYPE_D64, DISK_IMAGE_TYPE_X64, DISK_IMAGE_TYPE_G64, DISK_IMAGE_TYPE_P64, DISK_IMAGE_TYPE_D71,
      DISK_IMAGE_TYPE_G71, DISK_IMAGE_TYPE_D80, DISK_IMAGE_TYPE_D82}"
  shows "disk_image_sector_per_track format t * (SECTOR_GCR_SIZE_WITH_HEADER + 9 + disk_image_gap_size format t + 5) \<le>
    disk_image_raw_track_size format t" "disk_image_sector_per_track format t \<le> 256"
proof -
  define z where "z = disk_image_speed_map format t"
  have o: "of_bool a + of_bool b + of_bool c < (4 :: nat)" for a b c by (cases a; cases b; cases c) simp_all
  have "z < 4" unfolding z_def disk_image_speed_map_def Let_def by (simp only: o zero_less_numeral split: if_split) blast
  then have z: "z = 0 \<or> z = 1 \<or> z = 2 \<or> z = 3" by linarith
  note defs = disk_image_sector_per_track_def disk_image_gap_size_def disk_image_raw_track_size_def z_def [symmetric]
    sector_map_d64_def sector_map_d80_def gap_size_d64_def raw_track_size_d64_def raw_track_size_d80_def SECTOR_GCR_SIZE_WITH_HEADER_def
  from assms consider "format \<in> {DISK_IMAGE_TYPE_D64, DISK_IMAGE_TYPE_X64, DISK_IMAGE_TYPE_G64, DISK_IMAGE_TYPE_P64, DISK_IMAGE_TYPE_D71,
      DISK_IMAGE_TYPE_G71}" | "format \<in> {DISK_IMAGE_TYPE_D80, DISK_IMAGE_TYPE_D82}" by blast
  then have "disk_image_sector_per_track format t * (SECTOR_GCR_SIZE_WITH_HEADER + 9 + disk_image_gap_size format t + 5) \<le>
    disk_image_raw_track_size format t \<and> disk_image_sector_per_track format t \<le> 256"
  proof cases
    case 1
    then have "disk_image_sector_per_track format t = sector_map_d64 ! z" "disk_image_gap_size format t = gap_size_d64 ! z"
      "disk_image_raw_track_size format t = raw_track_size_d64 ! z"
      by (auto simp: z_def disk_image_sector_per_track_def disk_image_gap_size_def disk_image_raw_track_size_def)
    then show ?thesis using z by (auto simp: sector_map_d64_def gap_size_d64_def raw_track_size_d64_def SECTOR_GCR_SIZE_WITH_HEADER_def)
  next
    case 2
    then have "disk_image_sector_per_track format t = sector_map_d80 ! z" "disk_image_gap_size format t = 25"
      "disk_image_raw_track_size format t = raw_track_size_d80 ! z"
      by (auto simp: z_def disk_image_sector_per_track_def disk_image_gap_size_def disk_image_raw_track_size_def disk_types)
    then show ?thesis using z by (auto simp: sector_map_d80_def raw_track_size_d80_def SECTOR_GCR_SIZE_WITH_HEADER_def)
  qed
  then show "disk_image_sector_per_track format t * (SECTOR_GCR_SIZE_WITH_HEADER + 9 + disk_image_gap_size format t + 5) \<le>
    disk_image_raw_track_size format t" "disk_image_sector_per_track format t \<le> 256" by blast+
qed



section \<open>Divergences\<close>

text \<open>
  C37 (error_map_overrun) A D64 image of 35 tracks with error information, read at track 36: the address check accepts the track, the
  file has the bytes (they are the error information), and the code of the sector is read past the end of the error map.
\<close>

theorem error_map_overrun:
  assumes "im_device im = DISK_IMAGE_DEVICE_FS" "im_type im = DISK_IMAGE_TYPE_D64" "im_tracks im = 35" "im_gcr im = None"
    and "fs_fd (im_fs im) = Some f" "length (f_data f) = 683 * 256 + 683" "fs_map (im_fs im) = Some m" "length m = 683" "length b = 256"
  shows "fsimage_dxx_read_sector im b 36 0 = None"
proof -
  have "check_sector im 36 0 = int (blocks_before (disk_sectors DISK_IMAGE_TYPE_D64) 36)"
    using assms(1,2) check_sector_numbering [of DISK_IMAGE_TYPE_D64 35 36 0] sectors_zones(1) [of 36]
    by (simp add: disk_image_check_sector_def disk_formats_def disk_tracks_def disk_sectors_def disk_types assms(3))
  then have c: "check_sector im 36 0 = 683" using side_blocks(1) by (simp add: disk_sectors_def disk_types)
  have "block_at im 36 0 = 683 * 256" using c assms(2) by (simp add: block_at_def header_size_def disk_types)
  then have "util_fpread f b 256 (dxx_offset im 683) = Some (0, file_block f (683 * 256))"
    using fpread_ok [of 256 b "683 * 256" f] assms(2,6,9) by (simp add: dxx_offset_def disk_types file_block_def)
  then show ?thesis using assms c by (simp add: fsimage_dxx_read_sector_def Let_def arr_get_def)
qed

theorem error_map_overrun_witness:
  "fsimage_dxx_read_sector
     \<lparr>im_fs = \<lparr>fs_fd = Some \<lparr>f_data = replicate 175531 1, f_writable = True\<rparr>, fs_name = [], fs_map = Some (replicate 683 1), fs_dirty = False\<rparr>,
      im_read_only = False, im_device = 0, im_type = 1541, im_tracks = 35, im_max_half_tracks = 84, im_gcr = None\<rparr> (replicate 256 0) 36 0 = None"
  by (rule error_map_overrun [where f = "\<lparr>f_data = replicate 175531 1, f_writable = True\<rparr>" and m = "replicate 683 1"])
    (simp_all add: disk_devices disk_types)

text \<open>
  The block that the raw image takes the disk ID of an X64 image from starts 64 bytes before the block of the BAM,
  since the length of the file header is left out.
\<close>

theorem x64_wrong_bam:
  assumes "im_type im = DISK_IMAGE_TYPE_X64" "fs_fd (im_fs im) = Some f" "length buffer = 256"
    and "0 \<le> check_sector im t s" "block_at im t s + 256 \<le> length (f_data f)"
  shows "read_bam im buffer (check_sector im t s) = Some (file_block f (block_at im t s - X64_HEADER_LENGTH))"
proof -
  let ?k = "nat (check_sector im t s) * 256"
  have k: "block_at im t s = ?k + X64_HEADER_LENGTH" "check_sector im t s * 256 = int ?k"
    using assms(1,4) by (simp_all add: block_at_def header_size_def)
  show ?thesis
    using fpread_ok [of 256 buffer ?k f] assms k by (simp add: read_bam_def file_block_def)
qed

theorem x64_wrong_bam_witness:
  "read_bam \<lparr>im_fs = \<lparr>fs_fd = Some \<lparr>f_data = replicate 500 3, f_writable = True\<rparr>, fs_name = [], fs_map = None, fs_dirty = False\<rparr>,
      im_read_only = False, im_device = 0, im_type = 0, im_tracks = 35, im_max_half_tracks = 84, im_gcr = None\<rparr> (replicate 256 0) 0 =
    Some (file_block \<lparr>f_data = replicate 500 3, f_writable = True\<rparr> 0)"
proof -
  let ?f = "\<lparr>f_data = replicate 500 3, f_writable = True\<rparr> :: bin_file"
  let ?im = "\<lparr>im_fs = \<lparr>fs_fd = Some ?f, fs_name = [], fs_map = None, fs_dirty = False\<rparr>,
      im_read_only = False, im_device = 0, im_type = 0, im_tracks = 35, im_max_half_tracks = 84, im_gcr = None\<rparr> :: disk_image"
  have c: "check_sector ?im 1 0 = 0"
    using sectors_zones(1) [of 1]
    by (simp add: disk_image_check_sector_def disk_devices fsimage_check_sector_def disk_types disk_sizes zone_block_def)
  show ?thesis
    using x64_wrong_bam [of ?im ?f "replicate 256 0" 1 0] c
    by (simp add: block_at_def header_size_def disk_types X64_HEADER_LENGTH_def)
qed

text \<open>A sector laid out past the end of the buffer.\<close>

lemma put_bound: "gcr_put bs (off, mem) = Some (off', mem') \<Longrightarrow> off' = off + length bs \<and> off' \<le> length mem \<and> length mem' = length mem"
  by (auto simp: gcr_put_def split: if_splits)

lemma put_blocks_bound:
  "gcr_put_blocks n buffer chk (off, mem) = Some (buffer', chk', off', mem') \<Longrightarrow> 4 * n \<le> length buffer \<Longrightarrow>
    off' = off + 5 * n \<and> length mem' = length mem"
proof (induction n arbitrary: buffer chk off mem)
  case (Suc n)
  have "length (gcr_convert_4bytes_to_GCR (take 4 buffer)) = 5"
  proof -
    have "length (take 4 buffer) = 4 * Suc 0" using Suc.prems(2) by simp
    then show ?thesis by (elim four_more) simp
  qed
  then show ?case using Suc by (fastforce simp: Let_def bind_eq_Some_conv dest!: put_bound)
qed simp

lemma convert_bound:
  assumes "gcr_convert_sector_to_GCR buffer header 9 5 rf (off, mem) = Some (off', mem')" "length buffer = 256"
  shows "off + 354 \<le> length mem" "length mem' = length mem"
  using assms
  by (auto simp: gcr_convert_sector_to_GCR_def Let_def bind_eq_Some_conv gcr_skip_def dest!: put_bound put_blocks_bound)

lemma read_sectors_bound:
  assumes "\<And>s. 0 \<le> check_sector im t s \<or> m \<le> s"
  shows "dxx_read_sectors im t header gap k n ptr mem buffer = Some (mem', buffer') \<Longrightarrow> k + n \<le> m \<Longrightarrow> length buffer = 256 \<Longrightarrow>
    length buffer' = 256 \<and> (0 < n \<longrightarrow> ptr + (n - 1) * (354 + gap) + 354 \<le> length mem)"
proof (induction n arbitrary: k ptr mem buffer)
  case (Suc n)
  have "0 \<le> check_sector im t k" using assms [of k] Suc.prems(2) by simp
  then obtain f r b rf off mem1 where s: "util_fpread f buffer 256 (dxx_offset im (check_sector im t k)) = Some (r, b)"
    "gcr_convert_sector_to_GCR b (header\<lparr>h_sector := word_of_nat k\<rparr>) 9 5 rf (ptr, mem) = Some (off, mem1)"
    "dxx_read_sectors im t header gap (Suc k) n (ptr + (SECTOR_GCR_SIZE_WITH_HEADER + 9 + gap + 5)) mem1 b = Some (mem', buffer')"
    using Suc.prems(1) by (auto simp: Let_def bind_eq_Some_conv)
  have b: "length b = 256" using fpread_length [OF s(1)] Suc.prems(3) by simp
  have c: "ptr + 354 \<le> length mem" "length mem1 = length mem" using convert_bound [OF s(2) b] by simp_all
  show ?case
  proof (cases n)
    case 0
    then show ?thesis using c s(3) b by simp
  next
    case (Suc j)
    then show ?thesis using Suc.IH [OF s(3) _ b] Suc.prems(2) c by (simp add: SECTOR_GCR_SIZE_WITH_HEADER_def algebra_simps)
  qed
qed simp

lemma read_track_buffer:
  assumes "dxx_read_track im ds t (tracks, header, buffer) = Some (tracks', header', buffer')" "length buffer = 256"
    and "\<And>s. 0 \<le> check_sector im t s \<or> disk_image_sector_per_track (im_type im) t \<le> s"
  shows "length buffer' = 256"
proof -
  have r: "length b' = 256" if "read_bam im b k = Some b'" "length b = 256" for b b' k
    using that by (auto simp: read_bam_def bind_eq_Some_conv dest!: fpread_length split: if_splits)
  note step = assms(1) [unfolded dxx_read_track_def Let_def prod.case]
  show ?thesis
  proof (cases "t \<le> im_tracks im")
    case False
    then show ?thesis using step assms(2) by (simp add: bind_eq_Some_conv)
  next
    case fits: True
    obtain header1 mem mem1 buffer1 where
      s: "dxx_read_sectors im t header1 (disk_image_gap_size (im_type im) t) 0 (disk_image_sector_per_track (im_type im) t) 0 mem buffer1 = Some (mem1, buffer')"
        "length buffer1 = 256"
    proof (cases "ds \<and> t = 36")
      case False
      have e: "(if ds \<and> t = 36 then x else y) = y" for x y :: "(gcr_header \<times> u8 list) option" using False by (rule if_not_P)
      show ?thesis using step fits assms(2) that unfolding e by (fastforce simp: bind_eq_Some_conv split del: if_split)
    next
      case True
      have e: "(if ds \<and> t = 36 then x else y) = x" for x y :: "(gcr_header \<times> u8 list) option" using True by (rule if_P)
      have l: "length (buffer[BAM_ID_1571 := 0xa0, BAM_ID_1571 + 1 := 0xa0]) = 256" using assms(2) by simp
      show ?thesis using step fits that r [OF _ l] unfolding e by (fastforce simp: bind_eq_Some_conv split del: if_split)
    qed
    show ?thesis using read_sectors_bound [OF assms(3) s(1) _ s(2)] by simp
  qed
qed

text \<open>Tracks 18 to 24 of a D67 image have 20 sectors, but the raw track is the one of 19 sectors.\<close>

lemma d67_track_18:
  assumes "im_device im = DISK_IMAGE_DEVICE_FS" "im_type im = DISK_IMAGE_TYPE_D67" "im_tracks im = 35" "length buffer = 256"
  shows "dxx_read_track im ds 18 (tracks, header, buffer) = None"
proof (rule ccontr)
  have chk: "0 \<le> check_sector im 18 s \<or> 20 \<le> s" for s
    using assms(1,2) check_sector_numbering [of DISK_IMAGE_TYPE_D67 35 18 s] sectors_zones(2) [of 18]
    by (simp add: disk_image_check_sector_def disk_formats_def disk_tracks_def disk_sectors_def assms(3))
  have z: "disk_image_speed_map DISK_IMAGE_TYPE_D67 18 = 2" by (simp add: disk_image_speed_map_def)
  have g: "disk_image_gap_size DISK_IMAGE_TYPE_D67 18 = 17" "disk_image_raw_track_size DISK_IMAGE_TYPE_D67 18 = 7142"
    by (simp_all add: disk_image_gap_size_def disk_image_raw_track_size_def z gap_size_d64_def raw_track_size_d64_def)
  assume "dxx_read_track im ds 18 (tracks, header, buffer) \<noteq> None"
  then obtain header1 mem buffer1 where
    "dxx_read_sectors im 18 header1 17 0 20 0 (replicate 7142 0x55) buffer = Some (mem, buffer1)"
    using assms(2,3) g sectors_zones(2) [of 18] by (auto simp: dxx_read_track_def Let_def bind_eq_Some_conv split: if_splits)
  from read_sectors_bound [OF chk this _ assms(4)] show False by simp
qed

lemma read_tracks_18:
  assumes "im_device im = DISK_IMAGE_DEVICE_FS" "im_type im = DISK_IMAGE_TYPE_D67" "im_tracks im = 35"
  shows "1 \<le> k \<Longrightarrow> k \<le> 18 \<Longrightarrow> 18 < k + n \<Longrightarrow> length buffer = 256 \<Longrightarrow> dxx_read_tracks im ds k n (tracks, header, buffer) = None"
proof (induction n arbitrary: k tracks header buffer)
  case (Suc n)
  show ?case
  proof (cases "k = 18")
    case True
    then show ?thesis using d67_track_18 [OF assms Suc.prems(4)] by simp
  next
    case False
    have chk: "0 \<le> check_sector im k s \<or> disk_image_sector_per_track (im_type im) k \<le> s" for s
      using assms(1,2) check_sector_numbering [of DISK_IMAGE_TYPE_D67 35 k s] Suc.prems(1,2)
      by (simp add: disk_image_check_sector_def disk_formats_def disk_tracks_def disk_sectors_def assms(3))
    show ?thesis
    proof (cases "dxx_read_track im ds k (tracks, header, buffer)")
      case (Some st)
      obtain tracks1 header1 buffer1 where st: "st = (tracks1, header1, buffer1)" by (cases st)
      then show ?thesis
        using Suc.IH [of "Suc k" buffer1 tracks1 header1] Suc.prems False Some read_track_buffer [OF Some [unfolded st] Suc.prems(4) chk] by simp
    qed simp
  qed
qed simp

text \<open>
  Reading a D67 image into raw tracks writes past the end of a raw track: the 20 sectors of track 18 do not fit the
  7142 bytes allocated for it, while the tracks before it fit.
\<close>

theorem d67_track_overflow:
  assumes "im_device im = DISK_IMAGE_DEVICE_FS" "im_type im = DISK_IMAGE_TYPE_D67" "im_tracks im = 35" "18 \<le> im_max_half_tracks im div 2"
    and "fs_fd (im_fs im) = Some f" "length buffer = 256"
  shows "fsimage_read_dxx_image buffer im = None \<and>
    (\<forall>t\<in>{1..17}. disk_image_sector_per_track (im_type im) t * (SECTOR_GCR_SIZE_WITH_HEADER + 9 + disk_image_gap_size (im_type im) t + 5)
       \<le> disk_image_raw_track_size (im_type im) t)"
proof
  have not80: "(im_type im = DISK_IMAGE_TYPE_D80 \<or> im_type im = DISK_IMAGE_TYPE_D82) = False" using assms(2) by (simp add: disk_types)
  obtain buffer1 where bam: "read_bam im (buffer[BAM_ID_1541 := 0xa0, BAM_ID_1541 + 1 := 0xa0]) (check_sector im BAM_TRACK_1541 BAM_SECTOR_1541) =
      Some buffer1" "length buffer1 = 256"
    using read_bam_Some [OF assms(5)] assms(6) by (metis length_list_update)
  have none: "dxx_read_tracks im ds 1 (im_max_half_tracks im div 2) (tracks, header, buffer1) = None" for ds tracks header
    using read_tracks_18 [OF assms(1-3), of 1 "im_max_half_tracks im div 2" buffer1] assms(4) bam(2) by simp
  show "fsimage_read_dxx_image buffer im = None"
    unfolding fsimage_read_dxx_image_def Let_def not80 if_False prod.case bam(1) Option.bind.simps none by (cases "im_gcr im") simp_all
  show "\<forall>t\<in>{1..17}. disk_image_sector_per_track (im_type im) t * (SECTOR_GCR_SIZE_WITH_HEADER + 9 + disk_image_gap_size (im_type im) t + 5)
       \<le> disk_image_raw_track_size (im_type im) t"
  proof
    fix t :: nat assume "t \<in> {1..17}"
    then have "disk_image_speed_map DISK_IMAGE_TYPE_D67 t = 3" by (simp add: disk_image_speed_map_def)
    moreover have "disk_image_sector_per_track DISK_IMAGE_TYPE_D67 t = 21" using sectors_zones(2) [of t] \<open>t \<in> {1..17}\<close> by simp
    ultimately show "disk_image_sector_per_track (im_type im) t * (SECTOR_GCR_SIZE_WITH_HEADER + 9 + disk_image_gap_size (im_type im) t + 5)
       \<le> disk_image_raw_track_size (im_type im) t"
      by (simp add: assms(2) disk_image_gap_size_def disk_image_raw_track_size_def gap_size_d64_def raw_track_size_d64_def
          SECTOR_GCR_SIZE_WITH_HEADER_def)
  qed
qed

theorem d67_track_overflow_witness:
  "fsimage_read_dxx_image (replicate 256 0)
     \<lparr>im_fs = \<lparr>fs_fd = Some \<lparr>f_data = replicate 176640 1, f_writable = True\<rparr>, fs_name = [], fs_map = None, fs_dirty = False\<rparr>,
      im_read_only = False, im_device = 0, im_type = 2040, im_tracks = 35, im_max_half_tracks = 70,
      im_gcr = Some (replicate 168 \<lparr>trk_data = None, trk_size = 0\<rparr>)\<rparr> = None"
  by (rule d67_track_overflow [where f = "\<lparr>f_data = replicate 176640 1, f_writable = True\<rparr>", THEN conjunct1])
    (simp_all add: disk_devices disk_types)

text \<open>
  A GCR image whose header counts more than 168 half tracks is opened with that many; reading a sector of a
  track past 84 through the raw image reads outside its array of 168 half tracks.
\<close>

theorem gcr_tracks_overrun:
  assumes "im_gcr im = Some tracks" "length tracks = MAX_GCR_TRACKS" "84 < t" "t \<le> im_tracks im"
  shows "fsimage_gcr_read_sector im b t s = None"
  using assms by (simp add: fsimage_gcr_read_sector_def gcr_track_of_def arr_get_def MAX_GCR_TRACKS_def nat_less_iff)

theorem gcr_tracks_overrun_witness:
  "\<exists>im. disk_image_check_for_gcr \<lparr>f_data = [0x47, 0x43, 0x52, 0x2D, 0x31, 0x35, 0x34, 0x31, 0, 200] @ replicate 30 0, f_writable = False\<rparr>
      \<lparr>im_fs = \<lparr>fs_fd = None, fs_name = [], fs_map = None, fs_dirty = False\<rparr>, im_read_only = False, im_device = 0, im_type = 0,
       im_tracks = 0, im_max_half_tracks = 0, im_gcr = Some (replicate 168 \<lparr>trk_data = None, trk_size = 0\<rparr>)\<rparr> = Some (True, im) \<and>
    fsimage_gcr_read_sector im (replicate 256 0) 100 0 = None"
  by (intro exI conjI, (simp add: disk_image_check_for_gcr_def util_fpread_def Let_def set_format_def; fail),
      rule gcr_tracks_overrun [where tracks = "replicate 168 \<lparr>trk_data = None, trk_size = 0\<rparr>"])
    (simp_all add: MAX_GCR_TRACKS_def)

end
