(* ===== verification/VdriveBam.thy ===== *)
theory VdriveBam
  imports DiskProbe
begin

unbundle bit_operations_syntax

text \<open>
  The block availability map of the virtual drive, vdrive-bam.c, with the formats and the attachment of vdrive.c: which sectors of
  a disk are free, where the next block of a file goes, how the map is read from and written to the image. The map is the byte
  array the drive holds; an access outside it, or through the pointer NULL, is None. Track and sector numbers are natural
  numbers, far below the range of \<open>unsigned int\<close>. Log messages are left out.
\<close>

section \<open>State\<close>

definition VDRIVE_IMAGE_FORMAT_1541 :: nat where "VDRIVE_IMAGE_FORMAT_1541 = 0"
definition VDRIVE_IMAGE_FORMAT_1571 :: nat where "VDRIVE_IMAGE_FORMAT_1571 = 1"
definition VDRIVE_IMAGE_FORMAT_1581 :: nat where "VDRIVE_IMAGE_FORMAT_1581 = 2"
definition VDRIVE_IMAGE_FORMAT_8050 :: nat where "VDRIVE_IMAGE_FORMAT_8050 = 3"
definition VDRIVE_IMAGE_FORMAT_8250 :: nat where "VDRIVE_IMAGE_FORMAT_8250 = 4"
definition VDRIVE_IMAGE_FORMAT_2040 :: nat where "VDRIVE_IMAGE_FORMAT_2040 = 5"
definition VDRIVE_IMAGE_FORMAT_4000 :: nat where "VDRIVE_IMAGE_FORMAT_4000 = 6"

lemmas vdrive_formats = VDRIVE_IMAGE_FORMAT_1541_def VDRIVE_IMAGE_FORMAT_1571_def VDRIVE_IMAGE_FORMAT_1581_def
  VDRIVE_IMAGE_FORMAT_8050_def VDRIVE_IMAGE_FORMAT_8250_def VDRIVE_IMAGE_FORMAT_2040_def VDRIVE_IMAGE_FORMAT_4000_def

definition BAM_BIT_MAP :: nat where "BAM_BIT_MAP = 4"
definition BAM_BIT_MAP_1581 :: nat where "BAM_BIT_MAP_1581 = 16"
definition BAM_BIT_MAP_8050 :: nat where "BAM_BIT_MAP_8050 = 6"
definition BAM_BIT_MAP_8250 :: nat where "BAM_BIT_MAP_8250 = BAM_BIT_MAP_8050"
definition BAM_BIT_MAP_4000 :: nat where "BAM_BIT_MAP_4000 = 32"
definition BAM_EXT_BIT_MAP_1541 :: nat where "BAM_EXT_BIT_MAP_1541 = 192"
definition BAM_EXT_BIT_MAP_1571 :: nat where "BAM_EXT_BIT_MAP_1571 = 221"
definition BAM_VERSION_1541 :: nat where "BAM_VERSION_1541 = 165"
definition BAM_VERSION_1581 :: nat where "BAM_VERSION_1581 = 25"
definition BAM_VERSION_8050 :: nat where "BAM_VERSION_8050 = 27"
definition BAM_VERSION_4000 :: nat where "BAM_VERSION_4000 = 25"
definition BAM_TRACK_1581 :: nat where "BAM_TRACK_1581 = 40"
definition BAM_SECTOR_1581 :: nat where "BAM_SECTOR_1581 = 0"
definition BAM_TRACK_4000 :: nat where "BAM_TRACK_4000 = 1"
definition BAM_SECTOR_4000 :: nat where "BAM_SECTOR_4000 = 1"

lemmas bam_places = BAM_BIT_MAP_def BAM_BIT_MAP_1581_def BAM_BIT_MAP_8050_def BAM_BIT_MAP_8250_def BAM_BIT_MAP_4000_def
  BAM_EXT_BIT_MAP_1541_def BAM_EXT_BIT_MAP_1571_def BAM_TRACK_1581_def

text \<open>
  \<open>cmd_errors\<close> are the calls of \<open>vdrive_command_set_error\<close>, the last one first. The channels and the memory of the drive
  are not part of this component.
\<close>

definition CBMDOS_IPE_NO_BLOCK :: int where "CBMDOS_IPE_NO_BLOCK = 65"
definition CBMDOS_IPE_ILLEGAL_TRACK_OR_SECTOR :: int where "CBMDOS_IPE_ILLEGAL_TRACK_OR_SECTOR = 66"

record vdrive =
  vd_image :: disk_image
  image_format :: nat
  num_tracks :: nat
  Bam_Track :: nat
  Bam_Sector :: nat
  bam_name :: nat
  bam_id :: nat
  Header_Track :: nat
  Header_Sector :: nat
  Dir_Track :: nat
  Dir_Sector :: nat
  Part_Start :: nat
  Part_End :: nat
  bam :: "u8 list"
  cmd_errors :: "(int \<times> nat \<times> nat) list"

definition vdrive_command_set_error :: "int \<Rightarrow> nat \<Rightarrow> nat \<Rightarrow> vdrive \<Rightarrow> vdrive" where
  "vdrive_command_set_error code track sector v = v\<lparr>cmd_errors := (code, track, sector) # cmd_errors v\<rparr>"

definition vdrive_get_max_sectors :: "vdrive \<Rightarrow> nat \<Rightarrow> int" where
  "vdrive_get_max_sectors v track =
    (if image_format v = VDRIVE_IMAGE_FORMAT_1541 then int (disk_image_sector_per_track DISK_IMAGE_TYPE_D64 track)
     else if image_format v = VDRIVE_IMAGE_FORMAT_2040 then int (disk_image_sector_per_track DISK_IMAGE_TYPE_D67 track)
     else if image_format v = VDRIVE_IMAGE_FORMAT_1571 then int (disk_image_sector_per_track DISK_IMAGE_TYPE_D71 track)
     else if image_format v = VDRIVE_IMAGE_FORMAT_8050 then int (disk_image_sector_per_track DISK_IMAGE_TYPE_D80 track)
     else if image_format v = VDRIVE_IMAGE_FORMAT_1581 then 40
     else if image_format v = VDRIVE_IMAGE_FORMAT_8250 then
       (if track \<le> NUM_TRACKS_8250 div 2 then int (disk_image_sector_per_track DISK_IMAGE_TYPE_D80 track)
        else int (disk_image_sector_per_track DISK_IMAGE_TYPE_D80 (track - NUM_TRACKS_8250 div 2)))
     else if image_format v = VDRIVE_IMAGE_FORMAT_4000 then 256
     else - 1)"

text \<open>The count as the \<open>unsigned int\<close> that bounds the loops over the sectors of a track.\<close>

definition sectors_of :: "vdrive \<Rightarrow> nat \<Rightarrow> nat" where
  "sectors_of v track = nat (vdrive_get_max_sectors v track mod 2 ^ 32)"

text \<open>The cases of \<open>vdrive_set_disk_geometry\<close>: the track and sector of the BAM, the places of name and ID in it, and the start of
  the directory. The header is where the BAM is.\<close>

definition set_geometry :: "nat \<Rightarrow> nat \<Rightarrow> nat \<Rightarrow> nat \<Rightarrow> nat \<Rightarrow> nat \<Rightarrow> vdrive \<Rightarrow> vdrive" where
  "set_geometry bt bs nm idp dt ds v = v\<lparr>Bam_Track := bt, Bam_Sector := bs, Header_Track := bt, Header_Sector := bs,
     bam_name := nm, bam_id := idp, Dir_Track := dt, Dir_Sector := ds\<rparr>"

definition vdrive_set_disk_geometry :: "vdrive \<Rightarrow> vdrive" where
  "vdrive_set_disk_geometry v =
    (let v = (if image_format v = VDRIVE_IMAGE_FORMAT_1541 then set_geometry 18 0 144 162 18 1 v
       else if image_format v = VDRIVE_IMAGE_FORMAT_2040 then set_geometry 18 0 144 162 18 1 v
       else if image_format v = VDRIVE_IMAGE_FORMAT_1571 then set_geometry 18 0 144 162 18 1 v
       else if image_format v = VDRIVE_IMAGE_FORMAT_1581 then set_geometry 40 0 4 22 40 3 v
       else if image_format v = VDRIVE_IMAGE_FORMAT_8050 then set_geometry 39 0 6 24 39 1 v
       else if image_format v = VDRIVE_IMAGE_FORMAT_8250 then set_geometry 39 0 6 24 39 1 v
       else if image_format v = VDRIVE_IMAGE_FORMAT_4000 then set_geometry 1 1 4 22 1 34 v
       else v)
     in v\<lparr>Part_Start := 1, Part_End := num_tracks v\<rparr>)"

section \<open>The map of free sectors\<close>

text \<open>
  A pointer into the BAM is an offset, which may be -1 for an entry whose count is elsewhere. The outer None is an access outside the
  BAM, \<open>Some None\<close> the pointer NULL.
\<close>

fun find_block :: "u8 list \<Rightarrow> nat \<Rightarrow> nat list \<Rightarrow> int option option" where
  "find_block b track [] = Some None"
| "find_block b track (i # is) = do {
     lo \<leftarrow> arr_get b (int i * 0x100 + 4);
     if unat lo \<le> track then do {
       hi \<leftarrow> arr_get b (int i * 0x100 + 5);
       if track < unat hi then Some (Some (int i * 0x100 + int BAM_BIT_MAP_8050 + 5 * int (track - unat lo))) else find_block b track is
     } else find_block b track is
   }"

definition vdrive_bam_get_track_entry :: "vdrive \<Rightarrow> nat \<Rightarrow> int option option" where
  "vdrive_bam_get_track_entry v track =
    (if track = 0 then Some None
     else if image_format v \<in> {VDRIVE_IMAGE_FORMAT_1541, VDRIVE_IMAGE_FORMAT_2040} then
       Some (Some (if track \<le> NUM_TRACKS_1541 then int (BAM_BIT_MAP + 4 * (track - 1))
                   else int (BAM_EXT_BIT_MAP_1541 + 4 * (track - NUM_TRACKS_1541 - 1))))
     else if image_format v = VDRIVE_IMAGE_FORMAT_1571 then
       Some (Some (if track \<le> NUM_TRACKS_1571 div 2 then int (BAM_BIT_MAP + 4 * (track - 1))
                   else 0x100 + 3 * (int track - int (NUM_TRACKS_1571 div 2) - 1) - 1))
     else if image_format v = VDRIVE_IMAGE_FORMAT_1581 then
       Some (Some (if track \<le> BAM_TRACK_1581 then int (0x100 + BAM_BIT_MAP_1581 + 6 * (track - 1))
                   else int (0x200 + BAM_BIT_MAP_1581 + 6 * (track - BAM_TRACK_1581 - 1))))
     else if image_format v = VDRIVE_IMAGE_FORMAT_8050 then find_block (bam v) track [1, 2]
     else if image_format v = VDRIVE_IMAGE_FORMAT_8250 then find_block (bam v) track [1, 2, 3, 4]
     else if image_format v = VDRIVE_IMAGE_FORMAT_4000 then Some (Some (int (0x100 + BAM_BIT_MAP_4000 + 32 * (track - 1)) - 1))
     else Some None)"

definition vdrive_bam_set :: "int \<Rightarrow> nat \<Rightarrow> u8 list \<Rightarrow> u8 list option" where
  "vdrive_bam_set bamp sector b = do {
     x \<leftarrow> arr_get b (bamp + 1 + int (sector div 8));
     arr_set b (bamp + 1 + int (sector div 8)) (x OR push_bit (sector mod 8) 1)
   }"

definition vdrive_bam_clr :: "int \<Rightarrow> nat \<Rightarrow> u8 list \<Rightarrow> u8 list option" where
  "vdrive_bam_clr bamp sector b = do {
     x \<leftarrow> arr_get b (bamp + 1 + int (sector div 8));
     arr_set b (bamp + 1 + int (sector div 8)) (x AND NOT (push_bit (sector mod 8) 1))
   }"

definition vdrive_bam_isset :: "int \<Rightarrow> nat \<Rightarrow> u8 list \<Rightarrow> bool option" where
  "vdrive_bam_isset bamp sector b = do {
     x \<leftarrow> arr_get b (bamp + 1 + int (sector div 8));
     Some (truth (x AND push_bit (sector mod 8) 1))
   }"

definition vdrive_bam_sector_free :: "vdrive \<Rightarrow> int \<Rightarrow> nat \<Rightarrow> u8 \<Rightarrow> u8 list \<Rightarrow> u8 list option" where
  "vdrive_bam_sector_free v bamp track add b =
    (if image_format v \<in> {VDRIVE_IMAGE_FORMAT_1541, VDRIVE_IMAGE_FORMAT_2040, VDRIVE_IMAGE_FORMAT_1581, VDRIVE_IMAGE_FORMAT_8050,
        VDRIVE_IMAGE_FORMAT_8250}
     then do { x \<leftarrow> arr_get b bamp; arr_set b bamp (x + add) }
     else if image_format v = VDRIVE_IMAGE_FORMAT_1571 then
       (let k = (if track \<le> NUM_TRACKS_1571 div 2 then bamp else int (BAM_EXT_BIT_MAP_1571 + track) - int (NUM_TRACKS_1571 div 2) - 1)
        in do { x \<leftarrow> arr_get b k; arr_set b k (x + add) })
     else Some b)"

text \<open>Tracks past 70 have no place in the map of a 1571 disk; the map of a 4000 disk counts the bits of a byte from the top.\<close>

definition map_sector :: "vdrive \<Rightarrow> nat \<Rightarrow> nat" where
  "map_sector v sector = (if image_format v = VDRIVE_IMAGE_FORMAT_4000 then sector XOR 7 else sector)"

definition vdrive_bam_allocate_sector :: "vdrive \<Rightarrow> nat \<Rightarrow> nat \<Rightarrow> (bool \<times> vdrive) option" where
  "vdrive_bam_allocate_sector v track sector =
    (if track > NUM_TRACKS_1571 \<and> image_format v = VDRIVE_IMAGE_FORMAT_1571 then Some (False, v)
     else do {
       let sector = map_sector v sector;
       p \<leftarrow> vdrive_bam_get_track_entry v track;
       bamp \<leftarrow> p;
       free \<leftarrow> vdrive_bam_isset bamp sector (bam v);
       if free then do {
         b \<leftarrow> vdrive_bam_sector_free v bamp track (- 1) (bam v);
         b \<leftarrow> vdrive_bam_clr bamp sector b;
         Some (True, v\<lparr>bam := b\<rparr>)
       } else Some (False, v)
     })"

definition vdrive_bam_free_sector :: "vdrive \<Rightarrow> nat \<Rightarrow> nat \<Rightarrow> (bool \<times> vdrive) option" where
  "vdrive_bam_free_sector v track sector =
    (if track > NUM_TRACKS_1571 \<and> image_format v = VDRIVE_IMAGE_FORMAT_1571 then Some (False, v)
     else do {
       let sector = map_sector v sector;
       p \<leftarrow> vdrive_bam_get_track_entry v track;
       bamp \<leftarrow> p;
       free \<leftarrow> vdrive_bam_isset bamp sector (bam v);
       if \<not> free then do {
         b \<leftarrow> vdrive_bam_set bamp sector (bam v);
         b \<leftarrow> vdrive_bam_sector_free v bamp track 1 b;
         Some (True, v\<lparr>bam := b\<rparr>)
       } else Some (False, v)
     })"

section \<open>Searching for a free sector\<close>

definition vdrive_calculate_disk_half :: "vdrive \<Rightarrow> int" where
  "vdrive_calculate_disk_half v =
    (if image_format v \<in> {VDRIVE_IMAGE_FORMAT_1541, VDRIVE_IMAGE_FORMAT_2040} then 17 + 5
     else if image_format v = VDRIVE_IMAGE_FORMAT_1571 then 17 + 35
     else if image_format v = VDRIVE_IMAGE_FORMAT_1581 then 40
     else if image_format v \<in> {VDRIVE_IMAGE_FORMAT_8050, VDRIVE_IMAGE_FORMAT_8250} then 39
     else if image_format v = VDRIVE_IMAGE_FORMAT_4000 then int (num_tracks v) - 1
     else - 1)"

text \<open>The loop over the sectors of a track: the first of the \<open>n\<close> sectors from \<open>s\<close> that can be allocated.\<close>

fun alloc_sectors :: "vdrive \<Rightarrow> nat \<Rightarrow> nat \<Rightarrow> nat \<Rightarrow> (nat option \<times> vdrive) option" where
  "alloc_sectors v t s 0 = Some (None, v)"
| "alloc_sectors v t s (Suc n) = do {
     (got, v) \<leftarrow> vdrive_bam_allocate_sector v t s;
     if got then Some (Some s, v) else alloc_sectors v t (Suc s) n
   }"

text \<open>
  \<open>*track\<close> and \<open>*sector\<close> are passed and returned. A round of the search tries the track \<open>d\<close> below the BAM and then the one \<open>d\<close>
  above. The counter of an unknown format would run through all of \<open>unsigned int\<close>; its first allocation reads a NULL pointer.
\<close>

definition alloc_below :: "vdrive \<Rightarrow> nat \<Rightarrow> ((nat \<times> nat) option \<times> vdrive) option" where
  "alloc_below v d =
    (let t = int (Bam_Track v) - int d in
     if d \<noteq> 0 \<and> 1 \<le> t
     then map_option (\<lambda>(r, v). (map_option (\<lambda>s. (nat t, s)) r, v)) (alloc_sectors v (nat t) 0 (sectors_of v (nat t)))
     else Some (None, v))"

definition alloc_above :: "vdrive \<Rightarrow> nat \<Rightarrow> ((nat \<times> nat) option \<times> vdrive) option" where
  "alloc_above v d =
    (let t = Bam_Track v + d in
     if t \<le> num_tracks v
     then (let m = sectors_of v t; s = (if d \<noteq> 0 then 0 else if image_format v = VDRIVE_IMAGE_FORMAT_4000 then 64 else m)
           in map_option (\<lambda>(r, v). (map_option (\<lambda>s. (t, s)) r, v)) (alloc_sectors v t s (m - s)))
     else Some (None, v))"

fun alloc_first :: "vdrive \<Rightarrow> nat \<Rightarrow> nat \<Rightarrow> ((nat \<times> nat) option \<times> vdrive) option" where
  "alloc_first v d 0 = Some (None, v)"
| "alloc_first v d (Suc n) = do {
     (r, v) \<leftarrow> alloc_below v d;
     if r \<noteq> None then Some (r, v)
     else do {
       (r, v) \<leftarrow> alloc_above v d;
       if r \<noteq> None then Some (r, v) else alloc_first v (Suc d) n
     }
   }"

definition vdrive_bam_alloc_first_free_sector :: "vdrive \<Rightarrow> nat \<Rightarrow> nat \<Rightarrow> (int \<times> nat \<times> nat \<times> vdrive) option" where
  "vdrive_bam_alloc_first_free_sector v track sector = do {
     (r, v) \<leftarrow> alloc_first v 0 (Suc (nat (vdrive_calculate_disk_half v mod 2 ^ 32)));
     case r of
       Some (t, s) \<Rightarrow> Some (0, t, s, v)
     | None \<Rightarrow> Some (- 1, track, sector, v)
   }"

fun alloc_down :: "vdrive \<Rightarrow> nat \<Rightarrow> ((nat \<times> nat) option \<times> vdrive) option" where
  "alloc_down v 0 = Some (None, v)"
| "alloc_down v (Suc t) = do {
     (r, v) \<leftarrow> alloc_sectors v (Suc t) 0 (sectors_of v (Suc t));
     case r of
       Some s \<Rightarrow> Some (Some (Suc t, s), v)
     | None \<Rightarrow> alloc_down v t
   }"

fun alloc_up :: "vdrive \<Rightarrow> nat \<Rightarrow> nat \<Rightarrow> ((nat \<times> nat) option \<times> vdrive) option" where
  "alloc_up v t 0 = Some (None, v)"
| "alloc_up v t (Suc n) = do {
     (r, v) \<leftarrow> alloc_sectors v t 0 (sectors_of v t);
     case r of
       Some s \<Rightarrow> Some (Some (t, s), v)
     | None \<Rightarrow> alloc_up v (Suc t) n
   }"

definition vdrive_bam_alloc_down :: "vdrive \<Rightarrow> nat \<Rightarrow> nat \<Rightarrow> (int \<times> nat \<times> nat \<times> vdrive) option" where
  "vdrive_bam_alloc_down v track sector = do {
     (r, v) \<leftarrow> alloc_down v track;
     case r of Some (t, s) \<Rightarrow> Some (0, t, s, v) | None \<Rightarrow> Some (- 1, track, sector, v)
   }"

definition vdrive_bam_alloc_up :: "vdrive \<Rightarrow> nat \<Rightarrow> nat \<Rightarrow> (int \<times> nat \<times> nat \<times> vdrive) option" where
  "vdrive_bam_alloc_up v track sector = do {
     (r, v) \<leftarrow> alloc_up v track (Suc (num_tracks v) - track);
     case r of Some (t, s) \<Rightarrow> Some (0, t, s, v) | None \<Rightarrow> Some (- 1, track, sector, v)
   }"

definition vdrive_bam_get_interleave :: "nat \<Rightarrow> nat" where
  "vdrive_bam_get_interleave fmt =
    (if fmt \<in> {VDRIVE_IMAGE_FORMAT_1541, VDRIVE_IMAGE_FORMAT_2040} then 10
     else if fmt = VDRIVE_IMAGE_FORMAT_1571 then 6
     else if fmt = VDRIVE_IMAGE_FORMAT_1581 then 1
     else if fmt = VDRIVE_IMAGE_FORMAT_8050 then 6
     else if fmt = VDRIVE_IMAGE_FORMAT_8250 then 7
     else if fmt = VDRIVE_IMAGE_FORMAT_4000 then 1
     else 10)"

text \<open>The search on the same track, in \<open>n\<close> rounds, with wrap-around at \<open>max_sector\<close>.\<close>

fun alloc_same_track :: "vdrive \<Rightarrow> nat \<Rightarrow> nat \<Rightarrow> nat \<Rightarrow> nat \<Rightarrow> (nat option \<times> vdrive) option" where
  "alloc_same_track v t max_sector s 0 = Some (None, v)"
| "alloc_same_track v t max_sector s (Suc n) = do {
     let s = (if image_format v = VDRIVE_IMAGE_FORMAT_4000 \<and> t = Bam_Track v \<and> s < 64 then 64 else s);
     (got, v) \<leftarrow> vdrive_bam_allocate_sector v t s;
     if got then Some (Some s, v)
     else alloc_same_track v t max_sector (if Suc s \<ge> max_sector then 0 else Suc s) n
   }"

text \<open>The searches on other tracks, one after the other until one succeeds.\<close>

fun first_success ::
    "(nat \<times> nat \<times> vdrive \<Rightarrow> (int \<times> nat \<times> nat \<times> vdrive) option) list \<Rightarrow> nat \<times> nat \<times> vdrive \<Rightarrow> (int \<times> nat \<times> nat \<times> vdrive) option" where
  "first_success [] (track, sector, v) = Some (- 1, track, sector, v)"
| "first_success (f # fs) st = do {
     (r, st) \<leftarrow> f st;
     if r = 0 then Some (0, st) else first_success fs st
   }"

definition vdrive_bam_alloc_next_free_sector :: "vdrive \<Rightarrow> nat \<Rightarrow> nat \<Rightarrow> (int \<times> nat \<times> nat \<times> vdrive) option" where
  "vdrive_bam_alloc_next_free_sector v track sector =
    (if track = Bam_Track v \<and> (image_format v \<noteq> VDRIVE_IMAGE_FORMAT_4000 \<or> sector < 64) then Some (- 1, track, sector, v)
     else do {
       let max_sector = sectors_of v track;
       let s = sector + vdrive_bam_get_interleave (image_format v);
       let s = (if s \<ge> max_sector then s - max_sector - (if s - max_sector \<noteq> 0 then 1 else 0) else s);
       (r, v) \<leftarrow> alloc_same_track v track max_sector s max_sector;
       case r of
         Some s \<Rightarrow> Some (0, track, s, v)
       | None \<Rightarrow>
           (let track = (if image_format v = VDRIVE_IMAGE_FORMAT_4000 \<and> track = Bam_Track v then Suc track else track);
                down = (\<lambda>(t, s, v). vdrive_bam_alloc_down v t s); up = (\<lambda>(t, s, v). vdrive_bam_alloc_up v t s);
                below = (\<lambda>(t, s, v). vdrive_bam_alloc_down v (Dir_Track v - 1) s);
                above = (\<lambda>(t, s, v). vdrive_bam_alloc_up v (Dir_Track v + 1) s)
            in first_success (if track < Dir_Track v then [down, below, above] else [up, above, below]) (track, 0, v))
     })"

text \<open>The chain of blocks of a file; a round takes a block out of the map, so the loop ends.\<close>

partial_function (option) vdrive_bam_allocate_chain :: "p64_code \<Rightarrow> vdrive \<Rightarrow> nat \<Rightarrow> nat \<Rightarrow> (int \<times> vdrive) option" where
  "vdrive_bam_allocate_chain p64 v t s =
    (if t = 0 then Some (CBMDOS_IPE_OK, v)
     else if check_sector (vd_image v) t s < 0 then
       Some (CBMDOS_IPE_ILLEGAL_TRACK_OR_SECTOR, vdrive_command_set_error CBMDOS_IPE_ILLEGAL_TRACK_OR_SECTOR s t v)
     else do {
       (got, v) \<leftarrow> vdrive_bam_allocate_sector v t s;
       if \<not> got then Some (CBMDOS_IPE_NO_BLOCK, vdrive_command_set_error CBMDOS_IPE_NO_BLOCK s t v)
       else do {
         (rc, tmp) \<leftarrow> disk_image_read_sector p64 (vd_image v) (replicate 256 0) t s;
         if rc > 0 then Some (rc, v)
         else if rc < 0 then Some (CBMDOS_IPE_NOT_READY, v)
         else vdrive_bam_allocate_chain p64 v (unat (tmp ! 0)) (unat (tmp ! 1))
       }
     })"

section \<open>Clearing and creating the map\<close>

text \<open>\<open>memset\<close> and \<open>memcpy\<close> into the BAM, and single stores; the loop of \<open>mystrncpy\<close> stops at a zero byte.\<close>

definition bam_memset :: "nat \<Rightarrow> u8 \<Rightarrow> nat \<Rightarrow> u8 list \<Rightarrow> u8 list option" where
  "bam_memset k x n b = (if k + n \<le> length b then Some (take k b @ replicate n x @ drop (k + n) b) else None)"

definition bam_memcpy :: "nat \<Rightarrow> u8 list \<Rightarrow> u8 list \<Rightarrow> u8 list option" where
  "bam_memcpy k xs b = (if k + length xs \<le> length b then Some (take k b @ xs @ drop (k + length xs) b) else None)"

fun bam_pokes :: "(nat \<times> u8) list \<Rightarrow> u8 list \<Rightarrow> u8 list option" where
  "bam_pokes [] b = Some b"
| "bam_pokes ((k, x) # ps) b = do { b \<leftarrow> arr_set b (int k) x; bam_pokes ps b }"

fun mystrncpy :: "nat \<Rightarrow> u8 list \<Rightarrow> nat \<Rightarrow> u8 list \<Rightarrow> u8 list option" where
  "mystrncpy d s 0 b = Some b"
| "mystrncpy d [] (Suc n) b = None"
| "mystrncpy d (x # s) (Suc n) b = (if x \<noteq> 0 then do { b \<leftarrow> arr_set b (int d) x; mystrncpy (Suc d) s n b } else Some b)"

fun memsets :: "(nat \<times> u8 \<times> nat) list \<Rightarrow> u8 list \<Rightarrow> u8 list option" where
  "memsets [] b = Some b"
| "memsets ((k, x, n) # ms) b = do { b \<leftarrow> bam_memset k x n b; memsets ms b }"

definition clear_ranges :: "nat \<Rightarrow> (nat \<times> u8 \<times> nat) list" where
  "clear_ranges fmt =
    (if fmt = VDRIVE_IMAGE_FORMAT_1541 then [(BAM_EXT_BIT_MAP_1541, 0, 4 * 5), (BAM_BIT_MAP, 0, 4 * NUM_TRACKS_1541)]
     else if fmt = VDRIVE_IMAGE_FORMAT_2040 then [(BAM_BIT_MAP, 0, 4 * NUM_TRACKS_1541)]
     else if fmt = VDRIVE_IMAGE_FORMAT_1571 then
       [(BAM_BIT_MAP, 0, 4 * NUM_TRACKS_1571 div 2), (BAM_EXT_BIT_MAP_1571, 0, NUM_TRACKS_1571 div 2), (0x100, 0, 3 * NUM_TRACKS_1571 div 2)]
     else if fmt = VDRIVE_IMAGE_FORMAT_1581 then
       [(0x100 + BAM_BIT_MAP_1581, 0, 6 * NUM_TRACKS_1581 div 2), (0x200 + BAM_BIT_MAP_1581, 0, 6 * NUM_TRACKS_1581 div 2)]
     else if fmt = VDRIVE_IMAGE_FORMAT_8050 then
       [(0x100 + BAM_BIT_MAP_8050, 0, 0x100 - BAM_BIT_MAP_8050), (0x200 + BAM_BIT_MAP_8050, 0, 0x100 - BAM_BIT_MAP_8050)]
     else if fmt = VDRIVE_IMAGE_FORMAT_8250 then
       [(0x100 + BAM_BIT_MAP_8250, 0, 0x100 - BAM_BIT_MAP_8250), (0x200 + BAM_BIT_MAP_8250, 0, 0x100 - BAM_BIT_MAP_8250),
        (0x300 + BAM_BIT_MAP_8250, 0, 0x100 - BAM_BIT_MAP_8250), (0x400 + BAM_BIT_MAP_8250, 0, 0x100 - BAM_BIT_MAP_8250)]
     else if fmt = VDRIVE_IMAGE_FORMAT_4000 then [(0x100 + BAM_BIT_MAP_4000, 255, 255 * 32)]
     else [])"

definition vdrive_bam_clear_all :: "vdrive \<Rightarrow> vdrive option" where
  "vdrive_bam_clear_all v = map_option (\<lambda>b. v\<lparr>bam := b\<rparr>) (memsets (clear_ranges (image_format v)) (bam v))"

text \<open>The single stores of \<open>vdrive_bam_create_empty_bam\<close>, by format; \<open>i0\<close> and \<open>i1\<close> are the bytes of the ID.\<close>

definition created_bytes :: "vdrive \<Rightarrow> u8 \<Rightarrow> u8 \<Rightarrow> (nat \<times> u8) list" where
  "created_bytes v i0 i1 =
    (if image_format v = VDRIVE_IMAGE_FORMAT_2040 then [(0x02, 0x01), (0xa4, 0x20), (0xa5, 0x20)]
     else if image_format v \<in> {VDRIVE_IMAGE_FORMAT_1541, VDRIVE_IMAGE_FORMAT_1571} then [(BAM_VERSION_1541, 50), (BAM_VERSION_1541 + 1, 65)]
     else if image_format v = VDRIVE_IMAGE_FORMAT_1581 then
       [(0x02, 68), (0x100, word_of_nat (Bam_Track v)), (0x101, 2), (0x200, 0), (0x201, 0xff), (BAM_VERSION_1581, 51), (BAM_VERSION_1581 + 1, 68),
        (0x102, 68), (0x103, 0xbb), (0x104, i0), (0x105, i1), (0x106, 0xc0), (0x202, 68), (0x203, 0xbb), (0x204, i0), (0x205, i1), (0x206, 0xc0)]
     else if image_format v \<in> {VDRIVE_IMAGE_FORMAT_8050, VDRIVE_IMAGE_FORMAT_8250} then
       [(BAM_VERSION_8050, 50), (BAM_VERSION_8050 + 1, 67), (0x100, 38), (0x101, 3), (0x102, 67), (0x104, 1), (0x105, 51)] @
       (if image_format v = VDRIVE_IMAGE_FORMAT_8050 then [(0x200, 39), (0x201, 1), (0x202, 67), (0x204, 51), (0x205, 78)]
        else [(0x200, 38), (0x201, 6), (0x202, 67), (0x204, 51), (0x205, 101), (0x300, 38), (0x301, 9), (0x302, 67), (0x304, 101), (0x305, 151),
              (0x400, 39), (0x401, 1), (0x402, 67), (0x404, 151), (0x405, 155)])
     else if image_format v = VDRIVE_IMAGE_FORMAT_4000 then
       [(0x02, 72), (BAM_VERSION_4000, 49), (BAM_VERSION_4000 + 1, 72), (0x20, word_of_nat (Bam_Track v)), (0x21, word_of_nat (Bam_Sector v)),
        (0x102, 72), (0x103, NOT 72), (0x104, i0), (0x105, i1), (0x106, 0xc0), (0x108, word_of_nat (num_tracks v))]
     else [])"

definition put_name :: "vdrive \<Rightarrow> nat \<Rightarrow> u8 list \<Rightarrow> u8 list \<Rightarrow> u8 list \<Rightarrow> u8 list option" where
  "put_name v n nm idb b = do {
     b \<leftarrow> bam_memset (bam_name v) 0xa0 n b;
     b \<leftarrow> mystrncpy (bam_name v) nm 16 b;
     mystrncpy (bam_id v) idb 2 b
   }"

definition vdrive_bam_create_empty_bam :: "vdrive \<Rightarrow> u8 list \<Rightarrow> u8 list \<Rightarrow> vdrive option" where
  "vdrive_bam_create_empty_bam v nm idb = do {
     b \<leftarrow> bam_memset 0 0 (length (bam v)) (bam v);
     b \<leftarrow> (if image_format v \<notin> {VDRIVE_IMAGE_FORMAT_8050, VDRIVE_IMAGE_FORMAT_8250} then do {
            b \<leftarrow> bam_pokes [(0, word_of_nat (Dir_Track v)), (1, word_of_nat (Dir_Sector v)), (2, 65)] b;
            b \<leftarrow> (if image_format v = VDRIVE_IMAGE_FORMAT_1571 then arr_set b 3 0x80 else Some b);
            put_name v (if image_format v \<in> {VDRIVE_IMAGE_FORMAT_1581, VDRIVE_IMAGE_FORMAT_4000} then 25 else 27) nm idb b
          } else do {
            b \<leftarrow> bam_pokes [(0, 38), (1, 0), (2, 67)] b;
            put_name v 27 nm idb b
          });
     i0 \<leftarrow> arr_get idb 0;
     i1 \<leftarrow> arr_get idb 1;
     b \<leftarrow> bam_pokes (created_bytes v i0 i1) b;
     Some (v\<lparr>bam := b\<rparr>)
   }"

text \<open>The drive of a unit, or NULL; so is its BAM until an image is attached.\<close>

definition vdrive_bam_get_disk_id :: "vdrive option \<Rightarrow> (int \<times> u8 list) option" where
  "vdrive_bam_get_disk_id vd = (case vd of
     None \<Rightarrow> Some (- 1, [])
   | Some v \<Rightarrow> do { x \<leftarrow> arr_get (bam v) (int (bam_id v)); y \<leftarrow> arr_get (bam v) (int (bam_id v) + 1); Some (0, [x, y]) })"

definition vdrive_bam_set_disk_id :: "vdrive option \<Rightarrow> u8 list \<Rightarrow> (int \<times> vdrive option) option" where
  "vdrive_bam_set_disk_id vd idb = (case vd of
     None \<Rightarrow> Some (- 1, None)
   | Some v \<Rightarrow> do {
       x \<leftarrow> arr_get idb 0;
       y \<leftarrow> arr_get idb 1;
       b \<leftarrow> bam_memcpy (bam_id v) [x, y] (bam v);
       Some (0, Some (v\<lparr>bam := b\<rparr>))
     })"

section \<open>Reading and writing the map\<close>

definition vdrive_read_sector :: "p64_code \<Rightarrow> vdrive \<Rightarrow> u8 list \<Rightarrow> nat \<Rightarrow> nat \<Rightarrow> (int \<times> u8 list) option" where
  "vdrive_read_sector p64 v buf track sector = disk_image_read_sector p64 (vd_image v) buf track sector"

definition vdrive_write_sector :: "p64_code \<Rightarrow> vdrive \<Rightarrow> u8 list \<Rightarrow> nat \<Rightarrow> nat \<Rightarrow> (int \<times> vdrive) option" where
  "vdrive_write_sector p64 v buf track sector =
    map_option (\<lambda>(r, im). (r, v\<lparr>vd_image := im\<rparr>)) (disk_image_write_sector p64 (vd_image v) buf track sector)"

text \<open>The blocks of the BAM: where in the buffer, and on the disk, in the order of the calls.\<close>

definition bam_blocks_8250 :: "(nat \<times> nat \<times> nat) list" where
  "bam_blocks_8250 = [(0, BAM_TRACK_8050, BAM_SECTOR_8050), (256, BAM_TRACK_8050 - 1, BAM_SECTOR_8050),
     (512, BAM_TRACK_8050 - 1, BAM_SECTOR_8050 + 3), (768, BAM_TRACK_8050 - 1, BAM_SECTOR_8050 + 6), (1024, BAM_TRACK_8050 - 1, BAM_SECTOR_8050 + 9)]"

definition bam_blocks :: "vdrive \<Rightarrow> (nat \<times> nat \<times> nat) list" where
  "bam_blocks v =
    (if image_format v \<in> {VDRIVE_IMAGE_FORMAT_2040, VDRIVE_IMAGE_FORMAT_1541} then [(0, BAM_TRACK_1541, BAM_SECTOR_1541)]
     else if image_format v = VDRIVE_IMAGE_FORMAT_1571 then [(0, BAM_TRACK_1571, BAM_SECTOR_1571), (256, BAM_TRACK_1571 + 35, BAM_SECTOR_1571)]
     else if image_format v = VDRIVE_IMAGE_FORMAT_1581 then
       [(0, BAM_TRACK_1581, BAM_SECTOR_1581), (256, BAM_TRACK_1581, BAM_SECTOR_1581 + 1), (512, BAM_TRACK_1581, BAM_SECTOR_1581 + 2)]
     else if image_format v = VDRIVE_IMAGE_FORMAT_8050 then take 3 bam_blocks_8250
     else if image_format v = VDRIVE_IMAGE_FORMAT_8250 then bam_blocks_8250
     else if image_format v = VDRIVE_IMAGE_FORMAT_4000 then map (\<lambda>i. (i * 256, BAM_TRACK_4000, BAM_SECTOR_4000 + i)) [0..<33]
     else [])"

text \<open>What is written: the second block of a 1571 by the number of tracks, and the test \<open>image_format == 8050\<close> that never holds.\<close>

definition bam_blocks_written :: "vdrive \<Rightarrow> (nat \<times> nat \<times> nat) list" where
  "bam_blocks_written v =
    (if image_format v = VDRIVE_IMAGE_FORMAT_1571 then
       [(0, BAM_TRACK_1571, BAM_SECTOR_1571), (256, BAM_TRACK_1571 + num_tracks v div 2, BAM_SECTOR_1571)]
     else if image_format v \<in> {VDRIVE_IMAGE_FORMAT_8050, VDRIVE_IMAGE_FORMAT_8250} then
       (if image_format v = 8050 then take 3 bam_blocks_8250 else bam_blocks_8250)
     else bam_blocks v)"

text \<open>Reading stops at the first error; writing goes on and joins the results bit by bit.\<close>

fun bam_read_blocks :: "p64_code \<Rightarrow> (nat \<times> nat \<times> nat) list \<Rightarrow> int \<Rightarrow> vdrive \<Rightarrow> (int \<times> vdrive) option" where
  "bam_read_blocks p64 [] err v = Some (err, v)"
| "bam_read_blocks p64 ((k, t, s) # bs) err v =
    (if k + 256 \<le> length (bam v) then do {
       (err, buf) \<leftarrow> vdrive_read_sector p64 v (take 256 (drop k (bam v))) t s;
       b \<leftarrow> bam_memcpy k buf (bam v);
       if err \<noteq> 0 then Some (err, v\<lparr>bam := b\<rparr>) else bam_read_blocks p64 bs err (v\<lparr>bam := b\<rparr>)
     } else None)"

fun bam_write_blocks :: "p64_code \<Rightarrow> (nat \<times> nat \<times> nat) list \<Rightarrow> int \<Rightarrow> vdrive \<Rightarrow> (int \<times> vdrive) option" where
  "bam_write_blocks p64 [] err v = Some (err, v)"
| "bam_write_blocks p64 ((k, t, s) # bs) err v =
    (if k + 256 \<le> length (bam v) then do {
       (r, v) \<leftarrow> vdrive_write_sector p64 v (take 256 (drop k (bam v))) t s;
       bam_write_blocks p64 bs (err OR r) v
     } else None)"

definition vdrive_bam_read_bam :: "p64_code \<Rightarrow> vdrive \<Rightarrow> (int \<times> vdrive) option" where
  "vdrive_bam_read_bam p64 v = do {
     (err, v) \<leftarrow> bam_read_blocks p64 (bam_blocks v) (- 1) v;
     Some (if err < 0 then CBMDOS_IPE_NOT_READY else err, v)
   }"

definition vdrive_bam_write_bam :: "p64_code \<Rightarrow> vdrive \<Rightarrow> (int \<times> vdrive) option" where
  "vdrive_bam_write_bam p64 v = bam_write_blocks p64 (bam_blocks_written v) (if bam_blocks_written v = [] then - 1 else 0) v"

section \<open>Counting free blocks\<close>

fun count_in_blocks :: "u8 list \<Rightarrow> nat \<Rightarrow> nat list \<Rightarrow> nat option" where
  "count_in_blocks b i [] = Some 0"
| "count_in_blocks b i (j # js) = do {
     lo \<leftarrow> arr_get b (int j * 0x100 + 4);
     if unat lo \<le> i then do {
       hi \<leftarrow> arr_get b (int j * 0x100 + 5);
       if i < unat hi then map_option unat (arr_get b (int j * 0x100 + int BAM_BIT_MAP_8050 + 5 * int (i - unat lo))) else count_in_blocks b i js
     } else count_in_blocks b i js
   }"

fun count_bits :: "u8 list \<Rightarrow> nat \<Rightarrow> nat \<Rightarrow> nat \<Rightarrow> nat option" where
  "count_bits b i j 0 = Some 0"
| "count_bits b i j (Suc n) = do {
     x \<leftarrow> arr_get b (int (BAM_BIT_MAP_4000 + 256 + 32 * (i - 1) + j div 8));
     k \<leftarrow> count_bits b i (Suc j) n;
     Some (unat (drop_bit (j mod 8) x AND 1) + k)
   }"

definition free_on_track :: "vdrive \<Rightarrow> nat \<Rightarrow> nat option" where
  "free_on_track v i =
    (let at = (\<lambda>k. map_option unat (arr_get (bam v) (int k))) in
     if image_format v \<in> {VDRIVE_IMAGE_FORMAT_2040, VDRIVE_IMAGE_FORMAT_1541} then
       (if i \<noteq> Dir_Track v then
          at (if i \<le> NUM_TRACKS_1541 then BAM_BIT_MAP + 4 * (i - 1) else BAM_EXT_BIT_MAP_1541 + 4 * (i - NUM_TRACKS_1541 - 1))
        else Some 0)
     else if image_format v = VDRIVE_IMAGE_FORMAT_1571 then
       (if i \<noteq> Dir_Track v \<and> i \<noteq> Dir_Track v + 35 then
          at (if i \<le> NUM_TRACKS_1571 div 2 then BAM_BIT_MAP + 4 * (i - 1) else BAM_EXT_BIT_MAP_1571 + i - 1 - NUM_TRACKS_1571 div 2)
        else Some 0)
     else if image_format v = VDRIVE_IMAGE_FORMAT_1581 then
       (if i \<noteq> Dir_Track v then
          at (if i \<le> NUM_TRACKS_1581 div 2 then BAM_BIT_MAP_1581 + 256 + 6 * (i - 1)
              else BAM_BIT_MAP_1581 + 512 + 6 * (i - 1 - NUM_TRACKS_1581 div 2))
        else Some 0)
     else if image_format v = VDRIVE_IMAGE_FORMAT_8050 then (if i \<noteq> Dir_Track v then count_in_blocks (bam v) i [1, 2] else Some 0)
     else if image_format v = VDRIVE_IMAGE_FORMAT_8250 then (if i \<noteq> Dir_Track v then count_in_blocks (bam v) i [1, 2, 3, 4] else Some 0)
     else if image_format v = VDRIVE_IMAGE_FORMAT_4000 then
       (let j = (if i = Bam_Track v then 64 else 0) in count_bits (bam v) i j (256 - j))
     else Some 0)"

fun count_tracks :: "vdrive \<Rightarrow> nat \<Rightarrow> nat \<Rightarrow> nat option" where
  "count_tracks v i 0 = Some 0"
| "count_tracks v i (Suc n) = do { x \<leftarrow> free_on_track v i; k \<leftarrow> count_tracks v (Suc i) n; Some (x + k) }"

definition vdrive_bam_free_block_count :: "vdrive \<Rightarrow> nat option" where
  "vdrive_bam_free_block_count v = count_tracks v 1 (num_tracks v)"

section \<open>Attaching an image\<close>

text \<open>The format of the drive, its number of tracks and the size of its BAM, by the type of the image.\<close>

definition vdrive_format :: "disk_image \<Rightarrow> (nat \<times> nat \<times> nat) option" where
  "vdrive_format im =
    (let n = im_tracks im in
     if im_type im = DISK_IMAGE_TYPE_D64 then Some (VDRIVE_IMAGE_FORMAT_1541, n, 0x100)
     else if im_type im = DISK_IMAGE_TYPE_D67 then Some (VDRIVE_IMAGE_FORMAT_2040, n, 0x100)
     else if im_type im = DISK_IMAGE_TYPE_D71 then Some (VDRIVE_IMAGE_FORMAT_1571, n, 0x200)
     else if im_type im = DISK_IMAGE_TYPE_D81 then Some (VDRIVE_IMAGE_FORMAT_1581, n, 0x300)
     else if im_type im = DISK_IMAGE_TYPE_D80 then Some (VDRIVE_IMAGE_FORMAT_8050, n, 0x500)
     else if im_type im = DISK_IMAGE_TYPE_D82 then Some (VDRIVE_IMAGE_FORMAT_8250, n, 0x500)
     else if im_type im = DISK_IMAGE_TYPE_G64 then Some (VDRIVE_IMAGE_FORMAT_1541, n, 0x100)
     else if im_type im = DISK_IMAGE_TYPE_G71 then Some (VDRIVE_IMAGE_FORMAT_1571, n, 0x200)
     else if im_type im = DISK_IMAGE_TYPE_P64 then
       (if n > 42 then Some (VDRIVE_IMAGE_FORMAT_1571, n, 0x200) else Some (VDRIVE_IMAGE_FORMAT_1541, n, 0x100))
     else if im_type im = DISK_IMAGE_TYPE_X64 then Some (VDRIVE_IMAGE_FORMAT_1541, n, 0x100)
     else if im_type im \<in> {DISK_IMAGE_TYPE_D1M, DISK_IMAGE_TYPE_D2M, DISK_IMAGE_TYPE_D4M} then Some (VDRIVE_IMAGE_FORMAT_4000, n - 1, 0x2100)
     else None)"

text \<open>\<open>fresh\<close> is what the allocated memory holds.\<close>

definition vdrive_attach_image :: "p64_code \<Rightarrow> (nat \<Rightarrow> u8) \<Rightarrow> disk_image \<Rightarrow> vdrive \<Rightarrow> (int \<times> vdrive) option" where
  "vdrive_attach_image p64 fresh im v = (case vdrive_format im of
     None \<Rightarrow> Some (- 1, v)
   | Some (fmt, n, sz) \<Rightarrow> do {
       let v = (vdrive_set_disk_geometry (v\<lparr>image_format := fmt, num_tracks := n\<rparr>))\<lparr>vd_image := im, bam := map fresh [0..<sz]\<rparr>;
       (err, v) \<leftarrow> vdrive_bam_read_bam p64 v;
       Some (if err \<noteq> 0 then - 1 else 0, v)
     })"

end
