(* ===== verification/BamLaws.thy ===== *)
theory BamLaws
  imports VdriveBam DiskLaws
begin

unbundle bit_operations_syntax

text \<open>
  The laws of the block availability map. Places: for every format, the bits and counts of the tracks are apart and inside the map.
  Operations: allocating and freeing implement a set of free sectors (the interface \<open>free_map\<close>) and keep the counts. Counting: the
  number of free blocks is that of the set.
\<close>

section \<open>Places in the map\<close>

text \<open>Where the bit of a sector and the count of a track are, by format.\<close>

definition bam_base :: "nat \<Rightarrow> nat \<Rightarrow> nat" where
  "bam_base fmt t =
    (if fmt \<in> {VDRIVE_IMAGE_FORMAT_1541, VDRIVE_IMAGE_FORMAT_2040} then if t \<le> 35 then 4 * t + 1 else 4 * t + 49
     else if fmt = VDRIVE_IMAGE_FORMAT_1571 then if t \<le> 35 then 4 * t + 1 else 3 * t + 148
     else if fmt = VDRIVE_IMAGE_FORMAT_1581 then if t \<le> 40 then 6 * t + 267 else 6 * t + 283
     else if fmt = VDRIVE_IMAGE_FORMAT_4000 then 32 * t + 256
     else if t < 51 then 5 * t + 258 else if t < 101 then 5 * t + 264 else if t < 151 then 5 * t + 270 else 5 * t + 276)"

definition bam_stride :: "nat \<Rightarrow> nat \<Rightarrow> nat" where
  "bam_stride fmt t =
    (if fmt \<in> {VDRIVE_IMAGE_FORMAT_1541, VDRIVE_IMAGE_FORMAT_2040, VDRIVE_IMAGE_FORMAT_1571} then 3
     else if fmt = VDRIVE_IMAGE_FORMAT_1581 then 5
     else if fmt = VDRIVE_IMAGE_FORMAT_4000 then 32 else 4)"

definition bam_byte :: "nat \<Rightarrow> nat \<Rightarrow> nat \<Rightarrow> nat" where
  "bam_byte fmt t s = bam_base fmt t + s div 8"

definition bam_bit :: "nat \<Rightarrow> nat \<Rightarrow> nat" where
  "bam_bit fmt s = (if fmt = VDRIVE_IMAGE_FORMAT_4000 then 7 - s mod 8 else s mod 8)"

definition bam_count_at :: "nat \<Rightarrow> nat \<Rightarrow> nat" where
  "bam_count_at fmt t = (if fmt = VDRIVE_IMAGE_FORMAT_1571 \<and> 35 < t then t + 185 else bam_base fmt t - 1)"

text \<open>The formats, with the size of the BAM and the most tracks it has room for; the blocks of the big formats name their tracks.\<close>

definition bam_room :: "nat \<Rightarrow> (nat \<times> nat) option" where
  "bam_room fmt =
    (if fmt \<in> {VDRIVE_IMAGE_FORMAT_1541, VDRIVE_IMAGE_FORMAT_2040} then Some (0x100, 42)
     else if fmt = VDRIVE_IMAGE_FORMAT_1571 then Some (0x200, 70)
     else if fmt = VDRIVE_IMAGE_FORMAT_1581 then Some (0x300, 80)
     else if fmt = VDRIVE_IMAGE_FORMAT_8050 then Some (0x500, 77)
     else if fmt = VDRIVE_IMAGE_FORMAT_8250 then Some (0x500, 154)
     else if fmt = VDRIVE_IMAGE_FORMAT_4000 then Some (0x2100, 255)
     else None)"

definition bam_heads :: "nat \<Rightarrow> (nat \<times> nat) list" where
  "bam_heads fmt =
    (if fmt = VDRIVE_IMAGE_FORMAT_8050 then [(0x104, 1), (0x105, 51), (0x204, 51), (0x205, 78)]
     else if fmt = VDRIVE_IMAGE_FORMAT_8250 then
       [(0x104, 1), (0x105, 51), (0x204, 51), (0x205, 101), (0x304, 101), (0x305, 151), (0x404, 151), (0x405, 155)]
     else [])"

definition bam_shape :: "vdrive \<Rightarrow> bool" where
  "bam_shape v \<longleftrightarrow> (\<exists>n. bam_room (image_format v) = Some (length (bam v), n) \<and> num_tracks v \<le> n) \<and>
    (\<forall>(k, x)\<in>set (bam_heads (image_format v)). unat (bam v ! k) = x)"

definition on_map :: "vdrive \<Rightarrow> nat \<Rightarrow> nat \<Rightarrow> bool" where
  "on_map v t s \<longleftrightarrow> 1 \<le> t \<and> t \<le> num_tracks v \<and> s < sectors_of v t"

definition bam_free :: "vdrive \<Rightarrow> (nat \<times> nat) set" where
  "bam_free v = {(t, s). on_map v t s \<and> bit (bam v ! bam_byte (image_format v) t s) (bam_bit (image_format v) s)}"

lemma format_cases [consumes 1, case_names f1541 f2040 f1571 f1581 f8050 f8250 f4000]:
  assumes "bam_shape v"
  obtains "image_format v = VDRIVE_IMAGE_FORMAT_1541" "length (bam v) = 0x100" "num_tracks v \<le> 42"
  | "image_format v = VDRIVE_IMAGE_FORMAT_2040" "length (bam v) = 0x100" "num_tracks v \<le> 42"
  | "image_format v = VDRIVE_IMAGE_FORMAT_1571" "length (bam v) = 0x200" "num_tracks v \<le> 70"
  | "image_format v = VDRIVE_IMAGE_FORMAT_1581" "length (bam v) = 0x300" "num_tracks v \<le> 80"
  | "image_format v = VDRIVE_IMAGE_FORMAT_8050" "length (bam v) = 0x500" "num_tracks v \<le> 77"
      "unat (bam v ! 0x104) = 1" "unat (bam v ! 0x105) = 51" "unat (bam v ! 0x204) = 51" "unat (bam v ! 0x205) = 78"
  | "image_format v = VDRIVE_IMAGE_FORMAT_8250" "length (bam v) = 0x500" "num_tracks v \<le> 154"
      "unat (bam v ! 0x104) = 1" "unat (bam v ! 0x105) = 51" "unat (bam v ! 0x204) = 51" "unat (bam v ! 0x205) = 101"
      "unat (bam v ! 0x304) = 101" "unat (bam v ! 0x305) = 151" "unat (bam v ! 0x404) = 151" "unat (bam v ! 0x405) = 155"
  | "image_format v = VDRIVE_IMAGE_FORMAT_4000" "length (bam v) = 0x2100" "num_tracks v \<le> 255"
proof -
  obtain n where n: "bam_room (image_format v) = Some (length (bam v), n)" "num_tracks v \<le> n"
    and h: "\<forall>(k, x)\<in>set (bam_heads (image_format v)). unat (bam v ! k) = x"
    using assms by (auto simp: bam_shape_def)
  have "image_format v \<in> {VDRIVE_IMAGE_FORMAT_1541, VDRIVE_IMAGE_FORMAT_2040, VDRIVE_IMAGE_FORMAT_1571, VDRIVE_IMAGE_FORMAT_1581,
      VDRIVE_IMAGE_FORMAT_8050, VDRIVE_IMAGE_FORMAT_8250, VDRIVE_IMAGE_FORMAT_4000}"
    using n(1) by (auto simp: bam_room_def split: if_splits)
  then show ?thesis
    using n h that unfolding insert_iff empty_iff
    by (elim disjE) (simp_all add: bam_room_def bam_heads_def vdrive_formats)
qed

lemma sectors_bound:
  "disk_image_sector_per_track DISK_IMAGE_TYPE_D64 t \<le> 24" "disk_image_sector_per_track DISK_IMAGE_TYPE_D67 t \<le> 24"
  "disk_image_sector_per_track DISK_IMAGE_TYPE_D71 t \<le> 24" "disk_image_sector_per_track DISK_IMAGE_TYPE_D80 t \<le> 32"
  by (auto simp: disk_image_sector_per_track_def disk_image_speed_map_def sector_map_d64_def sector_map_d67_def sector_map_d80_def
      disk_types Let_def of_bool_def)

lemma sectors_of_known:
  assumes "bam_shape v"
  shows "int (sectors_of v t) = vdrive_get_max_sectors v t" "sectors_of v t \<le> 8 * bam_stride (image_format v) t"
proof -
  have "0 \<le> vdrive_get_max_sectors v t \<and> vdrive_get_max_sectors v t \<le> int (8 * bam_stride (image_format v) t) \<and> bam_stride (image_format v) t \<le> 32"
    using assms sectors_bound [of t] sectors_bound [of "t - 77"]
    by (cases v rule: format_cases) (auto simp: vdrive_get_max_sectors_def bam_stride_def vdrive_formats NUM_TRACKS_8250_def)
  then show "int (sectors_of v t) = vdrive_get_max_sectors v t" "sectors_of v t \<le> 8 * bam_stride (image_format v) t"
    by (auto simp: sectors_of_def)
qed

lemma on_map_byte:
  assumes "bam_shape v" "on_map v t s"
  shows "s div 8 < bam_stride (image_format v) t"
  using assms(2) sectors_of_known(2) [OF assms(1), of t] by (simp add: on_map_def less_mult_imp_div_less mult.commute)

text \<open>Bits of different tracks, and counts and bits, lie in different bytes, all of them inside the BAM and off the heads.\<close>

lemma places:
  assumes "bam_shape v" "1 \<le> t" "t \<le> num_tracks v" "q < bam_stride (image_format v) t"
  shows "bam_base (image_format v) t + q < length (bam v)" "bam_base (image_format v) t + q \<notin> fst ` set (bam_heads (image_format v))"
    and "image_format v \<noteq> VDRIVE_IMAGE_FORMAT_4000 \<Longrightarrow>
      bam_count_at (image_format v) t < length (bam v) \<and> bam_count_at (image_format v) t \<notin> fst ` set (bam_heads (image_format v))"
  using assms
  by (cases v rule: format_cases; auto simp: bam_base_def bam_stride_def bam_heads_def bam_count_at_def vdrive_formats)+

lemma bases_ordered:
  assumes "bam_shape v" "1 \<le> t" "t < t'" "t' \<le> num_tracks v"
  shows "bam_base (image_format v) t + bam_stride (image_format v) t \<le> bam_base (image_format v) t'"
  using assms by (cases v rule: format_cases) (auto simp: bam_base_def bam_stride_def vdrive_formats)

lemma bases_apart:
  assumes "bam_shape v" "image_format v \<noteq> VDRIVE_IMAGE_FORMAT_4000" "image_format v \<noteq> VDRIVE_IMAGE_FORMAT_1571"
    and "1 \<le> t" "t < t'" "t' \<le> num_tracks v"
  shows "bam_base (image_format v) t + bam_stride (image_format v) t < bam_base (image_format v) t'"
  using assms by (cases v rule: format_cases) (auto simp: bam_base_def bam_stride_def vdrive_formats)

lemma counts_apart:
  assumes "bam_shape v" "image_format v \<noteq> VDRIVE_IMAGE_FORMAT_4000" "1 \<le> t" "t \<le> num_tracks v" "1 \<le> t'" "t' \<le> num_tracks v"
  shows "bam_count_at (image_format v) t < bam_base (image_format v) t' \<or>
      bam_base (image_format v) t' + bam_stride (image_format v) t' \<le> bam_count_at (image_format v) t"
    and "t < t' \<Longrightarrow> bam_count_at (image_format v) t < bam_count_at (image_format v) t'"
proof -
  have "(bam_count_at (image_format v) t < bam_base (image_format v) t' \<or>
      bam_base (image_format v) t' + bam_stride (image_format v) t' \<le> bam_count_at (image_format v) t) \<and>
    (t < t' \<longrightarrow> bam_count_at (image_format v) t < bam_count_at (image_format v) t')"
  proof (cases "image_format v = VDRIVE_IMAGE_FORMAT_1571")
    case True
    then have "num_tracks v \<le> 70" using assms(1) by (auto simp: bam_shape_def bam_room_def vdrive_formats)
    then show ?thesis using True assms(3-6) by (auto simp: bam_base_def bam_stride_def bam_count_at_def vdrive_formats) presburger
  next
    case False
    then have c: "bam_count_at (image_format v) u = bam_base (image_format v) u - 1" for u by (simp add: bam_count_at_def)
    have p: "1 \<le> bam_base (image_format v) u" if "1 \<le> u" for u using that by (auto simp: bam_base_def)
    show ?thesis
      using bases_apart [OF assms(1,2) False, of t t'] bases_apart [OF assms(1,2) False, of t' t] assms(3-6) p [of t] p [of t']
      unfolding c by (cases t t' rule: linorder_cases) auto
  qed
  then show "bam_count_at (image_format v) t < bam_base (image_format v) t' \<or>
      bam_base (image_format v) t' + bam_stride (image_format v) t' \<le> bam_count_at (image_format v) t"
    "t < t' \<Longrightarrow> bam_count_at (image_format v) t < bam_count_at (image_format v) t'" by blast+
qed

lemma places_apart:
  assumes "bam_shape v" "1 \<le> t" "t \<le> num_tracks v" "q < bam_stride (image_format v) t"
    and "1 \<le> t'" "t' \<le> num_tracks v" "q' < bam_stride (image_format v) t'"
  shows "bam_base (image_format v) t + q = bam_base (image_format v) t' + q' \<longleftrightarrow> t = t' \<and> q = q'"
    and "image_format v \<noteq> VDRIVE_IMAGE_FORMAT_4000 \<Longrightarrow> bam_count_at (image_format v) t \<noteq> bam_base (image_format v) t' + q'"
    and "image_format v \<noteq> VDRIVE_IMAGE_FORMAT_4000 \<Longrightarrow>
      bam_count_at (image_format v) t = bam_count_at (image_format v) t' \<longleftrightarrow> t = t'"
proof -
  show "bam_base (image_format v) t + q = bam_base (image_format v) t' + q' \<longleftrightarrow> t = t' \<and> q = q'"
    using bases_ordered [of v t t'] bases_ordered [of v t' t] assms by (cases t t' rule: linorder_cases) auto
  assume f: "image_format v \<noteq> VDRIVE_IMAGE_FORMAT_4000"
  show "bam_count_at (image_format v) t \<noteq> bam_base (image_format v) t' + q'"
    using counts_apart(1) [OF assms(1) f assms(2,3,5,6)] assms(7) by linarith
  show "bam_count_at (image_format v) t = bam_count_at (image_format v) t' \<longleftrightarrow> t = t'"
    using counts_apart(2) [OF assms(1) f, of t t'] counts_apart(2) [OF assms(1) f, of t' t] assms
    by (cases t t' rule: linorder_cases) auto
qed

section \<open>Allocating and freeing a sector\<close>

lemma xor7: "(s XOR 7) div 8 = s div 8" "(s XOR 7) mod 8 = 7 - s mod 8" for s :: nat
proof -
  have "drop_bit 3 (s XOR 7) = drop_bit 3 s" by (simp add: drop_bit_xor)
  then show "(s XOR 7) div 8 = s div 8" by (simp add: drop_bit_eq_div)
  have "take_bit 3 (s XOR 7) = take_bit 3 s XOR 7" by (simp add: take_bit_xor)
  then have m: "(s XOR 7) mod 8 = (s mod 8) XOR 7" by (simp add: take_bit_eq_mod)
  have "s mod 8 \<in> {0, 1, 2, 3, 4, 5, 6, 7}" using mod_less_divisor [of 8 s] by auto
  then show "(s XOR 7) mod 8 = 7 - s mod 8" unfolding m by auto
qed

lemma map_sector_place:
  "map_sector v s div 8 = s div 8" "map_sector v s mod 8 = bam_bit (image_format v) s" "bam_bit (image_format v) s < 8"
proof -
  have "7 - s mod 8 < (8 :: nat)" by arith
  then show "map_sector v s div 8 = s div 8" "map_sector v s mod 8 = bam_bit (image_format v) s" "bam_bit (image_format v) s < 8"
    by (simp_all add: map_sector_def bam_bit_def xor7)
qed

lemma bits_of_u8:
  assumes "n < 8"
  shows "truth ((x :: u8) AND push_bit n 1) \<longleftrightarrow> bit x n"
    and "bit (x OR push_bit n 1) m \<longleftrightarrow> bit x m \<or> m = n"
    and "bit (x AND NOT (push_bit n 1)) m \<longleftrightarrow> bit x m \<and> m \<noteq> n"
    and "truth (x AND 2 ^ n) \<longleftrightarrow> bit x n"
  using assms bit_iff_and_push_bit_not_eq_0 [of x n] by (auto simp: bit_simps dest: bit_imp_le_length)

lemma track_entry:
  assumes "bam_shape v" "1 \<le> t" "t \<le> num_tracks v"
  shows "vdrive_bam_get_track_entry v t = Some (Some (int (bam_base (image_format v) t) - 1))"
proof -
  have big: "find_block (bam v) t is = Some (Some (int (bam_base (image_format v) t) - 1))"
    if "image_format v \<in> {VDRIVE_IMAGE_FORMAT_8050, VDRIVE_IMAGE_FORMAT_8250}"
      "is = (if image_format v = VDRIVE_IMAGE_FORMAT_8050 then [1, 2] else [1, 2, 3, 4])" for "is"
    using assms that
    by (cases v rule: format_cases) (auto simp: arr_get_def bam_base_def vdrive_formats bam_places algebra_simps)
  show ?thesis
    using assms big by (cases v rule: format_cases)
      (auto simp: vdrive_bam_get_track_entry_def bam_base_def vdrive_formats bam_places disk_sizes)
qed

text \<open>The BAM after the bit of a sector is set to \<open>on\<close> and the count of its track changed by \<open>d\<close>.\<close>

definition bam_changed :: "vdrive \<Rightarrow> nat \<Rightarrow> nat \<Rightarrow> bool \<Rightarrow> u8 \<Rightarrow> u8 list \<Rightarrow> bool" where
  "bam_changed v t s on d b \<longleftrightarrow> length b = length (bam v) \<and>
    (\<forall>k<length b. b ! k =
      (if k = bam_byte (image_format v) t s
       then (if on then bam v ! k OR push_bit (bam_bit (image_format v) s) 1 else bam v ! k AND NOT (push_bit (bam_bit (image_format v) s) 1))
       else if k = bam_count_at (image_format v) t \<and> image_format v \<noteq> VDRIVE_IMAGE_FORMAT_4000 then bam v ! k + d
       else bam v ! k))"

lemma sector_free_eq:
  assumes "bam_shape v" "1 \<le> t" "t \<le> num_tracks v" "length b = length (bam v)"
  shows "vdrive_bam_sector_free v (int (bam_base (image_format v) t) - 1) t d b =
    Some (if image_format v = VDRIVE_IMAGE_FORMAT_4000 then b
          else b[bam_count_at (image_format v) t := b ! bam_count_at (image_format v) t + d])"
proof (cases "image_format v = VDRIVE_IMAGE_FORMAT_4000")
  case True
  then show ?thesis by (simp add: vdrive_bam_sector_free_def vdrive_formats)
next
  case False
  then have c: "bam_count_at (image_format v) t < length b" using places(3) [OF assms(1-3), of 0] assms(4) by (simp add: bam_stride_def)
  have "vdrive_bam_sector_free v (int (bam_base (image_format v) t) - 1) t d b =
      do { x \<leftarrow> arr_get b (int (bam_count_at (image_format v) t)); arr_set b (int (bam_count_at (image_format v) t)) (x + d) }"
  proof (cases "image_format v = VDRIVE_IMAGE_FORMAT_1571")
    case True
    then have k: "(if t \<le> NUM_TRACKS_1571 div 2 then int (bam_base (image_format v) t) - 1
        else int (BAM_EXT_BIT_MAP_1571 + t) - int (NUM_TRACKS_1571 div 2) - 1) = int (bam_count_at (image_format v) t)"
      by (simp add: bam_count_at_def bam_base_def vdrive_formats bam_places disk_sizes)
    have f: "(image_format v \<in> {VDRIVE_IMAGE_FORMAT_1541, VDRIVE_IMAGE_FORMAT_2040, VDRIVE_IMAGE_FORMAT_1581, VDRIVE_IMAGE_FORMAT_8050,
        VDRIVE_IMAGE_FORMAT_8250}) = False" using True by (simp add: vdrive_formats)
    show ?thesis unfolding vdrive_bam_sector_free_def f if_False k Let_def using True by simp
  next
    case not1571: False
    have k: "int (bam_base (image_format v) t) - 1 = int (bam_count_at (image_format v) t)"
      using assms(2) not1571 by (auto simp: bam_count_at_def bam_base_def)
    have f: "(image_format v \<in> {VDRIVE_IMAGE_FORMAT_1541, VDRIVE_IMAGE_FORMAT_2040, VDRIVE_IMAGE_FORMAT_1581, VDRIVE_IMAGE_FORMAT_8050,
        VDRIVE_IMAGE_FORMAT_8250}) = True" using assms(1) False not1571 by (cases v rule: format_cases) simp_all
    show ?thesis unfolding vdrive_bam_sector_free_def f if_True k by (rule refl)
  qed
  then show ?thesis using c False by simp
qed

lemma not_past_70: "bam_shape v \<Longrightarrow> t \<le> num_tracks v \<Longrightarrow> \<not> (t > NUM_TRACKS_1571 \<and> image_format v = VDRIVE_IMAGE_FORMAT_1571)"
  by (auto simp: bam_shape_def bam_room_def vdrive_formats disk_sizes)

lemma allocate_eq:
  assumes "bam_shape v" "on_map v t s"
  shows "\<exists>b. vdrive_bam_allocate_sector v t s = Some ((t, s) \<in> bam_free v, if (t, s) \<in> bam_free v then v\<lparr>bam := b\<rparr> else v) \<and>
    bam_changed v t s False (- 1) b"
proof -
  let ?f = "image_format v"
  let ?i = "bam_byte ?f t s" and ?n = "bam_bit ?f s" and ?c = "bam_count_at ?f t"
  have t: "1 \<le> t" "t \<le> num_tracks v" using assms(2) by (simp_all add: on_map_def)
  note q = on_map_byte [OF assms]
  have i: "?i < length (bam v)" using places(1) [OF assms(1) t q] by (simp add: bam_byte_def)
  have p: "int (bam_base ?f t) - 1 + 1 + int (map_sector v s div 8) = int ?i" by (simp add: map_sector_place bam_byte_def)
  have c: "?c \<noteq> ?i" if "?f \<noteq> VDRIVE_IMAGE_FORMAT_4000"
    using places_apart(2) [OF assms(1) t q t q that] by (simp add: bam_byte_def)
  define b where "b = (if ?f = VDRIVE_IMAGE_FORMAT_4000 then bam v else (bam v)[?c := bam v ! ?c + - 1])"
  have b: "length b = length (bam v)" "b ! ?i = bam v ! ?i" using c by (auto simp: b_def)
  have "vdrive_bam_isset (int (bam_base ?f t) - 1) (map_sector v s) (bam v) = Some ((t, s) \<in> bam_free v)"
    unfolding vdrive_bam_isset_def p map_sector_place(2) arr_get_int [OF i]
    using assms(2) map_sector_place(3) by (simp add: bits_of_u8 bam_free_def)
  moreover have "vdrive_bam_clr (int (bam_base ?f t) - 1) (map_sector v s) b = Some (b[?i := bam v ! ?i AND NOT (push_bit ?n 1)])"
    unfolding vdrive_bam_clr_def p map_sector_place(2) using i b by simp
  ultimately have "vdrive_bam_allocate_sector v t s = Some ((t, s) \<in> bam_free v,
      if (t, s) \<in> bam_free v then v\<lparr>bam := b[?i := bam v ! ?i AND NOT (push_bit ?n 1)]\<rparr> else v)"
    using not_past_70 [OF assms(1) t(2)] track_entry [OF assms(1) t] sector_free_eq [OF assms(1) t refl, of "- 1"]
    by (auto simp: vdrive_bam_allocate_sector_def Let_def b_def)
  moreover have "bam_changed v t s False (- 1) (b[?i := bam v ! ?i AND NOT (push_bit ?n 1)])"
    using c i by (auto simp: bam_changed_def b_def nth_list_update)
  ultimately show ?thesis by blast
qed

lemma free_eq:
  assumes "bam_shape v" "on_map v t s"
  shows "\<exists>b. vdrive_bam_free_sector v t s = Some ((t, s) \<notin> bam_free v, if (t, s) \<notin> bam_free v then v\<lparr>bam := b\<rparr> else v) \<and>
    bam_changed v t s True 1 b"
proof -
  let ?f = "image_format v"
  let ?i = "bam_byte ?f t s" and ?n = "bam_bit ?f s" and ?c = "bam_count_at ?f t"
  have t: "1 \<le> t" "t \<le> num_tracks v" using assms(2) by (simp_all add: on_map_def)
  note q = on_map_byte [OF assms]
  have i: "?i < length (bam v)" using places(1) [OF assms(1) t q] by (simp add: bam_byte_def)
  have p: "int (bam_base ?f t) - 1 + 1 + int (map_sector v s div 8) = int ?i" by (simp add: map_sector_place bam_byte_def)
  have c: "?c \<noteq> ?i" if "?f \<noteq> VDRIVE_IMAGE_FORMAT_4000"
    using places_apart(2) [OF assms(1) t q t q that] by (simp add: bam_byte_def)
  define b where "b = (bam v)[?i := bam v ! ?i OR push_bit ?n 1]"
  have b: "length b = length (bam v)" by (simp add: b_def)
  have "vdrive_bam_isset (int (bam_base ?f t) - 1) (map_sector v s) (bam v) = Some ((t, s) \<in> bam_free v)"
    unfolding vdrive_bam_isset_def p map_sector_place(2) arr_get_int [OF i]
    using assms(2) map_sector_place(3) by (simp add: bits_of_u8 bam_free_def)
  moreover have "vdrive_bam_set (int (bam_base ?f t) - 1) (map_sector v s) (bam v) = Some b"
    unfolding vdrive_bam_set_def p map_sector_place(2) using i by (simp add: b_def)
  ultimately have "vdrive_bam_free_sector v t s = Some ((t, s) \<notin> bam_free v,
      if (t, s) \<notin> bam_free v then v\<lparr>bam := (if ?f = VDRIVE_IMAGE_FORMAT_4000 then b else b[?c := b ! ?c + 1])\<rparr> else v)"
    using not_past_70 [OF assms(1) t(2)] track_entry [OF assms(1) t] sector_free_eq [OF assms(1) t b, of 1]
    by (auto simp: vdrive_bam_free_sector_def Let_def)
  moreover have "bam_changed v t s True 1 (if ?f = VDRIVE_IMAGE_FORMAT_4000 then b else b[?c := b ! ?c + 1])"
    using c i by (cases "?f = VDRIVE_IMAGE_FORMAT_4000") (auto simp: bam_changed_def b_def nth_list_update)
  ultimately show ?thesis by blast
qed

section \<open>What an operation changes\<close>

text \<open>The counts are right when the count of each track is the number of its free sectors; a 4000 disk has none.\<close>

definition counted :: "vdrive \<Rightarrow> bool" where
  "counted v \<longleftrightarrow> (image_format v \<noteq> VDRIVE_IMAGE_FORMAT_4000 \<longrightarrow>
    (\<forall>t. 1 \<le> t \<and> t \<le> num_tracks v \<longrightarrow> unat (bam v ! bam_count_at (image_format v) t) = card {s. (t, s) \<in> bam_free v}))"

definition bam_ok :: "vdrive \<Rightarrow> bool" where
  "bam_ok v \<longleftrightarrow> bam_shape v \<and> counted v"

lemma same_drive [simp]:
  "vdrive_get_max_sectors (v\<lparr>bam := b\<rparr>) t = vdrive_get_max_sectors v t"
  "sectors_of (v\<lparr>bam := b\<rparr>) t = sectors_of v t" "on_map (v\<lparr>bam := b\<rparr>) t s = on_map v t s"
  by (cases v; simp only: on_map_def sectors_of_def vdrive_get_max_sectors_def vdrive.select_convs vdrive.update_convs)+

lemma changed_shape:
  assumes "bam_shape v" "on_map v t s" "bam_changed v t s on d b"
  shows "bam_shape (v\<lparr>bam := b\<rparr>)"
proof -
  have t: "1 \<le> t" "t \<le> num_tracks v" using assms(2) by (simp_all add: on_map_def)
  note q = on_map_byte [OF assms(1,2)]
  have "b ! k = bam v ! k" if "(k, x) \<in> set (bam_heads (image_format v))" for k x
  proof -
    have "k < length b" using assms(1) that assms(3)
      by (cases v rule: format_cases) (auto simp: bam_heads_def bam_changed_def vdrive_formats)
    moreover have "k \<in> fst ` set (bam_heads (image_format v))" using that by force
    then have "k \<noteq> bam_byte (image_format v) t s"
      "image_format v \<noteq> VDRIVE_IMAGE_FORMAT_4000 \<Longrightarrow> k \<noteq> bam_count_at (image_format v) t"
      using places(2) [OF assms(1) t q] places(3) [OF assms(1) t q] unfolding bam_byte_def by metis+
    ultimately show ?thesis using assms(3) by (auto simp: bam_changed_def)
  qed
  then show ?thesis using assms(1,3) by (auto simp: bam_shape_def bam_changed_def split_beta)
qed

lemma changed_free:
  assumes "bam_shape v" "on_map v t s" "bam_changed v t s on d b"
  shows "bam_free (v\<lparr>bam := b\<rparr>) = (if on then insert (t, s) (bam_free v) else bam_free v - {(t, s)})"
proof -
  let ?f = "image_format v"
  have t: "1 \<le> t" "t \<le> num_tracks v" using assms(2) by (simp_all add: on_map_def)
  note q = on_map_byte [OF assms(1,2)]
  have bit: "bit (b ! bam_byte ?f u r) (bam_bit ?f r) \<longleftrightarrow> (if u = t \<and> r = s then on else bit (bam v ! bam_byte ?f u r) (bam_bit ?f r))"
    if "on_map v u r" for u r
  proof -
    have u: "1 \<le> u" "u \<le> num_tracks v" using that by (simp_all add: on_map_def)
    note r = on_map_byte [OF assms(1) that]
    have k: "bam_byte ?f u r < length b"
      using places(1) [OF assms(1) u r] assms(3) by (simp add: bam_byte_def bam_changed_def)
    have same: "bam_byte ?f u r = bam_byte ?f t s \<longleftrightarrow> u = t \<and> r div 8 = s div 8"
      using places_apart(1) [OF assms(1) u r t q] by (simp add: bam_byte_def)
    have count: "\<not> (bam_byte ?f u r = bam_count_at ?f t \<and> ?f \<noteq> VDRIVE_IMAGE_FORMAT_4000)"
      using places_apart(2) [OF assms(1) t q u r] unfolding bam_byte_def by metis
    have "bam_bit ?f r = bam_bit ?f s \<and> r div 8 = s div 8 \<longleftrightarrow> r = s"
    proof
      assume *: "bam_bit ?f r = bam_bit ?f s \<and> r div 8 = s div 8"
      have "r mod 8 < 8" "s mod 8 < 8" by simp_all
      then have "r mod 8 = s mod 8" using * by (auto simp: bam_bit_def split: if_splits)
      then show "r = s" using * by (metis div_mult_mod_eq)
    qed auto
    moreover have "b ! bam_byte ?f u r =
       (if u = t \<and> r div 8 = s div 8
        then (if on then bam v ! bam_byte ?f u r OR push_bit (bam_bit ?f s) 1 else bam v ! bam_byte ?f u r AND NOT (push_bit (bam_bit ?f s) 1))
        else bam v ! bam_byte ?f u r)"
      using assms(3) k unfolding bam_changed_def same [symmetric] using count by (cases "bam_byte ?f u r = bam_byte ?f t s") auto
    ultimately show ?thesis
      using bits_of_u8(2,3) [OF map_sector_place(3), of "bam v ! bam_byte ?f u r" v s "bam_bit ?f r"] by (auto simp del: push_bit_of_1)
  qed
  show ?thesis using bit assms(2) by (auto simp: bam_free_def split: if_splits)
qed

lemma track_free_finite [simp]: "finite {s. (t, s) \<in> bam_free v}"
  by (rule finite_subset [of _ "{..<sectors_of v t}"]) (auto simp: bam_free_def on_map_def)

lemma track_free_small:
  assumes "bam_shape v" "image_format v \<noteq> VDRIVE_IMAGE_FORMAT_4000"
  shows "card {s. (t, s) \<in> bam_free v} \<le> 40"
proof -
  have "{s. (t, s) \<in> bam_free v} \<subseteq> {..<sectors_of v t}" by (auto simp: bam_free_def on_map_def)
  then have "card {s. (t, s) \<in> bam_free v} \<le> sectors_of v t" using card_mono [of "{..<sectors_of v t}"] by fastforce
  also have "\<dots> \<le> 40" using sectors_of_known(2) [OF assms(1), of t] assms(2) by (simp add: bam_stride_def split: if_splits)
  finally show ?thesis .
qed

lemma changed_counted:
  assumes "bam_ok v" "on_map v t s" "bam_changed v t s on (if on then 1 else - 1) b" "(t, s) \<in> bam_free v \<longleftrightarrow> \<not> on"
  shows "counted (v\<lparr>bam := b\<rparr>)"
proof (cases "image_format v = VDRIVE_IMAGE_FORMAT_4000")
  case False
  let ?f = "image_format v"
  have shape: "bam_shape v" and counts: "\<And>u. 1 \<le> u \<Longrightarrow> u \<le> num_tracks v \<Longrightarrow> unat (bam v ! bam_count_at ?f u) = card {r. (u, r) \<in> bam_free v}"
    using assms(1) False by (auto simp: bam_ok_def counted_def)
  have t: "1 \<le> t" "t \<le> num_tracks v" using assms(2) by (simp_all add: on_map_def)
  note q = on_map_byte [OF shape assms(2)]
  have free: "bam_free (v\<lparr>bam := b\<rparr>) = (if on then insert (t, s) (bam_free v) else bam_free v - {(t, s)})"
    by (rule changed_free [OF shape assms(2,3)])
  have "unat (b ! bam_count_at ?f u) = card {r. (u, r) \<in> bam_free (v\<lparr>bam := b\<rparr>)}" if u: "1 \<le> u" "u \<le> num_tracks v" for u
  proof -
    have pos: "0 < bam_stride ?f u" by (simp add: bam_stride_def)
    have k: "bam_count_at ?f u < length b" using places(3) [OF shape u pos False] assms(3) by (simp add: bam_changed_def)
    have "bam_count_at ?f u \<noteq> bam_byte ?f t s" using places_apart(2) [OF shape u pos t q False] by (simp add: bam_byte_def)
    moreover have "bam_count_at ?f u = bam_count_at ?f t \<longleftrightarrow> u = t" by (rule places_apart(3) [OF shape u pos t q False])
    ultimately have b: "b ! bam_count_at ?f u = (if u = t then bam v ! bam_count_at ?f u + (if on then 1 else - 1) else bam v ! bam_count_at ?f u)"
      using assms(3) k False by (simp add: bam_changed_def)
    show ?thesis
    proof (cases "u = t")
      case other: False
      then show ?thesis using b counts [OF u] unfolding free by (auto intro: arg_cong [where f = card])
    next
      case True
      note n = counts [OF t] track_free_small [OF shape False, of t]
      have "unat (bam v ! bam_count_at ?f t + 1) = unat (bam v ! bam_count_at ?f t) + 1" if "unat (bam v ! bam_count_at ?f t) \<le> 40"
        using that by (simp add: unat_word_ariths)
      moreover have "unat (bam v ! bam_count_at ?f t + - 1) = unat (bam v ! bam_count_at ?f t) - 1" if "bam v ! bam_count_at ?f t \<noteq> 0"
        using that unat_minus_one [OF that] by simp
      moreover have "{r. (t, r) \<in> insert (t, s) (bam_free v)} = insert s {r. (t, r) \<in> bam_free v}"
        "{r. (t, r) \<in> bam_free v - {(t, s)}} = {r. (t, r) \<in> bam_free v} - {s}" by auto
      moreover have "bam v ! bam_count_at ?f t \<noteq> 0" if "(t, s) \<in> bam_free v"
        using n(1) that card_gt_0_iff [of "{r. (t, r) \<in> bam_free v}"] by auto
      ultimately show ?thesis using True b n assms(4) unfolding free by (cases on) auto
    qed
  qed
  then show ?thesis by (simp add: counted_def)
qed (simp add: counted_def)

section \<open>The interface of a map of free sectors\<close>

text \<open>
  What the rest of the file system relies on: taking a sector tells whether it was free and makes it used, giving it back tells
  whether it was used and makes it free, and no other sector changes.
\<close>

locale free_map =
  fixes ok :: "'v \<Rightarrow> bool" and area :: "'v \<Rightarrow> (nat \<times> nat) set" and frees :: "'v \<Rightarrow> (nat \<times> nat) set"
    and take_sector :: "'v \<Rightarrow> nat \<Rightarrow> nat \<Rightarrow> (bool \<times> 'v) option" and give_sector :: "'v \<Rightarrow> nat \<Rightarrow> nat \<Rightarrow> (bool \<times> 'v) option"
  assumes take_law: "ok v \<Longrightarrow> (t, s) \<in> area v \<Longrightarrow>
      \<exists>v'. take_sector v t s = Some ((t, s) \<in> frees v, v') \<and> ok v' \<and> area v' = area v \<and> frees v' = frees v - {(t, s)}"
    and give_law: "ok v \<Longrightarrow> (t, s) \<in> area v \<Longrightarrow>
      \<exists>v'. give_sector v t s = Some ((t, s) \<notin> frees v, v') \<and> ok v' \<and> area v' = area v \<and> frees v' = insert (t, s) (frees v)"

text \<open>Sequences of calls, \<open>True\<close> for giving back, on the drive and on a set of sectors.\<close>

fun map_calls :: "('v \<Rightarrow> nat \<Rightarrow> nat \<Rightarrow> (bool \<times> 'v) option) \<Rightarrow> ('v \<Rightarrow> nat \<Rightarrow> nat \<Rightarrow> (bool \<times> 'v) option) \<Rightarrow>
    (bool \<times> nat \<times> nat) list \<Rightarrow> 'v \<Rightarrow> (bool list \<times> 'v) option" where
  "map_calls tk gv [] v = Some ([], v)"
| "map_calls tk gv ((g, t, s) # cs) v = do {
     (r, v) \<leftarrow> (if g then gv v t s else tk v t s);
     (rs, v) \<leftarrow> map_calls tk gv cs v;
     Some (r # rs, v)
   }"

fun set_calls :: "(bool \<times> nat \<times> nat) list \<Rightarrow> (nat \<times> nat) set \<Rightarrow> bool list \<times> (nat \<times> nat) set" where
  "set_calls [] F = ([], F)"
| "set_calls ((g, t, s) # cs) F =
    (let (rs, F') = set_calls cs (if g then insert (t, s) F else F - {(t, s)}) in ((((t, s) \<in> F) \<noteq> g) # rs, F'))"

context free_map begin

lemma calls_agree:
  "ok v \<Longrightarrow> \<forall>(g, t, s)\<in>set cs. (t, s) \<in> area v \<Longrightarrow>
    \<exists>v'. map_calls take_sector give_sector cs v = Some (fst (set_calls cs (frees v)), v') \<and>
      ok v' \<and> area v' = area v \<and> frees v' = snd (set_calls cs (frees v))"
proof (induction cs arbitrary: v)
  case (Cons c cs)
  obtain g t s where c: "c = (g, t, s)" by (cases c)
  have a: "(t, s) \<in> area v" using Cons.prems(2) c by simp
  obtain v1 where v1: "(if g then give_sector v t s else take_sector v t s) = Some (((t, s) \<in> frees v) \<noteq> g, v1)" "ok v1" "area v1 = area v"
    "frees v1 = (if g then insert (t, s) (frees v) else frees v - {(t, s)})"
    using take_law [OF Cons.prems(1) a] give_law [OF Cons.prems(1) a] by (cases g) auto
  obtain v2 where v2: "map_calls take_sector give_sector cs v1 = Some (fst (set_calls cs (frees v1)), v2)" "ok v2" "area v2 = area v"
    "frees v2 = snd (set_calls cs (frees v1))"
    using Cons.IH [OF v1(2)] Cons.prems(2) v1(3) by auto
  show ?case using v1 v2 by (auto simp: c split_beta)
qed simp

end

text \<open>The drive keeps its geometry and its image; the area is what the tracks hold.\<close>

definition same_disk :: "vdrive \<Rightarrow> vdrive \<Rightarrow> bool" where
  "same_disk v v' \<longleftrightarrow> v' = v\<lparr>bam := bam v'\<rparr>"

lemma allocate_law:
  assumes "bam_ok v" "on_map v t s"
  shows "\<exists>v'. vdrive_bam_allocate_sector v t s = Some ((t, s) \<in> bam_free v, v') \<and> bam_ok v' \<and> same_disk v v' \<and>
    bam_free v' = bam_free v - {(t, s)} \<and> ((t, s) \<notin> bam_free v \<longrightarrow> v' = v)"
proof -
  have shape: "bam_shape v" using assms(1) by (simp add: bam_ok_def)
  obtain b where b: "vdrive_bam_allocate_sector v t s = Some ((t, s) \<in> bam_free v, if (t, s) \<in> bam_free v then v\<lparr>bam := b\<rparr> else v)"
    "bam_changed v t s False (- 1) b"
    using allocate_eq [OF shape assms(2)] by blast
  show ?thesis
  proof (cases "(t, s) \<in> bam_free v")
    case True
    then show ?thesis
      using b changed_shape [OF shape assms(2) b(2)] changed_free [OF shape assms(2) b(2)] changed_counted [OF assms, of False b]
      by (simp add: bam_ok_def same_disk_def)
  qed (use assms(1) b(1) in \<open>simp add: same_disk_def\<close>)
qed

lemma free_law:
  assumes "bam_ok v" "on_map v t s"
  shows "\<exists>v'. vdrive_bam_free_sector v t s = Some ((t, s) \<notin> bam_free v, v') \<and> bam_ok v' \<and> same_disk v v' \<and>
    bam_free v' = insert (t, s) (bam_free v)"
proof -
  have shape: "bam_shape v" using assms(1) by (simp add: bam_ok_def)
  obtain b where b: "vdrive_bam_free_sector v t s = Some ((t, s) \<notin> bam_free v, if (t, s) \<notin> bam_free v then v\<lparr>bam := b\<rparr> else v)"
    "bam_changed v t s True 1 b"
    using free_eq [OF shape assms(2)] by blast
  show ?thesis
  proof (cases "(t, s) \<in> bam_free v")
    case False
    then show ?thesis
      using b changed_shape [OF shape assms(2) b(2)] changed_free [OF shape assms(2) b(2)] changed_counted [OF assms, of True b]
      by (simp add: bam_ok_def same_disk_def)
  qed (use assms(1) b(1) in \<open>auto simp: same_disk_def\<close>)
qed

lemma same_disk_map:
  assumes "same_disk v v'"
  shows "on_map v' t s = on_map v t s" "sectors_of v' t = sectors_of v t" "image_format v' = image_format v" "num_tracks v' = num_tracks v"
    "Bam_Track v' = Bam_Track v" "Dir_Track v' = Dir_Track v" "vd_image v' = vd_image v"
proof -
  have "v' = v\<lparr>bam := bam v'\<rparr>" using assms by (simp add: same_disk_def)
  then obtain b where "v' = v\<lparr>bam := b\<rparr>" by blast
  then show "on_map v' t s = on_map v t s" "sectors_of v' t = sectors_of v t" "image_format v' = image_format v" "num_tracks v' = num_tracks v"
    "Bam_Track v' = Bam_Track v" "Dir_Track v' = Dir_Track v" "vd_image v' = vd_image v" by simp_all
qed

lemma same_disk_trans: "same_disk v v' \<Longrightarrow> same_disk v' v'' \<Longrightarrow> same_disk v v''"
  unfolding same_disk_def by (cases v; cases v'; cases v'') simp

lemma same_disk_refl [simp]: "same_disk v v"
  by (simp add: same_disk_def)

interpretation bm: free_map "\<lambda>v. bam_ok v \<and> same_disk v0 v" "\<lambda>v. {(t, s). on_map v0 t s}" bam_free
  vdrive_bam_allocate_sector vdrive_bam_free_sector for v0
proof
  fix v t s assume "bam_ok v \<and> same_disk v0 v" "(t, s) \<in> {(t, s). on_map v0 t s}"
  then have v: "bam_ok v" "on_map v t s" "same_disk v0 v" using same_disk_map by auto
  show "\<exists>v'. vdrive_bam_allocate_sector v t s = Some ((t, s) \<in> bam_free v, v') \<and> (bam_ok v' \<and> same_disk v0 v') \<and>
      {(t, s). on_map v0 t s} = {(t, s). on_map v0 t s} \<and> bam_free v' = bam_free v - {(t, s)}"
    using allocate_law [OF v(1,2)] v(3) by (auto intro: same_disk_trans)
  show "\<exists>v'. vdrive_bam_free_sector v t s = Some ((t, s) \<notin> bam_free v, v') \<and> (bam_ok v' \<and> same_disk v0 v') \<and>
      {(t, s). on_map v0 t s} = {(t, s). on_map v0 t s} \<and> bam_free v' = insert (t, s) (bam_free v)"
    using free_law [OF v(1,2)] v(3) by (auto intro: same_disk_trans)
qed

section \<open>Counting\<close>

text \<open>The sectors that the count of free blocks leaves out: the directory, or the system area of a 4000 disk.\<close>

definition not_counted :: "vdrive \<Rightarrow> nat \<Rightarrow> nat \<Rightarrow> bool" where
  "not_counted v t s \<longleftrightarrow>
    (if image_format v = VDRIVE_IMAGE_FORMAT_4000 then t = Bam_Track v \<and> s < 64
     else t = Dir_Track v \<or> image_format v = VDRIVE_IMAGE_FORMAT_1571 \<and> t = Dir_Track v + 35)"

lemma count_bits_eq:
  assumes "1 \<le> t" "j + n \<le> 256" "32 * t + 288 \<le> length b"
  shows "count_bits b t j n = Some (card {k \<in> {j..<j + n}. bit (b ! (32 * t + 256 + k div 8)) (k mod 8)})"
  using assms(2)
proof (induction n arbitrary: j)
  case (Suc n)
  let ?on = "\<lambda>k. bit (b ! (32 * t + 256 + k div 8)) (k mod 8)"
  have "j div 8 < 32" using Suc.prems by auto
  then have i: "BAM_BIT_MAP_4000 + 256 + 32 * (t - 1) + j div 8 = 32 * t + 256 + j div 8" "32 * t + 256 + j div 8 < length b"
    using assms(1,3) by (auto simp: bam_places)
  have x: "arr_get b (int (BAM_BIT_MAP_4000 + 256 + 32 * (t - 1) + j div 8)) = Some (b ! (32 * t + 256 + j div 8))"
    unfolding i(1) by (rule arr_get_int [OF i(2)])
  have bit: "unat (drop_bit (j mod 8) (b ! (32 * t + 256 + j div 8)) AND 1) = of_bool (?on j)"
    by (simp add: and_one_eq odd_iff_mod_2_eq_one [symmetric] bit_iff_odd_drop_bit mod_2_eq_odd)
  have "{k \<in> {j..<j + Suc n}. ?on k} = (if ?on j then insert j {k \<in> {Suc j..<Suc j + n}. ?on k} else {k \<in> {Suc j..<Suc j + n}. ?on k})"
    using not_less_eq_eq by (auto simp: le_less)
  then show ?case using Suc.IH [of "Suc j"] Suc.prems bit unfolding count_bits.simps x by simp
qed simp

lemma count_4000:
  assumes "image_format v = VDRIVE_IMAGE_FORMAT_4000" "length (bam v) = 0x2100" "num_tracks v \<le> 255" "1 \<le> t" "t \<le> num_tracks v"
    and "j = (if t = Bam_Track v then 64 else 0)"
  shows "count_bits (bam v) t j (256 - j) = Some (card {s. (t, s) \<in> bam_free v \<and> \<not> not_counted v t s})"
proof -
  let ?on = "\<lambda>k. bit (bam v ! (32 * t + 256 + k div 8)) (k mod 8)"
  have "32 * t + 288 \<le> length (bam v)" using assms by simp
  then have "count_bits (bam v) t j (256 - j) = Some (card {k \<in> {j..<256}. ?on k})"
    using count_bits_eq [of t j "256 - j" "bam v"] assms(4,6) by simp
  moreover have "bij_betw (\<lambda>s. s XOR 7) {s. (t, s) \<in> bam_free v \<and> \<not> not_counted v t s} {k \<in> {j..<256}. ?on k}"
  proof (rule bij_betw_byWitness [where f' = "\<lambda>s. s XOR 7"])
    have same: "(s XOR 7) XOR 7 = s" for s :: nat by (simp add: xor.assoc)
    have lim: "s < 256 \<longleftrightarrow> s div 8 < 32" "64 \<le> s \<longleftrightarrow> 8 \<le> s div 8" for s :: nat by auto
    have on: "on_map v t s \<longleftrightarrow> s div 8 < 32" for s
      using assms(1,4,5) lim by (simp add: on_map_def sectors_of_def vdrive_get_max_sectors_def vdrive_formats)
    have nc: "\<not> not_counted v t s \<longleftrightarrow> j div 8 \<le> s div 8" for s
      using assms(1,6) lim(2) [of s] by (auto simp: not_counted_def)
    have jk: "j \<le> s \<longleftrightarrow> j div 8 \<le> s div 8" for s using assms(6) lim(2) [of s] by auto
    have free: "(t, s) \<in> bam_free v \<longleftrightarrow> s div 8 < 32 \<and> bit (bam v ! (32 * t + 256 + s div 8)) (7 - s mod 8)" for s
      using assms(1) by (simp add: bam_free_def on bam_byte_def bam_base_def bam_bit_def vdrive_formats)
    have seven: "7 - (7 - s mod 8) = s mod 8" for s :: nat using mod_less_divisor [of 8 s] by arith
    show "(\<lambda>s. s XOR 7) ` {s. (t, s) \<in> bam_free v \<and> \<not> not_counted v t s} \<subseteq> {k \<in> {j..<256}. ?on k}"
      by (auto simp: free nc jk lim(1) xor7)
    show "(\<lambda>s. s XOR 7) ` {k \<in> {j..<256}. ?on k} \<subseteq> {s. (t, s) \<in> bam_free v \<and> \<not> not_counted v t s}"
      by (auto simp: free nc jk lim(1) xor7 seven)
  qed (simp_all add: xor.assoc)
  ultimately show ?thesis by (simp add: bij_betw_same_card)
qed

lemma free_on_track_eq:
  assumes "bam_ok v" "1 \<le> t" "t \<le> num_tracks v"
  shows "free_on_track v t = Some (card {s. (t, s) \<in> bam_free v \<and> \<not> not_counted v t s})"
proof (cases "image_format v = VDRIVE_IMAGE_FORMAT_4000")
  case True
  moreover have "length (bam v) = 0x2100 \<and> num_tracks v \<le> 255"
    using assms(1) True by (auto simp: bam_ok_def bam_shape_def bam_room_def vdrive_formats)
  ultimately show ?thesis
    using count_4000 [OF True _ _ assms(2,3) refl] by (simp add: free_on_track_def vdrive_formats Let_def)
next
  case False
  have shape: "bam_shape v" using assms(1) by (simp add: bam_ok_def)
  have c: "bam_count_at (image_format v) t < length (bam v)"
    using places(3) [OF shape assms(2,3), of 0] False by (simp add: bam_stride_def)
  have x: "map_option unat (arr_get (bam v) (int (bam_count_at (image_format v) t))) = Some (card {s. (t, s) \<in> bam_free v})"
    using assms False c by (simp add: bam_ok_def counted_def)
  have big: "count_in_blocks (bam v) t is = map_option unat (arr_get (bam v) (int (bam_count_at (image_format v) t)))"
    if "image_format v \<in> {VDRIVE_IMAGE_FORMAT_8050, VDRIVE_IMAGE_FORMAT_8250}"
      "is = (if image_format v = VDRIVE_IMAGE_FORMAT_8050 then [1, 2] else [1, 2, 3, 4])" for "is"
    using shape that assms(2,3)
    by (cases v rule: format_cases) (auto simp: arr_get_def bam_count_at_def bam_base_def vdrive_formats bam_places algebra_simps)
  have n: "nat (185 + int t) = t + 185" "nat (4 * int t) = 4 * t" by simp_all
  have "free_on_track v t = (if not_counted v t 0 then Some 0 else map_option unat (arr_get (bam v) (int (bam_count_at (image_format v) t))))"
    using shape False big assms(2,3) n
    by (cases v rule: format_cases)
      (auto simp: free_on_track_def not_counted_def bam_count_at_def bam_base_def vdrive_formats bam_places disk_sizes Let_def arr_get_def)
  moreover have "not_counted v t s = not_counted v t 0" for s using False by (simp add: not_counted_def)
  ultimately show ?thesis using x by (cases "not_counted v t 0") simp_all
qed

lemma count_tracks_eq:
  assumes "bam_ok v"
  shows "1 \<le> t \<Longrightarrow> t + n \<le> Suc (num_tracks v) \<Longrightarrow>
    count_tracks v t n = Some (\<Sum>u\<in>{t..<t + n}. card {s. (u, s) \<in> bam_free v \<and> \<not> not_counted v u s})"
proof (induction n arbitrary: t)
  case (Suc n)
  have "{t..<t + Suc n} = insert t {Suc t..<Suc t + n}" by auto
  then show ?case using Suc.IH [of "Suc t"] Suc.prems free_on_track_eq [OF assms, of t] by simp
qed simp

lemma free_block_count_eq:
  assumes "bam_ok v"
  shows "vdrive_bam_free_block_count v = Some (card {(t, s) \<in> bam_free v. \<not> not_counted v t s})"
proof -
  let ?row = "\<lambda>t. {s. (t, s) \<in> bam_free v \<and> \<not> not_counted v t s}"
  have "{(t, s) \<in> bam_free v. \<not> not_counted v t s} = Sigma {1..num_tracks v} ?row" by (auto simp: bam_free_def on_map_def)
  moreover have "finite (?row t)" for t by (rule finite_subset [OF _ track_free_finite [of t v]]) auto
  ultimately have "card {(t, s) \<in> bam_free v. \<not> not_counted v t s} = (\<Sum>t\<in>{1..num_tracks v}. card (?row t))"
    by (simp only:) (rule card_SigmaI; simp)
  moreover have "{1..<1 + num_tracks v} = {1..num_tracks v}" by auto
  ultimately show ?thesis
    using count_tracks_eq [OF assms, of 1 "num_tracks v"] by (simp add: vdrive_bam_free_block_count_def)
qed

section \<open>A cleared map\<close>

lemma empty_map_ok:
  assumes "bam_shape v" "\<And>t q. 1 \<le> t \<Longrightarrow> t \<le> num_tracks v \<Longrightarrow> q < bam_stride (image_format v) t \<Longrightarrow> bam v ! (bam_base (image_format v) t + q) = 0"
    and "\<And>t. 1 \<le> t \<Longrightarrow> t \<le> num_tracks v \<Longrightarrow> image_format v \<noteq> VDRIVE_IMAGE_FORMAT_4000 \<Longrightarrow> bam v ! bam_count_at (image_format v) t = 0"
  shows "bam_ok v \<and> bam_free v = {}"
proof -
  have "bam v ! bam_byte (image_format v) t s = 0" if "on_map v t s" for t s
    using assms(2) [of t "s div 8"] on_map_byte [OF assms(1) that] that by (simp add: bam_byte_def on_map_def)
  then have "bam_free v = {}" by (auto simp: bam_free_def)
  then show ?thesis using assms(1,3) by (simp add: bam_ok_def counted_def)
qed

lemma memset_nth:
  assumes "bam_memset k x n b = Some b'"
  shows "length b' = length b" "i < length b \<Longrightarrow> b' ! i = (if k \<le> i \<and> i < k + n then x else b ! i)"
  using assms by (auto simp: bam_memset_def nth_append min_def split: if_splits)

lemma memset_defined: "k + n \<le> length b \<Longrightarrow> \<exists>b'. bam_memset k x n b = Some b'"
  by (simp add: bam_memset_def)

lemma memsets_nth:
  "\<forall>(k, x, n)\<in>set ms. x = 0 \<and> k + n \<le> length b \<Longrightarrow>
    \<exists>b'. memsets ms b = Some b' \<and> length b' = length b \<and>
      (\<forall>i<length b. b' ! i = (if \<exists>(k, x, n)\<in>set ms. k \<le> i \<and> i < k + n then 0 else b ! i))"
proof (induction ms arbitrary: b)
  case (Cons m ms)
  obtain k x n where m: "m = (k, x, n)" by (cases m)
  obtain b1 where b1: "bam_memset k x n b = Some b1" using memset_defined Cons.prems m by fastforce
  obtain b2 where b2: "memsets ms b1 = Some b2" "length b2 = length b1"
    "\<forall>i<length b1. b2 ! i = (if \<exists>(k, x, n)\<in>set ms. k \<le> i \<and> i < k + n then 0 else b1 ! i)"
    using Cons.IH [of b1] Cons.prems memset_nth(1) [OF b1] by auto
  show ?case using b1 b2 memset_nth [OF b1] Cons.prems m by (auto simp: split_beta)
qed simp

lemma clear_all_ok:
  assumes "bam_shape v" "image_format v \<noteq> VDRIVE_IMAGE_FORMAT_4000" "image_format v = VDRIVE_IMAGE_FORMAT_2040 \<Longrightarrow> num_tracks v \<le> 35"
    and "image_format v = VDRIVE_IMAGE_FORMAT_1541 \<Longrightarrow> num_tracks v \<le> 40"
  shows "\<exists>v'. vdrive_bam_clear_all v = Some v' \<and> bam_ok v' \<and> same_disk v v' \<and> bam_free v' = {}"
proof -
  let ?f = "image_format v" and ?ms = "clear_ranges (image_format v)"
  have r: "\<forall>(k, x, n)\<in>set ?ms. x = 0 \<and> k + n \<le> length (bam v)"
    using assms by (cases v rule: format_cases) (simp_all add: clear_ranges_def vdrive_formats bam_places disk_sizes)
  obtain b where b: "memsets ?ms (bam v) = Some b" "length b = length (bam v)"
    "\<And>i. i < length (bam v) \<Longrightarrow> b ! i = (if \<exists>(k, x, n)\<in>set ?ms. k \<le> i \<and> i < k + n then 0 else bam v ! i)"
    using memsets_nth [OF r] by blast
  have off: "\<not> (\<exists>(k, x, n)\<in>set ?ms. k \<le> i \<and> i < k + n) \<and> i < length (bam v)" if "i \<in> fst ` set (bam_heads ?f)" for i
    using assms(1) that by (cases v rule: format_cases) (auto simp: clear_ranges_def bam_heads_def vdrive_formats bam_places disk_sizes)
  have shape: "bam_shape (v\<lparr>bam := b\<rparr>)"
    using assms(1) b(2) off b(3) by (force simp: bam_shape_def split_beta)
  have bits: "\<exists>(k, x, n)\<in>set ?ms. k \<le> bam_base ?f t + q \<and> bam_base ?f t + q < k + n"
    if "1 \<le> t" "t \<le> num_tracks v" "q < bam_stride ?f t" for t q
    using assms that by (cases v rule: format_cases)
      (auto simp: clear_ranges_def bam_base_def bam_stride_def vdrive_formats bam_places disk_sizes)
  have counts: "\<exists>(k, x, n)\<in>set ?ms. k \<le> bam_count_at ?f t \<and> bam_count_at ?f t < k + n" if "1 \<le> t" "t \<le> num_tracks v" for t
    using assms that by (cases v rule: format_cases)
      (auto simp: clear_ranges_def bam_base_def bam_count_at_def vdrive_formats bam_places disk_sizes)
  have "bam_ok (v\<lparr>bam := b\<rparr>) \<and> bam_free (v\<lparr>bam := b\<rparr>) = {}"
  proof (rule empty_map_ok [OF shape])
    fix t q assume "1 \<le> t" "t \<le> num_tracks (v\<lparr>bam := b\<rparr>)" "q < bam_stride (image_format (v\<lparr>bam := b\<rparr>)) t"
    then show "bam (v\<lparr>bam := b\<rparr>) ! (bam_base (image_format (v\<lparr>bam := b\<rparr>)) t + q) = 0"
      using bits places(1) [OF assms(1)] b(3) by simp
  next
    fix t assume t: "1 \<le> t" "t \<le> num_tracks (v\<lparr>bam := b\<rparr>)"
    have "0 < bam_stride ?f t" by (simp add: bam_stride_def)
    then show "bam (v\<lparr>bam := b\<rparr>) ! bam_count_at (image_format (v\<lparr>bam := b\<rparr>)) t = 0"
      using counts places(3) [OF assms(1), of t 0] assms(2) b(3) t by simp
  qed
  moreover have "vdrive_bam_clear_all v = Some (v\<lparr>bam := b\<rparr>)" using b(1) by (simp add: vdrive_bam_clear_all_def)
  ultimately show ?thesis by (auto simp: same_disk_def)
qed

section \<open>Calls\<close>

text \<open>
  C6 (bam_calls_refine) On a disk of any format whose map is well-formed, the allocation and freeing of sectors implement a set of
  free sectors: every sequence of calls gives the answers and leaves the set that the set operations do, the counts stay
  right, and the number of free blocks that the drive reports is the number of sectors in the set, less the directory.
\<close>

theorem bam_calls_refine:
  assumes "bam_ok v" "\<forall>(g, t, s)\<in>set cs. on_map v t s"
  shows "\<exists>v'. map_calls vdrive_bam_allocate_sector vdrive_bam_free_sector cs v = Some (fst (set_calls cs (bam_free v)), v') \<and>
    bam_ok v' \<and> bam_free v' = snd (set_calls cs (bam_free v)) \<and>
    vdrive_bam_free_block_count v' = Some (card {(t, s) \<in> snd (set_calls cs (bam_free v)). \<not> not_counted v t s})"
proof -
  obtain v' where v': "map_calls vdrive_bam_allocate_sector vdrive_bam_free_sector cs v = Some (fst (set_calls cs (bam_free v)), v')"
    "bam_ok v'" "same_disk v v'" "bam_free v' = snd (set_calls cs (bam_free v))"
    using bm.calls_agree [of v v cs] assms by (auto simp: split_beta)
  have "not_counted v' = not_counted v" using same_disk_map [OF v'(3)] by (simp add: not_counted_def fun_eq_iff)
  then show ?thesis using v' free_block_count_eq [OF v'(2)] by simp
qed

definition wit_image :: disk_image where
  "wit_image = \<lparr>im_fs = \<lparr>fs_fd = None, fs_name = [], fs_map = None, fs_dirty = False\<rparr>, im_read_only = False, im_device = 0,
     im_type = 1541, im_tracks = 35, im_max_half_tracks = 84, im_gcr = None\<rparr>"

definition wit_drive :: "nat \<Rightarrow> nat \<Rightarrow> nat \<Rightarrow> u8 list \<Rightarrow> vdrive" where
  "wit_drive fmt n dir b = \<lparr>vd_image = wit_image, image_format = fmt, num_tracks = n, Bam_Track = dir, Bam_Sector = 0, bam_name = 144, bam_id = 162,
     Header_Track = dir, Header_Sector = 0, Dir_Track = dir, Dir_Sector = 1, Part_Start = 1, Part_End = n, bam = b, cmd_errors = []\<rparr>"

lemma wit_1541_ok: "bam_ok (wit_drive 0 35 18 (replicate 256 0)) \<and> bam_free (wit_drive 0 35 18 (replicate 256 0)) = {}"
proof (rule empty_map_ok)
  show "bam_shape (wit_drive 0 35 18 (replicate 256 0))"
    by (simp add: bam_shape_def bam_room_def bam_heads_def wit_drive_def vdrive_formats)
qed (simp_all add: wit_drive_def bam_base_def bam_stride_def bam_count_at_def vdrive_formats)

theorem bam_calls_refine_witness:
  "\<exists>v'. map_calls vdrive_bam_allocate_sector vdrive_bam_free_sector [(True, 1, 0), (True, 1, 0), (True, 2, 5), (False, 1, 0)]
      (wit_drive 0 35 18 (replicate 256 0)) = Some ([True, False, True, True], v') \<and>
    bam_free v' = {(2, 5)} \<and> vdrive_bam_free_block_count v' = Some 1"
proof -
  let ?v = "wit_drive 0 35 18 (replicate 256 0)"
  have "on_map ?v 1 0 \<and> on_map ?v 2 5"
    by (simp add: on_map_def sectors_of_def vdrive_get_max_sectors_def wit_drive_def vdrive_formats sectors_zones)
  moreover have r: "set_calls [(True, 1, 0), (True, 1, 0), (True, 2, 5), (False, 1, 0)] {} = ([True, False, True, True], {(2, 5)})" by auto
  moreover have "{(t, s) \<in> {(2, 5)}. \<not> not_counted ?v t s} = {(2, 5)}"
    by (auto simp: not_counted_def wit_drive_def vdrive_formats)
  ultimately show ?thesis
    using bam_calls_refine [of ?v "[(True, 1, 0), (True, 1, 0), (True, 2, 5), (False, 1, 0)]", unfolded conjunct2 [OF wit_1541_ok] r fst_conv snd_conv]
      wit_1541_ok by (simp del: map_calls.simps) blast
qed

end
