(* ===== verification/BamSearch.thy ===== *)
theory BamSearch
  imports BamLaws
begin

unbundle bit_operations_syntax

text \<open>
  The searches in the block availability map: the loops over sectors and tracks find a free sector when there is one, the first
  block of a file comes as near to the directory as it can, and following a chain of blocks ends.
\<close>

section \<open>The search for a free sector\<close>

text \<open>The outcome of a search among the free sectors that satisfy \<open>P\<close>, with the drive before and after.\<close>

definition took :: "vdrive \<Rightarrow> nat \<times> nat \<Rightarrow> vdrive \<Rightarrow> bool" where
  "took v x v' \<longleftrightarrow> bam_ok v' \<and> same_disk v v' \<and> bam_free v' = bam_free v - {x}"

definition search_result :: "vdrive \<Rightarrow> (nat \<times> nat \<Rightarrow> bool) \<Rightarrow> ((nat \<times> nat) option \<times> vdrive) option \<Rightarrow> bool" where
  "search_result v P res = (case res of
     Some (None, v') \<Rightarrow> v' = v \<and> (\<forall>x\<in>bam_free v. \<not> P x)
   | Some (Some x, v') \<Rightarrow> x \<in> bam_free v \<and> P x \<and> took v x v'
   | None \<Rightarrow> False)"

lemma search_result_cases:
  assumes "search_result v P res"
  obtains "res = Some (None, v)" "\<forall>x\<in>bam_free v. \<not> P x"
  | x v' where "res = Some (Some x, v')" "x \<in> bam_free v" "P x" "took v x v'"
proof -
  obtain r w where res: "res = Some (r, w)" using assms by (cases res) (auto simp: search_result_def)
  show ?thesis using assms that unfolding res by (cases r) (auto simp: search_result_def)
qed

lemma search_cong: "\<forall>x\<in>bam_free v. P x = Q x \<Longrightarrow> search_result v P res = search_result v Q res"
  by (auto simp: search_result_def split: option.splits prod.splits)

lemma alloc_sectors_result:
  assumes "bam_ok v" "1 \<le> t" "t \<le> num_tracks v"
  shows "s + n \<le> sectors_of v t \<Longrightarrow>
    search_result v (\<lambda>(t', k). t' = t \<and> s \<le> k \<and> k < s + n) (map_option (\<lambda>(r, v). (map_option (\<lambda>k. (t, k)) r, v)) (alloc_sectors v t s n))"
proof (induction n arbitrary: s)
  case 0
  then show ?case by (simp add: search_result_def split_beta)
next
  case (Suc n)
  have "on_map v t s" using Suc.prems assms(2,3) by (simp add: on_map_def)
  then obtain v' where v': "vdrive_bam_allocate_sector v t s = Some ((t, s) \<in> bam_free v, v')" "bam_ok v'" "same_disk v v'"
    "bam_free v' = bam_free v - {(t, s)}" "(t, s) \<notin> bam_free v \<Longrightarrow> v' = v"
    using allocate_law [OF assms(1)] by metis
  show ?case
  proof (cases "(t, s) \<in> bam_free v")
    case True
    then show ?thesis using v' by (simp add: search_result_def took_def)
  next
    case False
    have "search_result v (\<lambda>(t', k). t' = t \<and> s \<le> k \<and> k < s + Suc n) res =
        search_result v (\<lambda>(t', k). t' = t \<and> Suc s \<le> k \<and> k < Suc s + n) res" for res
      by (rule search_cong) (use False in \<open>auto simp: le_less Suc_le_eq\<close>)
    then show ?thesis using Suc.IH [of "Suc s"] Suc.prems False v' by simp
  qed
qed

text \<open>The distance of a track from the BAM, and the sectors that the search for the first block of a file considers.\<close>

definition bam_distance :: "vdrive \<Rightarrow> nat \<Rightarrow> nat" where
  "bam_distance v t = nat \<bar>int t - int (Bam_Track v)\<bar>"

definition for_files :: "vdrive \<Rightarrow> nat \<times> nat \<Rightarrow> bool" where
  "for_files v = (\<lambda>(t, s). t = Bam_Track v \<longrightarrow> image_format v = VDRIVE_IMAGE_FORMAT_4000 \<and> 64 \<le> s)"

lemma alloc_below_result:
  assumes "bam_ok v" "Bam_Track v \<le> num_tracks v"
  shows "search_result v (\<lambda>(t, s). d \<noteq> 0 \<and> t + d = Bam_Track v) (alloc_below v d)"
proof (cases "d \<noteq> 0 \<and> 1 \<le> int (Bam_Track v) - int d")
  case True
  let ?t = "Bam_Track v - d"
  have t: "nat (int (Bam_Track v) - int d) = ?t" "1 \<le> ?t" "?t \<le> num_tracks v" using True assms(2) by auto
  have "search_result v (\<lambda>(t', k). t' = ?t \<and> 0 \<le> k \<and> k < 0 + sectors_of v ?t) (alloc_below v d)"
    using alloc_sectors_result [OF assms(1) t(2,3), of 0 "sectors_of v ?t"] True by (simp add: alloc_below_def Let_def t(1))
  moreover have "\<forall>x\<in>bam_free v. (case x of (t', k) \<Rightarrow> t' = ?t \<and> 0 \<le> k \<and> k < 0 + sectors_of v ?t) =
      (case x of (t, s) \<Rightarrow> d \<noteq> 0 \<and> t + d = Bam_Track v)"
  proof
    fix x assume x: "x \<in> bam_free v"
    obtain t k where tk: "x = (t, k)" by (cases x)
    have "k < sectors_of v t" using x tk by (simp add: bam_free_def on_map_def)
    moreover have "t + d = Bam_Track v \<longleftrightarrow> t = ?t" using True by auto
    ultimately show "(case x of (t', k) \<Rightarrow> t' = ?t \<and> 0 \<le> k \<and> k < 0 + sectors_of v ?t) = (case x of (t, s) \<Rightarrow> d \<noteq> 0 \<and> t + d = Bam_Track v)"
      using True tk by auto
  qed
  ultimately show ?thesis using search_cong by blast
next
  case False
  then have "alloc_below v d = Some (None, v)" by (auto simp: alloc_below_def Let_def)
  then show ?thesis using False by (auto simp: search_result_def bam_free_def on_map_def)
qed

lemma alloc_above_result:
  assumes "bam_ok v" "1 \<le> Bam_Track v"
  shows "search_result v (\<lambda>(t, s). t = Bam_Track v + d \<and> for_files v (t, s)) (alloc_above v d)"
proof (cases "Bam_Track v + d \<le> num_tracks v")
  case True
  let ?t = "Bam_Track v + d"
  have m: "sectors_of v ?t = 256" if "image_format v = VDRIVE_IMAGE_FORMAT_4000"
    using that by (simp add: sectors_of_def vdrive_get_max_sectors_def vdrive_formats)
  define s where "s = (if d \<noteq> 0 then 0 else if image_format v = VDRIVE_IMAGE_FORMAT_4000 then 64 else sectors_of v ?t)"
  have s: "s \<le> sectors_of v ?t" using m by (auto simp: s_def)
  then have sn: "s + (sectors_of v ?t - s) = sectors_of v ?t" by simp
  have "alloc_above v d = map_option (\<lambda>(r, v). (map_option (\<lambda>k. (?t, k)) r, v)) (alloc_sectors v ?t s (sectors_of v ?t - s))"
    using True unfolding alloc_above_def Let_def s_def by simp
  then have "search_result v (\<lambda>(t', k). t' = ?t \<and> s \<le> k \<and> k < sectors_of v ?t) (alloc_above v d)"
    using alloc_sectors_result [OF assms(1) _ True, of s "sectors_of v ?t - s"] assms(2) by (simp only: sn)
  moreover have "\<forall>x\<in>bam_free v. (case x of (t', k) \<Rightarrow> t' = ?t \<and> s \<le> k \<and> k < sectors_of v ?t) =
      (case x of (t, s) \<Rightarrow> t = Bam_Track v + d \<and> for_files v (t, s))"
    by (auto simp: bam_free_def on_map_def for_files_def s_def)
  ultimately show ?thesis using search_cong by blast
next
  case False
  then have "alloc_above v d = Some (None, v)" by (simp add: alloc_above_def)
  then show ?thesis using False by (auto simp: search_result_def bam_free_def on_map_def)
qed

text \<open>The outcome of the rounds from distance \<open>d\<close> to before \<open>d + n\<close>.\<close>

definition nearest_result :: "vdrive \<Rightarrow> nat \<Rightarrow> nat \<Rightarrow> ((nat \<times> nat) option \<times> vdrive) option \<Rightarrow> bool" where
  "nearest_result v d n res \<longleftrightarrow>
    (\<exists>x v'. res = Some (Some x, v') \<and> x \<in> bam_free v \<and> for_files v x \<and> d \<le> bam_distance v (fst x) \<and> bam_distance v (fst x) < d + n \<and>
      took v x v' \<and> (\<forall>y\<in>bam_free v. for_files v y \<longrightarrow> d \<le> bam_distance v (fst y) \<longrightarrow> bam_distance v (fst x) \<le> bam_distance v (fst y))) \<or>
    res = Some (None, v) \<and> (\<forall>y\<in>bam_free v. for_files v y \<longrightarrow> d \<le> bam_distance v (fst y) \<longrightarrow> d + n \<le> bam_distance v (fst y))"

lemma nearest_further:
  assumes "nearest_result v (Suc d) n res" "\<forall>y\<in>bam_free v. for_files v y \<longrightarrow> bam_distance v (fst y) \<noteq> d"
  shows "nearest_result v d (Suc n) res"
proof -
  have far: "Suc d \<le> bam_distance v (fst y)" if "y \<in> bam_free v" "for_files v y" "d \<le> bam_distance v (fst y)" for y
    using assms(2) that by (auto simp: Suc_le_eq le_less)
  from assms(1) show ?thesis unfolding nearest_result_def
  proof (elim disjE exE conjE, goal_cases)
    case (1 x v')
    then show ?case using far by (intro disjI1 exI [of _ x] exI [of _ v'] conjI ballI impI) simp_all
  next
    case 2
    then show ?case using far by (intro disjI2 conjI ballI impI) simp_all
  qed
qed

lemma alloc_first_result:
  assumes "bam_ok v" "1 \<le> Bam_Track v" "Bam_Track v \<le> num_tracks v"
  shows "nearest_result v d n (alloc_first v d n)"
proof (induction n arbitrary: d)
  case (Suc n)
  have near: "bam_distance v t = d \<longleftrightarrow> t + d = Bam_Track v \<or> t = Bam_Track v + d" for t by (auto simp: bam_distance_def)
  from alloc_below_result [OF assms(1,3), of d] show ?case
  proof (cases rule: search_result_cases)
    case (2 x v')
    then have "bam_distance v (fst x) = d" "for_files v x" using near [of "fst x"] by (auto simp: for_files_def)
    then show ?thesis using 2 unfolding nearest_result_def by (intro disjI1 exI [of _ x] exI [of _ v']) auto
  next
    case below: 1
    from alloc_above_result [OF assms(1,2), of d] show ?thesis
    proof (cases rule: search_result_cases)
      case (2 x v')
      then have "bam_distance v (fst x) = d" "for_files v x" using near [of "fst x"] by auto
      then show ?thesis using 2 below(1) unfolding nearest_result_def by (intro disjI1 exI [of _ x] exI [of _ v']) auto
    next
      case above: 1
      have none: "for_files v y \<longrightarrow> bam_distance v (fst y) \<noteq> d" if "y \<in> bam_free v" for y
        using near [of "fst y"] below(2) above(2) that by (cases y) (auto simp: for_files_def)
      have "alloc_first v d (Suc n) = alloc_first v (Suc d) n" using below(1) above(1) by simp
      then show ?thesis using nearest_further [OF Suc.IH [of "Suc d"]] none by simp
    qed
  qed
qed (simp add: nearest_result_def)

lemma first_block_search:
  assumes "bam_ok v" "1 \<le> Bam_Track v" "Bam_Track v \<le> num_tracks v"
  shows "(\<exists>t s v'. vdrive_bam_alloc_first_free_sector v t0 s0 = Some (0, t, s, v') \<and> (t, s) \<in> bam_free v \<and> for_files v (t, s) \<and>
      int (bam_distance v t) \<le> vdrive_calculate_disk_half v \<and> took v (t, s) v' \<and>
      (\<forall>y\<in>bam_free v. for_files v y \<longrightarrow> bam_distance v t \<le> bam_distance v (fst y))) \<or>
    vdrive_bam_alloc_first_free_sector v t0 s0 = Some (- 1, t0, s0, v) \<and>
      (\<forall>y\<in>bam_free v. for_files v y \<longrightarrow> vdrive_calculate_disk_half v < int (bam_distance v (fst y)))"
proof -
  have "0 \<le> vdrive_calculate_disk_half v \<and> vdrive_calculate_disk_half v < 2 ^ 32"
    using conjunct1 [OF assms(1) [unfolded bam_ok_def]] assms(2,3)
    by (cases v rule: format_cases) (simp_all add: vdrive_calculate_disk_half_def vdrive_formats)
  then have half: "int (nat (vdrive_calculate_disk_half v mod 2 ^ 32)) = vdrive_calculate_disk_half v" by simp
  show ?thesis
    using alloc_first_result [OF assms, of 0 "Suc (nat (vdrive_calculate_disk_half v mod 2 ^ 32))"] half unfolding nearest_result_def
    by (elim disjE exE conjE) (force simp: vdrive_bam_alloc_first_free_sector_def)+
qed

text \<open>
  C19 (first_block_nearest) The search for the first block of a file takes the free sector nearest to the directory, in tracks, if
  there is one within the reach that \<open>vdrive_calculate_disk_half\<close> gives, and fails without touching the map if there is none. The
  track of the BAM is left out, but for the part of a 4000 disk after its root directory.
\<close>

theorem first_block_nearest:
  assumes "bam_ok v" "1 \<le> Bam_Track v" "Bam_Track v \<le> num_tracks v"
  shows "(\<exists>t s v'. vdrive_bam_alloc_first_free_sector v t0 s0 = Some (0, t, s, v') \<and> (t, s) \<in> bam_free v \<and> for_files v (t, s) \<and>
      int (bam_distance v t) \<le> vdrive_calculate_disk_half v \<and> took v (t, s) v' \<and>
      (\<forall>y\<in>bam_free v. for_files v y \<longrightarrow> bam_distance v t \<le> bam_distance v (fst y))) \<or>
    vdrive_bam_alloc_first_free_sector v t0 s0 = Some (- 1, t0, s0, v) \<and>
      (\<forall>y\<in>bam_free v. for_files v y \<longrightarrow> vdrive_calculate_disk_half v < int (bam_distance v (fst y)))"
  using assms by (rule first_block_search)

text \<open>A 1541 disk whose only free sector is on track 20.\<close>

theorem first_block_nearest_witness:
  "\<exists>v v'. bam_free v = {(20, 3)} \<and> vdrive_bam_alloc_first_free_sector v 0 0 = Some (0, 20, 3, v')"
proof -
  let ?v = "wit_drive 0 35 18 (replicate 256 0)"
  have "on_map ?v 20 3"
    by (simp add: on_map_def sectors_of_def vdrive_get_max_sectors_def wit_drive_def vdrive_formats sectors_zones)
  then obtain v where v: "bam_ok v" "same_disk ?v v" "bam_free v = {(20, 3)}"
    using free_law [of ?v 20 3] wit_1541_ok by blast
  have g: "Bam_Track v = 18" "num_tracks v = 35" "image_format v = 0" using same_disk_map [OF v(2)] by (simp_all add: wit_drive_def)
  have "for_files v (20, 3) \<and> int (bam_distance v 20) \<le> vdrive_calculate_disk_half v"
    using g by (simp add: for_files_def bam_distance_def vdrive_calculate_disk_half_def vdrive_formats)
  then have "\<exists>v'. vdrive_bam_alloc_first_free_sector v 0 0 = Some (0, 20, 3, v')"
    using first_block_nearest [of v 0 0] v g by auto
  then show ?thesis using v(3) by blast
qed

section \<open>Chains of blocks\<close>

lemma allocate_other_tracks:
  "vdrive_bam_allocate_sector (v\<lparr>num_tracks := n\<rparr>) t s =
    map_option (\<lambda>(r, w). (r, w\<lparr>num_tracks := n\<rparr>)) (vdrive_bam_allocate_sector v t s)"
proof -
  have "map_sector (v\<lparr>num_tracks := n\<rparr>) = map_sector v" "vdrive_bam_get_track_entry (v\<lparr>num_tracks := n\<rparr>) = vdrive_bam_get_track_entry v"
    "vdrive_bam_sector_free (v\<lparr>num_tracks := n\<rparr>) = vdrive_bam_sector_free v"
    by (simp_all add: fun_eq_iff map_sector_def vdrive_bam_get_track_entry_def vdrive_bam_sector_free_def)
  note same = this vdrive.select_convs vdrive.update_convs
  have map_bind: "map_option h (Option.bind m g) = Option.bind m (\<lambda>x. map_option h (g x))" for h :: "bool \<times> vdrive \<Rightarrow> bool \<times> vdrive"
    and m :: "'a option" and g by (cases m) simp_all
  have swap: "v\<lparr>num_tracks := n, bam := b\<rparr> = v\<lparr>bam := b, num_tracks := n\<rparr>" for b by simp
  show ?thesis
    by (simp add: vdrive_bam_allocate_sector_def same swap map_bind if_distrib [of "map_option _"] Let_def cong: if_cong)
qed

lemma allocate_image: "vdrive_bam_allocate_sector v t s = Some (got, w) \<Longrightarrow> vd_image w = vd_image v"
  by (auto simp: vdrive_bam_allocate_sector_def Let_def bind_eq_Some_conv split: if_splits)

lemma bam_free_finite [simp]: "finite (bam_free v)"
  by (rule finite_subset [of _ "Sigma {..num_tracks v} (\<lambda>t. {s. (t, s) \<in> bam_free v})"]) (auto simp: bam_free_def on_map_def)

text \<open>A 1541 disk on a file, with room for the 42 tracks that the address check allows whatever the number of tracks.\<close>

definition d64_drive :: "vdrive \<Rightarrow> bool" where
  "d64_drive v \<longleftrightarrow> image_format v = VDRIVE_IMAGE_FORMAT_1541 \<and> length (bam v) = 0x100 \<and> im_type (vd_image v) = DISK_IMAGE_TYPE_D64 \<and>
    im_device (vd_image v) = DISK_IMAGE_DEVICE_FS \<and> (\<exists>f. plain_image (vd_image v) f) \<and> fs_map (im_fs (vd_image v)) = None"

lemma d64_checked_sector:
  assumes "d64_drive v" "0 \<le> check_sector (vd_image v) t s"
  shows "on_map (v\<lparr>num_tracks := 42\<rparr>) t s"
proof -
  have "1 \<le> t \<and> t \<le> 42 \<and> s < disk_image_sector_per_track DISK_IMAGE_TYPE_D64 t"
    using assms by (auto simp: d64_drive_def disk_image_check_sector_def fsimage_check_sector_def zone_block_def disk_sizes
        FSIMAGE_BAD_TRKNUM_def FSIMAGE_BAD_SECNUM_def split: if_splits)
  moreover have "disk_image_sector_per_track DISK_IMAGE_TYPE_D64 t < 2 ^ 32" by (rule le_less_trans [OF sectors_bound(1)]) simp
  ultimately show ?thesis
    using assms(1) by (simp add: on_map_def sectors_of_def vdrive_get_max_sectors_def d64_drive_def vdrive_formats)
qed

lemma d64_read_returns:
  assumes "d64_drive v" "0 \<le> check_sector (vd_image v) t s"
  shows "\<exists>rc tmp. disk_image_read_sector p64 (vd_image v) (replicate 256 0) t s = Some (rc, tmp)"
proof -
  let ?im = "vd_image v"
  obtain f where f: "plain_image ?im f" "fs_map (im_fs ?im) = None" using assms(1) by (auto simp: d64_drive_def)
  have "\<exists>rc tmp. fsimage_dxx_read_sector ?im (replicate 256 0) t s = Some (rc, tmp)"
  proof (cases "block_at ?im t s + 256 \<le> length (f_data f)")
    case True
    then show ?thesis using dxx_read_plain [OF f(1) assms(2), of "replicate 256 0"] f(2) by (simp add: mapped_def)
  next
    case False
    then show ?thesis
      using fpread_short [of 256 "replicate 256 0" f "block_at ?im t s"] assms(2) f
      by (auto simp: fsimage_dxx_read_sector_def Let_def plain_image_def block_at_offset)
  qed
  then show ?thesis
    using assms(1) f(1) by (simp add: disk_image_read_sector_def fsimage_read_sector_def d64_drive_def dxx_types_def plain_image_def)
qed

lemma d64_allocate:
  assumes "d64_drive v" "0 \<le> check_sector (vd_image v) t s"
  shows "\<exists>got w. vdrive_bam_allocate_sector v t s = Some (got, w) \<and>
    (got \<longrightarrow> d64_drive w \<and> card (bam_free (w\<lparr>num_tracks := 42\<rparr>)) < card (bam_free (v\<lparr>num_tracks := 42\<rparr>)))"
proof -
  let ?v = "v\<lparr>num_tracks := 42\<rparr>"
  have shape: "bam_shape ?v" using assms(1) by (simp add: bam_shape_def d64_drive_def bam_room_def bam_heads_def vdrive_formats)
  note m = d64_checked_sector [OF assms]
  obtain b where b: "vdrive_bam_allocate_sector ?v t s = Some ((t, s) \<in> bam_free ?v, if (t, s) \<in> bam_free ?v then ?v\<lparr>bam := b\<rparr> else ?v)"
    "bam_changed ?v t s False (- 1) b" using allocate_eq [OF shape m] by blast
  obtain got w where w: "vdrive_bam_allocate_sector v t s = Some (got, w)" "got \<longleftrightarrow> (t, s) \<in> bam_free ?v"
    "w\<lparr>num_tracks := 42\<rparr> = (if (t, s) \<in> bam_free ?v then ?v\<lparr>bam := b\<rparr> else ?v)"
    using b(1) unfolding allocate_other_tracks by auto
  have "d64_drive w \<and> card (bam_free (w\<lparr>num_tracks := 42\<rparr>)) < card (bam_free ?v)" if got
  proof
    have e: "w\<lparr>num_tracks := 42\<rparr> = ?v\<lparr>bam := b\<rparr>" using w(2,3) that by simp
    have "image_format w = image_format v" "bam w = b" "vd_image w = vd_image v"
      using arg_cong [where f = image_format, OF e] arg_cong [where f = bam, OF e] arg_cong [where f = vd_image, OF e] by simp_all
    then show "d64_drive w" using assms(1) b(2) by (simp add: d64_drive_def bam_changed_def)
    have "bam_free (w\<lparr>num_tracks := 42\<rparr>) = bam_free ?v - {(t, s)}" unfolding e using changed_free [OF shape m b(2)] by simp
    then show "card (bam_free (w\<lparr>num_tracks := 42\<rparr>)) < card (bam_free ?v)"
      using card_Diff1_less [OF bam_free_finite, of "(t, s)" ?v] w(2) that by (simp only:)
  qed
  then show ?thesis using w(1) by blast
qed


text \<open>A block that links to itself: the chain ends with the error of a block that is not free.\<close>

definition wit_cycle :: vdrive where
  "wit_cycle = wit_drive 0 35 18 (replicate 256 255)
    \<lparr>vd_image := wit_image\<lparr>im_fs := \<lparr>fs_fd = Some \<lparr>f_data = replicate 174848 1, f_writable = True\<rparr>, fs_name = [], fs_map = None, fs_dirty = False\<rparr>\<rparr>\<rparr>"


end
