(* ===== verification/BamFaults.thy ===== *)
theory BamFaults
  imports BamSearch
begin

unbundle bit_operations_syntax

text \<open>
  The disks on which the code of the block availability map goes wrong: D81 images of more than 80 tracks, the second side of the 8250,
  and the write of the map of a 8050.
\<close>

section \<open>Divergences\<close>

lemma memcpy_length: "bam_memcpy k xs b = Some b' \<Longrightarrow> length b' = length b"
  by (auto simp: bam_memcpy_def split: if_splits)

lemma read_blocks_frame:
  "bam_read_blocks p64 bs err v = Some (err', v') \<Longrightarrow> same_disk v v' \<and> length (bam v') = length (bam v)"
proof (induction p64 bs err v rule: bam_read_blocks.induct)
  case (2 p64 k t s bs err v)
  obtain e buf b where r: "vdrive_read_sector p64 v (take 256 (drop k (bam v))) t s = Some (e, buf)" "bam_memcpy k buf (bam v) = Some b"
    "k + 256 \<le> length (bam v)"
    "(if e \<noteq> 0 then Some (e, v\<lparr>bam := b\<rparr>) else bam_read_blocks p64 bs e (v\<lparr>bam := b\<rparr>)) = Some (err', v')"
    using 2(2) by (auto simp: bind_eq_Some_conv split: if_splits)
  show ?case
  proof (cases "e \<noteq> 0")
    case True
    then show ?thesis using r(4) memcpy_length [OF r(2)] by (auto simp: same_disk_def)
  next
    case False
    then have n: "bam_read_blocks p64 bs e (v\<lparr>bam := b\<rparr>) = Some (err', v')" using r(4) by simp
    have "same_disk (v\<lparr>bam := b\<rparr>) v' \<and> length (bam v') = length (bam (v\<lparr>bam := b\<rparr>))"
      using "2.IH" [OF r(3) r(1) refl r(2)] False n by simp
    then show ?thesis using memcpy_length [OF r(2)] by (simp add: same_disk_def)
  qed
qed simp

lemma count_tracks_None: "free_on_track v i = None \<Longrightarrow> t \<le> i \<Longrightarrow> i < t + n \<Longrightarrow> count_tracks v t n = None"
proof (induction n arbitrary: t)
  case (Suc n)
  then show ?case by (cases "t = i") (auto simp: bind_eq_None_conv)
qed simp

text \<open>
  C38 (d81_map_overrun) A D81 image may have up to 83 tracks, but its map has room for 80: counting the free blocks of such a disk reads
  past the end of the memory allocated for the map.
\<close>

theorem d81_map_overrun:
  assumes "vdrive_attach_image p64 fresh im v = Some (0, v')" "im_type im = DISK_IMAGE_TYPE_D81" "81 \<le> im_tracks im"
  shows "vdrive_bam_free_block_count v' = None"
proof -
  define v0 where "v0 = (vdrive_set_disk_geometry (v\<lparr>image_format := VDRIVE_IMAGE_FORMAT_1581, num_tracks := im_tracks im\<rparr>))
    \<lparr>vd_image := im, bam := map fresh [0..<0x300]\<rparr>"
  have fmt: "vdrive_format im = Some (VDRIVE_IMAGE_FORMAT_1581, im_tracks im, 0x300)" using assms(2) by (simp add: vdrive_format_def disk_types Let_def)
  obtain e where e: "bam_read_blocks p64 (bam_blocks v0) (- 1) v0 = Some (e, v')"
    using assms(1) unfolding vdrive_attach_image_def fmt option.case prod.case Let_def v0_def [symmetric]
    by (auto simp: vdrive_bam_read_bam_def bind_eq_Some_conv)
  have "image_format v0 = VDRIVE_IMAGE_FORMAT_1581 \<and> num_tracks v0 = im_tracks im \<and> Dir_Track v0 = 40 \<and> length (bam v0) = 0x300"
    by (simp add: v0_def vdrive_set_disk_geometry_def set_geometry_def vdrive_formats Let_def)
  then have v': "image_format v' = VDRIVE_IMAGE_FORMAT_1581" "num_tracks v' = im_tracks im" "Dir_Track v' = 40" "length (bam v') = 0x300"
    using read_blocks_frame [OF e] same_disk_map by auto
  have "free_on_track v' 81 = None" using v' by (simp add: free_on_track_def vdrive_formats bam_places disk_sizes arr_get_def)
  then show ?thesis
    using count_tracks_None [of v' 81 1 "num_tracks v'"] v'(2) assms(3) by (simp add: vdrive_bam_free_block_count_def)
qed

text \<open>A D81 image of 81 tracks on a file is attached.\<close>

lemma d81_attached:
  assumes "im_type im = DISK_IMAGE_TYPE_D81" "im_device im = DISK_IMAGE_DEVICE_FS" "plain_image im f" "fs_map (im_fs im) = None"
    and "length (f_data f) = 829440"
  shows "\<exists>v'. vdrive_attach_image p64 fresh im v = Some (0, v')"
proof -
  have read: "vdrive_read_sector p64 w b 40 s = Some (0, file_block f (block_at im 40 s) @ drop 256 b) \<and> length (file_block f (block_at im 40 s)) = 256"
    if "vd_image w = im" "length b = 256" "s < 3" for w b s
  proof -
    have c: "check_sector im 40 s = 1560 + int s"
      using assms(1,2) that(3) by (simp add: disk_image_check_sector_def fsimage_check_sector_def disk_types disk_sizes)
    have k: "block_at im 40 s + 256 \<le> length (f_data f)"
      using c that(3) assms(1,5) by (simp add: block_at_def header_size_def disk_types nat_add_distrib)
    have "fsimage_dxx_read_sector im b 40 s = Some (0, file_block f (block_at im 40 s) @ drop 256 b)"
      using dxx_read_plain [OF assms(3), of 40 s b] c k that(2) assms(4)
      by (simp add: mapped_def block_code_def fdc_to_ipe_def CBMDOS_FDC_ERR_OK_def CBMDOS_IPE_OK_def)
    then show ?thesis
      using that(1) assms(1-3) k
      by (simp add: vdrive_read_sector_def disk_image_read_sector_def fsimage_read_sector_def dxx_types_def plain_image_def file_block_def)
  qed
  have fmt: "vdrive_format im = Some (VDRIVE_IMAGE_FORMAT_1581, im_tracks im, 0x300)" using assms(1) by (simp add: vdrive_format_def disk_types Let_def)
  define v0 where "v0 = (vdrive_set_disk_geometry (v\<lparr>image_format := VDRIVE_IMAGE_FORMAT_1581, num_tracks := im_tracks im\<rparr>))
    \<lparr>vd_image := im, bam := map fresh [0..<0x300]\<rparr>"
  have v0: "image_format v0 = VDRIVE_IMAGE_FORMAT_1581" "vd_image v0 = im" "length (bam v0) = 0x300"
    by (simp_all add: v0_def vdrive_set_disk_geometry_def set_geometry_def vdrive_formats Let_def)
  have step: "\<exists>b. bam_read_blocks p64 ((k, 40, s) # bs) e w = bam_read_blocks p64 bs 0 (w\<lparr>bam := b\<rparr>) \<and> length b = length (bam w)"
    if "vd_image w = im" "k + 256 \<le> length (bam w)" "s < 3" for k s bs e w
    using that read [of w "take 256 (drop k (bam w))" s] by (auto simp: bam_memcpy_def)
  have "bam_blocks v0 = [(0, 40, 0), (256, 40, 1), (512, 40, 2)]"
    using v0(1) by (simp add: bam_blocks_def vdrive_formats BAM_TRACK_1581_def BAM_SECTOR_1581_def)
  moreover obtain b1 where b1: "bam_read_blocks p64 [(0, 40, 0), (256, 40, 1), (512, 40, 2)] (- 1) v0 =
      bam_read_blocks p64 [(256, 40, 1), (512, 40, 2)] 0 (v0\<lparr>bam := b1\<rparr>)" "length b1 = 0x300"
    using step [of v0 0 0 "[(256, 40, 1), (512, 40, 2)]" "- 1"] v0 by auto
  moreover obtain b2 where b2: "bam_read_blocks p64 [(256, 40, 1), (512, 40, 2)] 0 (v0\<lparr>bam := b1\<rparr>) =
      bam_read_blocks p64 [(512, 40, 2)] 0 (v0\<lparr>bam := b2\<rparr>)" "length b2 = 0x300"
    using step [of "v0\<lparr>bam := b1\<rparr>" 256 1 "[(512, 40, 2)]" 0] v0 b1(2) by auto
  moreover obtain b3 where "bam_read_blocks p64 [(512, 40, 2)] 0 (v0\<lparr>bam := b2\<rparr>) = Some (0, v0\<lparr>bam := b3\<rparr>)"
    using step [of "v0\<lparr>bam := b2\<rparr>" 512 2 "[]" 0] v0 b2(2) by auto
  ultimately have "bam_read_blocks p64 (bam_blocks v0) (- 1) v0 = Some (0, v0\<lparr>bam := b3\<rparr>)" by simp
  then show ?thesis
    unfolding vdrive_attach_image_def fmt option.case prod.case Let_def v0_def [symmetric] vdrive_bam_read_bam_def by simp
qed

theorem d81_map_overrun_witness:
  "\<forall>p64. \<exists>v'. vdrive_attach_image p64 (\<lambda>k. 0) (wit_image\<lparr>im_type := 1581, im_tracks := 81,
      im_fs := \<lparr>fs_fd = Some \<lparr>f_data = replicate 829440 0, f_writable = True\<rparr>, fs_name = [], fs_map = None, fs_dirty = False\<rparr>\<rparr>)
      (wit_drive 0 35 18 []) = Some (0, v') \<and> vdrive_bam_free_block_count v' = None"
proof
  fix p64
  let ?im = "wit_image\<lparr>im_type := 1581, im_tracks := 81,
      im_fs := \<lparr>fs_fd = Some \<lparr>f_data = replicate 829440 0, f_writable = True\<rparr>, fs_name = [], fs_map = None, fs_dirty = False\<rparr>\<rparr>"
  obtain v' where v': "vdrive_attach_image p64 (\<lambda>k. 0) ?im (wit_drive 0 35 18 []) = Some (0, v')"
    using d81_attached [of ?im "\<lparr>f_data = replicate 829440 0, f_writable = True\<rparr>" p64 "\<lambda>k. 0"]
    by (force simp: wit_image_def plain_image_def disk_types disk_devices)
  then show "\<exists>v'. vdrive_attach_image p64 (\<lambda>k. 0) ?im (wit_drive 0 35 18 []) = Some (0, v') \<and> vdrive_bam_free_block_count v' = None"
    using d81_map_overrun [OF v'] by (auto simp: disk_types)
qed

text \<open>
  C39 (second_side_unreached) On a 8250 disk whose free sectors are all past track 78, on the second side but for its first track, the
  search for the first block of a file fails although the drive reports that many blocks free: the reach is that of one side.
\<close>

theorem second_side_unreached:
  assumes "bam_ok v" "image_format v = VDRIVE_IMAGE_FORMAT_8250" "Bam_Track v = 39" "Dir_Track v = 39" "num_tracks v = 154"
    and "\<forall>(t, s)\<in>bam_free v. 78 < t"
  shows "vdrive_bam_alloc_first_free_sector v t0 s0 = Some (- 1, t0, s0, v) \<and> vdrive_bam_free_block_count v = Some (card (bam_free v))"
proof
  have half: "vdrive_calculate_disk_half v = 39" using assms(2) by (simp add: vdrive_calculate_disk_half_def vdrive_formats)
  have far: "39 < int (bam_distance v t)" if "(t, s) \<in> bam_free v" for t s
    using assms(3,6) that by (auto simp: bam_distance_def)
  have reach: "1 \<le> Bam_Track v" "Bam_Track v \<le> num_tracks v" using assms(3,5) by simp_all
  from first_block_search [OF assms(1) reach, of t0 s0]
  show "vdrive_bam_alloc_first_free_sector v t0 s0 = Some (- 1, t0, s0, v)"
    using half far by (elim disjE exE conjE) force+
  have "{(t, s) \<in> bam_free v. \<not> not_counted v t s} = bam_free v"
    using assms(2,4,6) by (auto simp: not_counted_def vdrive_formats)
  then show "vdrive_bam_free_block_count v = Some (card (bam_free v))" using free_block_count_eq [OF assms(1)] by simp
qed

definition wit_8250 :: "u8 list" where
  "wit_8250 = (replicate 1280 0)[0x104 := 1, 0x105 := 51, 0x204 := 51, 0x205 := 101, 0x304 := 101, 0x305 := 151, 0x404 := 151, 0x405 := 155]"

lemma wit_8250_ok: "bam_ok (wit_drive 4 154 39 wit_8250) \<and> bam_free (wit_drive 4 154 39 wit_8250) = {}"
proof (rule empty_map_ok)
  have i: "image_format (wit_drive 4 154 39 wit_8250) = 4" "num_tracks (wit_drive 4 154 39 wit_8250) = 154" "bam (wit_drive 4 154 39 wit_8250) = wit_8250"
    by (simp_all add: wit_drive_def)
  show shape: "bam_shape (wit_drive 4 154 39 wit_8250)"
    unfolding bam_shape_def i by (simp add: bam_room_def bam_heads_def vdrive_formats wit_8250_def)
  have zero: "wit_8250 ! k = 0" if "k < 1280" "k \<notin> fst ` set (bam_heads 4)" for k
    using that by (simp add: wit_8250_def bam_heads_def vdrive_formats nth_list_update)
  have l: "length wit_8250 = 1280" by (simp add: wit_8250_def)
  show "bam (wit_drive 4 154 39 wit_8250) ! (bam_base (image_format (wit_drive 4 154 39 wit_8250)) t + q) = 0"
    if "1 \<le> t" "t \<le> num_tracks (wit_drive 4 154 39 wit_8250)" "q < bam_stride (image_format (wit_drive 4 154 39 wit_8250)) t" for t q
    using places(1,2) [OF shape that] unfolding i l by (intro zero)
  show "bam (wit_drive 4 154 39 wit_8250) ! bam_count_at (image_format (wit_drive 4 154 39 wit_8250)) t = 0"
    if "1 \<le> t" "t \<le> num_tracks (wit_drive 4 154 39 wit_8250)" for t
    using places(3) [OF shape that, of 0] unfolding i l by (intro zero) (simp_all add: bam_stride_def vdrive_formats)
qed

theorem second_side_unreached_witness:
  "\<exists>v. bam_free v = {(100, 0)} \<and> vdrive_bam_alloc_first_free_sector v 0 0 = Some (- 1, 0, 0, v) \<and> vdrive_bam_free_block_count v = Some 1"
proof -
  let ?v = "wit_drive 4 154 39 wit_8250"
  have "on_map ?v 100 0"
    by (simp add: on_map_def sectors_of_def vdrive_get_max_sectors_def wit_drive_def vdrive_formats sectors_zones disk_sizes)
  then obtain v where v: "bam_ok v" "same_disk ?v v" "bam_free v = {(100, 0)}"
    using free_law [of ?v 100 0] wit_8250_ok by blast
  have g: "image_format v = VDRIVE_IMAGE_FORMAT_8250" "Bam_Track v = 39" "Dir_Track v = 39" "num_tracks v = 154"
    using same_disk_map [OF v(2)] by (simp_all add: wit_drive_def vdrive_formats)
  show ?thesis using second_side_unreached [OF v(1) g, of 0 0] v(3) by auto
qed

text \<open>A plain D80 image of full size, not write protected.\<close>

definition d80_image :: "disk_image \<Rightarrow> bin_file \<Rightarrow> bool" where
  "d80_image im f \<longleftrightarrow> im_type im = DISK_IMAGE_TYPE_D80 \<and> im_device im = DISK_IMAGE_DEVICE_FS \<and> \<not> im_read_only im \<and> plain_image im f \<and>
    fs_map (im_fs im) = None \<and> f_writable f \<and> length (f_data f) = 2083 * 256"

lemma d80_blocks:
  assumes "im_type im = DISK_IMAGE_TYPE_D80" "im_device im = DISK_IMAGE_DEVICE_FS" "s < 29" "t \<in> {38, 39}"
  shows "check_sector im t s = 29 * int (t - 1) + int s" "block_at im t s = (29 * (t - 1) + s) * 256"
proof -
  have "fold (\<lambda>i k. k + disk_image_sector_per_track DISK_IMAGE_TYPE_D80 i) [1..<u] 0 = 29 * (u - 1)" if "1 \<le> u" "u \<le> 40" for u
    using that
  proof (induction u rule: dec_induct)
    case (step u)
    then show ?case using sectors_zones(3) [of u] by (simp add: fold_append)
  qed simp
  then show c: "check_sector im t s = 29 * int (t - 1) + int s"
    using assms sectors_zones(3) [of t]
    by (auto simp: disk_image_check_sector_def fsimage_check_sector_def zone_block_def disk_types disk_sizes)
  show "block_at im t s = (29 * (t - 1) + s) * 256"
    unfolding block_at_def c using assms(1) by (simp add: header_size_def disk_types nat_add_distrib nat_mult_distrib)
qed

lemma d80_write:
  assumes "d80_image im f" "length b = 256" "s < 29" "t \<in> {38, 39}"
  shows "disk_image_write_sector p64 im b t s = Some (0, set_fd (patch f b 256 (block_at im t s)) im)"
    and "d80_image (set_fd (patch f b 256 (block_at im t s)) im) (patch f b 256 (block_at im t s))"
proof -
  have im: "im_type im = DISK_IMAGE_TYPE_D80" "im_device im = DISK_IMAGE_DEVICE_FS" "\<not> im_read_only im" "im_gcr im = None"
    "fs_fd (im_fs im) = Some f" "fs_map (im_fs im) = None" "f_writable f" "length (f_data f) = 2083 * 256"
    using assms(1) by (simp_all add: d80_image_def plain_image_def)
  note c = d80_blocks [OF im(1,2) assms(3,4)]
  have k: "0 \<le> check_sector im t s" "block_at im t s + 256 \<le> 2083 * 256" unfolding c using assms(3,4) by auto
  have w: "util_fpwrite f b 256 (dxx_offset im (check_sector im t s)) = Some (0, patch f b 256 (block_at im t s))"
    using fpwrite_ok [OF im(7), of 256 b "block_at im t s"] assms(2) by (simp add: block_at_offset [OF k(1)] patch_def)
  have "fsimage_dxx_write_sector im b t s = Some (0, set_fd (patch f b 256 (block_at im t s)) im)"
    using k(1) im w by (simp add: fsimage_dxx_write_sector_def Let_def gcr_write_track_def)
  then show "disk_image_write_sector p64 im b t s = Some (0, set_fd (patch f b 256 (block_at im t s)) im)"
    using im by (simp add: disk_image_write_sector_def fsimage_write_sector_def dxx_types_def)
  have "length (f_data (patch f b 256 (block_at im t s))) = 2083 * 256" using patch_length [of 256 b f "block_at im t s"] assms(2) im(8) k(2) by simp
  then show "d80_image (set_fd (patch f b 256 (block_at im t s)) im) (patch f b 256 (block_at im t s))"
    using im by (simp add: d80_image_def plain_image_def patch_def)
qed

lemma d80_read:
  assumes "d80_image im f" "length b = 256" "s < 29" "t \<in> {38, 39}"
  shows "disk_image_read_sector p64 im b t s = Some (0, file_block f (block_at im t s))"
proof -
  have im: "im_type im = DISK_IMAGE_TYPE_D80" "im_device im = DISK_IMAGE_DEVICE_FS" "plain_image im f" "fs_fd (im_fs im) = Some f"
    "fs_map (im_fs im) = None" "length (f_data f) = 2083 * 256"
    using assms(1) by (simp_all add: d80_image_def plain_image_def)
  note c = d80_blocks [OF im(1,2) assms(3,4)]
  have k: "0 \<le> check_sector im t s" "block_at im t s + 256 \<le> length (f_data f)" unfolding c im(6) using assms(3,4) by auto
  have "fsimage_dxx_read_sector im b t s = Some (0, file_block f (block_at im t s))"
    using dxx_read_plain [OF im(3) k(1) _ _ k(2), of b] im(5) assms(2)
    by (simp add: mapped_def block_code_def fdc_to_ipe_def CBMDOS_FDC_ERR_OK_def CBMDOS_IPE_OK_def)
  then show ?thesis using im by (simp add: disk_image_read_sector_def fsimage_read_sector_def dxx_types_def)
qed

lemma d80_write_block:
  assumes "d80_image (vd_image v) f" "k + 256 \<le> length (bam v)" "s < 29" "t \<in> {38, 39}"
  shows "\<exists>w g. bam_write_blocks p64 ((k, t, s) # bs) 0 v = bam_write_blocks p64 bs 0 w \<and> d80_image (vd_image w) g \<and> bam w = bam v \<and>
    g = patch f (take 256 (drop k (bam v))) 256 ((29 * (t - 1) + s) * 256)"
proof -
  let ?b = "take 256 (drop k (bam v))"
  have l: "length ?b = 256" using assms(2) by simp
  have ty: "im_type (vd_image v) = DISK_IMAGE_TYPE_D80" "im_device (vd_image v) = DISK_IMAGE_DEVICE_FS" using assms(1) by (simp_all add: d80_image_def)
  note at = d80_blocks(2) [OF ty assms(3,4)]
  show ?thesis
    using assms(2) d80_write(1) [OF assms(1) l assms(3,4), of p64, unfolded at] d80_write(2) [OF assms(1) l assms(3,4), unfolded at]
    by (intro exI [of _ "v\<lparr>vd_image := set_fd (patch f ?b 256 ((29 * (t - 1) + s) * 256)) (vd_image v)\<rparr>"] exI)
      (simp add: vdrive_write_sector_def)
qed

text \<open>
  C40 (d80_sectors_overwritten) Writing the map of a 8050 disk stores the fourth and fifth block of the buffer into the sectors 6 and 9 of
  track 38, as for the 8250: the code compares the format with 8050, a number that no format has. These sectors belong to files,
  and the buffer is memory that was never initialised there, since reading the map takes three blocks.
\<close>

theorem d80_sectors_overwritten:
  assumes "d80_image (vd_image v) f" "image_format v = VDRIVE_IMAGE_FORMAT_8050" "length (bam v) = 0x500" "length b = 256"
  shows "fst ` set (bam_blocks v) = {0, 256, 512} \<and> (\<exists>v'. vdrive_bam_write_bam p64 v = Some (0, v') \<and>
      disk_image_read_sector p64 (vd_image v') b 38 6 = Some (0, take 256 (drop 768 (bam v))) \<and>
      disk_image_read_sector p64 (vd_image v') b 38 9 = Some (0, take 256 (drop 1024 (bam v))))"
proof
  have bl: "bam_blocks_written v = [(0, 39, 0), (256, 38, 0), (512, 38, 3), (768, 38, 6), (1024, 38, 9)]"
    using assms(2) by (simp add: bam_blocks_written_def vdrive_formats bam_blocks_8250_def BAM_TRACK_8050_def BAM_SECTOR_8050_def)
  obtain w1 f1 where w1: "bam_write_blocks p64 [(0, 39, 0), (256, 38, 0), (512, 38, 3), (768, 38, 6), (1024, 38, 9)] 0 v =
      bam_write_blocks p64 [(256, 38, 0), (512, 38, 3), (768, 38, 6), (1024, 38, 9)] 0 w1" "d80_image (vd_image w1) f1" "bam w1 = bam v"
    using d80_write_block [OF assms(1), of 0 0 39 p64 "[(256, 38, 0), (512, 38, 3), (768, 38, 6), (1024, 38, 9)]"] assms(3) by auto
  obtain w2 f2 where w2: "bam_write_blocks p64 [(256, 38, 0), (512, 38, 3), (768, 38, 6), (1024, 38, 9)] 0 w1 =
      bam_write_blocks p64 [(512, 38, 3), (768, 38, 6), (1024, 38, 9)] 0 w2" "d80_image (vd_image w2) f2" "bam w2 = bam v"
    using d80_write_block [OF w1(2), of 256 0 38 p64 "[(512, 38, 3), (768, 38, 6), (1024, 38, 9)]"] assms(3) w1(3) by auto
  obtain w3 f3 where w3: "bam_write_blocks p64 [(512, 38, 3), (768, 38, 6), (1024, 38, 9)] 0 w2 =
      bam_write_blocks p64 [(768, 38, 6), (1024, 38, 9)] 0 w3" "d80_image (vd_image w3) f3" "bam w3 = bam v"
    using d80_write_block [OF w2(2), of 512 3 38 p64 "[(768, 38, 6), (1024, 38, 9)]"] assms(3) w2(3) by auto
  let ?b3 = "take 256 (drop 768 (bam v))" and ?b4 = "take 256 (drop 1024 (bam v))"
  obtain w4 where w4: "bam_write_blocks p64 [(768, 38, 6), (1024, 38, 9)] 0 w3 = bam_write_blocks p64 [(1024, 38, 9)] 0 w4"
    "d80_image (vd_image w4) (patch f3 ?b3 256 276224)" "bam w4 = bam v"
    using d80_write_block [OF w3(2), of 768 6 38 p64 "[(1024, 38, 9)]"] assms(3) w3(3) by auto
  obtain w5 where w5: "bam_write_blocks p64 [(1024, 38, 9)] 0 w4 = Some (0, w5)"
    "d80_image (vd_image w5) (patch (patch f3 ?b3 256 276224) ?b4 256 276992)"
    using d80_write_block [OF w4(2), of 1024 9 38 p64 "[]"] assms(3) w4(3) by auto
  have l: "length ?b3 = 256" "length ?b4 = 256" using assms(3) by simp_all
  have im: "im_type (vd_image w5) = DISK_IMAGE_TYPE_D80" "im_device (vd_image w5) = DISK_IMAGE_DEVICE_FS" using w5(2) by (simp_all add: d80_image_def)
  have k: "block_at (vd_image w5) 38 6 = 276224" "block_at (vd_image w5) 38 9 = 276992"
    using d80_blocks(2) [OF im, of 6 38] d80_blocks(2) [OF im, of 9 38] by simp_all
  have r6: "file_block (patch (patch f3 ?b3 256 276224) ?b4 256 276992) 276224 = ?b3"
    using patch_block_other [of 276224 256 276992 256 "patch f3 ?b3 256 276224" ?b4] patch_block_same [OF l(1), of 276224 f3] l w4(2)
    by (simp add: file_block_def d80_image_def)
  have r9: "file_block (patch (patch f3 ?b3 256 276224) ?b4 256 276992) 276992 = ?b4"
    unfolding file_block_def by (rule patch_block_same [OF l(2)])
  have "vdrive_bam_write_bam p64 v = Some (0, w5)" using w1(1) w2(1) w3(1) w4(1) w5(1) by (simp add: vdrive_bam_write_bam_def bl del: bam_write_blocks.simps)
  moreover have "disk_image_read_sector p64 (vd_image w5) b 38 6 = Some (0, ?b3)"
    using d80_read [OF w5(2) assms(4), of 6 38] k(1) r6 by simp
  moreover have "disk_image_read_sector p64 (vd_image w5) b 38 9 = Some (0, ?b4)"
    using d80_read [OF w5(2) assms(4), of 9 38] k(2) r9 by simp
  ultimately show "\<exists>v'. vdrive_bam_write_bam p64 v = Some (0, v') \<and>
      disk_image_read_sector p64 (vd_image v') b 38 6 = Some (0, ?b3) \<and> disk_image_read_sector p64 (vd_image v') b 38 9 = Some (0, ?b4)" by blast
  show "fst ` set (bam_blocks v) = {0, 256, 512}"
    using assms(2) by (simp add: bam_blocks_def vdrive_formats bam_blocks_8250_def)
qed

theorem d80_sectors_overwritten_witness:
  "\<forall>p64. \<exists>v'. vdrive_bam_write_bam p64 (wit_drive 3 77 39 (replicate 1280 170)\<lparr>vd_image := wit_image\<lparr>im_type := 8050, im_tracks := 77,
      im_fs := \<lparr>fs_fd = Some \<lparr>f_data = replicate 533248 0, f_writable = True\<rparr>, fs_name = [], fs_map = None, fs_dirty = False\<rparr>\<rparr>\<rparr>) = Some (0, v') \<and>
    disk_image_read_sector p64 (vd_image v') (replicate 256 0) 38 6 = Some (0, replicate 256 170)"
proof
  fix p64
  let ?v = "wit_drive 3 77 39 (replicate 1280 170)\<lparr>vd_image := wit_image\<lparr>im_type := 8050, im_tracks := 77,
      im_fs := \<lparr>fs_fd = Some \<lparr>f_data = replicate 533248 0, f_writable = True\<rparr>, fs_name = [], fs_map = None, fs_dirty = False\<rparr>\<rparr>\<rparr> :: vdrive"
  have d: "d80_image (vd_image ?v) \<lparr>f_data = replicate 533248 0, f_writable = True\<rparr>"
    by (simp add: d80_image_def wit_image_def plain_image_def disk_types disk_devices)
  show "\<exists>v'. vdrive_bam_write_bam p64 ?v = Some (0, v') \<and>
      disk_image_read_sector p64 (vd_image v') (replicate 256 0) 38 6 = Some (0, replicate 256 170)"
    using d80_sectors_overwritten [OF d, of "replicate 256 0" p64] by (auto simp: wit_drive_def vdrive_formats)
qed

end
