(* ===== verification/Snapshot.thy ===== *)
theory Snapshot
  imports Prelude
begin

text \<open>
  Snapshot files (snapshot.c, snapshot.h): a file with a head and modules, each with a name, a version and its size, which the
  components write and read through the functions of this theory. Current names for error messages and the functions that only
  close or free are left out, as is \<open>fseek\<close> failing.
\<close>

section \<open>The file\<close>

definition SNAPSHOT_MACHINE_NAME_LEN :: nat where "SNAPSHOT_MACHINE_NAME_LEN = 16"
definition SNAPSHOT_MODULE_NAME_LEN :: nat where "SNAPSHOT_MODULE_NAME_LEN = 16"
definition SNAPSHOT_MAGIC_LEN :: nat where "SNAPSHOT_MAGIC_LEN = 19"
definition SNAPSHOT_VERSION_MAGIC_LEN :: nat where "SNAPSHOT_VERSION_MAGIC_LEN = 13"

definition SNAPSHOT_NO_ERROR :: nat where "SNAPSHOT_NO_ERROR = 0"
definition SNAPSHOT_WRITE_EOF_ERROR :: nat where "SNAPSHOT_WRITE_EOF_ERROR = 1"
definition SNAPSHOT_WRITE_BYTE_ARRAY_ERROR :: nat where "SNAPSHOT_WRITE_BYTE_ARRAY_ERROR = 2"
definition SNAPSHOT_READ_EOF_ERROR :: nat where "SNAPSHOT_READ_EOF_ERROR = 3"
definition SNAPSHOT_READ_BYTE_ARRAY_ERROR :: nat where "SNAPSHOT_READ_BYTE_ARRAY_ERROR = 4"
definition SNAPSHOT_ILLEGAL_STRING_LENGTH_ERROR :: nat where "SNAPSHOT_ILLEGAL_STRING_LENGTH_ERROR = 5"
definition SNAPSHOT_READ_OUT_OF_BOUNDS_ERROR :: nat where "SNAPSHOT_READ_OUT_OF_BOUNDS_ERROR = 6"
definition SNAPSHOT_MODULE_HEADER_READ_ERROR :: nat where "SNAPSHOT_MODULE_HEADER_READ_ERROR = 9"
definition SNAPSHOT_MODULE_CLOSE_ERROR :: nat where "SNAPSHOT_MODULE_CLOSE_ERROR = 11"
definition SNAPSHOT_CANNOT_CREATE_SNAPSHOT_ERROR :: nat where "SNAPSHOT_CANNOT_CREATE_SNAPSHOT_ERROR = 13"
definition SNAPSHOT_CANNOT_WRITE_MAGIC_STRING_ERROR :: nat where "SNAPSHOT_CANNOT_WRITE_MAGIC_STRING_ERROR = 14"
definition SNAPSHOT_CANNOT_WRITE_VERSION_ERROR :: nat where "SNAPSHOT_CANNOT_WRITE_VERSION_ERROR = 15"
definition SNAPSHOT_CANNOT_WRITE_MACHINE_NAME_ERROR :: nat where "SNAPSHOT_CANNOT_WRITE_MACHINE_NAME_ERROR = 16"
definition SNAPSHOT_CANNOT_OPEN_FOR_READ_ERROR :: nat where "SNAPSHOT_CANNOT_OPEN_FOR_READ_ERROR = 17"
definition SNAPSHOT_MAGIC_STRING_MISMATCH_ERROR :: nat where "SNAPSHOT_MAGIC_STRING_MISMATCH_ERROR = 18"
definition SNAPSHOT_CANNOT_READ_VERSION_ERROR :: nat where "SNAPSHOT_CANNOT_READ_VERSION_ERROR = 19"
definition SNAPSHOT_CANNOT_READ_MACHINE_NAME_ERROR :: nat where "SNAPSHOT_CANNOT_READ_MACHINE_NAME_ERROR = 20"
definition SNAPSHOT_MACHINE_MISMATCH_ERROR :: nat where "SNAPSHOT_MACHINE_MISMATCH_ERROR = 21"

text \<open>
  The open file with the global \<open>snapshot_error\<close>. An operation returns a value, or None where the code returns -1 or NULL, and the
  file after it. A write to a file opened for writing succeeds; past the end it fills with zeros. A file opened for writing cannot be read.
\<close>

record sfile =
  sf_data :: "u8 list"
  sf_pos :: nat
  sf_writable :: bool
  snapshot_error :: nat

type_synonym 'a sio = "sfile \<Rightarrow> 'a option \<times> sfile"

definition sio_ret :: "'a \<Rightarrow> 'a sio" where "sio_ret x = (\<lambda>s. (Some x, s))"

definition sio_fail :: "nat \<Rightarrow> 'a sio" where "sio_fail e = (\<lambda>s. (None, s\<lparr>snapshot_error := e\<rparr>))"

definition sio_then :: "'a sio \<Rightarrow> ('a \<Rightarrow> 'b sio) \<Rightarrow> 'b sio" where
  "sio_then f g = (\<lambda>s. case f s of (None, s) \<Rightarrow> (None, s) | (Some x, s) \<Rightarrow> g x s)"

text \<open>\<open>f\<close>, whose failure sets another error.\<close>

definition sio_or_error :: "nat \<Rightarrow> 'a sio \<Rightarrow> 'a sio" where
  "sio_or_error e f = (\<lambda>s. case f s of (None, s) \<Rightarrow> sio_fail e s | (Some x, s) \<Rightarrow> (Some x, s))"

definition sio_seek :: "nat \<Rightarrow> unit sio" where "sio_seek k = (\<lambda>s. (Some (), s\<lparr>sf_pos := k\<rparr>))"

definition sio_tell :: "nat sio" where "sio_tell = (\<lambda>s. (Some (sf_pos s), s))"

definition put_bytes :: "nat \<Rightarrow> u8 list \<Rightarrow> u8 list \<Rightarrow> u8 list" where
  "put_bytes k xs d = take k (d @ replicate (k - length d) 0) @ xs @ drop (k + length xs) d"

section \<open>Values\<close>

definition snapshot_write_byte :: "u8 \<Rightarrow> unit sio" where
  "snapshot_write_byte b = (\<lambda>s.
     if sf_writable s then (Some (), s\<lparr>sf_data := put_bytes (sf_pos s) [b] (sf_data s), sf_pos := sf_pos s + 1\<rparr>)
     else sio_fail SNAPSHOT_WRITE_EOF_ERROR s)"

definition snapshot_write_word :: "u16 \<Rightarrow> unit sio" where
  "snapshot_write_word w =
    sio_then (snapshot_write_byte (ucast (w AND 0xff))) (\<lambda>_. snapshot_write_byte (ucast (drop_bit 8 w)))"

definition snapshot_write_dword :: "u32 \<Rightarrow> unit sio" where
  "snapshot_write_dword w =
    sio_then (snapshot_write_word (ucast (w AND 0xffff))) (\<lambda>_. snapshot_write_word (ucast (drop_bit 16 w)))"

text \<open>A double is the eight bytes of its representation; a C string is the list of its bytes before the zero that ends it.\<close>

fun write_each :: "('a \<Rightarrow> unit sio) \<Rightarrow> 'a list \<Rightarrow> unit sio" where
  "write_each f [] = sio_ret ()"
| "write_each f (x # xs) = sio_then (f x) (\<lambda>_. write_each f xs)"

definition snapshot_write_double :: "u8 list \<Rightarrow> unit sio" where
  "snapshot_write_double bytes = write_each snapshot_write_byte bytes"

fun snapshot_write_padded_string :: "u8 list \<Rightarrow> u8 \<Rightarrow> nat \<Rightarrow> unit sio" where
  "snapshot_write_padded_string cs pad_char 0 = sio_ret ()"
| "snapshot_write_padded_string [] pad_char (Suc n) =
    sio_then (snapshot_write_byte pad_char) (\<lambda>_. snapshot_write_padded_string [] pad_char n)"
| "snapshot_write_padded_string (c # cs) pad_char (Suc n) =
    sio_then (snapshot_write_byte c) (\<lambda>_. snapshot_write_padded_string cs pad_char n)"

definition snapshot_write_byte_array :: "u8 list \<Rightarrow> unit sio" where
  "snapshot_write_byte_array bs = (\<lambda>s.
     if bs = [] then (Some (), s)
     else if sf_writable s then (Some (), s\<lparr>sf_data := put_bytes (sf_pos s) bs (sf_data s), sf_pos := sf_pos s + length bs\<rparr>)
     else sio_fail SNAPSHOT_WRITE_BYTE_ARRAY_ERROR s)"

definition snapshot_write_word_array :: "u16 list \<Rightarrow> unit sio" where
  "snapshot_write_word_array ws = write_each snapshot_write_word ws"

definition snapshot_write_dword_array :: "u32 list \<Rightarrow> unit sio" where
  "snapshot_write_dword_array ws = write_each snapshot_write_dword ws"

text \<open>NULL is None. The bytes of the string with its zero follow the length cut to 16 bits; the result is the length with the word.\<close>

definition snapshot_write_string :: "u8 list option \<Rightarrow> nat sio" where
  "snapshot_write_string str =
    (let bytes = (case str of None \<Rightarrow> [] | Some cs \<Rightarrow> cs @ [0]) in
     sio_then (snapshot_write_word (word_of_nat (length bytes))) (\<lambda>_.
     sio_then (write_each snapshot_write_byte bytes) (\<lambda>_. sio_ret (length bytes + 2))))"

definition snapshot_read_byte :: "u8 sio" where
  "snapshot_read_byte = (\<lambda>s.
     if \<not> sf_writable s \<and> sf_pos s < length (sf_data s) then (Some (sf_data s ! sf_pos s), s\<lparr>sf_pos := sf_pos s + 1\<rparr>)
     else sio_fail SNAPSHOT_READ_EOF_ERROR s)"

definition snapshot_read_word :: "u16 sio" where
  "snapshot_read_word =
    sio_then snapshot_read_byte (\<lambda>lo. sio_then snapshot_read_byte (\<lambda>hi. sio_ret (ucast lo OR push_bit 8 (ucast hi))))"

definition snapshot_read_dword :: "u32 sio" where
  "snapshot_read_dword =
    sio_then snapshot_read_word (\<lambda>lo. sio_then snapshot_read_word (\<lambda>hi. sio_ret (ucast lo OR push_bit 16 (ucast hi))))"

fun read_each :: "'a sio \<Rightarrow> nat \<Rightarrow> 'a list sio" where
  "read_each f 0 = sio_ret []"
| "read_each f (Suc n) = sio_then f (\<lambda>x. sio_then (read_each f n) (\<lambda>xs. sio_ret (x # xs)))"

definition snapshot_read_double :: "u8 list sio" where
  "snapshot_read_double = read_each snapshot_read_byte 8"

definition snapshot_read_byte_array :: "nat \<Rightarrow> u8 list sio" where
  "snapshot_read_byte_array num = (\<lambda>s.
     if num = 0 then (Some [], s)
     else if \<not> sf_writable s \<and> sf_pos s + num \<le> length (sf_data s) then
       (Some (take num (drop (sf_pos s) (sf_data s))), s\<lparr>sf_pos := sf_pos s + num\<rparr>)
     else sio_fail SNAPSHOT_READ_BYTE_ARRAY_ERROR (if sf_writable s then s else s\<lparr>sf_pos := max (sf_pos s) (length (sf_data s))\<rparr>))"

definition snapshot_read_word_array :: "nat \<Rightarrow> u16 list sio" where
  "snapshot_read_word_array num = read_each snapshot_read_word num"

definition snapshot_read_dword_array :: "nat \<Rightarrow> u32 list sio" where
  "snapshot_read_dword_array num = read_each snapshot_read_dword num"

definition snapshot_read_string :: "u8 list option sio" where
  "snapshot_read_string =
    sio_then snapshot_read_word (\<lambda>w.
      if w = 0 then sio_ret None
      else sio_then (read_each snapshot_read_byte (unat w)) (\<lambda>bytes. sio_ret (Some (takeWhile (\<lambda>c. c \<noteq> 0) (butlast bytes)))))"

section \<open>Modules\<close>

text \<open>A module in the file; an operation that writes returns it with its new size.\<close>

record smodule =
  sm_write_mode :: bool
  sm_size :: u32
  sm_offset :: nat
  sm_size_offset :: nat

definition grown :: "smodule \<Rightarrow> nat \<Rightarrow> smodule" where "grown m n = m\<lparr>sm_size := sm_size m + word_of_nat n\<rparr>"

definition snapshot_module_write_byte :: "smodule \<Rightarrow> u8 \<Rightarrow> smodule sio" where
  "snapshot_module_write_byte m b = sio_then (snapshot_write_byte b) (\<lambda>_. sio_ret (grown m 1))"

definition snapshot_module_write_word :: "smodule \<Rightarrow> u16 \<Rightarrow> smodule sio" where
  "snapshot_module_write_word m w = sio_then (snapshot_write_word w) (\<lambda>_. sio_ret (grown m 2))"

definition snapshot_module_write_dword :: "smodule \<Rightarrow> u32 \<Rightarrow> smodule sio" where
  "snapshot_module_write_dword m w = sio_then (snapshot_write_dword w) (\<lambda>_. sio_ret (grown m 4))"

definition snapshot_module_write_double :: "smodule \<Rightarrow> u8 list \<Rightarrow> smodule sio" where
  "snapshot_module_write_double m d = sio_then (snapshot_write_double d) (\<lambda>_. sio_ret (grown m 8))"

definition snapshot_module_write_padded_string :: "smodule \<Rightarrow> u8 list \<Rightarrow> u8 \<Rightarrow> nat \<Rightarrow> smodule sio" where
  "snapshot_module_write_padded_string m cs pad_char n = sio_then (snapshot_write_padded_string cs pad_char n) (\<lambda>_. sio_ret (grown m n))"

definition snapshot_module_write_byte_array :: "smodule \<Rightarrow> u8 list \<Rightarrow> smodule sio" where
  "snapshot_module_write_byte_array m bs = sio_then (snapshot_write_byte_array bs) (\<lambda>_. sio_ret (grown m (length bs)))"

definition snapshot_module_write_word_array :: "smodule \<Rightarrow> u16 list \<Rightarrow> smodule sio" where
  "snapshot_module_write_word_array m ws = sio_then (snapshot_write_word_array ws) (\<lambda>_. sio_ret (grown m (length ws * 2)))"

definition snapshot_module_write_dword_array :: "smodule \<Rightarrow> u32 list \<Rightarrow> smodule sio" where
  "snapshot_module_write_dword_array m ws = sio_then (snapshot_write_dword_array ws) (\<lambda>_. sio_ret (grown m (length ws * 4)))"

definition snapshot_module_write_string :: "smodule \<Rightarrow> u8 list option \<Rightarrow> smodule sio" where
  "snapshot_module_write_string m str =
    sio_then (sio_or_error SNAPSHOT_ILLEGAL_STRING_LENGTH_ERROR (snapshot_write_string str)) (\<lambda>n. sio_ret (grown m n))"

text \<open>Reads look at the end of the module first.\<close>

definition in_module :: "smodule \<Rightarrow> nat \<Rightarrow> 'a sio \<Rightarrow> 'a sio" where
  "in_module m n f = (\<lambda>s.
     if sf_pos s + n > sm_offset m + unat (sm_size m) then sio_fail SNAPSHOT_READ_OUT_OF_BOUNDS_ERROR s else f s)"

definition snapshot_module_read_byte :: "smodule \<Rightarrow> u8 sio" where
  "snapshot_module_read_byte m = in_module m 1 snapshot_read_byte"

definition snapshot_module_read_word :: "smodule \<Rightarrow> u16 sio" where
  "snapshot_module_read_word m = in_module m 2 snapshot_read_word"

definition snapshot_module_read_dword :: "smodule \<Rightarrow> u32 sio" where
  "snapshot_module_read_dword m = in_module m 4 snapshot_read_dword"

definition snapshot_module_read_double :: "smodule \<Rightarrow> u8 list sio" where
  "snapshot_module_read_double m = in_module m 8 snapshot_read_double"

definition snapshot_module_read_byte_array :: "smodule \<Rightarrow> nat \<Rightarrow> u8 list sio" where
  "snapshot_module_read_byte_array m num = in_module m num (snapshot_read_byte_array num)"

definition snapshot_module_read_word_array :: "smodule \<Rightarrow> nat \<Rightarrow> u16 list sio" where
  "snapshot_module_read_word_array m num = in_module m (num * 2) (snapshot_read_word_array num)"

definition snapshot_module_read_dword_array :: "smodule \<Rightarrow> nat \<Rightarrow> u32 list sio" where
  "snapshot_module_read_dword_array m num = in_module m (num * 4) (snapshot_read_dword_array num)"

definition snapshot_module_read_string :: "smodule \<Rightarrow> u8 list option sio" where
  "snapshot_module_read_string m = in_module m 2 snapshot_read_string"

definition snapshot_module_read_byte_into_int :: "smodule \<Rightarrow> int sio" where
  "snapshot_module_read_byte_into_int m = sio_then (snapshot_module_read_byte m) (\<lambda>b. sio_ret (uint b))"

definition snapshot_module_read_word_into_int :: "smodule \<Rightarrow> int sio" where
  "snapshot_module_read_word_into_int m = sio_then (snapshot_module_read_word m) (\<lambda>b. sio_ret (uint b))"

definition snapshot_module_read_dword_into_ulong :: "smodule \<Rightarrow> nat sio" where
  "snapshot_module_read_dword_into_ulong m = sio_then (snapshot_module_read_dword m) (\<lambda>b. sio_ret (unat b))"

definition snapshot_module_read_dword_into_int :: "smodule \<Rightarrow> int sio" where
  "snapshot_module_read_dword_into_int m = sio_then (snapshot_module_read_dword m) (\<lambda>b. sio_ret (sint b))"

definition snapshot_module_read_dword_into_uint :: "smodule \<Rightarrow> u32 sio" where
  "snapshot_module_read_dword_into_uint m = sio_then (snapshot_module_read_dword m) (\<lambda>b. sio_ret b)"

section \<open>Creating, opening and closing modules\<close>

definition snapshot_module_create :: "u8 list \<Rightarrow> u8 \<Rightarrow> u8 \<Rightarrow> smodule sio" where
  "snapshot_module_create name major_version minor_version =
    sio_then sio_tell (\<lambda>offset.
    sio_then (snapshot_write_padded_string name 0 SNAPSHOT_MODULE_NAME_LEN) (\<lambda>_.
    sio_then (snapshot_write_byte major_version) (\<lambda>_.
    sio_then (snapshot_write_byte minor_version) (\<lambda>_.
    sio_then (snapshot_write_dword 0) (\<lambda>_.
    sio_then sio_tell (\<lambda>k.
    sio_ret \<lparr>sm_write_mode = True, sm_size = word_of_nat (k - offset), sm_offset = offset, sm_size_offset = k - 4\<rparr>))))))"

text \<open>\<open>memcmp\<close> of the name, which has no more than 16 bytes, and the zero after it.\<close>

definition name_matches :: "u8 list \<Rightarrow> u8 list \<Rightarrow> bool" where
  "name_matches n name \<longleftrightarrow> take (length name) n = name \<and> (length name = SNAPSHOT_MODULE_NAME_LEN \<or> n ! length name = 0)"

definition read_module_head :: "(u8 list \<times> u8 \<times> u8 \<times> u32) sio" where
  "read_module_head = sio_or_error SNAPSHOT_MODULE_HEADER_READ_ERROR (
    sio_then (snapshot_read_byte_array SNAPSHOT_MODULE_NAME_LEN) (\<lambda>n.
    sio_then snapshot_read_byte (\<lambda>major.
    sio_then snapshot_read_byte (\<lambda>minor.
    sio_then snapshot_read_dword (\<lambda>sz. sio_ret (n, major, minor, sz))))))"

text \<open>The search through the modules; a search that does not end is None.\<close>

partial_function (option) module_search ::
    "u8 list \<Rightarrow> nat \<Rightarrow> nat \<Rightarrow> sfile \<Rightarrow> ((smodule \<times> u8 \<times> u8) option \<times> sfile) option" where
  "module_search name first offset s =
    (case read_module_head s of
       (None, s) \<Rightarrow> Some (None, s\<lparr>sf_pos := first\<rparr>)
     | (Some (n, major, minor, sz), s) \<Rightarrow>
         (if name_matches n name then
            Some (Some (\<lparr>sm_write_mode = False, sm_size = sz, sm_offset = offset, sm_size_offset = sf_pos s - 4\<rparr>, major, minor), s)
          else module_search name first (offset + unat sz) (s\<lparr>sf_pos := offset + unat sz\<rparr>)))"

definition snapshot_module_open ::
    "nat \<Rightarrow> u8 list \<Rightarrow> sfile \<Rightarrow> ((smodule \<times> u8 \<times> u8) option \<times> sfile) option" where
  "snapshot_module_open first name s = module_search name first first (s\<lparr>sf_pos := first\<rparr>)"

definition snapshot_module_close :: "smodule \<Rightarrow> unit sio" where
  "snapshot_module_close m =
    sio_then (if sm_write_mode m
              then sio_or_error SNAPSHOT_MODULE_CLOSE_ERROR (sio_then (sio_seek (sm_size_offset m)) (\<lambda>_. snapshot_write_dword (sm_size m)))
              else sio_ret ())
      (\<lambda>_. sio_seek (sm_offset m + unat (sm_size m)))"

section \<open>Creating and opening a snapshot\<close>

definition snapshot_magic_string :: "u8 list" where
  "snapshot_magic_string = map of_char ''VICE Snapshot File'' @ [0x1a]"

definition snapshot_version_magic_string :: "u8 list" where
  "snapshot_version_magic_string = map of_char ''VICE Version'' @ [0x1a]"

text \<open>
  A snapshot is the place of its first module. \<open>viceversion\<close> and \<open>revision\<close> are numbers the build defines; \<open>created\<close> tells whether the
  file could be created, \<open>found\<close> is its contents if it could be opened.
\<close>

definition snapshot_create :: "u8 list \<Rightarrow> u32 \<Rightarrow> bool \<Rightarrow> u8 \<Rightarrow> u8 \<Rightarrow> u8 list \<Rightarrow> nat sio" where
  "snapshot_create viceversion revision created major_version minor_version machine_name = (\<lambda>s.
     if \<not> created then sio_fail SNAPSHOT_CANNOT_CREATE_SNAPSHOT_ERROR s
     else
       sio_then (sio_or_error SNAPSHOT_CANNOT_WRITE_MAGIC_STRING_ERROR
         (snapshot_write_padded_string snapshot_magic_string 0 SNAPSHOT_MAGIC_LEN)) (\<lambda>_.
       sio_then (sio_or_error SNAPSHOT_CANNOT_WRITE_VERSION_ERROR
         (sio_then (snapshot_write_byte major_version) (\<lambda>_. snapshot_write_byte minor_version))) (\<lambda>_.
       sio_then (sio_or_error SNAPSHOT_CANNOT_WRITE_MACHINE_NAME_ERROR
         (snapshot_write_padded_string machine_name 0 SNAPSHOT_MACHINE_NAME_LEN)) (\<lambda>_.
       sio_then (sio_or_error SNAPSHOT_CANNOT_WRITE_MAGIC_STRING_ERROR
         (snapshot_write_padded_string snapshot_version_magic_string 0 SNAPSHOT_VERSION_MAGIC_LEN)) (\<lambda>_.
       sio_then (sio_or_error SNAPSHOT_CANNOT_WRITE_VERSION_ERROR
         (sio_then (write_each snapshot_write_byte (take 4 viceversion)) (\<lambda>_. snapshot_write_dword revision))) (\<lambda>_.
       sio_tell)))))
       (s\<lparr>sf_data := [], sf_pos := 0, sf_writable := True\<rparr>))"

text \<open>Old snapshots have no version, and the position goes back.\<close>

definition read_vice_version :: "(u8 list \<times> u32) sio" where
  "read_vice_version = (\<lambda>s.
     case snapshot_read_byte_array SNAPSHOT_VERSION_MAGIC_LEN s of
       (None, s') \<Rightarrow> (Some ([0, 0, 0, 0], 0), s'\<lparr>sf_pos := sf_pos s\<rparr>)
     | (Some magic, s') \<Rightarrow>
         (if magic \<noteq> snapshot_version_magic_string then (Some ([0, 0, 0, 0], 0), s'\<lparr>sf_pos := sf_pos s\<rparr>)
          else sio_or_error SNAPSHOT_CANNOT_READ_VERSION_ERROR
            (sio_then (read_each snapshot_read_byte 4) (\<lambda>v. sio_then snapshot_read_dword (\<lambda>r. sio_ret (v, r)))) s'))"

definition snapshot_open :: "u8 list option \<Rightarrow> u8 list \<Rightarrow> (nat \<times> u8 \<times> u8 \<times> u8 list \<times> u32) sio" where
  "snapshot_open found machine_name = (\<lambda>s. case found of
     None \<Rightarrow> sio_fail SNAPSHOT_CANNOT_OPEN_FOR_READ_ERROR s
   | Some data \<Rightarrow>
       sio_then (sio_or_error SNAPSHOT_MAGIC_STRING_MISMATCH_ERROR
         (sio_then (snapshot_read_byte_array SNAPSHOT_MAGIC_LEN) (\<lambda>magic.
            if magic \<noteq> snapshot_magic_string then sio_fail SNAPSHOT_MAGIC_STRING_MISMATCH_ERROR else sio_ret ()))) (\<lambda>_.
       sio_then (sio_or_error SNAPSHOT_CANNOT_READ_VERSION_ERROR
         (sio_then snapshot_read_byte (\<lambda>major. sio_then snapshot_read_byte (\<lambda>minor. sio_ret (major, minor))))) (\<lambda>(major, minor).
       sio_then (sio_or_error SNAPSHOT_CANNOT_READ_MACHINE_NAME_ERROR (snapshot_read_byte_array SNAPSHOT_MACHINE_NAME_LEN)) (\<lambda>read_name.
       sio_then (if name_matches read_name machine_name then sio_ret () else sio_fail SNAPSHOT_MACHINE_MISMATCH_ERROR) (\<lambda>_.
       sio_then read_vice_version (\<lambda>(version, revision).
       sio_then sio_tell (\<lambda>k. sio_ret (k, major, minor, version, revision)))))))
       (s\<lparr>sf_data := data, sf_pos := 0, sf_writable := False\<rparr>))"

end
