(* ===== verification/SnapshotLaws.thy ===== *)
theory SnapshotLaws
  imports Snapshot
begin

text \<open>
  What the functions of snapshot.c promise a component: the values written into modules are read back from them, modules are found
  by their names, and when the search for a module ends.
\<close>

section \<open>What the operations on values do\<close>

text \<open>\<open>writes f bs x\<close>: at the end of a file open for writing, \<open>f\<close> appends \<open>bs\<close> and returns \<open>x\<close>.\<close>

definition at_end :: "sfile \<Rightarrow> bool" where "at_end s \<longleftrightarrow> sf_writable s \<and> sf_pos s = length (sf_data s)"

definition appended :: "u8 list \<Rightarrow> sfile \<Rightarrow> sfile" where
  "appended bs s = s\<lparr>sf_data := sf_data s @ bs, sf_pos := length (sf_data s) + length bs\<rparr>"

definition writes :: "'a sio \<Rightarrow> u8 list \<Rightarrow> 'a \<Rightarrow> bool" where
  "writes f bs x \<longleftrightarrow> (\<forall>s. at_end s \<longrightarrow> f s = (Some x, appended bs s))"

text \<open>\<open>reads f bs x\<close>: where a file open for reading continues with \<open>bs\<close>, \<open>f\<close> reads it and returns \<open>x\<close>.\<close>

definition next_in :: "u8 list \<Rightarrow> sfile \<Rightarrow> bool" where
  "next_in bs s \<longleftrightarrow> \<not> sf_writable s \<and> (\<exists>rest. drop (sf_pos s) (sf_data s) = bs @ rest)"

definition moved :: "nat \<Rightarrow> sfile \<Rightarrow> sfile" where "moved n s = s\<lparr>sf_pos := sf_pos s + n\<rparr>"

definition reads :: "'a sio \<Rightarrow> u8 list \<Rightarrow> 'a \<Rightarrow> bool" where
  "reads f bs x \<longleftrightarrow> (\<forall>s. next_in bs s \<longrightarrow> f s = (Some x, moved (length bs) s))"

named_theorems stream \<open>what an operation appends or reads\<close>

lemma appended_fields [simp]:
  "sf_data (appended bs s) = sf_data s @ bs" "sf_pos (appended bs s) = length (sf_data s) + length bs"
  "sf_writable (appended bs s) = sf_writable s"
  by (simp_all add: appended_def)

lemma at_end_appended [simp]: "at_end s \<Longrightarrow> at_end (appended bs s)"
  by (simp add: at_end_def)

lemma appended_appended [simp]: "appended cs (appended bs s) = appended (bs @ cs) s"
  by (simp add: appended_def)

lemma appended_none: "at_end s \<Longrightarrow> appended [] s = s"
  by (simp add: appended_def at_end_def)

lemma writesD: "writes f bs x \<Longrightarrow> at_end s \<Longrightarrow> f s = (Some x, appended bs s)"
  by (simp add: writes_def)

lemma writes_then: "writes f bs x \<Longrightarrow> writes (g x) cs y \<Longrightarrow> writes (sio_then f g) (bs @ cs) y"
  by (simp add: writes_def sio_then_def)

lemma writes_ret: "writes (sio_ret x) [] x"
  by (simp add: writes_def sio_ret_def appended_none)

lemma writes_then_ret: "writes f bs x \<Longrightarrow> writes (sio_then f (\<lambda>y. sio_ret (g y))) bs (g x)"
  using writes_then [OF _ writes_ret] by fastforce

lemma writes_or_error: "writes f bs x \<Longrightarrow> writes (sio_or_error e f) bs x"
  by (simp add: writes_def sio_or_error_def)

lemma writes_each:
  assumes "\<And>x. x \<in> set xs \<Longrightarrow> writes (f x) (h x) ()"
  shows "writes (write_each f xs) (concat (map h xs)) ()"
  using assms by (induction xs) (auto intro: writes_ret writes_then)

lemma nextI: "next_in (bs @ cs) s \<Longrightarrow> next_in bs s \<and> next_in cs (moved (length bs) s)"
  by (auto simp: next_in_def moved_def add.commute simp flip: drop_drop)

lemma next_append: "next_in (bs @ cs) s \<longleftrightarrow> next_in bs s \<and> next_in cs (moved (length bs) s)"
proof
  assume n: "next_in bs s \<and> next_in cs (moved (length bs) s)"
  then obtain x y where d: "drop (sf_pos s) (sf_data s) = bs @ x" "drop (sf_pos s + length bs) (sf_data s) = cs @ y"
    by (auto simp: next_in_def moved_def)
  then have "drop (sf_pos s) (sf_data s) = (bs @ cs) @ y" by (simp add: add.commute flip: drop_drop)
  with n show "next_in (bs @ cs) s" unfolding next_in_def by blast
qed (rule nextI)

lemma next_here:
  assumes n: "next_in bs s" and ne: "bs \<noteq> []"
  shows "\<not> sf_writable s \<and> sf_pos s + length bs \<le> length (sf_data s) \<and> take (length bs) (drop (sf_pos s) (sf_data s)) = bs"
proof -
  from n obtain rest where w: "\<not> sf_writable s" and d: "drop (sf_pos s) (sf_data s) = bs @ rest"
    by (auto simp: next_in_def)
  from arg_cong [where f = length, OF d] have l: "length (sf_data s) - sf_pos s = length bs + length rest" by simp
  from ne have "0 < length bs" by simp
  with l have "sf_pos s + length bs \<le> length (sf_data s)" by linarith
  then show ?thesis by (simp add: w d)
qed

lemma moved_moved [simp]: "moved n (moved k s) = moved (k + n) s"
  by (simp add: moved_def)

lemma moved_0 [simp]: "moved 0 s = s"
  by (simp add: moved_def)

lemma readsD: "reads f bs x \<Longrightarrow> next_in bs s \<Longrightarrow> f s = (Some x, moved (length bs) s)"
  by (simp add: reads_def)

lemma reads_then: "reads f bs x \<Longrightarrow> reads (g x) cs y \<Longrightarrow> reads (sio_then f g) (bs @ cs) y"
  unfolding reads_def sio_then_def by (auto dest!: nextI)

lemma reads_ret: "reads (sio_ret x) [] x"
  by (simp add: reads_def sio_ret_def)

lemma reads_then_ret: "reads f bs x \<Longrightarrow> reads (sio_then f (\<lambda>y. sio_ret (g y))) bs (g x)"
  using reads_then [OF _ reads_ret] by fastforce

lemma reads_or_error: "reads f bs x \<Longrightarrow> reads (sio_or_error e f) bs x"
  by (simp add: reads_def sio_or_error_def)

lemma reads_each:
  assumes "\<And>x. x \<in> set xs \<Longrightarrow> reads f (h x) x"
  shows "reads (read_each f (length xs)) (concat (map h xs)) xs"
  using assms
proof (induction xs)
  case (Cons x xs)
  then have "reads (read_each f (length xs)) (concat (map h xs)) xs" by simp
  then show ?case using Cons.prems by (auto intro!: reads_then [where cs = "concat (map h xs)"] reads_then_ret)
qed (simp add: reads_ret)

text \<open>The bytes of a value.\<close>

definition word_bytes :: "u16 \<Rightarrow> u8 list" where "word_bytes w = [ucast w, ucast (drop_bit 8 w)]"

definition dword_bytes :: "u32 \<Rightarrow> u8 list" where
  "dword_bytes w = word_bytes (ucast w) @ word_bytes (ucast (drop_bit 16 w))"

lemma length_value_bytes [simp]: "length (word_bytes w) = 2" "length (dword_bytes d) = 4"
  by (simp_all add: word_bytes_def dword_bytes_def)

lemma write_byte [stream]: "writes (snapshot_write_byte b) [b] ()"
  by (simp add: writes_def snapshot_write_byte_def at_end_def appended_def put_bytes_def)

lemma low_bytes: "ucast (w AND 0xff) = (ucast (w :: u16) :: u8)" "ucast (d AND 0xffff) = (ucast (d :: u32) :: u16)"
proof -
  have "w AND 0xff = take_bit 8 w" "d AND 0xffff = take_bit 16 d" by (simp_all add: take_bit_eq_mask mask_eq_exp_minus_1)
  then show "ucast (w AND 0xff) = (ucast w :: u8)" "ucast (d AND 0xffff) = (ucast d :: u16)"
    by (auto intro!: bit_word_eqI simp: bit_ucast_iff bit_take_bit_iff)
qed

lemma write_word [stream]: "writes (snapshot_write_word w) (word_bytes w) ()"
proof -
  have "writes (snapshot_write_word w) ([ucast w] @ [ucast (drop_bit 8 w)]) ()"
    unfolding snapshot_write_word_def low_bytes by (rule writes_then [OF write_byte write_byte])
  then show ?thesis by (simp add: word_bytes_def)
qed

lemma write_dword [stream]: "writes (snapshot_write_dword w) (dword_bytes w) ()"
  unfolding snapshot_write_dword_def low_bytes dword_bytes_def by (rule writes_then [OF write_word write_word])

lemma write_byte_array [stream]: "writes (snapshot_write_byte_array bs) bs ()"
  by (simp add: writes_def snapshot_write_byte_array_def at_end_def appended_def put_bytes_def)

lemma write_bytes [stream]: "writes (write_each snapshot_write_byte bs) bs ()"
  using writes_each [of bs snapshot_write_byte "\<lambda>b. [b]"] write_byte by simp

text \<open>A string in a field of \<open>n\<close> bytes.\<close>

definition padded :: "nat \<Rightarrow> u8 \<Rightarrow> u8 list \<Rightarrow> u8 list" where
  "padded n p cs = take n cs @ replicate (n - length cs) p"

lemma length_padded [simp]: "length (padded n p cs) = n"
  by (simp add: padded_def)

lemma write_padded_string [stream]: "writes (snapshot_write_padded_string cs p n) (padded n p cs) ()"
proof (induction cs p n rule: snapshot_write_padded_string.induct)
  case (1 cs p)
  then show ?case by (simp add: padded_def writes_ret)
next
  case (2 p n)
  then show ?case using writes_then [OF write_byte 2] by (simp add: padded_def)
next
  case (3 c cs p n)
  then show ?case using writes_then [OF write_byte 3] by (simp add: padded_def)
qed

lemma read_byte [stream]: "reads snapshot_read_byte [b] b"
proof -
  have "snapshot_read_byte s = (Some b, moved 1 s)" if n: "next_in [b] s" for s
  proof -
    from next_here [OF n] have here: "\<not> sf_writable s" "sf_pos s < length (sf_data s)" "take 1 (drop (sf_pos s) (sf_data s)) = [b]"
      by simp_all
    then have "sf_data s ! sf_pos s = b" by (cases "drop (sf_pos s) (sf_data s)") (auto simp: nth_via_drop)
    with here show ?thesis by (simp add: snapshot_read_byte_def moved_def)
  qed
  then show ?thesis by (simp add: reads_def)
qed

lemma joined: "ucast (ucast w :: u8) OR push_bit 8 (ucast (ucast (drop_bit 8 w) :: u8)) = (w :: u16)"
  "ucast (ucast d :: u16) OR push_bit 16 (ucast (ucast (drop_bit 16 d) :: u16)) = (d :: u32)"
  by (auto intro!: bit_word_eqI simp: bit_or_iff bit_ucast_iff bit_push_bit_iff bit_drop_bit_eq)

lemma read_word [stream]: "reads snapshot_read_word (word_bytes w) w"
proof -
  have "reads snapshot_read_word ([lo] @ [hi]) (ucast lo OR push_bit 8 (ucast hi))" for lo hi
    unfolding snapshot_read_word_def by (rule reads_then [OF read_byte]) (rule reads_then_ret [OF read_byte])
  from this [of "ucast w" "ucast (drop_bit 8 w)"] show ?thesis by (simp add: word_bytes_def joined)
qed

lemma read_dword [stream]: "reads snapshot_read_dword (dword_bytes w) w"
proof -
  have "reads snapshot_read_dword (word_bytes lo @ word_bytes hi) (ucast lo OR push_bit 16 (ucast hi))" for lo hi
    unfolding snapshot_read_dword_def by (rule reads_then [OF read_word]) (rule reads_then_ret [OF read_word])
  from this [of "ucast w" "ucast (drop_bit 16 w)"] show ?thesis by (simp add: dword_bytes_def joined)
qed

lemma read_byte_array [stream]: "reads (snapshot_read_byte_array (length bs)) bs bs"
proof (cases "bs = []")
  case False
  then show ?thesis by (auto simp: reads_def snapshot_read_byte_array_def moved_def dest!: next_here [OF _ False])
qed (simp add: reads_def snapshot_read_byte_array_def)

lemma read_bytes [stream]: "reads (read_each snapshot_read_byte (length bs)) bs bs"
  using reads_each [of bs snapshot_read_byte "\<lambda>b. [b]"] read_byte by simp

section \<open>Fields of a module\<close>

text \<open>What a component writes into its module, a field for each call; a double is eight bytes.\<close>

datatype sfield = FByte u8 | FWord u16 | FDword u32 | FDouble "u8 list" | FBytes "u8 list" | FWords "u16 list" | FDwords "u32 list"
  | FString "u8 list option"

fun field_bytes :: "sfield \<Rightarrow> u8 list" where
  "field_bytes (FByte b) = [b]"
| "field_bytes (FWord w) = word_bytes w"
| "field_bytes (FDword w) = dword_bytes w"
| "field_bytes (FDouble d) = d"
| "field_bytes (FBytes bs) = bs"
| "field_bytes (FWords ws) = concat (map word_bytes ws)"
| "field_bytes (FDwords ws) = concat (map dword_bytes ws)"
| "field_bytes (FString None) = word_bytes 0"
| "field_bytes (FString (Some cs)) = word_bytes (word_of_nat (length cs + 1)) @ cs @ [0]"

fun field_ok :: "sfield \<Rightarrow> bool" where
  "field_ok (FDouble d) \<longleftrightarrow> length d = 8"
| "field_ok (FString (Some cs)) \<longleftrightarrow> 0 \<notin> set cs \<and> length cs < 65535"
| "field_ok _ \<longleftrightarrow> True"

fun write_field :: "smodule \<Rightarrow> sfield \<Rightarrow> smodule sio" where
  "write_field m (FByte b) = snapshot_module_write_byte m b"
| "write_field m (FWord w) = snapshot_module_write_word m w"
| "write_field m (FDword w) = snapshot_module_write_dword m w"
| "write_field m (FDouble d) = snapshot_module_write_double m d"
| "write_field m (FBytes bs) = snapshot_module_write_byte_array m bs"
| "write_field m (FWords ws) = snapshot_module_write_word_array m ws"
| "write_field m (FDwords ws) = snapshot_module_write_dword_array m ws"
| "write_field m (FString str) = snapshot_module_write_string m str"

text \<open>The call that reads a field of the same kind and length, whatever its value.\<close>

fun read_field :: "smodule \<Rightarrow> sfield \<Rightarrow> sfield sio" where
  "read_field m (FByte _) = sio_then (snapshot_module_read_byte m) (\<lambda>x. sio_ret (FByte x))"
| "read_field m (FWord _) = sio_then (snapshot_module_read_word m) (\<lambda>x. sio_ret (FWord x))"
| "read_field m (FDword _) = sio_then (snapshot_module_read_dword m) (\<lambda>x. sio_ret (FDword x))"
| "read_field m (FDouble _) = sio_then (snapshot_module_read_double m) (\<lambda>x. sio_ret (FDouble x))"
| "read_field m (FBytes bs) = sio_then (snapshot_module_read_byte_array m (length bs)) (\<lambda>x. sio_ret (FBytes x))"
| "read_field m (FWords ws) = sio_then (snapshot_module_read_word_array m (length ws)) (\<lambda>x. sio_ret (FWords x))"
| "read_field m (FDwords ws) = sio_then (snapshot_module_read_dword_array m (length ws)) (\<lambda>x. sio_ret (FDwords x))"
| "read_field m (FString _) = sio_then (snapshot_module_read_string m) (\<lambda>x. sio_ret (FString x))"

fun write_fields :: "smodule \<Rightarrow> sfield list \<Rightarrow> smodule sio" where
  "write_fields m [] = sio_ret m"
| "write_fields m (f # fs) = sio_then (write_field m f) (\<lambda>m. write_fields m fs)"

fun read_fields :: "smodule \<Rightarrow> sfield list \<Rightarrow> sfield list sio" where
  "read_fields m [] = sio_ret []"
| "read_fields m (f # fs) = sio_then (read_field m f) (\<lambda>x. sio_then (read_fields m fs) (\<lambda>xs. sio_ret (x # xs)))"

definition body_bytes :: "sfield list \<Rightarrow> u8 list" where "body_bytes fs = concat (map field_bytes fs)"

lemma body_bytes_simps [simp]: "body_bytes [] = []" "body_bytes (f # fs) = field_bytes f @ body_bytes fs"
  by (simp_all add: body_bytes_def)

lemma length_arrays [simp]:
  "length (concat (map word_bytes ws)) = length ws * 2" "length (concat (map dword_bytes ds)) = length ds * 4"
  by (simp_all add: length_concat o_def sum_list_triv)

lemma grown_grown [simp]: "grown (grown m k) n = grown m (k + n)" "grown m 0 = m"
  by (simp_all add: grown_def)

lemma write_counted:
  "writes (sio_then (snapshot_write_word w) (\<lambda>_. sio_then (write_each snapshot_write_byte bs) (\<lambda>_. sio_ret n))) (word_bytes w @ bs) n"
  by (rule writes_then [OF write_word]) (rule writes_then_ret [OF write_bytes])

lemma write_field_bytes:
  assumes "field_ok f"
  shows "writes (write_field m f) (field_bytes f) (grown m (length (field_bytes f)))"
proof (cases f)
  case (FString str)
  have "writes (snapshot_write_string str) (field_bytes (FString str)) (length (field_bytes (FString str)))"
    by (cases str) (use write_counted [of 0 "[]" "2 :: nat"] write_counted in \<open>simp_all add: snapshot_write_string_def add.commute numeral_2_eq_2\<close>)
  from writes_then_ret [where g = "grown m", OF writes_or_error [OF this]]
  show ?thesis by (simp add: FString snapshot_module_write_string_def)
qed (use assms writes_each [OF write_word] writes_each [OF write_dword] in
    \<open>auto simp: snapshot_module_write_byte_def snapshot_module_write_word_def snapshot_module_write_dword_def
      snapshot_module_write_double_def snapshot_module_write_byte_array_def snapshot_module_write_word_array_def
      snapshot_module_write_dword_array_def snapshot_write_double_def snapshot_write_word_array_def snapshot_write_dword_array_def
      intro!: writes_then_ret [where g = "\<lambda>_. grown m n" for n] stream\<close>)

lemma write_fields_bytes:
  assumes "\<forall>f \<in> set fs. field_ok f"
  shows "writes (write_fields m fs) (body_bytes fs) (grown m (length (body_bytes fs)))"
  using assms
proof (induction fs arbitrary: m)
  case (Cons f fs)
  from Cons.prems have "writes (write_field m f) (field_bytes f) (grown m (length (field_bytes f)))"
    by (simp add: write_field_bytes)
  moreover from Cons have "writes (write_fields (grown m (length (field_bytes f))) fs) (body_bytes fs)
      (grown (grown m (length (field_bytes f))) (length (body_bytes fs)))" by (auto simp del: grown_grown)
  ultimately have "writes (sio_then (write_field m f) (\<lambda>m. write_fields m fs)) (field_bytes f @ body_bytes fs)
      (grown (grown m (length (field_bytes f))) (length (body_bytes fs)))"
    by (rule writes_then)
  then show ?case by simp
qed (simp add: writes_ret)

text \<open>A field whose bytes lie inside its module is read back.\<close>

definition inside :: "smodule \<Rightarrow> nat \<Rightarrow> sfile \<Rightarrow> bool" where
  "inside m n s \<longleftrightarrow> sf_pos s + n \<le> sm_offset m + unat (sm_size m)"

lemma in_module_reads:
  "reads f bs x \<Longrightarrow> n \<le> length bs \<Longrightarrow> next_in bs s \<Longrightarrow> inside m (length bs) s \<Longrightarrow>
   in_module m n f s = (Some x, moved (length bs) s)"
  by (simp add: in_module_def inside_def readsD)

lemma read_string [stream]:
  assumes "field_ok (FString str)"
  shows "reads snapshot_read_string (field_bytes (FString str)) str"
proof (cases str)
  case None
  have "reads snapshot_read_string (word_bytes 0 @ []) None"
    unfolding snapshot_read_string_def by (rule reads_then [OF read_word]) (simp add: reads_ret)
  then show ?thesis by (simp add: None)
next
  case (Some cs)
  with assms have cs: "0 \<notin> set cs" "length (cs @ [0]) < 2 ^ 16" by auto
  let ?w = "word_of_nat (length (cs @ [0])) :: u16"
  have w: "unat ?w = length (cs @ [0])" using cs by (simp add: unsigned_of_nat take_bit_nat_eq_self del: length_append of_nat_Suc)
  then have "?w \<noteq> 0" by auto
  moreover have "takeWhile (\<lambda>c. c \<noteq> 0) cs = cs" using cs by (auto intro: takeWhile_eq_all_conv [THEN iffD2])
  moreover have "reads (sio_then (read_each snapshot_read_byte (length (cs @ [0])))
      (\<lambda>bytes. sio_ret (Some (takeWhile (\<lambda>c. c \<noteq> 0) (butlast bytes))))) (cs @ [0])
      (Some (takeWhile (\<lambda>c. c \<noteq> 0) (butlast (cs @ [0]))))"
    by (rule reads_then_ret [OF read_bytes])
  ultimately have "reads snapshot_read_string (word_bytes ?w @ cs @ [0]) (Some cs)"
    unfolding snapshot_read_string_def by (intro reads_then [OF read_word]) (simp only: w if_False butlast_snoc)
  then show ?thesis by (simp add: Some add.commute)
qed

lemma read_word_list [stream]: "reads (read_each snapshot_read_word (length ws)) (concat (map word_bytes ws)) ws"
  by (intro reads_each read_word)

lemma read_dword_list [stream]: "reads (read_each snapshot_read_dword (length ws)) (concat (map dword_bytes ws)) ws"
  by (intro reads_each read_dword)

lemma read_double_bytes: "length d = 8 \<Longrightarrow> reads snapshot_read_double d d"
  using read_bytes [of d] by (simp add: snapshot_read_double_def)

lemma read_field_bytes:
  assumes ok: "field_ok f" and n: "next_in (field_bytes f) s" and b: "inside m (length (field_bytes f)) s"
  shows "read_field m f s = (Some f, moved (length (field_bytes f)) s)"
proof (cases f)
  case (FString str)
  have "2 \<le> length (field_bytes (FString str))" by (cases str) simp_all
  with in_module_reads [OF read_string, of str 2 s m] ok n b show ?thesis
    by (simp add: FString snapshot_module_read_string_def sio_then_def sio_ret_def)
next
  case (FDouble d)
  with in_module_reads [OF read_double_bytes, of d 8 s m] ok n b show ?thesis
    by (simp add: snapshot_module_read_double_def sio_then_def sio_ret_def)
qed (use n b in \<open>simp_all add: in_module_reads [OF read_byte] in_module_reads [OF read_word] in_module_reads [OF read_dword]
    in_module_reads [OF read_byte_array] in_module_reads [OF read_word_list] in_module_reads [OF read_dword_list]
    snapshot_module_read_byte_def snapshot_module_read_word_def
    snapshot_module_read_dword_def snapshot_module_read_byte_array_def snapshot_module_read_word_array_def
    snapshot_module_read_dword_array_def snapshot_read_word_array_def snapshot_read_dword_array_def sio_then_def sio_ret_def\<close>)

lemma inside_moved: "inside m (k + n) s \<Longrightarrow> inside m k s \<and> inside m n (moved k s)"
  by (simp add: inside_def moved_def)

lemma read_fields_bytes:
  assumes "\<forall>f \<in> set fs. field_ok f" "next_in (body_bytes fs) s" "inside m (length (body_bytes fs)) s"
  shows "read_fields m fs s = (Some fs, moved (length (body_bytes fs)) s)"
  using assms
proof (induction fs arbitrary: s)
  case (Cons f fs)
  let ?n = "length (field_bytes f)"
  from Cons.prems nextI [of "field_bytes f" "body_bytes fs" s] inside_moved [of m ?n "length (body_bytes fs)" s]
  have "next_in (field_bytes f) s" "inside m ?n s" "next_in (body_bytes fs) (moved ?n s)" "inside m (length (body_bytes fs)) (moved ?n s)"
    by auto
  with Cons.prems Cons.IH [of "moved ?n s"] show ?case by (simp add: sio_then_def sio_ret_def read_field_bytes)
qed (simp add: sio_ret_def)

section \<open>Modules in a file\<close>

text \<open>A module as a component sees it: its name, version and fields.\<close>

record content =
  c_name :: "u8 list"
  c_major :: u8
  c_minor :: u8
  c_fields :: "sfield list"

definition name_ok :: "u8 list \<Rightarrow> bool" where "name_ok n \<longleftrightarrow> 0 \<notin> set n \<and> length n \<le> SNAPSHOT_MODULE_NAME_LEN"

definition head_size :: nat where "head_size = SNAPSHOT_MODULE_NAME_LEN + 6"

definition module_size :: "content \<Rightarrow> nat" where "module_size c = head_size + length (body_bytes (c_fields c))"

definition content_ok :: "content \<Rightarrow> bool" where
  "content_ok c \<longleftrightarrow> name_ok (c_name c) \<and> (\<forall>f \<in> set (c_fields c). field_ok f) \<and> module_size c < 2 ^ 32"

definition head_bytes :: "content \<Rightarrow> u32 \<Rightarrow> u8 list" where
  "head_bytes c sz = padded SNAPSHOT_MODULE_NAME_LEN 0 (c_name c) @ [c_major c, c_minor c] @ dword_bytes sz"

definition module_bytes :: "content \<Rightarrow> u8 list" where
  "module_bytes c = head_bytes c (word_of_nat (module_size c)) @ body_bytes (c_fields c)"

lemma length_head [simp]: "length (head_bytes c sz) = head_size"
  by (simp add: head_bytes_def head_size_def)

lemma length_module [simp]: "length (module_bytes c) = module_size c"
  by (simp add: module_bytes_def module_size_def)

definition write_module :: "content \<Rightarrow> unit sio" where
  "write_module c =
    sio_then (snapshot_module_create (c_name c) (c_major c) (c_minor c)) (\<lambda>m.
    sio_then (write_fields m (c_fields c)) snapshot_module_close)"

lemma writes_tell: "writes f bs x \<Longrightarrow> at_end s \<Longrightarrow> sio_then f (\<lambda>_. sio_tell) s = (Some (length (sf_data s) + length bs), appended bs s)"
  by (simp add: writes_def sio_then_def sio_tell_def)

lemma module_create:
  assumes e: "at_end s"
  shows "snapshot_module_create (c_name c) (c_major c) (c_minor c) s =
    (Some \<lparr>sm_write_mode = True, sm_size = word_of_nat head_size, sm_offset = length (sf_data s),
       sm_size_offset = length (sf_data s) + head_size - 4\<rparr>, appended (head_bytes c 0) s)"
proof -
  have p: "snapshot_write_padded_string (c_name c) 0 SNAPSHOT_MODULE_NAME_LEN t =
      (Some (), appended (padded SNAPSHOT_MODULE_NAME_LEN 0 (c_name c)) t)" if "at_end t" for t
    using writesD [OF write_padded_string that] .
  have b: "snapshot_write_byte x t = (Some (), appended [x] t)" if "at_end t" for x t
    using writesD [OF write_byte that] .
  have d: "snapshot_write_dword x t = (Some (), appended (dword_bytes x) t)" if "at_end t" for x t
    using writesD [OF write_dword that] .
  from e have "sf_pos s = length (sf_data s)" by (simp add: at_end_def)
  with e show ?thesis
    by (simp add: snapshot_module_create_def sio_then_def sio_tell_def sio_ret_def p b d head_bytes_def head_size_def)
qed

text \<open>The size written over the one in the head.\<close>

lemma write_over:
  assumes w: "sf_writable s" and d: "sf_data s = d @ ys @ e" and p: "sf_pos s = length d" and l: "length ys = 4"
  shows "snapshot_write_dword x s = (Some (), s\<lparr>sf_data := d @ dword_bytes x @ e, sf_pos := length d + 4\<rparr>)"
proof -
  from l obtain a b c f where ys: "ys = [a, b, c, f]" by (auto simp: length_Suc_conv eval_nat_numeral)
  have s: "s = s\<lparr>sf_data := d @ a # b # c # f # e, sf_pos := length d, sf_writable := True\<rparr>"
    using w d p by (simp add: ys)
  show ?thesis
    by (subst s) (simp add: snapshot_write_dword_def snapshot_write_word_def snapshot_write_byte_def sio_then_def low_bytes
        put_bytes_def dword_bytes_def word_bytes_def w)
qed

lemma module_written:
  assumes ok: "content_ok c"
  shows "writes (write_module c) (module_bytes c) ()"
proof -
  have "write_module c s = (Some (), appended (module_bytes c) s)" if e: "at_end s" for s
  proof -
    define z where "z = (word_of_nat (module_size c) :: u32)"
    let ?m = "\<lparr>sm_write_mode = True, sm_size = z, sm_offset = length (sf_data s), sm_size_offset = length (sf_data s) + head_size - 4\<rparr>"
    let ?h = "padded SNAPSHOT_MODULE_NAME_LEN 0 (c_name c) @ [c_major c, c_minor c]"
    let ?t = "appended (head_bytes c 0 @ body_bytes (c_fields c)) s"
    from ok have sz: "unat z = head_size + length (body_bytes (c_fields c))"
      unfolding z_def content_ok_def by (simp add: unsigned_of_nat take_bit_nat_eq_self flip: module_size_def)
    from ok have "\<forall>f \<in> set (c_fields c). field_ok f" by (simp add: content_ok_def)
    from writesD [OF write_fields_bytes [OF this], of "appended (head_bytes c 0) s"] e
    have "sio_then (snapshot_module_create (c_name c) (c_major c) (c_minor c)) (\<lambda>m. write_fields m (c_fields c)) s = (Some ?m, ?t)"
      by (simp add: sio_then_def module_create grown_def module_size_def z_def)
    then have "write_module c s = snapshot_module_close ?m ?t"
      by (auto simp: write_module_def sio_then_def split: prod.splits option.splits)
    also have "\<dots> = (Some (), appended (module_bytes c) s)"
    proof -
      have "snapshot_write_dword z (?t\<lparr>sf_pos := length (sf_data s) + head_size - 4\<rparr>) =
        (Some (), ?t\<lparr>sf_data := (sf_data s @ ?h) @ dword_bytes z @ body_bytes (c_fields c), sf_pos := length (sf_data s @ ?h) + 4\<rparr>)"
        using e by (subst write_over [where d = "sf_data s @ ?h" and ys = "dword_bytes 0" and e = "body_bytes (c_fields c)"])
          (simp_all add: at_end_def head_size_def head_bytes_def)
      then show ?thesis
        by (simp add: snapshot_module_close_def sio_then_def sio_or_error_def sio_seek_def sz module_bytes_def head_bytes_def
            appended_def head_size_def flip: z_def)
    qed
    finally show ?thesis .
  qed
  then show ?thesis by (simp add: writes_def)
qed

section \<open>Finding a module\<close>

lemma name_matches_padded:
  assumes "name_ok n" "name_ok name"
  shows "name_matches (padded SNAPSHOT_MODULE_NAME_LEN 0 n) name \<longleftrightarrow> n = name"
proof -
  let ?p = "padded SNAPSHOT_MODULE_NAME_LEN 0 n"
  have at: "?p ! i = (if i < length n then n ! i else 0)" if "i < SNAPSHOT_MODULE_NAME_LEN" for i
    using that assms by (auto simp: padded_def nth_append name_ok_def)
  have "name_matches ?p n"
    using assms at [of "length n"] by (cases "length n = SNAPSHOT_MODULE_NAME_LEN") (simp_all add: name_matches_def name_ok_def padded_def)
  moreover have "n = name" if m: "name_matches ?p name"
  proof -
    have le: "length name \<le> length n"
    proof (rule ccontr)
      assume "\<not> length name \<le> length n"
      then have i: "length n < length name" by simp
      with assms have "?p ! length n = 0" by (subst at) (auto simp: name_ok_def)
      moreover from m have "take (length name) ?p ! length n = name ! length n" by (simp add: name_matches_def)
      ultimately have "name ! length n = 0" using i by simp
      with i assms show False by (auto simp: name_ok_def in_set_conv_nth)
    qed
    have "\<not> length name < length n"
    proof
      assume i: "length name < length n"
      with assms have "length name < SNAPSHOT_MODULE_NAME_LEN" by (simp add: name_ok_def)
      with m at i have "n ! length name = 0" by (auto simp: name_matches_def)
      with i assms show False by (auto simp: name_ok_def in_set_conv_nth)
    qed
    with le have l: "length name = length n" by simp
    from assms have "take (length n) ?p = n" by (simp add: padded_def name_ok_def)
    then have "n = take (length name) ?p" unfolding l by (rule sym)
    also from m have "\<dots> = name" by (simp add: name_matches_def)
    finally show "n = name" .
  qed
  ultimately show ?thesis by blast
qed

lemma read_any_head:
  assumes l: "length n = SNAPSHOT_MODULE_NAME_LEN"
  shows "reads read_module_head (n @ [a, i] @ dword_bytes sz) (n, a, i, sz)"
proof -
  have p: "reads (snapshot_read_byte_array SNAPSHOT_MODULE_NAME_LEN) n n"
    using read_byte_array [of n] by (simp add: l)
  have "reads read_module_head (n @ [a] @ [i] @ dword_bytes sz) (n, a, i, sz)"
    unfolding read_module_head_def
    by (rule reads_or_error, rule reads_then [OF p], rule reads_then [OF read_byte], rule reads_then [OF read_byte],
        rule reads_then_ret [OF read_dword])
  then show ?thesis by simp
qed

lemma read_head: "reads read_module_head (head_bytes c sz) (padded SNAPSHOT_MODULE_NAME_LEN 0 (c_name c), c_major c, c_minor c, sz)"
  unfolding head_bytes_def by (rule read_any_head) simp

definition file_bytes :: "content list \<Rightarrow> u8 list" where "file_bytes cs = concat (map module_bytes cs)"

lemma file_bytes_simps [simp]: "file_bytes [] = []" "file_bytes (c # cs) = module_bytes c @ file_bytes cs"
  by (simp_all add: file_bytes_def)

text \<open>Where the module of a name begins among the modules of a file.\<close>

fun place_of :: "u8 list \<Rightarrow> content list \<Rightarrow> (nat \<times> content) option" where
  "place_of name [] = None"
| "place_of name (c # cs) =
    (if c_name c = name then Some (0, c) else map_option (\<lambda>(k, x). (module_size c + k, x)) (place_of name cs))"

definition opened :: "nat \<Rightarrow> content \<Rightarrow> smodule" where
  "opened k c = \<lparr>sm_write_mode = False, sm_size = word_of_nat (module_size c), sm_offset = k, sm_size_offset = k + head_size - 4\<rparr>"

lemma search_finds:
  assumes "\<forall>c \<in> set cs. content_ok c" "name_ok name" "\<not> sf_writable s" "drop k (sf_data s) = file_bytes cs" "sf_pos s = k"
  shows "module_search name first k s =
    (case place_of name cs of
       None \<Rightarrow> Some (None, s\<lparr>snapshot_error := SNAPSHOT_MODULE_HEADER_READ_ERROR, sf_pos := first\<rparr>)
     | Some (n, c) \<Rightarrow> Some (Some (opened (k + n) c, c_major c, c_minor c), s\<lparr>sf_pos := k + n + head_size\<rparr>))"
  using assms
proof (induction cs arbitrary: k s)
  case Nil
  then have past: "length (sf_data s) \<le> sf_pos s" by simp
  have "read_module_head s = (None, s\<lparr>snapshot_error := SNAPSHOT_MODULE_HEADER_READ_ERROR\<rparr>)"
    using past Nil.prems by (simp add: read_module_head_def sio_or_error_def sio_then_def snapshot_read_byte_array_def
        SNAPSHOT_MODULE_NAME_LEN_def sio_fail_def max_absorb1)
  then show ?case by (subst module_search.simps) simp
next
  case (Cons c cs)
  let ?z = "word_of_nat (module_size c) :: u32"
  have z: "unat ?z = module_size c" using Cons.prems by (simp add: content_ok_def unsigned_of_nat take_bit_nat_eq_self)
  have d: "drop k (sf_data s) = head_bytes c ?z @ body_bytes (c_fields c) @ file_bytes cs"
    using Cons.prems by (simp add: module_bytes_def)
  have "next_in (head_bytes c ?z) s" using Cons.prems d by (auto simp: next_in_def)
  from readsD [OF read_head this]
  have h: "read_module_head s = (Some (padded SNAPSHOT_MODULE_NAME_LEN 0 (c_name c), c_major c, c_minor c, ?z), moved head_size s)"
    by simp
  show ?case
  proof (cases "c_name c = name")
    case True
    with Cons.prems h show ?thesis
      by (subst module_search.simps) (simp add: name_matches_padded content_ok_def opened_def moved_def)
  next
    case False
    have "drop (k + module_size c) (sf_data s) = drop (module_size c) (drop k (sf_data s))" by (simp add: add.commute)
    also have "\<dots> = file_bytes cs" using Cons.prems by simp
    finally have "module_search name first (k + module_size c) (s\<lparr>sf_pos := k + module_size c\<rparr>) =
      (case place_of name cs of
         None \<Rightarrow> Some (None, s\<lparr>snapshot_error := SNAPSHOT_MODULE_HEADER_READ_ERROR, sf_pos := first\<rparr>)
       | Some (n, c') \<Rightarrow> Some (Some (opened (k + module_size c + n) c', c_major c', c_minor c'),
           s\<lparr>sf_pos := k + module_size c + n + head_size\<rparr>))"
      using Cons.prems by (subst Cons.IH) (simp_all split: option.splits)
    with False Cons.prems h show ?thesis
      by (subst module_search.simps)
        (simp add: name_matches_padded content_ok_def moved_def z add.assoc split: option.splits prod.splits)
  qed
qed

section \<open>The search for a module ends\<close>

text \<open>\<open>endless name s k\<close>: from offset \<open>k\<close> of the file the sizes lead to a module of another name whose size is 0.\<close>

definition head_at :: "sfile \<Rightarrow> nat \<Rightarrow> (u8 list \<times> u8 \<times> u8 \<times> u32) option" where
  "head_at s k = fst (read_module_head (s\<lparr>sf_pos := k\<rparr>))"

inductive endless :: "u8 list \<Rightarrow> sfile \<Rightarrow> nat \<Rightarrow> bool" for name s where
  empty_module: "head_at s k = Some (n, a, i, 0) \<Longrightarrow> \<not> name_matches n name \<Longrightarrow> endless name s k"
| next_module: "head_at s k = Some (n, a, i, sz) \<Longrightarrow> \<not> name_matches n name \<Longrightarrow> endless name s (k + unat sz) \<Longrightarrow> endless name s k"

inductive_cases endlessE: "endless name s k"

definition same_bytes :: "sfile \<Rightarrow> sfile \<Rightarrow> bool" where
  "same_bytes s t \<longleftrightarrow> sf_data t = sf_data s \<and> sf_writable t = sf_writable s"

lemma dword_of_bytes: "\<exists>w. [a, b, c, d] = dword_bytes w"
proof -
  have no: "\<not> bit b (8 + n)" for b :: u8 and n using bit_imp_le_length [of b "8 + n"] by auto
  have no16: "\<not> bit b (16 + n)" for b :: u16 and n using bit_imp_le_length [of b "16 + n"] by auto
  have w: "word_bytes (ucast lo OR push_bit 8 (ucast hi)) = [lo, hi]" for lo hi :: u8
    by (auto simp: word_bytes_def bit_simps no intro!: bit_word_eqI)
  have "dword_bytes (ucast lo OR push_bit 16 (ucast hi)) = word_bytes lo @ word_bytes hi" for lo hi :: u16
  proof -
    have "ucast (ucast lo OR push_bit 16 (ucast hi) :: u32) = lo" "ucast (drop_bit 16 (ucast lo OR push_bit 16 (ucast hi) :: u32)) = hi"
      by (auto simp: bit_simps no16 intro!: bit_word_eqI)
    then show ?thesis by (simp add: dword_bytes_def)
  qed
  from this [of "ucast a OR push_bit 8 (ucast b)" "ucast c OR push_bit 8 (ucast d)"] show ?thesis by (simp add: w) metis
qed

lemma six_bytes: "length xs = 6 \<Longrightarrow> \<exists>a i b c d e. xs = [a, i, b, c, d, e]"
  by (auto simp: length_Suc_conv eval_nat_numeral)

lemma split_head:
  assumes "length bs = head_size"
  obtains n a i sz where "length n = SNAPSHOT_MODULE_NAME_LEN" "bs = n @ [a, i] @ dword_bytes sz"
proof -
  let ?n = "take SNAPSHOT_MODULE_NAME_LEN bs"
  from assms have "length (drop SNAPSHOT_MODULE_NAME_LEN bs) = 6" by (simp add: head_size_def)
  then obtain a i b c d e where r: "drop SNAPSHOT_MODULE_NAME_LEN bs = [a, i, b, c, d, e]"
    using six_bytes by blast
  obtain sz where "[b, c, d, e] = dword_bytes sz" using dword_of_bytes by blast
  with r append_take_drop_id [of SNAPSHOT_MODULE_NAME_LEN bs] have "bs = ?n @ [a, i] @ dword_bytes sz" by simp
  moreover have "length ?n = SNAPSHOT_MODULE_NAME_LEN" using assms by (simp add: head_size_def)
  ultimately show thesis using that by blast
qed

lemma read_head_cases:
  obtains (none) t where "read_module_head s = (None, t)" "same_bytes s t" "\<And>u. same_bytes s u \<Longrightarrow> head_at u (sf_pos s) = None"
  | (head) n a i sz where "read_module_head s = (Some (n, a, i, sz), moved head_size s)" "sf_pos s + head_size \<le> length (sf_data s)"
      "\<And>u. same_bytes s u \<Longrightarrow> head_at u (sf_pos s) = Some (n, a, i, sz)"
proof (cases "\<not> sf_writable s \<and> sf_pos s + head_size \<le> length (sf_data s)")
  case True
  let ?bs = "take head_size (drop (sf_pos s) (sf_data s))"
  obtain n a i sz where n: "length n = SNAPSHOT_MODULE_NAME_LEN" "?bs = n @ [a, i] @ dword_bytes sz"
    by (rule split_head [of ?bs]) (use True in auto)
  have "next_in ?bs s"
    using True append_take_drop_id [of head_size "drop (sf_pos s) (sf_data s)"] unfolding next_in_def by metis
  then have "next_in ?bs (u\<lparr>sf_pos := sf_pos s\<rparr>)" "next_in ?bs s" if "same_bytes s u" for u
    using that by (simp_all add: next_in_def same_bytes_def)
  moreover have "reads read_module_head ?bs (n, a, i, sz)" using read_any_head [OF n(1)] by (simp add: n(2))
  ultimately have "read_module_head s = (Some (n, a, i, sz), moved head_size s)"
    "\<And>u. same_bytes s u \<Longrightarrow> head_at u (sf_pos s) = Some (n, a, i, sz)"
    using readsD [of read_module_head ?bs "(n, a, i, sz)"] True by (auto simp: head_at_def same_bytes_def)
  with True show thesis using head by blast
next
  case False
  have short: "\<exists>t. read_module_head s = (None, t) \<and> same_bytes s t"
    if "\<not> (\<not> sf_writable s \<and> sf_pos s + head_size \<le> length (sf_data s))" for s
    using that by (auto simp: read_module_head_def sio_or_error_def sio_then_def snapshot_read_byte_array_def snapshot_read_dword_def
        snapshot_read_word_def snapshot_read_byte_def sio_fail_def sio_ret_def same_bytes_def head_size_def SNAPSHOT_MODULE_NAME_LEN_def)
  from False have "\<exists>t. read_module_head (u\<lparr>sf_pos := sf_pos s\<rparr>) = (None, t) \<and> same_bytes (u\<lparr>sf_pos := sf_pos s\<rparr>) t"
    if "same_bytes s u" for u
    using that by (intro short) (simp add: same_bytes_def)
  then have "head_at u (sf_pos s) = None" if "same_bytes s u" for u
    using that by (fastforce simp: head_at_def)
  with short [OF False] show thesis using none by blast
qed

lemma head_at_same: "same_bytes s t \<Longrightarrow> head_at t k = head_at s k"
proof -
  assume t: "same_bytes s t"
  then have "same_bytes (s\<lparr>sf_pos := k\<rparr>) t" "same_bytes (s\<lparr>sf_pos := k\<rparr>) s" by (simp_all add: same_bytes_def)
  then show ?thesis by (cases "s\<lparr>sf_pos := k\<rparr>" rule: read_head_cases) simp_all
qed

lemma endless_same:
  assumes "endless name s k" "same_bytes s t"
  shows "endless name t k"
  using assms
proof (induction rule: endless.induct)
  case (empty_module k n a i)
  then show ?case using head_at_same [of s t k] by (intro endless.empty_module) simp_all
next
  case (next_module k n a i sz)
  then show ?case using head_at_same [of s t k] by (intro endless.next_module [of t k n a i sz]) simp_all
qed

lemma search_returns:
  assumes "\<not> endless name s k" "sf_pos s = k"
  shows "\<exists>r. module_search name first k s = Some r"
  using assms
proof (induction "length (sf_data s) - k" arbitrary: s k rule: less_induct)
  case less
  show ?case
  proof (cases s rule: read_head_cases)
    case (none t)
    then show ?thesis by (subst module_search.simps) simp
  next
    case (head n a i sz)
    let ?s = "s\<lparr>sf_pos := k + unat sz\<rparr>"
    have s: "same_bytes s s" "same_bytes s ?s" by (simp_all add: same_bytes_def)
    show ?thesis
    proof (cases "name_matches n name")
      case True
      with head show ?thesis by (subst module_search.simps) simp
    next
      case False
      have "head_at s k = Some (n, a, i, sz)" using head(3) [OF s(1)] less.prems by simp
      with False less.prems have "sz \<noteq> 0" "\<not> endless name s (k + unat sz)"
        by (auto intro: endless.intros)
      moreover from this have "\<not> endless name ?s (k + unat sz)"
        using endless_same [of name ?s "k + unat sz" s] by (auto simp: same_bytes_def)
      moreover have "length (sf_data ?s) - (k + unat sz) < length (sf_data s) - k"
        using head(2) less.prems \<open>sz \<noteq> 0\<close> unat_gt_0 [of sz] by (simp add: head_size_def)
      ultimately have "\<exists>r. module_search name first (k + unat sz) ?s = Some r" using less.hyps by simp
      with head False less.prems show ?thesis by (subst module_search.simps) (simp add: moved_def)
    qed
  qed
qed

lemma endless_search:
  assumes "module_search name first k s = Some r" and "sf_pos s = k"
  shows "\<not> endless name s k"
proof -
  have "sf_pos s = k \<longrightarrow> \<not> endless name s k"
    using assms(1)
  proof (rule module_search.raw_induct [rotated, where P = "\<lambda>name first k s r. sf_pos s = k \<longrightarrow> \<not> endless name s k"])
    fix search name first k s r
    assume IH: "\<And>name first k s r. search name first k s = Some r \<Longrightarrow> sf_pos s = k \<longrightarrow> \<not> endless name s k"
      and run: "(case read_module_head s of
         (None, s) \<Rightarrow> Some (None, s\<lparr>sf_pos := first\<rparr>)
       | (Some (n, major, minor, sz), s) \<Rightarrow>
           (if name_matches n name then
              Some (Some (\<lparr>sm_write_mode = False, sm_size = sz, sm_offset = k, sm_size_offset = sf_pos s - 4\<rparr>, major, minor), s)
            else search name first (k + unat sz) (s\<lparr>sf_pos := k + unat sz\<rparr>))) = Some r"
    show "sf_pos s = k \<longrightarrow> \<not> endless name s k"
    proof (cases s rule: read_head_cases)
      case (none t)
      then show ?thesis using none(3) [of s] by (auto simp: same_bytes_def elim: endlessE)
    next
      case (head n a i sz)
      let ?s = "s\<lparr>sf_pos := k + unat sz\<rparr>"
      have s: "same_bytes s ?s" by (simp add: same_bytes_def)
      show ?thesis
      proof (intro impI notI)
        assume pos: "sf_pos s = k" and e: "endless name s k"
        have h: "head_at s k = Some (n, a, i, sz)" using head(3) [of s] pos by (simp add: same_bytes_def)
        have no: "\<not> name_matches n name \<and> endless name s (k + unat sz)"
          using e by (rule endlessE) (use h e in auto)
        with run head(1) have "search name first (k + unat sz) ?s = Some r" by (simp add: moved_def)
        from IH [OF this] endless_same [OF conjunct2 [OF no] s] show False by simp
      qed
    qed
  qed
  with assms show ?thesis by simp
qed

section \<open>Whole snapshots\<close>

lemma place_of_find: "map_option snd (place_of name cs) = find (\<lambda>c. c_name c = name) cs"
  by (induction cs) (auto simp: map_option_case split: option.splits)

lemma place_of_bytes: "place_of name cs = Some (n, c) \<Longrightarrow> c \<in> set cs \<and> (\<exists>rest. drop n (file_bytes cs) = module_bytes c @ rest)"
proof (induction cs arbitrary: n)
  case (Cons x cs)
  then show ?case by (cases "c_name x = name") (fastforce split: option.splits)+
qed simp

text \<open>A field without its value: what the reader of a module knows before it reads.\<close>

fun blank :: "sfield \<Rightarrow> sfield" where
  "blank (FByte _) = FByte 0"
| "blank (FWord _) = FWord 0"
| "blank (FDword _) = FDword 0"
| "blank (FDouble _) = FDouble []"
| "blank (FBytes bs) = FBytes (replicate (length bs) 0)"
| "blank (FWords ws) = FWords (replicate (length ws) 0)"
| "blank (FDwords ws) = FDwords (replicate (length ws) 0)"
| "blank (FString _) = FString None"

lemma read_blank: "read_fields m (map blank fs) = read_fields m fs"
proof -
  have "read_field m (blank f) = read_field m f" for f by (cases f) simp_all
  then show ?thesis by (induction fs) simp_all
qed

definition head_of_file :: "u8 list \<Rightarrow> u32 \<Rightarrow> u8 \<Rightarrow> u8 \<Rightarrow> u8 list \<Rightarrow> u8 list" where
  "head_of_file v r major minor machine =
    snapshot_magic_string @ [major, minor] @ padded SNAPSHOT_MACHINE_NAME_LEN 0 machine @ snapshot_version_magic_string @ v @ dword_bytes r"

definition write_snapshot :: "u8 list \<Rightarrow> u32 \<Rightarrow> u8 \<Rightarrow> u8 \<Rightarrow> u8 list \<Rightarrow> content list \<Rightarrow> unit sio" where
  "write_snapshot v r major minor machine cs =
    sio_then (snapshot_create v r True major minor machine) (\<lambda>_. write_each write_module cs)"

lemma length_magic: "length snapshot_magic_string = SNAPSHOT_MAGIC_LEN" "length snapshot_version_magic_string = SNAPSHOT_VERSION_MAGIC_LEN"
  by (simp_all add: snapshot_magic_string_def snapshot_version_magic_string_def SNAPSHOT_MAGIC_LEN_def SNAPSHOT_VERSION_MAGIC_LEN_def)

lemma padded_full: "length cs = n \<Longrightarrow> padded n p cs = cs"
  by (simp add: padded_def)

lemma snapshot_written:
  assumes v: "length v = 4" and cs: "\<forall>c \<in> set cs. content_ok c"
  shows "\<exists>t. write_snapshot v r major minor machine cs s = (Some (), t) \<and> sf_data t = head_of_file v r major minor machine @ file_bytes cs"
proof -
  let ?s = "s\<lparr>sf_data := [], sf_pos := 0, sf_writable := True\<rparr>"
  have e: "at_end ?s" by (simp add: at_end_def)
  have magic: "writes (snapshot_write_padded_string snapshot_magic_string 0 SNAPSHOT_MAGIC_LEN) snapshot_magic_string ()"
    "writes (snapshot_write_padded_string snapshot_version_magic_string 0 SNAPSHOT_VERSION_MAGIC_LEN) snapshot_version_magic_string ()"
    using write_padded_string by (metis length_magic padded_full)+
  have vr: "writes (write_each snapshot_write_byte (take 4 v)) v ()" using write_bytes [of v] v by simp
  have t: "sio_tell u = (Some (sf_pos u), u)" for u by (simp add: sio_tell_def)
  have "snapshot_create v r True major minor machine s =
      (Some (length (head_of_file v r major minor machine)), appended (head_of_file v r major minor machine) ?s)"
    using e by (simp add: snapshot_create_def sio_then_def sio_or_error_def writesD [OF magic(1)] writesD [OF magic(2)] writesD [OF vr]
        writesD [OF write_byte] writesD [OF write_dword] writesD [OF write_padded_string] t head_of_file_def
        padded_full length_magic)
  moreover have "write_each write_module cs (appended (head_of_file v r major minor machine) ?s) =
      (Some (), appended (file_bytes cs) (appended (head_of_file v r major minor machine) ?s))"
    unfolding file_bytes_def using e cs by (intro writesD [OF writes_each] module_written) (auto simp: at_end_appended)
  ultimately show ?thesis by (simp add: write_snapshot_def sio_then_def)
qed

lemma snapshot_opened:
  assumes v: "length v = 4" and ok: "name_ok machine" "name_ok name" and d: "data = head_of_file v r major minor machine @ rest"
  shows "snapshot_open (Some data) name s =
    (let t = s\<lparr>sf_data := data, sf_pos := 0, sf_writable := False\<rparr> in
     if name = machine then (Some (length (head_of_file v r major minor machine), major, minor, v, r),
       moved (length (head_of_file v r major minor machine)) t)
     else (None, moved (SNAPSHOT_MAGIC_LEN + 2 + SNAPSHOT_MACHINE_NAME_LEN) t\<lparr>snapshot_error := SNAPSHOT_MACHINE_MISMATCH_ERROR\<rparr>))"
proof -
  let ?s = "s\<lparr>sf_data := data, sf_pos := 0, sf_writable := False\<rparr>"
  let ?p = "padded SNAPSHOT_MACHINE_NAME_LEN 0 machine"
  let ?k1 = "SNAPSHOT_MAGIC_LEN + 1 + 1" and ?k2 = "SNAPSHOT_MAGIC_LEN + 1 + 1 + SNAPSHOT_MACHINE_NAME_LEN"
  let ?k3 = "?k2 + SNAPSHOT_VERSION_MAGIC_LEN"
  have "next_in (snapshot_magic_string @ [major] @ [minor] @ ?p @ snapshot_version_magic_string @ v @ dword_bytes r) ?s"
    by (simp add: next_in_def d head_of_file_def)
  then have n: "next_in snapshot_magic_string ?s" "next_in [major] (moved SNAPSHOT_MAGIC_LEN ?s)"
      "next_in [minor] (moved (SNAPSHOT_MAGIC_LEN + 1) ?s)" "next_in ?p (moved ?k1 ?s)"
      "next_in snapshot_version_magic_string (moved ?k2 ?s)" "next_in v (moved ?k3 ?s)" "next_in (dword_bytes r) (moved (?k3 + 4) ?s)"
    by (simp_all only: next_append length_magic v list.size moved_moved)
      (simp_all add: add.assoc)
  have magic: "snapshot_read_byte_array SNAPSHOT_MAGIC_LEN ?s = (Some snapshot_magic_string, moved SNAPSHOT_MAGIC_LEN ?s)"
    using readsD [OF read_byte_array n(1)] by (simp add: length_magic)
  have versions: "snapshot_read_byte (moved SNAPSHOT_MAGIC_LEN ?s) = (Some major, moved (SNAPSHOT_MAGIC_LEN + 1) ?s)"
      "snapshot_read_byte (moved (SNAPSHOT_MAGIC_LEN + 1) ?s) = (Some minor, moved ?k1 ?s)"
    using readsD [OF read_byte n(2)] readsD [OF read_byte n(3)] by simp_all
  have name: "snapshot_read_byte_array SNAPSHOT_MACHINE_NAME_LEN (moved ?k1 ?s) = (Some ?p, moved ?k2 ?s)"
    using readsD [OF read_byte_array n(4)] by simp
  have "snapshot_read_byte_array SNAPSHOT_VERSION_MAGIC_LEN (moved ?k2 ?s) = (Some snapshot_version_magic_string, moved ?k3 ?s)"
    using readsD [OF read_byte_array n(5)] by (simp add: length_magic)
  moreover have "read_each snapshot_read_byte 4 (moved ?k3 ?s) = (Some v, moved (?k3 + 4) ?s)"
    using readsD [OF read_bytes n(6)] by (simp add: v)
  moreover have "snapshot_read_dword (moved (?k3 + 4) ?s) = (Some r, moved (?k3 + 4 + 4) ?s)"
    using readsD [OF read_dword n(7)] by simp
  ultimately have vice: "read_vice_version (moved ?k2 ?s) = (Some (v, r), moved (?k3 + 4 + 4) ?s)"
    by (simp add: read_vice_version_def sio_or_error_def sio_then_def sio_ret_def)
  have "name_matches ?p name \<longleftrightarrow> name = machine"
    using name_matches_padded [OF ok] by (auto simp: SNAPSHOT_MACHINE_NAME_LEN_def SNAPSHOT_MODULE_NAME_LEN_def)
  moreover have "sf_pos (moved (?k3 + 4 + 4) ?s) = length (head_of_file v r major minor machine)"
    by (simp add: moved_def head_of_file_def length_magic v)
  ultimately show ?thesis
    using magic versions name vice
    by (simp add: snapshot_open_def sio_or_error_def sio_then_def sio_ret_def sio_fail_def sio_tell_def Let_def head_of_file_def length_magic v
        add.left_commute [of 10])
qed

section \<open>Properties\<close>

text \<open>What opening a module and reading it give: the content written, or the failure \<open>e\<close>.\<close>

definition reads_back :: "nat \<Rightarrow> content \<Rightarrow> sfile \<Rightarrow> bool" where
  "reads_back first c s =
    (case snapshot_module_open first (c_name c) s of
       Some (Some (m, major, minor), t) \<Rightarrow> major = c_major c \<and> minor = c_minor c \<and>
         (case read_fields m (map blank (c_fields c)) t of
            (Some fs, u) \<Rightarrow> fs = c_fields c \<and>
              snapshot_module_read_byte m u = (None, u\<lparr>snapshot_error := SNAPSHOT_READ_OUT_OF_BOUNDS_ERROR\<rparr>)
          | (None, u) \<Rightarrow> False)
     | _ \<Rightarrow> False)"

definition open_fails :: "nat \<Rightarrow> u8 list \<Rightarrow> nat \<Rightarrow> sfile \<Rightarrow> bool" where
  "open_fails first name e s =
    (case snapshot_module_open first name s of Some (None, t) \<Rightarrow> snapshot_error t = e | _ \<Rightarrow> False)"

lemma module_reads_back:
  assumes cs: "\<forall>c \<in> set cs. content_ok c" and name: "name_ok name"
    and s: "\<not> sf_writable s" "drop first (sf_data s) = file_bytes cs"
  shows "case find (\<lambda>c. c_name c = name) cs of
      None \<Rightarrow> open_fails first name SNAPSHOT_MODULE_HEADER_READ_ERROR s | Some c \<Rightarrow> reads_back first c s"
proof -
  have found: "snapshot_module_open first name s =
    (case place_of name cs of
       None \<Rightarrow> Some (None, s\<lparr>snapshot_error := SNAPSHOT_MODULE_HEADER_READ_ERROR, sf_pos := first\<rparr>)
     | Some (n, c) \<Rightarrow> Some (Some (opened (first + n) c, c_major c, c_minor c), s\<lparr>sf_pos := first + n + head_size\<rparr>))"
    using search_finds [OF cs name, of "s\<lparr>sf_pos := first\<rparr>" first first] s
    by (simp add: snapshot_module_open_def split: option.splits)
  show ?thesis
  proof (cases "place_of name cs")
    case None
    then have "find (\<lambda>c. c_name c = name) cs = None" by (simp flip: place_of_find)
    with found None show ?thesis by (simp add: open_fails_def)
  next
    case (Some nc)
    obtain n c where nc: "nc = (n, c)" by (cases nc)
    have f: "find (\<lambda>c. c_name c = name) cs = Some c" using Some nc by (simp flip: place_of_find)
    then have "c_name c = name" by (auto simp: find_Some_iff)
    from place_of_bytes [OF Some [unfolded nc]] obtain rest where c: "c \<in> set cs" and d: "drop n (file_bytes cs) = module_bytes c @ rest" by auto
    with cs have ok: "content_ok c" by blast
    let ?m = "opened (first + n) c" and ?t = "s\<lparr>sf_pos := first + n + head_size\<rparr>"
    let ?l = "length (body_bytes (c_fields c))"
    have sz: "unat (sm_size ?m) = module_size c"
      using ok by (simp add: opened_def content_ok_def unsigned_of_nat take_bit_nat_eq_self)
    have "drop (first + n + head_size) (sf_data s) = drop head_size (drop n (drop first (sf_data s)))" by (simp add: add.commute add.left_commute)
    also have "\<dots> = body_bytes (c_fields c) @ rest" by (simp add: s d module_bytes_def)
    finally have "next_in (body_bytes (c_fields c)) ?t" using s by (auto simp: next_in_def)
    moreover have "inside ?m ?l ?t" by (simp add: inside_def sz) (simp add: opened_def module_size_def)
    moreover have "\<forall>f \<in> set (c_fields c). field_ok f" using ok by (simp add: content_ok_def)
    ultimately have "read_fields ?m (map blank (c_fields c)) ?t = (Some (c_fields c), moved ?l ?t)"
      by (simp add: read_blank read_fields_bytes)
    moreover have "snapshot_module_read_byte ?m (moved ?l ?t) = (None, (moved ?l ?t)\<lparr>snapshot_error := SNAPSHOT_READ_OUT_OF_BOUNDS_ERROR\<rparr>)"
      by (simp add: snapshot_module_read_byte_def in_module_def sz) (simp add: moved_def sio_fail_def opened_def module_size_def)
    ultimately have "reads_back first c s"
      using found Some nc \<open>c_name c = name\<close> by (simp add: reads_back_def)
    with f show ?thesis by simp
  qed
qed

text \<open>
  C9 (snapshot_round_trip). A snapshot is written with any modules, whose names have at most 16 bytes and whose strings fit their
  count. Opening it yields the version given, and fails with a machine mismatch for every other machine name. Opening a module
  by name then yields the first module of that name with its version, whatever stands before it; reading calls of the same kinds
  return what was written, and one more byte is refused as out of bounds. A name no module has fails with the error of a head that
  cannot be read.
\<close>

theorem snapshot_round_trip:
  assumes "length v = 4" and "name_ok machine" and "\<forall>c \<in> set cs. content_ok c"
  shows "\<exists>t first. write_snapshot v r major minor machine cs s = (Some (), t) \<and>
    (\<forall>u. \<exists>w. snapshot_open (Some (sf_data t)) machine u = (Some (first, major, minor, v, r), w) \<and>
      (\<forall>name. name_ok name \<longrightarrow>
        (case find (\<lambda>c. c_name c = name) cs of
           None \<Rightarrow> open_fails first name SNAPSHOT_MODULE_HEADER_READ_ERROR w | Some c \<Rightarrow> reads_back first c w)) \<and>
      (\<forall>other. name_ok other \<and> other \<noteq> machine \<longrightarrow>
        fst (snapshot_open (Some (sf_data t)) other u) = None \<and>
        snapshot_error (snd (snapshot_open (Some (sf_data t)) other u)) = SNAPSHOT_MACHINE_MISMATCH_ERROR))"
proof -
  let ?h = "head_of_file v r major minor machine"
  obtain t where t: "write_snapshot v r major minor machine cs s = (Some (), t)" "sf_data t = ?h @ file_bytes cs"
    using snapshot_written [OF assms(1,3)] by blast
  have "\<exists>w. snapshot_open (Some (sf_data t)) machine u = (Some (length ?h, major, minor, v, r), w) \<and>
      (\<forall>name. name_ok name \<longrightarrow>
        (case find (\<lambda>c. c_name c = name) cs of
           None \<Rightarrow> open_fails (length ?h) name SNAPSHOT_MODULE_HEADER_READ_ERROR w | Some c \<Rightarrow> reads_back (length ?h) c w)) \<and>
      (\<forall>other. name_ok other \<and> other \<noteq> machine \<longrightarrow>
        fst (snapshot_open (Some (sf_data t)) other u) = None \<and>
        snapshot_error (snd (snapshot_open (Some (sf_data t)) other u)) = SNAPSHOT_MACHINE_MISMATCH_ERROR)" for u
  proof (intro exI conjI allI impI)
    let ?w = "moved (length ?h) (u\<lparr>sf_data := sf_data t, sf_pos := 0, sf_writable := False\<rparr>)"
    show "snapshot_open (Some (sf_data t)) machine u = (Some (length ?h, major, minor, v, r), ?w)"
      using snapshot_opened [OF assms(1,2,2) t(2)] by simp
    show "case find (\<lambda>c. c_name c = name) cs of
        None \<Rightarrow> open_fails (length ?h) name SNAPSHOT_MODULE_HEADER_READ_ERROR ?w | Some c \<Rightarrow> reads_back (length ?h) c ?w"
      if "name_ok name" for name
      using module_reads_back [OF assms(3) that, of ?w "length ?h"] t(2) by (simp add: moved_def)
    fix other
    assume "name_ok other \<and> other \<noteq> machine"
    then show "fst (snapshot_open (Some (sf_data t)) other u) = None"
      "snapshot_error (snd (snapshot_open (Some (sf_data t)) other u)) = SNAPSHOT_MACHINE_MISMATCH_ERROR"
      using snapshot_opened [OF assms(1,2) _ t(2), of other] by simp_all
  qed
  with t show ?thesis by blast
qed

definition wit_modules :: "content list" where
  "wit_modules =
    [\<lparr>c_name = [67, 80, 85], c_major = 1, c_minor = 1, c_fields = [FDword 0x12345678, FByte 7, FString (Some [72, 105])]\<rparr>,
     \<lparr>c_name = [67, 73, 65], c_major = 2, c_minor = 0, c_fields = [FWords [1, 2, 0xffff], FString None, FBytes [1, 2]]\<rparr>]"

definition wit_file :: sfile where
  "wit_file = \<lparr>sf_data = [], sf_pos = 0, sf_writable = True, snapshot_error = SNAPSHOT_NO_ERROR\<rparr>"

theorem snapshot_round_trip_witness:
  "\<exists>t first. write_snapshot [3, 4, 0, 0] 0 1 0 [67, 54, 52] wit_modules wit_file = (Some (), t) \<and>
    (\<exists>w. snapshot_open (Some (sf_data t)) [67, 54, 52] wit_file = (Some (first, 1, 0, [3, 4, 0, 0], 0), w) \<and>
      reads_back first (wit_modules ! 1) w)"
proof -
  have ok: "length [3, 4, 0, 0 :: u8] = 4" "name_ok [67, 54, 52]" "name_ok [67, 73, 65]" "\<forall>c \<in> set wit_modules. content_ok c"
    by (simp_all add: wit_modules_def content_ok_def name_ok_def module_size_def head_size_def SNAPSHOT_MODULE_NAME_LEN_def)
  have f: "find (\<lambda>c. c_name c = [67, 73, 65]) wit_modules = Some (wit_modules ! 1)" by (simp add: wit_modules_def)
  from snapshot_round_trip [OF ok(1,2,4), of 0 1 0 wit_file] f ok(3) show ?thesis by fastforce
qed

text \<open>
  C21 (snapshot_search_ends). Opening a module ends unless the sizes lead from the first module to one of another name whose size
  is 0; then it does not end.
\<close>

theorem snapshot_search_ends: "snapshot_module_open first name s = None \<longleftrightarrow> endless name s first"
proof
  have e: "endless name (s\<lparr>sf_pos := first\<rparr>) first \<longleftrightarrow> endless name s first"
    using endless_same [of name s first "s\<lparr>sf_pos := first\<rparr>"] endless_same [of name "s\<lparr>sf_pos := first\<rparr>" first s]
    by (auto simp: same_bytes_def)
  show "endless name s first" if "snapshot_module_open first name s = None"
    using that search_returns [of name "s\<lparr>sf_pos := first\<rparr>" first first] e by (auto simp: snapshot_module_open_def)
  show "snapshot_module_open first name s = None" if "endless name s first"
  proof (cases "snapshot_module_open first name s")
    case (Some r)
    with endless_search [of name first first "s\<lparr>sf_pos := first\<rparr>" r] e that show ?thesis by (simp add: snapshot_module_open_def)
  qed
qed

end
