(* ===== verification/CpuSnapshot.thy ===== *)
theory CpuSnapshot
  imports CpuState SnapshotLaws
begin

text \<open>
  The snapshot module of the main CPU (maincpu.c) and the interrupt status in it (interrupt.c), on the file functions of Snapshot,
  and that reading restores what was written.
\<close>

section \<open>Reading into a state\<close>

text \<open>
  A function that reads from a module into variables: it returns whether it succeeded, the variables with what was read until then,
  and the file.
\<close>

type_synonym 'c loader = "'c \<Rightarrow> sfile \<Rightarrow> bool \<times> 'c \<times> sfile"

definition into :: "'a sio \<Rightarrow> ('a \<Rightarrow> 'c \<Rightarrow> 'c) \<Rightarrow> 'c loader" where
  "into f upd = (\<lambda>c s. case f s of (None, s) \<Rightarrow> (False, c, s) | (Some x, s) \<Rightarrow> (True, upd x c, s))"

definition set_vars :: "('c \<Rightarrow> 'c) \<Rightarrow> 'c loader" where "set_vars f = (\<lambda>c s. (True, f c, s))"

fun load_all :: "'c loader list \<Rightarrow> 'c loader" where
  "load_all [] = (\<lambda>c s. (True, c, s))"
| "load_all (f # fs) = (\<lambda>c s. case f c s of (False, c, s) \<Rightarrow> (False, c, s) | (True, c, s) \<Rightarrow> load_all fs c s)"

text \<open>Writes one after the other, each with the module the last one returned.\<close>

fun write_all :: "(smodule \<Rightarrow> smodule sio) list \<Rightarrow> smodule \<Rightarrow> smodule sio" where
  "write_all [] m = sio_ret m"
| "write_all (f # fs) m = sio_then (f m) (write_all fs)"

section \<open>Interrupts\<close>

definition dword_of :: "int \<Rightarrow> u32" where "dword_of = word_of_int"

definition interrupt_write_snapshot :: "interrupt_cpu_status \<Rightarrow> smodule \<Rightarrow> smodule sio" where
  "interrupt_write_snapshot cs =
    write_all
      [\<lambda>m. snapshot_module_write_dword m (irq_clk cs),
       \<lambda>m. snapshot_module_write_dword m (nmi_clk cs),
       \<lambda>m. snapshot_module_write_dword m (irq_pending_clk cs),
       \<lambda>m. snapshot_module_write_dword m (dword_of (num_last_stolen_cycles cs)),
       \<lambda>m. snapshot_module_write_dword m (last_stolen_cycles_clk cs)]"

definition interrupt_write_new_snapshot :: "interrupt_cpu_status \<Rightarrow> smodule \<Rightarrow> smodule sio" where
  "interrupt_write_new_snapshot cs =
    write_all
      [\<lambda>m. snapshot_module_write_dword m (dword_of (nirq cs)),
       \<lambda>m. snapshot_module_write_dword m (dword_of (nnmi cs)),
       \<lambda>m. snapshot_module_write_dword m (global_pending_int cs)]"

definition interrupt_write_sc_snapshot :: "interrupt_cpu_status \<Rightarrow> smodule \<Rightarrow> smodule sio" where
  "interrupt_write_sc_snapshot cs =
    write_all
      [\<lambda>m. snapshot_module_write_dword m (irq_delay_cycles cs),
       \<lambda>m. snapshot_module_write_dword m (nmi_delay_cycles cs)]"

text \<open>The array \<open>pending_int\<close> has \<open>num_ints\<close> entries.\<close>

definition interrupt_read_snapshot :: "smodule \<Rightarrow> interrupt_cpu_status loader" where
  "interrupt_read_snapshot m =
    load_all
      [set_vars (\<lambda>cs. cs\<lparr>pending_int := fold (\<lambda>i ps. ps[i := IK_NONE]) [0 ..< num_ints cs] (pending_int cs)\<rparr>),
       set_vars (\<lambda>cs. cs\<lparr>global_pending_int := IK_NONE\<rparr>),
       set_vars (\<lambda>cs. cs\<lparr>nirq := 0, nnmi := 0, ics_reset := 0, ics_trap := 0\<rparr>),
       into (snapshot_module_read_dword m) (\<lambda>dw cs. cs\<lparr>irq_clk := dw\<rparr>),
       into (snapshot_module_read_dword m) (\<lambda>dw cs. cs\<lparr>nmi_clk := dw\<rparr>),
       into (snapshot_module_read_dword m) (\<lambda>dw cs. cs\<lparr>irq_pending_clk := dw\<rparr>),
       into (snapshot_module_read_dword m) (\<lambda>dw cs. cs\<lparr>num_last_stolen_cycles := sint dw\<rparr>),
       into (snapshot_module_read_dword m) (\<lambda>dw cs. cs\<lparr>last_stolen_cycles_clk := dw\<rparr>)]"

definition interrupt_read_new_snapshot :: "smodule \<Rightarrow> interrupt_cpu_status loader" where
  "interrupt_read_new_snapshot m =
    load_all
      [into (snapshot_module_read_dword_into_int m) (\<lambda>n cs. cs\<lparr>nirq := n\<rparr>),
       into (snapshot_module_read_dword_into_int m) (\<lambda>n cs. cs\<lparr>nnmi := n\<rparr>),
       into (snapshot_module_read_dword_into_uint m) (\<lambda>dw cs. cs\<lparr>global_pending_int := dw\<rparr>)]"

definition interrupt_read_sc_snapshot :: "smodule \<Rightarrow> interrupt_cpu_status loader" where
  "interrupt_read_sc_snapshot m =
    load_all
      [into (snapshot_module_read_dword_into_uint m) (\<lambda>dw cs. cs\<lparr>irq_delay_cycles := dw\<rparr>),
       into (snapshot_module_read_dword_into_uint m) (\<lambda>dw cs. cs\<lparr>nmi_delay_cycles := dw\<rparr>)]"

section \<open>The main CPU\<close>

definition MOS6510_REGS_GET_STATUS :: "mos6510_regs \<Rightarrow> u8" where
  "MOS6510_REGS_GET_STATUS r = mr_p r OR (mr_n r AND 0x80) OR P_UNUSED OR (if mr_z r = 0 then P_ZERO else 0)"

definition MOS6510_REGS_SET_STATUS :: "u8 \<Rightarrow> mos6510_regs \<Rightarrow> mos6510_regs" where
  "MOS6510_REGS_SET_STATUS val r =
    r\<lparr>mr_p := val AND NOT (P_ZERO OR P_SIGN), mr_z := (if val AND P_ZERO = 0 then 1 else 0), mr_n := val\<rparr>"

definition snap_module_name :: "u8 list" where "snap_module_name = map of_char ''MAINCPU''"

definition SNAP_MAJOR :: u8 where "SNAP_MAJOR = 1"
definition SNAP_MINOR :: u8 where "SNAP_MINOR = 1"

definition maincpu_write_values :: "'e globals \<Rightarrow> smodule \<Rightarrow> smodule sio" where
  "maincpu_write_values g =
    write_all
      [\<lambda>m. snapshot_module_write_dword m (maincpu_clk g),
       \<lambda>m. snapshot_module_write_byte m (mr_a (maincpu_regs g)),
       \<lambda>m. snapshot_module_write_byte m (mr_x (maincpu_regs g)),
       \<lambda>m. snapshot_module_write_byte m (mr_y (maincpu_regs g)),
       \<lambda>m. snapshot_module_write_byte m (mr_sp (maincpu_regs g)),
       \<lambda>m. snapshot_module_write_word m (ucast (mr_pc (maincpu_regs g))),
       \<lambda>m. snapshot_module_write_byte m (MOS6510_REGS_GET_STATUS (maincpu_regs g)),
       \<lambda>m. snapshot_module_write_dword m (last_opcode_info g),
       interrupt_write_snapshot (maincpu_int_status g),
       interrupt_write_new_snapshot (maincpu_int_status g)]"

text \<open>
  The fail path closes the module. A write fails only in a file that is not open for writing, so that nothing has been added to the
  module since it was created.
\<close>

definition maincpu_snapshot_write_module :: "'e globals \<Rightarrow> unit sio" where
  "maincpu_snapshot_write_module g =
    sio_then (snapshot_module_create snap_module_name SNAP_MAJOR SNAP_MINOR) (\<lambda>m s.
      case maincpu_write_values g m s of
        (None, s) \<Rightarrow> (None, snd (snapshot_module_close m s))
      | (Some m, s) \<Rightarrow> snapshot_module_close m s)"

text \<open>The local variables of the reader, with the globals.\<close>

record 'e cpu_vars =
  v_a :: u8
  v_x :: u8
  v_y :: u8
  v_sp :: u8
  v_status :: u8
  v_pc :: u16
  v_globals :: "'e globals"

definition upd_globals :: "('e globals \<Rightarrow> 'e globals) \<Rightarrow> 'e cpu_vars \<Rightarrow> 'e cpu_vars" where
  "upd_globals f v = v\<lparr>v_globals := f (v_globals v)\<rparr>"

definition on_status :: "interrupt_cpu_status loader \<Rightarrow> 'e cpu_vars loader" where
  "on_status f = (\<lambda>v s. case f (maincpu_int_status (v_globals v)) s of
     (ok, cs, s) \<Rightarrow> (ok, upd_globals (\<lambda>g. g\<lparr>maincpu_int_status := cs\<rparr>) v, s))"

definition set_regs :: "'e cpu_vars \<Rightarrow> mos6510_regs \<Rightarrow> mos6510_regs" where
  "set_regs v r = MOS6510_REGS_SET_STATUS (v_status v)
    (r\<lparr>mr_a := v_a v, mr_x := v_x v, mr_y := v_y v, mr_sp := v_sp v, mr_pc := ucast (v_pc v)\<rparr>)"

definition maincpu_read_values :: "smodule \<Rightarrow> 'e cpu_vars loader" where
  "maincpu_read_values m =
    load_all
      [into (snapshot_module_read_dword m) (\<lambda>dw. upd_globals (\<lambda>g. g\<lparr>maincpu_clk := dw\<rparr>)),
       into (snapshot_module_read_byte m) (\<lambda>b v. v\<lparr>v_a := b\<rparr>),
       into (snapshot_module_read_byte m) (\<lambda>b v. v\<lparr>v_x := b\<rparr>),
       into (snapshot_module_read_byte m) (\<lambda>b v. v\<lparr>v_y := b\<rparr>),
       into (snapshot_module_read_byte m) (\<lambda>b v. v\<lparr>v_sp := b\<rparr>),
       into (snapshot_module_read_word m) (\<lambda>w v. v\<lparr>v_pc := w\<rparr>),
       into (snapshot_module_read_byte m) (\<lambda>b v. v\<lparr>v_status := b\<rparr>),
       into (snapshot_module_read_dword_into_uint m) (\<lambda>dw. upd_globals (\<lambda>g. g\<lparr>last_opcode_info := dw\<rparr>)),
       set_vars (\<lambda>v. upd_globals (\<lambda>g. g\<lparr>maincpu_regs := set_regs v (maincpu_regs g)\<rparr>) v),
       on_status (interrupt_read_snapshot m),
       on_status (interrupt_read_new_snapshot m)]"

definition maincpu_snapshot_read_module ::
    "nat \<Rightarrow> 'e globals \<Rightarrow> sfile \<Rightarrow> (bool \<times> 'e globals \<times> sfile) option" where
  "maincpu_snapshot_read_module first g s =
    (case snapshot_module_open first snap_module_name s of
       None \<Rightarrow> None
     | Some (None, s) \<Rightarrow> Some (False, g, s)
     | Some (Some (m, major, minor), s) \<Rightarrow>
         (case maincpu_read_values m
                 \<lparr>v_a = 0, v_x = 0, v_y = 0, v_sp = 0, v_status = 0, v_pc = 0, v_globals = g\<lparr>maincpu_rmw_flag := 0\<rparr>\<rparr> s of
            (ok, v, s) \<Rightarrow>
              (case snapshot_module_close m s of (closed, s) \<Rightarrow> Some (ok \<and> closed \<noteq> None, v_globals v, s))))"

section \<open>Loading what was written\<close>

text \<open>\<open>loads m f bs c c'\<close>: where the module \<open>m\<close> continues with \<open>bs\<close>, \<open>f\<close> reads it and turns the variables \<open>c\<close> into \<open>c'\<close>.\<close>

definition loads :: "smodule \<Rightarrow> 'c loader \<Rightarrow> u8 list \<Rightarrow> 'c \<Rightarrow> 'c \<Rightarrow> bool" where
  "loads m f bs c c' \<longleftrightarrow> (\<forall>s. next_in bs s \<and> inside m (length bs) s \<longrightarrow> f c s = (True, c', moved (length bs) s))"

lemma loads_nil: "loads m (load_all []) [] c c"
  by (simp add: loads_def)

lemma loads_cons: "loads m f bs c c' \<Longrightarrow> loads m (load_all fs) cs c' c'' \<Longrightarrow> loads m (load_all (f # fs)) (bs @ cs) c c''"
  unfolding loads_def by (auto simp: next_append dest!: inside_moved)

lemma loads_set: "loads m (set_vars f) [] c (f c)"
  by (simp add: loads_def set_vars_def)

lemma loads_dword: "loads m (into (snapshot_module_read_dword m) f) (dword_bytes w) c (f w c)"
  by (simp add: loads_def into_def snapshot_module_read_dword_def in_module_reads [OF read_dword [of w]])

lemma loads_word: "loads m (into (snapshot_module_read_word m) f) (word_bytes w) c (f w c)"
  by (simp add: loads_def into_def snapshot_module_read_word_def in_module_reads [OF read_word [of w]])

lemma loads_byte: "loads m (into (snapshot_module_read_byte m) f) [b] c (f b c)"
  by (simp add: loads_def into_def snapshot_module_read_byte_def in_module_reads [OF read_byte [of b]])

lemma loads_int: "loads m (into (snapshot_module_read_dword_into_int m) f) (dword_bytes w) c (f (sint w) c)"
  by (simp add: loads_def into_def snapshot_module_read_dword_into_int_def snapshot_module_read_dword_def sio_then_def sio_ret_def
      in_module_reads [OF read_dword [of w]])

lemma loads_uint: "loads m (into (snapshot_module_read_dword_into_uint m) f) (dword_bytes w) c (f w c)"
  by (simp add: loads_def into_def snapshot_module_read_dword_into_uint_def snapshot_module_read_dword_def sio_then_def sio_ret_def
      in_module_reads [OF read_dword [of w]])

lemmas loads_values = loads_nil loads_set loads_dword loads_word loads_byte loads_int loads_uint

lemma loads_bytes: "loads m f bs c c' \<Longrightarrow> bs = bs' \<Longrightarrow> c' = c'' \<Longrightarrow> loads m f bs' c c''"
  by simp

text \<open>The bytes of the interrupt status, and the status they are read into.\<close>

definition int_fields :: "interrupt_cpu_status \<Rightarrow> sfield list" where
  "int_fields cs =
    [FDword (irq_clk cs), FDword (nmi_clk cs), FDword (irq_pending_clk cs), FDword (dword_of (num_last_stolen_cycles cs)),
     FDword (last_stolen_cycles_clk cs)]"

definition int_new_fields :: "interrupt_cpu_status \<Rightarrow> sfield list" where
  "int_new_fields cs = [FDword (dword_of (nirq cs)), FDword (dword_of (nnmi cs)), FDword (global_pending_int cs)]"

definition int_loaded :: "interrupt_cpu_status \<Rightarrow> interrupt_cpu_status \<Rightarrow> interrupt_cpu_status" where
  "int_loaded cs old = old\<lparr>
     pending_int := replicate (num_ints old) 0, nirq := sint (dword_of (nirq cs)), irq_clk := irq_clk cs,
     nnmi := sint (dword_of (nnmi cs)), nmi_clk := nmi_clk cs, ics_reset := 0, ics_trap := 0,
     num_last_stolen_cycles := sint (dword_of (num_last_stolen_cycles cs)), last_stolen_cycles_clk := last_stolen_cycles_clk cs,
     irq_pending_clk := irq_pending_clk cs, global_pending_int := global_pending_int cs\<rparr>"

lemma pending_cleared: "length ps = n \<Longrightarrow> fold (\<lambda>i ps. ps[i := x]) [0 ..< n] ps = replicate n x"
proof -
  have "fold (\<lambda>i ps. ps[i := x]) [0 ..< k] ps = replicate k x @ drop k ps" if "k \<le> length ps" for k
    using that by (induction k) (simp_all add: list_update_append replicate_append_same flip: Cons_nth_drop_Suc)
  then show "length ps = n \<Longrightarrow> ?thesis" by force
qed

definition int_half :: "interrupt_cpu_status \<Rightarrow> interrupt_cpu_status \<Rightarrow> interrupt_cpu_status" where
  "int_half cs old = (int_loaded cs old)\<lparr>nirq := 0, nnmi := 0, global_pending_int := 0\<rparr>"

lemma int_read:
  assumes "length (pending_int old) = num_ints old"
  shows "loads m (interrupt_read_snapshot m) (body_bytes (int_fields cs)) old (int_half cs old)"
  unfolding interrupt_read_snapshot_def
  by (rule loads_bytes, (rule loads_cons loads_values)+)
    (simp_all add: int_fields_def int_half_def int_loaded_def pending_cleared assms IK_NONE_def, cases old, simp)

lemma int_read_new: "loads m (interrupt_read_new_snapshot m) (body_bytes (int_new_fields cs)) (int_half cs old) (int_loaded cs old)"
  unfolding interrupt_read_new_snapshot_def
  by (rule loads_bytes, (rule loads_cons loads_values)+)
    (simp_all add: int_new_fields_def int_half_def int_loaded_def, cases old, simp)

section \<open>The module of the main CPU\<close>

lemma write_all_cons: "writes (f m) bs m' \<Longrightarrow> writes (write_all fs m') cs m'' \<Longrightarrow> writes (write_all (f # fs) m) (bs @ cs) m''"
  by (simp add: writes_then)

lemma write_all_nil: "writes (write_all [] m) [] m"
  by (simp add: writes_ret)

lemma module_writes:
  "writes (snapshot_module_write_byte m b) [b] (grown m 1)"
  "writes (snapshot_module_write_word m w) (word_bytes w) (grown m 2)"
  "writes (snapshot_module_write_dword m d) (dword_bytes d) (grown m 4)"
  using write_field_bytes [of "FByte b" m] write_field_bytes [of "FWord w" m] write_field_bytes [of "FDword d" m] by simp_all

lemma writes_eq: "writes f bs m \<Longrightarrow> bs = bs' \<Longrightarrow> m = m' \<Longrightarrow> writes f bs' m'"
  by simp

lemma int_write: "writes (interrupt_write_snapshot cs m) (body_bytes (int_fields cs)) (grown m 20)"
  unfolding interrupt_write_snapshot_def
  by (rule writes_eq, (rule write_all_cons write_all_nil module_writes)+) (simp_all add: int_fields_def)

lemma int_write_new: "writes (interrupt_write_new_snapshot cs m) (body_bytes (int_new_fields cs)) (grown m 12)"
  unfolding interrupt_write_new_snapshot_def
  by (rule writes_eq, (rule write_all_cons write_all_nil module_writes)+) (simp_all add: int_new_fields_def)

definition cpu_fields :: "'e globals \<Rightarrow> sfield list" where
  "cpu_fields g =
    [FDword (maincpu_clk g), FByte (mr_a (maincpu_regs g)), FByte (mr_x (maincpu_regs g)), FByte (mr_y (maincpu_regs g)),
     FByte (mr_sp (maincpu_regs g)), FWord (ucast (mr_pc (maincpu_regs g))), FByte (MOS6510_REGS_GET_STATUS (maincpu_regs g)),
     FDword (last_opcode_info g)] @ int_fields (maincpu_int_status g) @ int_new_fields (maincpu_int_status g)"

definition cpu_content :: "'e globals \<Rightarrow> content" where
  "cpu_content g = \<lparr>c_name = snap_module_name, c_major = SNAP_MAJOR, c_minor = SNAP_MINOR, c_fields = cpu_fields g\<rparr>"

lemma body_append [simp]: "body_bytes (fs @ gs) = body_bytes fs @ body_bytes gs"
  by (simp add: body_bytes_def)

lemma cpu_body_length: "length (body_bytes (cpu_fields g)) = 47"
  by (simp add: cpu_fields_def int_fields_def int_new_fields_def)

lemma cpu_content_ok: "content_ok (cpu_content g)"
proof -
  have "\<forall>f \<in> set (cpu_fields g). field_ok f" by (simp add: cpu_fields_def int_fields_def int_new_fields_def)
  moreover have "name_ok snap_module_name" by (simp add: name_ok_def snap_module_name_def SNAPSHOT_MODULE_NAME_LEN_def)
  ultimately show ?thesis
    by (simp add: content_ok_def cpu_content_def module_size_def cpu_body_length head_size_def SNAPSHOT_MODULE_NAME_LEN_def)
qed

lemma cpu_write: "writes (maincpu_write_values g m) (body_bytes (cpu_fields g)) (grown m (length (body_bytes (cpu_fields g))))"
  unfolding cpu_body_length maincpu_write_values_def
  by (rule writes_eq, (rule write_all_cons write_all_nil module_writes int_write int_write_new)+) (simp_all add: cpu_fields_def)

lemma cpu_module_written: "at_end s \<Longrightarrow> maincpu_snapshot_write_module g s = (Some (), appended (module_bytes (cpu_content g)) s)"
proof -
  assume e: "at_end s"
  obtain m where c: "snapshot_module_create snap_module_name SNAP_MAJOR SNAP_MINOR s = (Some m, appended (head_bytes (cpu_content g) 0) s)"
    using module_create [OF e, of "cpu_content g"] by (simp add: cpu_content_def)
  have a: "at_end (appended (head_bytes (cpu_content g) 0) s)" using e by simp
  have "\<forall>f \<in> set (cpu_fields g). field_ok f" using cpu_content_ok [of g] by (simp add: content_ok_def cpu_content_def)
  from writesD [OF write_fields_bytes [OF this] a] writesD [OF cpu_write [of g] a]
  have "maincpu_snapshot_write_module g s = write_module (cpu_content g) s"
    by (simp add: maincpu_snapshot_write_module_def write_module_def sio_then_def c cpu_content_def)
  then show ?thesis using writesD [OF module_written [OF cpu_content_ok] e] by simp
qed

lemma loads_status:
  "loads m f bs (maincpu_int_status (v_globals v)) cs \<Longrightarrow>
   loads m (on_status f) bs v (upd_globals (\<lambda>g. g\<lparr>maincpu_int_status := cs\<rparr>) v)"
  by (auto simp: loads_def on_status_def)

text \<open>The globals \<open>h\<close> after the state of \<open>g\<close> is loaded into them.\<close>

definition cpu_loaded :: "'e globals \<Rightarrow> 'e globals \<Rightarrow> 'e globals" where
  "cpu_loaded g h = h\<lparr>
     maincpu_rmw_flag := 0, maincpu_clk := maincpu_clk g, last_opcode_info := last_opcode_info g,
     maincpu_regs := MOS6510_REGS_SET_STATUS (MOS6510_REGS_GET_STATUS (maincpu_regs g))
       ((maincpu_regs g)\<lparr>mr_pc := mr_pc (maincpu_regs g) AND 0xffff\<rparr>),
     maincpu_int_status := int_loaded (maincpu_int_status g) (maincpu_int_status h)\<rparr>"

lemma set_regs_eq:
  "set_regs \<lparr>v_a = mr_a r, v_x = mr_x r, v_y = mr_y r, v_sp = mr_sp r, v_status = st, v_pc = ucast (mr_pc r), v_globals = g\<rparr> r' =
   MOS6510_REGS_SET_STATUS st (r\<lparr>mr_pc := mr_pc r AND 0xffff\<rparr>)"
proof -
  have "mr_pc r AND 0xffff = take_bit 16 (mr_pc r)" by (simp add: take_bit_eq_mask mask_eq_exp_minus_1)
  then have "ucast (ucast (mr_pc r) :: u16) = mr_pc r AND 0xffff"
    by (auto intro!: bit_word_eqI simp: bit_ucast_iff bit_take_bit_iff)
  then show ?thesis by (cases r, cases r') (simp add: set_regs_def MOS6510_REGS_SET_STATUS_def)
qed

lemma cpu_read:
  assumes l: "length (pending_int (maincpu_int_status h)) = num_ints (maincpu_int_status h)"
  shows "\<exists>v. loads m (maincpu_read_values m) (body_bytes (cpu_fields g))
     \<lparr>v_a = 0, v_x = 0, v_y = 0, v_sp = 0, v_status = 0, v_pc = 0, v_globals = h\<lparr>maincpu_rmw_flag := 0\<rparr>\<rparr> v \<and>
     v_globals v = cpu_loaded g h"
proof -
  let ?cs = "maincpu_int_status g"
  let ?h = "h\<lparr>maincpu_rmw_flag := 0, maincpu_clk := maincpu_clk g, last_opcode_info := last_opcode_info g\<rparr>"
  let ?v = "\<lambda>g'. \<lparr>v_a = mr_a (maincpu_regs g), v_x = mr_x (maincpu_regs g), v_y = mr_y (maincpu_regs g), v_sp = mr_sp (maincpu_regs g),
      v_status = MOS6510_REGS_GET_STATUS (maincpu_regs g), v_pc = ucast (mr_pc (maincpu_regs g)), v_globals = g'\<rparr>"
  let ?h1 = "?h\<lparr>maincpu_regs := set_regs (?v ?h) (maincpu_regs ?h)\<rparr>"
  let ?h2 = "?h1\<lparr>maincpu_int_status := int_half ?cs (maincpu_int_status h)\<rparr>"
  have a: "loads m (on_status (interrupt_read_snapshot m)) (body_bytes (int_fields ?cs)) (?v ?h1) (?v ?h2)"
    using loads_status [of m _ "body_bytes (int_fields ?cs)" "?v ?h1", OF int_read] l by (simp add: upd_globals_def)
  have b: "loads m (on_status (interrupt_read_new_snapshot m)) (body_bytes (int_new_fields ?cs)) (?v ?h2) (?v (cpu_loaded g h))"
  proof (rule loads_bytes [OF loads_status refl])
    show "loads m (interrupt_read_new_snapshot m) (body_bytes (int_new_fields ?cs)) (maincpu_int_status (v_globals (?v ?h2)))
        (int_loaded ?cs (maincpu_int_status h))"
      using int_read_new by simp
  qed (simp add: upd_globals_def cpu_loaded_def set_regs_eq)
  have "loads m (maincpu_read_values m) (dword_bytes (maincpu_clk g) @ [mr_a (maincpu_regs g)] @ [mr_x (maincpu_regs g)] @
      [mr_y (maincpu_regs g)] @ [mr_sp (maincpu_regs g)] @ word_bytes (ucast (mr_pc (maincpu_regs g))) @
      [MOS6510_REGS_GET_STATUS (maincpu_regs g)] @ dword_bytes (last_opcode_info g) @ [] @ body_bytes (int_fields ?cs) @
      body_bytes (int_new_fields ?cs) @ [])
     \<lparr>v_a = 0, v_x = 0, v_y = 0, v_sp = 0, v_status = 0, v_pc = 0, v_globals = h\<lparr>maincpu_rmw_flag := 0\<rparr>\<rparr> (?v (cpu_loaded g h))"
    unfolding maincpu_read_values_def
    by (rule loads_cons [OF loads_dword], rule loads_cons [OF loads_byte], rule loads_cons [OF loads_byte],
        rule loads_cons [OF loads_byte], rule loads_cons [OF loads_byte], rule loads_cons [OF loads_word],
        rule loads_cons [OF loads_byte], rule loads_cons [OF loads_uint], rule loads_cons [OF loads_set],
        rule loads_cons [where c' = "?v ?h2"], use a in \<open>simp add: upd_globals_def\<close>, rule loads_cons [OF b loads_nil])
  then show ?thesis by (intro exI [of _ "?v (cpu_loaded g h)"]) (simp add: cpu_fields_def)
qed

section \<open>Properties\<close>

lemma place_in_middle:
  "\<forall>c \<in> set cs. c_name c \<noteq> c_name x \<Longrightarrow> place_of (c_name x) (cs @ x # cs') = Some (length (file_bytes cs), x)"
  by (induction cs) simp_all

lemma status_loaded: "MOS6510_REGS_GET_STATUS (MOS6510_REGS_SET_STATUS (MOS6510_REGS_GET_STATUS r) r') = MOS6510_REGS_GET_STATUS r"
proof -
  have p: "bit P_ZERO n \<longleftrightarrow> n = 1" "bit P_SIGN n \<longleftrightarrow> n = 7" "bit P_UNUSED n \<longleftrightarrow> n = 5" for n
    unfolding P_ZERO_def P_SIGN_def P_UNUSED_def bit_push_bit_iff bit_1_iff by auto
  have s: "v AND 0x80 = v AND P_SIGN" for v :: u8 by (simp add: P_SIGN_def)
  have z: "v AND P_ZERO = 0 \<longleftrightarrow> \<not> bit v 1" for v :: u8
    by (simp only: P_ZERO_def bit_iff_and_push_bit_not_eq_0 [of v] not_not)
  have "MOS6510_REGS_GET_STATUS (MOS6510_REGS_SET_STATUS v r') = v OR P_UNUSED" for v
    unfolding MOS6510_REGS_GET_STATUS_def MOS6510_REGS_SET_STATUS_def s
    by (rule bit_word_eqI) (auto simp: z p bit_or_iff bit_and_iff bit_not_iff)
  moreover have "MOS6510_REGS_GET_STATUS r OR P_UNUSED = MOS6510_REGS_GET_STATUS r"
    by (rule bit_word_eqI) (auto simp: MOS6510_REGS_GET_STATUS_def bit_simps)
  ultimately show ?thesis by simp
qed

lemma cpu_module_read:
  assumes cs: "\<forall>c \<in> set (cs @ cs'). content_ok c" and other: "\<forall>c \<in> set cs. c_name c \<noteq> snap_module_name"
    and l: "length (pending_int (maincpu_int_status h)) = num_ints (maincpu_int_status h)"
    and u: "\<not> sf_writable u" "drop first (sf_data u) = file_bytes (cs @ cpu_content g # cs')"
  shows "\<exists>w. maincpu_snapshot_read_module first h u = Some (True, cpu_loaded g h, w)"
proof -
  let ?n = "length (file_bytes cs)" and ?l = "length (body_bytes (cpu_fields g))"
  let ?m = "opened (first + ?n) (cpu_content g)" and ?t = "u\<lparr>sf_pos := first + ?n + head_size\<rparr>"
  have name: "name_ok snap_module_name" by (simp add: name_ok_def snap_module_name_def SNAPSHOT_MODULE_NAME_LEN_def)
  have p: "place_of snap_module_name (cs @ cpu_content g # cs') = Some (?n, cpu_content g)"
    using place_in_middle [of cs "cpu_content g" cs'] other by (simp add: cpu_content_def)
  have o: "snapshot_module_open first snap_module_name u = Some (Some (?m, SNAP_MAJOR, SNAP_MINOR), ?t)"
    using search_finds [of "cs @ cpu_content g # cs'" snap_module_name "u\<lparr>sf_pos := first\<rparr>" first first] cs u name cpu_content_ok [of g]
    by (simp add: snapshot_module_open_def p) (simp add: cpu_content_def)
  have sz: "unat (sm_size ?m) = module_size (cpu_content g)"
    using cpu_content_ok [of g] by (simp add: opened_def content_ok_def unsigned_of_nat take_bit_nat_eq_self)
  have "drop (first + ?n + head_size) (sf_data u) = drop head_size (drop ?n (drop first (sf_data u)))"
    by (simp add: add.commute add.left_commute)
  also have "\<dots> = body_bytes (cpu_fields g) @ file_bytes cs'"
    by (simp add: u file_bytes_def module_bytes_def) (simp add: cpu_content_def)
  finally have n: "next_in (body_bytes (cpu_fields g)) ?t" using u by (auto simp: next_in_def)
  have b: "inside ?m ?l ?t" by (simp add: inside_def sz) (simp add: opened_def module_size_def cpu_content_def)
  obtain v where "loads ?m (maincpu_read_values ?m) (body_bytes (cpu_fields g))
     \<lparr>v_a = 0, v_x = 0, v_y = 0, v_sp = 0, v_status = 0, v_pc = 0, v_globals = h\<lparr>maincpu_rmw_flag := 0\<rparr>\<rparr> v"
    "v_globals v = cpu_loaded g h"
    using cpu_read [OF l] by blast
  then have "maincpu_read_values ?m
      \<lparr>v_a = 0, v_x = 0, v_y = 0, v_sp = 0, v_status = 0, v_pc = 0, v_globals = h\<lparr>maincpu_rmw_flag := 0\<rparr>\<rparr> ?t = (True, v, moved ?l ?t)"
    "v_globals v = cpu_loaded g h"
    using n b by (auto simp: loads_def)
  moreover have "\<not> sm_write_mode ?m" by (simp add: opened_def)
  ultimately show ?thesis
    by (simp add: maincpu_snapshot_read_module_def o snapshot_module_close_def sio_then_def sio_ret_def sio_seek_def)
qed

text \<open>
  C10 (cpu_snapshot_restores). The state of the main CPU is written as a module among others. Reading it from the finished file
  succeeds whatever follows, and restores clock, registers, processor status and the last opcode; the program counter is cut to
  16 bits, the interrupt clocks, counters and global flags are restored and the sources are all released.
\<close>

theorem cpu_snapshot_restores:
  fixes g h :: "'e globals"
  assumes "\<forall>c \<in> set (cs @ cs'). content_ok c" and "\<forall>c \<in> set cs. c_name c \<noteq> snap_module_name"
    and "length (pending_int (maincpu_int_status h)) = num_ints (maincpu_int_status h)"
    and "sf_writable s" and "sf_pos s = length (sf_data s)" and "sf_data s = prefix @ file_bytes cs"
  shows "\<exists>t. maincpu_snapshot_write_module g s = (Some (), t) \<and>
    (\<forall>u. \<exists>h' w.
      maincpu_snapshot_read_module (length prefix) h (u\<lparr>sf_data := sf_data t @ file_bytes cs', sf_writable := False\<rparr>) = Some (True, h', w) \<and>
      h' = h\<lparr>maincpu_rmw_flag := 0, maincpu_clk := maincpu_clk g, last_opcode_info := last_opcode_info g,
             maincpu_regs := maincpu_regs h', maincpu_int_status := maincpu_int_status h'\<rparr> \<and>
      mr_a (maincpu_regs h') = mr_a (maincpu_regs g) \<and> mr_x (maincpu_regs h') = mr_x (maincpu_regs g) \<and>
      mr_y (maincpu_regs h') = mr_y (maincpu_regs g) \<and> mr_sp (maincpu_regs h') = mr_sp (maincpu_regs g) \<and>
      mr_pc (maincpu_regs h') = mr_pc (maincpu_regs g) AND 0xffff \<and>
      MOS6510_REGS_GET_STATUS (maincpu_regs h') = MOS6510_REGS_GET_STATUS (maincpu_regs g) \<and>
      maincpu_int_status h' = int_loaded (maincpu_int_status g) (maincpu_int_status h))"
proof -
  have "at_end s" using assms(4,5) by (simp add: at_end_def)
  from cpu_module_written [OF this, of g] assms(6) obtain t
    where t: "maincpu_snapshot_write_module g s = (Some (), t)" and d: "sf_data t = prefix @ file_bytes cs @ module_bytes (cpu_content g)"
    by simp
  have "\<exists>w. maincpu_snapshot_read_module (length prefix) h (u\<lparr>sf_data := sf_data t @ file_bytes cs', sf_writable := False\<rparr>) =
      Some (True, cpu_loaded g h, w)" for u
    by (rule cpu_module_read [OF assms(1-3)]) (simp_all add: d file_bytes_def)
  moreover have "cpu_loaded g h = h\<lparr>maincpu_rmw_flag := 0, maincpu_clk := maincpu_clk g, last_opcode_info := last_opcode_info g,
      maincpu_regs := maincpu_regs (cpu_loaded g h), maincpu_int_status := maincpu_int_status (cpu_loaded g h)\<rparr> \<and>
      MOS6510_REGS_GET_STATUS (maincpu_regs (cpu_loaded g h)) = MOS6510_REGS_GET_STATUS (maincpu_regs g)"
    by (simp add: cpu_loaded_def status_loaded)
  moreover have "mr_a (maincpu_regs (cpu_loaded g h)) = mr_a (maincpu_regs g)" "mr_x (maincpu_regs (cpu_loaded g h)) = mr_x (maincpu_regs g)"
    "mr_y (maincpu_regs (cpu_loaded g h)) = mr_y (maincpu_regs g)" "mr_sp (maincpu_regs (cpu_loaded g h)) = mr_sp (maincpu_regs g)"
    "mr_pc (maincpu_regs (cpu_loaded g h)) = mr_pc (maincpu_regs g) AND 0xffff"
    "maincpu_int_status (cpu_loaded g h) = int_loaded (maincpu_int_status g) (maincpu_int_status h)"
    by (simp_all add: cpu_loaded_def MOS6510_REGS_SET_STATUS_def)
  ultimately show ?thesis using t by blast
qed

definition wit_regs :: mos6510_regs where
  "wit_regs = \<lparr>mr_pc = 0x1C000, mr_a = 1, mr_x = 2, mr_y = 3, mr_sp = 0xf0, mr_p = 1, mr_n = 0x80, mr_z = 0\<rparr>"

definition wit_globals :: "unit globals" where
  "wit_globals = \<lparr>maincpu_clk = 1000, maincpu_int_status = zeroed_status, maincpu_alarm_context = wit_start, maincpu_rmw_flag = 1,
     last_opcode_info = 0x1ea, last_opcode_addr = 0, maincpu_regs = wit_regs, reg_pc = 0, bank_base = 0, bank_start = 0, bank_limit = 0,
     mem_ram = (\<lambda>_. 0), fault = False, dev = ()\<rparr>"

theorem cpu_snapshot_restores_witness:
  "\<exists>t h' w. maincpu_snapshot_write_module wit_globals \<lparr>sf_data = [], sf_pos = 0, sf_writable = True, snapshot_error = 0\<rparr> = (Some (), t) \<and>
    maincpu_snapshot_read_module 0 (wit_globals\<lparr>maincpu_clk := 5\<rparr>)
      \<lparr>sf_data = sf_data t, sf_pos = 0, sf_writable = False, snapshot_error = 0\<rparr> = (Some (True, h', w)) \<and>
    maincpu_clk h' = 1000 \<and> mr_pc (maincpu_regs h') = 0xC000"
proof -
  let ?s = "\<lparr>sf_data = [], sf_pos = 0, sf_writable = True, snapshot_error = 0\<rparr>"
  have z: "length (pending_int (maincpu_int_status (wit_globals\<lparr>maincpu_clk := 5\<rparr>))) = num_ints (maincpu_int_status (wit_globals\<lparr>maincpu_clk := 5\<rparr>))"
    by (simp add: wit_globals_def zeroed_status_def)
  have pc: "mr_pc (maincpu_regs wit_globals) AND 0xffff = 0xC000" "maincpu_clk wit_globals = 1000" by (simp_all add: wit_globals_def wit_regs_def)
  obtain t where t: "maincpu_snapshot_write_module wit_globals ?s = (Some (), t)"
    and u: "\<And>u. \<exists>h' w. maincpu_snapshot_read_module 0 (wit_globals\<lparr>maincpu_clk := 5\<rparr>) (u\<lparr>sf_data := sf_data t, sf_writable := False\<rparr>) = Some (True, h', w) \<and>
      h' = (wit_globals\<lparr>maincpu_clk := 5\<rparr>)\<lparr>maincpu_rmw_flag := 0, maincpu_clk := maincpu_clk wit_globals,
        last_opcode_info := last_opcode_info wit_globals, maincpu_regs := maincpu_regs h', maincpu_int_status := maincpu_int_status h'\<rparr> \<and>
      mr_pc (maincpu_regs h') = mr_pc (maincpu_regs wit_globals) AND 0xffff"
    using cpu_snapshot_restores [of "[]" "[]", OF _ _ z, of ?s "[]" wit_globals] by (simp add: file_bytes_def) blast
  obtain h' w where h: "maincpu_snapshot_read_module 0 (wit_globals\<lparr>maincpu_clk := 5\<rparr>) (?s\<lparr>sf_data := sf_data t, sf_writable := False\<rparr>) = Some (True, h', w)"
    and e: "h' = (wit_globals\<lparr>maincpu_clk := 5\<rparr>)\<lparr>maincpu_rmw_flag := 0, maincpu_clk := maincpu_clk wit_globals,
        last_opcode_info := last_opcode_info wit_globals, maincpu_regs := maincpu_regs h', maincpu_int_status := maincpu_int_status h'\<rparr>"
    and p: "mr_pc (maincpu_regs h') = 0xC000"
    using u [of ?s] unfolding pc(1) by blast
  have "maincpu_clk h' = 1000" using arg_cong [where f = maincpu_clk, OF e] by (simp add: pc)
  with t h p show ?thesis by simp
qed

section \<open>Interrupt sources\<close>

text \<open>
  What the chips do when their own modules are read: each restores its sources with \<open>interrupt_restore_irq\<close> and
  \<open>interrupt_restore_nmi\<close>.
\<close>

definition restore_source :: "interrupt_cpu_status \<Rightarrow> nat \<Rightarrow> interrupt_cpu_status \<Rightarrow> interrupt_cpu_status option" where
  "restore_source saved i cs = do {
     irq \<leftarrow> interrupt_get_irq saved (int i);
     nmi \<leftarrow> interrupt_get_nmi saved (int i);
     cs \<leftarrow> interrupt_restore_irq cs (int i) (uint irq);
     interrupt_restore_nmi cs (int i) (uint nmi)
   }"

fun restore_sources :: "interrupt_cpu_status \<Rightarrow> nat list \<Rightarrow> interrupt_cpu_status \<Rightarrow> interrupt_cpu_status option" where
  "restore_sources saved [] cs = Some cs"
| "restore_sources saved (i # xs) cs = do { cs \<leftarrow> restore_source saved i cs; restore_sources saved xs cs }"

lemma restored_source:
  assumes "i < length (pending_int saved)" "i < length (pending_int cs)"
  shows "\<exists>p. restore_source saved i cs = Some (cs\<lparr>pending_int := (pending_int cs)[i := p]\<rparr>) \<and>
    bit p 0 = bit (pending_int saved ! i) 0 \<and> bit p 1 = bit (pending_int saved ! i) 1"
proof -
  have one: "uint (w AND IK_IRQ) \<noteq> 0 \<longleftrightarrow> bit w 1" "uint (w AND IK_NMI) \<noteq> 0 \<longleftrightarrow> bit w 0" for w
  proof -
    have "bit (w AND IK_IRQ) n \<longleftrightarrow> n = 1 \<and> bit w 1" "bit (w AND IK_NMI) n \<longleftrightarrow> n = 0 \<and> bit w 0" for n
      by (auto simp: bit_ik bit_and_iff)
    then show "uint (w AND IK_IRQ) \<noteq> 0 \<longleftrightarrow> bit w 1" "uint (w AND IK_NMI) \<noteq> 0 \<longleftrightarrow> bit w 0"
      by (simp_all add: uint_0_iff bit_eq_iff [of "w AND IK_IRQ" 0] bit_eq_iff [of "w AND IK_NMI" 0])
  qed
  show ?thesis
    using assms by (auto simp: restore_source_def interrupt_get_irq_def interrupt_get_nmi_def interrupt_restore_irq_def
        interrupt_restore_nmi_def or_pending_def clear_pending_def one bit_or_iff bit_and_iff bit_not_iff bit_ik)
qed

lemma restored_sources:
  assumes "length (pending_int saved) = n" "length (pending_int cs) = n" "\<forall>i \<in> set xs. i < n"
  shows "\<exists>ps. restore_sources saved xs cs = Some (cs\<lparr>pending_int := ps\<rparr>) \<and> length ps = n \<and>
    (\<forall>i < n. if i \<in> set xs then bit (ps ! i) 0 = bit (pending_int saved ! i) 0 \<and> bit (ps ! i) 1 = bit (pending_int saved ! i) 1
      else ps ! i = pending_int cs ! i)"
  using assms
proof (induction xs arbitrary: cs)
  case (Cons i xs)
  then obtain p where p: "restore_source saved i cs = Some (cs\<lparr>pending_int := (pending_int cs)[i := p]\<rparr>)"
    "bit p 0 = bit (pending_int saved ! i) 0" "bit p 1 = bit (pending_int saved ! i) 1"
    using restored_source [of i saved cs] by auto
  let ?cs = "cs\<lparr>pending_int := (pending_int cs)[i := p]\<rparr>"
  have "length (pending_int saved) = n" "length (pending_int ?cs) = n" "\<forall>j \<in> set xs. j < n" using Cons.prems by simp_all
  from Cons.IH [OF this] obtain ps where r: "restore_sources saved xs ?cs = Some (?cs\<lparr>pending_int := ps\<rparr>)" and l: "length ps = n"
    and b: "\<forall>j < n. if j \<in> set xs
        then bit (ps ! j) 0 = bit (pending_int saved ! j) 0 \<and> bit (ps ! j) 1 = bit (pending_int saved ! j) 1
        else ps ! j = pending_int ?cs ! j"
    by blast
  have "if j \<in> set (i # xs) then bit (ps ! j) 0 = bit (pending_int saved ! j) 0 \<and> bit (ps ! j) 1 = bit (pending_int saved ! j) 1
      else ps ! j = pending_int cs ! j" if "j < n" for j
    using spec [OF b, of j] p(2,3) Cons.prems(2) that by (cases "j \<in> set xs"; cases "j = i") simp_all
  moreover have "restore_sources saved (i # xs) cs = Some (cs\<lparr>pending_int := ps\<rparr>)" using p(1) r by simp
  ultimately show ?case using l by blast
qed (simp, metis interrupt_cpu_status.surjective interrupt_cpu_status.update_convs(2))

lemma count_src_cong: "length ps = length qs \<Longrightarrow> (\<And>i. i < length ps \<Longrightarrow> bit (ps ! i) k = bit (qs ! i) k) \<Longrightarrow> count_src k ps = count_src k qs"
proof (induction ps qs rule: list_induct2)
  case (Cons p ps q qs)
  from Cons.prems [of 0] Cons.prems [of "Suc i" for i] Cons.IH show ?case by (auto simp: count_src_def)
qed simp

lemma int_state_read:
  assumes "length (pending_int old) = num_ints old"
  shows "loads m (load_all [interrupt_read_snapshot m, interrupt_read_new_snapshot m])
    (body_bytes (int_fields cs) @ body_bytes (int_new_fields cs) @ []) old (int_loaded cs old)"
  by (rule loads_cons [OF int_read [OF assms]], rule loads_cons [OF int_read_new loads_nil])

lemma dword_count:
  assumes "int (length ps) < 2 ^ 31"
  shows "sint (dword_of (count_src k ps)) = count_src k ps"
proof -
  have "count_src k ps \<le> int (length ps)" by (simp add: count_src_def)
  with assms have "count_src k ps < 2 ^ 31" by linarith
  moreover have "- (2 ^ 31) \<le> count_src k ps" by (rule order_trans [of _ 0]) simp_all
  ultimately have "signed_take_bit 31 (count_src k ps) = count_src k ps" by (simp only: signed_take_bit_int_eq_self)
  then show ?thesis by (simp add: dword_of_def signed_of_int)
qed

text \<open>
  C11 (int_snapshot_restores). An interrupt status that satisfies the invariant is written to a module and read into the status of
  another machine with the same sources. After every source is restored, in any order, the invariant holds again and each source
  holds the lines it held, so that the counters and the line agree with them.
\<close>

theorem int_snapshot_restores:
  assumes "int_inv cs" and "int_inv old" and "num_ints old = num_ints cs" and "int (num_ints cs) < 2 ^ 31"
    and "set xs = {..< num_ints cs}"
    and "at_end t" and "interrupt_write_snapshot cs m t = (Some m1, t1)" and "interrupt_write_new_snapshot cs m1 t1 = (Some m2, t2)"
    and "sf_data t2 = sf_data t @ bs" and "next_in bs s" and "inside m' (length bs) s"
  shows "\<exists>cs1 s' cs'. load_all [interrupt_read_snapshot m', interrupt_read_new_snapshot m'] old s = (True, cs1, s') \<and>
    restore_sources cs xs cs1 = Some cs' \<and> int_inv cs' \<and> irq_clk cs' = irq_clk cs \<and> nmi_clk cs' = nmi_clk cs \<and>
    global_pending_int cs' = global_pending_int cs \<and>
    (\<forall>i. irq_src cs' i = irq_src cs i \<and> nmi_src cs' i = nmi_src cs i)"
proof -
  let ?cs1 = "int_loaded cs old"
  have l: "length (pending_int cs) = num_ints cs" "length (pending_int old) = num_ints old" using assms(1,2) by (simp_all add: int_inv_def)
  have t1: "t1 = appended (body_bytes (int_fields cs)) t" using writesD [OF int_write assms(6)] assms(7) by simp
  with assms(6) have t2: "t2 = appended (body_bytes (int_new_fields cs)) t1"
    using writesD [OF int_write_new, of t1 cs m1] assms(8) by simp
  have bs: "bs = body_bytes (int_fields cs) @ body_bytes (int_new_fields cs) @ []" using assms(9) by (simp add: t1 t2)
  with int_state_read [OF l(2), of m' cs] assms(10,11)
  have read: "load_all [interrupt_read_snapshot m', interrupt_read_new_snapshot m'] old s = (True, ?cs1, moved (length bs) s)"
    unfolding loads_def by blast
  obtain ps where r: "restore_sources cs xs ?cs1 = Some (?cs1\<lparr>pending_int := ps\<rparr>)" and n: "length ps = num_ints cs"
    and b: "\<And>i. i < num_ints cs \<Longrightarrow> bit (ps ! i) 0 = bit (pending_int cs ! i) 0 \<and> bit (ps ! i) 1 = bit (pending_int cs ! i) 1"
    using restored_sources [of cs "num_ints cs" ?cs1 xs] l assms(3,5) by (auto simp: int_loaded_def)
  have count: "count_src 0 ps = count_src 0 (pending_int cs)" "count_src 1 ps = count_src 1 (pending_int cs)"
    using b n l by (auto intro!: count_src_cong)
  have "int_inv (?cs1\<lparr>pending_int := ps\<rparr>)"
    using assms(1,2,3,4) n l count dword_count [of "pending_int cs"] by (simp add: int_inv_def int_loaded_def dma_ok_def)
  moreover have "irq_src (?cs1\<lparr>pending_int := ps\<rparr>) i = irq_src cs i \<and> nmi_src (?cs1\<lparr>pending_int := ps\<rparr>) i = nmi_src cs i" for i
    using b [of i] assms(3) by (auto simp: irq_src_def nmi_src_def int_loaded_def)
  moreover have "irq_clk (?cs1\<lparr>pending_int := ps\<rparr>) = irq_clk cs" "nmi_clk (?cs1\<lparr>pending_int := ps\<rparr>) = nmi_clk cs"
      "global_pending_int (?cs1\<lparr>pending_int := ps\<rparr>) = global_pending_int cs"
    by (simp_all add: int_loaded_def)
  ultimately show ?thesis using read r by blast
qed

definition wit_saved_module :: smodule where
  "wit_saved_module = \<lparr>sm_write_mode = False, sm_size = 32, sm_offset = 0, sm_size_offset = 0\<rparr>"

theorem int_snapshot_restores_witness:
  "\<exists>cs m1 t1 m2 t2 cs1 s' cs'. interrupt_set_irq 0 wit_cs 0 1 20 = Some cs \<and>
     interrupt_write_snapshot cs wit_saved_module wit_file = (Some m1, t1) \<and>
     interrupt_write_new_snapshot cs m1 t1 = (Some m2, t2) \<and>
     load_all [interrupt_read_snapshot wit_saved_module, interrupt_read_new_snapshot wit_saved_module] wit_cs
       \<lparr>sf_data = sf_data t2, sf_pos = 0, sf_writable = False, snapshot_error = 0\<rparr> = (True, cs1, s') \<and>
     restore_sources cs [1, 0] cs1 = Some cs' \<and> irq_src cs' 0"
proof -
  have i0: "int_inv wit_cs" by (rule int_reach_inv [OF wit_cs_reach])
  obtain cs where c: "interrupt_set_irq 0 wit_cs 0 1 20 = Some cs" and i: "int_inv cs" and n: "num_ints cs = num_ints wit_cs"
    and src: "irq_src cs 0"
    using interrupt_set_irq_ok [OF i0, of 0 0 1 20] by (auto simp: wit_cs_fields)
  have e: "at_end wit_file" by (simp add: at_end_def wit_file_def)
  obtain m1 t1 where w1: "interrupt_write_snapshot cs wit_saved_module wit_file = (Some m1, t1)"
    "t1 = appended (body_bytes (int_fields cs)) wit_file"
    using writesD [OF int_write e, of cs wit_saved_module] by blast
  from e have a: "at_end t1" by (simp add: w1)
  from writesD [OF int_write_new a, of cs m1] obtain m2 t2 where
    w2: "interrupt_write_new_snapshot cs m1 t1 = (Some m2, t2)" "t2 = appended (body_bytes (int_new_fields cs)) t1"
    by blast
  let ?s = "\<lparr>sf_data = sf_data t2, sf_pos = 0, sf_writable = False, snapshot_error = 0\<rparr>"
  have d: "sf_data t2 = sf_data wit_file @ sf_data t2" by (simp add: wit_file_def)
  have l: "length (sf_data t2) = 32" by (simp add: w1 w2 wit_file_def int_fields_def int_new_fields_def)
  have "set [1, 0] = {..< num_ints cs}" by (auto simp: n wit_cs_fields)
  from int_snapshot_restores [OF i i0 n [symmetric] _ this e w1(1) w2(1) d, of ?s wit_saved_module]
  obtain cs1 s' cs' where "load_all [interrupt_read_snapshot wit_saved_module, interrupt_read_new_snapshot wit_saved_module] wit_cs ?s =
      (True, cs1, s')" "restore_sources cs [1, 0] cs1 = Some cs'" "irq_src cs' 0 = irq_src cs 0"
    by (auto simp: n wit_cs_fields next_in_def inside_def wit_saved_module_def l)
  with c w1(1) w2(1) src show ?thesis by blast
qed

end
